(* ===== verification/Prelude.thy ===== *)
theory Prelude
  imports Complex_Main "HOL-Library.Word"
begin

text \<open>
  Shared vocabulary of the development. Times are nanoseconds since the Unix epoch, durations are
  nanoseconds, byte counts are Go \<open>int64\<close> values; all three are \<open>int\<close>, with the wrap-around of
  a 64-bit signed addition or multiplication written out as \<open>wrap64\<close> wherever the code's
  arithmetic can leave the range. An operation that returns Go's \<open>(T, error)\<close> returns a sum:
  \<open>Inl\<close> the error, \<open>Inr\<close> the value.
\<close>

named_theorems err_simps "unfolding of the fallible-result combinators"

type_synonym time = int
type_synonym duration = int
type_synonym path = string

subsection \<open>64-bit signed arithmetic\<close>

definition max_i64 :: int where "max_i64 = 2 ^ 63 - 1"

definition min_i64 :: int where "min_i64 = - (2 ^ 63)"

definition wrap64 :: "int \<Rightarrow> int" where
  "wrap64 x = sint (word_of_int x :: 64 word)"

text \<open>Unsigned 64-bit arithmetic wraps modulo 2 ^ 64.\<close>

definition wrap_u64 :: "int \<Rightarrow> int" where
  "wrap_u64 n = n mod 2 ^ 64"

definition in_i64 :: "int \<Rightarrow> bool" where
  "in_i64 x \<longleftrightarrow> min_i64 \<le> x \<and> x \<le> max_i64"

lemma wrap64_mod: "wrap64 x = (x + 2 ^ 63) mod 2 ^ 64 - 2 ^ 63"
  by (simp add: wrap64_def sint_word_ariths(1) signed_take_bit_eq_take_bit_shift
      take_bit_eq_mod sint_sbintrunc')

lemma wrap64_id [simp]: "in_i64 x \<Longrightarrow> wrap64 x = x"
  by (simp add: wrap64_mod in_i64_def min_i64_def max_i64_def)

lemma in_i64_wrap64 [simp]: "in_i64 (wrap64 x)"
proof -
  have "0 \<le> (x + 2 ^ 63) mod 2 ^ 64" "(x + 2 ^ 63) mod 2 ^ 64 < 2 ^ 64"
    by simp_all
  then show ?thesis
    unfolding wrap64_mod in_i64_def min_i64_def max_i64_def by simp
qed

lemma wrap64_idem [simp]: "wrap64 (wrap64 x) = wrap64 x"
  by simp

text \<open>\<open>time.Time.Sub\<close> saturates at the ends of \<open>time.Duration\<close>.\<close>

definition sub_time :: "time \<Rightarrow> time \<Rightarrow> duration" where
  "sub_time t u = max min_i64 (min max_i64 (t - u))"

lemma sub_time_less_iff:
  "in_i64 d \<Longrightarrow> d \<noteq> min_i64 \<Longrightarrow> sub_time t u < d \<longleftrightarrow> t - u < d"
  by (auto simp: sub_time_def in_i64_def)

lemma sub_time_ge_iff:
  "in_i64 d \<Longrightarrow> d \<noteq> min_i64 \<Longrightarrow> d \<le> sub_time t u \<longleftrightarrow> d \<le> t - u"
  using sub_time_less_iff [of d t u] by linarith

definition second :: duration where "second = 1000000000"
definition minute :: duration where "minute = 60 * second"
definition hour :: duration where "hour = 60 * minute"
definition day :: duration where "day = 24 * hour"

lemmas duration_defs = day_def hour_def minute_def second_def

text \<open>Go's zero \<open>time.Time\<close> is midnight, January 1 of year 1, UTC.\<close>

definition zero_time :: time where "zero_time = -62135596800 * 1000000000"

text \<open>\<open>t.UTC().Truncate(24*time.Hour)\<close>: Go truncates on the absolute time since the zero time,
  which lies on a midnight, so the result is the midnight that starts the UTC day.\<close>

definition utc_day :: "time \<Rightarrow> time" where
  "utc_day t = zero_time + ((t - zero_time) div day) * day"

lemma utc_day_le: "utc_day t \<le> t"
proof -
  have "(t - zero_time) div day * day \<le> t - zero_time"
    by (simp add: duration_defs)
  then show ?thesis by (simp add: utc_day_def)
qed

lemma utc_day_mono: "t \<le> u \<Longrightarrow> utc_day t \<le> utc_day u"
  by (simp add: utc_day_def duration_defs zdiv_mono1)

lemma utc_day_idem [simp]: "utc_day (utc_day t) = utc_day t"
  by (simp add: utc_day_def duration_defs)

subsection \<open>Fallible results\<close>

fun try_bind :: "'e + 'a \<Rightarrow> ('a \<Rightarrow> 'e + 'b) \<Rightarrow> 'e + 'b" where
  "try_bind (Inl e) f = Inl e"
| "try_bind (Inr x) f = f x"

lemma try_bind_Inr_iff: "try_bind r f = Inr y \<longleftrightarrow> (\<exists>x. r = Inr x \<and> f x = Inr y)"
  by (cases r) auto

declare try_bind_Inr_iff [err_simps]

definition is_ok :: "'e + 'a \<Rightarrow> bool" where
  "is_ok r \<longleftrightarrow> (case r of Inl _ \<Rightarrow> False | Inr _ \<Rightarrow> True)"

lemma is_ok_simps [simp]: "is_ok (Inr x)" "\<not> is_ok (Inl e)"
  by (simp_all add: is_ok_def)

lemma is_ok_iff: "is_ok r \<longleftrightarrow> (\<exists>x. r = Inr x)"
  by (cases r) auto

text \<open>A check that returns its error, and otherwise goes on.\<close>

lemma case_err_None [err_simps]:
  "(case x of None \<Rightarrow> e | Some b \<Rightarrow> Some (f b)) = None \<longleftrightarrow> x = None \<and> e = None"
  by (cases x) simp_all

lemma if_err_None [err_simps]:
  "(if b then None else Some e) = None \<longleftrightarrow> b"
  "(if b then Some e else r) = None \<longleftrightarrow> \<not> b \<and> r = None"
  by simp_all

subsection \<open>Lists and maps\<close>

text \<open>The first element that satisfies a test, as a Go loop with an early return finds it.\<close>

fun first_such :: "('a \<Rightarrow> bool) \<Rightarrow> 'a list \<Rightarrow> 'a option" where
  "first_such p [] = None"
| "first_such p (x # xs) = (if p x then Some x else first_such p xs)"

lemma first_such_None [simp]: "first_such p xs = None \<longleftrightarrow> (\<forall>x \<in> set xs. \<not> p x)"
  by (induction xs) auto

lemma first_such_SomeD: "first_such p xs = Some x \<Longrightarrow> x \<in> set xs \<and> p x"
  by (induction xs) (auto split: if_splits)

lemma first_such_map_of:
  "first_such (\<lambda>r. k r = a) rs = Some r \<Longrightarrow> k r = a"
  by (auto dest: first_such_SomeD)

lemma sum_list_nonneg_int: "(\<And>x. x \<in> set xs \<Longrightarrow> (0::int) \<le> f x) \<Longrightarrow> 0 \<le> sum_list (map f xs)"
  by (induction xs) auto

lemma inj_onI_distinct_eq:
  "distinct (map f xs) \<Longrightarrow> x \<in> set xs \<Longrightarrow> y \<in> set xs \<Longrightarrow> f x = f y \<Longrightarrow> x = y"
  by (auto simp: distinct_map dest: inj_onD)

end
