(* ===== verification/GoStrings.thy ===== *)
theory GoStrings
  imports Prelude "HOL-Library.Sublist"
begin

text \<open>
  The part of Go's \<open>strings\<close> and \<open>strconv\<close> packages the program uses, on strings of bytes
  (\<open>char list\<close>). White space and letter case are the ASCII ones, which is what every parsed tool
  output (\<open>ps\<close>, \<open>lsof\<close>, \<open>git\<close>, \<open>vm_stat\<close>, \<open>df\<close>) consists of. \<open>parse_int\<close> is
  \<open>strconv.ParseInt(s, 10, 64)\<close> and, on the 64-bit targets the program is built for,
  \<open>strconv.Atoi\<close>; \<open>itoa\<close> is \<open>strconv.FormatInt(n, 10)\<close> and \<open>fmt\<close>'s \<open>%d\<close>.
\<close>

subsection \<open>Prefixes and suffixes\<close>

abbreviation has_prefix :: "string \<Rightarrow> string \<Rightarrow> bool" where
  "has_prefix s p \<equiv> prefix p s"

abbreviation has_suffix :: "string \<Rightarrow> string \<Rightarrow> bool" where
  "has_suffix s p \<equiv> suffix p s"

definition trim_prefix :: "string \<Rightarrow> string \<Rightarrow> string" where
  "trim_prefix s p = (if has_prefix s p then drop (length p) s else s)"

definition trim_suffix :: "string \<Rightarrow> string \<Rightarrow> string" where
  "trim_suffix s p = (if has_suffix s p then take (length s - length p) s else s)"

definition cut_prefix :: "string \<Rightarrow> string \<Rightarrow> string option" where
  "cut_prefix s p = (if has_prefix s p then Some (drop (length p) s) else None)"

lemma trim_prefix_append [simp]: "trim_prefix (p @ s) p = s"
  by (simp add: trim_prefix_def)

lemma trim_suffix_append [simp]: "trim_suffix (s @ p) p = s"
  by (auto simp: trim_suffix_def suffix_def)

lemma cut_prefix_Some_iff: "cut_prefix s p = Some t \<longleftrightarrow> s = p @ t"
  by (auto simp: cut_prefix_def prefix_def)

fun contains :: "string \<Rightarrow> string \<Rightarrow> bool" where
  "contains [] sub = (sub = [])"
| "contains (c # s) sub = (has_prefix (c # s) sub \<or> contains s sub)"

lemma contains_iff: "contains s sub \<longleftrightarrow> (\<exists>u v. s = u @ sub @ v)"
proof (induction s)
  case (Cons c s)
  have "(\<exists>u v. c # s = u @ sub @ v) \<longleftrightarrow> has_prefix (c # s) sub \<or> (\<exists>u v. s = u @ sub @ v)"
    by (auto simp: prefix_def Cons_eq_append_conv)
  with Cons show ?case by simp
qed auto

subsection \<open>Splitting and joining\<close>

fun split_on :: "char \<Rightarrow> string \<Rightarrow> string list" where
  "split_on c [] = [[]]"
| "split_on c (x # xs) =
     (if x = c then [] # split_on c xs
      else case split_on c xs of [] \<Rightarrow> [[x]] | w # ws \<Rightarrow> (x # w) # ws)"

fun join_with :: "string \<Rightarrow> string list \<Rightarrow> string" where
  "join_with sep [] = []"
| "join_with sep [w] = w"
| "join_with sep (w # v # ws) = w @ sep @ join_with sep (v # ws)"

lemma split_on_nonempty [simp]: "split_on c s \<noteq> []"
  by (cases s) (auto split: list.splits)

lemma split_on_no_sep: "w \<in> set (split_on c s) \<Longrightarrow> c \<notin> set w"
proof (induction s arbitrary: w)
  case (Cons x xs)
  obtain v ws where v: "split_on c xs = v # ws"
    by (cases "split_on c xs") simp_all
  with Cons.IH have IH: "c \<notin> set v" "\<And>u. u \<in> set ws \<Longrightarrow> c \<notin> set u" by simp_all
  from Cons.prems v have "w = [] \<or> x \<noteq> c \<and> w = x # v \<or> w = v \<or> w \<in> set ws"
    by (simp split: if_splits) blast+
  with IH show ?case by auto
qed simp

lemma split_on_plain: "c \<notin> set s \<Longrightarrow> split_on c s = [s]"
  by (induction s) auto

lemma split_on_append_sep: "split_on c (w @ c # s) = split_on c w @ split_on c s"
proof (induction w)
  case (Cons x xs)
  then show ?case
    by (cases "split_on c xs") auto
qed simp

lemma split_on_sep_append: "c \<notin> set w \<Longrightarrow> split_on c (w @ c # s) = w # split_on c s"
  by (simp add: split_on_append_sep split_on_plain)

lemma split_on_join:
  "ws \<noteq> [] \<Longrightarrow> (\<And>w. w \<in> set ws \<Longrightarrow> c \<notin> set w) \<Longrightarrow> split_on c (join_with [c] ws) = ws"
  by (induction "[c]" ws rule: join_with.induct) (auto simp: split_on_plain split_on_sep_append)

lemma join_split_on: "join_with [c] (split_on c s) = s"
proof (induction s)
  case (Cons x xs)
  show ?case
  proof (cases "split_on c xs")
    case Nil
    then show ?thesis by simp
  next
    case (Cons w ws)
    with Cons.IH show ?thesis by (cases ws) auto
  qed
qed simp

lemma length_split_on: "length (split_on c s) = Suc (count_list s c)"
  by (induction s) (auto split: list.splits)

definition is_space :: "char \<Rightarrow> bool" where
  "is_space c \<longleftrightarrow> c \<in> {CHR '' '', CHR 0x09, CHR 0x0A, CHR 0x0B, CHR 0x0C, CHR 0x0D}"

text \<open>\<open>strings.Fields\<close>: the maximal runs of non-space bytes.\<close>

fun fields_acc :: "string \<Rightarrow> string \<Rightarrow> string list" where
  "fields_acc w [] = (if w = [] then [] else [rev w])"
| "fields_acc w (c # s) =
     (if is_space c then (if w = [] then fields_acc [] s else rev w # fields_acc [] s)
      else fields_acc (c # w) s)"

definition fields :: "string \<Rightarrow> string list" where
  "fields s = fields_acc [] s"

lemma fields_acc_word:
  "f \<in> set (fields_acc w s) \<Longrightarrow> \<forall>c \<in> set w. \<not> is_space c \<Longrightarrow> f \<noteq> [] \<and> (\<forall>c \<in> set f. \<not> is_space c)"
proof (induction s arbitrary: w)
  case Nil
  then show ?case by (simp split: if_splits)
next
  case (Cons c s)
  show ?case
  proof (cases "is_space c")
    case False
    show ?thesis
    proof (rule Cons.IH)
      show "f \<in> set (fields_acc (c # w) s)" using False Cons.prems(1) by simp
      show "\<forall>d \<in> set (c # w). \<not> is_space d" using False Cons.prems(2) by simp
    qed
  next
    case True
    with Cons.prems have "f = rev w \<and> w \<noteq> [] \<or> f \<in> set (fields_acc [] s)"
      by (simp split: if_splits)
    then show ?thesis
    proof
      assume "f = rev w \<and> w \<noteq> []"
      with Cons.prems(2) show ?thesis by simp
    next
      assume "f \<in> set (fields_acc [] s)"
      from Cons.IH [OF this] show ?thesis by simp
    qed
  qed
qed

lemma fields_word: "f \<in> set (fields s) \<Longrightarrow> f \<noteq> [] \<and> (\<forall>c \<in> set f. \<not> is_space c)"
  using fields_acc_word [of f "[]" s] by (simp add: fields_def)

definition trim_space :: "string \<Rightarrow> string" where
  "trim_space s = rev (dropWhile is_space (rev (dropWhile is_space s)))"

definition trim_right_chars :: "string \<Rightarrow> string \<Rightarrow> string" where
  "trim_right_chars s cs = rev (dropWhile (\<lambda>c. c \<in> set cs) (rev s))"

lemma trim_space_id: "(\<And>c. c \<in> set s \<Longrightarrow> \<not> is_space c) \<Longrightarrow> trim_space s = s"
proof -
  assume *: "\<And>c. c \<in> set s \<Longrightarrow> \<not> is_space c"
  have "dropWhile is_space t = t" if "set t \<subseteq> set s" for t
    using * that by (cases t) auto
  then show ?thesis by (simp add: trim_space_def)
qed

subsection \<open>Letter case\<close>

definition to_lower_char :: "char \<Rightarrow> char" where
  "to_lower_char c = (if 65 \<le> (of_char c :: nat) \<and> (of_char c :: nat) \<le> 90 then char_of (of_char c + 32 :: nat) else c)"

definition to_lower :: "string \<Rightarrow> string" where
  "to_lower s = map to_lower_char s"

definition equal_fold :: "string \<Rightarrow> string \<Rightarrow> bool" where
  "equal_fold s t \<longleftrightarrow> to_lower s = to_lower t"

lemma equal_fold_refl [simp]: "equal_fold s s"
  by (simp add: equal_fold_def)

subsection \<open>Decimal integers\<close>

definition digit_val :: "char \<Rightarrow> int" where
  "digit_val c = int (of_char c) - 48"

definition is_digit :: "char \<Rightarrow> bool" where
  "is_digit c \<longleftrightarrow> 48 \<le> (of_char c :: nat) \<and> of_char c \<le> (57::nat)"

definition digit_char :: "int \<Rightarrow> char" where
  "digit_char d = char_of (48 + d)"

fun digits_val :: "int \<Rightarrow> string \<Rightarrow> int option" where
  "digits_val acc [] = Some acc"
| "digits_val acc (c # s) =
     (if is_digit c then digits_val (acc * 10 + digit_val c) s else None)"

definition parse_uint_digits :: "string \<Rightarrow> int option" where
  "parse_uint_digits s = (if s = [] then None else digits_val 0 s)"

definition parse_int :: "string \<Rightarrow> int option" where
  "parse_int s =
     (let (neg, ds) = (case s of [] \<Rightarrow> (False, [])
                       | c # r \<Rightarrow> if c = CHR ''-'' then (True, r)
                                  else if c = CHR ''+'' then (False, r) else (False, s))
      in case parse_uint_digits ds of
           None \<Rightarrow> None
         | Some n \<Rightarrow> let v = (if neg then - n else n) in if in_i64 v then Some v else None)"

definition parse_uint :: "string \<Rightarrow> int option" where
  "parse_uint s = (case parse_uint_digits s of
       None \<Rightarrow> None | Some n \<Rightarrow> if n < 2 ^ 64 then Some n else None)"

function nat_digits :: "int \<Rightarrow> string" where
  "nat_digits n = (if n < 10 then [digit_char n] else nat_digits (n div 10) @ [digit_char (n mod 10)])"
  by pat_completeness auto
termination by (relation "measure nat") auto

declare nat_digits.simps [simp del]

definition itoa :: "int \<Rightarrow> string" where
  "itoa n = (if n < 0 then CHR ''-'' # nat_digits (- n) else nat_digits n)"

lemma of_char_digit_char: "0 \<le> d \<Longrightarrow> d < 10 \<Longrightarrow> (of_char (digit_char d) :: int) = 48 + d"
  by (simp add: digit_char_def)

lemma of_char_nat_digit: "0 \<le> d \<Longrightarrow> d < 10 \<Longrightarrow> (of_char (digit_char d) :: nat) = nat (48 + d)"
  using of_char_digit_char [of d] of_int_of_char [where 'a = int, of "digit_char d"]
  by (metis nat_int of_nat_of_char)

lemma digit_char_is_digit: "0 \<le> d \<Longrightarrow> d < 10 \<Longrightarrow> is_digit (digit_char d)"
  by (simp add: is_digit_def of_char_nat_digit nat_le_iff le_nat_iff)

lemma digit_val_digit_char: "0 \<le> d \<Longrightarrow> d < 10 \<Longrightarrow> digit_val (digit_char d) = d"
  by (simp add: digit_val_def of_char_nat_digit)

lemma nat_digits_nonempty [simp]: "nat_digits n \<noteq> []"
  by (subst nat_digits.simps) simp

lemma nat_digits_all_digits: "0 \<le> n \<Longrightarrow> c \<in> set (nat_digits n) \<Longrightarrow> is_digit c"
proof (induction n rule: nat_digits.induct)
  case (1 n)
  show ?case
  proof (cases "n < 10")
    case True
    with 1 show ?thesis by (simp add: nat_digits.simps [of n] digit_char_is_digit)
  next
    case False
    with "1.prems" have "c \<in> set (nat_digits (n div 10)) \<or> c = digit_char (n mod 10)"
      by (subst (asm) nat_digits.simps) auto
    with "1.IH" False show ?thesis by (auto simp: digit_char_is_digit)
  qed
qed

lemma digits_val_append:
  "digits_val acc (s @ t) = (case digits_val acc s of None \<Rightarrow> None | Some v \<Rightarrow> digits_val v t)"
  by (induction s arbitrary: acc) auto

lemma digits_val_nat_digits: "0 \<le> n \<Longrightarrow> digits_val 0 (nat_digits n) = Some n"
proof (induction n rule: nat_digits.induct)
  case (1 n)
  show ?case
  proof (cases "n < 10")
    case True
    with 1 show ?thesis
      by (simp add: nat_digits.simps [of n] digit_char_is_digit digit_val_digit_char)
  next
    case False
    with 1 have "digits_val 0 (nat_digits (n div 10)) = Some (n div 10)" by simp
    with False show ?thesis
      by (simp add: nat_digits.simps [of n] digits_val_append digit_char_is_digit digit_val_digit_char)
  qed
qed

lemma not_digit_sign: "\<not> is_digit CHR ''-''" "\<not> is_digit CHR ''+''"
  by (simp_all add: is_digit_def)

theorem parse_int_itoa: "in_i64 n \<Longrightarrow> parse_int (itoa n) = Some n"
proof (cases "n < 0")
  case True
  assume "in_i64 n"
  with True show ?thesis
    by (simp add: parse_int_def itoa_def parse_uint_digits_def digits_val_nat_digits)
next
  case False
  assume "in_i64 n"
  obtain c r where cr: "nat_digits n = c # r"
    by (cases "nat_digits n") auto
  then have "is_digit c" using nat_digits_all_digits [of n c] False by simp
  then have "c \<noteq> CHR ''-''" "c \<noteq> CHR ''+''" using not_digit_sign by auto
  with False \<open>in_i64 n\<close> cr digits_val_nat_digits [of n] show ?thesis
    by (simp add: parse_int_def itoa_def parse_uint_digits_def del: digits_val.simps)
qed

lemma itoa_nonempty [simp]: "itoa n \<noteq> []"
  by (simp add: itoa_def)

lemma parse_int_range: "parse_int s = Some v \<Longrightarrow> in_i64 v"
  by (auto simp: parse_int_def Let_def split: option.splits if_splits prod.splits)

subsection \<open>Order, sorting, replacement\<close>

text \<open>The byte order of strings, and a stable insertion sort by any order.\<close>

fun bytes_le :: "string \<Rightarrow> string \<Rightarrow> bool" where
  "bytes_le [] t = True"
| "bytes_le (c # s) [] = False"
| "bytes_le (c # s) (d # t) = ((of_char c :: nat) < of_char d \<or> c = d \<and> bytes_le s t)"

fun insert_by :: "('a \<Rightarrow> 'a \<Rightarrow> bool) \<Rightarrow> 'a \<Rightarrow> 'a list \<Rightarrow> 'a list" where
  "insert_by le x [] = [x]"
| "insert_by le x (y # ys) = (if le x y then x # y # ys else y # insert_by le x ys)"

definition sort_by :: "('a \<Rightarrow> 'a \<Rightarrow> bool) \<Rightarrow> 'a list \<Rightarrow> 'a list" where
  "sort_by le xs = foldr (insert_by le) xs []"

definition em_dash :: string where
  "em_dash = [CHR 0xE2, CHR 0x80, CHR 0x94]"

text \<open>\<open>strings.ReplaceAll\<close> for a non-empty old text: from the left, without overlaps.\<close>

function replace_all :: "string \<Rightarrow> string \<Rightarrow> string \<Rightarrow> string" where
  "replace_all old new [] = []"
| "replace_all old new (c # s) =
     (if old \<noteq> [] \<and> has_prefix (c # s) old
      then new @ replace_all old new (drop (length old - 1) s)
      else c # replace_all old new s)"
  by pat_completeness auto
termination
  by (relation "measure (\<lambda>(old, new, s). length s)") auto

end
