(* ===== verification/GoPaths.thy ===== *)
theory GoPaths
  imports GoStrings
begin

text \<open>
  Go's \<open>path/filepath\<close> on Unix: \<open>Clean\<close>, \<open>Join\<close>, \<open>Abs\<close>, \<open>Rel\<close>, \<open>Base\<close>, \<open>Dir\<close>. A path is its
  string; \<open>comps\<close> reads a cleaned rooted path as the list of its components, and the lemmas give
  the operations on that list. The working directory \<open>Abs\<close> may need is an argument,
  \<open>None\<close> when \<open>os.Getwd\<close> fails.
\<close>

subsection \<open>Clean\<close>

abbreviation slash :: char where "slash \<equiv> CHR ''/''"

fun clean_comps :: "bool \<Rightarrow> string list \<Rightarrow> string list \<Rightarrow> string list" where
  "clean_comps rooted acc [] = rev acc"
| "clean_comps rooted acc (w # ws) =
     (if w = [] \<or> w = ''.'' then clean_comps rooted acc ws
      else if w = ''..'' then
        (case acc of
           [] \<Rightarrow> clean_comps rooted (if rooted then [] else [''..'']) ws
         | a # as \<Rightarrow> clean_comps rooted (if a = ''..'' then ''..'' # acc else as) ws)
      else clean_comps rooted (w # acc) ws)"

definition is_abs :: "path \<Rightarrow> bool" where
  "is_abs p \<longleftrightarrow> has_prefix p ''/''"

definition render_path :: "bool \<Rightarrow> string list \<Rightarrow> path" where
  "render_path rooted cs =
     (if rooted then slash # join_with ''/'' cs
      else if cs = [] then ''.'' else join_with ''/'' cs)"

definition clean_path :: "path \<Rightarrow> path" where
  "clean_path p = render_path (is_abs p) (clean_comps (is_abs p) [] (split_on slash p))"

text \<open>\<open>filepath.Join\<close> drops empty elements, joins the rest and cleans; no element gives "".\<close>

definition join_path :: "path list \<Rightarrow> path" where
  "join_path ps = (let qs = filter (\<lambda>p. p \<noteq> []) ps in
     if qs = [] then [] else clean_path (join_with ''/'' qs))"

definition abs_path :: "path option \<Rightarrow> path \<Rightarrow> path option" where
  "abs_path cwd p = (if is_abs p then Some (clean_path p)
     else map_option (\<lambda>d. join_path [d, p]) cwd)"

text \<open>The components of a path, without the empty ones.\<close>

definition comps :: "path \<Rightarrow> string list" where
  "comps p = filter (\<lambda>w. w \<noteq> []) (split_on slash p)"

definition plain_comp :: "string \<Rightarrow> bool" where
  "plain_comp w \<longleftrightarrow> w \<noteq> [] \<and> w \<noteq> ''.'' \<and> w \<noteq> ''..'' \<and> slash \<notin> set w"

lemma plain_compD: "plain_comp w \<Longrightarrow> w \<noteq> [] \<and> slash \<notin> set w"
  by (simp add: plain_comp_def)

lemma comp_cases: "slash \<notin> set w \<Longrightarrow> (w = [] \<or> w = ''.'') \<or> w = ''..'' \<or> plain_comp w"
  by (cases "w = []"; cases "w = ''.''"; cases "w = ''..''"; simp add: plain_comp_def)

lemma clean_comps_step:
  assumes w: "slash \<notin> set w" and acc: "list_all plain_comp acc"
  shows "\<exists>acc'. clean_comps True acc (w # ws) = clean_comps True acc' ws \<and> list_all plain_comp acc'"
proof -
  consider "w = [] \<or> w = ''.''" | "w = ''..''" | "plain_comp w"
    using comp_cases [OF w] by metis
  then show ?thesis
  proof cases
    case 1
    then have "clean_comps True acc (w # ws) = clean_comps True acc ws" by (elim disjE) simp_all
    with acc show ?thesis by metis
  next
    case 2
    show ?thesis
    proof (cases acc)
      case Nil
      with 2 have "clean_comps True acc (w # ws) = clean_comps True [] ws" by simp
      then show ?thesis by (intro exI [of _ "[]"]) simp
    next
      case (Cons a as)
      with acc have "a \<noteq> ''..''" "list_all plain_comp as" by (simp_all add: plain_comp_def)
      with 2 Cons show ?thesis by (intro exI [of _ as]) simp
    qed
  next
    case 3
    with acc show ?thesis by (intro exI [of _ "w # acc"]) (simp add: plain_comp_def)
  qed
qed

lemma clean_comps_plain_all:
  "\<forall>w \<in> set ws. slash \<notin> set w \<Longrightarrow> list_all plain_comp acc \<Longrightarrow>
   list_all plain_comp (clean_comps True acc ws)"
proof (induction ws arbitrary: acc)
  case Nil
  then show ?case by simp
next
  case (Cons w ws)
  from Cons.prems(1) have w: "slash \<notin> set w" and ws: "\<forall>w \<in> set ws. slash \<notin> set w" by simp_all
  obtain acc' where a: "clean_comps True acc (w # ws) = clean_comps True acc' ws" "list_all plain_comp acc'"
    using clean_comps_step [OF w Cons.prems(2), of ws] by blast
  show ?case unfolding a(1) by (rule Cons.IH [OF ws a(2)])
qed

lemma clean_comps_plain:
  "\<forall>w \<in> set (clean_comps True [] (split_on slash s)). plain_comp w"
  using clean_comps_plain_all [of "split_on slash s" "[]"] split_on_no_sep
  by (simp add: list_all_iff)

lemma clean_comps_fix:
  "\<forall>w \<in> set ws. plain_comp w \<Longrightarrow> clean_comps b acc ws = rev acc @ ws"
  by (induction ws arbitrary: acc) (auto simp: plain_comp_def)

lemma split_on_rooted: "split_on slash (slash # s) = [] # split_on slash s"
  by simp

lemma comps_render:
  assumes "\<forall>w \<in> set cs. plain_comp w"
  shows "comps (render_path True cs) = cs"
proof (cases cs)
  case Nil
  then show ?thesis by (simp add: comps_def render_path_def)
next
  case (Cons c cs')
  have "split_on slash (join_with ''/'' cs) = cs"
    using assms Cons by (intro split_on_join) (auto simp: plain_comp_def)
  with assms show ?thesis
    by (simp add: comps_def render_path_def plain_comp_def filter_id_conv)
qed

lemma is_abs_render [simp]: "is_abs (render_path True cs)"
  by (simp add: is_abs_def render_path_def)

definition clean_abs :: "path \<Rightarrow> bool" where
  "clean_abs p \<longleftrightarrow> (\<exists>cs. (\<forall>w \<in> set cs. plain_comp w) \<and> p = render_path True cs)"

lemma clean_path_abs: "is_abs p \<Longrightarrow> clean_abs (clean_path p)"
  unfolding clean_abs_def clean_path_def
  using clean_comps_plain [of p] by auto

lemma clean_abs_comps: "clean_abs p \<Longrightarrow> p = render_path True (comps p) \<and> (\<forall>w \<in> set (comps p). plain_comp w)"
  by (auto simp: clean_abs_def comps_render)

lemma clean_abs_is_abs: "clean_abs p \<Longrightarrow> is_abs p"
  by (auto simp: clean_abs_def)

lemma clean_abs_inj: "clean_abs p \<Longrightarrow> clean_abs q \<Longrightarrow> comps p = comps q \<Longrightarrow> p = q"
  using clean_abs_comps by metis

lemma clean_path_fix: "clean_abs p \<Longrightarrow> clean_path p = p"
proof -
  assume "clean_abs p"
  then obtain cs where cs: "\<forall>w \<in> set cs. plain_comp w" and p: "p = render_path True cs"
    by (auto simp: clean_abs_def)
  show ?thesis
  proof (cases cs)
    case Nil
    then show ?thesis by (simp add: p clean_path_def is_abs_def render_path_def)
  next
    case (Cons c cs')
    have "split_on slash (join_with ''/'' cs) = cs"
      using cs Cons by (intro split_on_join) (auto simp: plain_comp_def)
    then have "split_on slash p = [] # cs" by (simp add: p render_path_def)
    moreover have "clean_comps True [] ([] # cs) = cs"
      using clean_comps_fix [OF cs, of True "[]"] by simp
    ultimately show ?thesis by (simp add: clean_path_def p)
  qed
qed

lemma clean_path_idem_abs: "is_abs p \<Longrightarrow> clean_path (clean_path p) = clean_path p"
  by (rule clean_path_fix) (rule clean_path_abs)

text \<open>A working directory is absolute, so \<open>Abs\<close> always gives a cleaned rooted path.\<close>

definition cwd_ok :: "path option \<Rightarrow> bool" where
  "cwd_ok cwd \<longleftrightarrow> (case cwd of None \<Rightarrow> True | Some d \<Rightarrow> is_abs d)"

lemma is_abs_append: "is_abs d \<Longrightarrow> is_abs (d @ s)"
  by (auto simp: is_abs_def prefix_def)

lemma join_path_abs:
  assumes "is_abs d"
  shows "clean_abs (join_path [d, p])"
proof -
  have d: "d \<noteq> []" using assms by (auto simp: is_abs_def)
  have "is_abs (join_with ''/'' (filter (\<lambda>p. p \<noteq> []) [d, p]))"
    using assms d by (auto simp: is_abs_append)
  then show ?thesis
    using d by (simp add: join_path_def Let_def clean_path_abs)
qed

lemma abs_path_clean: "cwd_ok cwd \<Longrightarrow> abs_path cwd p = Some q \<Longrightarrow> clean_abs q"
  by (auto simp: abs_path_def cwd_ok_def clean_path_abs join_path_abs split: if_splits option.splits)

lemma abs_path_clean_abs [simp]: "clean_abs p \<Longrightarrow> abs_path cwd p = Some p"
  by (simp add: abs_path_def clean_abs_is_abs clean_path_fix)

subsection \<open>Base and Dir\<close>

definition strip_slashes :: "path \<Rightarrow> path" where
  "strip_slashes p = rev (dropWhile (\<lambda>c. c = slash) (rev p))"

definition base_path :: "path \<Rightarrow> path" where
  "base_path p = (if p = [] then ''.''
     else let q = strip_slashes p in
       if q = [] then ''/'' else last (split_on slash q))"

text \<open>\<open>filepath.Dir\<close>: everything up to and including the last separator, cleaned.\<close>

definition dir_path :: "path \<Rightarrow> path" where
  "dir_path p = clean_path (rev (dropWhile (\<lambda>c. c \<noteq> slash) (rev p)))"

subsection \<open>Rel\<close>

fun strip_common :: "string list \<Rightarrow> string list \<Rightarrow> string list \<times> string list" where
  "strip_common (b # bs) (t # ts) = (if b = t then strip_common bs ts else (b # bs, t # ts))"
| "strip_common bs ts = (bs, ts)"

text \<open>
  \<open>filepath.Rel(base, targ)\<close>: equal cleaned paths give "."; a rooted and an unrooted path have no
  relation; otherwise the common components are dropped, every component left of the base becomes
  "..", and a base left with ".." first is an error.
\<close>

definition rel_comps :: "bool \<Rightarrow> path \<Rightarrow> string list" where
  "rel_comps rooted p = clean_comps rooted [] (split_on slash p)"

definition rel_path :: "path \<Rightarrow> path \<Rightarrow> path option" where
  "rel_path bp tp =
     (if is_abs bp \<noteq> is_abs tp then None
      else
        let b = rel_comps (is_abs bp) bp; t = rel_comps (is_abs tp) tp in
        if b = t then Some ''.''
        else case strip_common b t of
          (b', t') \<Rightarrow>
            if b' \<noteq> [] \<and> hd b' = ''..'' then None
            else Some (join_with ''/'' (replicate (length b') ''..'' @ t')))"

lemma strip_common_prefix: "strip_common bs (bs @ ts) = ([], ts)"
  by (induction bs) (cases ts; simp)+

lemma strip_common_eq: "strip_common bs ts = (b', t') \<Longrightarrow> \<exists>cs. bs = cs @ b' \<and> ts = cs @ t'"
proof (induction bs ts rule: strip_common.induct)
  case (1 b bs t ts)
  show ?case
  proof (cases "b = t")
    case True
    with 1 obtain cs where "bs = cs @ b'" "ts = cs @ t'" by auto
    with True have "b # bs = (b # cs) @ b' \<and> t # ts = (b # cs) @ t'" by simp
    then show ?thesis by blast
  next
    case False
    with 1 show ?thesis by simp
  qed
qed auto

lemma rel_comps_clean: "clean_abs p \<Longrightarrow> rel_comps True p = comps p"
proof -
  assume p: "clean_abs p"
  then have "render_path True (clean_comps True [] (split_on slash p)) = p"
    using clean_path_fix [OF p] clean_abs_is_abs [OF p] by (simp add: clean_path_def)
  moreover have "\<forall>w \<in> set (clean_comps True [] (split_on slash p)). plain_comp w"
    by (rule clean_comps_plain)
  ultimately show ?thesis
    using comps_render by (metis rel_comps_def)
qed

text \<open>The test the program makes on \<open>Rel\<close>'s result, the path not ".." or ".", read on components.\<close>

lemma rel_prefix_dotdot:
  "has_prefix (join_with ''/'' (w # ws)) ''..'' \<longleftrightarrow> has_prefix w ''..''"
  if "slash \<notin> set w" for w ws
proof -
  have "has_prefix (w @ slash # r) ''..'' \<longleftrightarrow> has_prefix w ''..''" for r
    using that by (cases w rule: remdups_adj.cases) (auto simp: prefix_def Cons_eq_append_conv)
  then show ?thesis by (cases ws) auto
qed

definition rel_inside :: "path \<Rightarrow> path \<Rightarrow> bool" where
  "rel_inside r0 p = (case rel_path r0 p of None \<Rightarrow> False
     | Some r \<Rightarrow> \<not> has_prefix r ''..'' \<and> r \<noteq> ''.'')"

lemma join_eq_dot: "join_with ''/'' ws = ''.'' \<longleftrightarrow> ws = [''.'']" if "\<forall>w \<in> set ws. plain_comp w" for ws
  using that
  by (cases ws rule: remdups_adj.cases) (auto simp: plain_comp_def append_eq_Cons_conv)

lemma rel_inside_iff:
  assumes "clean_abs r" "clean_abs p"
  shows "rel_inside r p \<longleftrightarrow>
    (\<exists>x xs. comps p = comps r @ x # xs \<and> \<not> has_prefix x ''..'')"
proof -
  note ra = clean_abs_is_abs [OF assms(1)] and pa = clean_abs_is_abs [OF assms(2)]
  have pl: "\<forall>w \<in> set (comps p). plain_comp w" "\<forall>w \<in> set (comps r). plain_comp w"
    using assms clean_abs_comps by auto
  obtain b t where bt: "strip_common (comps r) (comps p) = (b, t)" by fastforce
  obtain cs where cs: "comps r = cs @ b" "comps p = cs @ t"
    using strip_common_eq [OF bt] by blast
  have b_dd: "b \<noteq> [] \<Longrightarrow> hd b \<noteq> ''..''"
    using pl(2) cs(1) by (cases b) (auto simp: plain_comp_def)
  have rel: "rel_path r p = (if comps r = comps p then Some ''.''
      else Some (join_with ''/'' (replicate (length b) ''..'' @ t)))"
    using b_dd by (auto simp: rel_path_def ra pa rel_comps_clean [OF assms(1)] rel_comps_clean [OF assms(2)] bt)
  show ?thesis
  proof (cases "b = []")
    case False
    then obtain n where n: "length b = Suc n" by (cases b) auto
    have "has_prefix (join_with ''/'' (''..'' # replicate n ''..'' @ t)) ''..''"
      by (subst rel_prefix_dotdot) auto
    with n have "\<not> rel_inside r p" by (simp add: rel_inside_def rel)
    moreover have "\<not> (\<exists>x xs. comps p = comps r @ x # xs)"
    proof
      assume "\<exists>x xs. comps p = comps r @ x # xs"
      then have "fst (strip_common (comps r) (comps p)) = []"
        by (auto simp: strip_common_prefix)
      with bt False show False by simp
    qed
    ultimately show ?thesis by blast
  next
    case True
    show ?thesis
    proof (cases t)
      case Nil
      with True cs rel show ?thesis by (simp add: rel_inside_def)
    next
      case (Cons x xs)
      from Cons cs pl have x: "plain_comp x" "\<forall>w \<in> set (x # xs). plain_comp w" by auto
      have nd: "join_with ''/'' (x # xs) \<noteq> ''.''"
        using join_eq_dot [OF x(2)] x(1) by (auto simp: plain_comp_def)
      have "rel_inside r p \<longleftrightarrow> \<not> has_prefix x ''..''"
        using True cs Cons rel nd x(1) rel_prefix_dotdot [of x xs]
        by (simp add: rel_inside_def plain_comp_def)
      with True cs Cons show ?thesis by simp
    qed
  qed
qed

subsection \<open>A string prefix that ends in a separator is a prefix of components\<close>

definition slashed :: "string list \<Rightarrow> string" where
  "slashed ws = concat (map (\<lambda>w. w @ [slash]) ws)"

lemma slashed_simps [simp]: "slashed [] = []" "slashed (w # ws) = w @ slash # slashed ws"
  by (simp_all add: slashed_def)

lemma slashed_join: "ws \<noteq> [] \<Longrightarrow> slashed ws = join_with ''/'' ws @ ''/''"
  by (induction "''/''" ws rule: join_with.induct) simp_all

lemma sep_word_eq:
  "slash \<notin> set v \<Longrightarrow> slash \<notin> set w \<Longrightarrow> v @ slash # s = w @ slash # t \<longleftrightarrow> v = w \<and> s = t"
  by (induction v arbitrary: w) (case_tac w; auto)+

lemma prefix_slashed:
  "\<forall>w \<in> set ws. slash \<notin> set w \<Longrightarrow> \<forall>c \<in> set cs. slash \<notin> set c \<Longrightarrow>
   prefix (slashed ws) (slashed cs) \<longleftrightarrow> prefix ws cs"
proof (induction ws arbitrary: cs)
  case Nil
  then show ?case by simp
next
  case (Cons w ws)
  show ?case
  proof (cases cs)
    case Nil
    then show ?thesis by simp
  next
    case (Cons c cs')
    have "prefix (slashed (w # ws)) (slashed cs) \<longleftrightarrow> w = c \<and> prefix (slashed ws) (slashed cs')"
      using Cons.prems Cons by (auto simp: prefix_def sep_word_eq)
    also have "\<dots> \<longleftrightarrow> w = c \<and> prefix ws cs'"
      using Cons.IH [of cs'] Cons.prems Cons by simp
    finally show ?thesis using Cons by auto
  qed
qed

lemma prefix_comps:
  assumes "clean_abs q" "ws \<noteq> []" "\<forall>w \<in> set ws. slash \<notin> set w \<and> w \<noteq> []"
  shows "has_prefix (q @ ''/'') (slash # slashed ws) \<longleftrightarrow> prefix ws (comps q)"
proof -
  have q: "q = render_path True (comps q)" "\<forall>c \<in> set (comps q). plain_comp c"
    using clean_abs_comps [OF assms(1)] by auto
  show ?thesis
  proof (cases "comps q")
    case Nil
    with q have "q = ''/''" by (simp add: render_path_def)
    with Nil assms(2,3) show ?thesis by (cases ws; cases "hd ws") auto
  next
    case (Cons c cs)
    have "q @ ''/'' = slash # slashed (comps q)"
      using q(1) Cons by (simp add: render_path_def slashed_join del: slashed_simps)
    then have "has_prefix (q @ ''/'') (slash # slashed ws) \<longleftrightarrow> prefix (slashed ws) (slashed (comps q))"
      by simp
    also have "\<dots> \<longleftrightarrow> prefix ws (comps q)"
      using q(2) assms(3) by (intro prefix_slashed) (auto simp: plain_comp_def)
    finally show ?thesis .
  qed
qed

subsection \<open>Paths built from components\<close>

lemma split_render: "cs \<noteq> [] \<Longrightarrow> \<forall>w \<in> set cs. plain_comp w \<Longrightarrow> split_on slash (render_path True cs) = [] # cs"
proof -
  assume cs: "cs \<noteq> []" "\<forall>w \<in> set cs. plain_comp w"
  have "split_on slash (join_with ''/'' cs) = cs"
    using cs by (intro split_on_join) (auto simp: plain_comp_def)
  then show ?thesis by (simp add: render_path_def)
qed

lemma dir_path_render:
  assumes "D \<noteq> []" "\<forall>w \<in> set D. plain_comp w"
  shows "dir_path (render_path True D) = render_path True (butlast D)"
proof -
  obtain xs w where D: "D = xs @ [w]" using assms(1) by (cases D rule: rev_exhaust) auto
  have w: "slash \<notin> set w" and xs: "\<forall>v \<in> set xs. plain_comp v"
    using assms(2) by (auto simp: D plain_comp_def)
  have drop: "rev (dropWhile (\<lambda>c. c \<noteq> slash) (rev (s @ slash # w))) = s @ [slash]" for s
    using w by (simp add: dropWhile_append3) (metis (mono_tags, lifting) append.assoc append_Cons append_Nil
      dropWhile_append2 dropWhile.simps(2) in_set_conv_decomp rev.simps(2) rev_rev_ident set_rev)
  show ?thesis
  proof (cases "xs = []")
    case True
    have "dir_path (render_path True D) = clean_path [slash]"
      using drop [of "[]"] by (simp add: dir_path_def D True render_path_def)
    then show ?thesis by (simp add: D True clean_path_def is_abs_def render_path_def)
  next
    case False
    have "join_with ''/'' (xs @ [w]) = join_with ''/'' xs @ slash # w"
      using False by (induction "''/''" xs rule: join_with.induct) auto
    then have r: "render_path True D = render_path True xs @ slash # w"
      by (simp add: D render_path_def)
    have "dir_path (render_path True D) = clean_path (render_path True xs @ [slash])"
      unfolding dir_path_def r drop ..
    also have "\<dots> = render_path True xs"
    proof -
      have "split_on slash (render_path True xs @ slash # []) = split_on slash (render_path True xs) @ [[]]"
        using split_on_append_sep [of slash "render_path True xs" "[]"] by simp
      then have sp: "split_on slash (render_path True xs @ [slash]) = [] # xs @ [[]]"
        using split_render [OF False xs] by simp
      have cl: "clean_comps True acc (xs @ [[]]) = clean_comps True acc xs" for acc
        by (induction xs arbitrary: acc) (auto split: list.splits)
      have "is_abs (render_path True xs @ [slash])" by (simp add: is_abs_append)
      then show ?thesis
        using clean_comps_fix [OF xs, of True "[]"] cl
        by (simp add: clean_path_def sp)
    qed
    finally show ?thesis by (simp add: D)
  qed
qed

lemma join_with_last: "cs \<noteq> [] \<Longrightarrow> join_with ''/'' (cs @ [w]) = join_with ''/'' cs @ slash # w"
  by (induction "''/''" cs rule: join_with.induct) auto

lemma join_path_render:
  assumes "\<forall>w \<in> set (cs @ [w]). plain_comp w"
  shows "join_path [render_path True cs, w] = render_path True (cs @ [w])"
proof -
  have w: "w \<noteq> []" "plain_comp w" using assms by (auto simp: plain_comp_def)
  have j: "join_path [render_path True cs, w] = clean_path (render_path True cs @ slash # w)"
    using w by (simp add: join_path_def render_path_def)
  have sp: "split_on slash (render_path True cs @ slash # w) = split_on slash (render_path True cs) @ [w]"
    using w by (simp add: split_on_append_sep split_on_plain plain_comp_def)
  have "clean_comps True [] (split_on slash (render_path True cs) @ [w]) = cs @ [w]"
  proof (cases "cs = []")
    case True
    then show ?thesis using w clean_comps_fix [of "[w]" True "[]"] by (simp add: render_path_def plain_comp_def)
  next
    case False
    then have "split_on slash (render_path True cs) = [] # cs" using split_render assms by simp
    then show ?thesis using clean_comps_fix [OF assms, of True "[]"] by simp
  qed
  then show ?thesis unfolding j clean_path_def sp by (simp add: is_abs_append)
qed

lemma strip_slashes_id: "p \<noteq> [] \<Longrightarrow> last p \<noteq> slash \<Longrightarrow> strip_slashes p = p"
  by (cases p rule: rev_cases) (auto simp: strip_slashes_def)

lemma base_path_render:
  assumes "\<forall>w \<in> set (cs @ [w]). plain_comp w"
  shows "base_path (render_path True (cs @ [w])) = w"
proof -
  have w: "w \<noteq> []" "slash \<notin> set w" using assms by (auto simp: plain_comp_def)
  have r: "render_path True (cs @ [w]) = slash # join_with ''/'' (cs @ [w])" by (simp add: render_path_def)
  have lw: "last w \<noteq> slash" using w last_in_set [of w] by metis
  have l: "last (render_path True (cs @ [w])) \<noteq> slash"
  proof (cases "cs = []")
    case True
    with w lw show ?thesis by (simp add: render_path_def)
  next
    case False
    with w lw show ?thesis unfolding r join_with_last [OF False] by simp
  qed
  have "strip_slashes (render_path True (cs @ [w])) = render_path True (cs @ [w])"
    using strip_slashes_id [OF _ l] by (simp add: r)
  moreover have "split_on slash (render_path True (cs @ [w])) = [] # cs @ [w]"
    using split_render [of "cs @ [w]"] assms by simp
  ultimately show ?thesis by (simp add: base_path_def Let_def r)
qed

end
