(* ===== verification/GoGlob.thy ===== *)
theory GoGlob
  imports GoPaths
begin

text \<open>
  \<open>filepath.Match\<close> on Unix, over bytes. A pattern is parsed to tokens (\<open>None\<close> is
  \<open>ErrBadPattern\<close>); \<open>*\<close> stands for a run of non-separator bytes, \<open>?\<close> for one, a class
  \<open>[...]\<close> for one byte of its ranges. The main fact: a match has as many separators as its
  pattern, so neither a parent nor a child of a matched path matches.
\<close>

datatype glob_tok =
    Star
  | AnyCh
  | Lit char
  | Class bool "(nat \<times> nat) list"

text \<open>\<open>getEsc\<close>: one byte of a class, escaped or not; the class must go on after it.\<close>

fun get_esc :: "string \<Rightarrow> (char \<times> string) option" where
  "get_esc [] = None"
| "get_esc (c # s) =
     (if c = CHR ''-'' \<or> c = CHR '']'' then None
      else if c = CHR 0x5C then
        (case s of [] \<Rightarrow> None | d # r \<Rightarrow> if r = [] then None else Some (d, r))
      else if s = [] then None else Some (c, s))"

lemma get_esc_shorter: "get_esc s = Some (c, r) \<Longrightarrow> length r < length s"
  by (cases s) (auto split: if_splits list.splits)

function parse_class :: "(nat \<times> nat) list \<Rightarrow> string \<Rightarrow> ((nat \<times> nat) list \<times> string) option" where
  "parse_class rs s =
     (if s \<noteq> [] \<and> hd s = CHR '']'' \<and> rs \<noteq> [] then Some (rs, tl s)
      else case get_esc s of
        None \<Rightarrow> None
      | Some (lo, r) \<Rightarrow>
          (if hd r = CHR ''-'' then
             (case get_esc (tl r) of
                None \<Rightarrow> None
              | Some (hi, r') \<Rightarrow> parse_class (rs @ [(of_char lo, of_char hi)]) r')
           else parse_class (rs @ [(of_char lo, of_char lo)]) r))"
  by pat_completeness auto
termination
proof (relation "measure (\<lambda>(rs, s). length s)", goal_cases)
  case 1
  show ?case by simp
next
  case (2 rs s p lo r p' hi r')
  then have "length r < length s" "length r' < length (tl r)"
    using get_esc_shorter by blast+
  then show ?case by simp
next
  case (3 rs s p lo r)
  then have "length r < length s" using get_esc_shorter by blast
  then show ?case by simp
qed

declare parse_class.simps [simp del]

lemma parse_class_shorter: "parse_class rs s = Some (q, r) \<Longrightarrow> length r < length s"
proof (induction rs s arbitrary: q r rule: parse_class.induct)
  case (1 rs s)
  show ?case
  proof (cases "s \<noteq> [] \<and> hd s = CHR '']'' \<and> rs \<noteq> []")
    case True
    then have "r = tl s" "s \<noteq> []" using "1.prems" by (simp_all add: parse_class.simps)
    then show ?thesis by (cases s) auto
  next
    case nb: False
    then obtain lo t where t: "get_esc s = Some (lo, t)"
      using "1.prems" by (cases "get_esc s") (auto simp: parse_class.simps)
    have lt: "length t < length s" by (rule get_esc_shorter [OF t])
    show ?thesis
    proof (cases "hd t = CHR ''-''")
      case True
      then obtain hi u where u: "get_esc (tl t) = Some (hi, u)"
        using "1.prems" t nb by (cases "get_esc (tl t)") (auto simp: parse_class.simps)
      have "parse_class (rs @ [(of_char lo, of_char hi)]) u = Some (q, r)"
        using "1.prems" t u True nb by (subst (asm) parse_class.simps) simp
      from "1.IH"(1) [OF nb t refl True u refl this] get_esc_shorter [OF u] lt
      show ?thesis by simp
    next
      case False
      have "parse_class (rs @ [(of_char lo, of_char lo)]) t = Some (q, r)"
        using "1.prems" t False nb by (subst (asm) parse_class.simps) simp
      from "1.IH"(2) [OF nb t refl False this] lt show ?thesis by simp
    qed
  qed
qed

function parse_glob :: "string \<Rightarrow> glob_tok list option" where
  "parse_glob [] = Some []"
| "parse_glob (c # s) =
     (if c = CHR ''*'' then map_option (Cons Star) (parse_glob s)
      else if c = CHR ''?'' then map_option (Cons AnyCh) (parse_glob s)
      else if c = CHR 0x5C then
        (case s of [] \<Rightarrow> None | d # r \<Rightarrow> map_option (Cons (Lit d)) (parse_glob r))
      else if c = CHR ''['' then
        (let neg = (s \<noteq> [] \<and> hd s = CHR ''^'') in
         case parse_class [] (if neg then tl s else s) of
           None \<Rightarrow> None
         | Some (rs, r) \<Rightarrow> map_option (Cons (Class neg rs)) (parse_glob r))
      else map_option (Cons (Lit c)) (parse_glob s))"
  by pat_completeness auto
termination
  by (relation "measure length") (auto dest!: parse_class_shorter split: if_splits)

definition class_has :: "bool \<Rightarrow> (nat \<times> nat) list \<Rightarrow> char \<Rightarrow> bool" where
  "class_has neg rs c \<longleftrightarrow> (list_ex (\<lambda>(lo, hi). lo \<le> of_char c \<and> of_char c \<le> hi) rs) \<noteq> neg"

fun glob_toks :: "glob_tok list \<Rightarrow> string \<Rightarrow> bool" where
  "glob_toks [] s = (s = [])"
| "glob_toks (Star # ts) [] = glob_toks ts []"
| "glob_toks (Star # ts) (c # s) =
     (glob_toks ts (c # s) \<or> (c \<noteq> slash \<and> glob_toks (Star # ts) s))"
| "glob_toks (AnyCh # ts) [] = False"
| "glob_toks (AnyCh # ts) (c # s) = (c \<noteq> slash \<and> glob_toks ts s)"
| "glob_toks (Lit d # ts) [] = False"
| "glob_toks (Lit d # ts) (c # s) = (c = d \<and> glob_toks ts s)"
| "glob_toks (Class n rs # ts) [] = False"
| "glob_toks (Class n rs # ts) (c # s) = (class_has n rs c \<and> glob_toks ts s)"

definition glob_match :: "string \<Rightarrow> string \<Rightarrow> bool option" where
  "glob_match pat name = map_option (\<lambda>ts. glob_toks ts name) (parse_glob pat)"

text \<open>A pattern is slash-plain when none of its classes can stand for a separator.\<close>

fun tok_plain :: "glob_tok \<Rightarrow> bool" where
  "tok_plain (Class n rs) = (\<not> class_has n rs slash)"
| "tok_plain t = True"

definition toks_plain :: "glob_tok list \<Rightarrow> bool" where
  "toks_plain ts \<longleftrightarrow> list_all tok_plain ts"

definition toks_slashes :: "glob_tok list \<Rightarrow> nat" where
  "toks_slashes ts = length (filter (\<lambda>t. t = Lit slash) ts)"

lemma glob_toks_slashes:
  "glob_toks ts s \<Longrightarrow> toks_plain ts \<Longrightarrow> count_list s slash = toks_slashes ts"
  by (induction ts s rule: glob_toks.induct) (auto simp: toks_plain_def toks_slashes_def)

definition glob_plain :: "string \<Rightarrow> bool" where
  "glob_plain pat \<longleftrightarrow> (case parse_glob pat of None \<Rightarrow> True | Some ts \<Rightarrow> toks_plain ts)"

lemma glob_match_depth:
  assumes "glob_plain pat" "glob_match pat p = Some True" "glob_match pat q = Some True"
  shows "count_list p slash = count_list q slash"
  using assms glob_toks_slashes by (fastforce simp: glob_match_def glob_plain_def split: option.splits)

lemma glob_match_parent:
  assumes "glob_plain pat" "glob_match pat (p @ slash # s) = Some True"
  shows "glob_match pat p \<noteq> Some True"
  using glob_match_depth [OF assms(1) _ assms(2), of p] by auto

text \<open>A pattern of literals and stars only parses to itself and is slash-plain.\<close>

fun simple_pat :: "string \<Rightarrow> bool" where
  "simple_pat [] = True"
| "simple_pat (c # s) = (c \<noteq> CHR 0x5C \<and> c \<noteq> CHR ''['' \<and> simple_pat s)"

lemma simple_pat_parse: "simple_pat p \<Longrightarrow> \<exists>ts. parse_glob p = Some ts \<and> toks_plain ts"
proof (induction p)
  case Nil
  then show ?case by (simp add: toks_plain_def)
next
  case (Cons c s)
  then obtain ts where "parse_glob s = Some ts" "toks_plain ts" by auto
  then show ?case using Cons.prems by (simp add: toks_plain_def)
qed

lemma simple_pat_glob_plain: "simple_pat p \<Longrightarrow> glob_plain p"
  using simple_pat_parse [of p] by (auto simp: glob_plain_def)

end
