(* ===== verification/Safety.thy ===== *)
theory Safety
  imports GoGlob
begin

text \<open>
  The deletion gates of \<open>internal/core/safety.go\<close>: \<open>CanDelete\<close>, the root allowlist every module
  that deletes inside the scan roots goes through, and \<open>CanDeleteLeakTarget\<close>, the narrower gate of
  the leak signatures. A refusal is the error value, \<open>None\<close> is Go's nil error. The working
  directory and \<open>filepath.EvalSymlinks\<close> are arguments.
\<close>

record safety =
  sf_roots :: "path list"
  sf_blocked :: "string list"

datatype deny =
    AbsFailed path
  | AlwaysBlocked path string
  | BlockedComponent path string
  | OutsideRoots path "path list"
  | CategoricallyBlocked path string
  | Unresolvable path
  | NoGlobMatch path "string list"

definition new_safety :: "path option \<Rightarrow> path list \<Rightarrow> string list \<Rightarrow> safety" where
  "new_safety cwd roots blocked =
     \<lparr> sf_roots = map clean_path (List.map_filter (abs_path cwd) roots), sf_blocked = blocked \<rparr>"

definition always_blocked :: "string list" where
  "always_blocked = [''/System/'', ''/Library/'', ''/usr/'', ''/bin/'', ''/sbin/'', ''/private/'']"

definition leak_categorically_blocked :: "string list" where
  "leak_categorically_blocked =
     [''/System/'', ''/Library/'', ''/usr/'', ''/bin/'', ''/sbin/'', ''/private/etc/'']"

text \<open>The first blocked basename, in the order of the list, that is a component of the path.\<close>

definition blocked_component :: "string list \<Rightarrow> path \<Rightarrow> string option" where
  "blocked_component blocked p = first_such (\<lambda>b. b \<in> set (split_on slash p)) blocked"

definition can_delete :: "path option \<Rightarrow> safety \<Rightarrow> path \<Rightarrow> deny option" where
  "can_delete cwd s p =
     (case abs_path cwd p of
        None \<Rightarrow> Some (AbsFailed p)
      | Some ab \<Rightarrow>
          let q = clean_path ab in
          case first_such (\<lambda>b. has_prefix (q @ ''/'') b) always_blocked of
            Some b \<Rightarrow> Some (AlwaysBlocked q b)
          | None \<Rightarrow>
            (case blocked_component (sf_blocked s) q of
               Some b \<Rightarrow> Some (BlockedComponent q b)
             | None \<Rightarrow>
                 if list_ex (\<lambda>r. rel_inside r q) (sf_roots s) then None
                 else Some (OutsideRoots q (sf_roots s))))"

definition leak_categorical_check :: "path \<Rightarrow> deny option" where
  "leak_categorical_check q =
     (let p = q @ ''/'' in
      case first_such (\<lambda>b. length b \<le> length p \<and> equal_fold (take (length b) p) b)
             leak_categorically_blocked of
        Some b \<Rightarrow> Some (CategoricallyBlocked q b)
      | None \<Rightarrow> None)"

definition can_delete_leak_target ::
  "path option \<Rightarrow> (path \<Rightarrow> path option) \<Rightarrow> safety \<Rightarrow> path \<Rightarrow> string list \<Rightarrow> deny option" where
  "can_delete_leak_target cwd eval_symlinks s p globs =
     (case abs_path cwd p of
        None \<Rightarrow> Some (AbsFailed p)
      | Some ab \<Rightarrow>
          case leak_categorical_check (clean_path ab) of
            Some e \<Rightarrow> Some e
          | None \<Rightarrow>
            (case eval_symlinks ab of
               None \<Rightarrow> Some (Unresolvable ab)
             | Some resolved \<Rightarrow>
                 let q = clean_path resolved in
                 case leak_categorical_check q of
                   Some e \<Rightarrow> Some e
                 | None \<Rightarrow>
                   (case blocked_component (sf_blocked s) q of
                      Some b \<Rightarrow> Some (BlockedComponent q b)
                    | None \<Rightarrow>
                        if list_ex (\<lambda>g. glob_match g q = Some True) globs then None
                        else Some (NoGlobMatch q globs))))"

subsection \<open>What the gates mean on components\<close>

definition system_tops :: "string list" where
  "system_tops = [''System'', ''Library'', ''usr'', ''bin'', ''sbin'', ''private'']"

lemma always_blocked_tops: "always_blocked = map (\<lambda>w. slash # slashed [w]) system_tops"
  by (simp add: always_blocked_def system_tops_def)

lemma system_tops_plain: "w \<in> set system_tops \<Longrightarrow> slash \<notin> set w \<and> w \<noteq> []"
  by (auto simp: system_tops_def)

lemma prefix_single: "prefix [w] cs \<longleftrightarrow> cs \<noteq> [] \<and> hd cs = w"
  by (cases cs) auto

lemma always_blocked_iff:
  assumes "clean_abs q"
  shows "(\<forall>b \<in> set always_blocked. \<not> has_prefix (q @ ''/'') b) \<longleftrightarrow>
    (comps q = [] \<or> hd (comps q) \<notin> set system_tops)"
proof -
  have "(\<forall>b \<in> set always_blocked. \<not> has_prefix (q @ ''/'') b) \<longleftrightarrow>
      (\<forall>w \<in> set system_tops. \<not> has_prefix (q @ ''/'') (slash # slashed [w]))"
    by (simp add: always_blocked_tops del: slashed_simps)
  also have "\<dots> \<longleftrightarrow> (\<forall>w \<in> set system_tops. \<not> prefix [w] (comps q))"
    using system_tops_plain by (intro ball_cong refl arg_cong [of _ _ Not] prefix_comps assms) simp_all
  finally show ?thesis unfolding prefix_single by blast
qed

lemma new_safety_roots:
  assumes "cwd_ok cwd"
  shows "set (sf_roots (new_safety cwd roots blocked)) = {a. \<exists>r \<in> set roots. abs_path cwd r = Some a}"
proof -
  have "clean_path a = a" if "abs_path cwd r = Some a" for r a
    using abs_path_clean [OF assms that] clean_path_fix by simp
  then show ?thesis
    by (force simp: new_safety_def map_filter_def image_iff)
qed

lemma blocked_component_None:
  "blocked_component bl p = None \<longleftrightarrow> set bl \<inter> set (split_on slash p) = {}"
  by (auto simp: blocked_component_def)

lemma can_delete_None:
  assumes "cwd_ok cwd"
  shows "can_delete cwd s p = None \<longleftrightarrow>
    (\<exists>q. abs_path cwd p = Some q \<and> (comps q = [] \<or> hd (comps q) \<notin> set system_tops)
       \<and> set (sf_blocked s) \<inter> set (split_on slash q) = {}
       \<and> (\<exists>r \<in> set (sf_roots s). rel_inside r q))"
proof (cases "abs_path cwd p")
  case None
  then show ?thesis by (simp add: can_delete_def)
next
  case (Some q)
  have c: "clean_abs q" by (rule abs_path_clean [OF assms Some])
  have "can_delete cwd s p = None \<longleftrightarrow> (\<forall>b \<in> set always_blocked. \<not> has_prefix (q @ ''/'') b)
      \<and> blocked_component (sf_blocked s) q = None \<and> (\<exists>r \<in> set (sf_roots s). rel_inside r q)"
    unfolding can_delete_def Some option.case clean_path_fix [OF c] Let_def err_simps first_such_None
      list_ex_iff by blast
  then show ?thesis
    unfolding always_blocked_iff [OF c] blocked_component_None using Some by simp
qed

text \<open>
  C4. \<open>CanDelete\<close> permits a path exactly when it absolutises to a path whose first component is no
  system directory, none of whose components is blocked, and that lies strictly below one of the
  configured roots (by components, not by string prefix); a first component below the root that
  begins with ".." is refused too, which only makes the gate stricter.
\<close>

theorem can_delete_iff:
  assumes "cwd_ok cwd"
  shows "can_delete cwd (new_safety cwd roots blocked) p = None \<longleftrightarrow>
    (\<exists>q. abs_path cwd p = Some q \<and> (comps q = [] \<or> hd (comps q) \<notin> set system_tops)
       \<and> set blocked \<inter> set (split_on slash q) = {}
       \<and> (\<exists>r \<in> set roots. \<exists>a x xs. abs_path cwd r = Some a \<and>
            comps q = comps a @ x # xs \<and> \<not> has_prefix x ''..''))"
proof -
  have roots: "(\<exists>r \<in> set (sf_roots (new_safety cwd roots blocked)). rel_inside r q) \<longleftrightarrow>
      (\<exists>r \<in> set roots. \<exists>a x xs. abs_path cwd r = Some a \<and>
            comps q = comps a @ x # xs \<and> \<not> has_prefix x ''..'')"
    if "abs_path cwd p = Some q" for q
    using rel_inside_iff abs_path_clean [OF assms] that
    by (simp add: new_safety_roots [OF assms]) blast
  have blocked: "sf_blocked (new_safety cwd roots blocked) = blocked"
    by (simp add: new_safety_def)
  show ?thesis
    unfolding can_delete_None [OF assms] blocked
    by (rule arg_cong [where f = Ex], rule ext, intro conj_cong refl, rule roots)
qed

lemma can_delete_iff_witness:
  "can_delete None (new_safety None [''/Users/me/dev''] [''.git'']) ''/Users/me/dev/app/node_modules'' = None"
  unfolding can_delete_iff [of None, simplified cwd_ok_def option.case, OF TrueI]
  by (rule exI [of _ "''/Users/me/dev/app/node_modules''"])
    (simp add: abs_path_def is_abs_def clean_path_def render_path_def comps_def system_tops_def)

subsection \<open>The leak gate\<close>

lemma to_lower_char_slash [simp]: "to_lower_char c = slash \<longleftrightarrow> c = slash"
proof
  assume a: "to_lower_char c = slash"
  show "c = slash"
  proof (cases "65 \<le> (of_char c :: nat) \<and> (of_char c :: nat) \<le> 90")
    case True
    with a have "(of_char (char_of (of_char c + 32 :: nat)) :: nat) = 47" by (simp add: to_lower_char_def)
    with True show ?thesis by simp
  next
    case False
    with a show ?thesis by (auto simp: to_lower_char_def)
  qed
qed (simp add: to_lower_char_def)

lemma to_lower_slash [simp]: "to_lower_char slash = slash"
  by simp

lemma to_lower_slashed: "to_lower (slashed ws) = slashed (map to_lower ws)"
  by (induction ws) (simp_all add: to_lower_def)

lemma equal_fold_prefix:
  "length b \<le> length p \<and> equal_fold (take (length b) p) b \<longleftrightarrow> prefix (to_lower b) (to_lower p)"
proof
  assume a: "length b \<le> length p \<and> equal_fold (take (length b) p) b"
  then have "take (length b) (to_lower p) = to_lower b" by (simp add: equal_fold_def to_lower_def take_map)
  then show "prefix (to_lower b) (to_lower p)" by (metis take_is_prefix)
next
  assume "prefix (to_lower b) (to_lower p)"
  then obtain t where t: "map to_lower_char p = map to_lower_char b @ t" by (auto simp: prefix_def to_lower_def)
  then have "length (map to_lower_char p) = length b + length t" by simp
  moreover from t have "take (length b) (map to_lower_char p) = map to_lower_char b" by simp
  ultimately show "length b \<le> length p \<and> equal_fold (take (length b) p) b"
    by (simp add: equal_fold_def to_lower_def take_map)
qed

definition leak_blocked_tops :: "string list list" where
  "leak_blocked_tops =
     [[''System''], [''Library''], [''usr''], [''bin''], [''sbin''], [''private'', ''etc'']]"

definition categorical :: "path \<Rightarrow> bool" where
  "categorical q \<longleftrightarrow> (\<exists>ws \<in> set leak_blocked_tops. prefix (map to_lower ws) (map to_lower (comps q)))"

lemma leak_blocked_eq: "leak_categorically_blocked = map (\<lambda>ws. slash # slashed ws) leak_blocked_tops"
  by (simp add: leak_categorically_blocked_def leak_blocked_tops_def)

lemma leak_tops_plain: "ws \<in> set leak_blocked_tops \<Longrightarrow> ws \<noteq> [] \<and> (\<forall>w \<in> set ws. slash \<notin> set w \<and> w \<noteq> [])"
  by (auto simp: leak_blocked_tops_def)

lemma slash_notin_lower: "slash \<notin> set (to_lower w) \<longleftrightarrow> slash \<notin> set w"
  unfolding to_lower_def by (induction w) (simp_all add: eq_commute [of slash])

lemma fold_prefix_comps:
  assumes q: "clean_abs q" and ws: "ws \<noteq> []" "\<forall>w \<in> set ws. slash \<notin> set w \<and> w \<noteq> []"
  shows "prefix (to_lower (slash # slashed ws)) (to_lower (q @ ''/'')) \<longleftrightarrow>
    prefix (map to_lower ws) (map to_lower (comps q))"
proof (cases "comps q")
  case Nil
  with clean_abs_comps [OF q] have "q = ''/''" by (simp add: render_path_def)
  with Nil ws show ?thesis by (cases ws; cases "hd ws") (auto simp: to_lower_def)
next
  case (Cons c cs)
  note qc = clean_abs_comps [OF q]
  have "q @ ''/'' = slash # slashed (comps q)"
    using qc Cons by (simp add: render_path_def slashed_join del: slashed_simps)
  then have "to_lower (q @ ''/'') = slash # slashed (map to_lower (comps q))"
    using to_lower_slashed [of "comps q"] by (simp add: to_lower_def)
  moreover have "to_lower (slash # slashed ws) = slash # slashed (map to_lower ws)"
    using to_lower_slashed [of ws] by (simp add: to_lower_def)
  moreover have "prefix (slashed (map to_lower ws)) (slashed (map to_lower (comps q))) \<longleftrightarrow>
      prefix (map to_lower ws) (map to_lower (comps q))"
    using qc ws(2) by (intro prefix_slashed) (auto simp: slash_notin_lower plain_comp_def)
  ultimately show ?thesis by simp
qed

lemma leak_categorical_None:
  assumes "clean_abs q"
  shows "leak_categorical_check q = None \<longleftrightarrow> \<not> categorical q"
proof -
  have "leak_categorical_check q = None \<longleftrightarrow>
      (\<forall>b \<in> set leak_categorically_blocked. \<not> prefix (to_lower b) (to_lower (q @ ''/'')))"
    unfolding leak_categorical_check_def Let_def equal_fold_prefix err_simps first_such_None by simp
  also have "\<dots> \<longleftrightarrow> (\<forall>ws \<in> set leak_blocked_tops. \<not> prefix (to_lower (slash # slashed ws)) (to_lower (q @ ''/'')))"
    by (simp add: leak_blocked_eq)
  also have "\<dots> \<longleftrightarrow> \<not> categorical q"
    unfolding categorical_def using fold_prefix_comps [OF assms] leak_tops_plain by blast
  finally show ?thesis .
qed

text \<open>\<open>EvalSymlinks\<close> of an absolute path gives an absolute path or an error.\<close>

definition eval_symlinks_ok :: "(path \<Rightarrow> path option) \<Rightarrow> bool" where
  "eval_symlinks_ok es \<longleftrightarrow> (\<forall>a r. is_abs a \<longrightarrow> es a = Some r \<longrightarrow> is_abs r)"

lemma leak_cat_case:
  "(case leak_categorical_check q of Some e \<Rightarrow> Some e | None \<Rightarrow> r) = None \<longleftrightarrow>
   leak_categorical_check q = None \<and> r = None"
  by (cases "leak_categorical_check q") simp_all

text \<open>What the gate permits: the resolved path, read once the symlinks are followed.\<close>

definition leak_permitted :: "string list \<Rightarrow> string list \<Rightarrow> path \<Rightarrow> bool" where
  "leak_permitted blocked globs q \<longleftrightarrow> \<not> categorical q \<and> set blocked \<inter> set (split_on slash q) = {}
     \<and> (\<exists>g \<in> set globs. glob_match g q = Some True)"

lemma can_delete_leak_target_None:
  assumes "cwd_ok cwd" "eval_symlinks_ok es"
  shows "can_delete_leak_target cwd es s p globs = None \<longleftrightarrow>
    (\<exists>a r. abs_path cwd p = Some a \<and> es a = Some r \<and> \<not> categorical a
       \<and> leak_permitted (sf_blocked s) globs (clean_path r))"
proof (cases "abs_path cwd p")
  case None
  then show ?thesis by (simp add: can_delete_leak_target_def)
next
  case a: (Some a)
  have ca: "clean_abs a" by (rule abs_path_clean [OF assms(1) a])
  show ?thesis
  proof (cases "es a")
    case None
    then show ?thesis by (simp add: can_delete_leak_target_def a split: option.split)
  next
    case (Some r)
    then have cr: "clean_abs (clean_path r)"
      using assms(2) clean_abs_is_abs [OF ca] by (auto simp: eval_symlinks_ok_def intro: clean_path_abs)
    have "can_delete_leak_target cwd es s p globs = None \<longleftrightarrow>
        leak_categorical_check a = None \<and> leak_categorical_check (clean_path r) = None
        \<and> blocked_component (sf_blocked s) (clean_path r) = None
        \<and> (\<exists>g \<in> set globs. glob_match g (clean_path r) = Some True)"
      unfolding can_delete_leak_target_def a option.case clean_path_fix [OF ca] Some Let_def leak_cat_case
        err_simps list_ex_iff by blast
    then show ?thesis
      unfolding leak_categorical_None [OF ca] leak_categorical_None [OF cr] blocked_component_None
      using a Some by (simp add: leak_permitted_def)
  qed
qed

text \<open>
  C20. A path \<open>CanDeleteLeakTarget\<close> permits resolves to a path outside the categorical floor (case
  ignored, before and after the symlinks are followed), without a blocked component, that one of
  the signature's globs matches as a whole; and that glob matches no parent directory of it.
\<close>

theorem can_delete_leak_target_sound:
  assumes "cwd_ok cwd" "eval_symlinks_ok es" "\<forall>g \<in> set globs. glob_plain g"
    and "can_delete_leak_target cwd es s p globs = None"
  shows "\<exists>a r g. abs_path cwd p = Some a \<and> es a = Some r \<and> \<not> categorical a
    \<and> leak_permitted (sf_blocked s) globs (clean_path r)
    \<and> g \<in> set globs \<and> glob_match g (clean_path r) = Some True
    \<and> (\<forall>d t. clean_path r = d @ slash # t \<longrightarrow> glob_match g d \<noteq> Some True)"
proof -
  from assms(4) obtain a r g where *: "abs_path cwd p = Some a" "es a = Some r" "\<not> categorical a"
      "leak_permitted (sf_blocked s) globs (clean_path r)" "g \<in> set globs"
      "glob_match g (clean_path r) = Some True"
    unfolding can_delete_leak_target_None [OF assms(1,2)] leak_permitted_def by blast
  then have "glob_match g d \<noteq> Some True" if "clean_path r = d @ slash # t" for d t
    using glob_match_parent [of g d t] assms(3) that by auto
  with * show ?thesis by blast
qed

definition demo_link :: "path \<Rightarrow> path option" where
  "demo_link p = (if p = ''/var/X/c.clone'' then Some ''/private/var/X/c.clone'' else Some p)"

lemma demo_link_ok: "eval_symlinks_ok demo_link"
  by (simp add: eval_symlinks_ok_def demo_link_def is_abs_def)

lemma demo_leak_permitted:
  "can_delete_leak_target None demo_link \<lparr>sf_roots = [], sf_blocked = [''.git'']\<rparr> ''/var/X/c.clone''
     [''/private/var/*/c.clone''] = None"
  by code_simp

lemma can_delete_leak_target_sound_witness:
  "\<exists>a r g. abs_path None ''/var/X/c.clone'' = Some a \<and> demo_link a = Some r \<and> \<not> categorical a
    \<and> leak_permitted [''.git''] [''/private/var/*/c.clone''] (clean_path r)
    \<and> g \<in> set [''/private/var/*/c.clone''] \<and> glob_match g (clean_path r) = Some True
    \<and> (\<forall>d t. clean_path r = d @ slash # t \<longrightarrow> glob_match g d \<noteq> Some True)"
  using can_delete_leak_target_sound [OF _ demo_link_ok _ demo_leak_permitted]
  by (simp add: cwd_ok_def simple_pat_glob_plain)

end
