(* ===== verification/Float64.thy ===== *)
theory Float64
  imports GoStrings "HOL-Library.Signed_Division"
begin

text \<open>
  Go's \<open>float64\<close>: IEEE 754 binary64 with rounding to nearest, ties to even. A finite value is the
  rational it denotes; \<open>fl\<close> rounds an exact rational to the nearest representable value, so a Go
  expression \<open>a / b\<close> is \<open>fl (a / b)\<close> and \<open>float64(n)\<close> is \<open>fl (of_int n)\<close>. The program's own
  quotients and products stay far below \<open>2 ^ 1024\<close>; infinities and NaN enter only through
  \<open>strconv.ParseFloat\<close>. \<open>parse_float\<close> covers the decimal and the inf/nan forms; hexadecimal and
  underscored literals, which none of the tools print, are refused.
\<close>

definition pow2 :: "int \<Rightarrow> rat" where
  "pow2 e = (if 0 \<le> e then 2 ^ nat e else 1 / 2 ^ nat (- e))"

function int_bits :: "int \<Rightarrow> int" where
  "int_bits n = (if n \<le> 0 then 0 else 1 + int_bits (n div 2))"
  by pat_completeness auto
termination by (relation "measure nat") auto

declare int_bits.simps [simp del]

text \<open>The exponent of the binade of a positive rational.\<close>

definition binade :: "rat \<Rightarrow> int" where
  "binade x = (let (n, d) = quotient_of x; e = int_bits n - int_bits d in
     if pow2 e \<le> x then e else e - 1)"

definition round_even :: "rat \<Rightarrow> int" where
  "round_even x = (let f = \<lfloor>x\<rfloor>; r = x - of_int f in
     if r < 1 / 2 then f else if 1 / 2 < r then f + 1 else if even f then f else f + 1)"

definition fl_pos :: "rat \<Rightarrow> rat" where
  "fl_pos x = (let u = pow2 (max (binade x - 52) (- 1074)) in of_int (round_even (x / u)) * u)"

definition fl :: "rat \<Rightarrow> rat" where
  "fl x = (if x = 0 then 0 else if x < 0 then - fl_pos (- x) else fl_pos x)"

definition fl_int :: "int \<Rightarrow> rat" where
  "fl_int n = fl (of_int n)"

text \<open>\<open>time.Duration.Hours\<close>.\<close>

definition hours_f :: "duration \<Rightarrow> rat" where
  "hours_f d = fl (fl_int (d sdiv hour) + fl (fl_int (d smod hour) / 3600000000000))"

lemma pow2_pos [simp]: "0 < pow2 e"
  by (simp add: pow2_def)

lemma round_even_mono: "x \<le> y \<Longrightarrow> round_even x \<le> round_even y"
proof -
  assume xy: "x \<le> y"
  have fxy: "\<lfloor>x\<rfloor> \<le> \<lfloor>y\<rfloor>" using xy by (rule floor_mono)
  have b: "\<lfloor>z\<rfloor> \<le> round_even z" "round_even z \<le> \<lfloor>z\<rfloor> + 1" for z
    by (auto simp: round_even_def Let_def)
  show ?thesis
  proof (cases "\<lfloor>x\<rfloor> = \<lfloor>y\<rfloor>")
    case True
    with xy show ?thesis by (auto simp: round_even_def Let_def)
  next
    case False
    with fxy have "\<lfloor>x\<rfloor> + 1 \<le> \<lfloor>y\<rfloor>" by linarith
    with b [of x] b [of y] show ?thesis by linarith
  qed
qed

lemma round_even_int [simp]: "round_even (of_int n) = n"
  by (simp add: round_even_def)

lemma round_even_nonneg: "0 \<le> x \<Longrightarrow> 0 \<le> round_even x"
  using round_even_mono [of 0 x] round_even_int [of 0] by simp

lemma fl_nonneg: "0 \<le> x \<Longrightarrow> 0 \<le> fl x"
  by (auto simp: fl_def fl_pos_def Let_def intro!: mult_nonneg_nonneg round_even_nonneg
      divide_nonneg_pos less_imp_le [OF pow2_pos])

subsection \<open>Values with infinities and NaN\<close>

datatype f64 = Fin rat | PInf | NInf | NaN

text \<open>\<open>int64(f)\<close>: truncation toward zero; out of range the conversion saturates and NaN gives 0
  (the behaviour of the arm64 instruction; Go leaves it to the implementation).\<close>

definition trunc_rat :: "rat \<Rightarrow> int" where
  "trunc_rat x = (if x < 0 then - \<lfloor>- x\<rfloor> else \<lfloor>x\<rfloor>)"

definition i64_of_rat :: "rat \<Rightarrow> int" where
  "i64_of_rat x = max min_i64 (min max_i64 (trunc_rat x))"

fun i64_of_f64 :: "f64 \<Rightarrow> int" where
  "i64_of_f64 (Fin x) = i64_of_rat x"
| "i64_of_f64 PInf = max_i64"
| "i64_of_f64 NInf = min_i64"
| "i64_of_f64 NaN = 0"

lemma in_i64_i64_of_f64 [simp]: "in_i64 (i64_of_f64 f)"
  by (cases f) (auto simp: in_i64_def i64_of_rat_def max_i64_def min_i64_def)

lemma i64_of_rat_int: "in_i64 n \<Longrightarrow> i64_of_rat (of_int n) = n"
  by (simp add: i64_of_rat_def trunc_rat_def in_i64_def)

subsection \<open>ParseFloat\<close>

definition split_at_char :: "(char \<Rightarrow> bool) \<Rightarrow> string \<Rightarrow> string \<times> string option" where
  "split_at_char P s = (case dropWhile (\<lambda>c. \<not> P c) s of [] \<Rightarrow> (s, None)
     | c # r \<Rightarrow> (takeWhile (\<lambda>c. \<not> P c) s, Some r))"

definition pow10 :: "int \<Rightarrow> rat" where
  "pow10 e = (if 0 \<le> e then 10 ^ nat e else 1 / 10 ^ nat (- e))"

definition parse_exp :: "string option \<Rightarrow> int option" where
  "parse_exp e = (case e of None \<Rightarrow> Some 0
     | Some s \<Rightarrow> (case s of [] \<Rightarrow> None
         | c # r \<Rightarrow> if c = CHR ''-'' then map_option uminus (parse_uint_digits r)
                    else if c = CHR ''+'' then parse_uint_digits r else parse_uint_digits s))"

text \<open>The exact value of an unsigned decimal literal.\<close>

definition parse_decimal :: "string \<Rightarrow> rat option" where
  "parse_decimal s =
     (let (m, e) = split_at_char (\<lambda>c. c = CHR ''e'' \<or> c = CHR ''E'') s;
          (ip, fp) = split_at_char (\<lambda>c. c = CHR ''.'') m;
          fd = (case fp of None \<Rightarrow> [] | Some f \<Rightarrow> f)
      in case parse_uint_digits (ip @ fd) of
           None \<Rightarrow> None
         | Some n \<Rightarrow> map_option (\<lambda>x. of_int n * pow10 (x - int (length fd))) (parse_exp e))"

definition max_f64 :: rat where "max_f64 = (2 ^ 53 - 1) * 2 ^ 971"

text \<open>\<open>None\<close> is a non-nil error: a syntax error or a value out of range.\<close>

definition parse_float :: "string \<Rightarrow> f64 option" where
  "parse_float s =
     (let (neg, ds) = (case s of [] \<Rightarrow> (False, [])
                       | c # r \<Rightarrow> if c = CHR ''-'' then (True, r)
                                  else if c = CHR ''+'' then (False, r) else (False, s));
          l = to_lower ds
      in if l = ''inf'' \<or> l = ''infinity'' then Some (if neg then NInf else PInf)
         else if l = ''nan'' \<and> ds = s then Some NaN
         else case parse_decimal ds of
           None \<Rightarrow> None
         | Some x \<Rightarrow> let v = fl x in
             if max_f64 < v then None else Some (Fin (if neg then - v else v)))"

subsection \<open>Formatting\<close>

text \<open>\<open>fmt\<close>'s \<open>%.1f\<close> and \<open>%.0f\<close> of a finite value: the exact value rounded to that many
  decimals, ties to even.\<close>

definition fmt_f1 :: "rat \<Rightarrow> string" where
  "fmt_f1 x = (let n = round_even (10 * \<bar>x\<bar>) in
     (if x < 0 then ''-'' else []) @ itoa (n div 10) @ ''.'' @ itoa (n mod 10))"

definition fmt_f0 :: "rat \<Rightarrow> string" where
  "fmt_f0 x = (if x < 0 then ''-'' else []) @ itoa (round_even \<bar>x\<bar>)"

text \<open>The loop the daemon, the heuristics and the CLI share to pick a binary unit.\<close>

fun unit_loop :: "rat \<Rightarrow> string \<Rightarrow> string list \<Rightarrow> rat \<times> string" where
  "unit_loop f u [] = (f, u)"
| "unit_loop f u (v # us) = (if 1024 \<le> f then unit_loop (fl (f / 1024)) v us else (f, u))"

definition human_bytes :: "int \<Rightarrow> string" where
  "human_bytes n =
     (if n < 1024 then itoa n @ '' B''
      else case unit_loop (fl (fl_int n / 1024)) ''KB'' [''MB'', ''GB'', ''TB''] of
        (f, u) \<Rightarrow> fmt_f1 f @ '' '' @ u)"

end
