(* ===== verification/Types.thy ===== *)
theory Types
  imports Float64 GoPaths
begin

text \<open>
  The data the components exchange: \<open>heuristics.Suggestion\<close> (\<open>internal/heuristics/types.go\<close>), the
  module contract's \<open>Report\<close>, \<open>Item\<close>, \<open>Action\<close> and \<open>Result\<close> (\<open>internal/modules/module.go\<close>), the
  daemon's trigger (\<open>cmd/noo-nood/main.go\<close>) and the evidence a suggestion carries, a map from a key
  to a value of one of the dynamic types the heuristics store there. \<open>EvOther\<close> is a value of any
  other type (a \<open>time.Time\<close>), with its JSON text.
\<close>

datatype ev_val =
    EvStr string
  | EvInt int
  | EvFloat f64
  | EvOther string

type_synonym evidence = "string \<Rightarrow> ev_val option"

record suggestion =
  sg_id :: int
  sg_module :: string
  sg_target :: path
  sg_reason :: string
  sg_evidence :: evidence
  sg_risk :: string
  sg_size :: int
  sg_created :: time

datatype risk_level = RiskLow | RiskMedium | RiskHigh | RiskUnknown

fun risk_string :: "risk_level \<Rightarrow> string" where
  "risk_string RiskLow = ''low''"
| "risk_string RiskMedium = ''medium''"
| "risk_string RiskHigh = ''high''"
| "risk_string RiskUnknown = ''unknown''"

record item =
  it_path :: path
  it_size :: int
  it_evidence :: "string \<Rightarrow> string option"

record report =
  rp_module :: string
  rp_items :: "item list"
  rp_total :: int

record mod_action =
  ma_module :: string
  ma_op :: string
  ma_target :: path
  ma_dest :: path
  ma_size :: int
  ma_risk :: risk_level

datatype trigger = TriggerDaily | TriggerPressure | TriggerManual

fun trigger_string :: "trigger \<Rightarrow> string" where
  "trigger_string TriggerDaily = ''daily''"
| "trigger_string TriggerPressure = ''pressure''"
| "trigger_string TriggerManual = ''manual''"

text \<open>A string-keyed lookup that gives Go's zero value for a missing key.\<close>

definition ev_get :: "(string \<Rightarrow> string option) \<Rightarrow> string \<Rightarrow> string" where
  "ev_get m k = (case m k of None \<Rightarrow> [] | Some v \<Rightarrow> v)"

text \<open>The value of a key when it is a string, "" otherwise: Go's \<open>x, _ := m[k].(string)\<close>.\<close>

definition ev_str :: "evidence \<Rightarrow> string \<Rightarrow> string" where
  "ev_str m k = (case m k of Some (EvStr s) \<Rightarrow> s | _ \<Rightarrow> [])"

text \<open>\<open>selfProving\<close> of \<open>internal/autoclean/config.go\<close>.\<close>

definition self_proving :: "string \<Rightarrow> bool" where
  "self_proving m \<longleftrightarrow> m = ''leaks'' \<or> m = ''worktrees''"

end
