(* ===== verification/Store.thy ===== *)
theory Store
  imports Types "HOL-Library.Multiset"
begin

text \<open>
  The SQLite store of \<open>internal/store\<close>. A table with an AUTOINCREMENT key is the list of its rows in
  insertion order with the next id; a table keyed on a text column is a map or a list without two
  rows of one key. Every method is one SQL statement (\<open>EnqueueRelocation\<close> is two), each of which
  may fail: \<open>db_faults\<close> says which of the calls still to come do, and a failed statement changes
  nothing. A theorem that holds for every store holds for every pattern of failures. Rows are read
  newest first by a stable sort on the timestamp; times are compared as instants, which is the
  order of the UTC texts SQLite compares.
\<close>

record sg_row =
  sr_id :: int
  sr_ts :: time
  sr_module :: string
  sr_target :: path
  sr_reason :: string
  sr_evidence :: "string \<Rightarrow> string option"
  sr_severity :: string
  sr_dismissed :: "time option"

datatype outcome = InProgress | Deleted | Skipped | Errored

record ac_event =
  ev_started :: int
  ev_ended :: "int option"
  ev_trigger :: string
  ev_outcome :: outcome
  ev_skip_reason :: string
  ev_target :: path
  ev_module :: string
  ev_target_size :: int
  ev_freed :: int
  ev_idle_days :: int
  ev_suggestion_id :: string
  ev_error :: string

record ac_update =
  up_ended :: int
  up_outcome :: outcome
  up_freed :: int
  up_error :: string

datatype reloc_status = RelocQueued | RelocApplied | RelocBlocked | RelocCancelled

record reloc_row =
  rq_id :: int
  rq_queued_at :: int
  rq_target :: path
  rq_asset :: string
  rq_dest_root :: path
  rq_dest_uuid :: string
  rq_gate_reason :: string
  rq_status :: reloc_status
  rq_blocked_reason :: "string option"
  rq_attempts :: int
  rq_last_attempt :: "int option"
  rq_resolved_at :: "int option"
  rq_freed :: int

record action_row =
  ar_id :: int
  ar_ts :: time
  ar_module :: string
  ar_op :: string
  ar_target :: path
  ar_size :: int
  ar_evidence :: "string \<Rightarrow> string option"
  ar_outcome :: string

record idle_row =
  ir_path :: path
  ir_last_commit :: time
  ir_nm_bytes :: int
  ir_last_scan :: time

record cache_row =
  cr_target :: path
  cr_bytes :: int
  cr_at :: time

record disk_row =
  dr_uuid :: string
  dr_mount :: path
  dr_total :: int
  dr_free :: int
  dr_at :: time

record store =
  st_suggestions :: "sg_row list"
  st_next_sg :: int
  st_events :: "(int \<times> ac_event) list"
  st_next_ev :: int
  st_reloc :: "reloc_row list"
  st_next_rq :: int
  st_actions :: "action_row list"
  st_next_ar :: int
  st_idle :: "idle_row list"
  st_caches :: "cache_row list"
  st_disks :: "disk_row list"
  st_storms :: "string \<Rightarrow> (time \<times> int) option"
  db_faults :: "nat \<Rightarrow> bool"
  db_calls :: nat

text \<open>A freshly migrated database.\<close>

definition empty_store :: "(nat \<Rightarrow> bool) \<Rightarrow> store" where
  "empty_store faults = \<lparr> st_suggestions = [], st_next_sg = 1, st_events = [], st_next_ev = 1,
     st_reloc = [], st_next_rq = 1, st_actions = [], st_next_ar = 1, st_idle = [], st_caches = [],
     st_disks = [], st_storms = Map.empty, db_faults = faults, db_calls = 0 \<rparr>"

text \<open>One statement: it fails and changes nothing, or gives its result and the new tables.\<close>

definition db_exec :: "(store \<Rightarrow> 'a \<times> store) \<Rightarrow> store \<Rightarrow> 'a option \<times> store" where
  "db_exec f s = (let s' = s\<lparr>db_calls := Suc (db_calls s)\<rparr> in
     if db_faults s (db_calls s) then (None, s')
     else case f s' of (x, s'') \<Rightarrow> (Some x, s''))"

text \<open>A zero timestamp is stored as NULL.\<close>

definition nullable_unix :: "int \<Rightarrow> int option" where
  "nullable_unix v = (if v = 0 then None else Some v)"

subsection \<open>suggestions\<close>

definition insert_suggestion :: "sg_row \<Rightarrow> store \<Rightarrow> int option \<times> store" where
  "insert_suggestion r = db_exec (\<lambda>s.
     (st_next_sg s, s\<lparr>st_suggestions := st_suggestions s @ [r\<lparr>sr_id := st_next_sg s, sr_dismissed := None\<rparr>],
        st_next_sg := st_next_sg s + 1\<rparr>))"

definition open_rows :: "sg_row list \<Rightarrow> sg_row list" where
  "open_rows rows = filter (\<lambda>r. sr_dismissed r = None) rows"

definition newest_first :: "('a \<Rightarrow> time) \<Rightarrow> 'a list \<Rightarrow> 'a list" where
  "newest_first ts rows = sort_key (\<lambda>r. - ts r) rows"

definition list_open_suggestions :: "store \<Rightarrow> sg_row list option \<times> store" where
  "list_open_suggestions = db_exec (\<lambda>s. (newest_first sr_ts (open_rows (st_suggestions s)), s))"

definition list_suggestions_since :: "string \<Rightarrow> time \<Rightarrow> store \<Rightarrow> sg_row list option \<times> store" where
  "list_suggestions_since m since = db_exec (\<lambda>s.
     (newest_first sr_ts (filter (\<lambda>r. sr_module r = m \<and> since \<le> sr_ts r) (st_suggestions s)), s))"

definition dismiss_suggestion :: "int \<Rightarrow> time \<Rightarrow> store \<Rightarrow> unit option \<times> store" where
  "dismiss_suggestion i tm = db_exec (\<lambda>s.
     ((), s\<lparr>st_suggestions :=
        map (\<lambda>r. if sr_id r = i then r\<lparr>sr_dismissed := Some tm\<rparr> else r) (st_suggestions s)\<rparr>))"

definition is_open :: "store \<Rightarrow> string \<Rightarrow> path \<Rightarrow> bool" where
  "is_open s m t \<longleftrightarrow>
     list_ex (\<lambda>r. sr_module r = m \<and> sr_target r = t \<and> sr_dismissed r = None) (st_suggestions s)"

definition has_open_suggestion :: "string \<Rightarrow> path \<Rightarrow> store \<Rightarrow> bool option \<times> store" where
  "has_open_suggestion m t = db_exec (\<lambda>s. (is_open s m t, s))"

subsection \<open>auto_clean_events\<close>

definition record_auto_clean_event :: "ac_event \<Rightarrow> store \<Rightarrow> int option \<times> store" where
  "record_auto_clean_event e = db_exec (\<lambda>s.
     (st_next_ev s, s\<lparr>st_events := st_events s @ [(st_next_ev s, e)], st_next_ev := st_next_ev s + 1\<rparr>))"

definition update_auto_clean_event :: "int \<Rightarrow> ac_update \<Rightarrow> store \<Rightarrow> unit option \<times> store" where
  "update_auto_clean_event i u = db_exec (\<lambda>s.
     ((), s\<lparr>st_events := map (\<lambda>(j, e). (j, if j = i
        then e\<lparr>ev_ended := Some (up_ended u), ev_outcome := up_outcome u, ev_freed := up_freed u,
               ev_error := up_error u\<rparr> else e)) (st_events s)\<rparr>))"

definition auto_clean_stats_since :: "int \<Rightarrow> store \<Rightarrow> (int \<times> int) option \<times> store" where
  "auto_clean_stats_since since = db_exec (\<lambda>s.
     (let es = filter (\<lambda>(i, e). ev_outcome e = Deleted \<and> since \<le> ev_started e) (st_events s)
      in (int (length es), sum_list (map (ev_freed \<circ> snd) es)), s))"

subsection \<open>relocation_queue\<close>

definition pending_status :: "reloc_status \<Rightarrow> bool" where
  "pending_status st \<longleftrightarrow> st = RelocQueued \<or> st = RelocBlocked"

abbreviation pending_row :: "reloc_row \<Rightarrow> bool" where
  "pending_row r \<equiv> pending_status (rq_status r)"

datatype reloc_err =
    DbError
  | RelocResolved int
  | IllegalStatus int reloc_status
  | NoSuchRow int

text \<open>The smallest id of a pending row for the target: \<open>ORDER BY id LIMIT 1\<close>.\<close>

definition find_pending :: "path \<Rightarrow> store \<Rightarrow> int option" where
  "find_pending t s =
     (let ids = map rq_id (filter (\<lambda>r. rq_target r = t \<and> pending_row r) (st_reloc s))
      in if ids = [] then None else Some (Min (set ids)))"

definition insert_reloc :: "reloc_row \<Rightarrow> store \<Rightarrow> int option \<times> store" where
  "insert_reloc e = db_exec (\<lambda>s. (st_next_rq s,
     s\<lparr>st_reloc := st_reloc s @ [e\<lparr>rq_id := st_next_rq s, rq_status := RelocQueued, rq_blocked_reason := None,
          rq_attempts := 0, rq_last_attempt := None, rq_resolved_at := None, rq_freed := 0\<rparr>],
       st_next_rq := st_next_rq s + 1\<rparr>))"

definition enqueue_relocation :: "reloc_row \<Rightarrow> store \<Rightarrow> int option \<times> store" where
  "enqueue_relocation e s =
     (case db_exec (\<lambda>s. (find_pending (rq_target e) s, s)) s of
        (None, s') \<Rightarrow> (None, s')
      | (Some (Some i), s') \<Rightarrow> (Some i, s')
      | (Some None, s') \<Rightarrow> insert_reloc e s')"

definition list_pending_relocations :: "store \<Rightarrow> reloc_row list option \<times> store" where
  "list_pending_relocations = db_exec (\<lambda>s.
     (sort_key rq_queued_at (sort_key rq_id (filter pending_row (st_reloc s))), s))"

text \<open>\<open>UPDATE ... WHERE id = ? AND status IN (queued, blocked)\<close> and the rows affected.\<close>

definition update_pending :: "int \<Rightarrow> (reloc_row \<Rightarrow> reloc_row) \<Rightarrow> store \<Rightarrow> nat \<times> store" where
  "update_pending i f s =
     (length (filter (\<lambda>r. rq_id r = i \<and> pending_row r) (st_reloc s)),
      s\<lparr>st_reloc := map (\<lambda>r. if rq_id r = i \<and> pending_row r then f r else r) (st_reloc s)\<rparr>)"

definition mark_relocation_attempt :: "int \<Rightarrow> int \<Rightarrow> store \<Rightarrow> (reloc_err + unit) \<times> store" where
  "mark_relocation_attempt i tm s =
     (case db_exec (update_pending i
              (\<lambda>r. r\<lparr>rq_last_attempt := Some tm, rq_attempts := rq_attempts r + 1\<rparr>)) s of
        (None, s') \<Rightarrow> (Inl DbError, s')
      | (Some n, s') \<Rightarrow> (if n = 0 then Inl (RelocResolved i) else Inr (), s'))"

record reloc_resolution =
  rr_status :: reloc_status
  rr_blocked_reason :: string
  rr_freed :: int
  rr_resolved_at :: int

definition resolve_relocation :: "int \<Rightarrow> reloc_resolution \<Rightarrow> store \<Rightarrow> (reloc_err + unit) \<times> store" where
  "resolve_relocation i r s =
     (if rr_status r = RelocQueued then (Inl (IllegalStatus i (rr_status r)), s)
      else
        let reason = (if rr_status r = RelocBlocked \<or> rr_blocked_reason r \<noteq> []
                      then Some (rr_blocked_reason r) else None);
            resolved = (if rr_status r = RelocBlocked then None else nullable_unix (rr_resolved_at r))
        in case db_exec (update_pending i
                  (\<lambda>q. q\<lparr>rq_status := rr_status r, rq_blocked_reason := reason,
                         rq_resolved_at := resolved, rq_freed := rr_freed r\<rparr>)) s of
             (None, s') \<Rightarrow> (Inl DbError, s')
           | (Some n, s') \<Rightarrow> (if n = 0 then Inl (RelocResolved i) else Inr (), s'))"

definition get_relocation :: "int \<Rightarrow> store \<Rightarrow> (reloc_err + reloc_row) \<times> store" where
  "get_relocation i s =
     (case db_exec (\<lambda>s. (first_such (\<lambda>r. rq_id r = i) (st_reloc s), s)) s of
        (None, s') \<Rightarrow> (Inl DbError, s')
      | (Some None, s') \<Rightarrow> (Inl (NoSuchRow i), s')
      | (Some (Some r), s') \<Rightarrow> (Inr r, s'))"

subsection \<open>actions, leak_storm_alerts, repo_idleness and the histories\<close>

definition record_action :: "action_row \<Rightarrow> store \<Rightarrow> int option \<times> store" where
  "record_action r = db_exec (\<lambda>s.
     (st_next_ar s, s\<lparr>st_actions := st_actions s @ [r\<lparr>ar_id := st_next_ar s\<rparr>],
        st_next_ar := st_next_ar s + 1\<rparr>))"

text \<open>\<open>LIMIT n\<close>: a negative limit is none.\<close>

definition sql_limit :: "int \<Rightarrow> 'a list \<Rightarrow> 'a list" where
  "sql_limit n xs = (if n < 0 then xs else take (nat n) xs)"

definition list_actions :: "time \<Rightarrow> int \<Rightarrow> store \<Rightarrow> action_row list option \<times> store" where
  "list_actions since cap = db_exec (\<lambda>s.
     (sql_limit cap (newest_first ar_ts (filter (\<lambda>r. since \<le> ar_ts r) (st_actions s))), s))"

definition last_leak_storm_alert :: "string \<Rightarrow> store \<Rightarrow> time option option \<times> store" where
  "last_leak_storm_alert sig = db_exec (\<lambda>s. (map_option fst (st_storms s sig), s))"

definition record_leak_storm_alert :: "string \<Rightarrow> time \<Rightarrow> int \<Rightarrow> store \<Rightarrow> unit option \<times> store" where
  "record_leak_storm_alert sig tm n = db_exec (\<lambda>s. ((), s\<lparr>st_storms := (st_storms s)(sig \<mapsto> (tm, n))\<rparr>))"

fun upsert :: "('a \<Rightarrow> 'k) \<Rightarrow> 'a \<Rightarrow> 'a list \<Rightarrow> 'a list" where
  "upsert k r [] = [r]"
| "upsert k r (x # xs) = (if k x = k r then r # xs else x # upsert k r xs)"

definition upsert_repo_idleness :: "idle_row \<Rightarrow> store \<Rightarrow> unit option \<times> store" where
  "upsert_repo_idleness r = db_exec (\<lambda>s. ((), s\<lparr>st_idle := upsert ir_path r (st_idle s)\<rparr>))"

text \<open>\<open>now.UTC().AddDate(0, 0, -n)\<close> steps whole UTC days.\<close>

definition list_idle_repos :: "int \<Rightarrow> int \<Rightarrow> time \<Rightarrow> store \<Rightarrow> idle_row list option \<times> store" where
  "list_idle_repos min_idle min_bytes tm = db_exec (\<lambda>s.
     (sort_key (\<lambda>r. - ir_nm_bytes r)
        (filter (\<lambda>r. ir_last_commit r \<le> tm - min_idle * day \<and> min_bytes \<le> ir_nm_bytes r) (st_idle s)), s))"

definition record_cache_size :: "path \<Rightarrow> int \<Rightarrow> time \<Rightarrow> store \<Rightarrow> unit option \<times> store" where
  "record_cache_size t n tm = db_exec (\<lambda>s.
     ((), s\<lparr>st_caches := st_caches s @ [\<lparr>cr_target = t, cr_bytes = n, cr_at = tm\<rparr>]\<rparr>))"

definition cache_size_series :: "path \<Rightarrow> time \<Rightarrow> store \<Rightarrow> cache_row list option \<times> store" where
  "cache_size_series t since = db_exec (\<lambda>s.
     (sort_key cr_at (filter (\<lambda>r. cr_target r = t \<and> since \<le> cr_at r) (st_caches s)), s))"

definition record_disk_space :: "string \<Rightarrow> path \<Rightarrow> int \<Rightarrow> int \<Rightarrow> time \<Rightarrow> store \<Rightarrow> unit option \<times> store" where
  "record_disk_space u m tot avail tm = db_exec (\<lambda>s.
     ((), s\<lparr>st_disks := st_disks s @
        [\<lparr>dr_uuid = u, dr_mount = m, dr_total = tot, dr_free = avail, dr_at = tm\<rparr>]\<rparr>))"

definition disk_space_series :: "string \<Rightarrow> time \<Rightarrow> store \<Rightarrow> disk_row list option \<times> store" where
  "disk_space_series u since = db_exec (\<lambda>s.
     (sort_key dr_at (filter (\<lambda>r. dr_uuid r = u \<and> since \<le> dr_at r) (st_disks s)), s))"

text \<open>One entry's outcome in a run over the pending relocations (\<open>internal/modules/offload/pending.go\<close>).\<close>

datatype pending_outcome = PendingApplied | PendingBlocked | PendingSkippedBudget

record pending_result =
  pd_entry :: reloc_row
  pd_outcome :: pending_outcome
  pd_reason :: string
  pd_freed :: int
  pd_attempted :: bool
  pd_error :: bool

end
