(* ===== verification/Autoclean.thy ===== *)
theory Autoclean
  imports Safety Store
begin

text \<open>
  The engine of \<open>internal/autoclean\<close>: the gate cascade \<open>EvaluateSuggestion\<close>, the per-tick \<open>Budget\<close>
  and \<open>Apply\<close>, which writes an audit row, runs the module's deleter and patches the row. The state
  a deleter may change is a type variable; the audit table is reached through the two operations of
  the \<open>EventStore\<close> interface, arguments here, whose laws are the locale \<open>event_store\<close>. The prose of
  an error, which only goes into the audit row, is an argument too (\<open>txt\<close>).
\<close>

record ac_config =
  ac_enabled :: bool
  ac_modules :: "string list"
  ac_min_idle :: int
  ac_min_size_mb :: int
  ac_cap_gb :: int
  ac_risk_ack :: string

record ac_action =
  aa_id :: int
  aa_module :: string
  aa_target :: path
  aa_size :: int
  aa_idle :: int
  aa_skip :: string

subsection \<open>The gates\<close>

fun ev_size :: "ev_val \<Rightarrow> int" where
  "ev_size (EvInt n) = n"
| "ev_size (EvFloat f) = i64_of_f64 f"
| "ev_size (EvStr s) = (case parse_int s of Some b \<Rightarrow> b
     | None \<Rightarrow> (case parse_float s of Some f \<Rightarrow> i64_of_f64 f | None \<Rightarrow> 0))"
| "ev_size (EvOther _) = 0"

definition suggestion_size :: "suggestion \<Rightarrow> int" where
  "suggestion_size s = (if 0 < sg_size s then sg_size s
     else case sg_evidence s ''size_bytes'' of None \<Rightarrow> 0 | Some v \<Rightarrow> ev_size v)"

fun ev_idle :: "ev_val \<Rightarrow> int" where
  "ev_idle (EvInt n) = n"
| "ev_idle (EvFloat f) = i64_of_f64 f"
| "ev_idle (EvStr _) = 0"
| "ev_idle (EvOther _) = 0"

definition suggestion_idle_days :: "suggestion \<Rightarrow> int" where
  "suggestion_idle_days s = (case sg_evidence s ''idle_days'' of None \<Rightarrow> 0 | Some v \<Rightarrow> ev_idle v)"

definition min_size_bytes :: "ac_config \<Rightarrow> int" where
  "min_size_bytes cfg = wrap64 (wrap64 (ac_min_size_mb cfg * 1024) * 1024)"

definition evaluate_suggestion :: "suggestion \<Rightarrow> ac_config \<Rightarrow> ac_action \<times> bool" where
  "evaluate_suggestion s cfg =
     (let a = \<lparr> aa_id = sg_id s, aa_module = sg_module s, aa_target = sg_target s,
                aa_size = suggestion_size s, aa_idle = suggestion_idle_days s, aa_skip = [] \<rparr> in
      if \<not> ac_enabled cfg then (a\<lparr>aa_skip := ''not_enabled''\<rparr>, False)
      else if ac_risk_ack cfg = [] then (a\<lparr>aa_skip := ''risk_not_acknowledged''\<rparr>, False)
      else if sg_module s \<notin> set (ac_modules cfg) then (a\<lparr>aa_skip := ''module_not_allowed''\<rparr>, False)
      else if \<not> self_proving (sg_module s) \<and> aa_idle a < ac_min_idle cfg
        then (a\<lparr>aa_skip := ''idle_too_short''\<rparr>, False)
      else if \<not> self_proving (sg_module s) \<and> aa_size a < min_size_bytes cfg
        then (a\<lparr>aa_skip := ''size_too_small''\<rparr>, False)
      else (a, True))"

text \<open>
  A suggestion qualifies for unattended deletion exactly when auto-clean is enabled, the risk
  acknowledged, its module allowed and, for a module that does not prove its own deletability, the
  repository idle long enough and the target large enough; the action carries the suggestion's own
  id, module and target, and no skip reason.
\<close>

theorem evaluate_gates:
  "(snd (evaluate_suggestion s cfg) \<longleftrightarrow> ac_enabled cfg \<and> ac_risk_ack cfg \<noteq> [] \<and> sg_module s \<in> set (ac_modules cfg)
     \<and> (self_proving (sg_module s) \<or>
        (ac_min_idle cfg \<le> suggestion_idle_days s \<and> min_size_bytes cfg \<le> suggestion_size s)))
   \<and> (let a = fst (evaluate_suggestion s cfg) in aa_id a = sg_id s \<and> aa_module a = sg_module s
     \<and> aa_target a = sg_target s \<and> aa_size a = suggestion_size s
     \<and> (aa_skip a = [] \<longleftrightarrow> snd (evaluate_suggestion s cfg)))"
  by (auto simp: evaluate_suggestion_def Let_def)

lemma evaluate_action:
  "evaluate_suggestion s cfg = (a, True) \<Longrightarrow>
   aa_id a = sg_id s \<and> aa_module a = sg_module s \<and> aa_target a = sg_target s \<and> aa_size a = suggestion_size s
   \<and> ac_enabled cfg \<and> ac_risk_ack cfg \<noteq> [] \<and> sg_module s \<in> set (ac_modules cfg)"
  by (auto simp: evaluate_suggestion_def Let_def split: if_splits)

lemma suggestion_size_in_range: "in_i64 (sg_size s) \<Longrightarrow>
   (\<And>n. sg_evidence s ''size_bytes'' = Some (EvInt n) \<Longrightarrow> in_i64 n) \<Longrightarrow> in_i64 (suggestion_size s)"
proof -
  assume a: "in_i64 (sg_size s)" "\<And>n. sg_evidence s ''size_bytes'' = Some (EvInt n) \<Longrightarrow> in_i64 n"
  have z: "in_i64 0" by (simp add: in_i64_def max_i64_def min_i64_def)
  have "in_i64 (ev_size v)" if "sg_evidence s ''size_bytes'' = Some v" for v
    using that a(2) z by (cases v) (auto dest: parse_int_range split: option.split)
  with a(1) z show ?thesis by (auto simp: suggestion_size_def split: option.split)
qed

subsection \<open>The budget\<close>

record budget =
  bu_cap :: int
  bu_used :: int

definition new_budget :: "int \<Rightarrow> budget" where
  "new_budget gb = (let n = (if gb < 0 then 0 else gb) in
     \<lparr> bu_cap = wrap64 (wrap64 (wrap64 (n * 1024) * 1024) * 1024), bu_used = 0 \<rparr>)"

definition take_budget :: "budget \<Rightarrow> int \<Rightarrow> bool \<times> budget" where
  "take_budget b n =
     (if n < 0 then (False, b)
      else if bu_cap b < wrap64 (bu_used b + n) then (False, b)
      else (True, b\<lparr>bu_used := wrap64 (bu_used b + n)\<rparr>))"

definition budget_remaining :: "budget \<Rightarrow> int" where
  "budget_remaining b = wrap64 (bu_cap b - bu_used b)"

definition budget_ok :: "budget \<Rightarrow> bool" where
  "budget_ok b \<longleftrightarrow> 0 \<le> bu_used b \<and> bu_used b \<le> max 0 (bu_cap b) \<and> in_i64 (bu_cap b)"

lemma new_budget_ok: "budget_ok (new_budget gb)"
  by (simp add: budget_ok_def new_budget_def Let_def)

lemma new_budget_cap: "0 \<le> gb \<Longrightarrow> gb < 2 ^ 33 \<Longrightarrow> bu_cap (new_budget gb) = gb * 2 ^ 30"
  by (simp add: new_budget_def Let_def in_i64_def max_i64_def min_i64_def)

lemma take_budget_step:
  assumes "budget_ok b" "bu_used b + n \<le> max_i64" "take_budget b n = (r, b')"
  shows "budget_ok b' \<and> bu_cap b' = bu_cap b
    \<and> (if r then 0 \<le> n \<and> bu_used b' = bu_used b + n \<and> bu_used b' \<le> bu_cap b else b' = b)"
proof (cases "n < 0")
  case True
  with assms show ?thesis by (simp add: take_budget_def)
next
  case False
  have "in_i64 (bu_used b + n)"
    using assms(1,2) False by (simp add: budget_ok_def in_i64_def min_i64_def)
  with assms False show ?thesis by (auto simp: take_budget_def budget_ok_def split: if_splits)
qed

text \<open>Charges in sequence, as the tick makes them: the accepted ones up to the first refusal.\<close>

fun charge_all :: "budget \<Rightarrow> int list \<Rightarrow> int list \<times> budget" where
  "charge_all b [] = ([], b)"
| "charge_all b (n # ns) = (case take_budget b n of
     (False, b') \<Rightarrow> ([], b')
   | (True, b') \<Rightarrow> (case charge_all b' ns of (cs, b'') \<Rightarrow> (n # cs, b'')))"

lemma charge_all_bound:
  assumes "budget_ok b" "\<forall>n \<in> set ns. n \<le> max_i64 - bu_cap b" "0 \<le> bu_cap b" "charge_all b ns = (cs, b')"
  shows "budget_ok b' \<and> bu_cap b' = bu_cap b \<and> bu_used b' = bu_used b + sum_list cs \<and> (\<forall>c \<in> set cs. 0 \<le> c)"
  using assms
proof (induction ns arbitrary: b cs b')
  case Nil
  then show ?case by simp
next
  case (Cons n ns)
  obtain r b1 where t: "take_budget b n = (r, b1)" by fastforce
  have "bu_used b + n \<le> max_i64"
    using Cons.prems by (simp add: budget_ok_def)
  note st = take_budget_step [OF Cons.prems(1) this t]
  show ?case
  proof (cases r)
    case False
    with st t Cons.prems show ?thesis by simp
  next
    case True
    obtain ds b2 where d: "charge_all b1 ns = (ds, b2)" by fastforce
    have "budget_ok b2 \<and> bu_cap b2 = bu_cap b1 \<and> bu_used b2 = bu_used b1 + sum_list ds \<and> (\<forall>c \<in> set ds. 0 \<le> c)"
      by (rule Cons.IH) (use st True Cons.prems d in simp_all)
    moreover have "cs = n # ds" "b' = b2" using Cons.prems(4) t True d by simp_all
    ultimately show ?thesis using st True by simp
  qed
qed

text \<open>
  C19. The per-tick budget holds: from a fresh budget of \<open>gb\<close> GiB, however many charges are attempted,
  the accepted ones (none negative) add up to at most the cap and to what \<open>Used\<close> reports, as long as
  no single charge comes within the cap of the 64-bit limit.
\<close>

theorem budget_never_exceeded:
  assumes "0 \<le> gb" "gb < 2 ^ 33" "\<forall>n \<in> set ns. n \<le> max_i64 - gb * 2 ^ 30"
  shows "sum_list (fst (charge_all (new_budget gb) ns)) \<le> gb * 2 ^ 30
    \<and> bu_used (snd (charge_all (new_budget gb) ns)) = sum_list (fst (charge_all (new_budget gb) ns))"
proof -
  obtain cs b where c: "charge_all (new_budget gb) ns = (cs, b)" by fastforce
  have "budget_ok b \<and> bu_cap b = bu_cap (new_budget gb) \<and> bu_used b = bu_used (new_budget gb) + sum_list cs \<and> (\<forall>c \<in> set cs. 0 \<le> c)"
    by (rule charge_all_bound [OF new_budget_ok _ _ c]) (use assms in \<open>simp_all add: new_budget_cap\<close>)
  moreover have "bu_used (new_budget gb) = 0" by (simp add: new_budget_def Let_def)
  ultimately show ?thesis using assms(1,2) c by (simp add: budget_ok_def new_budget_cap max_def split: if_splits)
qed

lemma budget_never_exceeded_witness:
  "sum_list (fst (charge_all (new_budget 10) [4 * 2 ^ 30, 6 * 2 ^ 30, 1])) \<le> 10 * 2 ^ 30
    \<and> fst (charge_all (new_budget 10) [4 * 2 ^ 30, 6 * 2 ^ 30, 1]) = [4 * 2 ^ 30, 6 * 2 ^ 30]"
  using budget_never_exceeded [of 10 "[4 * 2 ^ 30, 6 * 2 ^ 30, 1]"]
  by (simp add: max_i64_def new_budget_def take_budget_def in_i64_def min_i64_def)

text \<open>
  The 64-bit addition in \<open>Take\<close> wraps: a charge that takes the sum past the largest \<open>int64\<close> is
  accepted, whatever the cap, and leaves a negative amount in use, so later charges fit again.
\<close>

lemma budget_take_overflow:
  assumes "0 < bu_used b" "bu_used b \<le> bu_cap b" "in_i64 (bu_cap b)" "max_i64 - bu_used b < n" "n \<le> max_i64"
  shows "fst (take_budget b n) \<and> bu_used (snd (take_budget b n)) < 0"
proof -
  have w: "wrap64 (bu_used b + n) = bu_used b + n - 2 ^ 64"
  proof -
    have "(bu_used b + n + 2 ^ 63) mod 2 ^ 64 = (bu_used b + n + 2 ^ 63 - 2 ^ 64) mod 2 ^ 64"
      by (metis minus_mod_self2)
    also have "\<dots> = bu_used b + n + 2 ^ 63 - 2 ^ 64"
      by (rule mod_pos_pos_trivial) (use assms in \<open>simp_all add: in_i64_def max_i64_def\<close>)
    finally show ?thesis by (simp add: wrap64_mod)
  qed
  with assms show ?thesis by (simp add: take_budget_def in_i64_def max_i64_def)
qed

lemma budget_take_overflow_witness:
  "fst (take_budget \<lparr>bu_cap = 10 * 2 ^ 30, bu_used = 1\<rparr> max_i64)
   \<and> bu_used (snd (take_budget \<lparr>bu_cap = 10 * 2 ^ 30, bu_used = 1\<rparr> max_i64)) < 0"
  by (rule budget_take_overflow) (simp_all add: in_i64_def max_i64_def min_i64_def)

end
