(* ===== verification/AutocleanApply.thy ===== *)
theory AutocleanApply
  imports Autoclean
begin

text \<open>
  \<open>internal/autoclean/apply.go\<close>: the last-line guard and the audited delete. \<open>event_store\<close> is the
  \<open>EventStore\<close> interface with the laws the engine relies on: a recorded row is appended under the id
  it returns, an update patches the rows of that id only, and a failed call changes no row. The
  clients' lemmas are proved once in the locale; its interpretation on the store is in \<open>EventLog\<close>.
\<close>

text \<open>A deleter returns the bytes freed and its error, \<open>None\<close> when there is none.\<close>

type_synonym 'w deleter = "path \<Rightarrow> 'w \<Rightarrow> (int \<times> string option) \<times> 'w"

record 'w engine =
  en_cfg :: ac_config
  en_roots :: "path list"
  en_safety :: "safety option"
  en_deleters :: "string \<Rightarrow> 'w deleter option"

datatype guard_err =
    GuardAbs path
  | GuardRoots
  | GuardModule
  | GuardDeny deny
  | GuardNoDeleter string

datatype apply_err =
    TriggerForbidden
  | GuardFailed guard_err
  | AuditFailed
  | DeleteFailed string

record ac_result =
  re_id :: int
  re_target :: path
  re_freed :: int

text \<open>An empty list of roots is permissive.\<close>

definition under_any_root :: "path option \<Rightarrow> path \<Rightarrow> path list \<Rightarrow> bool" where
  "under_any_root cwd p roots \<longleftrightarrow> roots = [] \<or>
     list_ex (\<lambda>r. case abs_path cwd r of None \<Rightarrow> False | Some a \<Rightarrow> rel_inside a p) roots"

definition safety_guard :: "path option \<Rightarrow> 'w engine \<Rightarrow> ac_action \<Rightarrow> guard_err option" where
  "safety_guard cwd e a =
     (case abs_path cwd (aa_target a) of
        None \<Rightarrow> Some (GuardAbs (aa_target a))
      | Some p \<Rightarrow>
          let self = self_proving (aa_module a) in
          if \<not> self \<and> \<not> under_any_root cwd p (en_roots e) then Some GuardRoots
          else if aa_module a \<notin> set (ac_modules (en_cfg e)) then Some GuardModule
          else case (if self then None else Option.bind (en_safety e) (\<lambda>s. can_delete cwd s p)) of
            Some d \<Rightarrow> Some (GuardDeny d)
          | None \<Rightarrow> (if en_deleters e (aa_module a) = None then Some (GuardNoDeleter (aa_module a)) else None))"

definition base_event :: "ac_action \<Rightarrow> string \<Rightarrow> int \<Rightarrow> ac_event" where
  "base_event a tr tm = \<lparr> ev_started = tm, ev_ended = None, ev_trigger = tr, ev_outcome = InProgress,
     ev_skip_reason = [], ev_target = aa_target a, ev_module = aa_module a, ev_target_size = aa_size a,
     ev_freed = 0, ev_idle_days = aa_idle a, ev_suggestion_id = itoa (aa_id a), ev_error = [] \<rparr>"

definition skipped_event :: "ac_action \<Rightarrow> string \<Rightarrow> int \<Rightarrow> string \<Rightarrow> ac_event" where
  "skipped_event a tr tm msg = (base_event a tr tm)\<lparr> ev_ended := nullable_unix tm, ev_outcome := Skipped,
     ev_skip_reason := ''safety_guard'', ev_error := msg \<rparr>"

text \<open>\<open>time.Now().Unix()\<close>: whole seconds.\<close>

definition unix_of :: "time \<Rightarrow> int" where
  "unix_of t = t div second"

definition trigger_ok :: "string \<Rightarrow> bool" where
  "trigger_ok tr \<longleftrightarrow> tr = ''daily'' \<or> tr = ''manual''"

text \<open>The patch of the row once the deleter has returned.\<close>

definition final_update :: "time \<Rightarrow> int \<Rightarrow> string option \<Rightarrow> ac_update" where
  "final_update t n err = \<lparr> up_ended = unix_of t, up_outcome = (if err = None then Deleted else Errored),
     up_freed = n, up_error = (case err of None \<Rightarrow> [] | Some m \<Rightarrow> m) \<rparr>"

definition ac_apply ::
  "(ac_event \<Rightarrow> 'w \<Rightarrow> int option \<times> 'w) \<Rightarrow> (int \<Rightarrow> ac_update \<Rightarrow> 'w \<Rightarrow> unit option \<times> 'w)
   \<Rightarrow> ('w \<Rightarrow> time \<times> 'w) \<Rightarrow> (guard_err \<Rightarrow> string) \<Rightarrow> path option
   \<Rightarrow> 'w engine \<Rightarrow> ac_action \<Rightarrow> string \<Rightarrow> 'w \<Rightarrow> (apply_err + ac_result) \<times> 'w" where
  "ac_apply rcd upd clk txt cwd e a tr w =
     (if \<not> trigger_ok tr then (Inl TriggerForbidden, w)
      else case clk w of (t0, w0) \<Rightarrow>
        (case safety_guard cwd e a of
           Some g \<Rightarrow> (Inl (GuardFailed g), snd (rcd (skipped_event a tr (unix_of t0) (txt g)) w0))
         | None \<Rightarrow>
           (case rcd (base_event a tr (unix_of t0)) w0 of
              (None, w1) \<Rightarrow> (Inl AuditFailed, w1)
            | (Some i, w1) \<Rightarrow>
              (case the (en_deleters e (aa_module a)) (aa_target a) w1 of
                 ((n, err), w2) \<Rightarrow>
                 (case clk w2 of (t1, w3) \<Rightarrow>
                    let w4 = snd (upd i (final_update t1 n err) w3)
                    in (case err of
                          Some m \<Rightarrow> (Inl (DeleteFailed m), w4)
                        | None \<Rightarrow> (Inr \<lparr> re_id = aa_id a, re_target = aa_target a, re_freed = n \<rparr>, w4)))))))"

text \<open>The four ways through \<open>Apply\<close>.\<close>

lemma ac_apply_trigger: "\<not> trigger_ok tr \<Longrightarrow> ac_apply rcd upd clk txt cwd e a tr w = (Inl TriggerForbidden, w)"
  by (simp add: ac_apply_def)

lemma ac_apply_refused:
  "trigger_ok tr \<Longrightarrow> clk w = (t0, w0) \<Longrightarrow> safety_guard cwd e a = Some g \<Longrightarrow>
   ac_apply rcd upd clk txt cwd e a tr w =
     (Inl (GuardFailed g), snd (rcd (skipped_event a tr (unix_of t0) (txt g)) w0))"
  by (simp add: ac_apply_def)

lemma ac_apply_unaudited:
  "trigger_ok tr \<Longrightarrow> clk w = (t0, w0) \<Longrightarrow> safety_guard cwd e a = None \<Longrightarrow>
   rcd (base_event a tr (unix_of t0)) w0 = (None, w1) \<Longrightarrow>
   ac_apply rcd upd clk txt cwd e a tr w = (Inl AuditFailed, w1)"
  by (simp add: ac_apply_def)

lemma ac_apply_deletes:
  "trigger_ok tr \<Longrightarrow> clk w = (t0, w0) \<Longrightarrow> safety_guard cwd e a = None \<Longrightarrow>
   rcd (base_event a tr (unix_of t0)) w0 = (Some i, w1) \<Longrightarrow>
   the (en_deleters e (aa_module a)) (aa_target a) w1 = ((n, err), w2) \<Longrightarrow> clk w2 = (t1, w3) \<Longrightarrow>
   ac_apply rcd upd clk txt cwd e a tr w =
     (case err of None \<Rightarrow> Inr \<lparr> re_id = aa_id a, re_target = aa_target a, re_freed = n \<rparr>
      | Some m \<Rightarrow> Inl (DeleteFailed m), snd (upd i (final_update t1 n err) w3))"
  by (simp add: ac_apply_def Let_def split: option.split)

lemma safety_guard_cong:
  assumes "en_cfg e' = en_cfg e" "en_roots e' = en_roots e" "en_safety e' = en_safety e"
    and "(en_deleters e' (aa_module a) = None) = (en_deleters e (aa_module a) = None)"
  shows "safety_guard cwd e' a = safety_guard cwd e a"
  unfolding safety_guard_def assms ..

lemma safety_guard_None:
  "safety_guard cwd e a = None \<longleftrightarrow>
    (\<exists>p. abs_path cwd (aa_target a) = Some p
       \<and> aa_module a \<in> set (ac_modules (en_cfg e)) \<and> en_deleters e (aa_module a) \<noteq> None
       \<and> (self_proving (aa_module a) \<or> under_any_root cwd p (en_roots e)
            \<and> (\<forall>s. en_safety e = Some s \<longrightarrow> can_delete cwd s p = None)))"
  by (cases "abs_path cwd (aa_target a)"; cases "en_safety e"; cases "self_proving (aa_module a)")
    (auto simp: safety_guard_def Let_def split: option.splits if_splits)

subsection \<open>The audit interface\<close>

definition patch_event :: "ac_update \<Rightarrow> ac_event \<Rightarrow> ac_event" where
  "patch_event u e = e\<lparr>ev_ended := Some (up_ended u), ev_outcome := up_outcome u, ev_freed := up_freed u,
     ev_error := up_error u\<rparr>"

locale event_store =
  fixes rcd :: "ac_event \<Rightarrow> 'w \<Rightarrow> int option \<times> 'w"
    and upd :: "int \<Rightarrow> ac_update \<Rightarrow> 'w \<Rightarrow> unit option \<times> 'w"
    and clk :: "'w \<Rightarrow> time \<times> 'w"
    and rows :: "'w \<Rightarrow> (int \<times> ac_event) list"
    and wf :: "'w \<Rightarrow> bool"
  assumes rcd_ok: "rcd e w = (Some i, w') \<Longrightarrow> rows w' = rows w @ [(i, e)]"
    and rcd_fail: "rcd e w = (None, w') \<Longrightarrow> rows w' = rows w"
    and rcd_fresh: "wf w \<Longrightarrow> rcd e w = (Some i, w') \<Longrightarrow> i \<notin> fst ` set (rows w)"
    and upd_ok: "upd i u w = (Some x, w') \<Longrightarrow>
      rows w' = map (\<lambda>(j, e). (j, if j = i then patch_event u e else e)) (rows w)"
    and upd_fail: "upd i u w = (None, w') \<Longrightarrow> rows w' = rows w"
    and clk_rows: "clk w = (t, w') \<Longrightarrow> rows w' = rows w"
    and wf_keep: "wf w \<Longrightarrow> wf (snd (rcd e w))" "wf w \<Longrightarrow> wf (snd (upd i u w))" "wf w \<Longrightarrow> wf (snd (clk w))"
begin

text \<open>The crash pivot of a delete: an in-progress row that names the target and the module.\<close>

definition pivot :: "'w \<Rightarrow> string \<Rightarrow> path \<Rightarrow> bool" where
  "pivot w m p \<longleftrightarrow> (\<exists>(i, e) \<in> set (rows w). ev_outcome e = InProgress \<and> ev_target e = p \<and> ev_module e = m)"

lemma rcd_pivot: "rcd (base_event a tr t) w = (Some i, w') \<Longrightarrow> pivot w' (aa_module a) (aa_target a)"
  by (auto simp: pivot_def rcd_ok base_event_def)

text \<open>Two engines that differ only in what their deleters do where no delete is permitted.\<close>

definition permitted :: "path option \<Rightarrow> 'w engine \<Rightarrow> ac_action \<Rightarrow> string \<Rightarrow> 'w \<Rightarrow> bool" where
  "permitted cwd e a tr w \<longleftrightarrow> trigger_ok tr \<and> safety_guard cwd e a = None
     \<and> pivot w (aa_module a) (aa_target a)"

lemma apply_agree:
  assumes "en_cfg e' = en_cfg e" "en_roots e' = en_roots e" "en_safety e' = en_safety e"
    and "(en_deleters e' (aa_module a) = None) = (en_deleters e (aa_module a) = None)"
    and "\<And>v. permitted cwd e a tr v \<Longrightarrow>
      the (en_deleters e' (aa_module a)) (aa_target a) v = the (en_deleters e (aa_module a)) (aa_target a) v"
  shows "ac_apply rcd upd clk txt cwd e' a tr w = ac_apply rcd upd clk txt cwd e a tr w"
proof -
  have g: "safety_guard cwd e' a = safety_guard cwd e a" by (rule safety_guard_cong [OF assms(1-4)])
  obtain t0 w0 where t0: "clk w = (t0, w0)" by fastforce
  show ?thesis
  proof (cases "trigger_ok tr")
    case False
    then show ?thesis by (simp add: ac_apply_trigger)
  next
    case tr: True
    show ?thesis
    proof (cases "safety_guard cwd e a")
      case (Some x)
      then show ?thesis
        using ac_apply_refused [where clk = clk and rcd = rcd and a = a and e = e, OF tr t0]
          ac_apply_refused [where clk = clk and rcd = rcd and a = a and e = e', OF tr t0] g by simp
    next
      case gn: None
      obtain i w1 where r: "rcd (base_event a tr (unix_of t0)) w0 = (i, w1)" by fastforce
      show ?thesis
      proof (cases i)
        case None
        with r gn show ?thesis
          using ac_apply_unaudited [where clk = clk and rcd = rcd and a = a and e = e, OF tr t0]
            ac_apply_unaudited [where clk = clk and rcd = rcd and a = a and e = e', OF tr t0] g by simp
      next
        case (Some j)
        with r gn tr have "permitted cwd e a tr w1"
          using rcd_pivot by (simp add: permitted_def)
        with assms(5) have same: "the (en_deleters e' (aa_module a)) (aa_target a) w1 =
            the (en_deleters e (aa_module a)) (aa_target a) w1" .
        obtain n err w2 where dd: "the (en_deleters e' (aa_module a)) (aa_target a) w1 = ((n, err), w2)"
          by (metis prod.collapse)
        obtain t1 w3 where t1: "clk w2 = (t1, w3)" by fastforce
        show ?thesis
          using ac_apply_deletes [where clk = clk and rcd = rcd and a = a and e = e,
              OF tr t0 gn r [unfolded Some] dd [unfolded same] t1]
            ac_apply_deletes [where clk = clk and rcd = rcd and a = a and e = e',
              OF tr t0 g [unfolded gn] r [unfolded Some] dd t1] by simp
      qed
    qed
  qed
qed

text \<open>What the audit table holds once \<open>Apply\<close> is done.\<close>

lemma apply_audit:
  assumes "wf w" "\<And>d p v. en_deleters e (aa_module a) = Some d \<Longrightarrow> rows (snd (d p v)) = rows v \<and> (wf v \<longrightarrow> wf (snd (d p v)))"
    and "ac_apply rcd upd clk txt cwd e a tr w = (r, w')"
  shows "wf w' \<and> (case r of
      Inl TriggerForbidden \<Rightarrow> rows w' = rows w
    | Inl (GuardFailed g) \<Rightarrow> rows w' = rows w \<or> (\<exists>i t. rows w' = rows w @ [(i, skipped_event a tr t (txt g))])
    | Inl AuditFailed \<Rightarrow> rows w' = rows w
    | Inl (DeleteFailed m) \<Rightarrow> (\<exists>i ev. rows w' = rows w @ [(i, ev)] \<and> ev_target ev = aa_target a \<and> ev_target_size ev = aa_size a
         \<and> ev_outcome ev \<in> {InProgress, Errored})
    | Inr q \<Rightarrow> (\<exists>i ev. rows w' = rows w @ [(i, ev)] \<and> ev_target ev = aa_target a \<and> ev_target_size ev = aa_size a
         \<and> (ev_outcome ev = InProgress \<or> ev_outcome ev = Deleted \<and> ev_freed ev = re_freed q)))"
proof (cases "trigger_ok tr")
  case False
  with assms show ?thesis by (auto simp: ac_apply_trigger)
next
  case tr: True
  obtain t0 w0 where t0: "clk w = (t0, w0)" by fastforce
  then have w0: "rows w0 = rows w" "wf w0"
    using clk_rows [OF t0] wf_keep(3) [OF assms(1)] by auto
  show ?thesis
  proof (cases "safety_guard cwd e a")
    case (Some g)
    obtain i w1 where r1: "rcd (skipped_event a tr (unix_of t0) (txt g)) w0 = (i, w1)" by fastforce
    have "rows w1 = rows w \<or> (\<exists>i t. rows w1 = rows w @ [(i, skipped_event a tr t (txt g))])"
      using rcd_ok rcd_fail r1 w0(1) by (cases i) metis+
    moreover have "wf w1" using wf_keep(1) [OF w0(2)] r1 by (metis snd_conv)
    moreover have "r = Inl (GuardFailed g)" "w' = w1"
      using assms(3) ac_apply_refused [where clk = clk and rcd = rcd and a = a and e = e, OF tr t0 Some] r1 by simp_all
    ultimately show ?thesis by simp
  next
    case gn: None
    then obtain d where d: "en_deleters e (aa_module a) = Some d"
      by (auto simp: safety_guard_None)
    obtain i w1 where r1: "rcd (base_event a tr (unix_of t0)) w0 = (i, w1)" by fastforce
    have wf1: "wf w1" using wf_keep(1) [OF w0(2)] r1 by (metis snd_conv)
    show ?thesis
    proof (cases i)
      case None
      have "r = Inl AuditFailed" "w' = w1"
        using assms(3) ac_apply_unaudited [where clk = clk and rcd = rcd and a = a and e = e, OF tr t0 gn r1 [unfolded None]] by simp_all
      with rcd_fail [OF r1 [unfolded None]] w0 wf1 show ?thesis by simp
    next
      case (Some j)
      obtain n err w2 where dd: "d (aa_target a) w1 = ((n, err), w2)" by (metis prod.collapse)
      then have d': "the (en_deleters e (aa_module a)) (aa_target a) w1 = ((n, err), w2)" using d by simp
      obtain t1 w3 where t1: "clk w2 = (t1, w3)" by fastforce
      obtain x w4 where u4: "upd j (final_update t1 n err) w3 = (x, w4)" by fastforce
      have rows1: "rows w1 = rows w @ [(j, base_event a tr (unix_of t0))]"
        using rcd_ok r1 Some w0(1) by metis
      have fr: "j \<notin> fst ` set (rows w)"
        using rcd_fresh [OF w0(2)] r1 Some w0(1) by metis
      have "rows w2 = rows w1" "wf w2"
        using assms(2) [OF d, of "aa_target a" w1] dd wf1 by auto
      then have rows3: "rows w3 = rows w1" "wf w3"
        using clk_rows [OF t1] wf_keep(3) [of w2] t1 by auto
      have wf4: "wf w4" using wf_keep(2) [OF rows3(2), of j] u4 by (metis snd_conv)
      define ev where "ev = (if x = None then base_event a tr (unix_of t0)
        else patch_event (final_update t1 n err) (base_event a tr (unix_of t0)))"
      have rows4: "rows w4 = rows w @ [(j, ev)]"
      proof (cases x)
        case None
        with upd_fail u4 rows3 rows1 show ?thesis by (simp add: ev_def)
      next
        case (Some y)
        have "map (\<lambda>(k, e). (k, if k = j then patch_event (final_update t1 n err) e else e)) (rows w) = rows w"
          by (rule map_idI) (use fr in force)
        with upd_ok [OF u4 [unfolded Some]] rows3 rows1 Some show ?thesis by (simp add: ev_def)
      qed
      have ev: "ev_target ev = aa_target a" "ev_target_size ev = aa_size a" "ev_outcome ev = InProgress \<or>
          ev_outcome ev = (if err = None then Deleted else Errored) \<and> ev_freed ev = n"
        by (simp_all add: ev_def patch_event_def base_event_def final_update_def)
      have "w' = w4" "r = (case err of None \<Rightarrow> Inr \<lparr> re_id = aa_id a, re_target = aa_target a, re_freed = n \<rparr>
          | Some m \<Rightarrow> Inl (DeleteFailed m))"
        using assms(3) ac_apply_deletes [where clk = clk and rcd = rcd and a = a and e = e, OF tr t0 gn r1 [unfolded Some] d' t1] u4 by simp_all
      then show ?thesis using rows4 ev wf4 by (cases err) auto
    qed
  qed
qed

end

end
