(* ===== verification/RelocQueue.thy ===== *)
theory RelocQueue
  imports Store
begin

text \<open>
  The relocation queue as a state machine over \<open>internal/store/reloc_queue.go\<close>: its invariant (ids
  fresh and without duplicates, one pending row per target, a blocked row unresolved), the step
  relation of the four operations that change it, and what every reachable queue satisfies.
\<close>

lemma db_exec_None: "db_exec f s = (None, s') \<Longrightarrow> s' = s\<lparr>db_calls := Suc (db_calls s)\<rparr>"
  by (auto simp: db_exec_def Let_def split: if_splits prod.splits)

lemma db_exec_Some:
  "db_exec f s = (Some x, s') \<Longrightarrow> f (s\<lparr>db_calls := Suc (db_calls s)\<rparr>) = (x, s')"
  by (auto simp: db_exec_def Let_def split: if_splits prod.splits)

text \<open>A property of the tables that the statement itself keeps holds after the call, failed or not.\<close>

lemma db_exec_inv:
  assumes "db_exec f s = (r, s')" "\<And>n. P (s\<lparr>db_calls := n\<rparr>) = P s"
    and "\<And>s x s'. P s \<Longrightarrow> f s = (x, s') \<Longrightarrow> P s'" "P s"
  shows "P s'"
proof (cases r)
  case None
  with assms(1) have e: "s' = s\<lparr>db_calls := Suc (db_calls s)\<rparr>" using db_exec_None by metis
  show ?thesis unfolding e assms(2) by (rule assms(4))
next
  case (Some x)
  with assms(1) have "f (s\<lparr>db_calls := Suc (db_calls s)\<rparr>) = (x, s')" using db_exec_Some by metis
  moreover have "P (s\<lparr>db_calls := Suc (db_calls s)\<rparr>)" unfolding assms(2) by (rule assms(4))
  ultimately show ?thesis by (rule assms(3) [rotated])
qed

subsection \<open>The invariant\<close>

definition row_ok :: "reloc_row \<Rightarrow> bool" where
  "row_ok r \<longleftrightarrow> 0 \<le> rq_attempts r \<and> (rq_last_attempt r = None \<longleftrightarrow> rq_attempts r = 0)
     \<and> (pending_row r \<longrightarrow> rq_resolved_at r = None)
     \<and> (rq_status r = RelocBlocked \<longleftrightarrow> pending_row r \<and> rq_blocked_reason r \<noteq> None)"

definition pending_targets :: "reloc_row list \<Rightarrow> path list" where
  "pending_targets rs = map rq_target (filter pending_row rs)"

definition queue_ok :: "store \<Rightarrow> bool" where
  "queue_ok s \<longleftrightarrow> distinct (map rq_id (st_reloc s)) \<and> (\<forall>r \<in> set (st_reloc s). rq_id r < st_next_rq s)
     \<and> distinct (pending_targets (st_reloc s)) \<and> (\<forall>r \<in> set (st_reloc s). row_ok r)"

lemma queue_ok_calls [simp]: "queue_ok (s\<lparr>db_calls := n\<rparr>) = queue_ok s"
  by (simp add: queue_ok_def)

lemma queue_ok_empty [simp]: "queue_ok (empty_store faults)"
  by (simp add: queue_ok_def empty_store_def pending_targets_def)

lemma find_pending_None:
  "find_pending t s = None \<longleftrightarrow> t \<notin> set (pending_targets (st_reloc s))"
  by (auto simp: find_pending_def Let_def pending_targets_def filter_empty_conv)

lemma find_pending_Some:
  assumes "find_pending t s = Some i"
  shows "\<exists>r \<in> set (st_reloc s). rq_id r = i \<and> rq_target r = t \<and> pending_row r"
proof -
  let ?ids = "map rq_id (filter (\<lambda>r. rq_target r = t \<and> pending_row r) (st_reloc s))"
  have def: "find_pending t s = (if ?ids = [] then None else Some (Min (set ?ids)))"
    unfolding find_pending_def Let_def ..
  have ne: "?ids \<noteq> []"
  proof
    assume "?ids = []"
    with def assms show False by simp
  qed
  with def assms have "i = Min (set ?ids)" by simp
  moreover have "Min (set ?ids) \<in> set ?ids"
    using ne by (intro Min_in) (simp_all del: set_map set_filter)
  ultimately have "i \<in> set ?ids" by metis
  then show ?thesis by auto
qed

lemma insert_reloc_inv:
  assumes "queue_ok s" "rq_target e \<notin> set (pending_targets (st_reloc s))"
    and "insert_reloc e s = (r, s')"
  shows "queue_ok s'"
proof (cases r)
  case None
  with assms show ?thesis by (auto simp: insert_reloc_def dest: db_exec_None)
next
  case (Some i)
  from assms(3)[unfolded Some insert_reloc_def] have s': "st_reloc s' = st_reloc s @
      [e\<lparr>rq_id := st_next_rq s, rq_status := RelocQueued, rq_blocked_reason := None,
         rq_attempts := 0, rq_last_attempt := None, rq_resolved_at := None, rq_freed := 0\<rparr>]"
      "st_next_rq s' = st_next_rq s + 1"
    by (auto dest!: db_exec_Some)
  show ?thesis
    using assms(1,2) unfolding queue_ok_def s'
    by (auto simp: pending_targets_def row_ok_def pending_status_def)
qed

lemma update_pending_reloc:
  "update_pending i f s = (n, s') \<Longrightarrow>
   st_reloc s' = map (\<lambda>r. if rq_id r = i \<and> pending_row r then f r else r) (st_reloc s)
   \<and> st_next_rq s' = st_next_rq s"
  by (auto simp: update_pending_def)

definition keeps_row :: "(reloc_row \<Rightarrow> reloc_row) \<Rightarrow> bool" where
  "keeps_row f \<longleftrightarrow> (\<forall>r. rq_id (f r) = rq_id r \<and> rq_target (f r) = rq_target r
     \<and> (pending_row r \<longrightarrow> row_ok r \<longrightarrow> row_ok (f r)))"

lemma distinct_map_filter_shrink:
  assumes "distinct (map t (filter P xs))"
    and "\<And>x. x \<in> set xs \<Longrightarrow> t (g x) = t x \<and> (P (g x) \<longrightarrow> P x)"
  shows "distinct (map t (filter P (map g xs)))"
  using assms
proof (induction xs)
  case (Cons x xs)
  have sub: "t ` set (filter P (map g xs)) \<subseteq> t ` set (filter P xs)"
    using Cons.prems(2) by fastforce
  have tail: "distinct (map t (filter P (map g xs)))"
    using Cons.prems by (intro Cons.IH) (auto split: if_splits)
  show ?case
  proof (cases "P (g x)")
    case True
    with Cons.prems have "P x" "t (g x) = t x" by auto
    with Cons.prems(1) sub have "t (g x) \<notin> t ` set (filter P (map g xs))" by auto
    with True tail show ?thesis by simp
  next
    case False
    with tail show ?thesis by simp
  qed
qed simp

lemma update_pending_inv:
  assumes "queue_ok s" "keeps_row f" "update_pending i f s = (n, s')"
  shows "queue_ok s'"
proof -
  let ?g = "\<lambda>r. if rq_id r = i \<and> pending_row r then f r else r"
  have s': "st_reloc s' = map ?g (st_reloc s)" "st_next_rq s' = st_next_rq s"
    using update_pending_reloc [OF assms(3)] by auto
  have k: "rq_id (f r) = rq_id r" "rq_target (f r) = rq_target r" for r
    using assms(2) by (auto simp: keeps_row_def)
  have ids: "map rq_id (map ?g (st_reloc s)) = map rq_id (st_reloc s)"
    using k by simp
  have "distinct (pending_targets (map ?g (st_reloc s)))"
    unfolding pending_targets_def
    by (rule distinct_map_filter_shrink)
      (use assms(1) k in \<open>auto simp: queue_ok_def pending_targets_def\<close>)
  moreover have "\<forall>r \<in> set (map ?g (st_reloc s)). row_ok r"
    using assms(1,2) by (auto simp: queue_ok_def keeps_row_def)
  moreover have "\<forall>r \<in> set (map ?g (st_reloc s)). rq_id r < st_next_rq s"
    using assms(1) k by (auto simp: queue_ok_def)
  moreover have "distinct (map rq_id (map ?g (st_reloc s)))"
    using assms(1) unfolding ids by (simp add: queue_ok_def)
  ultimately show ?thesis
    unfolding queue_ok_def s' by blast
qed

lemma keeps_row_mark: "keeps_row (\<lambda>r. r\<lparr>rq_last_attempt := Some tm, rq_attempts := rq_attempts r + 1\<rparr>)"
  by (auto simp: keeps_row_def row_ok_def pending_status_def)

lemma keeps_row_resolve:
  assumes "st \<noteq> RelocQueued" "st = RelocBlocked \<Longrightarrow> b \<noteq> None \<and> t = None"
  shows "keeps_row (\<lambda>q. q\<lparr>rq_status := st, rq_blocked_reason := b, rq_resolved_at := t, rq_freed := n\<rparr>)"
  using assms by (auto simp: keeps_row_def row_ok_def pending_status_def)

lemma db_update_inv:
  assumes "db_exec (update_pending i f) s = (n, s')" "keeps_row f" "queue_ok s"
  shows "queue_ok s'"
proof (rule db_exec_inv [where P = queue_ok, OF assms(1)])
  fix s x s'
  assume "queue_ok s" "update_pending i f s = (x, s')"
  then show "queue_ok s'" using update_pending_inv assms(2) by metis
qed (use assms(3) in simp_all)

lemma mark_inv:
  assumes "queue_ok s" "mark_relocation_attempt i tm s = (r, s')"
  shows "queue_ok s'"
proof -
  obtain n where "db_exec (update_pending i
      (\<lambda>r. r\<lparr>rq_last_attempt := Some tm, rq_attempts := rq_attempts r + 1\<rparr>)) s = (n, s')"
    using assms(2) by (auto simp: mark_relocation_attempt_def split: prod.splits option.splits)
  then show ?thesis
    using keeps_row_mark assms(1) by (rule db_update_inv)
qed

lemma resolve_inv:
  assumes "queue_ok s" "resolve_relocation i q s = (r, s')"
  shows "queue_ok s'"
proof (cases "rr_status q = RelocQueued")
  case True
  with assms show ?thesis by (simp add: resolve_relocation_def)
next
  case False
  then obtain n b t where *: "db_exec (update_pending i
      (\<lambda>r. r\<lparr>rq_status := rr_status q, rq_blocked_reason := b, rq_resolved_at := t, rq_freed := rr_freed q\<rparr>)) s = (n, s')"
    "rr_status q = RelocBlocked \<Longrightarrow> b \<noteq> None \<and> t = None"
    using assms(2) by (auto simp: resolve_relocation_def Let_def split: prod.splits option.splits if_splits)
  show ?thesis
    using *(1) keeps_row_resolve [OF False *(2)] assms(1) by (rule db_update_inv)
qed

lemma enqueue_inv:
  assumes "queue_ok s" "enqueue_relocation e s = (r, s')"
  shows "queue_ok s'"
proof -
  obtain q s1 where q: "db_exec (\<lambda>s. (find_pending (rq_target e) s, s)) s = (q, s1)" by fastforce
  have ok1: "queue_ok s1"
    by (rule db_exec_inv [where P = queue_ok, OF q]) (use assms(1) in auto)
  show ?thesis
  proof (cases "q = Some None")
    case True
    then have "rq_target e \<notin> set (pending_targets (st_reloc s1))"
      using q by (auto dest!: db_exec_Some simp: find_pending_None)
    with ok1 True q assms(2) show ?thesis
      by (auto simp: enqueue_relocation_def intro: insert_reloc_inv)
  next
    case False
    with q assms(2) ok1 show ?thesis
      by (auto simp: enqueue_relocation_def split: option.splits)
  qed
qed

subsection \<open>Steps and reachable queues\<close>

inductive queue_step :: "store \<Rightarrow> store \<Rightarrow> bool" where
  enqueue: "queue_step s (snd (enqueue_relocation e s))"
| list: "queue_step s (snd (list_pending_relocations s))"
| mark: "queue_step s (snd (mark_relocation_attempt i tm s))"
| resolve: "queue_step s (snd (resolve_relocation i q s))"

abbreviation queue_steps :: "store \<Rightarrow> store \<Rightarrow> bool" where
  "queue_steps \<equiv> queue_step\<^sup>*\<^sup>*"

lemma queue_step_inv: "queue_step s s' \<Longrightarrow> queue_ok s \<Longrightarrow> queue_ok s'"
proof (induction rule: queue_step.induct)
  case (list s)
  then show ?case
    by (auto simp: list_pending_relocations_def db_exec_def Let_def)
qed (metis enqueue_inv mark_inv resolve_inv prod.collapse)+

lemma queue_steps_inv: "queue_steps s s' \<Longrightarrow> queue_ok s \<Longrightarrow> queue_ok s'"
  by (induction rule: rtranclp_induct) (auto intro: queue_step_inv)

text \<open>
  C22. In every queue the four operations reach from an empty database, whatever statements fail, ids
  are distinct and below the next one, a target has at most one pending row, a blocked row carries
  its reason and no resolution time, and the attempt stamp is there exactly when there were attempts.
\<close>

theorem reachable_queue_ok: "queue_steps (empty_store faults) s \<Longrightarrow> queue_ok s"
  using queue_steps_inv by simp

definition demo_row :: "path \<Rightarrow> reloc_row" where
  "demo_row t = \<lparr> rq_id = 0, rq_queued_at = 7, rq_target = t, rq_asset = ''claude'', rq_dest_root = ''/Volumes/X/o'',
     rq_dest_uuid = ''U'', rq_gate_reason = [], rq_status = RelocQueued, rq_blocked_reason = None,
     rq_attempts = 0, rq_last_attempt = None, rq_resolved_at = None, rq_freed = 0 \<rparr>"

lemma reachable_queue_ok_witness:
  "queue_ok (snd (mark_relocation_attempt 1 9 (snd (enqueue_relocation (demo_row ''/a'') (empty_store (\<lambda>_. False))))))"
  by (rule reachable_queue_ok [of "\<lambda>_. False"])
    (meson queue_step.enqueue queue_step.mark rtranclp.rtrancl_into_rtrancl rtranclp.rtrancl_refl)

subsection \<open>Terminal rows and idempotence\<close>

lemma update_pending_terminal:
  "r \<in> set (st_reloc s) \<Longrightarrow> \<not> pending_row r \<Longrightarrow> r \<in> set (st_reloc (snd (update_pending i f s)))"
  by (force simp: update_pending_def image_iff)

lemma db_update_terminal:
  assumes "r \<in> set (st_reloc s)" "\<not> pending_row r"
  shows "r \<in> set (st_reloc (snd (db_exec (update_pending i f) s)))"
  using update_pending_terminal [of r "s\<lparr>db_calls := Suc (db_calls s)\<rparr>" i f] assms
  by (auto simp: db_exec_def Let_def split: prod.splits)

lemma snd_case_result:
  "snd (case x of (None, s') \<Rightarrow> (a, s') | (Some n, s') \<Rightarrow> (b n, s')) = snd x"
  by (cases x; cases "fst x") auto

lemma snd_case_update:
  "snd (mark_relocation_attempt i tm s) = snd (db_exec (update_pending i
      (\<lambda>r. r\<lparr>rq_last_attempt := Some tm, rq_attempts := rq_attempts r + 1\<rparr>)) s)"
  unfolding mark_relocation_attempt_def snd_case_result ..

lemma snd_resolve_update:
  "snd (resolve_relocation i q s) = s \<or> (\<exists>f. snd (resolve_relocation i q s) = snd (db_exec (update_pending i f) s))"
proof (cases "rr_status q = RelocQueued")
  case True
  then show ?thesis by (simp add: resolve_relocation_def)
next
  case False
  show ?thesis
    unfolding resolve_relocation_def if_not_P [OF False] Let_def snd_case_result by blast
qed

lemma enqueue_keeps: "set (st_reloc s) \<subseteq> set (st_reloc (snd (enqueue_relocation e s)))"
  by (auto simp: enqueue_relocation_def insert_reloc_def db_exec_def Let_def split: option.splits)

lemma queue_step_terminal:
  "queue_step s s' \<Longrightarrow> r \<in> set (st_reloc s) \<Longrightarrow> \<not> pending_row r \<Longrightarrow> r \<in> set (st_reloc s')"
proof (induction rule: queue_step.induct)
  case (enqueue s e)
  then show ?case using enqueue_keeps by blast
next
  case (list s)
  then show ?case by (auto simp: list_pending_relocations_def db_exec_def Let_def)
next
  case (mark s i tm)
  then show ?case unfolding snd_case_update by (intro db_update_terminal)
next
  case (resolve s i q)
  then show ?case using snd_resolve_update [of i q s] db_update_terminal by metis
qed

text \<open>
  C6. An applied or cancelled row is final: whatever the queue does afterwards, the row stays in it
  unchanged (a second resolution, a late attempt stamp or a new enqueue of its target cannot alter it).
\<close>

theorem terminal_rows_frozen:
  assumes "queue_steps s s'" "r \<in> set (st_reloc s)" "rq_status r \<in> {RelocApplied, RelocCancelled}"
  shows "r \<in> set (st_reloc s')"
proof -
  have "\<not> pending_row r" using assms(3) by (auto simp: pending_status_def)
  with assms(1,2) show ?thesis
    by (induction rule: rtranclp_induct) (auto intro: queue_step_terminal)
qed

lemma terminal_rows_frozen_witness:
  "let s = snd (resolve_relocation 1 \<lparr>rr_status = RelocApplied, rr_blocked_reason = [], rr_freed = 5, rr_resolved_at = 9\<rparr>
      (snd (enqueue_relocation (demo_row ''/a'') (empty_store (\<lambda>_. False)))));
     s' = snd (mark_relocation_attempt 1 10 (snd (enqueue_relocation (demo_row ''/a'') s)))
   in \<exists>r \<in> set (st_reloc s'). rq_id r = 1 \<and> rq_status r = RelocApplied \<and> rq_freed r = 5"
proof -
  define s where "s = snd (resolve_relocation 1 \<lparr>rr_status = RelocApplied, rr_blocked_reason = [], rr_freed = 5, rr_resolved_at = 9\<rparr>
      (snd (enqueue_relocation (demo_row ''/a'') (empty_store (\<lambda>_. False)))))"
  define r where "r = (demo_row ''/a'')\<lparr>rq_id := 1, rq_status := RelocApplied, rq_freed := 5, rq_resolved_at := Some 9\<rparr>"
  have r: "r \<in> set (st_reloc s)"
    by (simp add: s_def r_def resolve_relocation_def enqueue_relocation_def insert_reloc_def db_exec_def
        empty_store_def find_pending_def update_pending_def nullable_unix_def demo_row_def pending_status_def)
  have "queue_steps s (snd (mark_relocation_attempt 1 10 (snd (enqueue_relocation (demo_row ''/a'') s))))"
    by (meson queue_step.enqueue queue_step.mark rtranclp.rtrancl_into_rtrancl rtranclp.rtrancl_refl)
  from terminal_rows_frozen [OF this r] show ?thesis
    unfolding Let_def s_def [symmetric] by (intro bexI [of _ r]) (simp_all add: r_def)
qed

text \<open>
  Enqueueing is idempotent per pending target: when the statement succeeds on a target that already
  has a pending row, that row's id is returned and no row is added; otherwise one fresh queued row is.
\<close>

theorem enqueue_idempotent:
  assumes "queue_ok s" "enqueue_relocation e s = (Some i, s')"
  shows "(\<exists>r \<in> set (st_reloc s'). rq_id r = i \<and> rq_target r = rq_target e \<and> pending_row r)
    \<and> (if rq_target e \<in> set (pending_targets (st_reloc s)) then st_reloc s' = st_reloc s
       else i = st_next_rq s \<and> length (st_reloc s') = length (st_reloc s) + 1)"
proof -
  obtain q s1 where q: "db_exec (\<lambda>s. (find_pending (rq_target e) s, s)) s = (Some q, s1)"
    using assms(2) by (auto simp: enqueue_relocation_def split: prod.splits option.splits)
  then have s1: "st_reloc s1 = st_reloc s" "st_next_rq s1 = st_next_rq s" "q = find_pending (rq_target e) s"
    by (auto dest!: db_exec_Some simp: find_pending_def)
  show ?thesis
  proof (cases q)
    case None
    then have "find_pending (rq_target e) s = None" using s1(3) by simp
    then have "rq_target e \<notin> set (pending_targets (st_reloc s))" unfolding find_pending_None .
    moreover have "insert_reloc e s1 = (Some i, s')"
      using assms(2) q None by (simp add: enqueue_relocation_def)
    ultimately show ?thesis
      using s1 by (auto simp: insert_reloc_def pending_status_def dest!: db_exec_Some)
  next
    case (Some j)
    then have "j = i" "s' = s1" using assms(2) q by (simp_all add: enqueue_relocation_def)
    moreover have "rq_target e \<in> set (pending_targets (st_reloc s))"
      using s1 Some find_pending_None [of "rq_target e" s] by (metis option.distinct(1))
    ultimately show ?thesis
      using find_pending_Some [of "rq_target e" s j] s1 Some by simp
  qed
qed

lemma enqueue_idempotent_witness:
  "let s = snd (enqueue_relocation (demo_row ''/a'') (empty_store (\<lambda>_. False)))
   in st_reloc (snd (enqueue_relocation (demo_row ''/a'') s)) = st_reloc s \<and> length (st_reloc s) = 1"
proof -
  let ?s = "snd (enqueue_relocation (demo_row ''/a'') (empty_store (\<lambda>_. False)))"
  have ok: "queue_ok ?s" by (rule queue_step_inv [OF queue_step.enqueue]) simp
  have e: "enqueue_relocation (demo_row ''/a'') ?s = (Some 1, snd (enqueue_relocation (demo_row ''/a'') ?s))"
    "length (st_reloc ?s) = 1"
    by (simp_all add: enqueue_relocation_def insert_reloc_def db_exec_def empty_store_def find_pending_def
        demo_row_def pending_status_def pending_targets_def)
  have "rq_target (demo_row ''/a'') \<in> set (pending_targets (st_reloc ?s))"
    by (simp add: enqueue_relocation_def insert_reloc_def db_exec_def empty_store_def find_pending_def
        demo_row_def pending_status_def pending_targets_def)
  with enqueue_idempotent [OF ok e(1)] e(2) show ?thesis by (simp add: Let_def)
qed

end
