(* ===== verification/EventLog.thy ===== *)
theory EventLog
  imports AutocleanApply RelocQueue
begin

text \<open>
  The world the daemon's components act on: the store, a clock (one reading per call of
  \<open>time.Now\<close>), and the rest of the machine (file system, processes) as a type variable. The store's
  audit methods, lifted to the world, interpret the \<open>event_store\<close> interface.
\<close>

record 'x world =
  w_store :: store
  w_clock :: "nat \<Rightarrow> time"
  w_ticks :: nat
  w_rest :: 'x

definition on_store :: "(store \<Rightarrow> 'a \<times> store) \<Rightarrow> 'x world \<Rightarrow> 'a \<times> 'x world" where
  "on_store f w = (case f (w_store w) of (r, s) \<Rightarrow> (r, w\<lparr>w_store := s\<rparr>))"

definition now_at :: "'x world \<Rightarrow> time \<times> 'x world" where
  "now_at w = (w_clock w (w_ticks w), w\<lparr>w_ticks := Suc (w_ticks w)\<rparr>)"

definition record_event :: "ac_event \<Rightarrow> 'x world \<Rightarrow> int option \<times> 'x world" where
  "record_event e = on_store (record_auto_clean_event e)"

definition update_event :: "int \<Rightarrow> ac_update \<Rightarrow> 'x world \<Rightarrow> unit option \<times> 'x world" where
  "update_event i u = on_store (update_auto_clean_event i u)"

definition event_rows :: "'x world \<Rightarrow> (int \<times> ac_event) list" where
  "event_rows w = st_events (w_store w)"

definition events_ok :: "'x world \<Rightarrow> bool" where
  "events_ok w \<longleftrightarrow> (\<forall>(i, e) \<in> set (event_rows w). i < st_next_ev (w_store w))"

lemma on_store_eq: "on_store f w = (fst (f (w_store w)), w\<lparr>w_store := snd (f (w_store w))\<rparr>)"
  by (simp add: on_store_def split: prod.split)

lemma record_event_store:
  "record_event e w = (r, w') \<Longrightarrow> (case r of
     None \<Rightarrow> w' = w\<lparr>w_store := (w_store w)\<lparr>db_calls := Suc (db_calls (w_store w))\<rparr>\<rparr>
   | Some i \<Rightarrow> i = st_next_ev (w_store w) \<and> event_rows w' = event_rows w @ [(i, e)]
       \<and> st_next_ev (w_store w') = st_next_ev (w_store w) + 1)"
  by (auto simp: record_event_def on_store_eq record_auto_clean_event_def db_exec_def Let_def event_rows_def
      split: if_splits)

lemma update_event_store:
  "update_event i u w = (r, w') \<Longrightarrow> (case r of
     None \<Rightarrow> w' = w\<lparr>w_store := (w_store w)\<lparr>db_calls := Suc (db_calls (w_store w))\<rparr>\<rparr>
   | Some x \<Rightarrow> event_rows w' = map (\<lambda>(j, e). (j, if j = i then patch_event u e else e)) (event_rows w)
       \<and> st_next_ev (w_store w') = st_next_ev (w_store w))"
  by (auto simp: update_event_def on_store_eq update_auto_clean_event_def db_exec_def Let_def event_rows_def
      patch_event_def split: if_splits)

lemma events_ok_record: "events_ok w \<Longrightarrow> events_ok (snd (record_event e w))"
  using record_event_store [of e w "fst (record_event e w)" "snd (record_event e w)"]
  by (auto simp: events_ok_def event_rows_def split: option.splits)

lemma events_ok_update: "events_ok w \<Longrightarrow> events_ok (snd (update_event i u w))"
  using update_event_store [of i u w "fst (update_event i u w)" "snd (update_event i u w)"]
  by (auto simp: events_ok_def event_rows_def split: option.splits)

interpretation audit: event_store record_event update_event now_at event_rows events_ok
proof (unfold_locales, goal_cases)
  case (1 e w i w')
  then show ?case using record_event_store [OF 1] by simp
next
  case (2 e w w')
  then show ?case using record_event_store [OF 2] by (simp add: event_rows_def)
next
  case (3 w e i w')
  then show ?case using record_event_store [OF 3(2)] by (auto simp: events_ok_def)
next
  case (4 i u w x w')
  then show ?case using update_event_store [OF 4] by simp
next
  case (5 i u w w')
  then show ?case using update_event_store [OF 5] by (simp add: event_rows_def)
next
  case (6 w t w')
  then show ?case by (auto simp: now_at_def event_rows_def)
next
  case (7 w e)
  then show ?case by (rule events_ok_record)
next
  case (8 w i u)
  then show ?case by (rule events_ok_update)
next
  case (9 w)
  then show ?case by (simp add: now_at_def events_ok_def event_rows_def)
qed

text \<open>The engine's \<open>Apply\<close> on the store: what the daemon's wiring calls.\<close>

definition engine_apply ::
  "(guard_err \<Rightarrow> string) \<Rightarrow> path option \<Rightarrow> 'x world engine \<Rightarrow> ac_action \<Rightarrow> string \<Rightarrow> 'x world
   \<Rightarrow> (apply_err + ac_result) \<times> 'x world" where
  "engine_apply = ac_apply record_event update_event now_at"

text \<open>Where a deletion is permitted, written out over the store.\<close>

definition delete_permitted :: "path option \<Rightarrow> 'x world engine \<Rightarrow> ac_action \<Rightarrow> string \<Rightarrow> 'x world \<Rightarrow> bool" where
  "delete_permitted cwd e a tr w \<longleftrightarrow> tr \<in> {''daily'', ''manual''} \<and> safety_guard cwd e a = None
     \<and> (\<exists>i ev. (i, ev) \<in> set (st_events (w_store w)) \<and> ev_outcome ev = InProgress
          \<and> ev_target ev = aa_target a \<and> ev_module ev = aa_module a)"

lemma delete_permitted_audit: "audit.permitted cwd e a tr w = delete_permitted cwd e a tr w"
  by (auto simp: audit.permitted_def audit.pivot_def delete_permitted_def trigger_ok_def event_rows_def)

lemma engine_apply_agree:
  assumes "en_cfg e' = en_cfg e" "en_roots e' = en_roots e" "en_safety e' = en_safety e"
    and "(en_deleters e' (aa_module a) = None) = (en_deleters e (aa_module a) = None)"
    and "\<And>v. delete_permitted cwd e a tr v \<Longrightarrow>
      the (en_deleters e' (aa_module a)) (aa_target a) v = the (en_deleters e (aa_module a)) (aa_target a) v"
  shows "engine_apply txt cwd e' a tr w = engine_apply txt cwd e a tr w"
  unfolding engine_apply_def
  by (rule audit.apply_agree) (use assms in \<open>simp_all add: delete_permitted_audit\<close>)

text \<open>
  C5. A deleter is only ever run where a deletion is permitted: on a daily or manual trigger, with the
  last-line guard passed, and on a world whose audit table already holds the in-progress row of this
  very target and module. Replacing the deleter by any other that agrees with it there changes
  nothing in what \<open>Apply\<close> does, for every pattern of database failures.
\<close>

theorem apply_deletes_only_when_permitted:
  assumes "\<forall>v. delete_permitted cwd e a tr v \<longrightarrow>
      d (aa_target a) v = the (en_deleters e (aa_module a)) (aa_target a) v"
    and "en_deleters e (aa_module a) \<noteq> None"
  shows "engine_apply txt cwd (e\<lparr>en_deleters := (en_deleters e)(aa_module a \<mapsto> d)\<rparr>) a tr w =
         engine_apply txt cwd e a tr w"
  unfolding engine_apply_def
  by (rule audit.apply_agree) (use assms in \<open>simp_all add: delete_permitted_audit\<close>)

definition demo_cfg :: ac_config where
  "demo_cfg = \<lparr> ac_enabled = True, ac_modules = [''dev''], ac_min_idle = 90, ac_min_size_mb = 1024,
     ac_cap_gb = 10, ac_risk_ack = ''2026-01-01'' \<rparr>"

definition demo_action :: ac_action where
  "demo_action = \<lparr> aa_id = 4, aa_module = ''dev'', aa_target = ''/dev/app/node_modules'', aa_size = 5,
     aa_idle = 100, aa_skip = [] \<rparr>"

definition demo_engine :: "unit world deleter \<Rightarrow> unit world engine" where
  "demo_engine d = \<lparr> en_cfg = demo_cfg, en_roots = [''/dev''], en_safety = Some (new_safety None [''/dev''] [''.git'']),
     en_deleters = [''dev'' \<mapsto> d] \<rparr>"

definition demo_world :: "(nat \<Rightarrow> bool) \<Rightarrow> unit world" where
  "demo_world faults = \<lparr> w_store = empty_store faults, w_clock = (\<lambda>n. int n), w_ticks = 0, w_rest = () \<rparr>"

text \<open>A deleter that refuses unless the audit row is there.\<close>

definition paranoid_deleter :: "unit world deleter" where
  "paranoid_deleter p w =
     (if list_ex (\<lambda>(i, ev). ev_outcome ev = InProgress \<and> ev_target ev = p) (st_events (w_store w))
      then ((5, None), w) else ((0, Some ''unaudited''), w))"

lemma apply_deletes_only_when_permitted_witness:
  "fst (engine_apply (\<lambda>_. []) None (demo_engine paranoid_deleter) demo_action ''daily'' (demo_world (\<lambda>_. False)))
     = Inr \<lparr>re_id = 4, re_target = ''/dev/app/node_modules'', re_freed = 5\<rparr>"
proof -
  let ?e = "demo_engine (\<lambda>p w. ((5, None), w))"
  have m: "aa_module demo_action = ''dev''" by (simp add: demo_action_def)
  have "engine_apply (\<lambda>_. []) None (?e\<lparr>en_deleters := (en_deleters ?e)(aa_module demo_action \<mapsto> paranoid_deleter)\<rparr>)
      demo_action ''daily'' (demo_world (\<lambda>_. False)) =
    engine_apply (\<lambda>_. []) None ?e demo_action ''daily'' (demo_world (\<lambda>_. False))"
    by (rule apply_deletes_only_when_permitted)
      (auto simp: delete_permitted_def demo_engine_def m paranoid_deleter_def list_ex_iff)
  moreover have "?e\<lparr>en_deleters := (en_deleters ?e)(aa_module demo_action \<mapsto> paranoid_deleter)\<rparr> =
      demo_engine paranoid_deleter"
    by (simp add: demo_engine_def m)
  moreover have "fst (engine_apply (\<lambda>_. []) None ?e demo_action ''daily'' (demo_world (\<lambda>_. False))) =
      Inr \<lparr>re_id = 4, re_target = ''/dev/app/node_modules'', re_freed = 5\<rparr>"
    by code_simp
  ultimately show ?thesis by simp
qed

lemma engine_apply_audit:
  assumes "events_ok w" "\<forall>d p v. en_deleters e (aa_module a) = Some d \<longrightarrow> w_store (snd (d p v)) = w_store v"
    and "engine_apply txt cwd e a tr w = (r, w')"
  shows "events_ok w' \<and> (case r of
      Inl TriggerForbidden \<Rightarrow> event_rows w' = event_rows w
    | Inl (GuardFailed g) \<Rightarrow> event_rows w' = event_rows w \<or>
         (\<exists>i t. event_rows w' = event_rows w @ [(i, skipped_event a tr t (txt g))])
    | Inl AuditFailed \<Rightarrow> event_rows w' = event_rows w
    | Inl (DeleteFailed m) \<Rightarrow> (\<exists>i ev. event_rows w' = event_rows w @ [(i, ev)] \<and> ev_target ev = aa_target a \<and> ev_target_size ev = aa_size a
         \<and> ev_outcome ev \<in> {InProgress, Errored})
    | Inr q \<Rightarrow> (\<exists>i ev. event_rows w' = event_rows w @ [(i, ev)] \<and> ev_target ev = aa_target a \<and> ev_target_size ev = aa_size a
         \<and> (ev_outcome ev = InProgress \<or> ev_outcome ev = Deleted \<and> ev_freed ev = re_freed q)))"
proof -
  have "event_rows (snd (d p v)) = event_rows v \<and> (events_ok v \<longrightarrow> events_ok (snd (d p v)))"
    if "en_deleters e (aa_module a) = Some d" for d p v
    using assms(2) that by (simp add: event_rows_def events_ok_def)
  then show ?thesis
    using audit.apply_audit [OF assms(1) _ assms(3) [unfolded engine_apply_def]] by blast
qed

text \<open>The two statements of a run, and which of the store's calls they are.\<close>

lemma record_event_eq:
  "record_event ev w = (let s = w_store w; s1 = s\<lparr>db_calls := Suc (db_calls s)\<rparr> in
     if db_faults s (db_calls s) then (None, w\<lparr>w_store := s1\<rparr>)
     else (Some (st_next_ev s), w\<lparr>w_store := s1\<lparr>st_events := st_events s @ [(st_next_ev s, ev)], st_next_ev := st_next_ev s + 1\<rparr>\<rparr>))"
  by (simp add: record_event_def on_store_eq record_auto_clean_event_def db_exec_def Let_def)

lemma update_event_rows:
  "event_rows (snd (update_event i u w)) = (if db_faults (w_store w) (db_calls (w_store w)) then event_rows w
     else map (\<lambda>(j, e). (j, if j = i then patch_event u e else e)) (event_rows w))"
  by (simp add: update_event_def on_store_eq update_auto_clean_event_def db_exec_def Let_def event_rows_def patch_event_def cong: if_cong)

lemma patch_last:
  assumes "events_ok w"
  shows "map (\<lambda>(j, e). (j, if j = st_next_ev (w_store w) then patch_event u e else e)) (event_rows w @ [(st_next_ev (w_store w), ev)])
    = event_rows w @ [(st_next_ev (w_store w), patch_event u ev)]"
proof -
  have "map (\<lambda>(j, e). (j, if j = st_next_ev (w_store w) then patch_event u e else e)) (event_rows w) = event_rows w"
    by (rule map_idI) (use assms in \<open>force simp: events_ok_def\<close>)
  then show ?thesis by simp
qed

text \<open>The branch that deletes: what the deleter finds in the table, and how the row ends.\<close>

lemma engine_apply_deletes:
  assumes "events_ok w" "\<forall>d p v. en_deleters e (aa_module a) = Some d \<longrightarrow> w_store (snd (d p v)) = w_store v"
    and "engine_apply txt cwd e a tr w = (r, w')" "trigger_ok tr" "safety_guard cwd e a = None"
    and "\<not> db_faults (w_store w) (db_calls (w_store w))"
  defines "i \<equiv> st_next_ev (w_store w)" and "row \<equiv> base_event a tr (unix_of (w_clock w (w_ticks w)))"
  shows "\<exists>v n err t. fst (the (en_deleters e (aa_module a)) (aa_target a) v) = (n, err) \<and> st_events (w_store v) = st_events (w_store w) @ [(i, row)]
    \<and> r = (case err of None \<Rightarrow> Inr \<lparr> re_id = aa_id a, re_target = aa_target a, re_freed = n \<rparr> | Some m \<Rightarrow> Inl (DeleteFailed m))
    \<and> st_events (w_store w') = st_events (w_store w) @ [(i, if db_faults (w_store w) (Suc (db_calls (w_store w))) then row
         else patch_event (final_update t n err) row)]"
proof -
  define w0 where "w0 = w\<lparr>w_ticks := Suc (w_ticks w)\<rparr>"
  have clk: "now_at w = (w_clock w (w_ticks w), w0)" by (simp add: now_at_def w0_def)
  define w1 where "w1 = snd (record_event row w0)"
  have rec: "record_event row w0 = (Some i, w1)"
    using assms(6) by (simp add: w1_def record_event_eq Let_def w0_def i_def)
  have s1: "st_events (w_store w1) = st_events (w_store w) @ [(i, row)]" "db_faults (w_store w1) = db_faults (w_store w)"
    "db_calls (w_store w1) = Suc (db_calls (w_store w))"
    using assms(6) by (simp_all add: w1_def record_event_eq Let_def w0_def i_def)
  obtain d where d: "en_deleters e (aa_module a) = Some d" using safety_guard_None [THEN iffD1, OF assms(5)] by auto
  obtain n err w2 where del: "d (aa_target a) w1 = ((n, err), w2)" by (metis surj_pair)
  have s2: "w_store w2 = w_store w1" using assms(2) d del by (metis snd_conv)
  obtain t w3 where t: "now_at w2 = (t, w3)" by fastforce
  have s3: "w_store w3 = w_store w1" using t s2 by (auto simp: now_at_def)
  have r: "r = (case err of None \<Rightarrow> Inr \<lparr> re_id = aa_id a, re_target = aa_target a, re_freed = n \<rparr> | Some m \<Rightarrow> Inl (DeleteFailed m))"
    "w' = snd (update_event i (final_update t n err) w3)"
    using assms(3) by (auto simp: engine_apply_def ac_apply_def assms(4,5) clk row_def [symmetric] rec d del t Let_def split: option.splits)
  have "st_events (w_store w') = st_events (w_store w) @ [(i, if db_faults (w_store w) (Suc (db_calls (w_store w))) then row
      else patch_event (final_update t n err) row)]"
    using update_event_rows [of i "final_update t n err" w3] s1 s3 patch_last [OF assms(1), of "final_update t n err" row]
    by (simp add: r(2) event_rows_def i_def)
  moreover have "fst (the (en_deleters e (aa_module a)) (aa_target a) w1) = (n, err)" by (simp add: d del)
  ultimately show ?thesis using s1(1) r(1) by blast
qed

text \<open>
  C21. The audit trail of \<open>Apply\<close>, for every pattern of failing statements. A forbidden trigger writes nothing. A
  refusal of the guard writes its skipped row, with the reason, unless that insert fails. A failed insert of the
  in-progress row ends the run before anything is deleted. Otherwise the row, with the action's data, is in the
  table when the deleter runs, and what the deleter returned decides how it ends: deleted with the freed
  bytes, or errored with the message, and only if that update fails does it stay in progress. No earlier
  row changes.
\<close>

theorem apply_audit_trail:
  assumes "events_ok w" "\<forall>d p v. en_deleters e (aa_module a) = Some d \<longrightarrow> w_store (snd (d p v)) = w_store v"
    and "engine_apply txt cwd e a tr w = (r, w')"
  defines "rows \<equiv> st_events (w_store w)" and "i \<equiv> st_next_ev (w_store w)" and "now \<equiv> unix_of (w_clock w (w_ticks w))"
    and "fails \<equiv> \<lambda>k. db_faults (w_store w) (db_calls (w_store w) + k)"
  defines "row \<equiv> \<lparr> ev_started = now, ev_ended = None, ev_trigger = tr, ev_outcome = InProgress, ev_skip_reason = [],
     ev_target = aa_target a, ev_module = aa_module a, ev_target_size = aa_size a, ev_freed = 0, ev_idle_days = aa_idle a,
     ev_suggestion_id = itoa (aa_id a), ev_error = [] \<rparr>"
  shows "events_ok w' \<and> (tr \<notin> {''daily'', ''manual''} \<longrightarrow> r = Inl TriggerForbidden \<and> st_events (w_store w') = rows)
    \<and> (\<forall>g. tr \<in> {''daily'', ''manual''} \<and> safety_guard cwd e a = Some g \<longrightarrow> r = Inl (GuardFailed g) \<and>
         st_events (w_store w') = (if fails 0 then rows else rows @ [(i, row\<lparr>ev_ended := nullable_unix now,
           ev_outcome := Skipped, ev_skip_reason := ''safety_guard'', ev_error := txt g\<rparr>)]))
    \<and> (tr \<in> {''daily'', ''manual''} \<and> safety_guard cwd e a = None \<and> fails 0 \<longrightarrow> r = Inl AuditFailed \<and> st_events (w_store w') = rows)
    \<and> (tr \<in> {''daily'', ''manual''} \<and> safety_guard cwd e a = None \<and> \<not> fails 0 \<longrightarrow>
         (\<exists>v n err t. fst (the (en_deleters e (aa_module a)) (aa_target a) v) = (n, err) \<and> st_events (w_store v) = rows @ [(i, row)]
           \<and> r = (case err of None \<Rightarrow> Inr \<lparr> re_id = aa_id a, re_target = aa_target a, re_freed = n \<rparr> | Some m \<Rightarrow> Inl (DeleteFailed m))
           \<and> st_events (w_store w') = rows @ [(i, if fails 1 then row else row\<lparr>ev_ended := Some t,
               ev_outcome := (if err = None then Deleted else Errored), ev_freed := n,
               ev_error := (case err of None \<Rightarrow> [] | Some m \<Rightarrow> m)\<rparr>)]))"
proof -
  have ok: "events_ok w'" using engine_apply_audit [OF assms(1-3)] by blast
  show ?thesis
  proof (cases "tr \<in> {''daily'', ''manual''}")
    case False
    then show ?thesis using ok assms(3) by (simp add: engine_apply_def ac_apply_def trigger_ok_def rows_def)
  next
    case True
    then have tr: "trigger_ok tr" by (simp add: trigger_ok_def)
    have row: "base_event a tr now = row" by (simp add: row_def base_event_def)
    define w0 where "w0 = w\<lparr>w_ticks := Suc (w_ticks w)\<rparr>"
    have clk: "now_at w = (w_clock w (w_ticks w), w0)" by (simp add: now_at_def w0_def)
    note unf = engine_apply_def ac_apply_def tr clk now_def [symmetric]
    show ?thesis
    proof (cases "safety_guard cwd e a")
      case (Some g)
      then have "r = Inl (GuardFailed g)" "w' = snd (record_event (skipped_event a tr now (txt g)) w0)"
        using assms(3) by (simp_all add: unf)
      then show ?thesis using ok True Some row
        by (auto simp: record_event_eq Let_def w0_def fails_def rows_def i_def skipped_event_def)
    next
      case None
      show ?thesis
      proof (cases "fails 0")
        case fail: True
        then have "r = Inl AuditFailed" "w' = snd (record_event row w0)"
          using assms(3) None row by (simp_all add: unf record_event_eq Let_def w0_def fails_def)
        then show ?thesis using ok True None fail by (auto simp: record_event_eq Let_def w0_def fails_def rows_def)
      next
        case False
        have "\<exists>v n err t. fst (the (en_deleters e (aa_module a)) (aa_target a) v) = (n, err) \<and> st_events (w_store v) = rows @ [(i, row)]
           \<and> r = (case err of None \<Rightarrow> Inr \<lparr> re_id = aa_id a, re_target = aa_target a, re_freed = n \<rparr> | Some m \<Rightarrow> Inl (DeleteFailed m))
           \<and> st_events (w_store w') = rows @ [(i, if fails 1 then row else patch_event (final_update t n err) row)]"
          using engine_apply_deletes [OF assms(1-3) tr None] False unfolding row [unfolded now_def] fails_def rows_def i_def by simp
        then have ex: "\<exists>v n err t. fst (the (en_deleters e (aa_module a)) (aa_target a) v) = (n, err) \<and> st_events (w_store v) = rows @ [(i, row)]
           \<and> r = (case err of None \<Rightarrow> Inr \<lparr> re_id = aa_id a, re_target = aa_target a, re_freed = n \<rparr> | Some m \<Rightarrow> Inl (DeleteFailed m))
           \<and> st_events (w_store w') = rows @ [(i, if fails 1 then row else row\<lparr>ev_ended := Some t,
               ev_outcome := (if err = None then Deleted else Errored), ev_freed := n,
               ev_error := (case err of None \<Rightarrow> [] | Some m \<Rightarrow> m)\<rparr>)]"
          unfolding patch_event_def final_update_def ac_update.simps by blast
        show ?thesis using ok True None False by (intro conjI impI allI ex) auto
      qed
    qed
  qed
qed

lemma apply_audit_trail_witness:
  "let out = engine_apply (\<lambda>_. []) None (demo_engine (\<lambda>p w. ((5, None), w))) demo_action ''daily'' (demo_world (\<lambda>n. n = 1)) in
     fst out = Inr \<lparr>re_id = 4, re_target = ''/dev/app/node_modules'', re_freed = 5\<rparr> \<and>
     map (ev_outcome \<circ> snd) (st_events (w_store (snd out))) = [InProgress]"
proof -
  let ?e = "demo_engine (\<lambda>p w. ((5, None), w))" and ?w = "demo_world (\<lambda>n. n = 1)"
  have ok: "events_ok ?w" by (simp add: events_ok_def event_rows_def demo_world_def empty_store_def)
  have d: "\<forall>d p v. en_deleters ?e (aa_module demo_action) = Some d \<longrightarrow> w_store (snd (d p v)) = w_store v"
    by (auto simp: demo_engine_def demo_action_def)
  have g: "safety_guard None ?e demo_action = None" by code_simp
  have m: "en_deleters ?e (aa_module demo_action) = Some (\<lambda>p w. ((5, None), w))" by (simp add: demo_engine_def demo_action_def)
  obtain r w' where o: "engine_apply (\<lambda>_. []) None ?e demo_action ''daily'' ?w = (r, w')" by fastforce
  from apply_audit_trail [OF ok d o] have "r = Inr \<lparr>re_id = aa_id demo_action, re_target = aa_target demo_action, re_freed = 5\<rparr>
      \<and> map (ev_outcome \<circ> snd) (st_events (w_store w')) = [InProgress]"
    unfolding g m by (auto simp: demo_world_def empty_store_def)
  then show ?thesis unfolding o Let_def fst_conv snd_conv by (simp add: demo_action_def)
qed

end
