(* ===== verification/Config.thy ===== *)
theory Config
  imports Types
begin

text \<open>
  \<open>internal/config/config.go\<close>: the configuration record, its compiled-in defaults, and \<open>Load\<close>. The
  TOML decoder is third-party: it is an argument that overlays the file's values on a configuration.
  \<open>home\<close> is what \<open>os.UserHomeDir\<close> gives ("" on error).
\<close>

record offload_cfg =
  oc_dest_root :: path
  oc_dest_uuid :: string
  oc_auto_apply :: bool
  oc_risk_ack :: string

record pressure_cfg =
  pc_sample_seconds :: int
  pc_debounce_seconds :: int
  pc_mem_high :: rat
  pc_disk_low_gb :: int

record auto_clean_cfg =
  cc_enabled :: bool
  cc_modules :: "string list"
  cc_min_idle :: int
  cc_min_size_mb :: int
  cc_cap_gb :: int
  cc_risk_ack :: string

record idle_repos_cfg =
  ic_enabled :: bool
  ic_min_idle_days :: int
  ic_min_nm_bytes :: int

record cache_velocity_cfg =
  vc_enabled :: bool
  vc_growth :: rat
  vc_window_days :: int

record worktrees_cfg =
  wc_enabled :: bool
  wc_roots :: "path list"
  wc_min_idle_hours :: int
  wc_judge_cmd :: string
  wc_grave_dir :: path

record config =
  cf_scan_hour :: int
  cf_socket_path :: path
  cf_store_path :: path
  cf_idle_repos :: idle_repos_cfg
  cf_cache_velocity :: cache_velocity_cfg
  cf_leaks_enabled :: bool
  cf_worktrees :: worktrees_cfg
  cf_notify_enabled :: bool
  cf_min_severity :: string
  cf_roots :: "path list"
  cf_cache_roots :: "path list"
  cf_pressure :: pressure_cfg
  cf_auto_clean :: auto_clean_cfg
  cf_offload :: offload_cfg

definition app_support :: "path \<Rightarrow> path \<Rightarrow> path" where
  "app_support home f = join_path [home, ''Library'', ''Application Support'', ''noo-noo'', f]"

definition default_config :: "path \<Rightarrow> config" where
  "default_config home = \<lparr>
     cf_scan_hour = 3,
     cf_socket_path = app_support home ''noo-noo.sock'',
     cf_store_path = app_support home ''store.db'',
     cf_idle_repos = \<lparr> ic_enabled = True, ic_min_idle_days = 30, ic_min_nm_bytes = 524288000 \<rparr>,
     cf_cache_velocity = \<lparr> vc_enabled = True, vc_growth = 2, vc_window_days = 7 \<rparr>,
     cf_leaks_enabled = True,
     cf_worktrees = \<lparr> wc_enabled = True, wc_roots = [], wc_min_idle_hours = 12, wc_judge_cmd = [],
       wc_grave_dir = app_support home ''worktree-graves'' \<rparr>,
     cf_notify_enabled = True,
     cf_min_severity = ''medium'',
     cf_roots = [join_path [home, ''Documents'', ''GitHub'']],
     cf_cache_roots = [join_path [home, ''Library'', ''Caches''], join_path [home, ''.npm''], ''/private/tmp''],
     cf_pressure = \<lparr> pc_sample_seconds = 15, pc_debounce_seconds = 60, pc_mem_high = fl (85 / 100), pc_disk_low_gb = 10 \<rparr>,
     cf_auto_clean = \<lparr> cc_enabled = False, cc_modules = [''dev''], cc_min_idle = 90, cc_min_size_mb = 1024,
       cc_cap_gb = 10, cc_risk_ack = [] \<rparr>,
     cf_offload = \<lparr> oc_dest_root = [], oc_dest_uuid = [], oc_auto_apply = False, oc_risk_ack = [] \<rparr> \<rparr>"

definition expand_tilde :: "path \<Rightarrow> path \<Rightarrow> path" where
  "expand_tilde home p = (if \<not> has_prefix p ''~/'' then p else join_path [home, trim_prefix p ''~/''])"

datatype file_read = NotExist | ReadError | Contents string

datatype load_err = LoadRead | LoadParse

text \<open>\<open>Load\<close> always returns a configuration, with the error beside it; the decoder may have
  overlaid some keys when it fails.\<close>

definition load_config ::
  "path \<Rightarrow> (string \<Rightarrow> config \<Rightarrow> config \<times> bool) \<Rightarrow> file_read \<Rightarrow> config \<times> load_err option" where
  "load_config home toml f =
     (case f of
        NotExist \<Rightarrow> (default_config home, None)
      | ReadError \<Rightarrow> (default_config home, Some LoadRead)
      | Contents d \<Rightarrow>
          (case toml d (default_config home) of
             (c, False) \<Rightarrow> (c, Some LoadParse)
           | (c, True) \<Rightarrow>
               (c\<lparr> cf_socket_path := expand_tilde home (cf_socket_path c),
                  cf_store_path := expand_tilde home (cf_store_path c),
                  cf_offload := (cf_offload c)\<lparr>oc_dest_root := expand_tilde home (oc_dest_root (cf_offload c))\<rparr>,
                  cf_roots := map (expand_tilde home) (cf_roots c),
                  cf_cache_roots := map (expand_tilde home) (cf_cache_roots c),
                  cf_worktrees := (cf_worktrees c)\<lparr>
                    wc_grave_dir := expand_tilde home (wc_grave_dir (cf_worktrees c)),
                    wc_roots := map (expand_tilde home) (wc_roots (cf_worktrees c))\<rparr> \<rparr>, None)))"

end
