(* ===== verification/Heuristics.thy ===== *)
theory Heuristics
  imports EventLog Config "HOL-Library.Signed_Division"
begin

text \<open>
  \<open>internal/heuristics\<close>: the four heuristics that turn the store's rows and the module scans into
  suggestions, and the leak-storm count. \<open>LeakSource\<close> and \<open>WorktreeSource\<close> are a scan (which may
  fail) and a plan, arguments as in the code. \<open>stop n\<close> says whether the context is done at the
  loop's \<open>n\<close>-th poll, \<open>jt\<close> is the JSON text of a time.
\<close>

text \<open>The elements a loop reaches that polls the context before each.\<close>

fun take_until :: "(nat \<Rightarrow> bool) \<Rightarrow> nat \<Rightarrow> 'a list \<Rightarrow> 'a list" where
  "take_until stop n [] = []"
| "take_until stop n (x # xs) = (if stop n then [] else x # take_until stop (Suc n) xs)"

lemma take_until_subset: "set (take_until stop n xs) \<subseteq> set xs"
  by (induction stop n xs rule: take_until.induct) auto

definition idle_days_of :: "duration \<Rightarrow> int" where
  "idle_days_of d = trunc_rat (fl (hours_f d / 24))"

definition idle_repo_suggestion :: "(time \<Rightarrow> string) \<Rightarrow> time \<Rightarrow> idle_row \<Rightarrow> suggestion" where
  "idle_repo_suggestion jt tm r =
     (let idle = idle_days_of (sub_time tm (ir_last_commit r)) in
      \<lparr> sg_id = 0, sg_module = ''idle_repos'', sg_target = ir_path r,
        sg_reason = ''no commits in '' @ itoa idle @ ''d; node_modules='' @ itoa (ir_nm_bytes r) @ '' bytes'',
        sg_evidence = [''idle_days'' \<mapsto> EvInt idle, ''node_modules_bytes'' \<mapsto> EvInt (ir_nm_bytes r),
          ''last_commit_at'' \<mapsto> EvOther (jt (ir_last_commit r))],
        sg_risk = ''low'', sg_size = 0, sg_created = tm \<rparr>)"

definition idle_repos ::
  "(time \<Rightarrow> string) \<Rightarrow> (nat \<Rightarrow> bool) \<Rightarrow> config \<Rightarrow> 'x world \<Rightarrow> suggestion list \<times> 'x world" where
  "idle_repos jt stop cfg w =
     (if \<not> ic_enabled (cf_idle_repos cfg) then ([], w)
      else case now_at w of (tm, w1) \<Rightarrow>
        (case on_store (list_idle_repos (ic_min_idle_days (cf_idle_repos cfg))
                          (ic_min_nm_bytes (cf_idle_repos cfg)) tm) w1 of
           (None, w2) \<Rightarrow> ([], w2)
         | (Some rows, w2) \<Rightarrow> (map (idle_repo_suggestion jt tm) (take_until stop 0 rows), w2)))"

text \<open>\<open>humanRate\<close>: whole numbers of a binary unit.\<close>

definition human_rate :: "rat \<Rightarrow> string" where
  "human_rate x =
     (if x < 1024 then fmt_f0 x @ '' B''
      else case unit_loop (fl (x / 1024)) ''KB'' [''MB'', ''GB'', ''TB''] of
        (f, u) \<Rightarrow> fmt_f0 f @ '' '' @ u)"

definition cache_suggestion ::
  "(time \<Rightarrow> string) \<Rightarrow> config \<Rightarrow> time \<Rightarrow> path \<Rightarrow> cache_row list \<Rightarrow> suggestion option" where
  "cache_suggestion jt cfg tm target series =
     (if length series < 2 then None
      else
        let oldest = hd series; latest = last series;
            vc = cf_cache_velocity cfg in
        if cr_bytes oldest \<le> 0 then None
        else
          let ratio = fl (fl_int (cr_bytes latest) / fl_int (cr_bytes oldest)) in
          if ratio < vc_growth vc then None
          else
            let days = fl (hours_f (sub_time (cr_at latest) (cr_at oldest)) / 24);
                rate = (if 0 < days then fl (fl_int (wrap64 (cr_bytes latest - cr_bytes oldest)) / days) else 0)
            in Some \<lparr> sg_id = 0, sg_module = ''cache_velocity'', sg_target = target,
                 sg_reason = fmt_f1 ratio @ ''x growth in '' @ itoa (vc_window_days vc) @ ''d (+'' @ human_rate rate @ ''/day)'',
                 sg_evidence = [''ratio'' \<mapsto> EvFloat (Fin ratio), ''window_days'' \<mapsto> EvInt (vc_window_days vc),
                   ''bytes_then'' \<mapsto> EvInt (cr_bytes oldest), ''bytes_now'' \<mapsto> EvInt (cr_bytes latest),
                   ''bytes_per_day'' \<mapsto> EvFloat (Fin rate), ''recorded_then'' \<mapsto> EvOther (jt (cr_at oldest)),
                   ''recorded_now'' \<mapsto> EvOther (jt (cr_at latest))],
                 sg_risk = ''medium'', sg_size = 0, sg_created = tm \<rparr>)"

text \<open>\<open>SELECT DISTINCT target_path ... ORDER BY target_path\<close>.\<close>

definition distinct_cache_targets :: "store \<Rightarrow> path list option \<times> store" where
  "distinct_cache_targets = db_exec (\<lambda>s. (sort_by bytes_le (remdups (map cr_target (st_caches s))), s))"

fun cache_loop ::
  "(time \<Rightarrow> string) \<Rightarrow> config \<Rightarrow> time \<Rightarrow> path list \<Rightarrow> 'x world \<Rightarrow> suggestion list \<times> 'x world" where
  "cache_loop jt cfg tm [] w = ([], w)"
| "cache_loop jt cfg tm (t # ts) w =
     (case on_store (cache_size_series t
              (tm - wrap64 (wrap64 (vc_window_days (cf_cache_velocity cfg) * 24) * hour))) w of
        (r, w1) \<Rightarrow>
        (case cache_loop jt cfg tm ts w1 of (out, w2) \<Rightarrow>
           (case Option.bind r (cache_suggestion jt cfg tm t) of
              None \<Rightarrow> (out, w2)
            | Some s \<Rightarrow> (s # out, w2))))"

definition cache_velocity ::
  "(time \<Rightarrow> string) \<Rightarrow> (nat \<Rightarrow> bool) \<Rightarrow> config \<Rightarrow> 'x world \<Rightarrow> suggestion list \<times> 'x world" where
  "cache_velocity jt stop cfg w =
     (if \<not> vc_enabled (cf_cache_velocity cfg) then ([], w)
      else case on_store distinct_cache_targets w of
        (None, w1) \<Rightarrow> ([], w1)
      | (Some ts, w1) \<Rightarrow> (case now_at w1 of (tm, w2) \<Rightarrow> cache_loop jt cfg tm (take_until stop 0 ts) w2))"

subsection \<open>Leaks and worktrees\<close>

text \<open>The report's items by path; a later item of the same path replaces an earlier one.\<close>

definition items_by_path :: "item list \<Rightarrow> path \<Rightarrow> item option" where
  "items_by_path its = map_of (rev (map (\<lambda>it. (it_path it, it)) its))"

definition carry_evidence :: "item \<Rightarrow> int \<Rightarrow> evidence" where
  "carry_evidence it n = (\<lambda>k. map_option EvStr (it_evidence it k))(''size_bytes'' \<mapsto> EvStr (itoa n))"

definition signature_of :: "(string \<Rightarrow> string option) \<Rightarrow> string" where
  "signature_of ev = (let g = ev_get ev ''signature'' in if g = [] then ''unknown-leak'' else g)"

definition leak_suggestion :: "time \<Rightarrow> item \<Rightarrow> mod_action \<Rightarrow> suggestion" where
  "leak_suggestion tm it a =
     \<lparr> sg_id = 0, sg_module = ''leaks'', sg_target = ma_target a,
       sg_reason = signature_of (it_evidence it) @ '': '' @ human_bytes (ma_size a) @ '' really reclaimable (proven stale)'',
       sg_evidence = carry_evidence it (ma_size a), sg_risk = risk_string (ma_risk a),
       sg_size = ma_size a, sg_created = tm \<rparr>"

text \<open>Only a planned target the scan reported becomes a suggestion.\<close>

definition suggest_planned ::
  "(item \<Rightarrow> mod_action \<Rightarrow> suggestion) \<Rightarrow> item list \<Rightarrow> mod_action list \<Rightarrow> suggestion list" where
  "suggest_planned mk its acts =
     List.map_filter (\<lambda>a. map_option (\<lambda>it. mk it a) (items_by_path its (ma_target a))) acts"

definition leaks_from_report ::
  "(report \<Rightarrow> mod_action list) \<Rightarrow> report \<Rightarrow> 'x world \<Rightarrow> suggestion list \<times> 'x world" where
  "leaks_from_report plan rep w =
     (case now_at w of (tm, w1) \<Rightarrow> (suggest_planned (leak_suggestion tm) (rp_items rep) (plan rep), w1))"

definition scan_leaks ::
  "('x world \<Rightarrow> report option \<times> 'x world) option \<Rightarrow> config \<Rightarrow> 'x world \<Rightarrow> report option \<times> 'x world" where
  "scan_leaks src cfg w = (case src of None \<Rightarrow> (None, w)
     | Some scan \<Rightarrow> if \<not> cf_leaks_enabled cfg then (None, w) else scan w)"

definition worktree_suggestion :: "time \<Rightarrow> item \<Rightarrow> mod_action \<Rightarrow> suggestion" where
  "worktree_suggestion tm it a =
     \<lparr> sg_id = 0, sg_module = ''worktrees'', sg_target = ma_target a,
       sg_reason = ''dead worktree ('' @ ev_get (it_evidence it) ''branch'' @ '', idle '' @
         ev_get (it_evidence it) ''idle'' @ ''): merged to remote, clean, nothing open'',
       sg_evidence = carry_evidence it (ma_size a), sg_risk = risk_string (ma_risk a),
       sg_size = ma_size a, sg_created = tm \<rparr>"

definition worktrees_heuristic ::
  "('x world \<Rightarrow> report option \<times> 'x world) option \<Rightarrow> (report \<Rightarrow> mod_action list) \<Rightarrow> bool \<Rightarrow> 'x world
   \<Rightarrow> suggestion list \<times> 'x world" where
  "worktrees_heuristic src plan enabled w = (case src of None \<Rightarrow> ([], w)
     | Some scan \<Rightarrow>
         if \<not> enabled then ([], w)
         else case scan w of
           (None, w1) \<Rightarrow> ([], w1)
         | (Some rep, w1) \<Rightarrow>
             (case now_at w1 of (tm, w2) \<Rightarrow>
                (suggest_planned (worktree_suggestion tm) (rp_items rep) (plan rep), w2)))"

lemma suggest_planned_mem:
  "s \<in> set (suggest_planned mk its acts) \<Longrightarrow>
   \<exists>a it. a \<in> set acts \<and> it \<in> set its \<and> it_path it = ma_target a \<and> s = mk it a"
proof -
  assume "s \<in> set (suggest_planned mk its acts)"
  then obtain a it where "a \<in> set acts" "items_by_path its (ma_target a) = Some it" "s = mk it a"
    unfolding suggest_planned_def map_filter_def by auto
  from this(2) have "(ma_target a, it) \<in> set (rev (map (\<lambda>it. (it_path it, it)) its))"
    unfolding items_by_path_def by (rule map_of_SomeD)
  then have "it \<in> set its" "it_path it = ma_target a" by auto
  with \<open>a \<in> set acts\<close> \<open>s = mk it a\<close> show ?thesis by blast
qed

subsection \<open>Leak storms\<close>

record leak_storm =
  ls_signature :: string
  ls_count :: int
  ls_workaround :: string

text \<open>One instance counted: its signature's entry is made on first sight, in order.\<close>

fun count_instance :: "string \<Rightarrow> string \<Rightarrow> leak_storm list \<Rightarrow> leak_storm list" where
  "count_instance sig wk [] = [\<lparr>ls_signature = sig, ls_count = 1, ls_workaround = wk\<rparr>]"
| "count_instance sig wk (a # as) =
     (if ls_signature a = sig
      then a\<lparr>ls_count := ls_count a + 1, ls_workaround := (if wk \<noteq> [] then wk else ls_workaround a)\<rparr> # as
      else a # count_instance sig wk as)"

text \<open>The loop asks for every item's appearance time, in order; the answer may change the state.\<close>

fun storm_loop ::
  "(path \<Rightarrow> 's \<Rightarrow> time \<times> 's) \<Rightarrow> time \<Rightarrow> item list \<Rightarrow> leak_storm list \<Rightarrow> 's \<Rightarrow> leak_storm list \<times> 's" where
  "storm_loop appeared cutoff [] acc w = (acc, w)"
| "storm_loop appeared cutoff (it # its) acc w =
     (case appeared (it_path it) w of (tm, w1) \<Rightarrow>
        storm_loop appeared cutoff its
          (if tm < cutoff then acc
           else count_instance (signature_of (it_evidence it)) (ev_get (it_evidence it) ''workaround'') acc) w1)"

definition leak_storms ::
  "report \<Rightarrow> (path \<Rightarrow> 's \<Rightarrow> time \<times> 's) \<Rightarrow> time \<Rightarrow> duration \<Rightarrow> int \<Rightarrow> 's \<Rightarrow> leak_storm list \<times> 's" where
  "leak_storms rep appeared tm window min_count w =
     (case storm_loop appeared (tm - window) (rp_items rep) [] w of
        (acc, w1) \<Rightarrow> (filter (\<lambda>a. min_count \<le> ls_count a) acc, w1))"

text \<open>With appearance times that do not depend on the state, a storm is a signature with that many
  recent instances.\<close>

definition recent_of :: "(path \<Rightarrow> time) \<Rightarrow> time \<Rightarrow> item list \<Rightarrow> string \<Rightarrow> int" where
  "recent_of born cutoff its sig =
     int (length (filter (\<lambda>it. \<not> born (it_path it) < cutoff \<and> signature_of (it_evidence it) = sig) its))"

definition tally :: "leak_storm list \<Rightarrow> string \<Rightarrow> int" where
  "tally acc sig = sum_list (map ls_count (filter (\<lambda>a. ls_signature a = sig) acc))"

lemma filter_key_none: "k a \<notin> k ` set as \<Longrightarrow> filter (\<lambda>b. k b = k a) as = []"
  unfolding filter_empty_conv by (metis image_eqI)

lemma count_instance_sigs:
  "set (map ls_signature (count_instance sig wk acc)) = insert sig (set (map ls_signature acc))"
  by (induction acc) auto

lemma count_instance_distinct:
  "distinct (map ls_signature acc) \<Longrightarrow> distinct (map ls_signature (count_instance sig wk acc))"
proof (induction acc)
  case (Cons a as)
  then show ?case using count_instance_sigs [of sig wk as] by auto
qed simp

lemma count_instance_tally:
  "distinct (map ls_signature acc) \<Longrightarrow>
   tally (count_instance sig wk acc) g = tally acc g + (if g = sig then 1 else 0)"
proof (induction acc)
  case (Cons a as)
  have "filter (\<lambda>b. ls_signature b = ls_signature a) as = []"
    using Cons.prems by (intro filter_key_none) simp
  with Cons show ?case by (auto simp: tally_def)
qed (simp add: tally_def)

lemma storm_loop_tally:
  assumes "\<And>p v. appeared p v = (born p, v)" "distinct (map ls_signature acc)"
  shows "distinct (map ls_signature (fst (storm_loop appeared cutoff its acc w)))
    \<and> tally (fst (storm_loop appeared cutoff its acc w)) g = tally acc g + recent_of born cutoff its g"
  using assms(2)
proof (induction its arbitrary: acc)
  case Nil
  then show ?case by (simp add: recent_of_def)
next
  case (Cons it its)
  let ?acc = "count_instance (signature_of (it_evidence it)) (ev_get (it_evidence it) ''workaround'') acc"
  show ?case
  proof (cases "born (it_path it) < cutoff")
    case True
    then have "storm_loop appeared cutoff (it # its) acc w = storm_loop appeared cutoff its acc w"
      by (simp add: assms(1))
    with Cons.IH [OF Cons.prems] True show ?thesis by (simp add: recent_of_def)
  next
    case False
    then have "storm_loop appeared cutoff (it # its) acc w = storm_loop appeared cutoff its ?acc w"
      by (simp add: assms(1))
    with Cons.IH [OF count_instance_distinct [OF Cons.prems]] False show ?thesis
      by (auto simp add: recent_of_def count_instance_tally [OF Cons.prems])
  qed
qed

lemma tally_single:
  "distinct (map ls_signature acc) \<Longrightarrow> a \<in> set acc \<Longrightarrow> tally acc (ls_signature a) = ls_count a"
proof (induction acc)
  case (Cons b bs)
  show ?case
  proof (cases "a = b")
    case True
    have "filter (\<lambda>c. ls_signature c = ls_signature b) bs = []"
      using Cons.prems by (intro filter_key_none) simp
    with True show ?thesis by (simp add: tally_def)
  next
    case False
    with Cons.prems have "ls_signature b \<noteq> ls_signature a" by force
    with Cons False show ?thesis by (simp add: tally_def)
  qed
qed simp

text \<open>
  C28. The storm detector reports exactly the signatures with at least the given number of instances
  (live or stale) born inside the window, once each, with their true count.
\<close>

theorem leak_storms_exact:
  assumes "\<forall>p v. appeared p v = (born p, v)" "0 < min_count"
  shows "distinct (map ls_signature (fst (leak_storms rep appeared tm window min_count w)))
    \<and> (\<forall>sig n. (\<exists>a \<in> set (fst (leak_storms rep appeared tm window min_count w)). ls_signature a = sig \<and> ls_count a = n)
         \<longleftrightarrow> n = recent_of born (tm - window) (rp_items rep) sig \<and> min_count \<le> n)"
proof -
  obtain acc w1 where acc: "storm_loop appeared (tm - window) (rp_items rep) [] w = (acc, w1)" by fastforce
  have t: "distinct (map ls_signature acc)" "\<And>g. tally acc g = recent_of born (tm - window) (rp_items rep) g"
    using storm_loop_tally [of appeared born "[]" "tm - window" "rp_items rep" w] assms(1) acc
    by (auto simp: tally_def)
  have ls: "fst (leak_storms rep appeared tm window min_count w) = filter (\<lambda>a. min_count \<le> ls_count a) acc"
    by (simp add: leak_storms_def acc)
  have iff: "(\<exists>a \<in> set (filter (\<lambda>a. min_count \<le> ls_count a) acc). ls_signature a = sig \<and> ls_count a = n)
      \<longleftrightarrow> n = tally acc sig \<and> min_count \<le> n" for sig n
  proof
    assume "\<exists>a \<in> set (filter (\<lambda>a. min_count \<le> ls_count a) acc). ls_signature a = sig \<and> ls_count a = n"
    then show "n = tally acc sig \<and> min_count \<le> n" using tally_single [OF t(1)] by auto
  next
    assume n: "n = tally acc sig \<and> min_count \<le> n"
    then have "filter (\<lambda>a. ls_signature a = sig) acc \<noteq> []" using assms(2) by (auto simp: tally_def)
    then obtain a where "a \<in> set acc" "ls_signature a = sig" by (auto simp: filter_empty_conv)
    with n tally_single [OF t(1)]
    show "\<exists>a \<in> set (filter (\<lambda>a. min_count \<le> ls_count a) acc). ls_signature a = sig \<and> ls_count a = n"
      by auto
  qed
  show ?thesis
    unfolding ls t(2) [symmetric] using iff distinct_map_filter [OF t(1)] by blast
qed

lemma leak_storms_exact_witness:
  "let it = (\<lambda>p. \<lparr>it_path = p, it_size = 1, it_evidence = [''signature'' \<mapsto> ''clone'']\<rparr>);
       rep = \<lparr>rp_module = ''leaks'', rp_items = [it ''/a'', it ''/b'', it ''/c''], rp_total = 3\<rparr>;
       born = (\<lambda>p. if p = ''/b'' then 0 else 100)
   in \<exists>a \<in> set (fst (leak_storms rep (\<lambda>p v. (born p, v)) 110 50 2 ())). ls_signature a = ''clone'' \<and> ls_count a = 2"
  unfolding Let_def
  by (subst leak_storms_exact [THEN conjunct2, rule_format, of _ "\<lambda>p. if p = ''/b'' then 0 else 100"])
    (simp_all add: recent_of_def signature_of_def ev_get_def)

end
