(* ===== verification/Tick.thy ===== *)
theory Tick
  imports Heuristics
begin

text \<open>
  The daemon's tick, \<open>cmd/noo-nood/tick.go\<close>: scan, heuristics, deduplicated persistence, unattended
  cleaning, at most one pending relocation, notifications. What the code reaches through function
  variables and interfaces is the record \<open>deps\<close>; the daemon's own fields (the first sightings of
  leak paths, the counter of new suggestions) are \<open>daemon\<close>. Log lines are not modelled.
\<close>

record 'x deps =
  dp_scan :: "'x world \<Rightarrow> 'x world"
  dp_stop :: "nat \<Rightarrow> bool"
  dp_json_time :: "time \<Rightarrow> string"
  dp_json :: "ev_val \<Rightarrow> string"
  dp_leak_scan :: "('x world \<Rightarrow> report option \<times> 'x world) option"
  dp_leak_plan :: "report \<Rightarrow> mod_action list"
  dp_wt_scan :: "('x world \<Rightarrow> report option \<times> 'x world) option"
  dp_wt_plan :: "report \<Rightarrow> mod_action list"
  dp_ac_config :: "config \<Rightarrow> ac_config"
  dp_dev_delete :: "'x world deleter"
  dp_leak_delete :: "'x world deleter"
  dp_wt_delete :: "'x world deleter"
  dp_gone :: "path \<Rightarrow> 'x world \<Rightarrow> bool"
  dp_birth :: "path \<Rightarrow> 'x world \<Rightarrow> time option"
  dp_run_pending :: "'x world \<Rightarrow> pending_result list option \<times> 'x world"
  dp_notify :: "string \<Rightarrow> string \<Rightarrow> 'x world \<Rightarrow> bool \<times> 'x world"
  dp_cwd :: "path option"
  dp_guard_text :: "guard_err \<Rightarrow> string"

record daemon =
  dm_first_seen :: "path \<Rightarrow> time option"
  dm_last_new :: int

subsection \<open>Persistence\<close>

fun ev_text :: "(ev_val \<Rightarrow> string) \<Rightarrow> ev_val \<Rightarrow> string" where
  "ev_text js (EvStr s) = s"
| "ev_text js v = js v"

definition to_stored :: "(ev_val \<Rightarrow> string) \<Rightarrow> suggestion \<Rightarrow> 'x world \<Rightarrow> sg_row \<times> 'x world" where
  "to_stored js s w =
     (case (if sg_created s = zero_time then now_at w else (sg_created s, w)) of (ts, w1) \<Rightarrow>
       (\<lparr> sr_id = 0, sr_ts = ts, sr_module = sg_module s, sr_target = sg_target s, sr_reason = sg_reason s,
          sr_evidence = (\<lambda>k. map_option (ev_text js) (sg_evidence s k)), sr_severity = sg_risk s,
          sr_dismissed = None \<rparr>, w1))"

fun persist_new :: "(ev_val \<Rightarrow> string) \<Rightarrow> suggestion list \<Rightarrow> 'x world \<Rightarrow> suggestion list \<times> 'x world" where
  "persist_new js [] w = ([], w)"
| "persist_new js (s # ss) w =
     (case on_store (has_open_suggestion (sg_module s) (sg_target s)) w of
        (None, w1) \<Rightarrow> persist_new js ss w1
      | (Some True, w1) \<Rightarrow> persist_new js ss w1
      | (Some False, w1) \<Rightarrow>
          (case to_stored js s w1 of (row, w2) \<Rightarrow>
             (case on_store (insert_suggestion row) w2 of
                (None, w3) \<Rightarrow> persist_new js ss w3
              | (Some i, w3) \<Rightarrow> (case persist_new js ss w3 of
                    (out, w4) \<Rightarrow> (s\<lparr>sg_id := i\<rparr> # out, w4)))))"

subsection \<open>Collecting suggestions\<close>

definition collect_suggestions ::
  "'x deps \<Rightarrow> config \<Rightarrow> bool \<Rightarrow> 'x world \<Rightarrow> (suggestion list \<times> report option) \<times> 'x world" where
  "collect_suggestions dp cfg light w =
     (let (a, w1) = (if \<not> light \<and> ic_enabled (cf_idle_repos cfg)
                     then idle_repos (dp_json_time dp) (dp_stop dp) cfg w else ([], w));
          (b, w2) = (if \<not> light \<and> vc_enabled (cf_cache_velocity cfg)
                     then cache_velocity (dp_json_time dp) (dp_stop dp) cfg w1 else ([], w1));
          ((c, rep), w3) =
            (if cf_leaks_enabled cfg
             then (case scan_leaks (dp_leak_scan dp) cfg w2 of
                     (None, v) \<Rightarrow> (([], None), v)
                   | (Some rep, v) \<Rightarrow> (case leaks_from_report (dp_leak_plan dp) rep v of
                        (ls, v') \<Rightarrow> ((ls, Some rep), v')))
             else (([], None), w2));
          (d, w4) = (if light then ([], w3)
                     else worktrees_heuristic (dp_wt_scan dp) (dp_wt_plan dp) (wc_enabled (cf_worktrees cfg)) w3)
      in ((a @ b @ c @ d, rep), w4))"

subsection \<open>Unattended cleaning\<close>

text \<open>The projection of a stored row the gates and the deleter consume.\<close>

definition project_row :: "sg_row \<Rightarrow> suggestion" where
  "project_row r = \<lparr> sg_id = sr_id r, sg_module = sr_module r, sg_target = sr_target r, sg_reason = sr_reason r,
     sg_evidence = Map.empty, sg_risk = [], sg_size = 0, sg_created = zero_time \<rparr>"

fun retry_rows :: "'x deps \<Rightarrow> int list \<Rightarrow> sg_row list \<Rightarrow> 'x world \<Rightarrow> suggestion list \<times> 'x world" where
  "retry_rows dp seen [] w = ([], w)"
| "retry_rows dp seen (r # rs) w =
     (if \<not> self_proving (sr_module r) \<or> sr_id r \<in> set seen then retry_rows dp seen rs w
      else if dp_gone dp (sr_target r) w then
        (case now_at w of (tm, w1) \<Rightarrow>
           retry_rows dp seen rs (snd (on_store (dismiss_suggestion (sr_id r) tm) w1)))
      else case retry_rows dp seen rs w of (out, w1) \<Rightarrow> (project_row r # out, w1))"

definition open_leak_suggestions :: "'x deps \<Rightarrow> suggestion list \<Rightarrow> 'x world \<Rightarrow> suggestion list \<times> 'x world" where
  "open_leak_suggestions dp fresh w =
     (case on_store list_open_suggestions w of
        (None, w1) \<Rightarrow> ([], w1)
      | (Some rows, w1) \<Rightarrow> retry_rows dp (map sg_id fresh) rows w1)"

definition daemon_engine :: "'x deps \<Rightarrow> config \<Rightarrow> ac_config \<Rightarrow> 'x world engine" where
  "daemon_engine dp cfg ac = \<lparr> en_cfg = ac, en_roots = cf_roots cfg,
     en_safety = Some (new_safety (dp_cwd dp) (cf_roots cfg) [''.git'']),
     en_deleters = [''dev'' \<mapsto> dp_dev_delete dp, ''leaks'' \<mapsto> dp_leak_delete dp, ''worktrees'' \<mapsto> dp_wt_delete dp] \<rparr>"

fun clean_loop ::
  "'x deps \<Rightarrow> 'x world engine \<Rightarrow> string \<Rightarrow> budget \<Rightarrow> suggestion list \<Rightarrow> int \<Rightarrow> int \<Rightarrow> 'x world
   \<Rightarrow> (int \<times> int) \<times> 'x world" where
  "clean_loop dp e tr b [] freed deleted w = ((freed, deleted), w)"
| "clean_loop dp e tr b (s # ss) freed deleted w =
     (case evaluate_suggestion s (en_cfg e) of
        (a, False) \<Rightarrow> clean_loop dp e tr b ss freed deleted w
      | (a, True) \<Rightarrow>
          (case take_budget b (aa_size a) of
             (False, b1) \<Rightarrow> ((freed, deleted), w)
           | (True, b1) \<Rightarrow>
               (case engine_apply (dp_guard_text dp) (dp_cwd dp) e a tr w of
                  (Inl err, w1) \<Rightarrow> clean_loop dp e tr b1 ss freed deleted w1
                | (Inr res, w1) \<Rightarrow>
                    (case now_at w1 of (tm, w2) \<Rightarrow>
                       clean_loop dp e tr b1 ss (wrap64 (freed + re_freed res)) (deleted + 1)
                         (snd (on_store (dismiss_suggestion (sg_id s) tm) w2))))))"

definition run_auto_clean ::
  "'x deps \<Rightarrow> config \<Rightarrow> ac_config \<Rightarrow> suggestion list \<Rightarrow> string \<Rightarrow> 'x world \<Rightarrow> (int \<times> int) \<times> 'x world" where
  "run_auto_clean dp cfg ac ss tr w =
     clean_loop dp (daemon_engine dp cfg ac) tr (new_budget (ac_cap_gb ac)) ss 0 0 w"

subsection \<open>Pending relocations\<close>

definition pending_auto_apply_allowed :: "trigger \<Rightarrow> offload_cfg \<Rightarrow> bool \<times> string" where
  "pending_auto_apply_allowed t oc =
     (if t \<noteq> TriggerDaily then (False, ''trigger_not_daily'')
      else if \<not> oc_auto_apply oc then (False, ''auto_apply_pending_off'')
      else if oc_risk_ack oc = [] then (False, ''risk_not_acknowledged'')
      else (True, []))"

fun notify_pending :: "'x deps \<Rightarrow> bool \<Rightarrow> pending_result list \<Rightarrow> 'x world \<Rightarrow> 'x world" where
  "notify_pending dp on [] w = w"
| "notify_pending dp on (r # rs) w =
     notify_pending dp on rs
       (if on \<and> pd_outcome r = PendingApplied
        then snd (dp_notify dp ''noo-noo'' (''relocated '' @ base_path (rq_target (pd_entry r)) @ '', freed ''
               @ human_bytes (pd_freed r) @ '' internal'') w)
        else w)"

definition run_pending_relocations :: "'x deps \<Rightarrow> config \<Rightarrow> 'x world \<Rightarrow> 'x world" where
  "run_pending_relocations dp cfg w =
     (case dp_run_pending dp w of
        (None, w1) \<Rightarrow> w1
      | (Some rs, w1) \<Rightarrow> notify_pending dp (cf_notify_enabled cfg) rs w1)"

subsection \<open>Notifications\<close>

definition split_leaks :: "suggestion list \<Rightarrow> suggestion list \<times> suggestion list" where
  "split_leaks ss = (filter (\<lambda>s. sg_module s = ''leaks'') ss, filter (\<lambda>s. sg_module s \<noteq> ''leaks'') ss)"

record leak_agg =
  la_signature :: string
  la_bytes :: int
  la_count :: int
  la_workaround :: string

fun add_leak :: "string \<Rightarrow> int \<Rightarrow> string \<Rightarrow> leak_agg list \<Rightarrow> leak_agg list" where
  "add_leak sig n wk [] = [\<lparr>la_signature = sig, la_bytes = n, la_count = 1, la_workaround = wk\<rparr>]"
| "add_leak sig n wk (a # as) =
     (if la_signature a = sig
      then a\<lparr>la_bytes := wrap64 (la_bytes a + n), la_count := la_count a + 1,
             la_workaround := (if wk \<noteq> [] then wk else la_workaround a)\<rparr> # as
      else a # add_leak sig n wk as)"

definition leak_alert_body :: "leak_agg \<Rightarrow> string" where
  "leak_alert_body a = la_signature a @ '': '' @ human_bytes (la_bytes a) @ '' really reclaimable ('' @
     itoa (la_count a) @ '' leak(s)). Run noo-noo leaks clean.'' @
     (if la_workaround a \<noteq> [] then '' Fix: '' @ la_workaround a else [])"

definition leak_aggs :: "suggestion list \<Rightarrow> leak_agg list" where
  "leak_aggs ss = fold (\<lambda>s acc. add_leak
       (if ev_str (sg_evidence s) ''signature'' = [] then ''unknown-leak'' else ev_str (sg_evidence s) ''signature'')
       (sg_size s) (ev_str (sg_evidence s) ''workaround'') acc) ss []"

definition leak_alerts :: "suggestion list \<Rightarrow> (string \<times> string) list" where
  "leak_alerts ss = map (\<lambda>a. (''noo-noo '' @ em_dash @ '' disk leak'', leak_alert_body a)) (leak_aggs ss)"

definition notify_leaks :: "'x deps \<Rightarrow> bool \<Rightarrow> suggestion list \<Rightarrow> 'x world \<Rightarrow> 'x world" where
  "notify_leaks dp on ss w =
     (if \<not> on \<or> ss = [] then w
      else fold (\<lambda>(t, b) v. snd (dp_notify dp t b v)) (leak_alerts ss) w)"

definition leak_storm_min_count :: int where "leak_storm_min_count = 10"
definition leak_storm_window :: duration where "leak_storm_window = hour"
definition leak_storm_cooldown :: duration where "leak_storm_cooldown = 6 * hour"

definition leak_storm_alert :: "leak_storm \<Rightarrow> string \<times> string" where
  "leak_storm_alert s = (''noo-noo '' @ em_dash @ '' leak storm'',
     ls_signature s @ '': '' @ itoa (ls_count s) @ '' new leak(s) in the last hour '' @ em_dash @
     '' something is crashing or relaunching in a loop.'' @
     (if ls_workaround s \<noteq> [] then '' Permanent fix: '' @ ls_workaround s else []))"

text \<open>The birth time where the file system has one, else the tick that first saw the path.\<close>

definition leak_appeared_at ::
  "'x deps \<Rightarrow> path \<Rightarrow> daemon \<times> 'x world \<Rightarrow> time \<times> (daemon \<times> 'x world)" where
  "leak_appeared_at dp p = (\<lambda>(d, w).
     case dp_birth dp p w of
       Some t \<Rightarrow> (t, (d, w))
     | None \<Rightarrow> (case dm_first_seen d p of
         Some t \<Rightarrow> (t, (d, w))
       | None \<Rightarrow> (case now_at w of (t, w1) \<Rightarrow>
           (t, (d\<lparr>dm_first_seen := (dm_first_seen d)(p \<mapsto> t)\<rparr>, w1)))))"

definition storm_muted :: "time \<Rightarrow> time option \<Rightarrow> bool" where
  "storm_muted tm last_fired \<longleftrightarrow> (case last_fired of None \<Rightarrow> False
     | Some t \<Rightarrow> sub_time tm t < leak_storm_cooldown)"

fun alert_storms :: "'x deps \<Rightarrow> bool \<Rightarrow> time \<Rightarrow> leak_storm list \<Rightarrow> 'x world \<Rightarrow> 'x world" where
  "alert_storms dp on tm [] w = w"
| "alert_storms dp on tm (s # ss) w =
     (case on_store (last_leak_storm_alert (ls_signature s)) w of
        (r, w1) \<Rightarrow>
          if storm_muted tm (case r of None \<Rightarrow> None | Some x \<Rightarrow> x) \<or> \<not> on then alert_storms dp on tm ss w1
          else case dp_notify dp (fst (leak_storm_alert s)) (snd (leak_storm_alert s)) w1 of
            (False, w2) \<Rightarrow> alert_storms dp on tm ss w2
          | (True, w2) \<Rightarrow> alert_storms dp on tm ss
              (snd (on_store (record_leak_storm_alert (ls_signature s) tm (ls_count s)) w2)))"

definition notify_leak_storms ::
  "'x deps \<Rightarrow> config \<Rightarrow> report option \<Rightarrow> daemon \<times> 'x world \<Rightarrow> daemon \<times> 'x world" where
  "notify_leak_storms dp cfg rep = (\<lambda>(d, w).
     case rep of
       None \<Rightarrow> (d, w)
     | Some rp \<Rightarrow>
         if rp_items rp = [] then (d, w)
         else case now_at w of (tm, w1) \<Rightarrow>
           (case leak_storms rp (leak_appeared_at dp) tm leak_storm_window leak_storm_min_count (d, w1) of
              (storms, (d1, w2)) \<Rightarrow> (d1, alert_storms dp (cf_notify_enabled cfg) tm storms w2)))"

definition tick_notify :: "'x deps \<Rightarrow> bool \<Rightarrow> int \<Rightarrow> int \<Rightarrow> int \<Rightarrow> 'x world \<Rightarrow> 'x world" where
  "tick_notify dp on deleted freed left_over w =
     (if \<not> on then w
      else if 0 < deleted then snd (dp_notify dp ''noo-noo''
        (''freed '' @ human_bytes freed @ ''; '' @ itoa left_over @ '' suggestion(s) remain'') w)
      else if 0 < left_over then snd (dp_notify dp ''noo-noo''
        (itoa left_over @ '' new suggestion(s). Run noo-noo suggestions list.'') w)
      else w)"

subsection \<open>The tick\<close>

definition run_tick :: "'x deps \<Rightarrow> config \<Rightarrow> trigger \<Rightarrow> daemon \<times> 'x world \<Rightarrow> daemon \<times> 'x world" where
  "run_tick dp cfg t = (\<lambda>(d, w).
     let light = (t = TriggerPressure);
         w0 = (if light then w else dp_scan dp w);
         ((cands, rep), w1) = collect_suggestions dp cfg light w0;
         (fresh, w2) = persist_new (dp_json dp) cands w1;
         d1 = d\<lparr>dm_last_new := int (length fresh)\<rparr>;
         ac = dp_ac_config dp cfg;
         ((freed, deleted), w3) =
           (if (t = TriggerDaily \<or> t = TriggerManual) \<and> ac_enabled ac
            then (case open_leak_suggestions dp fresh w2 of
                    (old, v) \<Rightarrow> run_auto_clean dp cfg ac (fresh @ old) (trigger_string t) v)
            else ((0, 0), w2));
         w4 = (if fst (pending_auto_apply_allowed t (cf_offload cfg)) then run_pending_relocations dp cfg w3 else w3);
         (leaks, others) = split_leaks fresh;
         w5 = notify_leaks dp (cf_notify_enabled cfg) leaks w4;
         (d2, w6) = notify_leak_storms dp cfg rep (d1, w5)
     in (d2, tick_notify dp (cf_notify_enabled cfg) deleted freed (int (length others)) w6))"

end
