(* ===== verification/Dedup.thy ===== *)
theory Dedup
  imports Tick
begin

text \<open>
  The suggestions table: its invariant (fresh distinct ids, at most one open row per module and
  target), which inserting after the \<open>HasOpenSuggestion\<close> check and dismissing keep, and what
  \<open>persistNew\<close> returns.
\<close>

definition open_keys :: "store \<Rightarrow> (string \<times> path) list" where
  "open_keys s = map (\<lambda>r. (sr_module r, sr_target r)) (open_rows (st_suggestions s))"

definition suggestions_ok :: "store \<Rightarrow> bool" where
  "suggestions_ok s \<longleftrightarrow> distinct (open_keys s) \<and> distinct (map sr_id (st_suggestions s))
     \<and> (\<forall>r \<in> set (st_suggestions s). sr_id r < st_next_sg s)"

definition sg_key :: "suggestion \<Rightarrow> string \<times> path" where
  "sg_key s = (sg_module s, sg_target s)"

lemma is_open_iff: "is_open s m t \<longleftrightarrow> (m, t) \<in> set (open_keys s)"
  by (auto simp: is_open_def open_keys_def open_rows_def list_ex_iff)

text \<open>The stored row that stands for a persisted suggestion.\<close>

definition has_row :: "store \<Rightarrow> suggestion \<Rightarrow> bool" where
  "has_row s g \<longleftrightarrow> (\<exists>r \<in> set (st_suggestions s). sr_id r = sg_id g \<and> sr_dismissed r = None
     \<and> sr_module r = sg_module g \<and> sr_target r = sg_target g)"

lemma insert_suggestion_store:
  assumes "insert_suggestion row s = (r, s')"
  shows "case r of
     None \<Rightarrow> st_suggestions s' = st_suggestions s \<and> st_next_sg s' = st_next_sg s
   | Some i \<Rightarrow> i = st_next_sg s \<and> st_next_sg s' = st_next_sg s + 1
       \<and> st_suggestions s' = st_suggestions s @ [row\<lparr>sr_id := i, sr_dismissed := None\<rparr>]"
  using assms by (auto simp: insert_suggestion_def db_exec_def Let_def split: if_splits)

lemma insert_fresh_ok:
  assumes "suggestions_ok s" "\<not> is_open s (sr_module row) (sr_target row)" "insert_suggestion row s = (Some i, s')"
  shows "suggestions_ok s' \<and> open_keys s' = open_keys s @ [(sr_module row, sr_target row)]"
  using assms insert_suggestion_store [OF assms(3)]
  by (auto simp: suggestions_ok_def is_open_iff open_keys_def open_rows_def)

lemma dismiss_ok: "suggestions_ok s \<Longrightarrow> suggestions_ok (snd (dismiss_suggestion i tm s))"
proof -
  assume s: "suggestions_ok s"
  let ?f = "\<lambda>r. if sr_id r = i then r\<lparr>sr_dismissed := Some tm\<rparr> else r"
  have "distinct (map (\<lambda>r. (sr_module r, sr_target r)) (filter (\<lambda>r. sr_dismissed r = None) (map ?f (st_suggestions s))))"
    by (rule distinct_map_filter_shrink) (use s in \<open>auto simp: suggestions_ok_def open_keys_def open_rows_def\<close>)
  moreover have "map sr_id (map ?f (st_suggestions s)) = map sr_id (st_suggestions s)" by simp
  ultimately show ?thesis
    using s unfolding suggestions_ok_def
    by (auto simp: dismiss_suggestion_def db_exec_def Let_def open_keys_def open_rows_def simp del: map_map)
qed

lemma has_open_result:
  "on_store (has_open_suggestion m t) w = (r, w') \<Longrightarrow>
   st_suggestions (w_store w') = st_suggestions (w_store w) \<and> st_next_sg (w_store w') = st_next_sg (w_store w)
   \<and> (\<forall>b. r = Some b \<longrightarrow> b = is_open (w_store w) m t)"
  by (auto simp: on_store_eq has_open_suggestion_def db_exec_def Let_def is_open_def split: if_splits)

lemma to_stored_store:
  "to_stored js s w = (row, w') \<Longrightarrow> w_store w' = w_store w \<and> sr_module row = sg_module s \<and> sr_target row = sg_target s"
  by (auto simp: to_stored_def now_at_def split: if_splits)

text \<open>One round of the persistence loop.\<close>

lemma persist_step:
  assumes "suggestions_ok (w_store w)" "persist_new js (s # ss) w = (out, w')"
  obtains w1 out1 where "persist_new js ss w1 = (out1, w')" "suggestions_ok (w_store w1)"
    "out = out1 \<and> st_suggestions (w_store w1) = st_suggestions (w_store w)
     \<or> (\<exists>i. out = s\<lparr>sg_id := i\<rparr> # out1 \<and> sg_key s \<notin> set (open_keys (w_store w))
          \<and> open_keys (w_store w1) = open_keys (w_store w) @ [sg_key s] \<and> has_row (w_store w1) (s\<lparr>sg_id := i\<rparr>)
          \<and> i \<notin> sr_id ` set (st_suggestions (w_store w))
          \<and> set (st_suggestions (w_store w)) \<subseteq> set (st_suggestions (w_store w1)))"
proof -
  obtain r w1 where h: "on_store (has_open_suggestion (sg_module s) (sg_target s)) w = (r, w1)" by fastforce
  note hr = has_open_result [OF h]
  have ok1: "suggestions_ok (w_store w1)" using assms(1) hr by (simp add: suggestions_ok_def open_keys_def)
  show ?thesis
  proof (cases "r = Some False")
    case False
    then have "persist_new js (s # ss) w = persist_new js ss w1"
      using h by (cases r) (auto split: bool.split)
    with assms(2) that ok1 hr show ?thesis by metis
  next
    case True
    obtain row w2 where t: "to_stored js s w1 = (row, w2)" by fastforce
    note tr = to_stored_store [OF t]
    obtain q w3 where ins: "on_store (insert_suggestion row) w2 = (q, w3)" by fastforce
    then have ins': "insert_suggestion row (w_store w2) = (q, w_store w3)"
      by (auto simp: on_store_eq)
    have no: "\<not> is_open (w_store w) (sg_module s) (sg_target s)" using hr True by blast
    have ok2: "suggestions_ok (w_store w2)" using ok1 tr by simp
    have no2: "\<not> is_open (w_store w2) (sr_module row) (sr_target row)"
      using no hr tr by (simp add: is_open_def)
    show ?thesis
    proof (cases q)
      case None
      then have "persist_new js (s # ss) w = persist_new js ss w3"
        using h True t ins by simp
      moreover have "st_suggestions (w_store w3) = st_suggestions (w_store w)"
        "st_next_sg (w_store w3) = st_next_sg (w_store w)"
        using insert_suggestion_store [OF ins'] None tr hr by simp_all
      moreover from this have "suggestions_ok (w_store w3)"
        using assms(1) by (simp add: suggestions_ok_def open_keys_def)
      ultimately show ?thesis using that assms(2) by metis
    next
      case (Some i)
      obtain out1 w4 where p: "persist_new js ss w3 = (out1, w4)" by fastforce
      then have "persist_new js (s # ss) w = (s\<lparr>sg_id := i\<rparr> # out1, w4)"
        using h True t ins Some by simp
      with assms(2) have out: "out = s\<lparr>sg_id := i\<rparr> # out1" "w' = w4" by simp_all
      note st = insert_suggestion_store [OF ins'] insert_fresh_ok [OF ok2 no2 ins' [unfolded Some]]
      have keys: "open_keys (w_store w2) = open_keys (w_store w)"
        using hr tr by (simp add: open_keys_def)
      have "has_row (w_store w3) (s\<lparr>sg_id := i\<rparr>)"
        using st(1) Some tr by (auto simp: has_row_def)
      moreover have "i \<notin> sr_id ` set (st_suggestions (w_store w))"
        using st(1) Some ok1 hr tr by (auto simp: suggestions_ok_def)
      moreover have "sg_key s \<notin> set (open_keys (w_store w))" using no by (simp add: is_open_iff sg_key_def)
      moreover have "set (st_suggestions (w_store w)) \<subseteq> set (st_suggestions (w_store w3))"
        using st(1) Some tr hr by auto
      ultimately show ?thesis
        using that [of w3 out1] p out st(2) keys tr by (auto simp: sg_key_def)
    qed
  qed
qed

lemma persist_new_ok:
  assumes "suggestions_ok (w_store w)" "persist_new js ss w = (out, w')"
  shows "suggestions_ok (w_store w') \<and> set (st_suggestions (w_store w)) \<subseteq> set (st_suggestions (w_store w'))
    \<and> set (map sg_key out) \<inter> set (open_keys (w_store w)) = {} \<and> distinct (map sg_key out)
    \<and> set (open_keys (w_store w)) \<subseteq> set (open_keys (w_store w'))
    \<and> (\<forall>g \<in> set out. has_row (w_store w') g) \<and> set (map sg_key out) \<subseteq> sg_key ` set ss"
  using assms
proof (induction ss arbitrary: w out)
  case Nil
  then show ?case by simp
next
  case (Cons s ss)
  from persist_step [OF Cons.prems] obtain w1 out1 where st: "persist_new js ss w1 = (out1, w')" "suggestions_ok (w_store w1)"
    "out = out1 \<and> st_suggestions (w_store w1) = st_suggestions (w_store w)
     \<or> (\<exists>i. out = s\<lparr>sg_id := i\<rparr> # out1 \<and> sg_key s \<notin> set (open_keys (w_store w))
          \<and> open_keys (w_store w1) = open_keys (w_store w) @ [sg_key s] \<and> has_row (w_store w1) (s\<lparr>sg_id := i\<rparr>)
          \<and> i \<notin> sr_id ` set (st_suggestions (w_store w))
          \<and> set (st_suggestions (w_store w)) \<subseteq> set (st_suggestions (w_store w1)))" .
  note IH = Cons.IH [OF st(2,1)]
  from st(3) show ?case
  proof
    assume "out = out1 \<and> st_suggestions (w_store w1) = st_suggestions (w_store w)"
    with IH show ?case by (auto simp: open_keys_def)
  next
    assume "\<exists>i. out = s\<lparr>sg_id := i\<rparr> # out1 \<and> sg_key s \<notin> set (open_keys (w_store w))
          \<and> open_keys (w_store w1) = open_keys (w_store w) @ [sg_key s] \<and> has_row (w_store w1) (s\<lparr>sg_id := i\<rparr>)
          \<and> i \<notin> sr_id ` set (st_suggestions (w_store w))
          \<and> set (st_suggestions (w_store w)) \<subseteq> set (st_suggestions (w_store w1))"
    then obtain i where i: "out = s\<lparr>sg_id := i\<rparr> # out1" "sg_key s \<notin> set (open_keys (w_store w))"
      "open_keys (w_store w1) = open_keys (w_store w) @ [sg_key s]" "has_row (w_store w1) (s\<lparr>sg_id := i\<rparr>)"
      "set (st_suggestions (w_store w)) \<subseteq> set (st_suggestions (w_store w1))" by blast
    have k: "sg_key (s\<lparr>sg_id := i\<rparr>) = sg_key s" by (simp add: sg_key_def)
    have "has_row (w_store w') (s\<lparr>sg_id := i\<rparr>)"
      using i(4) IH by (auto simp: has_row_def)
    with IH i k show ?case by auto
  qed
qed

text \<open>
  C26. \<open>persistNew\<close> never duplicates: whatever the heuristics emit (repeats included) and whichever
  statements fail, the table keeps at most one open row per module and target, loses none, and every
  suggestion returned is new (no row was open for it), carries the id of its open row, and appears once.
\<close>

theorem persist_new_dedup:
  assumes "suggestions_ok (w_store w)" "persist_new js ss w = (out, w')"
  shows "suggestions_ok (w_store w') \<and> set (st_suggestions (w_store w)) \<subseteq> set (st_suggestions (w_store w'))
    \<and> distinct (map sg_key out) \<and> (\<forall>g \<in> set out. \<not> is_open (w_store w) (sg_module g) (sg_target g)
         \<and> has_row (w_store w') g)"
proof -
  note ok = persist_new_ok [OF assms]
  have "\<not> is_open (w_store w) (sg_module g) (sg_target g)" if "g \<in> set out" for g
  proof -
    have "sg_key g \<in> set (map sg_key out)" using that by simp
    with ok have "sg_key g \<notin> set (open_keys (w_store w))" by blast
    then show ?thesis by (simp add: is_open_iff sg_key_def)
  qed
  with ok show ?thesis by blast
qed

definition demo_sug :: "path \<Rightarrow> suggestion" where
  "demo_sug t = \<lparr> sg_id = 0, sg_module = ''leaks'', sg_target = t, sg_reason = [], sg_evidence = Map.empty,
     sg_risk = ''low'', sg_size = 7, sg_created = 5 \<rparr>"

lemma persist_new_dedup_witness:
  "\<exists>w'. persist_new (\<lambda>_. []) [demo_sug ''/a'', demo_sug ''/b'', demo_sug ''/a''] (demo_world (\<lambda>n. n = 2)) =
      ([(demo_sug ''/a'')\<lparr>sg_id := 1\<rparr>], w') \<and> suggestions_ok (w_store w')"
proof -
  let ?r = "persist_new (\<lambda>_. []) [demo_sug ''/a'', demo_sug ''/b'', demo_sug ''/a''] (demo_world (\<lambda>n. n = 2))"
  have "suggestions_ok (w_store (demo_world (\<lambda>n. n = 2)))"
    by (simp add: suggestions_ok_def open_keys_def open_rows_def demo_world_def empty_store_def)
  from persist_new_dedup [OF this, of "\<lambda>_. []" "[demo_sug ''/a'', demo_sug ''/b'', demo_sug ''/a'']" "fst ?r" "snd ?r"]
  have "suggestions_ok (w_store (snd ?r))" by simp
  moreover have "fst ?r = [(demo_sug ''/a'')\<lparr>sg_id := 1\<rparr>]"
    by (simp add: on_store_eq has_open_suggestion_def insert_suggestion_def db_exec_def Let_def is_open_def
        demo_world_def empty_store_def demo_sug_def to_stored_def zero_time_def)
  ultimately show ?thesis by (metis prod.collapse)
qed

end
