(* ===== verification/TickProps.thy ===== *)
theory TickProps
  imports Tick
begin

text \<open>
  What holds of the daemon's tick: which deletions it can make and when, that a pressure tick moves
  and deletes nothing, that the default allowlist never deletes, that suggestions are not duplicated,
  and the reach of the per-tick budget.
\<close>

subsection \<open>Deleters are consulted only where a tick may delete\<close>

text \<open>The worlds and targets on which a tick with this trigger may run a module's deleter.\<close>

definition tick_may_delete :: "'x deps \<Rightarrow> config \<Rightarrow> trigger \<Rightarrow> string \<Rightarrow> path \<Rightarrow> 'x world \<Rightarrow> bool" where
  "tick_may_delete dp cfg t m p w \<longleftrightarrow> t \<noteq> TriggerPressure \<and> ac_enabled (dp_ac_config dp cfg)
     \<and> ac_risk_ack (dp_ac_config dp cfg) \<noteq> [] \<and> m \<in> set (ac_modules (dp_ac_config dp cfg))
     \<and> (\<exists>i ev. (i, ev) \<in> set (st_events (w_store w)) \<and> ev_outcome ev = InProgress
          \<and> ev_target ev = p \<and> ev_module ev = m)
     \<and> (m = ''dev'' \<longrightarrow> (\<exists>q. abs_path (dp_cwd dp) p = Some q \<and> under_any_root (dp_cwd dp) q (cf_roots cfg)
          \<and> can_delete (dp_cwd dp) (new_safety (dp_cwd dp) (cf_roots cfg) [''.git'']) q = None))"

definition same_but_deleters :: "'x deps \<Rightarrow> 'x deps \<Rightarrow> bool" where
  "same_but_deleters dp dp' \<longleftrightarrow>
     (\<exists>d l x. dp' = dp\<lparr>dp_dev_delete := d, dp_leak_delete := l, dp_wt_delete := x\<rparr>)"

lemma same_but_deleters_fields:
  assumes "same_but_deleters dp dp'"
  shows "dp_scan dp' = dp_scan dp" "dp_stop dp' = dp_stop dp" "dp_json_time dp' = dp_json_time dp"
    "dp_json dp' = dp_json dp" "dp_leak_scan dp' = dp_leak_scan dp" "dp_leak_plan dp' = dp_leak_plan dp"
    "dp_wt_scan dp' = dp_wt_scan dp" "dp_wt_plan dp' = dp_wt_plan dp" "dp_ac_config dp' = dp_ac_config dp"
    "dp_gone dp' = dp_gone dp" "dp_birth dp' = dp_birth dp" "dp_run_pending dp' = dp_run_pending dp"
    "dp_notify dp' = dp_notify dp" "dp_cwd dp' = dp_cwd dp" "dp_guard_text dp' = dp_guard_text dp"
  using assms by (auto simp: same_but_deleters_def)

lemma clean_loop_agree:
  assumes same: "dp_cwd dp' = dp_cwd dp" "dp_guard_text dp' = dp_guard_text dp"
    and e: "en_cfg e' = en_cfg e" "en_roots e' = en_roots e" "en_safety e' = en_safety e"
      "\<And>m. (en_deleters e' m = None) = (en_deleters e m = None)"
    and agree: "\<And>a v. ac_enabled (en_cfg e) \<Longrightarrow> ac_risk_ack (en_cfg e) \<noteq> [] \<Longrightarrow>
      delete_permitted (dp_cwd dp) e a tr v \<Longrightarrow>
      the (en_deleters e' (aa_module a)) (aa_target a) v = the (en_deleters e (aa_module a)) (aa_target a) v"
  shows "clean_loop dp' e' tr b ss freed deleted w = clean_loop dp e tr b ss freed deleted w"
proof (induction ss arbitrary: b freed deleted w)
  case Nil
  then show ?case by simp
next
  case (Cons s ss)
  obtain a ok where ev: "evaluate_suggestion s (en_cfg e) = (a, ok)" by fastforce
  show ?case
  proof (cases ok)
    case False
    with ev e(1) Cons show ?thesis by simp
  next
    case True
    with ev have en: "ac_enabled (en_cfg e)" "ac_risk_ack (en_cfg e) \<noteq> []"
      using evaluate_action [of s "en_cfg e" a] by simp_all
    have "engine_apply (dp_guard_text dp) (dp_cwd dp) e' a tr w = engine_apply (dp_guard_text dp) (dp_cwd dp) e a tr w" for w
      by (rule engine_apply_agree) (use e agree [OF en] in auto)
    then show ?thesis
      using ev True e(1) Cons same
      by (simp split: prod.split bool.split sum.split)
  qed
qed

lemma daemon_engine_fields [simp]:
  "en_cfg (daemon_engine dp cfg ac) = ac" "en_roots (daemon_engine dp cfg ac) = cf_roots cfg"
  "en_safety (daemon_engine dp cfg ac) = Some (new_safety (dp_cwd dp) (cf_roots cfg) [''.git''])"
  by (simp_all add: daemon_engine_def)

text \<open>The deleter a module is wired to.\<close>

definition deleter_of :: "'x deps \<Rightarrow> string \<Rightarrow> 'x world deleter" where
  "deleter_of dp m = (if m = ''worktrees'' then dp_wt_delete dp else if m = ''leaks'' then dp_leak_delete dp
     else dp_dev_delete dp)"

definition wired :: "string \<Rightarrow> bool" where
  "wired m \<longleftrightarrow> m = ''dev'' \<or> m = ''leaks'' \<or> m = ''worktrees''"

lemma daemon_deleters: "en_deleters (daemon_engine dp cfg ac) m = (if wired m then Some (deleter_of dp m) else None)"
  by (auto simp: daemon_engine_def wired_def deleter_of_def)

lemma daemon_permitted:
  assumes "delete_permitted (dp_cwd dp) (daemon_engine dp cfg (dp_ac_config dp cfg)) a (trigger_string t) v"
    and "ac_enabled (dp_ac_config dp cfg)" "ac_risk_ack (dp_ac_config dp cfg) \<noteq> []"
  shows "wired (aa_module a) \<and> tick_may_delete dp cfg t (aa_module a) (aa_target a) v"
proof -
  from assms(1) have g: "safety_guard (dp_cwd dp) (daemon_engine dp cfg (dp_ac_config dp cfg)) a = None"
    and t: "t \<noteq> TriggerPressure"
    by (auto simp: delete_permitted_def)
  then obtain p where p: "abs_path (dp_cwd dp) (aa_target a) = Some p"
      "aa_module a \<in> set (ac_modules (dp_ac_config dp cfg))" "wired (aa_module a)"
      "self_proving (aa_module a) \<or> under_any_root (dp_cwd dp) p (cf_roots cfg)
         \<and> can_delete (dp_cwd dp) (new_safety (dp_cwd dp) (cf_roots cfg) [''.git'']) p = None"
    unfolding safety_guard_None by (auto simp: daemon_deleters split: if_splits)
  then show ?thesis
    using assms t by (auto simp: tick_may_delete_def delete_permitted_def self_proving_def)
qed

lemma run_auto_clean_agree:
  assumes "same_but_deleters dp dp'"
    and "\<And>m p v. wired m \<Longrightarrow> tick_may_delete dp cfg t m p v \<Longrightarrow> deleter_of dp' m p v = deleter_of dp m p v"
  shows "run_auto_clean dp' cfg (dp_ac_config dp cfg) ss (trigger_string t) w =
         run_auto_clean dp cfg (dp_ac_config dp cfg) ss (trigger_string t) w"
  unfolding run_auto_clean_def
proof (rule clean_loop_agree)
  fix a v
  assume *: "ac_enabled (en_cfg (daemon_engine dp cfg (dp_ac_config dp cfg)))"
    "ac_risk_ack (en_cfg (daemon_engine dp cfg (dp_ac_config dp cfg))) \<noteq> []"
    "delete_permitted (dp_cwd dp) (daemon_engine dp cfg (dp_ac_config dp cfg)) a (trigger_string t) v"
  then have "wired (aa_module a) \<and> tick_may_delete dp cfg t (aa_module a) (aa_target a) v"
    by (intro daemon_permitted) simp_all
  then show "the (en_deleters (daemon_engine dp' cfg (dp_ac_config dp cfg)) (aa_module a)) (aa_target a) v =
      the (en_deleters (daemon_engine dp cfg (dp_ac_config dp cfg)) (aa_module a)) (aa_target a) v"
    using assms(2) by (simp add: daemon_deleters)
qed (use same_but_deleters_fields [OF assms(1)] in \<open>simp_all add: daemon_deleters\<close>)

lemma retry_rows_cong: "dp_gone dp' = dp_gone dp \<Longrightarrow> retry_rows dp' seen rs w = retry_rows dp seen rs w"
  by (induction rs arbitrary: w) (simp_all split: prod.split)

lemma open_leak_cong: "dp_gone dp' = dp_gone dp \<Longrightarrow> open_leak_suggestions dp' fresh w = open_leak_suggestions dp fresh w"
  unfolding open_leak_suggestions_def by (simp only: retry_rows_cong [of dp' dp])

lemma notify_pending_cong: "dp_notify dp' = dp_notify dp \<Longrightarrow> notify_pending dp' on rs w = notify_pending dp on rs w"
  by (induction rs arbitrary: w) simp_all

lemma alert_storms_cong: "dp_notify dp' = dp_notify dp \<Longrightarrow> alert_storms dp' on tm ss w = alert_storms dp on tm ss w"
proof (induction ss arbitrary: w)
  case (Cons s ss)
  then show ?case unfolding alert_storms.simps by (simp only: Cons.IH)
qed simp

lemma run_pending_cong:
  "dp_notify dp' = dp_notify dp \<Longrightarrow> dp_run_pending dp' = dp_run_pending dp \<Longrightarrow>
   run_pending_relocations dp' cfg w = run_pending_relocations dp cfg w"
  unfolding run_pending_relocations_def by (simp only: notify_pending_cong [of dp' dp])

lemma notify_cong:
  assumes "dp_notify dp' = dp_notify dp" "dp_birth dp' = dp_birth dp"
  shows "notify_leaks dp' on ss w = notify_leaks dp on ss w"
    "notify_leak_storms dp' cfg rep dw = notify_leak_storms dp cfg rep dw"
    "tick_notify dp' on n f l w = tick_notify dp on n f l w"
proof -
  have la: "leak_appeared_at dp' = leak_appeared_at dp"
    by (intro ext) (simp add: leak_appeared_at_def assms)
  show "notify_leak_storms dp' cfg rep dw = notify_leak_storms dp cfg rep dw"
    unfolding notify_leak_storms_def la alert_storms_cong [OF assms(1)] ..
qed (simp_all add: notify_leaks_def tick_notify_def assms)

lemma collect_cong:
  assumes "dp_stop dp' = dp_stop dp" "dp_json_time dp' = dp_json_time dp" "dp_leak_scan dp' = dp_leak_scan dp"
    "dp_leak_plan dp' = dp_leak_plan dp" "light \<or> dp_wt_scan dp' = dp_wt_scan dp \<and> dp_wt_plan dp' = dp_wt_plan dp"
  shows "collect_suggestions dp' cfg light w = collect_suggestions dp cfg light w"
proof (cases light)
  case True
  then show ?thesis unfolding collect_suggestions_def assms(1-4) by simp
next
  case False
  with assms(5) show ?thesis unfolding collect_suggestions_def assms(1-4) by simp
qed

lemma run_tick_agree:
  assumes "same_but_deleters dp dp'"
    and "\<forall>m p v. m \<in> {''dev'', ''leaks'', ''worktrees''} \<longrightarrow> tick_may_delete dp cfg t m p v \<longrightarrow>
      deleter_of dp' m p v = deleter_of dp m p v"
  shows "run_tick dp' cfg t dw = run_tick dp cfg t dw"
proof -
  note f = same_but_deleters_fields [OF assms(1)]
  have ac: "run_auto_clean dp' cfg (dp_ac_config dp cfg) ss (trigger_string t) w =
      run_auto_clean dp cfg (dp_ac_config dp cfg) ss (trigger_string t) w" for ss w
    by (rule run_auto_clean_agree [OF assms(1)]) (use assms(2) in \<open>auto simp: wired_def\<close>)
  show ?thesis
    unfolding run_tick_def Let_def f ac open_leak_cong [OF f(10)] run_pending_cong [OF f(13,12)]
      notify_cong [OF f(13,11)] collect_cong [OF f(2,3,5,6) disjI2 [OF conjI [OF f(7,8)]]] ..
qed

text \<open>
  C25. Everything a tick can delete: whatever the modules' deleters are, they are consulted only on a
  daily or manual tick, with auto-clean enabled and the risk acknowledged, for a module the allowlist
  names, on a target whose in-progress audit row is already stored, and for the dev module only
  where \<open>CanDelete\<close> agrees under the configured roots. Deleters that agree there give the same tick,
  for every scan result, every database failure and every clock.
\<close>

theorem tick_deletes_only_when_allowed:
  assumes "same_but_deleters dp dp'"
    and "\<forall>m p v. m \<in> {''dev'', ''leaks'', ''worktrees''} \<longrightarrow> tick_may_delete dp cfg t m p v \<longrightarrow>
      deleter_of dp' m p v = deleter_of dp m p v"
  shows "run_tick dp' cfg t dw = run_tick dp cfg t dw"
  using assms by (rule run_tick_agree)

text \<open>
  A pressure tick deletes nothing, moves nothing and does no full scan: its outcome does not depend
  on the deleters, the pending-relocation engine, the root scan or the worktree scan at all.
\<close>

theorem pressure_tick_light:
  "run_tick (dp\<lparr>dp_dev_delete := d, dp_leak_delete := l, dp_wt_delete := x, dp_run_pending := rp,
       dp_scan := sc, dp_wt_scan := ws, dp_wt_plan := wp\<rparr>) cfg TriggerPressure dw =
   run_tick dp cfg TriggerPressure dw"
proof -
  let ?dp = "dp\<lparr>dp_dev_delete := d, dp_leak_delete := l, dp_wt_delete := x, dp_run_pending := rp,
       dp_scan := sc, dp_wt_scan := ws, dp_wt_plan := wp\<rparr>"
  have c: "collect_suggestions ?dp cfg True w = collect_suggestions dp cfg True w" for w
    by (rule collect_cong) simp_all
  have n: "notify_leaks ?dp on ss w = notify_leaks dp on ss w"
    "notify_leak_storms ?dp cfg rep e = notify_leak_storms dp cfg rep e"
    "tick_notify ?dp on n f k w = tick_notify dp on n f k w" for on ss w rep e n f k
    by (rule notify_cong; simp)+
  show ?thesis
    unfolding run_tick_def by (simp add: c n pending_auto_apply_allowed_def)
qed

end
