(* ===== verification/TickLimits.thy ===== *)
theory TickLimits
  imports TickProps Dedup
begin

text \<open>
  The limits of unattended cleaning: the bytes a run attempts against its budget, the rows that pass
  without being charged, and the modules the default allowlist can ever reach.
\<close>

subsection \<open>Bytes attempted in a run\<close>

text \<open>The sizes of the targets a list of audit rows says were attempted.\<close>

definition attempted_bytes :: "(int \<times> ac_event) list \<Rightarrow> int" where
  "attempted_bytes rows = sum_list (map (\<lambda>(i, ev). if ev_outcome ev = Skipped then 0 else ev_target_size ev) rows)"

lemma attempted_append [simp]: "attempted_bytes (xs @ ys) = attempted_bytes xs + attempted_bytes ys"
  by (simp add: attempted_bytes_def)

definition keeps_store :: "'x world engine \<Rightarrow> bool" where
  "keeps_store e \<longleftrightarrow> (\<forall>m d p v. en_deleters e m = Some d \<longrightarrow> w_store (snd (d p v)) = w_store v)"

lemma engine_apply_rows:
  assumes "events_ok w" "keeps_store e" "engine_apply txt cwd e a tr w = (r, w')" "0 \<le> aa_size a"
  shows "events_ok w' \<and> (\<exists>R. event_rows w' = event_rows w @ R \<and> 0 \<le> attempted_bytes R \<and> attempted_bytes R \<le> aa_size a)"
proof -
  have k: "\<forall>d p v. en_deleters e (aa_module a) = Some d \<longrightarrow> w_store (snd (d p v)) = w_store v"
    using assms(2) by (auto simp: keeps_store_def)
  note au = engine_apply_audit [OF assms(1) k assms(3)]
  have none: "event_rows w' = event_rows w \<Longrightarrow> ?thesis"
    using au assms(4) by (auto simp: attempted_bytes_def intro!: exI [of _ "[]"])
  have one: "event_rows w' = event_rows w @ [(i, ev)] \<Longrightarrow>
      (if ev_outcome ev = Skipped then 0 else ev_target_size ev) \<in> {0, aa_size a} \<Longrightarrow> ?thesis" for i ev
    using au assms(4) by (auto simp: attempted_bytes_def intro!: exI [of _ "[(i, ev)]"])
  show ?thesis
  proof (cases r)
    case (Inl x)
    with au none one show ?thesis
      by (cases x) (auto simp: skipped_event_def)
  next
    case (Inr q)
    with au one show ?thesis by auto
  qed
qed

lemma now_at_rows: "now_at w = (t, w') \<Longrightarrow> w_store w' = w_store w"
  by (auto simp: now_at_def)

lemma dismiss_rows:
  "event_rows (snd (on_store (dismiss_suggestion i tm) w)) = event_rows w
   \<and> (events_ok (snd (on_store (dismiss_suggestion i tm) w)) = events_ok w)"
  by (simp add: on_store_eq dismiss_suggestion_def db_exec_def Let_def event_rows_def events_ok_def)

lemma clean_loop_attempted:
  assumes "events_ok w" "keeps_store e" "budget_ok b" "0 \<le> bu_cap b"
    and "\<forall>s \<in> set ss. suggestion_size s \<le> max_i64 - bu_cap b"
  shows "\<exists>R. event_rows (snd (clean_loop dp e tr b ss freed deleted w)) = event_rows w @ R
    \<and> attempted_bytes R \<le> bu_cap b - bu_used b"
  using assms
proof (induction ss arbitrary: b freed deleted w)
  case Nil
  then show ?case by (simp add: attempted_bytes_def budget_ok_def)
next
  case (Cons s ss)
  obtain a ok where ev: "evaluate_suggestion s (en_cfg e) = (a, ok)" by fastforce
  show ?case
  proof (cases ok)
    case False
    with ev Cons show ?thesis by simp
  next
    case True
    then have sz: "aa_size a = suggestion_size s" using ev evaluate_action [of s "en_cfg e" a] by simp
    obtain fits b1 where tk: "take_budget b (aa_size a) = (fits, b1)" by fastforce
    have "bu_used b + aa_size a \<le> max_i64" using Cons.prems sz by (auto simp: budget_ok_def)
    note tb = take_budget_step [OF Cons.prems(3) this tk]
    show ?thesis
    proof (cases fits)
      case False
      with ev True tk Cons.prems show ?thesis by (simp add: attempted_bytes_def budget_ok_def)
    next
      case fits: True
      obtain r w1 where ap: "engine_apply (dp_guard_text dp) (dp_cwd dp) e a tr w = (r, w1)" by fastforce
      have "0 \<le> aa_size a" using tb fits by simp
      then obtain R1 where R1: "events_ok w1" "event_rows w1 = event_rows w @ R1" "attempted_bytes R1 \<le> aa_size a"
        using engine_apply_rows [OF Cons.prems(1,2) ap] by blast
      have pre: "budget_ok b1" "0 \<le> bu_cap b1" "\<forall>s \<in> set ss. suggestion_size s \<le> max_i64 - bu_cap b1"
        using tb Cons.prems by auto
      have "\<exists>v f d. clean_loop dp e tr b (s # ss) freed deleted w = clean_loop dp e tr b1 ss f d v
          \<and> event_rows v = event_rows w1 \<and> events_ok v"
      proof (cases r)
        case (Inl x)
        with ev True tk fits ap R1(1) show ?thesis by (auto split: prod.split)
      next
        case (Inr q)
        obtain t w2 where t: "now_at w1 = (t, w2)" by fastforce
        have "event_rows w2 = event_rows w1" "events_ok w2 = events_ok w1"
          using now_at_rows [OF t] by (simp_all add: event_rows_def events_ok_def)
        with ev True tk fits ap Inr t R1(1) dismiss_rows [of "sg_id s" t w2] show ?thesis
          by (auto split: prod.split)
      qed
      then obtain v f d where v: "clean_loop dp e tr b (s # ss) freed deleted w = clean_loop dp e tr b1 ss f d v"
        "event_rows v = event_rows w1" "events_ok v" by blast
      from Cons.IH [OF v(3) Cons.prems(2) pre, of f d] obtain R2 where
        "event_rows (snd (clean_loop dp e tr b1 ss f d v)) = event_rows v @ R2"
        "attempted_bytes R2 \<le> bu_cap b1 - bu_used b1" by blast
      with v R1 tb fits show ?thesis by (intro exI [of _ "R1 @ R2"]) simp
    qed
  qed
qed

text \<open>A daemon with an audit-checking deleter in every place and nothing else that acts.\<close>

definition demo_deps :: "ac_config \<Rightarrow> unit deps" where
  "demo_deps ac = \<lparr> dp_scan = (\<lambda>w. w), dp_stop = (\<lambda>n. False), dp_json_time = (\<lambda>t. itoa t), dp_json = (\<lambda>v. []),
     dp_leak_scan = None, dp_leak_plan = (\<lambda>r. []), dp_wt_scan = None, dp_wt_plan = (\<lambda>r. []),
     dp_ac_config = (\<lambda>c. ac), dp_dev_delete = paranoid_deleter, dp_leak_delete = paranoid_deleter,
     dp_wt_delete = paranoid_deleter, dp_gone = (\<lambda>p w. False), dp_birth = (\<lambda>p w. None),
     dp_run_pending = (\<lambda>w. (None, w)), dp_notify = (\<lambda>t b w. (True, w)), dp_cwd = None, dp_guard_text = (\<lambda>g. []) \<rparr>"

definition leaks_cfg :: ac_config where
  "leaks_cfg = demo_cfg\<lparr>ac_modules := [''leaks'']\<rparr>"

lemma demo_keeps_store: "keeps_store (daemon_engine (demo_deps ac) cfg ac')"
  by (auto simp: keeps_store_def daemon_deleters deleter_of_def demo_deps_def paranoid_deleter_def split: if_splits)

text \<open>
  The per-tick cap holds end to end: the audit rows a run of unattended cleaning adds name targets
  whose sizes (skipped ones aside) add up to at most the configured number of GiB, whatever the
  suggestions, the deleters' results and the database failures.
\<close>

lemma auto_clean_within_cap:
  assumes "events_ok w" "keeps_store (daemon_engine dp cfg ac)" "0 \<le> ac_cap_gb ac" "ac_cap_gb ac < 2 ^ 33"
    and "\<forall>s \<in> set ss. suggestion_size s \<le> max_i64 - ac_cap_gb ac * 2 ^ 30"
  shows "\<exists>R. event_rows (snd (run_auto_clean dp cfg ac ss tr w)) = event_rows w @ R
    \<and> attempted_bytes R \<le> ac_cap_gb ac * 2 ^ 30"
proof -
  have cap: "bu_cap (new_budget (ac_cap_gb ac)) = ac_cap_gb ac * 2 ^ 30" "bu_used (new_budget (ac_cap_gb ac)) = 0"
    using new_budget_cap [OF assms(3,4)] by (simp_all add: new_budget_def Let_def)
  from clean_loop_attempted [OF assms(1,2) new_budget_ok, of "ac_cap_gb ac" ss dp tr 0 0] show ?thesis
    unfolding run_auto_clean_def cap using assms(3,5) by auto
qed

lemma auto_clean_within_cap_witness:
  "\<exists>R. event_rows (snd (run_auto_clean (demo_deps leaks_cfg) (default_config ''/h'') leaks_cfg
        [(demo_sug ''/a'')\<lparr>sg_size := 8 * 2 ^ 30\<rparr>, (demo_sug ''/b'')\<lparr>sg_size := 3 * 2 ^ 30\<rparr>] ''daily'' (demo_world (\<lambda>_. False)))) = R
     \<and> attempted_bytes R \<le> 10 * 2 ^ 30"
  using auto_clean_within_cap [of "demo_world (\<lambda>_. False)" "demo_deps leaks_cfg" "default_config ''/h''" leaks_cfg
      "[(demo_sug ''/a'')\<lparr>sg_size := 8 * 2 ^ 30\<rparr>, (demo_sug ''/b'')\<lparr>sg_size := 3 * 2 ^ 30\<rparr>]" "''daily''",
      OF _ demo_keeps_store]
  by (simp add: events_ok_def event_rows_def demo_world_def empty_store_def leaks_cfg_def demo_cfg_def
      demo_sug_def suggestion_size_def max_i64_def)

subsection \<open>Rows that are retried without being charged\<close>

lemma project_row_size [simp]: "suggestion_size (project_row r) = 0"
  by (simp add: suggestion_size_def project_row_def)

lemma take_zero: "budget_ok b \<Longrightarrow> 0 \<le> bu_cap b \<Longrightarrow> take_budget b 0 = (True, b)"
  by (auto simp: take_budget_def budget_ok_def in_i64_def max_i64_def min_i64_def)

text \<open>
  A retried row is free: the still-open leak and worktree rows the tick adds to the fresh
  suggestions carry neither size nor evidence, so they are charged nothing and the run over them is
  the same under every budget, a cap of 0 GiB included.
\<close>

lemma retried_rows_unbudgeted:
  assumes "budget_ok b" "0 \<le> bu_cap b" "budget_ok c" "0 \<le> bu_cap c"
  shows "clean_loop dp e tr b (map project_row rs) freed deleted w =
         clean_loop dp e tr c (map project_row rs) freed deleted w"
proof (induction rs arbitrary: freed deleted w)
  case Nil
  then show ?case by simp
next
  case (Cons r rs)
  obtain a ok where ev: "evaluate_suggestion (project_row r) (en_cfg e) = (a, ok)" by fastforce
  show ?case
  proof (cases ok)
    case True
    then have "aa_size a = 0" using ev evaluate_action [of "project_row r" "en_cfg e" a] by simp
    with ev True Cons show ?thesis
      using take_zero [OF assms(1,2)] take_zero [OF assms(3,4)] by (simp split: prod.split sum.split)
  next
    case False
    with ev Cons show ?thesis by simp
  qed
qed

lemma retried_rows_unbudgeted_witness:
  "clean_loop (demo_deps leaks_cfg) (daemon_engine (demo_deps leaks_cfg) (default_config ''/h'') leaks_cfg) ''daily''
     (new_budget 0) (map project_row [\<lparr>sr_id = 3, sr_ts = 0, sr_module = ''leaks'', sr_target = ''/a'', sr_reason = [],
        sr_evidence = Map.empty, sr_severity = [], sr_dismissed = None\<rparr>]) 0 0 (demo_world (\<lambda>_. False)) =
   clean_loop (demo_deps leaks_cfg) (daemon_engine (demo_deps leaks_cfg) (default_config ''/h'') leaks_cfg) ''daily''
     (new_budget 10) (map project_row [\<lparr>sr_id = 3, sr_ts = 0, sr_module = ''leaks'', sr_target = ''/a'', sr_reason = [],
        sr_evidence = Map.empty, sr_severity = [], sr_dismissed = None\<rparr>]) 0 0 (demo_world (\<lambda>_. False))"
  by (rule retried_rows_unbudgeted [OF new_budget_ok _ new_budget_ok])
    (simp_all add: new_budget_def in_i64_def max_i64_def min_i64_def)

subsection \<open>What the default allowlist can delete\<close>

definition emitted_modules :: "string set" where
  "emitted_modules = {''idle_repos'', ''cache_velocity'', ''leaks'', ''worktrees''}"

lemma idle_repos_module: "idle_repos jt stop cfg w = (out, w') \<Longrightarrow> s \<in> set out \<Longrightarrow> sg_module s = ''idle_repos''"
  by (auto simp: idle_repos_def idle_repo_suggestion_def Let_def split: prod.splits option.splits if_splits)

lemma cache_suggestion_module: "cache_suggestion jt cfg tm t rows = Some s \<Longrightarrow> sg_module s = ''cache_velocity''"
  by (auto simp: cache_suggestion_def Let_def split: if_splits)

lemma cache_loop_module: "cache_loop jt cfg tm ts w = (out, w') \<Longrightarrow> s \<in> set out \<Longrightarrow> sg_module s = ''cache_velocity''"
proof (induction ts arbitrary: w out w')
  case (Cons t ts)
  then show ?case
    by (auto split: prod.splits option.splits dest: cache_suggestion_module simp: bind_eq_Some_conv)
qed simp

lemma cache_velocity_module: "cache_velocity jt stop cfg w = (out, w') \<Longrightarrow> s \<in> set out \<Longrightarrow> sg_module s = ''cache_velocity''"
  by (auto simp: cache_velocity_def split: if_splits prod.splits option.splits dest: cache_loop_module)

lemma leaks_from_report_module: "leaks_from_report plan rep w = (out, w') \<Longrightarrow> s \<in> set out \<Longrightarrow> sg_module s = ''leaks''"
  by (auto simp: leaks_from_report_def leak_suggestion_def split: prod.splits dest!: suggest_planned_mem)

lemma worktrees_module: "worktrees_heuristic src plan on w = (out, w') \<Longrightarrow> s \<in> set out \<Longrightarrow> sg_module s = ''worktrees''"
  by (auto simp: worktrees_heuristic_def worktree_suggestion_def split: prod.splits option.splits if_splits dest!: suggest_planned_mem)

lemma collect_modules:
  assumes "collect_suggestions dp cfg light w = ((cands, rep), w')" "s \<in> set cands"
  shows "sg_module s \<in> emitted_modules"
proof -
  obtain a w1 where a: "(if \<not> light \<and> ic_enabled (cf_idle_repos cfg)
      then idle_repos (dp_json_time dp) (dp_stop dp) cfg w else ([], w)) = (a, w1)" by fastforce
  obtain b w2 where b: "(if \<not> light \<and> vc_enabled (cf_cache_velocity cfg)
      then cache_velocity (dp_json_time dp) (dp_stop dp) cfg w1 else ([], w1)) = (b, w2)" by fastforce
  obtain crep w3 where c0: "(if cf_leaks_enabled cfg
      then (case scan_leaks (dp_leak_scan dp) cfg w2 of
              (None, v) \<Rightarrow> (([], None), v)
            | (Some rep, v) \<Rightarrow> (case leaks_from_report (dp_leak_plan dp) rep v of
                 (ls, v') \<Rightarrow> ((ls, Some rep), v')))
      else (([], None), w2)) = (crep, w3)" by fastforce
  obtain c rep' where crep: "crep = (c, rep')" by fastforce
  note c = c0 [unfolded crep]
  obtain d w4 where d: "(if light then ([], w3)
      else worktrees_heuristic (dp_wt_scan dp) (dp_wt_plan dp) (wc_enabled (cf_worktrees cfg)) w3) = (d, w4)" by fastforce
  have "cands = a @ b @ c @ d"
    using assms(1) by (simp only: collect_suggestions_def Let_def a b c d prod.case prod.inject)
  with assms(2) consider "s \<in> set a" | "s \<in> set b" | "s \<in> set c" | "s \<in> set d" by auto
  then show ?thesis
  proof cases
    case 1
    with a have "sg_module s = ''idle_repos''" by (auto split: if_splits dest: idle_repos_module)
    then show ?thesis by (simp add: emitted_modules_def)
  next
    case 2
    with b have "sg_module s = ''cache_velocity''" by (auto split: if_splits dest: cache_velocity_module)
    then show ?thesis by (simp add: emitted_modules_def)
  next
    case 3
    with c have "sg_module s = ''leaks''"
      by (auto split: if_splits prod.splits option.splits dest: leaks_from_report_module)
    then show ?thesis by (simp add: emitted_modules_def)
  next
    case 4
    with d have "sg_module s = ''worktrees''" by (auto split: if_splits dest: worktrees_module)
    then show ?thesis by (simp add: emitted_modules_def)
  qed
qed

lemma persist_modules:
  "persist_new js ss w = (out, w') \<Longrightarrow> sg_module ` set out \<subseteq> sg_module ` set ss"
proof (induction ss arbitrary: w out)
  case (Cons s ss)
  then show ?case
    by (auto split: prod.splits option.splits bool.splits) blast+
qed simp

lemma retry_modules: "retry_rows dp seen rs w = (out, w') \<Longrightarrow> s \<in> set out \<Longrightarrow> self_proving (sg_module s)"
proof (induction rs arbitrary: w out w')
  case (Cons r rs)
  then show ?case
    by (auto simp: project_row_def split: if_splits prod.splits)
qed simp

lemma open_leak_modules:
  "open_leak_suggestions dp fresh w = (out, w') \<Longrightarrow> s \<in> set out \<Longrightarrow> self_proving (sg_module s)"
  by (auto simp: open_leak_suggestions_def split: prod.splits option.splits dest: retry_modules)

lemma clean_loop_none:
  "\<forall>s \<in> set ss. sg_module s \<notin> set (ac_modules (en_cfg e)) \<Longrightarrow>
   clean_loop dp e tr b ss freed deleted w = ((freed, deleted), w)"
proof (induction ss)
  case (Cons s ss)
  have "snd (evaluate_suggestion s (en_cfg e)) = False"
    using Cons.prems by (auto simp: evaluate_suggestion_def Let_def)
  with Cons show ?case by (cases "evaluate_suggestion s (en_cfg e)") simp
qed simp

text \<open>The stages of a tick, named.\<close>

lemma run_tick_stages:
  fixes dp :: "'x deps" and d :: daemon and w :: "'x world"
  obtains cands rep w1 fresh w2 where
    "collect_suggestions dp cfg (t = TriggerPressure) (if t = TriggerPressure then w else dp_scan dp w) = ((cands, rep), w1)"
    "persist_new (dp_json dp) cands w1 = (fresh, w2)"
proof -
  obtain cr w1 where c: "collect_suggestions dp cfg (t = TriggerPressure)
      (if t = TriggerPressure then w else dp_scan dp w) = (cr, w1)" by fastforce
  obtain cands rep where cr: "cr = (cands, rep)" by fastforce
  obtain fresh w2 where p: "persist_new (dp_json dp) cands w1 = (fresh, w2)" by fastforce
  show ?thesis by (rule that [OF c [unfolded cr] p])
qed

lemma tick_suggestions_modules:
  assumes "collect_suggestions dp cfg light w0 = ((cands, rep), w1)" "persist_new js cands w1 = (fresh, w2)"
    "open_leak_suggestions dp fresh w2 = (old, w3)" "s \<in> set (fresh @ old)"
  shows "sg_module s \<in> emitted_modules"
proof -
  have "sg_module s \<in> emitted_modules" if "s \<in> set fresh"
  proof -
    from that have "sg_module s \<in> sg_module ` set cands" using persist_modules [OF assms(2)] by (metis image_eqI subsetD)
    then obtain c where "c \<in> set cands" "sg_module s = sg_module c" by (rule imageE)
    with collect_modules [OF assms(1)] show ?thesis by simp
  qed
  moreover have "sg_module s \<in> emitted_modules" if "s \<in> set old"
  proof -
    have "self_proving (sg_module s)" by (rule open_leak_modules [OF assms(3) that])
    then show ?thesis unfolding self_proving_def emitted_modules_def by blast
  qed
  ultimately show ?thesis using assms(4) by auto
qed

text \<open>
  The allowlist of the default configuration, \<open>dev\<close> alone, deletes nothing: no heuristic emits a
  suggestion of that module, so even with auto-clean enabled and the risk acknowledged a tick's
  outcome does not depend on the deleters.
\<close>

lemma default_allowlist_never_deletes:
  assumes "ac_modules (dp_ac_config dp cfg) = cc_modules (cf_auto_clean (default_config home))"
    and "same_but_deleters dp dp'"
  shows "run_tick dp' cfg t (d, w) = run_tick dp cfg t (d, w)"
proof -
  note f = same_but_deleters_fields [OF assms(2)]
  let ?ac = "dp_ac_config dp cfg"
  have mods: "ac_modules ?ac = [''dev'']" using assms(1) by (simp add: default_config_def)
  obtain cands rep w1 fresh w2 where st:
    "collect_suggestions dp cfg (t = TriggerPressure) (if t = TriggerPressure then w else dp_scan dp w) = ((cands, rep), w1)"
    "persist_new (dp_json dp) cands w1 = (fresh, w2)"
    by (rule run_tick_stages)
  obtain old w3 where old: "open_leak_suggestions dp fresh w2 = (old, w3)" by fastforce
  have "\<forall>s \<in> set (fresh @ old). sg_module s \<notin> set (ac_modules ?ac)"
  proof
    fix s
    assume "s \<in> set (fresh @ old)"
    then have "sg_module s \<in> emitted_modules" by (rule tick_suggestions_modules [OF st old])
    moreover have "''dev'' \<notin> emitted_modules" by (simp add: emitted_modules_def)
    ultimately show "sg_module s \<notin> set (ac_modules ?ac)" unfolding mods by auto
  qed
  then have same: "run_auto_clean dp' cfg ?ac (fresh @ old) (trigger_string t) w3 =
      run_auto_clean dp cfg ?ac (fresh @ old) (trigger_string t) w3"
    by (simp add: run_auto_clean_def clean_loop_none)
  show ?thesis
    unfolding run_tick_def prod.case Let_def f open_leak_cong [OF f(10)] run_pending_cong [OF f(13,12)]
      notify_cong [OF f(13,11)] collect_cong [OF f(2,3,5,6) disjI2 [OF conjI [OF f(7,8)]]] st
    by (simp only: prod.case st old same)
qed

lemma default_allowlist_never_deletes_witness:
  "run_tick ((demo_deps demo_cfg)\<lparr>dp_dev_delete := (\<lambda>p w. ((0, Some ''never''), w)), dp_leak_delete := (\<lambda>p w. ((0, Some ''never''), w)),
       dp_wt_delete := (\<lambda>p w. ((0, Some ''never''), w))\<rparr>) (default_config ''/h'') TriggerDaily
      (\<lparr>dm_first_seen = Map.empty, dm_last_new = 0\<rparr>, demo_world (\<lambda>_. False)) =
   run_tick (demo_deps demo_cfg) (default_config ''/h'') TriggerDaily
      (\<lparr>dm_first_seen = Map.empty, dm_last_new = 0\<rparr>, demo_world (\<lambda>_. False))
   \<and> ac_enabled demo_cfg \<and> ac_risk_ack demo_cfg \<noteq> []"
proof (intro conjI default_allowlist_never_deletes)
  show "ac_modules (dp_ac_config (demo_deps demo_cfg) (default_config ''/h'')) =
      cc_modules (cf_auto_clean (default_config []))"
    by (simp add: demo_deps_def demo_cfg_def default_config_def)
  show "same_but_deleters (demo_deps demo_cfg)
     ((demo_deps demo_cfg)\<lparr>dp_dev_delete := (\<lambda>p w. ((0, Some ''never''), w)), dp_leak_delete := (\<lambda>p w. ((0, Some ''never''), w)),
       dp_wt_delete := (\<lambda>p w. ((0, Some ''never''), w))\<rparr>)"
    unfolding same_but_deleters_def by blast
qed (simp_all add: demo_cfg_def)

text \<open>A daemon whose leak scan proves one stale target, with auto-clean opted in for leaks.\<close>

definition leak_deps :: "unit deps" where
  "leak_deps = (demo_deps leaks_cfg)\<lparr>
     dp_leak_scan := Some (\<lambda>w. (Some \<lparr>rp_module = ''leaks'',
        rp_items = [\<lparr>it_path = ''/a'', it_size = 7, it_evidence = Map.empty\<rparr>], rp_total = 7\<rparr>, w)),
     dp_leak_plan := (\<lambda>r. [\<lparr>ma_module = ''leaks'', ma_op = ''delete'', ma_target = ''/a'', ma_dest = [], ma_size = 7, ma_risk = RiskLow\<rparr>])\<rparr>"

lemma tick_deletes_only_when_allowed_witness:
  "run_tick (leak_deps\<lparr>dp_dev_delete := (\<lambda>p w. ((0, Some ''boom''), w)), dp_leak_delete := (\<lambda>p w. ((5, None), w)),
       dp_wt_delete := (\<lambda>p w. ((0, Some ''boom''), w))\<rparr>) (default_config ''/h'') TriggerDaily
      (\<lparr>dm_first_seen = Map.empty, dm_last_new = 0\<rparr>, demo_world (\<lambda>_. False)) =
   run_tick leak_deps (default_config ''/h'') TriggerDaily
      (\<lparr>dm_first_seen = Map.empty, dm_last_new = 0\<rparr>, demo_world (\<lambda>_. False))"
proof (rule tick_deletes_only_when_allowed)
  show "same_but_deleters leak_deps (leak_deps\<lparr>dp_dev_delete := (\<lambda>p w. ((0, Some ''boom''), w)),
     dp_leak_delete := (\<lambda>p w. ((5, None), w)), dp_wt_delete := (\<lambda>p w. ((0, Some ''boom''), w))\<rparr>)"
    unfolding same_but_deleters_def by blast
  show "\<forall>m p v. m \<in> {''dev'', ''leaks'', ''worktrees''} \<longrightarrow>
      tick_may_delete leak_deps (default_config ''/h'') TriggerDaily m p v \<longrightarrow>
      deleter_of (leak_deps\<lparr>dp_dev_delete := (\<lambda>p w. ((0, Some ''boom''), w)),
        dp_leak_delete := (\<lambda>p w. ((5, None), w)), dp_wt_delete := (\<lambda>p w. ((0, Some ''boom''), w))\<rparr>) m p v =
      deleter_of leak_deps m p v"
    by (auto simp: tick_may_delete_def leak_deps_def demo_deps_def leaks_cfg_def demo_cfg_def deleter_of_def
        paranoid_deleter_def list_ex_iff)
qed

end

