(* ===== verification/Fs.thy ===== *)
theory Fs
  imports GoPaths
begin

text \<open>
  The file system the modules act on: the list of its entries under their physical locations (the
  components from the root), each with what \<open>Lstat\<close> gives. \<open>resolve\<close> follows symbolic links as the
  kernel does (at most 32, then ELOOP). A system call may fail: \<open>mc_faults\<close> says which of the calls
  still to come do; a failing \<open>RemoveAll\<close> may have removed any part of its tree (\<open>mc_partial\<close>). Other
  processes do not change the tree during a call sequence, except through the arguments that stand
  for them (the copier).
\<close>

type_synonym loc = "string list"

datatype kind = KDir | KFile | KLink path | KOther

record fnode =
  nd_kind :: kind
  nd_size :: int
  nd_blocks :: int
  nd_mtime :: time
  nd_uid :: int
  nd_ino :: "int \<times> int"
  nd_nlink :: int

type_synonym fs = "(loc \<times> fnode) list"

definition fs_get :: "fs \<Rightarrow> loc \<Rightarrow> fnode option" where
  "fs_get f p = map_of f p"

definition root_node :: fnode where
  "root_node = \<lparr> nd_kind = KDir, nd_size = 0, nd_blocks = 0, nd_mtime = 0, nd_uid = 0, nd_ino = (0, 0), nd_nlink = 1 \<rparr>"

definition node_at :: "fs \<Rightarrow> loc \<Rightarrow> fnode option" where
  "node_at f p = (if p = [] then Some root_node else fs_get f p)"

definition is_dir_at :: "fs \<Rightarrow> loc \<Rightarrow> bool" where
  "is_dir_at f p \<longleftrightarrow> (case node_at f p of None \<Rightarrow> False | Some n \<Rightarrow> nd_kind n = KDir)"

subsection \<open>Resolution\<close>

text \<open>\<open>resolve f follow n done rest\<close>: the physical location of \<open>rest\<close> seen from \<open>done\<close>. The last
  component is followed when it is a link and \<open>follow\<close> is set; it need not exist.\<close>

fun resolve :: "fs \<Rightarrow> bool \<Rightarrow> nat \<Rightarrow> loc \<Rightarrow> string list \<Rightarrow> loc option" where
  "resolve f follow n dn [] = Some dn"
| "resolve f follow n dn (c # cs) =
     (if c = [] \<or> c = ''.'' then resolve f follow n dn cs
      else if c = ''..'' then resolve f follow n (butlast dn) cs
      else case node_at f (dn @ [c]) of
        None \<Rightarrow> if cs = [] then Some (dn @ [c]) else None
      | Some nd \<Rightarrow> (case nd_kind nd of
          KLink t \<Rightarrow>
            if cs = [] \<and> \<not> follow then Some (dn @ [c])
            else (case n of 0 \<Rightarrow> None
              | Suc m \<Rightarrow> resolve f follow m (if is_abs t then [] else dn) (split_on slash t @ cs))
        | KDir \<Rightarrow> resolve f follow n (dn @ [c]) cs
        | _ \<Rightarrow> if cs = [] then Some (dn @ [c]) else None))"

definition max_symlinks :: nat where "max_symlinks = 32"

definition lloc :: "fs \<Rightarrow> path \<Rightarrow> loc option" where
  "lloc f p = resolve f False max_symlinks [] (split_on slash p)"

definition sloc :: "fs \<Rightarrow> path \<Rightarrow> loc option" where
  "sloc f p = resolve f True max_symlinks [] (split_on slash p)"

definition lstat :: "fs \<Rightarrow> path \<Rightarrow> fnode option" where
  "lstat f p = Option.bind (lloc f p) (node_at f)"

definition stat :: "fs \<Rightarrow> path \<Rightarrow> fnode option" where
  "stat f p = Option.bind (sloc f p) (node_at f)"

text \<open>\<open>filepath.EvalSymlinks\<close> of an absolute path: every component must exist.\<close>

definition eval_links :: "fs \<Rightarrow> path \<Rightarrow> path option" where
  "eval_links f p = (case sloc f p of None \<Rightarrow> None
     | Some q \<Rightarrow> if node_at f q = None then None else Some (render_path True q))"

subsection \<open>Changes\<close>

definition subtree :: "fs \<Rightarrow> loc \<Rightarrow> fs" where
  "subtree f p = map (\<lambda>(k, n). (drop (length p) k, n)) (filter (\<lambda>(k, n). prefix p k) f)"

definition remove_tree :: "loc \<Rightarrow> fs \<Rightarrow> fs" where
  "remove_tree p f = filter (\<lambda>(k, n). \<not> prefix p k) f"

definition move_tree :: "loc \<Rightarrow> loc \<Rightarrow> fs \<Rightarrow> fs" where
  "move_tree p q f = map (\<lambda>(k, n). (if prefix p k then q @ drop (length p) k else k, n)) f"

definition new_node :: "kind \<Rightarrow> fnode" where
  "new_node k = root_node\<lparr>nd_kind := k\<rparr>"

text \<open>\<open>os.Rename\<close>: the source must exist, the new parent be a directory; a new name that is there is
  replaced only when neither it nor the source is a directory.\<close>

definition rename_tree :: "loc \<Rightarrow> loc \<Rightarrow> fs \<Rightarrow> fs option" where
  "rename_tree p q f =
     (if p = [] \<or> q = [] \<or> fs_get f p = None \<or> \<not> is_dir_at f (butlast q) then None
      else if p = q then (if is_dir_at f p then None else Some f)
      else if prefix p q \<or> fs_get f q \<noteq> None \<and> (is_dir_at f q \<or> is_dir_at f p) then None
      else Some (move_tree p q (remove_tree q f)))"

text \<open>\<open>os.Remove\<close>: an entry without children.\<close>

definition remove_entry :: "loc \<Rightarrow> fs \<Rightarrow> fs option" where
  "remove_entry p f =
     (if p = [] \<or> fs_get f p = None \<or> list_ex (\<lambda>(k, n). strict_prefix p k) f then None
      else Some (remove_tree p f))"

definition make_symlink :: "path \<Rightarrow> loc \<Rightarrow> fs \<Rightarrow> fs option" where
  "make_symlink dest p f =
     (if p = [] \<or> fs_get f p \<noteq> None \<or> \<not> is_dir_at f (butlast p) then None
      else Some (f @ [(p, new_node (KLink dest))]))"

subsection \<open>The machine and its system calls\<close>

record machine =
  mc_fs :: fs
  mc_faults :: "nat \<Rightarrow> bool"
  mc_partial :: "nat \<Rightarrow> loc \<Rightarrow> bool"
  mc_calls :: nat

definition machine_of :: "fs \<Rightarrow> machine" where
  "machine_of f = \<lparr> mc_fs = f, mc_faults = (\<lambda>n. False), mc_partial = (\<lambda>n k. False), mc_calls = 0 \<rparr>"

definition sys :: "(fs \<Rightarrow> ('a \<times> fs) option) \<Rightarrow> machine \<Rightarrow> 'a option \<times> machine" where
  "sys op m = (let m' = m\<lparr>mc_calls := Suc (mc_calls m)\<rparr> in
     if mc_faults m (mc_calls m) then (None, m')
     else case op (mc_fs m) of None \<Rightarrow> (None, m') | Some (x, f) \<Rightarrow> (Some x, m'\<lparr>mc_fs := f\<rparr>))"

definition os_lstat :: "path \<Rightarrow> machine \<Rightarrow> fnode option \<times> machine" where
  "os_lstat p = sys (\<lambda>f. map_option (\<lambda>n. (n, f)) (lstat f p))"

definition os_stat :: "path \<Rightarrow> machine \<Rightarrow> fnode option \<times> machine" where
  "os_stat p = sys (\<lambda>f. map_option (\<lambda>n. (n, f)) (stat f p))"

definition os_eval_symlinks :: "path \<Rightarrow> machine \<Rightarrow> path option \<times> machine" where
  "os_eval_symlinks p = sys (\<lambda>f. map_option (\<lambda>q. (q, f)) (eval_links f p))"

definition os_readlink :: "path \<Rightarrow> machine \<Rightarrow> path option \<times> machine" where
  "os_readlink p = sys (\<lambda>f. case lstat f p of
     Some n \<Rightarrow> (case nd_kind n of KLink t \<Rightarrow> Some (t, f) | _ \<Rightarrow> None) | None \<Rightarrow> None)"

text \<open>\<open>os.ReadDir\<close>: the names and nodes of a directory's entries, in byte order of the names.\<close>

definition dir_entries :: "fs \<Rightarrow> loc \<Rightarrow> (string \<times> fnode) list" where
  "dir_entries f q = sort_by (\<lambda>a b. bytes_le (fst a) (fst b))
     (map (\<lambda>(k, n). (last k, n)) (filter (\<lambda>(k, n). k \<noteq> [] \<and> butlast k = q) f))"

definition os_read_dir :: "path \<Rightarrow> machine \<Rightarrow> (string \<times> fnode) list option \<times> machine" where
  "os_read_dir p = sys (\<lambda>f. case sloc f p of
     Some q \<Rightarrow> if is_dir_at f q then Some (dir_entries f q, f) else None | None \<Rightarrow> None)"

definition os_rename :: "path \<Rightarrow> path \<Rightarrow> machine \<Rightarrow> unit option \<times> machine" where
  "os_rename p q = sys (\<lambda>f. case (lloc f p, lloc f q) of
     (Some a, Some b) \<Rightarrow> map_option (\<lambda>g. ((), g)) (rename_tree a b f) | _ \<Rightarrow> None)"

definition os_remove :: "path \<Rightarrow> machine \<Rightarrow> unit option \<times> machine" where
  "os_remove p = sys (\<lambda>f. case lloc f p of
     Some a \<Rightarrow> map_option (\<lambda>g. ((), g)) (remove_entry a f) | None \<Rightarrow> None)"

definition os_symlink :: "path \<Rightarrow> path \<Rightarrow> machine \<Rightarrow> unit option \<times> machine" where
  "os_symlink dest p = sys (\<lambda>f. case lloc f p of
     Some a \<Rightarrow> map_option (\<lambda>g. ((), g)) (make_symlink dest a f) | None \<Rightarrow> None)"

text \<open>\<open>os.MkdirAll\<close>, one call per component, following links on the way.\<close>

definition mkdir_step :: "loc \<Rightarrow> string \<Rightarrow> fs \<Rightarrow> (loc \<times> fs) option" where
  "mkdir_step dn c f =
     (if \<not> is_dir_at f dn then None
      else case resolve f True max_symlinks dn [c] of
        None \<Rightarrow> None
      | Some q \<Rightarrow>
          if node_at f q = None
          then (if is_dir_at f (butlast q) then Some (q, f @ [(q, new_node KDir)]) else None)
          else if is_dir_at f q then Some (q, f) else None)"

fun mkdirs :: "loc \<Rightarrow> string list \<Rightarrow> machine \<Rightarrow> unit option \<times> machine" where
  "mkdirs dn [] m = (Some (), m)"
| "mkdirs dn (c # cs) m =
     (case sys (mkdir_step dn c) m of
        (None, m') \<Rightarrow> (None, m')
      | (Some q, m') \<Rightarrow> mkdirs q cs m')"

definition os_mkdir_all :: "path \<Rightarrow> machine \<Rightarrow> unit option \<times> machine" where
  "os_mkdir_all p = mkdirs [] (split_on slash p)"

text \<open>\<open>os.RemoveAll\<close>: a path that is not there is no error; a failing call removes some part.\<close>

definition os_remove_all :: "path \<Rightarrow> machine \<Rightarrow> unit option \<times> machine" where
  "os_remove_all p m =
     (let m' = m\<lparr>mc_calls := Suc (mc_calls m)\<rparr> in
      case lloc (mc_fs m) p of
        None \<Rightarrow> (if mc_faults m (mc_calls m) then None else Some (), m')
      | Some a \<Rightarrow>
          if mc_faults m (mc_calls m)
          then (None, m'\<lparr>mc_fs := filter (\<lambda>(k, n). \<not> (prefix a k \<and> mc_partial m (mc_calls m) k)) (mc_fs m)\<rparr>)
          else (Some (), m'\<lparr>mc_fs := remove_tree a (mc_fs m)\<rparr>))"

subsection \<open>Trees apart\<close>

text \<open>Nothing lies below two locations neither of which is above the other.\<close>

lemma parallel_below: "parallel p q \<Longrightarrow> prefix p k \<Longrightarrow> \<not> prefix q k"
  using prefix_same_cases by (auto simp: parallel_def)

lemma parallel_sym: "parallel p q \<Longrightarrow> parallel q p"
  by (auto simp: parallel_def)

lemma subtree_filter:
  "(\<And>k n. (k, n) \<in> set f \<Longrightarrow> prefix p k \<Longrightarrow> Q (k, n)) \<Longrightarrow> subtree (filter Q f) p = subtree f p"
proof -
  assume "\<And>k n. (k, n) \<in> set f \<Longrightarrow> prefix p k \<Longrightarrow> Q (k, n)"
  then have "filter (\<lambda>(k, n). prefix p k) (filter Q f) = filter (\<lambda>(k, n). prefix p k) f"
    by (simp add: filter_filter split_def) (rule filter_cong; auto)
  then show ?thesis by (simp add: subtree_def)
qed

lemma subtree_remove_apart: "parallel p q \<Longrightarrow> subtree (remove_tree q f) p = subtree f p"
  unfolding remove_tree_def by (rule subtree_filter) (simp add: parallel_below)

lemma subtree_remove [simp]: "subtree (remove_tree p f) p = []"
  by (auto simp: subtree_def remove_tree_def filter_empty_conv split_def)

lemma subtree_append: "subtree (f @ g) p = subtree f p @ subtree g p"
  by (simp add: subtree_def)

lemma subtree_single: "subtree [(k, n)] p = (if prefix p k then [(drop (length p) k, n)] else [])"
  by (simp add: subtree_def)

lemma subtree_frame: "remove_tree q g = remove_tree q f \<Longrightarrow> parallel p q \<Longrightarrow> subtree g p = subtree f p"
  using subtree_remove_apart by metis

lemma subtree_Nil_iff: "subtree f p = [] \<longleftrightarrow> (\<forall>(k, n) \<in> set f. \<not> prefix p k)"
  by (auto simp: subtree_def filter_empty_conv split_def)

text \<open>A move carries the tree, and leaves any other one apart from both ends alone.\<close>

lemma move_subtree:
  "parallel p q \<Longrightarrow> subtree (move_tree p q (remove_tree q f)) q = subtree f p"
proof (induction f)
  case Nil
  then show ?case by (simp add: subtree_def move_tree_def remove_tree_def)
next
  case (Cons x f)
  obtain k n where x: "x = (k, n)" by fastforce
  have IH: "subtree (move_tree p q (remove_tree q f)) q = subtree f p"
    by (rule Cons.IH) (rule Cons.prems)
  consider "prefix p k" | "prefix q k" "\<not> prefix p k" | "\<not> prefix q k" "\<not> prefix p k" by blast
  then show ?case
  proof cases
    case 1
    then have "\<not> prefix q k" by (rule parallel_below [OF Cons.prems])
    with 1 IH show ?thesis by (simp add: x subtree_def move_tree_def remove_tree_def)
  qed (use IH in \<open>simp_all add: x subtree_def move_tree_def remove_tree_def\<close>)
qed

lemma move_source: "parallel p q \<Longrightarrow> subtree (move_tree p q f) p = []"
proof -
  assume pq: "parallel p q"
  have "\<not> prefix p (if prefix p k then q @ drop (length p) k else k)" for k
    using parallel_below [OF parallel_sym [OF pq], of "q @ drop (length p) k"] by auto
  then show ?thesis by (auto simp: subtree_Nil_iff move_tree_def)
qed

lemma move_filter:
  assumes "\<And>k. prefix p k \<or> prefix q k \<Longrightarrow> \<not> P k"
  shows "filter (\<lambda>(k, n). P k) (move_tree p q (remove_tree q f)) = filter (\<lambda>(k, n). P k) f"
proof (induction f)
  case (Cons x f)
  obtain k n where x: "x = (k, n)" by fastforce
  consider "prefix p k" | "prefix q k" "\<not> prefix p k" | "\<not> prefix q k" "\<not> prefix p k" by blast
  then show ?case
  proof cases
    case 1
    then have "\<not> P k" "\<not> P (q @ drop (length p) k)" using assms by simp_all
    with 1 Cons show ?thesis by (simp add: x move_tree_def remove_tree_def)
  next
    case 2
    then have "\<not> P k" using assms by simp
    with 2 Cons show ?thesis by (simp add: x move_tree_def remove_tree_def)
  next
    case 3
    with Cons show ?thesis by (simp add: x move_tree_def remove_tree_def)
  qed
qed (simp add: move_tree_def remove_tree_def)

lemma move_apart:
  "parallel r p \<Longrightarrow> parallel r q \<Longrightarrow> subtree (move_tree p q (remove_tree q f)) r = subtree f r"
  unfolding subtree_def by (subst move_filter) (auto dest: parallel_below)

lemma map_of_filter_key: "P k \<Longrightarrow> map_of (filter (\<lambda>(k, n). P k) f) k = map_of f k"
  by (induction f) auto

subsection \<open>Resolution of plain paths\<close>

text \<open>A path whose ancestors are directories resolves to its components; one no ancestor of which is
  a link resolves to them or not at all.\<close>

lemma resolve_dirs:
  "\<forall>w \<in> set cs. plain_comp w \<Longrightarrow> \<forall>k. prefix dn k \<and> strict_prefix k (dn @ cs) \<longrightarrow> is_dir_at f k \<Longrightarrow>
   resolve f False n dn cs = Some (dn @ cs)"
proof (induction cs arbitrary: dn)
  case (Cons c cs)
  have c: "plain_comp c" using Cons.prems(1) by simp
  show ?case
  proof (cases "cs = []")
    case True
    with c show ?thesis by (simp add: plain_comp_def split: option.splits kind.splits)
  next
    case False
    have "strict_prefix (dn @ [c]) (dn @ c # cs)"
      using False by (simp add: strict_prefix_def)
    then have "is_dir_at f (dn @ [c])" using Cons.prems(2) by simp
    then obtain nd where "node_at f (dn @ [c]) = Some nd" "nd_kind nd = KDir"
      by (auto simp: is_dir_at_def split: option.splits)
    moreover have "resolve f False n (dn @ [c]) cs = Some ((dn @ [c]) @ cs)"
    proof (rule Cons.IH)
      show "\<forall>w \<in> set cs. plain_comp w" using Cons.prems(1) by simp
      show "\<forall>k. prefix (dn @ [c]) k \<and> strict_prefix k ((dn @ [c]) @ cs) \<longrightarrow> is_dir_at f k"
        using Cons.prems(2) by (auto dest: append_prefixD)
    qed
    ultimately show ?thesis using c by (simp add: plain_comp_def)
  qed
qed simp

definition link_at :: "fs \<Rightarrow> loc \<Rightarrow> bool" where
  "link_at f k \<longleftrightarrow> (case node_at f k of None \<Rightarrow> False
     | Some n \<Rightarrow> (case nd_kind n of KLink t \<Rightarrow> True | _ \<Rightarrow> False))"

lemma resolve_no_links:
  "\<forall>w \<in> set cs. plain_comp w \<Longrightarrow> \<forall>k. prefix dn k \<and> strict_prefix k (dn @ cs) \<longrightarrow> \<not> link_at f k \<Longrightarrow>
   resolve f False n dn cs = Some q \<Longrightarrow> q = dn @ cs"
proof (induction cs arbitrary: dn)
  case (Cons c cs)
  have c: "plain_comp c" using Cons.prems(1) by simp
  show ?case
  proof (cases "cs = []")
    case True
    with c Cons.prems(3) show ?thesis by (simp add: plain_comp_def split: option.splits kind.splits)
  next
    case False
    have "strict_prefix (dn @ [c]) (dn @ c # cs)" using False by (simp add: strict_prefix_def)
    then have nl: "\<not> link_at f (dn @ [c])" using Cons.prems(2) by simp
    have "resolve f False n (dn @ [c]) cs = Some q"
      using Cons.prems(3) c False nl
      by (auto simp: plain_comp_def link_at_def split: option.splits kind.splits)
    then have "q = (dn @ [c]) @ cs"
    proof (rule Cons.IH [rotated 2])
      show "\<forall>w \<in> set cs. plain_comp w" using Cons.prems(1) by simp
      show "\<forall>k. prefix (dn @ [c]) k \<and> strict_prefix k ((dn @ [c]) @ cs) \<longrightarrow> \<not> link_at f k"
        using Cons.prems(2) by (auto dest: append_prefixD)
    qed
    then show ?thesis by simp
  qed
qed simp

lemma resolve_nil [simp]: "resolve f b n dn ([] # cs) = resolve f b n dn cs"
  by simp

lemma lloc_dirs:
  assumes "cs \<noteq> []" "\<forall>w \<in> set cs. plain_comp w" "\<forall>k. strict_prefix k cs \<longrightarrow> is_dir_at f k"
  shows "lloc f (render_path True cs) = Some cs"
  using resolve_dirs [OF assms(2), of "[]" f max_symlinks] assms(3)
  by (simp add: lloc_def split_render [OF assms(1,2)])

lemma lloc_no_links:
  assumes "cs \<noteq> []" "\<forall>w \<in> set cs. plain_comp w" "\<forall>k. strict_prefix k cs \<longrightarrow> \<not> link_at f k"
    "lloc f (render_path True cs) = Some q"
  shows "q = cs"
  using resolve_no_links [OF assms(2), of "[]" f max_symlinks q] assms(3,4)
  by (simp add: lloc_def split_render [OF assms(1,2)])

text \<open>The regular files below a path: how many and their bytes. A failing call stands for any read
  error on the way; the path itself may be a link, which is not followed.\<close>

definition is_file :: "fnode \<Rightarrow> bool" where
  "is_file n \<longleftrightarrow> nd_kind n = KFile"

definition count_files :: "fs \<Rightarrow> int" where
  "count_files t = int (length (filter (is_file \<circ> snd) t))"

definition sum_files :: "(fnode \<Rightarrow> int) \<Rightarrow> fs \<Rightarrow> int" where
  "sum_files g t = sum_list (map (g \<circ> snd) (filter (is_file \<circ> snd) t))"

definition count_and_bytes :: "path \<Rightarrow> machine \<Rightarrow> (int \<times> int) option \<times> machine" where
  "count_and_bytes p = sys (\<lambda>f. case lloc f p of
       Some q \<Rightarrow> if node_at f q = None then None
         else Some ((count_files (subtree f q), wrap64 (sum_files nd_size (subtree f q))), f)
     | None \<Rightarrow> None)"

subsection \<open>What a call leaves\<close>

text \<open>Every call either changes nothing or has its effect; the partial \<open>RemoveAll\<close> keeps some of the tree.\<close>

lemma sys_cases:
  assumes "sys op m = (r, m')"
  shows "mc_fs m' = mc_fs m \<and> r = None \<or> (\<exists>x. r = Some x \<and> op (mc_fs m) = Some (x, mc_fs m'))"
  using assms by (auto simp: sys_def Let_def split: if_splits option.splits)

lemma sys_read:
  assumes "sys op m = (r, m')" "\<And>x g. op (mc_fs m) = Some (x, g) \<Longrightarrow> g = mc_fs m"
  shows "mc_fs m' = mc_fs m"
  using sys_cases [OF assms(1)] assms(2) by auto

lemma os_lstat_fs [simp]: "mc_fs (snd (os_lstat p m)) = mc_fs m"
  unfolding os_lstat_def by (rule sys_read [OF surjective_pairing]) auto

lemma os_stat_fs [simp]: "mc_fs (snd (os_stat p m)) = mc_fs m"
  unfolding os_stat_def by (rule sys_read [OF surjective_pairing]) auto

lemma os_readlink_fs [simp]: "mc_fs (snd (os_readlink p m)) = mc_fs m"
  unfolding os_readlink_def
  by (rule sys_read [OF surjective_pairing]) (auto split: option.splits kind.splits)

lemma os_read_dir_fs [simp]: "mc_fs (snd (os_read_dir p m)) = mc_fs m"
  unfolding os_read_dir_def
  by (rule sys_read [OF surjective_pairing]) (auto split: option.splits if_splits)

lemma os_eval_symlinks_fs [simp]: "mc_fs (snd (os_eval_symlinks p m)) = mc_fs m"
  unfolding os_eval_symlinks_def by (rule sys_read [OF surjective_pairing]) auto

lemma count_and_bytes_fs [simp]: "mc_fs (snd (count_and_bytes p m)) = mc_fs m"
  unfolding count_and_bytes_def
  by (rule sys_read [OF surjective_pairing]) (auto split: option.splits if_splits)

lemma count_and_bytes_Some:
  assumes "count_and_bytes p m = (Some (n, b), m')" "\<And>q. lloc (mc_fs m) p = Some q \<Longrightarrow> q = l"
  shows "n = count_files (subtree (mc_fs m) l) \<and> b = wrap64 (sum_files nd_size (subtree (mc_fs m) l))"
  using sys_cases [OF assms(1) [unfolded count_and_bytes_def]] assms(2)
  by (auto split: option.splits if_splits)

lemma os_rename_cases:
  assumes "os_rename p q m = (r, m')" "lloc (mc_fs m) p = Some a" "lloc (mc_fs m) q = Some b" "a \<noteq> b"
  shows "mc_fs m' = mc_fs m \<and> r = None
    \<or> mc_fs m' = move_tree a b (remove_tree b (mc_fs m)) \<and> r = Some ()"
  using sys_cases [OF assms(1) [unfolded os_rename_def]] assms(2,3,4)
  by (auto simp: rename_tree_def split: if_splits)

lemma os_remove_cases:
  assumes "os_remove p m = (r, m')" "lloc (mc_fs m) p = Some a"
  shows "mc_fs m' = mc_fs m \<and> r = None \<or> mc_fs m' = remove_tree a (mc_fs m) \<and> r = Some ()"
  using sys_cases [OF assms(1) [unfolded os_remove_def]] assms(2)
  by (auto simp: remove_entry_def split: if_splits)

lemma os_symlink_cases:
  assumes "os_symlink d p m = (r, m')" "lloc (mc_fs m) p = Some a"
  shows "mc_fs m' = mc_fs m \<and> r = None
    \<or> mc_fs m' = mc_fs m @ [(a, new_node (KLink d))] \<and> fs_get (mc_fs m) a = None \<and> r = Some ()"
  using sys_cases [OF assms(1) [unfolded os_symlink_def]] assms(2)
  by (auto simp: make_symlink_def split: if_splits)

lemma os_remove_all_cases:
  assumes "os_remove_all p m = (r, m')" "\<And>q. lloc (mc_fs m) p = Some q \<Longrightarrow> q = a"
  shows "mc_fs m' = mc_fs m \<or> mc_fs m' = remove_tree a (mc_fs m)
    \<or> (\<exists>P. mc_fs m' = filter (\<lambda>(k, n). \<not> (prefix a k \<and> P k)) (mc_fs m) \<and> r = None)"
  using assms by (auto simp: os_remove_all_def Let_def split: option.splits if_splits)

lemma os_remove_all_Some:
  assumes "os_remove_all p m = (Some u, m')" "lloc (mc_fs m) p = Some a"
  shows "mc_fs m' = remove_tree a (mc_fs m)"
  using assms by (auto simp: os_remove_all_def Let_def split: option.splits if_splits)

lemma remove_tree_filter: "remove_tree a (filter (\<lambda>(k, n). \<not> (prefix a k \<and> P k)) f) = remove_tree a f"
  by (simp add: remove_tree_def filter_filter split_def cong: conj_cong)
     (rule filter_cong; auto)

lemma remove_tree_idem [simp]: "remove_tree a (remove_tree a f) = remove_tree a f"
  by (simp add: remove_tree_def filter_filter split_def)

lemma os_remove_all_frame:
  assumes "\<And>q. lloc (mc_fs m) p = Some q \<Longrightarrow> q = a"
  shows "remove_tree a (mc_fs (snd (os_remove_all p m))) = remove_tree a (mc_fs m)"
proof -
  obtain r m' where m': "os_remove_all p m = (r, m')" by fastforce
  consider "mc_fs m' = mc_fs m" | "mc_fs m' = remove_tree a (mc_fs m)"
    | P where "mc_fs m' = filter (\<lambda>(k, n). \<not> (prefix a k \<and> P k)) (mc_fs m)"
    using os_remove_all_cases [OF m' assms] by blast
  then show ?thesis by cases (simp_all only: m' snd_conv remove_tree_filter remove_tree_idem)
qed

end
