(* ===== verification/VolGuard.thy ===== *)
theory VolGuard
  imports Fs
begin

text \<open>
  \<open>internal/core/volguard.go\<close>: the check that an offload destination is the pinned volume and can be
  written right now. \<open>statfs\<close>, the commands \<open>diskutil\<close> and \<open>plutil\<close> (the \<open>OutputRunner\<close>) and the
  JSON decoder are arguments, and so is the name \<open>os.CreateTemp\<close> picks. What the probe file holds is
  not modelled, only that it is there.
\<close>

datatype vol_err = ErrDestUnconfigured | ErrVolumeAbsent | ErrUUIDMismatch | ErrNotWritable | ErrProbeFailed

record volume_info =
  vi_uuid :: string
  vi_mount :: path
  vi_writable :: "bool option"
  vi_writable_volume :: "bool option"

type_synonym runner = "string option \<Rightarrow> path \<Rightarrow> string list \<Rightarrow> machine \<Rightarrow> string option \<times> machine"

definition os_create_temp :: "path \<Rightarrow> machine \<Rightarrow> unit option \<times> machine" where
  "os_create_temp name = sys (\<lambda>f. case lloc f name of
       None \<Rightarrow> None
     | Some q \<Rightarrow> if q = [] \<or> node_at f q \<noteq> None \<or> \<not> is_dir_at f (butlast q) then None
         else Some ((), f @ [(q, new_node KFile)]))"

text \<open>Writing to and closing the open file may fail; the tree stays as it is.\<close>

definition os_file_call :: "machine \<Rightarrow> unit option \<times> machine" where
  "os_file_call = sys (\<lambda>f. Some ((), f))"

definition probe_dest :: "(path \<Rightarrow> machine \<Rightarrow> path) \<Rightarrow> path \<Rightarrow> machine \<Rightarrow> vol_err option \<times> machine" where
  "probe_dest temp_name dest m =
     (let name = temp_name dest m in
      case os_create_temp name m of
        (None, m1) \<Rightarrow> (Some ErrProbeFailed, m1)
      | (Some _, m1) \<Rightarrow>
          (case os_file_call m1 of
             (None, m2) \<Rightarrow> (Some ErrProbeFailed, snd (os_remove name (snd (os_file_call m2))))
           | (Some _, m2) \<Rightarrow>
               (case os_file_call m2 of
                  (None, m3) \<Rightarrow> (Some ErrProbeFailed, snd (os_remove name m3))
                | (Some _, m3) \<Rightarrow>
                    (case os_remove name m3 of
                       (None, m4) \<Rightarrow> (Some ErrProbeFailed, m4)
                     | (Some _, m4) \<Rightarrow> (None, m4)))))"

definition resolve_volume_info ::
  "runner \<Rightarrow> (string \<Rightarrow> volume_info option) \<Rightarrow> path \<Rightarrow> machine \<Rightarrow> volume_info option \<times> machine" where
  "resolve_volume_info run json mount m =
     (case run None ''/usr/sbin/diskutil'' [''info'', ''-plist'', mount] m of
        (None, m1) \<Rightarrow> (None, m1)
      | (Some plist, m1) \<Rightarrow>
          (case run (Some plist) ''/usr/bin/plutil'' [''-convert'', ''json'', ''-o'', ''-'', ''-''] m1 of
             (None, m2) \<Rightarrow> (None, m2)
           | (Some js, m2) \<Rightarrow> (json js, m2)))"

record vol_guard =
  vg_run :: runner
  vg_json :: "string \<Rightarrow> volume_info option"
  vg_mount_point :: "path \<Rightarrow> machine \<Rightarrow> path option \<times> machine"
  vg_temp_name :: "path \<Rightarrow> machine \<Rightarrow> path"

definition read_only :: "volume_info \<Rightarrow> bool" where
  "read_only vi \<longleftrightarrow> vi_writable vi = Some False \<or> vi_writable_volume vi = Some False"

definition check_dest :: "vol_guard \<Rightarrow> path \<Rightarrow> string \<Rightarrow> machine \<Rightarrow> vol_err option \<times> machine" where
  "check_dest g dest pinned m =
     (if dest = [] \<or> pinned = [] then (Some ErrDestUnconfigured, m)
      else case os_stat dest m of
        (None, m1) \<Rightarrow> (Some ErrVolumeAbsent, m1)
      | (Some nd, m1) \<Rightarrow>
          if nd_kind nd \<noteq> KDir then (Some ErrVolumeAbsent, m1)
          else case vg_mount_point g dest m1 of
            (None, m2) \<Rightarrow> (Some ErrVolumeAbsent, m2)
          | (Some mount, m2) \<Rightarrow>
              (case resolve_volume_info (vg_run g) (vg_json g) mount m2 of
                 (None, m3) \<Rightarrow> (Some ErrVolumeAbsent, m3)
               | (Some vi, m3) \<Rightarrow>
                   if \<not> equal_fold (vi_uuid vi) pinned then (Some ErrUUIDMismatch, m3)
                   else if read_only vi then (Some ErrNotWritable, m3)
                   else probe_dest (vg_temp_name g) dest m3))"

subsection \<open>The probe leaves no trace when it succeeds\<close>

lemma node_at_append: "node_at (f @ g) p = (case node_at f p of None \<Rightarrow> map_of g p | Some n \<Rightarrow> Some n)"
  by (simp add: node_at_def fs_get_def map_add_def split: option.splits)

lemma resolve_new_leaf:
  assumes "node_at f q = None" "\<not> (\<exists>t. nd_kind nd = KLink t)"
  shows "resolve f b n dn cs = Some q \<Longrightarrow> resolve (f @ [(q, nd)]) b n dn cs = Some q"
proof (induction f b n dn cs rule: resolve.induct)
  case (2 f b n dn c cs)
  consider "c = [] \<or> c = ''.''" | "c = ''..''" "\<not> (c = [] \<or> c = ''.'')"
    | "\<not> (c = [] \<or> c = ''.'')" "c \<noteq> ''..''" by blast
  then show ?case
  proof cases
    case 1
    with 2 show ?thesis by auto
  next
    case c: 2
    with 2 show ?thesis by auto
  next
    case c: 3
    show ?thesis
    proof (cases "node_at f (dn @ [c])")
      case None
      with 2(5) c have "cs = []" "dn @ [c] = q" by (auto split: if_splits)
      with c assms show ?thesis
        by (auto simp: node_at_append None split: option.splits kind.splits)
    next
      case (Some x)
      show ?thesis
      proof (cases "nd_kind x")
        case (KLink t)
        show ?thesis
        proof (cases "cs = [] \<and> \<not> b")
          case True
          with 2(5) c Some KLink show ?thesis by (simp add: node_at_append)
        next
          case False
          show ?thesis
          proof (cases n)
            case 0
            with 2(5) c Some KLink False show ?thesis by auto
          next
            case (Suc m)
            then show ?thesis
              using 2(4) [OF c Some KLink False Suc] 2(5) c Some KLink False
              by (auto simp: node_at_append)
          qed
        qed
      qed (use 2 c Some in \<open>auto simp: node_at_append split: if_splits\<close>)
    qed
  qed
qed simp

lemma os_file_call_fs [simp]: "mc_fs (snd (os_file_call m)) = mc_fs m"
  unfolding os_file_call_def by (rule sys_read [OF surjective_pairing]) auto

lemma os_create_temp_cases:
  assumes "os_create_temp name m = (r, m')"
  shows "mc_fs m' = mc_fs m \<and> r = None
    \<or> (\<exists>q. lloc (mc_fs m) name = Some q \<and> q \<noteq> [] \<and> node_at (mc_fs m) q = None
          \<and> mc_fs m' = mc_fs m @ [(q, new_node KFile)] \<and> r = Some ())"
  using sys_cases [OF assms [unfolded os_create_temp_def]]
  by (auto split: option.splits if_splits)

lemma remove_new_leaf:
  assumes "os_remove name m = (r, m')" "mc_fs m = f @ [(q, new_node KFile)]"
    "lloc f name = Some q" "q \<noteq> []" "node_at f q = None"
  shows "r = None \<and> mc_fs m' = mc_fs m \<or> r = Some () \<and> mc_fs m' = f"
proof -
  have "lloc (mc_fs m) name = Some q"
    using resolve_new_leaf [OF assms(5), of "new_node KFile" False max_symlinks "[]" "split_on slash name"] assms(3)
    by (simp add: lloc_def assms(2) new_node_def)
  then have "mc_fs m' = mc_fs m \<and> r = None
      \<or> (\<exists>g. remove_entry q (mc_fs m) = Some g \<and> mc_fs m' = g \<and> r = Some ())"
    using sys_cases [OF assms(1) [unfolded os_remove_def]] by auto
  moreover have "g = f" if "remove_entry q (mc_fs m) = Some g" for g
  proof -
    have "\<not> strict_prefix q k" if "(k, n) \<in> set f" for k n
      using \<open>remove_entry q (mc_fs m) = Some g\<close> that
      by (auto simp: remove_entry_def assms(2) list_ex_iff split: if_splits)
    moreover have "(q, n) \<notin> set f" for n
      using assms(4,5) by (auto simp: node_at_def fs_get_def map_of_eq_None_iff image_iff)
    ultimately have "\<forall>(k, n) \<in> set f. \<not> prefix q k"
      by (auto simp: strict_prefix_def)
    then have "remove_tree q f = f" by (auto simp: remove_tree_def filter_id_conv)
    then show "g = f" using that by (auto simp: remove_entry_def assms(2) remove_tree_def split: if_splits)
  qed
  ultimately show ?thesis by auto
qed

text \<open>A failed probe may leave its file behind, and nothing else.\<close>

lemma probe_dest_fs:
  assumes "probe_dest tn dest m = (r, m')"
  shows "(r = None \<longrightarrow> mc_fs m' = mc_fs m)
    \<and> (mc_fs m' = mc_fs m \<or> (\<exists>q. lloc (mc_fs m) (tn dest m) = Some q \<and> node_at (mc_fs m) q = None
         \<and> mc_fs m' = mc_fs m @ [(q, new_node KFile)]))"
proof -
  let ?name = "tn dest m"
  obtain r1 m1 where c: "os_create_temp ?name m = (r1, m1)" by fastforce
  show ?thesis
  proof (cases r1)
    case None
    with assms c os_create_temp_cases [OF c] show ?thesis by (simp add: probe_dest_def)
  next
    case (Some u)
    then obtain q where q: "lloc (mc_fs m) ?name = Some q" "q \<noteq> []" "node_at (mc_fs m) q = None"
      and m1: "mc_fs m1 = mc_fs m @ [(q, new_node KFile)]"
      using os_create_temp_cases [OF c] by auto
    have rm: "mc_fs (snd (os_remove ?name n)) = mc_fs m1 \<and> fst (os_remove ?name n) = None
        \<or> mc_fs (snd (os_remove ?name n)) = mc_fs m \<and> fst (os_remove ?name n) = Some ()"
      if "mc_fs n = mc_fs m1" for n
      using remove_new_leaf [OF surjective_pairing that [unfolded m1] q] that m1 by auto
    obtain r2 m2 where w: "os_file_call m1 = (r2, m2)" by fastforce
    have m2: "mc_fs m2 = mc_fs m1" using os_file_call_fs [of m1] by (simp add: w)
    obtain r3 m3 where cl: "os_file_call m2 = (r3, m3)" by fastforce
    have m3: "mc_fs m3 = mc_fs m1" using os_file_call_fs [of m2] m2 by (simp add: cl)
    obtain r4 m4 where rr: "os_remove ?name m3 = (r4, m4)" by fastforce
    have "r = None \<and> r4 = Some () \<and> m' = m4 \<or> r \<noteq> None \<and> m' = m4"
      using assms c Some w cl rr
      by (auto simp: probe_dest_def Let_def split: option.splits)
    moreover have "mc_fs m4 = mc_fs m1 \<and> r4 = None \<or> mc_fs m4 = mc_fs m \<and> r4 = Some ()"
      using rm [OF m3] by (simp add: rr)
    ultimately show ?thesis using q m1 by auto
  qed
qed

text \<open>A collaborator that leaves the tree as it finds it.\<close>

definition quiet :: "(machine \<Rightarrow> 'a \<times> machine) \<Rightarrow> bool" where
  "quiet g \<longleftrightarrow> (\<forall>m. mc_fs (snd (g m)) = mc_fs m)"

lemma quietD: "quiet g \<Longrightarrow> g m = (r, m') \<Longrightarrow> mc_fs m' = mc_fs m"
  unfolding quiet_def by (metis snd_conv)

lemma resolve_volume_info_quiet:
  assumes "\<forall>i n as. quiet (run i n as)" "resolve_volume_info run json mount m = (r, m')"
  shows "mc_fs m' = mc_fs m"
proof -
  have q: "mc_fs m1 = mc_fs m0" if "run i n as m0 = (x, m1)" for i n as m0 x m1
    using that by (rule quietD [OF assms(1) [rule_format]])
  show ?thesis
    using assms(2) by (auto simp: resolve_volume_info_def q split: option.splits prod.splits)
qed

text \<open>The tools of a guard only read.\<close>

definition quiet_guard_of :: "vol_guard \<Rightarrow> bool" where
  "quiet_guard_of g \<longleftrightarrow> (\<forall>i n as. quiet (vg_run g i n as)) \<and> (\<forall>p. quiet (vg_mount_point g p))"

text \<open>
  What an acceptance in state \<open>m\<close> that ends in \<open>m'\<close> went through, call after call: the destination is a directory;
  \<open>diskutil\<close>, asked about the mount point the destination lies on, and \<open>plutil\<close>, given its output, printed
  a description with the pinned UUID that calls no part read-only; and a file was created in the destination,
  written, closed and removed.
\<close>

definition dest_proven :: "vol_guard \<Rightarrow> path \<Rightarrow> string \<Rightarrow> machine \<Rightarrow> machine \<Rightarrow> bool" where
  "dest_proven g dest pinned m m' \<longleftrightarrow> pinned \<noteq> [] \<and>
     (\<exists>nd m1 mount m2 plist m3 js m4 vi m5 m6 m7.
        os_stat dest m = (Some nd, m1) \<and> nd_kind nd = KDir \<and> vg_mount_point g dest m1 = (Some mount, m2) \<and>
        vg_run g None ''/usr/sbin/diskutil'' [''info'', ''-plist'', mount] m2 = (Some plist, m3) \<and>
        vg_run g (Some plist) ''/usr/bin/plutil'' [''-convert'', ''json'', ''-o'', ''-'', ''-''] m3 = (Some js, m4) \<and>
        vg_json g js = Some vi \<and> equal_fold (vi_uuid vi) pinned \<and> \<not> read_only vi \<and>
        os_create_temp (vg_temp_name g dest m4) m4 = (Some (), m5) \<and> os_file_call m5 = (Some (), m6) \<and>
        os_file_call m6 = (Some (), m7) \<and> os_remove (vg_temp_name g dest m4) m7 = (Some (), m'))"

text \<open>The tree as it was, or with the file of a probe that failed halfway.\<close>

definition probe_left :: "vol_guard \<Rightarrow> path \<Rightarrow> fs \<Rightarrow> fs \<Rightarrow> bool" where
  "probe_left g dest f f' \<longleftrightarrow> f' = f \<or> (\<exists>q m. mc_fs m = f \<and> lloc f (vg_temp_name g dest m) = Some q
     \<and> node_at f q = None \<and> f' = f @ [(q, new_node KFile)])"

lemma resolve_volume_infoD:
  assumes "resolve_volume_info run json mount m = (Some vi, m')"
  obtains plist m1 js where "run None ''/usr/sbin/diskutil'' [''info'', ''-plist'', mount] m = (Some plist, m1)"
    "run (Some plist) ''/usr/bin/plutil'' [''-convert'', ''json'', ''-o'', ''-'', ''-''] m1 = (Some js, m')" "json js = Some vi"
  using assms by (auto simp: resolve_volume_info_def split: option.splits prod.splits)

lemma probe_destD:
  assumes "probe_dest tn dest m = (None, m')"
  obtains m1 m2 m3 where "os_create_temp (tn dest m) m = (Some (), m1)" "os_file_call m1 = (Some (), m2)"
    "os_file_call m2 = (Some (), m3)" "os_remove (tn dest m) m3 = (Some (), m')"
  using assms by (auto simp: probe_dest_def Let_def split: option.splits prod.splits)

text \<open>The guard either gets as far as the probe, or refuses before it.\<close>

lemma check_dest_cases:
  assumes q: "quiet_guard_of g" and r: "check_dest g dest pinned m = (r, m')"
  obtains (probed) nd m1 mount m2 vi m3 where "pinned \<noteq> []" "os_stat dest m = (Some nd, m1)" "nd_kind nd = KDir"
      "vg_mount_point g dest m1 = (Some mount, m2)" "resolve_volume_info (vg_run g) (vg_json g) mount m2 = (Some vi, m3)"
      "equal_fold (vi_uuid vi) pinned" "\<not> read_only vi" "mc_fs m3 = mc_fs m" "probe_dest (vg_temp_name g) dest m3 = (r, m')"
    | (refused) "mc_fs m' = mc_fs m" "r \<noteq> None" "r \<noteq> Some ErrProbeFailed"
proof (cases "dest = [] \<or> pinned = []")
  case True
  with r refused show thesis by (auto simp: check_dest_def)
next
  case False
  have qr: "\<forall>i n as. quiet (vg_run g i n as)" "\<forall>p. quiet (vg_mount_point g p)"
    using q by (auto simp: quiet_guard_of_def)
  obtain st m1 where st: "os_stat dest m = (st, m1)" by fastforce
  have m1: "mc_fs m1 = mc_fs m" using os_stat_fs [of dest m] by (simp add: st)
  obtain mp m2 where mp: "vg_mount_point g dest m1 = (mp, m2)" by fastforce
  have m2: "mc_fs m2 = mc_fs m" using quietD [OF qr(2) [rule_format] mp] m1 by simp
  consider "\<not> (\<exists>nd. st = Some nd \<and> nd_kind nd = KDir) \<or> mp = None"
    | nd mount where "st = Some nd" "nd_kind nd = KDir" "mp = Some mount" by blast
  then show thesis
  proof cases
    case 1
    with r st mp m1 m2 False show thesis
      by (intro refused) (auto simp: check_dest_def split: option.splits if_splits)
  next
    case (2 nd mount)
    obtain vo m3 where vo: "resolve_volume_info (vg_run g) (vg_json g) mount m2 = (vo, m3)" by fastforce
    have m3: "mc_fs m3 = mc_fs m" using resolve_volume_info_quiet [OF qr(1) vo] m2 by simp
    show thesis
    proof (cases "\<exists>vi. vo = Some vi \<and> equal_fold (vi_uuid vi) pinned \<and> \<not> read_only vi")
      case True
      with r st mp 2 vo m3 False show thesis
        by (elim exE conjE) (rule probed [of nd m1 mount m2 _ m3]; simp add: check_dest_def)
    next
      case no: False
      with r st mp 2 vo m3 False show thesis
        by (intro refused) (auto simp: check_dest_def split: option.splits if_splits)
    qed
  qed
qed

text \<open>What an answer of the guard says of the machine.\<close>

lemma check_dest_effect:
  assumes "quiet_guard_of g" "check_dest g dest pinned m = (r, m')"
  shows "(r = None \<longrightarrow> mc_fs m' = mc_fs m \<and> dest_proven g dest pinned m m')
    \<and> (r \<noteq> Some ErrProbeFailed \<longrightarrow> mc_fs m' = mc_fs m) \<and> probe_left g dest (mc_fs m) (mc_fs m')"
  using assms
proof (cases rule: check_dest_cases)
  case (probed nd m1 mount m2 vi m3)
  have pe: "r = None \<or> r = Some ErrProbeFailed"
    using probed(9) by (auto simp: probe_dest_def Let_def split: option.splits prod.splits)
  have "dest_proven g dest pinned m m'" if "r = None"
  proof -
    from resolve_volume_infoD [OF probed(5)] obtain plist n js where
      "vg_run g None ''/usr/sbin/diskutil'' [''info'', ''-plist'', mount] m2 = (Some plist, n)"
      "vg_run g (Some plist) ''/usr/bin/plutil'' [''-convert'', ''json'', ''-o'', ''-'', ''-''] n = (Some js, m3)"
      "vg_json g js = Some vi" .
    moreover from probe_destD [OF probed(9) [unfolded that]] obtain m5 m6 m7 where
      "os_create_temp (vg_temp_name g dest m3) m3 = (Some (), m5)" "os_file_call m5 = (Some (), m6)"
      "os_file_call m6 = (Some (), m7)" "os_remove (vg_temp_name g dest m3) m7 = (Some (), m')" .
    ultimately show ?thesis unfolding dest_proven_def using probed(1-7) by blast
  qed
  moreover have "(r = None \<longrightarrow> mc_fs m' = mc_fs m) \<and> probe_left g dest (mc_fs m) (mc_fs m')"
    using probe_dest_fs [OF probed(9)] probed(8) by (auto simp: probe_left_def)
  ultimately show ?thesis using pe by auto
qed (auto simp: probe_left_def)

text \<open>
  C40. The volume guard accepts only what it has proven in this call: the destination is a directory, \<open>diskutil\<close>
  described the very mount point it lies on, with the pinned UUID and not read-only, and a file was
  created there, written and removed again. An acceptance leaves the tree as it was; so does every refusal but a
  failed probe, which leaves at most its own file.
\<close>

theorem check_dest_sound:
  assumes "quiet_guard_of g" "check_dest g dest pinned m = (r, m')"
  shows "(r = None \<longrightarrow> mc_fs m' = mc_fs m \<and> dest_proven g dest pinned m m')
    \<and> (r \<noteq> Some ErrProbeFailed \<longrightarrow> mc_fs m' = mc_fs m) \<and> probe_left g dest (mc_fs m) (mc_fs m')"
  by (rule check_dest_effect [OF assms])

text \<open>A machine whose \<open>diskutil\<close> knows the volume mounted at \<open>/v\<close>, and no other.\<close>

definition demo_guard :: vol_guard where
  "demo_guard = \<lparr> vg_run = (\<lambda>i n as m. (if n = ''/usr/bin/plutil'' then i else if last as = ''/v'' then Some ''AB'' else None, m)),
     vg_json = (\<lambda>s. if s = ''AB'' then Some \<lparr> vi_uuid = ''ab-1'', vi_mount = ''/v'', vi_writable = Some True, vi_writable_volume = None \<rparr> else None),
     vg_mount_point = (\<lambda>p m. (Some ''/v'', m)), vg_temp_name = (\<lambda>p m. join_path [p, ''.noo-noo-probe-1'']) \<rparr>"

definition demo_volume :: machine where
  "demo_volume = machine_of [([''v''], new_node KDir)]"

lemma demo_guard_quiet: "quiet_guard_of demo_guard"
  by (simp add: quiet_guard_of_def quiet_def demo_guard_def)

lemma check_dest_sound_witness:
  "let r = check_dest demo_guard ''/v'' ''AB-1'' demo_volume in
   fst r = None \<and> mc_fs (snd r) = mc_fs demo_volume \<and> dest_proven demo_guard ''/v'' ''AB-1'' demo_volume (snd r)"
proof -
  have "fst (check_dest demo_guard ''/v'' ''AB-1'' demo_volume) = None" by code_simp
  then show ?thesis
    using check_dest_sound [OF demo_guard_quiet surjective_pairing, of "''/v''" "''AB-1''" demo_volume] by (simp add: Let_def)
qed

end
