(* ===== verification/Offload.thy ===== *)
theory Offload
  imports VolGuard Config EventLog
begin

text \<open>
  \<open>internal/modules/offload\<close>: relocation of bulky assets to an external volume. The playbooks, the
  planner and \<open>Apply\<close> with its guard, gate, copy, parity check, swap, link and rollback, on the file
  system of \<open>Fs\<close>. The collaborators the code injects (\<open>DestGuard\<close>, \<open>ProcessChecker\<close>, \<open>Copier\<close>,
  the path prober and the sizing functions) are the fields of \<open>offload\<close>; every error of the code is
  a constructor of \<open>off_err\<close>.
\<close>

subsection \<open>Playbooks\<close>

datatype gate_kind = GateProcess | GatePath

datatype asset_class = ClassNativeConfig | ClassRelocate | ClassManual

fun class_string :: "asset_class \<Rightarrow> string" where
  "class_string ClassNativeConfig = ''native-config''"
| "class_string ClassRelocate = ''relocate''"
| "class_string ClassManual = ''manual''"

record playbook =
  pb_asset :: string
  pb_path :: path
  pb_class :: asset_class
  pb_native :: string
  pb_gate :: gate_kind
  pb_stop_gate :: string
  pb_parent :: string
  pb_never_delete :: bool
  pb_note :: string

definition dest_root_token :: string where "dest_root_token = ''{dest_root}''"
definition dest_root_placeholder :: string where "dest_root_placeholder = ''<your-external-volume>''"

definition no_playbook :: playbook where
  "no_playbook = \<lparr> pb_asset = [], pb_path = [], pb_class = ClassManual, pb_native = [], pb_gate = GateProcess,
     pb_stop_gate = [], pb_parent = [], pb_never_delete = False, pb_note = [] \<rparr>"

definition default_playbooks :: "playbook list" where
  "default_playbooks = [
     no_playbook\<lparr> pb_asset := ''pnpm-store'', pb_path := ''~/Library/pnpm'', pb_class := ClassNativeConfig,
       pb_native := ''pnpm config set store-dir '' @ dest_root_token @ ''/.pnpm-store --global'',
       pb_note := ''store-dir is currently unpinned: home-cwd invocations grow a second internal store while external-cwd ones use the external store'' \<rparr>,
     no_playbook\<lparr> pb_asset := ''colima'', pb_path := ''~/.colima'', pb_class := ClassNativeConfig,
       pb_native := ''colima stop && mv ~/.colima '' @ dest_root_token @ ''/.colima && launchctl setenv COLIMA_HOME '' @
         dest_root_token @ ''/.colima (persist COLIMA_HOME in your shell profile)'',
       pb_stop_gate := ''colima'',
       pb_note := ''12GiB Docker VM disk; COLIMA_HOME is the supported relocation; the VM must be stopped first'' \<rparr>,
     no_playbook\<lparr> pb_asset := ''claude-config'', pb_path := ''~/.claude'', pb_class := ClassNativeConfig,
       pb_native := ''mv ~/.claude '' @ dest_root_token @ ''/.claude && launchctl setenv CLAUDE_CONFIG_DIR '' @
         dest_root_token @ ''/.claude (persist CLAUDE_CONFIG_DIR in your shell profile)'',
       pb_note := ''CLAUDE_CONFIG_DIR is honored by the installed binary'' \<rparr>,
     no_playbook\<lparr> pb_asset := ''claude-jobs'', pb_path := ''~/.claude/jobs'', pb_class := ClassRelocate,
       pb_gate := GatePath, pb_parent := ''claude-config'',
       pb_note := ''cold job scratch under the live ~/.claude config dir; relocatable while Claude runs as long as the jobs subtree is lsof-clean (path-gated, not process-gated)'' \<rparr>,
     no_playbook\<lparr> pb_asset := ''localwp-blueprints'', pb_path := ''~/Library/Application Support/Local/blueprints'',
       pb_class := ClassRelocate, pb_never_delete := True,
       pb_note := ''contains irreplaceable user blueprints; official LocalWP docs: deletion is permanent '' @ em_dash @
         '' relocate only, never delete'' \<rparr>,
     no_playbook\<lparr> pb_asset := ''claude-vm-bundles'', pb_path := ''~/Library/Application Support/Claude/vm_bundles'',
       pb_class := ClassRelocate, pb_stop_gate := ''Claude'',
       pb_note := ''VM disk bundles; the Claude app must not be running during the move'' \<rparr>,
     no_playbook\<lparr> pb_asset := ''electron-userdata'', pb_path := [], pb_class := ClassManual,
       pb_note := ''generic Electron userData dirs: symlink tolerance is UNVERIFIED per app '' @ em_dash @
         '' auto-relocation refused; move one app manually, then launch it and smoke-test before trusting the symlink'' \<rparr>]"

definition path_gated :: "playbook \<Rightarrow> bool" where
  "path_gated pb \<longleftrightarrow> pb_gate pb = GatePath"

definition render_native_command :: "string \<Rightarrow> path \<Rightarrow> string" where
  "render_native_command cmd dest_root =
     (if cmd = [] then []
      else replace_all dest_root_token (if dest_root = [] then dest_root_placeholder else dest_root) cmd)"

definition expand_path :: "path \<Rightarrow> path \<Rightarrow> path" where
  "expand_path home p =
     (if p = [] then []
      else if p = ''~'' then home
      else if has_prefix p ''~/'' then join_path [home, trim_prefix p ''~/'']
      else p)"

subsection \<open>The module\<close>

record offload =
  of_playbooks :: "playbook list"
  of_dest_root :: path
  of_dest_uuid :: string
  of_guard :: "path \<Rightarrow> string \<Rightarrow> machine \<Rightarrow> vol_err option \<times> machine"
  of_procs :: "string \<Rightarrow> machine \<Rightarrow> bool option \<times> machine"
  of_copy :: "path \<Rightarrow> path \<Rightarrow> machine \<Rightarrow> bool \<times> machine"
  of_probe :: "path \<Rightarrow> machine \<Rightarrow> (bool \<times> string) \<times> machine"
  of_blocks :: "path \<Rightarrow> machine \<Rightarrow> (int \<times> string option) \<times> machine"
  of_unique :: "path \<Rightarrow> machine \<Rightarrow> int option \<times> machine"
  of_freed :: "path \<Rightarrow> machine \<Rightarrow> int \<times> machine"
  of_home :: path

definition off_configured :: "offload \<Rightarrow> bool" where
  "off_configured o' \<longleftrightarrow> of_dest_root o' \<noteq> [] \<and> of_dest_uuid o' \<noteq> []"

definition playbook_for_target :: "offload \<Rightarrow> path \<Rightarrow> playbook option" where
  "playbook_for_target o' target =
     first_such (\<lambda>pb. pb_path pb \<noteq> [] \<and> clean_path (expand_path (of_home o') (pb_path pb)) = clean_path target)
       (of_playbooks o')"

datatype off_err =
    DeleteForbidden
  | UnsupportedOp string
  | NotAPlaybook
  | NotRelocatable asset_class
  | DestRefused vol_err
  | StopGate string
  | GateCheckFailed
  | DestEscapes
  | DestExists
  | DestMkdirFailed
  | CopyFailed
  | WalkSourceFailed
  | WalkCopyFailed
  | ParityFailed
  | LeftoverBackup
  | SwapFailed
  | SymlinkFailed
  | LinkVerifyFailed
  | Restored off_err
  | RestoreFailed off_err
  | BackupNotRemoved

text \<open>\<open>checkStopGate\<close>: doubt of the path prober is a use.\<close>

definition check_stop_gate :: "offload \<Rightarrow> playbook \<Rightarrow> path \<Rightarrow> machine \<Rightarrow> off_err option \<times> machine" where
  "check_stop_gate o' pb target m =
     (if path_gated pb then
        (case of_probe o' target m of ((live, proof), m1) \<Rightarrow> (if live then Some (StopGate proof) else None, m1))
      else if pb_stop_gate pb \<noteq> [] then
        (case of_procs o' (pb_stop_gate pb) m of
           (None, m1) \<Rightarrow> (Some GateCheckFailed, m1)
         | (Some running, m1) \<Rightarrow> (if running then Some (StopGate (pb_stop_gate pb)) else None, m1))
      else (None, m))"

definition escapes :: "path \<Rightarrow> path \<Rightarrow> bool" where
  "escapes dest_root dest = (case rel_path dest_root dest of None \<Rightarrow> True | Some r \<Rightarrow> has_prefix r ''..'')"

definition prepare_dest :: "offload \<Rightarrow> path \<Rightarrow> machine \<Rightarrow> off_err option \<times> machine" where
  "prepare_dest o' dest m =
     (if escapes (of_dest_root o') dest then (Some DestEscapes, m)
      else case os_lstat dest m of
        (Some _, m1) \<Rightarrow> (Some DestExists, m1)
      | (None, m1) \<Rightarrow> (case os_mkdir_all (dir_path dest) m1 of
          (None, m2) \<Rightarrow> (Some DestMkdirFailed, m2)
        | (Some _, m2) \<Rightarrow> (None, m2)))"

definition drop_dest :: "path \<Rightarrow> off_err \<Rightarrow> machine \<Rightarrow> off_err option \<times> machine" where
  "drop_dest dest e m = (Some e, snd (os_remove_all dest m))"

definition copy_or_clean :: "offload \<Rightarrow> path \<Rightarrow> path \<Rightarrow> machine \<Rightarrow> off_err option \<times> machine" where
  "copy_or_clean o' target dest m =
     (case of_copy o' target dest m of
        (False, m1) \<Rightarrow> drop_dest dest CopyFailed m1
      | (True, m1) \<Rightarrow> (case count_and_bytes target m1 of
          (None, m2) \<Rightarrow> drop_dest dest WalkSourceFailed m2
        | (Some src, m2) \<Rightarrow> (case count_and_bytes dest m2 of
            (None, m3) \<Rightarrow> drop_dest dest WalkCopyFailed m3
          | (Some dst, m3) \<Rightarrow> if src \<noteq> dst then drop_dest dest ParityFailed m3 else (None, m3))))"

definition link_and_verify :: "path \<Rightarrow> path \<Rightarrow> machine \<Rightarrow> off_err option \<times> machine" where
  "link_and_verify target dest m =
     (case os_symlink dest target m of
        (None, m1) \<Rightarrow> (Some SymlinkFailed, m1)
      | (Some _, m1) \<Rightarrow> (case os_eval_symlinks target m1 of (l, m2) \<Rightarrow>
          (case os_eval_symlinks dest m2 of (d, m3) \<Rightarrow>
             (if l = None \<or> d = None \<or> l \<noteq> d then Some LinkVerifyFailed else None, m3))))"

definition bak_of :: "path \<Rightarrow> path" where
  "bak_of target = target @ ''.noo-noo-bak''"

definition restore_original :: "path \<Rightarrow> path \<Rightarrow> off_err \<Rightarrow> machine \<Rightarrow> off_err \<times> machine" where
  "restore_original target dest cause m =
     (let m1 = snd (os_remove target m) in
      case os_rename (bak_of target) target m1 of
        (None, m2) \<Rightarrow> (RestoreFailed cause, m2)
      | (Some _, m2) \<Rightarrow> (Restored cause, snd (os_remove_all dest m2)))"

text \<open>From the copy on: swap the source aside, link, verify, drop the backup.\<close>

definition swap_and_link :: "path \<Rightarrow> path \<Rightarrow> int \<Rightarrow> machine \<Rightarrow> (off_err + int) \<times> machine" where
  "swap_and_link target dest freed m =
     (case os_lstat (bak_of target) m of
        (Some _, m1) \<Rightarrow> (Inl LeftoverBackup, snd (os_remove_all dest m1))
      | (None, m1) \<Rightarrow> (case os_rename target (bak_of target) m1 of
          (None, m2) \<Rightarrow> (Inl SwapFailed, snd (os_remove_all dest m2))
        | (Some _, m2) \<Rightarrow> (case link_and_verify target dest m2 of
            (Some cause, m3) \<Rightarrow> (case restore_original target dest cause m3 of (e, m4) \<Rightarrow> (Inl e, m4))
          | (None, m3) \<Rightarrow> (case os_remove_all (bak_of target) m3 of
              (None, m4) \<Rightarrow> (Inl BackupNotRemoved, m4)
            | (Some _, m4) \<Rightarrow> (Inr freed, m4)))))"

definition offload_apply :: "offload \<Rightarrow> mod_action \<Rightarrow> machine \<Rightarrow> (off_err + int) \<times> machine" where
  "offload_apply o' a m =
     (if ma_op a = ''delete'' then (Inl DeleteForbidden, m)
      else if ma_op a \<noteq> ''relocate'' then (Inl (UnsupportedOp (ma_op a)), m)
      else case playbook_for_target o' (ma_target a) of
        None \<Rightarrow> (Inl NotAPlaybook, m)
      | Some pb \<Rightarrow>
          if pb_class pb \<noteq> ClassRelocate then (Inl (NotRelocatable (pb_class pb)), m)
          else case of_guard o' (of_dest_root o') (of_dest_uuid o') m of
            (Some e, m1) \<Rightarrow> (Inl (DestRefused e), m1)
          | (None, m1) \<Rightarrow> (case check_stop_gate o' pb (ma_target a) m1 of
              (Some e, m2) \<Rightarrow> (Inl e, m2)
            | (None, m2) \<Rightarrow> (case prepare_dest o' (ma_dest a) m2 of
                (Some e, m3) \<Rightarrow> (Inl e, m3)
              | (None, m3) \<Rightarrow> (case copy_or_clean o' (ma_target a) (ma_dest a) m3 of
                  (Some e, m4) \<Rightarrow> (Inl e, m4)
                | (None, m4) \<Rightarrow> (case of_freed o' (ma_target a) m4 of (freed, m5) \<Rightarrow>
                    swap_and_link (ma_target a) (ma_dest a) freed m5)))))"

subsection \<open>Plan and Scan\<close>

definition playbooks_by_path :: "offload \<Rightarrow> path \<Rightarrow> playbook option" where
  "playbooks_by_path o' = map_of (rev (map (\<lambda>pb. (expand_path (of_home o') (pb_path pb), pb))
     (filter (\<lambda>pb. pb_path pb \<noteq> []) (of_playbooks o'))))"

definition plan_item :: "offload \<Rightarrow> item \<Rightarrow> mod_action option" where
  "plan_item o' it =
     (case playbooks_by_path o' (it_path it) of
        None \<Rightarrow> None
      | Some pb \<Rightarrow>
          if pb_class pb \<noteq> ClassRelocate then None
          else Some \<lparr> ma_module = ''offload'', ma_op = ''relocate'', ma_target = it_path it,
            ma_dest = join_path [of_dest_root o', pb_asset pb], ma_size = it_size it, ma_risk = RiskMedium \<rparr>)"

definition offload_plan :: "offload \<Rightarrow> report \<Rightarrow> mod_action list" where
  "offload_plan o' rep = (if \<not> off_configured o' then [] else List.map_filter (plan_item o') (rp_items rep))"

text \<open>\<open>scanPlaybook\<close>: the item of one playbook and the bytes it adds to the total.\<close>

definition put_if :: "bool \<Rightarrow> string \<Rightarrow> string \<Rightarrow> (string \<Rightarrow> string option) \<Rightarrow> string \<Rightarrow> string option" where
  "put_if b k v ev = (if b then ev(k \<mapsto> v) else ev)"

definition scan_playbook ::
  "offload \<Rightarrow> string \<Rightarrow> playbook \<Rightarrow> machine \<Rightarrow> (item \<times> int) option \<times> machine" where
  "scan_playbook o' verdict pb m =
     (let ev0 = put_if (pb_note pb \<noteq> []) ''note'' (pb_note pb)
            [''class'' \<mapsto> class_string (pb_class pb), ''asset_id'' \<mapsto> pb_asset pb, ''guard_verdict'' \<mapsto> verdict] in
      if pb_path pb = []
      then (Some (\<lparr> it_path = ''('' @ pb_asset pb @ '')'', it_size = 0, it_evidence = ev0 \<rparr>, 0), m)
      else
        let p = expand_path (of_home o') (pb_path pb) in
        case os_stat p m of
          (None, m1) \<Rightarrow> (None, m1)
        | (Some nd, m1) \<Rightarrow>
            if nd_kind nd \<noteq> KDir then (None, m1)
            else case of_blocks o' p m1 of ((sz, serr), m2) \<Rightarrow>
              let ev1 = (case serr of None \<Rightarrow> ev0 | Some t \<Rightarrow> ev0(''size_error'' \<mapsto> t))(''allocated_bytes'' \<mapsto> itoa sz);
                  (ev2, reclaim, m3) = (case pb_class pb of
                     ClassNativeConfig \<Rightarrow>
                       (ev1(''native_command'' \<mapsto> render_native_command (pb_native pb) (of_dest_root o'),
                          ''suggestion'' \<mapsto> ''use the app'' @ [CHR 0x27] @ ''s own relocation '' @ em_dash @
                            '' noo-noo will not move this (the app would regrow the store at the old path)''), 0, m2)
                   | ClassRelocate \<Rightarrow> (case of_unique o' p m2 of
                       (None, n) \<Rightarrow> (put_if (pb_never_delete pb) ''never_delete'' ''true'' ev1, sz, n)
                     | (Some u, n) \<Rightarrow> (put_if (pb_never_delete pb) ''never_delete'' ''true''
                                         (ev1(''unique_allocated_bytes'' \<mapsto> itoa u)), u, n))
                   | ClassManual \<Rightarrow> (ev1, 0, m2));
                  ev3 = (if path_gated pb then ev2(''gate'' \<mapsto> ''path'')
                         else if pb_stop_gate pb \<noteq> [] then ev2(''gate'' \<mapsto> ''process'', ''stop_gate'' \<mapsto> pb_stop_gate pb)
                         else ev2)
              in (Some (\<lparr> it_path = p, it_size = sz,
                          it_evidence = put_if (pb_parent pb \<noteq> []) ''parent_asset'' (pb_parent pb) ev3 \<rparr>, reclaim), m3))"

text \<open>\<open>scanExternalSymlinkRisks\<close>: links at the top of the home that lead under /Volumes/.\<close>

definition external_link_item :: "path \<Rightarrow> path \<Rightarrow> item" where
  "external_link_item p target = \<lparr> it_path = p, it_size = 0,
     it_evidence = [''class'' \<mapsto> ''unguarded-external-symlink'', ''target'' \<mapsto> target,
       ''risk'' \<mapsto> ''no volume-present guard: writes while the volume is unmounted land on the internal disk as a phantom directory (report-only)''] \<rparr>"

fun external_links :: "path \<Rightarrow> (string \<times> fnode) list \<Rightarrow> machine \<Rightarrow> item list \<times> machine" where
  "external_links home [] m = ([], m)"
| "external_links home ((nm, nd) # es) m =
     (case nd_kind nd of
        KLink _ \<Rightarrow>
          (let p = join_path [home, nm] in
           case os_readlink p m of
             (None, m1) \<Rightarrow> external_links home es m1
           | (Some t, m1) \<Rightarrow>
               (let target = clean_path (if is_abs t then t else join_path [home, t]) in
                case external_links home es m1 of (its, m2) \<Rightarrow>
                  (if has_prefix target ''/Volumes/'' then external_link_item p target # its else its, m2)))
      | _ \<Rightarrow> external_links home es m)"

definition scan_external_links :: "path \<Rightarrow> machine \<Rightarrow> item list \<times> machine" where
  "scan_external_links home m = (case os_read_dir home m of
     (None, m1) \<Rightarrow> ([], m1) | (Some es, m1) \<Rightarrow> external_links home es m1)"

fun scan_playbooks ::
  "offload \<Rightarrow> string \<Rightarrow> (nat \<Rightarrow> bool) \<Rightarrow> nat \<Rightarrow> playbook list \<Rightarrow> report \<Rightarrow> machine \<Rightarrow> (report \<times> bool) \<times> machine" where
  "scan_playbooks o' verdict stop n [] rep m = ((rep, True), m)"
| "scan_playbooks o' verdict stop n (pb # pbs) rep m =
     (if stop n then ((rep, False), m)
      else case scan_playbook o' verdict pb m of
        (None, m1) \<Rightarrow> scan_playbooks o' verdict stop (Suc n) pbs rep m1
      | (Some (it, k), m1) \<Rightarrow> scan_playbooks o' verdict stop (Suc n) pbs
          (rep\<lparr>rp_items := rp_items rep @ [it], rp_total := wrap64 (rp_total rep + k)\<rparr>) m1)"

text \<open>\<open>Scan\<close>: the report and whether the context let it finish; \<open>vtxt\<close> words a guard refusal.\<close>

definition offload_scan ::
  "(vol_err \<Rightarrow> string) \<Rightarrow> offload \<Rightarrow> (nat \<Rightarrow> bool) \<Rightarrow> machine \<Rightarrow> (report \<times> bool) \<times> machine" where
  "offload_scan vtxt o' stop m =
     (let (verdict, m1) =
        (if \<not> off_configured o' then (''offload disabled: set [offload] dest_root and dest_volume_uuid'', m)
         else case of_guard o' (of_dest_root o') (of_dest_uuid o') m of
           (Some e, n) \<Rightarrow> (''guard REFUSED: '' @ vtxt e, n)
         | (None, n) \<Rightarrow> (''guard ok: '' @ of_dest_root o' @ '' is volume '' @ of_dest_uuid o' @ '' and live-writable'', n))
      in case scan_playbooks o' verdict stop 0 (of_playbooks o')
                \<lparr> rp_module = ''offload'', rp_items = [], rp_total = 0 \<rparr> m1 of
           ((rep, False), m2) \<Rightarrow> ((rep, False), m2)
         | ((rep, True), m2) \<Rightarrow> (case scan_external_links (of_home o') m2 of
             (its, m3) \<Rightarrow> ((rep\<lparr>rp_items := rp_items rep @ its\<rparr>, True), m3)))"

text \<open>Only planning of relocations: one per reported relocatable asset, to its own directory.\<close>

lemma offload_plan_mem:
  assumes "a \<in> set (offload_plan o' rep)"
  shows "off_configured o' \<and> ma_op a = ''relocate'' \<and> (\<exists>pb \<in> set (of_playbooks o'). pb_class pb = ClassRelocate
    \<and> pb_path pb \<noteq> [] \<and> ma_target a = expand_path (of_home o') (pb_path pb)
    \<and> ma_dest a = join_path [of_dest_root o', pb_asset pb])"
proof -
  obtain it where c: "off_configured o'" and e: "plan_item o' it = Some a"
    using assms by (auto simp: offload_plan_def map_filter_def split: if_splits)
  then obtain pb where pb: "playbooks_by_path o' (it_path it) = Some pb" "pb_class pb = ClassRelocate"
    and a: "ma_op a = ''relocate''" "ma_target a = it_path it" "ma_dest a = join_path [of_dest_root o', pb_asset pb]"
    by (auto simp: plan_item_def split: option.splits if_splits)
  have "(it_path it, pb) \<in> set (map (\<lambda>pb. (expand_path (of_home o') (pb_path pb), pb))
      (filter (\<lambda>pb. pb_path pb \<noteq> []) (of_playbooks o')))"
    using map_of_SomeD [OF pb(1) [unfolded playbooks_by_path_def]] by simp
  with pb a c show ?thesis by auto
qed

end
