(* ===== verification/OffloadSafe.thy ===== *)
theory OffloadSafe
  imports Offload
begin

text \<open>
  What \<open>Apply\<close> of the offload module does to the data it moves, for every pattern of failing system
  calls. \<open>T\<close> is the location of the source, \<open>B\<close> that of its backup name, \<open>D\<close> that of the
  destination; \<open>outer\<close> is everything else.
\<close>

subsection \<open>Paths and locations\<close>

definition bak_loc :: "loc \<Rightarrow> loc" where
  "bak_loc T = butlast T @ [last T @ ''.noo-noo-bak'']"

lemma join_with_snoc:
  "join_with sep (xs @ [w @ s]) = join_with sep (xs @ [w]) @ s"
  by (induction sep xs rule: join_with.induct) auto

lemma bak_of_render: "T \<noteq> [] \<Longrightarrow> bak_of (render_path True T) = render_path True (bak_loc T)"
  using join_with_snoc [of "''/''" "butlast T" "last T" "''.noo-noo-bak''"]
  by (simp add: bak_of_def bak_loc_def render_path_def)

lemma plain_comp_bak: "plain_comp w \<Longrightarrow> plain_comp (w @ ''.noo-noo-bak'')"
proof -
  assume w: "plain_comp w"
  have "length (w @ ''.noo-noo-bak'') > 2" by simp
  then have "w @ ''.noo-noo-bak'' \<noteq> ''.''" "w @ ''.noo-noo-bak'' \<noteq> ''..''"
    by (metis One_nat_def Suc_1 length_Cons less_numeral_extra(4) list.size(3) not_less_eq less_Suc_eq)+
  with w show ?thesis by (auto simp: plain_comp_def)
qed

lemma plain_bak: "T \<noteq> [] \<Longrightarrow> \<forall>w \<in> set T. plain_comp w \<Longrightarrow> \<forall>w \<in> set (bak_loc T). plain_comp w"
  by (auto simp: bak_loc_def plain_comp_bak dest: in_set_butlastD)

lemma parallel_bak: "T \<noteq> [] \<Longrightarrow> parallel T (bak_loc T)"
proof -
  assume T: "T \<noteq> []"
  have len: "length (bak_loc T) = length T" using T by (simp add: bak_loc_def)
  have "T \<noteq> bak_loc T"
  proof
    assume "T = bak_loc T"
    then have "last T = last T @ ''.noo-noo-bak''" by (metis bak_loc_def last_snoc)
    then show False by simp
  qed
  then show ?thesis using len by (intro not_equal_is_parallel) simp_all
qed

subsection \<open>The site of a move\<close>

definition site_shape :: "loc \<Rightarrow> loc \<Rightarrow> bool" where
  "site_shape T D \<longleftrightarrow> T \<noteq> [] \<and> D \<noteq> [] \<and> (\<forall>w \<in> set (T @ D). plain_comp w)
     \<and> parallel T D \<and> parallel (bak_loc T) D"

text \<open>The source's ancestors are directories, the destination's no links.\<close>

definition site :: "loc \<Rightarrow> loc \<Rightarrow> fs \<Rightarrow> bool" where
  "site T D f \<longleftrightarrow> (\<forall>k \<in> set (prefixes T). k \<noteq> T \<longrightarrow> is_dir_at f k)
     \<and> (\<forall>k \<in> set (prefixes D). k \<noteq> D \<longrightarrow> \<not> link_at f k)"

definition outer :: "loc \<Rightarrow> loc \<Rightarrow> fs \<Rightarrow> fs" where
  "outer T D f = filter (\<lambda>(k, n). \<not> prefix T k \<and> \<not> prefix (bak_loc T) k \<and> \<not> prefix D k) f"

text \<open>Outside, only missing ancestors of the destination have appeared.\<close>

definition framed :: "loc \<Rightarrow> loc \<Rightarrow> fs \<Rightarrow> fs \<Rightarrow> bool" where
  "framed T D f g \<longleftrightarrow> (\<exists>new. outer T D g = outer T D f @ new
     \<and> (\<forall>(k, n) \<in> set new. n = new_node KDir \<and> strict_prefix k D))"

lemma framed_refl [simp]: "outer T D g = outer T D f \<Longrightarrow> framed T D f g"
  by (simp add: framed_def)

lemma framed_trans: "framed T D f g \<Longrightarrow> framed T D g h \<Longrightarrow> framed T D f h"
  unfolding framed_def by (elim exE conjE) (rule_tac x = "new @ newa" in exI, auto)

lemma framed_outer: "framed T D f g \<Longrightarrow> outer T D h = outer T D g \<Longrightarrow> framed T D f h"
  by (simp add: framed_def)

lemma above_outside:
  assumes "site_shape T D" "strict_prefix k T \<or> strict_prefix k D"
  shows "\<not> prefix T k \<and> \<not> prefix (bak_loc T) k \<and> \<not> prefix D k"
proof -
  have p: "parallel T D" "parallel (bak_loc T) D" "parallel T (bak_loc T)"
    using assms(1) parallel_bak by (auto simp: site_shape_def)
  from assms(2) show ?thesis
  proof
    assume k: "strict_prefix k T"
    then have "\<not> prefix T k" by (auto simp: strict_prefix_def dest: prefix_order.antisym)
    moreover have "\<not> prefix X k" if "parallel T X" for X
      using k that by (metis parallelD2 prefix_order.trans strict_prefix_def)
    ultimately show ?thesis using p by (simp add: parallel_commute)
  next
    assume k: "strict_prefix k D"
    then have "\<not> prefix D k" by (auto simp: strict_prefix_def dest: prefix_order.antisym)
    moreover have "\<not> prefix X k" if "parallel X D" for X
      using k that by (metis parallelD1 prefix_order.trans strict_prefix_def)
    ultimately show ?thesis using p by simp
  qed
qed

lemma framed_above:
  assumes "site_shape T D" "framed T D f g" "strict_prefix k T \<or> strict_prefix k D"
  shows "node_at g k = node_at f k \<or> node_at f k = None \<and> node_at g k = Some (new_node KDir)"
proof -
  have o: "map_of (outer T D h) k = map_of h k" for h
    unfolding outer_def using above_outside [OF assms(1,3)] by (rule map_of_filter_key)
  obtain new where new: "outer T D g = outer T D f @ new"
    "\<forall>(k, n) \<in> set new. n = new_node KDir \<and> strict_prefix k D"
    using assms(2) by (auto simp: framed_def)
  have "map_of g k = map_of (outer T D f @ new) k" using o [of g] new(1) by simp
  then have "map_of g k = (case map_of f k of None \<Rightarrow> map_of new k | Some n \<Rightarrow> Some n)"
    by (simp add: map_add_def o split: option.splits)
  moreover have "map_of new k = None \<or> map_of new k = Some (new_node KDir)"
    using new(2) by (cases "map_of new k") (auto dest!: map_of_SomeD)
  ultimately show ?thesis by (auto simp: node_at_def fs_get_def split: option.splits)
qed

lemma framed_site:
  assumes "site_shape T D" "framed T D f g" "site T D f"
  shows "site T D g"
proof -
  have "is_dir_at g k" if k: "prefix k T" "k \<noteq> T" for k
  proof -
    have "is_dir_at f k" using assms(3) k by (simp add: site_def)
    with framed_above [OF assms(1,2), of k] k show ?thesis
      by (auto simp: is_dir_at_def strict_prefix_def)
  qed
  moreover have "\<not> link_at g k" if k: "prefix k D" "k \<noteq> D" for k
  proof -
    have "\<not> link_at f k" using assms(3) k by (simp add: site_def)
    with framed_above [OF assms(1,2), of k] k show ?thesis
      by (auto simp: link_at_def strict_prefix_def new_node_def)
  qed
  ultimately show ?thesis by (simp add: site_def)
qed

lemma site_source: "site_shape T D \<Longrightarrow> site T D f \<Longrightarrow> lloc f (render_path True T) = Some T"
  by (rule lloc_dirs) (auto simp: site_shape_def site_def strict_prefix_def)

lemma site_bak: "site_shape T D \<Longrightarrow> site T D f \<Longrightarrow> lloc f (bak_of (render_path True T)) = Some (bak_loc T)"
proof -
  assume a: "site_shape T D" "site T D f"
  then have T: "T \<noteq> []" by (simp add: site_shape_def)
  have "lloc f (render_path True (bak_loc T)) = Some (bak_loc T)"
  proof (rule lloc_dirs)
    show "bak_loc T \<noteq> []" by (simp add: bak_loc_def)
    show "\<forall>w \<in> set (bak_loc T). plain_comp w"
      using a T by (intro plain_bak) (auto simp: site_shape_def)
    show "\<forall>k. strict_prefix k (bak_loc T) \<longrightarrow> is_dir_at f k"
    proof (intro allI impI)
      fix k assume "strict_prefix k (bak_loc T)"
      then have "prefix k (butlast T)" by (auto simp: bak_loc_def strict_prefix_def)
      moreover have "butlast T \<noteq> T" using T by (metis append_butlast_last_id butlast_snoc not_Cons_self2 self_append_conv)
      moreover have "prefix (butlast T) T" by (rule prefixeq_butlast)
      ultimately show "is_dir_at f k" using a(2) unfolding site_def
        by (metis in_set_prefixes prefix_order.dual_order.antisym prefix_order.trans)
    qed
  qed
  with T show ?thesis by (simp add: bak_of_render)
qed

lemma site_dest:
  "site_shape T D \<Longrightarrow> site T D f \<Longrightarrow> lloc f (render_path True D) = Some q \<Longrightarrow> q = D"
  by (rule lloc_no_links) (auto simp: site_shape_def site_def strict_prefix_def)

subsection \<open>What each step leaves\<close>

lemma outer_frame:
  assumes "remove_tree X g = remove_tree X f" "X = T \<or> X = bak_loc T \<or> X = D"
  shows "outer T D g = outer T D f"
proof -
  have "outer T D h = outer T D (remove_tree X h)" for h
    using assms(2) by (auto simp: outer_def remove_tree_def filter_filter split_def intro!: filter_cong)
  with assms(1) show ?thesis by metis
qed

lemma site_same: "site_shape T D \<Longrightarrow> outer T D g = outer T D f \<Longrightarrow> site T D f \<Longrightarrow> site T D g"
  by (rule framed_site [of T D f]) simp_all

lemma shape_parallel:
  assumes "site_shape T D"
  shows "parallel T D" "parallel D T" "parallel (bak_loc T) D" "parallel D (bak_loc T)"
    "parallel T (bak_loc T)" "parallel (bak_loc T) T" "T \<noteq> bak_loc T"
  using assms parallel_bak [of T] by (auto simp: site_shape_def parallel_commute)

lemma drop_dest_view:
  assumes "site_shape T D" "site T D (mc_fs m)" "m' = snd (os_remove_all (render_path True D) m)"
  shows "outer T D (mc_fs m') = outer T D (mc_fs m)" "subtree (mc_fs m') T = subtree (mc_fs m) T"
    "subtree (mc_fs m') (bak_loc T) = subtree (mc_fs m) (bak_loc T)"
proof -
  have fr: "remove_tree D (mc_fs m') = remove_tree D (mc_fs m)"
    unfolding assms(3) using site_dest [OF assms(1,2)] by (rule os_remove_all_frame)
  show "outer T D (mc_fs m') = outer T D (mc_fs m)" by (rule outer_frame [OF fr]) simp
  show "subtree (mc_fs m') T = subtree (mc_fs m) T"
    by (rule subtree_frame [OF fr]) (rule shape_parallel [OF assms(1)])
  show "subtree (mc_fs m') (bak_loc T) = subtree (mc_fs m) (bak_loc T)"
    by (rule subtree_frame [OF fr]) (rule shape_parallel [OF assms(1)])
qed

lemma move_view:
  assumes "site_shape T D" "X = T \<and> Y = bak_loc T \<or> X = bak_loc T \<and> Y = T"
    "g = move_tree X Y (remove_tree Y f)"
  shows "outer T D g = outer T D f" "subtree g Y = subtree f X" "subtree g X = []" "subtree g D = subtree f D"
proof -
  have XY: "parallel X Y" using assms(2) shape_parallel [OF assms(1)] by auto
  show "subtree g Y = subtree f X" unfolding assms(3) by (rule move_subtree [OF XY])
  show "subtree g X = []" unfolding assms(3) by (rule move_source [OF XY])
  show "subtree g D = subtree f D"
    unfolding assms(3) by (rule move_apart) (use assms(2) shape_parallel [OF assms(1)] in auto)
  show "outer T D g = outer T D f"
    unfolding assms(3) outer_def by (rule move_filter) (use assms(2) in auto)
qed

lemma symlink_view:
  assumes "site_shape T D" "g = f @ [(T, new_node (KLink d))]" "subtree f T = []"
  shows "outer T D g = outer T D f" "subtree g T = [([], new_node (KLink d))]"
    "subtree g (bak_loc T) = subtree f (bak_loc T)" "subtree g D = subtree f D"
proof -
  have fr: "remove_tree T g = remove_tree T f" by (simp add: assms(2) remove_tree_def)
  show "outer T D g = outer T D f" by (rule outer_frame [OF fr]) simp
  show "subtree g T = [([], new_node (KLink d))]" by (simp add: assms(2,3) subtree_append subtree_single)
  show "subtree g (bak_loc T) = subtree f (bak_loc T)"
    by (rule subtree_frame [OF fr]) (rule shape_parallel [OF assms(1)])
  show "subtree g D = subtree f D" by (rule subtree_frame [OF fr]) (rule shape_parallel [OF assms(1)])
qed

lemma mkdirs_view:
  assumes "\<forall>k. strict_prefix k D \<longrightarrow> \<not> link_at (mc_fs m) k"
    "strict_prefix (dn @ cs) D" "\<forall>w \<in> set cs. plain_comp w" "mkdirs dn cs m = (r, m')"
  shows "\<exists>new. mc_fs m' = mc_fs m @ new \<and> (\<forall>(k, n) \<in> set new. n = new_node KDir \<and> strict_prefix k D)"
  using assms
proof (induction cs arbitrary: dn m)
  case Nil
  then show ?case by simp
next
  case (Cons c cs)
  have c: "plain_comp c" using Cons.prems(3) by simp
  have sp: "strict_prefix (dn @ [c]) D"
    using Cons.prems(2) by (metis append.assoc append_Cons append_Nil prefix_order.le_less_trans prefixI)
  have nl: "\<not> link_at (mc_fs m) (dn @ [c])" using Cons.prems(1) sp by blast
  have res: "resolve (mc_fs m) True max_symlinks dn [c] = Some (dn @ [c])"
    using c nl by (auto simp: plain_comp_def link_at_def split: option.splits kind.splits)
  obtain q m1 where s: "sys (mkdir_step dn c) m = (q, m1)" by fastforce
  show ?case
  proof (cases q)
    case None
    with s sys_cases [OF s] Cons.prems(4) show ?thesis by auto
  next
    case (Some l)
    then have st: "mkdir_step dn c (mc_fs m) = Some (l, mc_fs m1)" using sys_cases [OF s] by auto
    then have l: "l = dn @ [c]" and m1: "mc_fs m1 = mc_fs m \<or> mc_fs m1 = mc_fs m @ [(l, new_node KDir)]"
      by (auto simp: mkdir_step_def res simp del: resolve.simps split: if_splits)
    have "\<not> link_at (mc_fs m1) k" if "strict_prefix k D" for k
      using Cons.prems(1) that m1
      by (auto simp: link_at_def node_at_append new_node_def split: option.splits if_splits)
    then obtain new where "mc_fs m' = mc_fs m1 @ new"
      "\<forall>(k, n) \<in> set new. n = new_node KDir \<and> strict_prefix k D"
      using Cons.IH [of m1 "dn @ [c]"] Cons.prems(2,3,4) s Some l by auto
    moreover have "\<exists>pre. mc_fs m1 = mc_fs m @ pre \<and> (\<forall>(k, n) \<in> set pre. n = new_node KDir \<and> strict_prefix k D)"
      using m1
    proof
      assume "mc_fs m1 = mc_fs m"
      then show ?thesis by (intro exI [of _ "[]"]) simp
    next
      assume "mc_fs m1 = mc_fs m @ [(l, new_node KDir)]"
      then show ?thesis using l sp by (intro exI [of _ "[(l, new_node KDir)]"]) simp
    qed
    ultimately show ?thesis by (elim exE conjE) (rule_tac x = "pre @ new" in exI, auto)
  qed
qed

lemma outer_append: "outer T D (f @ g) = outer T D f @ outer T D g"
  by (simp add: outer_def)

lemma mkdir_all_view:
  assumes "site_shape T D" "site T D (mc_fs m)" "os_mkdir_all (dir_path (render_path True D)) m = (r, m')"
  shows "framed T D (mc_fs m) (mc_fs m')" "subtree (mc_fs m') T = subtree (mc_fs m) T"
proof -
  have D: "D \<noteq> []" "\<forall>w \<in> set D. plain_comp w" using assms(1) by (auto simp: site_shape_def)
  have nl: "\<forall>k. strict_prefix k D \<longrightarrow> \<not> link_at (mc_fs m) k"
    using assms(2) by (auto simp: site_def strict_prefix_def)
  have bl: "strict_prefix (butlast D) D" using D(1)
    by (metis append_butlast_last_id prefixI strict_prefix_def butlast_snoc not_Cons_self2 self_append_conv)
  have pl: "\<forall>w \<in> set (butlast D). plain_comp w" using D(2) by (auto dest: in_set_butlastD)
  have emp: "mkdirs [] ([] # cs) m = (case sys (mkdir_step [] []) m of (None, n) \<Rightarrow> (None, n) | (Some q, n) \<Rightarrow> mkdirs q cs n)"
    for cs by simp
  obtain q m1 where s: "sys (mkdir_step [] []) m = (q, m1)" by fastforce
  have m1: "mc_fs m1 = mc_fs m" "q = None \<or> q = Some []"
    using sys_cases [OF s] by (auto simp: mkdir_step_def is_dir_at_def node_at_def split: if_splits)
  have "\<exists>new. mc_fs m' = mc_fs m @ new \<and> (\<forall>(k, n) \<in> set new. n = new_node KDir \<and> strict_prefix k D)"
  proof (cases "butlast D = []")
    case True
    then have "dir_path (render_path True D) = [slash]" using dir_path_render [OF D] by (simp add: render_path_def)
    then have "mkdirs [] [[], []] m = (r, m')" using assms(3) by (simp add: os_mkdir_all_def)
    then have "mc_fs m' = mc_fs m"
    proof -
      obtain q2 m2 where s2: "sys (mkdir_step [] []) m1 = (q2, m2)" by fastforce
      have "mc_fs m2 = mc_fs m1"
        using sys_cases [OF s2] by (auto simp: mkdir_step_def is_dir_at_def node_at_def split: if_splits)
      with \<open>mkdirs [] [[], []] m = (r, m')\<close> s s2 m1 show ?thesis by (auto split: option.splits)
    qed
    then show ?thesis by simp
  next
    case False
    have "os_mkdir_all (dir_path (render_path True D)) m = mkdirs [] ([] # butlast D) m"
      by (simp only: os_mkdir_all_def dir_path_render [OF D] split_render [OF False pl])
    then have "(case (q, m1) of (None, n) \<Rightarrow> (None, n) | (Some q, n) \<Rightarrow> mkdirs q (butlast D) n) = (r, m')"
      using assms(3) emp s by simp
    with m1 consider "m' = m1" | "mkdirs [] (butlast D) m1 = (r, m')" by auto
    then show ?thesis
    proof cases
      case 2
      with mkdirs_view [of D m1 "[]" "butlast D" r m'] nl bl pl m1 show ?thesis by simp
    qed (use m1 in simp)
  qed
  then obtain new where new: "mc_fs m' = mc_fs m @ new"
    "\<forall>(k, n) \<in> set new. n = new_node KDir \<and> strict_prefix k D" by blast
  have out: "\<not> prefix T k \<and> \<not> prefix (bak_loc T) k \<and> \<not> prefix D k" if "(k, n) \<in> set new" for k n
    using new(2) that by (intro above_outside [OF assms(1)]) auto
  then have "outer T D new = new" by (auto simp: outer_def filter_id_conv)
  then show "framed T D (mc_fs m) (mc_fs m')"
    using new by (auto simp: framed_def outer_append)
  have "subtree new T = []" using out by (auto simp: subtree_Nil_iff)
  then show "subtree (mc_fs m') T = subtree (mc_fs m) T" by (simp add: new(1) subtree_append)
qed

subsection \<open>Swap, link and rollback\<close>

lemma link_and_verify_view:
  assumes "site_shape T D" "site T D (mc_fs m)" "subtree (mc_fs m) T = []"
    "link_and_verify (render_path True T) (render_path True D) m = (r, m')"
  shows "outer T D (mc_fs m') = outer T D (mc_fs m)"
    "subtree (mc_fs m') (bak_loc T) = subtree (mc_fs m) (bak_loc T)"
    "subtree (mc_fs m') D = subtree (mc_fs m) D"
    "r = None \<Longrightarrow> subtree (mc_fs m') T = [([], new_node (KLink (render_path True D)))]"
proof -
  obtain q m1 where s: "os_symlink (render_path True D) (render_path True T) m = (q, m1)" by fastforce
  note c = os_symlink_cases [OF s site_source [OF assms(1,2)]]
  have m': "mc_fs m' = mc_fs m1 \<and> (r = None \<longrightarrow> q \<noteq> None)"
  proof (cases q)
    case None
    with assms(4) s show ?thesis by (auto simp: link_and_verify_def)
  next
    case (Some u)
    obtain l m2 where l: "os_eval_symlinks (render_path True T) m1 = (l, m2)" by fastforce
    obtain d m3 where d: "os_eval_symlinks (render_path True D) m2 = (d, m3)" by fastforce
    have "mc_fs m2 = mc_fs m1" "mc_fs m3 = mc_fs m2"
      using os_eval_symlinks_fs [of "render_path True T" m1] os_eval_symlinks_fs [of "render_path True D" m2]
      by (simp_all add: l d)
    moreover have "m' = m3" using assms(4) s l d Some by (simp add: link_and_verify_def)
    ultimately show ?thesis using Some by simp
  qed
  have v: "mc_fs m1 = mc_fs m \<and> q = None \<or> outer T D (mc_fs m1) = outer T D (mc_fs m)
      \<and> subtree (mc_fs m1) (bak_loc T) = subtree (mc_fs m) (bak_loc T) \<and> subtree (mc_fs m1) D = subtree (mc_fs m) D
      \<and> subtree (mc_fs m1) T = [([], new_node (KLink (render_path True D)))]"
    using c
  proof
    assume "mc_fs m1 = mc_fs m @ [(T, new_node (KLink (render_path True D)))] \<and> fs_get (mc_fs m) T = None \<and> q = Some ()"
    then have "mc_fs m1 = mc_fs m @ [(T, new_node (KLink (render_path True D)))]" ..
    from symlink_view [OF assms(1) this assms(3)] show ?thesis by simp
  qed simp
  show "outer T D (mc_fs m') = outer T D (mc_fs m)" using v m' by auto
  show "subtree (mc_fs m') (bak_loc T) = subtree (mc_fs m) (bak_loc T)" using v m' by auto
  show "subtree (mc_fs m') D = subtree (mc_fs m) D" using v m' by auto
  show "subtree (mc_fs m') T = [([], new_node (KLink (render_path True D)))]" if "r = None" using v m' that by auto
qed

lemma restore_view:
  assumes "site_shape T D" "site T D (mc_fs m)"
    "restore_original (render_path True T) (render_path True D) cause m = (e, m')"
  shows "outer T D (mc_fs m') = outer T D (mc_fs m)"
    "e = Restored cause \<and> subtree (mc_fs m') T = subtree (mc_fs m) (bak_loc T)
     \<or> e = RestoreFailed cause \<and> subtree (mc_fs m') (bak_loc T) = subtree (mc_fs m) (bak_loc T)"
proof -
  obtain q m1 where s: "os_remove (render_path True T) m = (q, m1)" by fastforce
  have fr: "remove_tree T (mc_fs m1) = remove_tree T (mc_fs m)"
    using os_remove_cases [OF s site_source [OF assms(1,2)]] by auto
  have o1: "outer T D (mc_fs m1) = outer T D (mc_fs m)" by (rule outer_frame [OF fr]) simp
  have b1: "subtree (mc_fs m1) (bak_loc T) = subtree (mc_fs m) (bak_loc T)"
    by (rule subtree_frame [OF fr]) (rule shape_parallel [OF assms(1)])
  have s1: "site T D (mc_fs m1)" by (rule site_same [OF assms(1) o1 assms(2)])
  obtain u m2 where r: "os_rename (bak_of (render_path True T)) (render_path True T) m1 = (u, m2)" by fastforce
  consider "mc_fs m2 = mc_fs m1" "u = None"
    | "mc_fs m2 = move_tree (bak_loc T) T (remove_tree T (mc_fs m1))" "u = Some ()"
    using os_rename_cases [OF r site_bak [OF assms(1) s1] site_source [OF assms(1) s1]]
      shape_parallel(7) [OF assms(1)] by auto
  then have "outer T D (mc_fs m') = outer T D (mc_fs m) \<and>
     (e = Restored cause \<and> subtree (mc_fs m') T = subtree (mc_fs m) (bak_loc T)
      \<or> e = RestoreFailed cause \<and> subtree (mc_fs m') (bak_loc T) = subtree (mc_fs m) (bak_loc T))"
  proof cases
    case 1
    with assms(3) s r o1 b1 show ?thesis by (simp add: restore_original_def)
  next
    case 2
    note mv = move_view [OF assms(1) disjI2 [OF conjI [OF refl refl]] 2(1)]
    have s2: "site T D (mc_fs m2)" by (rule site_same [OF assms(1) mv(1) s1])
    have m': "m' = snd (os_remove_all (render_path True D) m2)" "e = Restored cause"
      using assms(3) s r 2 by (simp_all add: restore_original_def)
    show ?thesis
      using drop_dest_view [OF assms(1) s2 m'(1)] mv o1 b1 m'(2) by simp
  qed
  then show "outer T D (mc_fs m') = outer T D (mc_fs m)"
    "e = Restored cause \<and> subtree (mc_fs m') T = subtree (mc_fs m) (bak_loc T)
     \<or> e = RestoreFailed cause \<and> subtree (mc_fs m') (bak_loc T) = subtree (mc_fs m) (bak_loc T)" by blast+
qed

text \<open>What is kept of the data \<open>S\<close> of the source and the copy \<open>C\<close> at the destination.\<close>

definition outcome_ok :: "loc \<Rightarrow> loc \<Rightarrow> fs \<Rightarrow> fs \<Rightarrow> (off_err + int) \<Rightarrow> fs \<Rightarrow> bool" where
  "outcome_ok T D S C r g \<longleftrightarrow>
     (case r of
        Inr n \<Rightarrow> subtree g T = [([], new_node (KLink (render_path True D)))] \<and> subtree g D = C \<and> subtree g (bak_loc T) = []
      | Inl (RestoreFailed e) \<Rightarrow> subtree g (bak_loc T) = S
      | Inl BackupNotRemoved \<Rightarrow> subtree g T = [([], new_node (KLink (render_path True D)))] \<and> subtree g D = C
      | Inl e \<Rightarrow> subtree g T = S)"

lemma swap_and_link_view:
  assumes "site_shape T D" "site T D (mc_fs m)"
    "swap_and_link (render_path True T) (render_path True D) freed m = (r, m')"
  shows "outer T D (mc_fs m') = outer T D (mc_fs m)
    \<and> outcome_ok T D (subtree (mc_fs m) T) (subtree (mc_fs m) D) r (mc_fs m')"
proof -
  let ?t = "render_path True T" and ?d = "render_path True D" and ?B = "bak_loc T"
  obtain x m1 where l: "os_lstat (bak_of ?t) m = (x, m1)" by fastforce
  have m1: "mc_fs m1 = mc_fs m" using os_lstat_fs [of "bak_of ?t" m] by (simp add: l)
  have s1: "site T D (mc_fs m1)" using assms(2) m1 by simp
  show ?thesis
  proof (cases x)
    case (Some nd)
    then have "m' = snd (os_remove_all ?d m1)" "r = Inl LeftoverBackup"
      using assms(3) l by (simp_all add: swap_and_link_def)
    with drop_dest_view [OF assms(1) s1 this(1)] m1 show ?thesis by (simp add: outcome_ok_def)
  next
    case None
    obtain u m2 where rn: "os_rename ?t (bak_of ?t) m1 = (u, m2)" by fastforce
    consider "mc_fs m2 = mc_fs m1" "u = None" | "mc_fs m2 = move_tree T ?B (remove_tree ?B (mc_fs m1))" "u = Some ()"
      using os_rename_cases [OF rn site_source [OF assms(1) s1] site_bak [OF assms(1) s1]]
        shape_parallel(7) [OF assms(1)] by auto
    then show ?thesis
    proof cases
      case 1
      then have m': "m' = snd (os_remove_all ?d m2)" "r = Inl SwapFailed"
        using assms(3) l None rn by (simp_all add: swap_and_link_def)
      have "site T D (mc_fs m2)" using s1 1 by simp
      with drop_dest_view [OF assms(1) this m'(1)] m1 1 m' show ?thesis by (simp add: outcome_ok_def)
    next
      case 2
      note mv = move_view [OF assms(1) disjI1 [OF conjI [OF refl refl]] 2(1)]
      have s2: "site T D (mc_fs m2)" by (rule site_same [OF assms(1) mv(1) s1])
      obtain c m3 where lk: "link_and_verify ?t ?d m2 = (c, m3)" by fastforce
      note lv = link_and_verify_view [OF assms(1) s2 mv(3) lk]
      have s3: "site T D (mc_fs m3)" by (rule site_same [OF assms(1) lv(1) s2])
      show ?thesis
      proof (cases c)
        case (Some cause)
        obtain e m4 where rs: "restore_original ?t ?d cause m3 = (e, m4)" by fastforce
        then have "r = Inl e" "m' = m4"
          using assms(3) l None rn 2 lk Some by (simp_all add: swap_and_link_def)
        then show ?thesis
          using restore_view [OF assms(1) s3 rs] lv mv m1 by (auto simp: outcome_ok_def)
      next
        case c: None
        obtain v m4 where rb: "os_remove_all (bak_of ?t) m3 = (v, m4)" by fastforce
        have r: "r = (case v of None \<Rightarrow> Inl BackupNotRemoved | Some _ \<Rightarrow> Inr freed)" "m' = m4"
          using assms(3) l None rn 2 lk c rb by (simp_all add: swap_and_link_def split: option.splits)
        have B3: "lloc (mc_fs m3) (bak_of ?t) = Some ?B" by (rule site_bak [OF assms(1) s3])
        have fr: "remove_tree ?B (mc_fs m4) = remove_tree ?B (mc_fs m3)"
          using os_remove_all_frame [of m3 "bak_of ?t" ?B] B3 by (simp add: rb)
        have "outer T D (mc_fs m4) = outer T D (mc_fs m3)" by (rule outer_frame [OF fr]) simp
        moreover have "subtree (mc_fs m4) T = subtree (mc_fs m3) T"
          by (rule subtree_frame [OF fr]) (rule shape_parallel [OF assms(1)])
        moreover have "subtree (mc_fs m4) D = subtree (mc_fs m3) D"
          by (rule subtree_frame [OF fr]) (rule shape_parallel [OF assms(1)])
        moreover have "subtree (mc_fs m4) ?B = []" if "v = Some ()"
          using os_remove_all_Some [OF _ B3] rb that by auto
        ultimately show ?thesis
          using r lv(1,3) lv(4) [OF c] mv(1,4) m1
          by (cases v) (simp_all add: outcome_ok_def)
      qed
    qed
  qed
qed

subsection \<open>Apply\<close>

text \<open>The parity the code demands of a copy: as many regular files, as many bytes.\<close>

definition parity :: "fs \<Rightarrow> fs \<Rightarrow> bool" where
  "parity S C \<longleftrightarrow> count_files S = count_files C \<and> wrap64 (sum_files nd_size S) = wrap64 (sum_files nd_size C)"

lemma copy_or_clean_view:
  assumes "site_shape T D" "site T D (mc_fs m)"
    "\<forall>n. site T D (mc_fs n) \<longrightarrow> remove_tree D (mc_fs (snd (of_copy o' (render_path True T) (render_path True D) n))) = remove_tree D (mc_fs n)"
    "copy_or_clean o' (render_path True T) (render_path True D) m = (r, m')"
  shows "outer T D (mc_fs m') = outer T D (mc_fs m)" "subtree (mc_fs m') T = subtree (mc_fs m) T"
    "r = None \<Longrightarrow> parity (subtree (mc_fs m) T) (subtree (mc_fs m') D)"
    "r \<noteq> Some BackupNotRemoved" "\<not> (\<exists>e. r = Some (RestoreFailed e))"
proof -
  let ?t = "render_path True T" and ?d = "render_path True D"
  obtain ok m1 where c: "of_copy o' ?t ?d m = (ok, m1)" by fastforce
  have fr: "remove_tree D (mc_fs m1) = remove_tree D (mc_fs m)" using assms(3) [rule_format, OF assms(2)] by (simp add: c)
  have o1: "outer T D (mc_fs m1) = outer T D (mc_fs m)" by (rule outer_frame [OF fr]) simp
  have t1: "subtree (mc_fs m1) T = subtree (mc_fs m) T"
    by (rule subtree_frame [OF fr]) (rule shape_parallel [OF assms(1)])
  obtain x m2 where x: "count_and_bytes ?t m1 = (x, m2)" by fastforce
  obtain y m3 where y: "count_and_bytes ?d m2 = (y, m3)" by fastforce
  have fs: "mc_fs m2 = mc_fs m1" "mc_fs m3 = mc_fs m1"
    using count_and_bytes_fs [of ?t m1] count_and_bytes_fs [of ?d m2] by (simp_all add: x y)
  have site1: "site T D (mc_fs m1)" by (rule site_same [OF assms(1) o1 assms(2)])
  have dropped: "outer T D (mc_fs m') = outer T D (mc_fs m) \<and> subtree (mc_fs m') T = subtree (mc_fs m) T
    \<and> (r = None \<longrightarrow> parity (subtree (mc_fs m) T) (subtree (mc_fs m') D))
    \<and> r \<noteq> Some BackupNotRemoved \<and> \<not> (\<exists>e. r = Some (RestoreFailed e))"
    if d: "drop_dest ?d e n = (r, m')" "mc_fs n = mc_fs m1" "e \<noteq> BackupNotRemoved" "\<not> (\<exists>x. e = RestoreFailed x)" for e n
  proof -
    have mr: "m' = snd (os_remove_all ?d n)" "r = Some e" using d(1) by (auto simp: drop_dest_def)
    have "site T D (mc_fs n)" using site1 d(2) by simp
    from drop_dest_view [OF assms(1) this mr(1)] show ?thesis using o1 t1 d mr(2) by simp
  qed
  consider e n where "drop_dest ?d e n = (r, m')" "mc_fs n = mc_fs m1" "e \<noteq> BackupNotRemoved" "\<not> (\<exists>x. e = RestoreFailed x)"
    | v where "r = None" "m' = m3" "x = Some v" "y = Some v"
  proof (cases "ok \<and> x \<noteq> None \<and> y \<noteq> None \<and> x = y")
    case True
    with assms(4) c x y that(2) show ?thesis by (auto simp: copy_or_clean_def)
  next
    case False
    with assms(4) c x y fs have "\<exists>e n. drop_dest ?d e n = (r, m') \<and> mc_fs n = mc_fs m1 \<and> e \<noteq> BackupNotRemoved
        \<and> \<not> (\<exists>x. e = RestoreFailed x)"
      by (cases ok; cases x; cases y) (auto simp: copy_or_clean_def)
    with that(1) show ?thesis by blast
  qed
  then have *: "outer T D (mc_fs m') = outer T D (mc_fs m) \<and> subtree (mc_fs m') T = subtree (mc_fs m) T
    \<and> (r = None \<longrightarrow> parity (subtree (mc_fs m) T) (subtree (mc_fs m') D))
    \<and> r \<noteq> Some BackupNotRemoved \<and> \<not> (\<exists>e. r = Some (RestoreFailed e))"
  proof cases
    case 1
    from dropped [OF this] show ?thesis .
  next
    case (2 v)
    obtain n b where v: "v = (n, b)" by fastforce
    have "n = count_files (subtree (mc_fs m1) T) \<and> b = wrap64 (sum_files nd_size (subtree (mc_fs m1) T))"
      by (rule count_and_bytes_Some [of ?t m1 n b m2]) (use x 2 v site_source [OF assms(1) site1] in auto)
    moreover have "n = count_files (subtree (mc_fs m2) D) \<and> b = wrap64 (sum_files nd_size (subtree (mc_fs m2) D))"
      by (rule count_and_bytes_Some [of ?d m2 n b m3]) (use y 2 v site_dest [OF assms(1) site1] fs in auto)
    ultimately show ?thesis using 2 fs o1 t1 by (simp add: parity_def)
  qed
  then show "outer T D (mc_fs m') = outer T D (mc_fs m)" "subtree (mc_fs m') T = subtree (mc_fs m) T"
    "r = None \<Longrightarrow> parity (subtree (mc_fs m) T) (subtree (mc_fs m') D)"
    "r \<noteq> Some BackupNotRemoved" "\<not> (\<exists>e. r = Some (RestoreFailed e))" by blast+
qed

definition data_kept :: "loc \<Rightarrow> loc \<Rightarrow> fs \<Rightarrow> (off_err + int) \<Rightarrow> fs \<Rightarrow> bool" where
  "data_kept T D S r g \<longleftrightarrow>
     (case r of
        Inr n \<Rightarrow> subtree g T = [([], new_node (KLink (render_path True D)))] \<and> parity S (subtree g D)
          \<and> subtree g (bak_loc T) = []
      | Inl (RestoreFailed e) \<Rightarrow> subtree g (bak_loc T) = S
      | Inl BackupNotRemoved \<Rightarrow> subtree g T = [([], new_node (KLink (render_path True D)))] \<and> parity S (subtree g D)
      | Inl e \<Rightarrow> subtree g T = S)"

text \<open>The collaborators: the guard writes at most below \<open>R\<close> and nothing when it accepts, the copier
  writes below the destination, the others do not write.\<close>

definition collaborators_ok :: "offload \<Rightarrow> loc \<Rightarrow> loc \<Rightarrow> loc \<Rightarrow> machine \<Rightarrow> bool" where
  "collaborators_ok o' T D R m0 \<longleftrightarrow>
     (case of_guard o' (of_dest_root o') (of_dest_uuid o') m0 of (x, m1) \<Rightarrow>
        remove_tree R (mc_fs m1) = remove_tree R (mc_fs m0) \<and> (x = None \<longrightarrow> mc_fs m1 = mc_fs m0))
     \<and> (\<forall>s. quiet (of_procs o' s)) \<and> (\<forall>p. quiet (of_probe o' p)) \<and> (\<forall>p. quiet (of_freed o' p))
     \<and> (\<forall>m. site T D (mc_fs m) \<longrightarrow>
          remove_tree D (mc_fs (snd (of_copy o' (render_path True T) (render_path True D) m))) = remove_tree D (mc_fs m))
     \<and> prefix R D \<and> parallel T R \<and> parallel (bak_loc T) R"

lemma check_stop_gate_fs:
  assumes "\<forall>s. quiet (of_procs o' s)" "\<forall>p. quiet (of_probe o' p)" "check_stop_gate o' pb t m = (r, m')"
  shows "mc_fs m' = mc_fs m" "r \<noteq> Some BackupNotRemoved" "\<not> (\<exists>e. r = Some (RestoreFailed e))"
proof -
  have "mc_fs n = mc_fs m" if "of_procs o' s m = (x, n)" for s x n
    using that by (rule quietD [OF assms(1) [rule_format]])
  moreover have "mc_fs n = mc_fs m" if "of_probe o' p m = (x, n)" for p x n
    using that by (rule quietD [OF assms(2) [rule_format]])
  ultimately have "mc_fs m' = mc_fs m \<and> r \<noteq> Some BackupNotRemoved \<and> \<not> (\<exists>e. r = Some (RestoreFailed e))"
    using assms(3) by (auto simp: check_stop_gate_def split: if_splits option.splits prod.splits)
  then show "mc_fs m' = mc_fs m" "r \<noteq> Some BackupNotRemoved" "\<not> (\<exists>e. r = Some (RestoreFailed e))" by blast+
qed

lemma prepare_dest_view:
  assumes "site_shape T D" "site T D (mc_fs m)" "prepare_dest o' (render_path True D) m = (r, m')"
  shows "framed T D (mc_fs m) (mc_fs m')" "subtree (mc_fs m') T = subtree (mc_fs m) T"
    "r \<noteq> Some BackupNotRemoved" "\<not> (\<exists>e. r = Some (RestoreFailed e))"
proof -
  let ?d = "render_path True D"
  obtain x m1 where x: "os_lstat ?d m = (x, m1)" by fastforce
  have m1: "mc_fs m1 = mc_fs m" using os_lstat_fs [of ?d m] by (simp add: x)
  obtain y m2 where y: "os_mkdir_all (dir_path ?d) m1 = (y, m2)" by fastforce
  have s1: "site T D (mc_fs m1)" using assms(2) m1 by simp
  have "framed T D (mc_fs m) (mc_fs m') \<and> subtree (mc_fs m') T = subtree (mc_fs m) T
      \<and> r \<noteq> Some BackupNotRemoved \<and> \<not> (\<exists>e. r = Some (RestoreFailed e))"
    using assms(3) x y m1 mkdir_all_view [OF assms(1) s1 y]
    by (auto simp: prepare_dest_def split: if_splits option.splits)
  then show "framed T D (mc_fs m) (mc_fs m')" "subtree (mc_fs m') T = subtree (mc_fs m) T"
    "r \<noteq> Some BackupNotRemoved" "\<not> (\<exists>e. r = Some (RestoreFailed e))" by blast+
qed

lemma data_kept_early:
  "r = Inl e \<Longrightarrow> e \<noteq> BackupNotRemoved \<Longrightarrow> \<not> (\<exists>x. e = RestoreFailed x) \<Longrightarrow> subtree g T = S \<Longrightarrow> data_kept T D S r g"
  by (auto simp: data_kept_def split: off_err.splits)

lemma data_kept_outcome: "outcome_ok T D S C r g \<Longrightarrow> parity S C \<Longrightarrow> data_kept T D S r g"
  by (auto simp: data_kept_def outcome_ok_def split: sum.splits off_err.splits)

text \<open>Everything apart from the source, its backup name and the guard's area stays.\<close>

definition rest_kept :: "loc \<Rightarrow> loc \<Rightarrow> fs \<Rightarrow> fs \<Rightarrow> bool" where
  "rest_kept T R f g \<longleftrightarrow>
     (\<forall>x \<in> set f. \<not> prefix T (fst x) \<and> \<not> prefix (bak_loc T) (fst x) \<and> \<not> prefix R (fst x) \<longrightarrow> x \<in> set g)"

lemma guarded_rest_kept:
  assumes "remove_tree R g = remove_tree R f"
  shows "rest_kept T R f g"
proof -
  have "x \<in> set g" if "x \<in> set f" "\<not> prefix R (fst x)" for x
  proof -
    have "x \<in> set (remove_tree R f)" using that by (auto simp: remove_tree_def)
    then have "x \<in> set (remove_tree R g)" by (simp only: assms)
    then show ?thesis by (auto simp: remove_tree_def)
  qed
  then show ?thesis by (auto simp: rest_kept_def)
qed

lemma framed_rest_kept: "framed T D f g \<Longrightarrow> prefix R D \<Longrightarrow> rest_kept T R f g"
proof -
  assume fr: "framed T D f g" and R: "prefix R D"
  then have sub: "set (outer T D f) \<subseteq> set (outer T D g)" by (auto simp: framed_def)
  show ?thesis
    unfolding rest_kept_def
  proof (intro ballI impI)
    fix x assume x: "x \<in> set f" "\<not> prefix T (fst x) \<and> \<not> prefix (bak_loc T) (fst x) \<and> \<not> prefix R (fst x)"
    have "\<not> prefix D (fst x)" using x(2) R prefix_order.trans by blast
    with x have "x \<in> set (outer T D f)" by (auto simp: outer_def)
    with sub show "x \<in> set g" by (auto simp: outer_def)
  qed
qed

lemma apply_after_guard:
  assumes shape: "site_shape T D" and st: "site T D (mc_fs m)" and co: "collaborators_ok o' T D R m0"
    and g: "check_stop_gate o' pb (render_path True T) m = (x, m2)"
    and rest: "(case x of Some e \<Rightarrow> (Inl e, m2)
       | None \<Rightarrow> (case prepare_dest o' (render_path True D) m2 of
            (Some e, m3) \<Rightarrow> (Inl e, m3)
          | (None, m3) \<Rightarrow> (case copy_or_clean o' (render_path True T) (render_path True D) m3 of
              (Some e, m4) \<Rightarrow> (Inl e, m4)
            | (None, m4) \<Rightarrow> (case of_freed o' (render_path True T) m4 of (freed, m5) \<Rightarrow>
                swap_and_link (render_path True T) (render_path True D) freed m5)))) = (r, m')"
  shows "data_kept T D (subtree (mc_fs m) T) r (mc_fs m') \<and> framed T D (mc_fs m) (mc_fs m')"
proof -
  let ?t = "render_path True T" and ?d = "render_path True D"
  have q: "\<forall>s. quiet (of_procs o' s)" "\<forall>p. quiet (of_probe o' p)" "\<forall>p. quiet (of_freed o' p)"
    and cp: "\<forall>n. site T D (mc_fs n) \<longrightarrow> remove_tree D (mc_fs (snd (of_copy o' ?t ?d n))) = remove_tree D (mc_fs n)"
    using co by (auto simp: collaborators_ok_def)
  note gv = check_stop_gate_fs [OF q(1,2) g]
  show ?thesis
  proof (cases x)
    case (Some e)
    then have "r = Inl e" "m' = m2" using rest by simp_all
    with gv Some show ?thesis by (auto intro: data_kept_early)
  next
    case x: None
    obtain y m3 where p: "prepare_dest o' ?d m2 = (y, m3)" by fastforce
    have s2: "site T D (mc_fs m2)" using st gv(1) by simp
    note pv = prepare_dest_view [OF shape s2 p]
    have f3: "framed T D (mc_fs m) (mc_fs m3)" using pv(1) gv(1) by simp
    have s3: "site T D (mc_fs m3)" by (rule framed_site [OF shape f3 st])
    show ?thesis
    proof (cases y)
      case (Some e)
      then have "r = Inl e" "m' = m3" using rest x p by simp_all
      with pv f3 gv(1) Some show ?thesis by (auto intro: data_kept_early)
    next
      case y: None
      obtain z m4 where c: "copy_or_clean o' ?t ?d m3 = (z, m4)" by fastforce
      note cv = copy_or_clean_view [OF shape s3 cp c]
      have f4: "framed T D (mc_fs m) (mc_fs m4)" by (rule framed_outer [OF f3 cv(1)])
      show ?thesis
      proof (cases z)
        case (Some e)
        then have "r = Inl e" "m' = m4" using rest x p y c by simp_all
        with cv pv(2) f4 gv(1) Some show ?thesis by (auto intro: data_kept_early)
      next
        case z: None
        obtain n m5 where fr: "of_freed o' ?t m4 = (n, m5)" by fastforce
        have m5: "mc_fs m5 = mc_fs m4" by (rule quietD [OF q(3) [rule_format] fr])
        have sl: "swap_and_link ?t ?d n m5 = (r, m')" using rest x p y c z fr by simp
        have s5: "site T D (mc_fs m5)" using site_same [OF shape cv(1) s3] m5 by simp
        note sv = swap_and_link_view [OF shape s5 sl]
        have S: "subtree (mc_fs m5) T = subtree (mc_fs m) T" using cv(2) pv(2) gv(1) m5 by simp
        have "parity (subtree (mc_fs m) T) (subtree (mc_fs m5) D)" using cv(3) [OF z] pv(2) gv(1) m5 by simp
        moreover have "outcome_ok T D (subtree (mc_fs m) T) (subtree (mc_fs m5) D) r (mc_fs m')" using sv S by simp
        ultimately have "data_kept T D (subtree (mc_fs m) T) r (mc_fs m')" by (intro data_kept_outcome)
        moreover have "framed T D (mc_fs m) (mc_fs m')"
          using framed_outer [OF f4, of "mc_fs m'"] sv m5 by simp
        ultimately show ?thesis ..
      qed
    qed
  qed
qed

text \<open>
  C2. Relocation never loses data, whichever system calls fail and wherever: after success the source
  is a link to a copy with the source's file count and bytes and the backup is gone; when only the
  backup could not be removed the link and the copy stand; when the rollback failed the original lies
  whole under its backup name; after every other error it lies whole at its path. Nothing apart from
  source, backup and destination area is lost.
\<close>

theorem apply_never_loses_data:
  assumes "site_shape T D" "site T D (mc_fs m)" "collaborators_ok o' T D R m"
    "ma_target a = render_path True T" "ma_dest a = render_path True D"
    "offload_apply o' a m = (r, m')"
  shows "data_kept T D (subtree (mc_fs m) T) r (mc_fs m') \<and> rest_kept T R (mc_fs m) (mc_fs m')"
proof -
  have R: "prefix R D" "parallel T R" "parallel (bak_loc T) R"
    using assms(3) by (auto simp: collaborators_ok_def)
  have same: ?thesis if "r = Inl e" "m' = m" "e \<noteq> BackupNotRemoved" "\<not> (\<exists>x. e = RestoreFailed x)" for e
    using that by (auto simp: rest_kept_def intro: data_kept_early)
  consider e where "r = Inl e" "m' = m" "e \<noteq> BackupNotRemoved" "\<not> (\<exists>x. e = RestoreFailed x)"
    | pb where "ma_op a = ''relocate''" "playbook_for_target o' (ma_target a) = Some pb" "pb_class pb = ClassRelocate"
    using assms(6) by (auto simp: offload_apply_def split: if_splits option.splits)
  then show ?thesis
  proof cases
    case (1 e)
    then show ?thesis by (rule same)
  next
    case (2 pb)
    obtain x m1 where g: "of_guard o' (of_dest_root o') (of_dest_uuid o') m = (x, m1)" by fastforce
    have gf: "remove_tree R (mc_fs m1) = remove_tree R (mc_fs m)" "x = None \<Longrightarrow> mc_fs m1 = mc_fs m"
      using assms(3) g by (simp_all add: collaborators_ok_def)
    show ?thesis
    proof (cases x)
      case (Some e)
      then have r: "r = Inl (DestRefused e)" "m' = m1" using assms(6) 2 g by (simp_all add: offload_apply_def)
      have sub: "subtree (mc_fs m1) T = subtree (mc_fs m) T" by (rule subtree_frame [OF gf(1) R(2)])
      have "data_kept T D (subtree (mc_fs m) T) r (mc_fs m')"
        by (rule data_kept_early [OF r(1)]) (simp_all add: r(2) sub)
      moreover have "rest_kept T R (mc_fs m) (mc_fs m')" using guarded_rest_kept [OF gf(1)] by (simp add: r(2))
      ultimately show ?thesis ..
    next
      case None
      have m1: "mc_fs m1 = mc_fs m" by (rule gf(2) [OF None])
      obtain y m2 where st: "check_stop_gate o' pb (render_path True T) m1 = (y, m2)" by fastforce
      have s1: "site T D (mc_fs m1)" using assms(2) m1 by simp
      have rest: "(case y of Some e \<Rightarrow> (Inl e, m2)
         | None \<Rightarrow> (case prepare_dest o' (render_path True D) m2 of
              (Some e, m3) \<Rightarrow> (Inl e, m3)
            | (None, m3) \<Rightarrow> (case copy_or_clean o' (render_path True T) (render_path True D) m3 of
                (Some e, m4) \<Rightarrow> (Inl e, m4)
              | (None, m4) \<Rightarrow> (case of_freed o' (render_path True T) m4 of (freed, m5) \<Rightarrow>
                  swap_and_link (render_path True T) (render_path True D) freed m5)))) = (r, m')"
        using assms(6) 2 g None st unfolding assms(4,5) [symmetric] by (simp add: offload_apply_def)
      have "data_kept T D (subtree (mc_fs m) T) r (mc_fs m') \<and> framed T D (mc_fs m) (mc_fs m')"
        using apply_after_guard [OF assms(1) s1 assms(3) st rest] by (simp only: m1)
      then show ?thesis using framed_rest_kept [OF _ R(1)] by blast
    qed
  qed
qed

definition demo_source :: fs where
  "demo_source = [([''u''], new_node KDir), ([''u'', ''jobs''], new_node KDir),
     ([''u'', ''jobs'', ''a''], (new_node KFile)\<lparr>nd_size := 5\<rparr>), ([''v''], new_node KDir)]"

definition demo_offload :: offload where
  "demo_offload = \<lparr> of_playbooks = [no_playbook\<lparr>pb_asset := ''jobs'', pb_path := ''~/jobs'', pb_class := ClassRelocate\<rparr>],
     of_dest_root = ''/v'', of_dest_uuid = ''AB-1'', of_guard = check_dest demo_guard,
     of_procs = (\<lambda>s m. (Some False, m)),
     of_copy = (\<lambda>s d m. (True, m\<lparr>mc_fs := mc_fs m @ [([''v'', ''jobs''], new_node KDir),
        ([''v'', ''jobs'', ''a''], (new_node KFile)\<lparr>nd_size := 5\<rparr>)]\<rparr>)),
     of_probe = (\<lambda>p m. ((False, []), m)), of_blocks = (\<lambda>p m. ((5, None), m)), of_unique = (\<lambda>p m. (Some 5, m)),
     of_freed = (\<lambda>p m. (5, m)), of_home = ''/u'' \<rparr>"

definition demo_move :: mod_action where
  "demo_move = \<lparr> ma_module = ''offload'', ma_op = ''relocate'', ma_target = ''/u/jobs'', ma_dest = ''/v/jobs'',
     ma_size = 5, ma_risk = RiskMedium \<rparr>"

lemma apply_never_loses_data_witness:
  "fst (offload_apply demo_offload demo_move (machine_of demo_source)) = Inr 5
   \<and> data_kept [''u'', ''jobs''] [''v'', ''jobs''] (subtree demo_source [''u'', ''jobs'']) (Inr 5)
       (mc_fs (snd (offload_apply demo_offload demo_move (machine_of demo_source))))"
proof -
  let ?m = "machine_of demo_source" and ?T = "[''u'', ''jobs'']" and ?D = "[''v'', ''jobs'']"
  have r: "fst (offload_apply demo_offload demo_move ?m) = Inr 5" by code_simp
  have sh: "site_shape ?T ?D" by (simp add: site_shape_def plain_comp_def bak_loc_def parallel_def)
  have st: "site ?T ?D (mc_fs ?m)" by code_simp
  have g: "case of_guard demo_offload (of_dest_root demo_offload) (of_dest_uuid demo_offload) ?m of (x, m1) \<Rightarrow>
      remove_tree [''v''] (mc_fs m1) = remove_tree [''v''] (mc_fs ?m) \<and> (x = None \<longrightarrow> mc_fs m1 = mc_fs ?m)"
    by code_simp
  have co: "collaborators_ok demo_offload ?T ?D [''v''] ?m"
    unfolding collaborators_ok_def using g
    by (simp add: demo_offload_def quiet_def remove_tree_def bak_loc_def parallel_def)
  have p: "ma_target demo_move = render_path True ?T" "ma_dest demo_move = render_path True ?D"
    by (simp_all add: demo_move_def render_path_def)
  have "data_kept ?T ?D (subtree (mc_fs ?m) ?T) (fst (offload_apply demo_offload demo_move ?m))
      (mc_fs (snd (offload_apply demo_offload demo_move ?m)))"
    using apply_never_loses_data [OF sh st co p surjective_pairing] ..
  with r show ?thesis by (simp add: machine_of_def)
qed

end
