(* ===== verification/Pending.thy ===== *)
theory Pending
  imports OffloadSafe
begin

text \<open>
  The queue of deferred relocations, \<open>internal/modules/offload/pending.go\<close>: enqueueing, the fresh
  gates of a re-check, the two-phase apply and the run over all pending rows. The \<open>QueueStore\<close>
  interface is the locale \<open>queue_store\<close>, interpreted on the store's methods.
\<close>

datatype block_reason =
    DestChanged
  | NoLongerPlaybook
  | NoLongerRelocatable asset_class
  | SourceMissing
  | PathInUse string
  | StopGateError string
  | StillRunning string
  | DestRefusedBy vol_err
  | DestTaken
  | ApplyFailed off_err

definition on_rest :: "('x \<Rightarrow> 'a \<times> 'x) \<Rightarrow> 'x world \<Rightarrow> 'a \<times> 'x world" where
  "on_rest f w = (case f (w_rest w) of (r, m) \<Rightarrow> (r, w\<lparr>w_rest := m\<rparr>))"

type_synonym qworld = "machine world"

definition enqueue_deferred ::
  "(reloc_row \<Rightarrow> qworld \<Rightarrow> int option \<times> qworld) \<Rightarrow> offload \<Rightarrow> mod_action \<Rightarrow> string \<Rightarrow> time \<Rightarrow> qworld
   \<Rightarrow> int option \<times> qworld" where
  "enqueue_deferred enq o' a reason tm w =
     (if \<not> off_configured o' then (None, w)
      else case playbook_for_target o' (ma_target a) of
        None \<Rightarrow> (None, w)
      | Some pb \<Rightarrow>
          if pb_class pb \<noteq> ClassRelocate then (None, w)
          else enq \<lparr> rq_id = 0, rq_queued_at = unix_of tm, rq_target = clean_path (ma_target a),
                 rq_asset = pb_asset pb, rq_dest_root = of_dest_root o', rq_dest_uuid = of_dest_uuid o',
                 rq_gate_reason = reason, rq_status = RelocQueued, rq_blocked_reason = None, rq_attempts = 0,
                 rq_last_attempt = None, rq_resolved_at = None, rq_freed = 0 \<rparr> w)"

definition pending_result_of :: "reloc_row \<Rightarrow> pending_outcome \<Rightarrow> string \<Rightarrow> bool \<Rightarrow> pending_result" where
  "pending_result_of e oc reason err = \<lparr> pd_entry = e, pd_outcome = oc, pd_reason = reason, pd_freed = 0,
     pd_attempted = False, pd_error = err \<rparr>"

type_synonym resolver = "int \<Rightarrow> reloc_resolution \<Rightarrow> qworld \<Rightarrow> (reloc_err + unit) \<times> qworld"
type_synonym marker = "int \<Rightarrow> int \<Rightarrow> qworld \<Rightarrow> (reloc_err + unit) \<times> qworld"

definition block_relocation ::
  "(block_reason \<Rightarrow> string) \<Rightarrow> resolver \<Rightarrow> reloc_row \<Rightarrow> block_reason \<Rightarrow> bool \<Rightarrow> qworld \<Rightarrow> pending_result \<times> qworld" where
  "block_relocation txt rsv e reason err w =
     (case rsv (rq_id e) \<lparr> rr_status = RelocBlocked, rr_blocked_reason = txt reason, rr_freed = 0, rr_resolved_at = 0 \<rparr> w of
        (Inl _, w1) \<Rightarrow> (pending_result_of e PendingBlocked (txt reason) True, w1)
      | (Inr _, w1) \<Rightarrow> (pending_result_of e PendingBlocked (txt reason) err, w1))"

text \<open>Gate 3 and the error it passes on.\<close>

definition recheck_liveness :: "offload \<Rightarrow> playbook \<Rightarrow> path \<Rightarrow> machine \<Rightarrow> (block_reason \<times> bool) option \<times> machine" where
  "recheck_liveness o' pb target m =
     (if path_gated pb then
        (case of_probe o' target m of ((live, proof), m1) \<Rightarrow> (if live then Some (PathInUse proof, False) else None, m1))
      else if pb_stop_gate pb \<noteq> [] then
        (case of_procs o' (pb_stop_gate pb) m of
           (None, m1) \<Rightarrow> (Some (StopGateError (pb_stop_gate pb), True), m1)
         | (Some running, m1) \<Rightarrow> (if running then Some (StillRunning (pb_stop_gate pb), False) else None, m1))
      else (None, m))"

definition recheck_gates ::
  "(block_reason \<Rightarrow> string) \<Rightarrow> resolver \<Rightarrow> offload \<Rightarrow> reloc_row \<Rightarrow> qworld \<Rightarrow> (pending_result + path) \<times> qworld" where
  "recheck_gates txt rsv o' e w =
     (let blk = (\<lambda>reason err v. case block_relocation txt rsv e reason err v of (r, v1) \<Rightarrow> (Inl r, v1)) in
      if rq_dest_root e \<noteq> of_dest_root o' \<or> rq_dest_uuid e \<noteq> of_dest_uuid o' then blk DestChanged False w
      else case playbook_for_target o' (rq_target e) of
        None \<Rightarrow> blk NoLongerPlaybook False w
      | Some pb \<Rightarrow>
          if pb_class pb \<noteq> ClassRelocate then blk (NoLongerRelocatable (pb_class pb)) False w
          else case on_rest (os_lstat (rq_target e)) w of
            (None, w1) \<Rightarrow> blk SourceMissing True w1
          | (Some nd, w1) \<Rightarrow>
              if nd_kind nd \<noteq> KDir then blk SourceMissing False w1
              else case on_rest (recheck_liveness o' pb (rq_target e)) w1 of
                (Some (reason, err), w2) \<Rightarrow> blk reason err w2
              | (None, w2) \<Rightarrow>
                  (case on_rest (of_guard o' (rq_dest_root e) (rq_dest_uuid e)) w2 of
                     (Some v, w3) \<Rightarrow> blk (DestRefusedBy v) True w3
                   | (None, w3) \<Rightarrow>
                       (let dest = join_path [rq_dest_root e, rq_asset e] in
                        case on_rest (os_lstat dest) w3 of
                          (Some _, w4) \<Rightarrow> blk DestTaken False w4
                        | (None, w4) \<Rightarrow> (Inr dest, w4))))"

text \<open>\<open>recheckOne\<close>; \<open>att\<close> counts the attempts of the run.\<close>

definition recheck_one ::
  "(block_reason \<Rightarrow> string) \<Rightarrow> marker \<Rightarrow> resolver \<Rightarrow> offload \<Rightarrow> reloc_row \<Rightarrow> int \<Rightarrow> int \<Rightarrow> qworld
   \<Rightarrow> (pending_result \<times> int) \<times> qworld" where
  "recheck_one txt mark rsv o' e limit att w =
     (case recheck_gates txt rsv o' e w of
        (Inl r, w1) \<Rightarrow> ((r, att), w1)
      | (Inr dest, w1) \<Rightarrow>
          if 0 \<le> limit \<and> limit \<le> att
          then ((pending_result_of e PendingSkippedBudget
                   (''apply budget for this run is spent '' @ em_dash @ '' left pending'') False, att), w1)
          else case now_at w1 of (t1, w2) \<Rightarrow>
            (case mark (rq_id e) (unix_of t1) w2 of
               (Inl _, w3) \<Rightarrow> ((pending_result_of e PendingBlocked
                   ''could not mark attempt (row raced to terminal?)'' True, att + 1), w3)
             | (Inr _, w3) \<Rightarrow>
                 (case on_rest (offload_apply o' \<lparr> ma_module = ''offload'', ma_op = ''relocate'',
                          ma_target = rq_target e, ma_dest = dest, ma_size = 0, ma_risk = RiskMedium \<rparr>) w3 of
                    (Inl err, w4) \<Rightarrow>
                      (case block_relocation txt rsv e (ApplyFailed err) True w4 of
                         (r, w5) \<Rightarrow> ((r\<lparr>pd_attempted := True\<rparr>, att + 1), w5))
                  | (Inr freed, w4) \<Rightarrow>
                      (case now_at w4 of (t2, w5) \<Rightarrow>
                         (case rsv (rq_id e) \<lparr> rr_status = RelocApplied, rr_blocked_reason = [], rr_freed = freed,
                                  rr_resolved_at = unix_of t2 \<rparr> w5 of
                            (res, w6) \<Rightarrow>
                              (((pending_result_of e PendingApplied [] (case res of Inl _ \<Rightarrow> True | Inr _ \<Rightarrow> False))
                                  \<lparr> pd_freed := freed, pd_attempted := True \<rparr>, att + 1), w6))))))"

datatype pending_err = PendingTriggerForbidden | ListPendingFailed | PendingCancelled

fun recheck_all ::
  "(block_reason \<Rightarrow> string) \<Rightarrow> marker \<Rightarrow> resolver \<Rightarrow> offload \<Rightarrow> (nat \<Rightarrow> bool) \<Rightarrow> nat \<Rightarrow> int \<Rightarrow> reloc_row list \<Rightarrow> int \<Rightarrow> qworld
   \<Rightarrow> (pending_result list \<times> pending_err option) \<times> qworld" where
  "recheck_all txt mark rsv o' stop n limit [] att w = (([], None), w)"
| "recheck_all txt mark rsv o' stop n limit (e # es) att w =
     (if stop n then (([], Some PendingCancelled), w)
      else case recheck_one txt mark rsv o' e limit att w of
        ((r, att1), w1) \<Rightarrow> (case recheck_all txt mark rsv o' stop (Suc n) limit es att1 w1 of
          ((rs, err), w2) \<Rightarrow> ((r # rs, err), w2)))"

definition run_pending ::
  "(block_reason \<Rightarrow> string) \<Rightarrow> (qworld \<Rightarrow> reloc_row list option \<times> qworld) \<Rightarrow> marker \<Rightarrow> resolver \<Rightarrow> offload
   \<Rightarrow> (nat \<Rightarrow> bool) \<Rightarrow> string \<Rightarrow> int \<Rightarrow> qworld \<Rightarrow> (pending_result list \<times> pending_err option) \<times> qworld" where
  "run_pending txt lst mark rsv o' stop tr limit w =
     (if tr \<noteq> ''daily'' \<and> tr \<noteq> ''manual'' then (([], Some PendingTriggerForbidden), w)
      else case lst w of
        (None, w1) \<Rightarrow> (([], Some ListPendingFailed), w1)
      | (Some es, w1) \<Rightarrow> recheck_all txt mark rsv o' stop 0 limit es 0 w1)"

subsection \<open>The budget\<close>

lemma on_rest_store: "on_rest f w = (r, w') \<Longrightarrow> w_store w' = w_store w"
  by (auto simp: on_rest_def split: prod.splits)

text \<open>The gates only look; a refusal is one block of the row.\<close>

lemma recheck_gates_cases:
  assumes "recheck_gates txt rsv o' e w = (x, w1)"
  shows "(\<exists>r reason err v. x = Inl r \<and> block_relocation txt rsv e reason err v = (r, w1) \<and> w_store v = w_store w)
    \<or> (\<exists>dest. x = Inr dest \<and> w_store w1 = w_store w)"
proof -
  define blk where "blk = (\<lambda>reason err v. case block_relocation txt rsv e reason err v of (r, v1) \<Rightarrow> (Inl r :: pending_result + path, v1))"
  have blk: ?thesis if "blk reason err v = (x, w1)" "w_store v = w_store w" for reason err v
    using that by (auto simp: blk_def split: prod.splits)
  let ?d = "join_path [rq_dest_root e, rq_asset e]"
  obtain s w2 where s: "on_rest (os_lstat (rq_target e)) w = (s, w2)" by fastforce
  note w2 = on_rest_store [OF s]
  show ?thesis
  proof (cases "playbook_for_target o' (rq_target e)")
    case None
    with assms blk show ?thesis unfolding recheck_gates_def Let_def blk_def [symmetric] by (auto split: if_splits)
  next
    case (Some pb)
    obtain l w3 where l: "on_rest (recheck_liveness o' pb (rq_target e)) w2 = (l, w3)" by fastforce
    note w3 = on_rest_store [OF l]
    obtain g w4 where g: "on_rest (of_guard o' (rq_dest_root e) (rq_dest_uuid e)) w3 = (g, w4)" by fastforce
    note w4 = on_rest_store [OF g]
    obtain t w5 where t: "on_rest (os_lstat ?d) w4 = (t, w5)" by fastforce
    note w5 = on_rest_store [OF t]
    have "(\<exists>reason err v. blk reason err v = (x, w1) \<and> w_store v = w_store w) \<or> x = Inr ?d \<and> w1 = w5"
      using assms Some s l g t w2 w3 w4 w5
      unfolding recheck_gates_def Let_def blk_def [symmetric]
      by (simp split: if_splits option.splits prod.splits) (metis w2 w3 w4 w5)+
    then show ?thesis using blk w2 w3 w4 w5 by auto
  qed
qed

lemma block_relocation_result:
  "block_relocation txt rsv e reason err v = (r, v1) \<Longrightarrow> \<not> pd_attempted r \<and> pd_outcome r = PendingBlocked"
  by (auto simp: block_relocation_def pending_result_of_def split: prod.splits sum.splits)

lemma recheck_gates_not_attempted:
  "recheck_gates txt rsv o' e w = (Inl r, w1) \<Longrightarrow> \<not> pd_attempted r \<and> pd_outcome r = PendingBlocked"
  using recheck_gates_cases block_relocation_result by blast

lemma recheck_one_count:
  assumes "recheck_one txt mark rsv o' e limit att w = ((r, att1), w1)"
  shows "(if pd_attempted r then 1 else 0) \<le> att1 - att \<and> att \<le> att1 \<and> (0 \<le> limit \<longrightarrow> att1 \<le> max att limit)"
  using assms unfolding recheck_one_def
  by (auto simp: pending_result_of_def split: prod.splits sum.splits if_splits dest: recheck_gates_not_attempted)

lemma recheck_all_count:
  "recheck_all txt mark rsv o' stop n limit es att w = ((rs, err), w') \<Longrightarrow> 0 \<le> limit \<Longrightarrow>
   int (length (filter pd_attempted rs)) + att \<le> max att limit"
proof (induction es arbitrary: n att w rs)
  case (Cons e es)
  show ?case
  proof (cases "stop n")
    case False
    obtain r att1 w1 where one: "recheck_one txt mark rsv o' e limit att w = ((r, att1), w1)" by (metis surj_pair)
    obtain rs1 err1 w2 where more: "recheck_all txt mark rsv o' stop (Suc n) limit es att1 w1 = ((rs1, err1), w2)"
      by (metis surj_pair)
    have eq: "rs = r # rs1" "err1 = err" "w2 = w'" using Cons.prems(1) False one more by auto
    have "int (length (filter pd_attempted rs1)) + att1 \<le> max att1 limit"
      by (rule Cons.IH [OF _ Cons.prems(2)]) (use more eq in simp)
    then show ?thesis using recheck_one_count [OF one] Cons.prems(2) by (auto simp: eq split: if_splits)
  qed (use Cons.prems in simp)
qed simp

text \<open>
  A run over the pending relocations does nothing on any trigger but daily and manual, and
  attempts at most as many relocations as its budget (the daemon's is one).
\<close>

lemma run_pending_budget:
  assumes "run_pending txt lst mark rsv o' stop tr limit w = ((rs, err), w')"
  shows "(tr \<notin> {''daily'', ''manual''} \<longrightarrow> w' = w \<and> rs = [] \<and> err = Some PendingTriggerForbidden)
    \<and> (0 \<le> limit \<longrightarrow> int (length (filter pd_attempted rs)) \<le> limit)"
proof (cases "tr \<notin> {''daily'', ''manual''}")
  case True
  with assms show ?thesis by (simp add: run_pending_def)
next
  case False
  obtain l w1 where l: "lst w = (l, w1)" by fastforce
  show ?thesis
  proof (cases l)
    case None
    with assms False l show ?thesis by (auto simp: run_pending_def)
  next
    case (Some es)
    have "recheck_all txt mark rsv o' stop 0 limit es 0 w1 = ((rs, err), w')"
      using assms False l Some by (auto simp: run_pending_def)
    from recheck_all_count [OF this] False show ?thesis by auto
  qed
qed

subsection \<open>The queue interface\<close>

locale queue_store =
  fixes lst :: "qworld \<Rightarrow> reloc_row list option \<times> qworld"
    and mark :: marker
    and rsv :: resolver
    and rows :: "qworld \<Rightarrow> reloc_row list"
    and wf :: "qworld \<Rightarrow> bool"
  assumes lst_rows: "lst w = (x, w') \<Longrightarrow> rows w' = rows w" "lst w = (x, w') \<Longrightarrow> wf w \<Longrightarrow> wf w'"
    and mark_final: "mark i t w = (y, w') \<Longrightarrow> r \<in> set (rows w) \<Longrightarrow> \<not> pending_row r \<Longrightarrow> r \<in> set (rows w')"
    and mark_wf: "mark i t w = (y, w') \<Longrightarrow> wf w \<Longrightarrow> wf w'"
    and rsv_final: "rsv i q w = (y, w') \<Longrightarrow> r \<in> set (rows w) \<Longrightarrow> \<not> pending_row r \<Longrightarrow> r \<in> set (rows w')"
    and rsv_wf: "rsv i q w = (y, w') \<Longrightarrow> wf w \<Longrightarrow> wf w'"
    and rsv_ok: "rsv i q w = (Inr u, w') \<Longrightarrow>
      \<exists>r \<in> set (rows w'). rq_id r = i \<and> rq_status r = rr_status q \<and> rq_freed r = rr_freed q"
    and same_store: "w_store w' = w_store w \<Longrightarrow> rows w' = rows w" "w_store w' = w_store w \<Longrightarrow> wf w' = wf w"
begin

text \<open>Final rows stay and the queue stays well formed.\<close>

definition kept :: "qworld \<Rightarrow> qworld \<Rightarrow> bool" where
  "kept w w' \<longleftrightarrow> (\<forall>r \<in> set (rows w). \<not> pending_row r \<longrightarrow> r \<in> set (rows w')) \<and> (wf w \<longrightarrow> wf w')"

lemma kept_trans: "kept w w1 \<Longrightarrow> kept w1 w2 \<Longrightarrow> kept w w2"
  by (auto simp: kept_def)

lemma kept_store: "w_store w' = w_store w \<Longrightarrow> kept w w'"
  using same_store [of w' w] by (simp add: kept_def)

lemma kept_mark: "mark i t w = (y, w') \<Longrightarrow> kept w w'"
  using mark_final mark_wf by (auto simp: kept_def)

lemma kept_rsv: "rsv i q w = (y, w') \<Longrightarrow> kept w w'"
  using rsv_final rsv_wf by (auto simp: kept_def)

lemma kept_block: "block_relocation txt rsv e reason err w = (r, w') \<Longrightarrow> kept w w'"
proof -
  assume b: "block_relocation txt rsv e reason err w = (r, w')"
  obtain y v where v: "rsv (rq_id e) \<lparr> rr_status = RelocBlocked, rr_blocked_reason = txt reason, rr_freed = 0,
      rr_resolved_at = 0 \<rparr> w = (y, v)" by fastforce
  have "v = w'" using b by (simp add: block_relocation_def v split: sum.splits)
  with kept_rsv [OF v] show ?thesis by simp
qed

text \<open>What a result that reports success claims of the queue.\<close>

definition recorded :: "qworld \<Rightarrow> pending_result \<Rightarrow> bool" where
  "recorded w p \<longleftrightarrow> (pd_outcome p = PendingApplied \<and> \<not> pd_error p \<longrightarrow>
     (\<exists>r \<in> set (rows w). rq_id r = rq_id (pd_entry p) \<and> rq_status r = RelocApplied \<and> rq_freed r = pd_freed p))"

lemma recorded_kept: "kept w w' \<Longrightarrow> recorded w p \<Longrightarrow> recorded w' p"
proof -
  assume k: "kept w w'" and r: "recorded w p"
  have "\<not> pending_row r" if "rq_status r = RelocApplied" for r using that by (simp add: pending_status_def)
  with k r show ?thesis unfolding recorded_def kept_def by blast
qed

lemma kept_gates: "recheck_gates txt rsv o' e w = (x, w1) \<Longrightarrow> kept w w1"
proof -
  assume g: "recheck_gates txt rsv o' e w = (x, w1)"
  from recheck_gates_cases [OF g] show ?thesis
  proof (elim disjE exE conjE)
    fix r reason err v
    assume "block_relocation txt rsv e reason err v = (r, w1)" "w_store v = w_store w"
    then show ?thesis using kept_trans [OF kept_store kept_block] by blast
  qed (rule kept_store)
qed

lemma recheck_one_recorded:
  assumes "recheck_one txt mark rsv o' e limit att w = ((p, att1), w')"
  shows "kept w w' \<and> recorded w' p"
proof -
  obtain x w1 where g: "recheck_gates txt rsv o' e w = (x, w1)" by fastforce
  note k1 = kept_gates [OF g]
  show ?thesis
  proof (cases x)
    case (Inl r)
    then have "p = r" "w' = w1" using assms g by (simp_all add: recheck_one_def)
    with k1 recheck_gates_not_attempted [OF g [unfolded Inl]] show ?thesis by (simp add: recorded_def)
  next
    case (Inr dest)
    show ?thesis
    proof (cases "0 \<le> limit \<and> limit \<le> att")
      case True
      then have "w' = w1" "pd_outcome p = PendingSkippedBudget"
        using assms g Inr by (auto simp: recheck_one_def pending_result_of_def)
      with k1 show ?thesis by (simp add: recorded_def)
    next
      case False
      obtain t1 w2 where t1: "now_at w1 = (t1, w2)" by fastforce
      have k2: "kept w w2"
        using t1 by (intro kept_trans [OF k1] kept_store) (auto simp: now_at_def)
      obtain y w3 where mk: "mark (rq_id e) (unix_of t1) w2 = (y, w3)" by fastforce
      note k3 = kept_trans [OF k2 kept_mark [OF mk]]
      show ?thesis
      proof (cases y)
        case (Inl err)
        then have "w' = w3" "pd_outcome p = PendingBlocked"
          using assms g Inr False t1 mk by (auto simp: recheck_one_def pending_result_of_def)
        with k3 show ?thesis by (simp add: recorded_def)
      next
        case y: (Inr u)
        define act where "act = \<lparr> ma_module = ''offload'', ma_op = ''relocate'',
                          ma_target = rq_target e, ma_dest = dest, ma_size = 0, ma_risk = RiskMedium \<rparr>"
        obtain z w4 where ap: "on_rest (offload_apply o' act) w3 = (z, w4)" by fastforce
        note k4 = kept_trans [OF k3 kept_store [OF on_rest_store [OF ap]]]
        show ?thesis
        proof (cases z)
          case (Inl err)
          obtain r w5 where b: "block_relocation txt rsv e (ApplyFailed err) True w4 = (r, w5)" by fastforce
          then have "w' = w5" "p = r\<lparr>pd_attempted := True\<rparr>"
            using assms g Inr False t1 mk y ap Inl by (auto simp: recheck_one_def act_def)
          with kept_trans [OF k4 kept_block [OF b]] block_relocation_result [OF b]
          show ?thesis by (simp add: recorded_def)
        next
          case z: (Inr freed)
          obtain t2 w5 where t2: "now_at w4 = (t2, w5)" by fastforce
          have k5: "kept w w5"
            using t2 by (intro kept_trans [OF k4] kept_store) (auto simp: now_at_def)
          define q where "q = \<lparr> rr_status = RelocApplied, rr_blocked_reason = [], rr_freed = freed,
                                  rr_resolved_at = unix_of t2 \<rparr>"
          obtain v w6 where rs: "rsv (rq_id e) q w5 = (v, w6)" by fastforce
          have p: "w' = w6" "p = (pending_result_of e PendingApplied [] (case v of Inl _ \<Rightarrow> True | Inr _ \<Rightarrow> False))
              \<lparr> pd_freed := freed, pd_attempted := True \<rparr>"
            using assms g Inr False t1 mk y ap z t2 rs by (auto simp: recheck_one_def act_def q_def)
          have "recorded w6 p"
          proof (cases v)
            case (Inr u)
            with rs rsv_ok [of "rq_id e" q w5 u w6] p(2)
            show ?thesis by (simp add: recorded_def pending_result_of_def q_def)
          qed (use p(2) in \<open>simp add: recorded_def pending_result_of_def\<close>)
          with kept_trans [OF k5 kept_rsv [OF rs]] p(1) show ?thesis by simp
        qed
      qed
    qed
  qed
qed

lemma recheck_all_recorded:
  "recheck_all txt mark rsv o' stop n limit es att w = ((rs, err), w') \<Longrightarrow>
   kept w w' \<and> (\<forall>p \<in> set rs. recorded w' p)"
proof (induction es arbitrary: n att w rs)
  case Nil
  then show ?case by (simp add: kept_def)
next
  case (Cons e es)
  show ?case
  proof (cases "stop n")
    case True
    with Cons.prems show ?thesis by (simp add: kept_def)
  next
    case False
    obtain r att1 w1 where one: "recheck_one txt mark rsv o' e limit att w = ((r, att1), w1)" by (metis surj_pair)
    obtain rs1 err1 w2 where more: "recheck_all txt mark rsv o' stop (Suc n) limit es att1 w1 = ((rs1, err1), w2)"
      by (metis surj_pair)
    have eq: "rs = r # rs1" "err1 = err" "w2 = w'" using Cons.prems False one more by auto
    have IH: "kept w1 w' \<and> (\<forall>p \<in> set rs1. recorded w' p)" by (rule Cons.IH) (use more eq in simp)
    note k = recheck_one_recorded [OF one]
    have "kept w w'" by (rule kept_trans [OF conjunct1 [OF k] conjunct1 [OF IH]])
    moreover have "recorded w' r" by (rule recorded_kept [OF conjunct1 [OF IH] conjunct2 [OF k]])
    ultimately show ?thesis using conjunct2 [OF IH] by (simp add: eq)
  qed
qed

lemma run_pending_recorded:
  assumes "run_pending txt lst mark rsv o' stop tr limit w = ((rs, err), w')"
  shows "kept w w' \<and> (\<forall>p \<in> set rs. recorded w' p)"
proof (cases "tr \<noteq> ''daily'' \<and> tr \<noteq> ''manual''")
  case True
  with assms show ?thesis by (simp add: run_pending_def kept_def)
next
  case False
  obtain l w1 where l: "lst w = (l, w1)" by fastforce
  have k: "kept w w1" using lst_rows [OF l] by (simp add: kept_def)
  show ?thesis
  proof (cases l)
    case None
    with assms False l k show ?thesis by (auto simp: run_pending_def)
  next
    case (Some es)
    then have "recheck_all txt mark rsv o' stop 0 limit es 0 w1 = ((rs, err), w')"
      using assms False l by (auto simp: run_pending_def)
    from recheck_all_recorded [OF this] k show ?thesis using kept_trans by blast
  qed
qed

end

subsection \<open>The store as the queue\<close>

definition queue_list :: "qworld \<Rightarrow> reloc_row list option \<times> qworld" where
  "queue_list = on_store list_pending_relocations"

definition queue_mark :: marker where
  "queue_mark i t = on_store (mark_relocation_attempt i t)"

definition queue_resolve :: resolver where
  "queue_resolve i q = on_store (resolve_relocation i q)"

definition queue_rows :: "qworld \<Rightarrow> reloc_row list" where
  "queue_rows w = st_reloc (w_store w)"

lemma db_update_hit:
  assumes "db_exec (update_pending i f) s = (Some n, s')" "n \<noteq> 0" "\<And>r. rq_id (f r) = rq_id r"
  shows "\<exists>r \<in> set (st_reloc s). f r \<in> set (st_reloc s') \<and> rq_id (f r) = i"
proof -
  let ?s = "s\<lparr>db_calls := Suc (db_calls s)\<rparr>"
  have "update_pending i f ?s = (n, s')" using db_exec_Some [OF assms(1)] by simp
  then have n: "n = length (filter (\<lambda>r. rq_id r = i \<and> pending_row r) (st_reloc s))"
    and s': "st_reloc s' = map (\<lambda>r. if rq_id r = i \<and> pending_row r then f r else r) (st_reloc s)"
    by (auto simp: update_pending_def)
  from n assms(2) obtain r where "r \<in> set (st_reloc s)" "rq_id r = i \<and> pending_row r"
    by (auto simp: filter_empty_conv)
  with s' assms(3) show ?thesis by (auto simp: image_iff intro!: bexI [of _ r])
qed

lemma resolve_hit:
  assumes "resolve_relocation i q s = (Inr u, s')"
  shows "\<exists>r \<in> set (st_reloc s'). rq_id r = i \<and> rq_status r = rr_status q \<and> rq_freed r = rr_freed q"
proof -
  obtain n b t where u: "db_exec (update_pending i
      (\<lambda>r. r\<lparr>rq_status := rr_status q, rq_blocked_reason := b, rq_resolved_at := t, rq_freed := rr_freed q\<rparr>)) s = (Some n, s')"
    "n \<noteq> 0"
    using assms by (auto simp: resolve_relocation_def Let_def split: prod.splits option.splits if_splits)
  obtain r where "r\<lparr>rq_status := rr_status q, rq_blocked_reason := b, rq_resolved_at := t, rq_freed := rr_freed q\<rparr>
      \<in> set (st_reloc s')" "rq_id r = i"
    using db_update_hit [OF u] by auto
  then show ?thesis by (intro bexI [of _ "r\<lparr>rq_status := rr_status q, rq_blocked_reason := b, rq_resolved_at := t,
      rq_freed := rr_freed q\<rparr>"]) simp_all
qed

interpretation relocq: queue_store queue_list queue_mark queue_resolve queue_rows "\<lambda>w. queue_ok (w_store w)"
proof (unfold_locales, goal_cases)
  case (1 w x w')
  then show ?case
    by (auto simp: queue_list_def on_store_eq queue_rows_def list_pending_relocations_def db_exec_def Let_def)
next
  case (2 w x w')
  then have "w_store w' = snd (list_pending_relocations (w_store w))" by (auto simp: queue_list_def on_store_eq)
  with 2(2) show ?case using queue_step_inv [OF queue_step.list] by simp
next
  case (3 i t w y w' r)
  then have "w_store w' = snd (mark_relocation_attempt i t (w_store w))" by (auto simp: queue_mark_def on_store_eq)
  with 3(2,3) show ?case using queue_step_terminal [OF queue_step.mark] by (simp add: queue_rows_def)
next
  case (4 i t w y w')
  then have "w_store w' = snd (mark_relocation_attempt i t (w_store w))" by (auto simp: queue_mark_def on_store_eq)
  with 4(2) show ?case using queue_step_inv [OF queue_step.mark] by simp
next
  case (5 i q w y w' r)
  then have "w_store w' = snd (resolve_relocation i q (w_store w))" by (auto simp: queue_resolve_def on_store_eq)
  with 5(2,3) show ?case using queue_step_terminal [OF queue_step.resolve] by (simp add: queue_rows_def)
next
  case (6 i q w y w')
  then have "w_store w' = snd (resolve_relocation i q (w_store w))" by (auto simp: queue_resolve_def on_store_eq)
  with 6(2) show ?case using queue_step_inv [OF queue_step.resolve] by simp
next
  case (7 i q w u w')
  then have "resolve_relocation i q (w_store w) = (Inr u, w_store w')"
    by (auto simp: queue_resolve_def on_store_eq intro: prod_eqI)
  from resolve_hit [OF this] show ?case by (simp add: queue_rows_def)
next
  case (8 w' w)
  then show ?case by (simp add: queue_rows_def)
next
  case (9 w' w)
  then show ?case by simp
qed

text \<open>The daemon's call: its own store as the queue, the daily trigger, at most one relocation.\<close>

definition daemon_run_pending ::
  "(block_reason \<Rightarrow> string) \<Rightarrow> offload \<Rightarrow> (nat \<Rightarrow> bool) \<Rightarrow> qworld \<Rightarrow> pending_result list option \<times> qworld" where
  "daemon_run_pending txt o' stop w =
     (case run_pending txt queue_list queue_mark queue_resolve o' stop ''daily'' 1 w of
        ((rs, None), w1) \<Rightarrow> (Some rs, w1)
      | ((rs, Some e), w1) \<Rightarrow> (None, w1))"

text \<open>
  C38. A run keeps the queue well formed and every final row as it was, and a relocation it reports as
  applied without error is recorded: its row is applied, with the freed bytes of the report.
\<close>

theorem run_pending_records:
  assumes "run_pending txt queue_list queue_mark queue_resolve o' stop tr limit w = ((rs, err), w')"
  shows "(queue_ok (w_store w) \<longrightarrow> queue_ok (w_store w'))
    \<and> (\<forall>r \<in> set (st_reloc (w_store w)). \<not> pending_row r \<longrightarrow> r \<in> set (st_reloc (w_store w')))
    \<and> (\<forall>p \<in> set rs. pd_outcome p = PendingApplied \<and> \<not> pd_error p \<longrightarrow>
         (\<exists>r \<in> set (st_reloc (w_store w')). rq_id r = rq_id (pd_entry p) \<and> rq_status r = RelocApplied
            \<and> rq_freed r = pd_freed p))"
  using relocq.run_pending_recorded [OF assms]
  by (simp add: relocq.kept_def relocq.recorded_def queue_rows_def)

definition demo_queue_world :: qworld where
  "demo_queue_world = \<lparr> w_store = snd (enqueue_relocation \<lparr> rq_id = 0, rq_queued_at = 5, rq_target = ''/u/jobs'',
        rq_asset = ''jobs'', rq_dest_root = ''/v'', rq_dest_uuid = ''AB-1'', rq_gate_reason = [],
        rq_status = RelocQueued, rq_blocked_reason = None, rq_attempts = 0, rq_last_attempt = None,
        rq_resolved_at = None, rq_freed = 0 \<rparr> (empty_store (\<lambda>n. False))),
     w_clock = (\<lambda>n. 1000000000), w_ticks = 0, w_rest = machine_of demo_source \<rparr>"

abbreviation demo_run :: "(pending_result list \<times> pending_err option) \<times> qworld" where
  "demo_run \<equiv> run_pending (\<lambda>r. []) queue_list queue_mark queue_resolve demo_offload (\<lambda>n. False) ''manual'' 1 demo_queue_world"

lemma run_pending_budget_witness:
  "length (filter pd_attempted (fst (fst demo_run))) = 1 \<and> int (length (filter pd_attempted (fst (fst demo_run)))) \<le> 1"
proof -
  have "length (filter pd_attempted (fst (fst demo_run))) = 1" by code_simp
  moreover have "demo_run = ((fst (fst demo_run), snd (fst demo_run)), snd demo_run)" by simp
  from run_pending_budget [OF this]
  have "int (length (filter pd_attempted (fst (fst demo_run)))) \<le> 1" by simp
  ultimately show ?thesis ..
qed

lemma run_pending_records_witness:
  "map pd_outcome (fst (fst demo_run)) = [PendingApplied]
   \<and> (\<exists>r \<in> set (st_reloc (w_store (snd demo_run))). rq_id r = 1 \<and> rq_status r = RelocApplied \<and> rq_freed r = 5)"
proof -
  have 1: "map (\<lambda>p. (pd_outcome p, pd_error p, rq_id (pd_entry p), pd_freed p)) (fst (fst demo_run)) = [(PendingApplied, False, 1, 5)]"
    by code_simp
  have "demo_run = ((fst (fst demo_run), snd (fst demo_run)), snd demo_run)" by simp
  from run_pending_records [OF this]
  have "\<forall>p \<in> set (fst (fst demo_run)). pd_outcome p = PendingApplied \<and> \<not> pd_error p \<longrightarrow>
     (\<exists>r \<in> set (st_reloc (w_store (snd demo_run))). rq_id r = rq_id (pd_entry p) \<and> rq_status r = RelocApplied
        \<and> rq_freed r = pd_freed p)" by (elim conjE)
  with 1 show ?thesis by auto
qed

end
