(* ===== verification/Walk.thy ===== *)
theory Walk
  imports Fs
begin

text \<open>
  \<open>filepath.WalkDir\<close> as the program uses it: the list of the visits its callback gets. The root and
  every entry below it come in lexical order, a directory before its entries; a directory that cannot
  be listed is visited again with the error and its entries are not reached. An entry's \<open>Info\<close> may
  fail, because it is gone or otherwise. Which reads fail is the machine's fault stream.
\<close>

datatype info = InfoOk | InfoGone | InfoFailed

datatype visit =
    RootErr
  | ListErr loc
  | Visit loc fnode info

fun loc_le :: "loc \<Rightarrow> loc \<Rightarrow> bool" where
  "loc_le [] q = True"
| "loc_le (c # p) [] = False"
| "loc_le (c # p) (d # q) = (if c = d then loc_le p q else bytes_le c d)"

text \<open>The entries under a location in the order of the walk.\<close>

definition walk_order :: "fs \<Rightarrow> loc \<Rightarrow> fs" where
  "walk_order f p = sort_by (\<lambda>a b. loc_le (fst a) (fst b)) (filter (\<lambda>(k, n). prefix p k) f)"

definition info_at :: "machine \<Rightarrow> nat \<Rightarrow> loc \<Rightarrow> info" where
  "info_at m n k = (if \<not> mc_faults m n then InfoOk else if mc_partial m n k then InfoGone else InfoFailed)"

text \<open>Two reads an entry: its \<open>Info\<close>, and the listing when it is a directory.\<close>

fun visits :: "machine \<Rightarrow> nat \<Rightarrow> loc option \<Rightarrow> fs \<Rightarrow> visit list \<times> nat" where
  "visits m n sk [] = ([], n)"
| "visits m n sk ((k, nd) # es) =
     (if (case sk of None \<Rightarrow> False | Some d \<Rightarrow> strict_prefix d k) then visits m n sk es
      else
        let v = Visit k nd (info_at m n k);
            bad = (nd_kind nd = KDir \<and> mc_faults m (n + 1));
            (vs, j) = visits m (n + 2) (if bad then Some k else sk) es
        in (v # (if bad then ListErr k # vs else vs), j))"

definition walk_dir :: "path \<Rightarrow> machine \<Rightarrow> visit list \<times> machine" where
  "walk_dir p m =
     (let m' = m\<lparr>mc_calls := Suc (mc_calls m)\<rparr> in
      if mc_faults m (mc_calls m) then ([RootErr], m')
      else case lloc (mc_fs m) p of
        None \<Rightarrow> ([RootErr], m')
      | Some q \<Rightarrow>
          if node_at (mc_fs m) q = None then ([RootErr], m')
          else case visits m (mc_calls m') None (walk_order (mc_fs m) q) of
            (vs, j) \<Rightarrow> (vs, m'\<lparr>mc_calls := j\<rparr>))"

lemma walk_dir_fs [simp]: "mc_fs (snd (walk_dir p m)) = mc_fs m"
  by (simp add: walk_dir_def Let_def split: option.split prod.split)

end
