(* ===== verification/Families.thy ===== *)
theory Families
  imports Walk
begin

text \<open>
  Sibling families of temporary directories (\<open>internal/leaks/family.go\<close>): the key of a name with a
  random suffix, the handle that names a family in a report, its parsing, and the listing of a
  root's families on the file system.
\<close>

record family_key =
  fk_prefix :: string
  fk_sep :: string

record family =
  fa_root :: path
  fa_key :: family_key
  fa_members :: "path list"

record family_rule =
  fr_roots :: "string list"
  fr_min_members :: nat
  fr_excludes :: "string list"

definition sep_char :: "char \<Rightarrow> bool" where
  "sep_char c \<longleftrightarrow> c \<in> {CHR ''-'', CHR ''_'', CHR ''.''}"

definition is_lower :: "char \<Rightarrow> bool" where
  "is_lower c \<longleftrightarrow> 97 \<le> (of_char c :: nat) \<and> of_char c \<le> (122 :: nat)"

definition is_upper :: "char \<Rightarrow> bool" where
  "is_upper c \<longleftrightarrow> 65 \<le> (of_char c :: nat) \<and> of_char c \<le> (90 :: nat)"

definition alnum_run :: "string \<Rightarrow> bool" where
  "alnum_run s \<longleftrightarrow> 6 \<le> length s \<and> list_all (\<lambda>c. is_digit c \<or> is_lower c \<or> is_upper c) s"

text \<open>\<open>^(.*[^0-9])([0-9]{6,})$\<close>; a dot stands for no line feed.\<close>

definition trailing_digits :: "string \<Rightarrow> string option" where
  "trailing_digits name =
     (let ds = takeWhile is_digit (rev name); pre = rev (dropWhile is_digit (rev name)) in
      if 6 \<le> length ds \<and> pre \<noteq> [] \<and> CHR 0x0A \<notin> set (butlast pre) then Some pre else None)"

text \<open>The name around its last separator.\<close>

definition last_sep :: "string \<Rightarrow> (string \<times> char \<times> string) option" where
  "last_sep name = (case dropWhile (\<lambda>c. \<not> sep_char c) (rev name) of
     [] \<Rightarrow> None
   | c # pre \<Rightarrow> Some (rev pre, c, rev (takeWhile (\<lambda>c. \<not> sep_char c) (rev name))))"

definition family_key_of :: "string \<Rightarrow> family_key option" where
  "family_key_of name =
     (case trailing_digits name of
        Some pre \<Rightarrow>
          if 1 < length pre \<and> sep_char (last pre) then Some \<lparr> fk_prefix = butlast pre, fk_sep = [last pre] \<rparr>
          else Some \<lparr> fk_prefix = pre, fk_sep = [] \<rparr>
      | None \<Rightarrow> (case last_sep name of
            None \<Rightarrow> None
          | Some (pre, c, tail) \<Rightarrow>
              if pre \<noteq> [] \<and> alnum_run tail \<and> \<not> list_all is_lower tail \<and> \<not> list_all is_upper tail
              then Some \<lparr> fk_prefix = pre, fk_sep = [c] \<rparr> else None))"

definition family_handle :: "path \<Rightarrow> family_key \<Rightarrow> path" where
  "family_handle rt k = join_path [rt, fk_prefix k @ fk_sep k @ ''*'']"

definition parse_family_handle :: "path \<Rightarrow> (path \<times> family_key) option" where
  "parse_family_handle h =
     (let base = base_path h in
      if \<not> has_suffix base ''*'' \<or> length base < 2 then None
      else
        let stem = trim_suffix base ''*'';
            k = (if stem \<noteq> [] \<and> sep_char (last stem) then \<lparr> fk_prefix = butlast stem, fk_sep = [last stem] \<rparr>
                 else \<lparr> fk_prefix = stem, fk_sep = [] \<rparr>) in
        if fk_prefix k = [] then None else Some (dir_path h, k))"

definition excluded_name :: "string \<Rightarrow> family_rule \<Rightarrow> bool" where
  "excluded_name name rule \<longleftrightarrow> list_ex (\<lambda>ex. has_prefix name ex) (fr_excludes rule)"

subsection \<open>Handles name families\<close>

lemma trailing_digits_sub: "trailing_digits name = Some pre \<Longrightarrow> pre \<noteq> [] \<and> set pre \<subseteq> set name"
  using set_dropWhileD [of _ is_digit "rev name"]
  by (auto simp: trailing_digits_def Let_def split: if_splits)

lemma last_sep_sub: "last_sep name = Some (pre, c, tail) \<Longrightarrow> set pre \<subseteq> set name \<and> sep_char c \<and> c \<in> set name"
proof -
  assume "last_sep name = Some (pre, c, tail)"
  then have d: "dropWhile (\<lambda>c. \<not> sep_char c) (rev name) = c # rev pre"
    by (auto simp: last_sep_def split: list.splits)
  then have "sep_char c" by (auto simp: dropWhile_eq_Cons_conv)
  moreover have "x \<in> set name" if "x \<in> set (c # rev pre)" for x
    using that unfolding d [symmetric] by (auto dest: set_dropWhileD)
  ultimately show ?thesis by auto
qed

lemma family_key_shape:
  assumes "family_key_of name = Some k"
  shows "fk_prefix k \<noteq> [] \<and> set (fk_prefix k) \<subseteq> set name \<and> set (fk_sep k) \<subseteq> set name
    \<and> ((\<exists>c. sep_char c \<and> fk_sep k = [c]) \<or> fk_sep k = [] \<and> (length (fk_prefix k) = 1 \<or> \<not> sep_char (last (fk_prefix k))))"
proof (cases "trailing_digits name")
  case (Some pre)
  note pre = trailing_digits_sub [OF Some]
  show ?thesis
  proof (cases "1 < length pre \<and> sep_char (last pre)")
    case True
    then have "butlast pre \<noteq> []" "last pre \<in> set pre" by (cases pre rule: rev_cases; auto)+
    moreover have "set (butlast pre) \<subseteq> set pre" by (auto dest: in_set_butlastD)
    ultimately show ?thesis using assms Some True pre by (auto simp: family_key_of_def)
  next
    case False
    have "length pre = 1 \<or> 1 < length pre" using pre by (cases pre) auto
    moreover have "k = \<lparr> fk_prefix = pre, fk_sep = [] \<rparr>" using assms Some False by (auto simp: family_key_of_def)
    ultimately show ?thesis using False pre by auto
  qed
next
  case None
  then obtain pre c tail where ls: "last_sep name = Some (pre, c, tail)"
    using assms by (auto simp: family_key_of_def split: option.splits)
  show ?thesis
    using last_sep_sub [OF ls] assms None ls by (auto simp: family_key_of_def split: if_splits)
qed

text \<open>
  C32. The handle of a family names it: parsing gives the root and the key back, except for the key of a
  name like \<open>-123456\<close>, one separator followed by digits, whose handle does not parse.
\<close>

theorem family_handle_roundtrip:
  assumes "clean_abs rt" "slash \<notin> set name" "family_key_of name = Some k"
  shows "parse_family_handle (family_handle rt k)
    = (if fk_sep k = [] \<and> length (fk_prefix k) = 1 \<and> sep_char (hd (fk_prefix k)) then None else Some (rt, k))"
proof -
  note sh = family_key_shape [OF assms(3)]
  define stem where "stem = fk_prefix k @ fk_sep k"
  define w where "w = stem @ ''*''"
  have ne: "stem \<noteq> []" using sh by (simp add: stem_def)
  have "slash \<notin> set w" using sh assms(2) by (auto simp: w_def stem_def)
  moreover have "w \<noteq> ''.''" "w \<noteq> ''..''" by (auto simp: w_def append_eq_Cons_conv)
  ultimately have pw: "plain_comp w" by (simp add: plain_comp_def w_def)
  note rc = clean_abs_comps [OF assms(1)]
  have pl: "\<forall>v \<in> set (comps rt @ [w]). plain_comp v" using rc pw by auto
  have h: "family_handle rt k = render_path True (comps rt @ [w])"
    using join_path_render [OF pl] rc by (simp add: family_handle_def w_def stem_def)
  have base: "base_path (family_handle rt k) = w" unfolding h by (rule base_path_render [OF pl])
  have dir: "dir_path (family_handle rt k) = rt" unfolding h using dir_path_render [OF _ pl] rc by simp
  have len: "\<not> length w < 2" using ne by (cases stem) (auto simp: w_def)
  have suf: "has_suffix w ''*''" "trim_suffix w ''*'' = stem" by (simp_all add: w_def)
  have key: "\<lparr>fk_prefix = fk_prefix k, fk_sep = fk_sep k\<rparr> = k" by simp
  show ?thesis
  proof (cases "fk_sep k = []")
    case True
    then have st: "stem = fk_prefix k" by (simp add: stem_def)
    show ?thesis
    proof (cases "sep_char (last stem)")
      case sep: True
      then obtain c where "fk_prefix k = [c]" using sh True st by (auto simp: length_Suc_conv)
      with sep True show ?thesis
        unfolding parse_family_handle_def base dir Let_def suf using len suf st by simp
    next
      case False
      then have "\<not> (length (fk_prefix k) = 1 \<and> sep_char (hd (fk_prefix k)))" using st by (auto simp: length_Suc_conv)
      moreover have "\<lparr>fk_prefix = stem, fk_sep = []\<rparr> = k" using key True st by simp
      ultimately show ?thesis
        unfolding parse_family_handle_def base dir Let_def suf using len suf ne False st by simp
    qed
  next
    case False
    then obtain c where c: "sep_char c" "fk_sep k = [c]" using sh by blast
    then have "last stem = c" "butlast stem = fk_prefix k" by (simp_all add: stem_def)
    moreover have "\<lparr>fk_prefix = fk_prefix k, fk_sep = [c]\<rparr> = k" using key c by simp
    ultimately show ?thesis
      unfolding parse_family_handle_def base dir Let_def suf using len suf ne c sh by simp
  qed
qed

lemma family_handle_roundtrip_witness:
  "parse_family_handle (family_handle ''/private/tmp'' \<lparr> fk_prefix = ''bd-two'', fk_sep = ''-'' \<rparr>)
     = Some (''/private/tmp'', \<lparr> fk_prefix = ''bd-two'', fk_sep = ''-'' \<rparr>)
   \<and> parse_family_handle (family_handle ''/private/tmp'' \<lparr> fk_prefix = ''-'', fk_sep = [] \<rparr>) = None"
proof -
  have "\<forall>w \<in> set [''private'', ''tmp'']. plain_comp w" "''/private/tmp'' = render_path True [''private'', ''tmp'']"
    by (simp_all add: plain_comp_def render_path_def)
  then have r: "clean_abs ''/private/tmp''" unfolding clean_abs_def by blast
  have n: "slash \<notin> set ''bd-two-eBU8d7''" "slash \<notin> set ''-123456''" by simp_all
  have k: "family_key_of ''bd-two-eBU8d7'' = Some \<lparr> fk_prefix = ''bd-two'', fk_sep = ''-'' \<rparr>"
    "family_key_of ''-123456'' = Some \<lparr> fk_prefix = ''-'', fk_sep = [] \<rparr>" by code_simp+
  show ?thesis
    using family_handle_roundtrip [OF r n(1) k(1)] family_handle_roundtrip [OF r n(2) k(2)]
    by (simp add: sep_char_def)
qed

subsection \<open>Listing\<close>

text \<open>Members by key, in the order the keys are first seen.\<close>

fun add_member :: "family_key \<Rightarrow> path \<Rightarrow> (family_key \<times> path list) list \<Rightarrow> (family_key \<times> path list) list" where
  "add_member k p [] = [(k, [p])]"
| "add_member k p ((k', ps) # gs) = (if k = k' then (k', ps @ [p]) # gs else (k', ps) # add_member k p gs)"

definition member_node :: "int \<Rightarrow> fnode \<Rightarrow> bool" where
  "member_node uid nd \<longleftrightarrow> (nd_kind nd = KDir \<or> nd_kind nd = KFile) \<and> nd_uid nd = uid"

fun group_entries ::
  "path \<Rightarrow> family_rule \<Rightarrow> int \<Rightarrow> path list \<Rightarrow> (string \<times> fnode) list \<Rightarrow> (family_key \<times> path list) list \<Rightarrow> machine
   \<Rightarrow> (family_key \<times> path list) list \<times> machine" where
  "group_entries rt rule uid skip [] gs m = (gs, m)"
| "group_entries rt rule uid skip ((name, e) # es) gs m =
     (if excluded_name name rule then group_entries rt rule uid skip es gs m
      else case family_key_of name of
        None \<Rightarrow> group_entries rt rule uid skip es gs m
      | Some k \<Rightarrow>
          let p = join_path [rt, name] in
          if p \<in> set skip then group_entries rt rule uid skip es gs m
          else (case os_lstat p m of
              (None, m1) \<Rightarrow> group_entries rt rule uid skip es gs m1
            | (Some nd, m1) \<Rightarrow>
                group_entries rt rule uid skip es (if member_node uid nd then add_member k p gs else gs) m1))"

definition list_families :: "path \<Rightarrow> family_rule \<Rightarrow> int \<Rightarrow> path list \<Rightarrow> machine \<Rightarrow> family list \<times> machine" where
  "list_families rt rule uid skip m =
     (case os_read_dir rt m of
        (None, m1) \<Rightarrow> ([], m1)
      | (Some es, m1) \<Rightarrow> (case group_entries rt rule uid skip es [] m1 of
          (gs, m2) \<Rightarrow>
            (sort_by (\<lambda>a b. bytes_le (family_handle rt (fa_key a)) (family_handle rt (fa_key b)))
              (map (\<lambda>(k, ps). \<lparr> fa_root = rt, fa_key = k, fa_members = sort_by bytes_le ps \<rparr>) gs), m2)))"

definition family_for_handle :: "path \<Rightarrow> family_rule \<Rightarrow> int \<Rightarrow> machine \<Rightarrow> family option \<times> machine" where
  "family_for_handle h rule uid m =
     (case parse_family_handle h of
        None \<Rightarrow> (None, m)
      | Some (rt, k) \<Rightarrow> (case list_families rt rule uid [] m of
          (fs, m1) \<Rightarrow> (first_such (\<lambda>f. fa_key f = k) fs, m1)))"

subsection \<open>The facts of a tree\<close>

text \<open>The newest modification time and the first special file, \<open>None\<close> on any error of the walk.\<close>

fun tree_visits :: "visit list \<Rightarrow> time \<Rightarrow> loc option \<Rightarrow> (time \<times> loc option) option" where
  "tree_visits [] newest special = Some (newest, special)"
| "tree_visits (Visit k nd InfoOk # vs) newest special =
     tree_visits vs (max newest (nd_mtime nd)) (if special = None \<and> nd_kind nd = KOther then Some k else special)"
| "tree_visits (v # vs) newest special = None"

definition tree_facts :: "path \<Rightarrow> machine \<Rightarrow> (time \<times> loc option) option \<times> machine" where
  "tree_facts p m = (case walk_dir p m of (vs, m1) \<Rightarrow> (tree_visits vs zero_time None, m1))"

definition newest_mtime :: "path \<Rightarrow> machine \<Rightarrow> time option \<times> machine" where
  "newest_mtime p m = (case walk_dir p m of (vs, m1) \<Rightarrow> (map_option fst (tree_visits vs zero_time None), m1))"

text \<open>\<open>openMember\<close>: the first open path that is a member or below one.\<close>

definition open_member :: "path list \<Rightarrow> family \<Rightarrow> (path \<times> path) option" where
  "open_member opened fam =
     first_such (\<lambda>(p, mem). p = mem \<or> has_prefix p (mem @ ''/''))
       (concat (map (\<lambda>mem. map (\<lambda>p. (p, mem)) opened) (fa_members fam)))"

end
