(* ===== verification/FsGlob.thy ===== *)
theory FsGlob
  imports Walk GoGlob
begin

text \<open>
  \<open>filepath.Glob\<close> on the file system: the pattern is expanded directory by directory, a directory
  that cannot be read contributes nothing, and a malformed pattern is the only error.
\<close>

definition has_meta :: "string \<Rightarrow> bool" where
  "has_meta p \<longleftrightarrow> list_ex (\<lambda>c. c \<in> {CHR ''*'', CHR ''?'', CHR ''['', CHR 0x5C}) p"

text \<open>\<open>Readdirnames\<close>: an open or read error leaves the names read so far.\<close>

definition os_dir_names :: "path \<Rightarrow> machine \<Rightarrow> string list \<times> machine" where
  "os_dir_names p m =
     (let m' = m\<lparr>mc_calls := Suc (mc_calls m)\<rparr> in
      case sloc (mc_fs m) p of
        None \<Rightarrow> ([], m')
      | Some q \<Rightarrow>
          let ns = map fst (dir_entries (mc_fs m) q) in
          (if mc_faults m (mc_calls m) then filter (\<lambda>n. mc_partial m (mc_calls m) (q @ [n])) ns else ns, m'))"

fun glob_names :: "path \<Rightarrow> string \<Rightarrow> string list \<Rightarrow> path list option" where
  "glob_names dir pat [] = Some []"
| "glob_names dir pat (n # ns) = (case glob_match pat n of
     None \<Rightarrow> None
   | Some b \<Rightarrow> map_option (\<lambda>ps. if b then join_path [dir, n] # ps else ps) (glob_names dir pat ns))"

definition glob_dir :: "path \<Rightarrow> string \<Rightarrow> machine \<Rightarrow> path list option \<times> machine" where
  "glob_dir dir pat m =
     (case os_stat dir m of
        (None, m1) \<Rightarrow> (Some [], m1)
      | (Some nd, m1) \<Rightarrow>
          if nd_kind nd \<noteq> KDir then (Some [], m1)
          else case os_dir_names dir m1 of (ns, m2) \<Rightarrow> (glob_names dir pat ns, m2))"

fun glob_dirs :: "path list \<Rightarrow> string \<Rightarrow> machine \<Rightarrow> path list option \<times> machine" where
  "glob_dirs [] pat m = (Some [], m)"
| "glob_dirs (d # ds) pat m =
     (case glob_dir d pat m of
        (None, m1) \<Rightarrow> (None, m1)
      | (Some ps, m1) \<Rightarrow> (case glob_dirs ds pat m1 of (r, m2) \<Rightarrow> (map_option ((@) ps) r, m2)))"

text \<open>The components of the pattern, last first: \<open>filepath.Split\<close> takes the last one off.\<close>

fun glob_comps :: "string list \<Rightarrow> machine \<Rightarrow> path list option \<times> machine" where
  "glob_comps [] m = (Some [], m)"
| "glob_comps (file # rest) m =
     (let pat = join_with ''/'' (rev (file # rest));
          dir = (if rest = [] then ''.'' else if rest = [[]] then ''/'' else join_with ''/'' (rev rest)) in
      if glob_match pat [] = None then (None, m)
      else if \<not> has_meta pat then (case os_lstat pat m of (r, m1) \<Rightarrow> (Some (if r = None then [] else [pat]), m1))
      else if \<not> has_meta dir then glob_dir dir file m
      else (case glob_comps rest m of
          (None, m1) \<Rightarrow> (None, m1)
        | (Some ds, m1) \<Rightarrow> glob_dirs ds file m1))"

definition os_glob :: "string \<Rightarrow> machine \<Rightarrow> path list option \<times> machine" where
  "os_glob pat = glob_comps (rev (split_on slash pat))"

lemma os_dir_names_fs [simp]: "mc_fs (snd (os_dir_names p m)) = mc_fs m"
  by (simp add: os_dir_names_def Let_def split: option.split)

lemma glob_dir_fs [simp]: "mc_fs (snd (glob_dir d pat m)) = mc_fs m"
proof -
  obtain r m1 where s: "os_stat d m = (r, m1)" by fastforce
  then have "mc_fs m1 = mc_fs m" using os_stat_fs [of d m] by simp
  moreover obtain ns m2 where n: "os_dir_names d m1 = (ns, m2)" by fastforce
  moreover have "mc_fs m2 = mc_fs m1" using os_dir_names_fs [of d m1] n by simp
  ultimately show ?thesis by (simp add: glob_dir_def s split: option.split)
qed

lemma glob_dirs_fs [simp]: "mc_fs (snd (glob_dirs ds pat m)) = mc_fs m"
proof (induction ds arbitrary: m)
  case (Cons d ds)
  obtain r m1 where g: "glob_dir d pat m = (r, m1)" by fastforce
  then have "mc_fs m1 = mc_fs m" using glob_dir_fs [of d pat m] by simp
  with Cons.IH [of m1] show ?case by (cases "glob_dirs ds pat m1") (simp add: g split: option.split)
qed simp

lemma lstat_then_fs: "mc_fs (snd (case os_lstat p m of (r, m1) \<Rightarrow> (f r, m1))) = mc_fs m"
  using os_lstat_fs [of p m] by (cases "os_lstat p m") simp

lemma glob_comps_fs [simp]: "mc_fs (snd (glob_comps cs m)) = mc_fs m"
proof (induction cs arbitrary: m)
  case (Cons fl rest)
  obtain r2 m2 where g: "glob_comps rest m = (r2, m2)" by fastforce
  with Cons.IH [of m] have "mc_fs m2 = mc_fs m" by simp
  then show ?case by (simp add: Let_def g lstat_then_fs split: option.split)
qed simp

lemma os_glob_fs [simp]: "mc_fs (snd (os_glob pat m)) = mc_fs m"
  by (simp add: os_glob_def)

end
