(* ===== verification/Liveness.thy ===== *)
theory Liveness
  imports FsGlob
begin

text \<open>
  The liveness proofs behind the leak module: the reading of \<open>lsof\<close> (\<open>lsof.go\<close>, \<open>openfiles.go\<close>),
  launch causality (\<open>causality.go\<close>) and agent sessions (\<open>session.go\<close>). What a command printed and how
  it ended is an argument; the prose of a proof is a datatype.
\<close>

subsection \<open>lsof\<close>

datatype run_end = RunOk | RunExit int | RunFailed

record cmd_out =
  co_out :: string
  co_err :: string
  co_end :: run_end
  co_timeout :: bool

definition lf :: char where "lf = CHR 0x0A"

definition non_header_rows :: "string \<Rightarrow> string list" where
  "non_header_rows out = filter (\<lambda>l. l \<noteq> [] \<and> \<not> has_prefix l ''COMMAND'') (map trim_space (split_on lf out))"

text \<open>The rows, or \<open>None\<close> when emptiness could not be proven. \<open>lsof\<close> exits 1 when it finds nothing.\<close>

definition trusted_empty :: "cmd_out \<Rightarrow> bool" where
  "trusted_empty c \<longleftrightarrow> \<not> co_timeout c \<and> (co_end c = RunOk \<or> co_end c = RunExit 1 \<and> co_err c = [])"

definition lsof_tree_rows :: "cmd_out \<Rightarrow> string list option" where
  "lsof_tree_rows c =
     (let rows = non_header_rows (co_out c) in
      if rows \<noteq> [] then Some rows
      else if co_timeout c then None
      else case co_end c of
        RunOk \<Rightarrow> Some []
      | RunExit n \<Rightarrow> if n = 1 \<and> co_err c = [] then Some [] else None
      | RunFailed \<Rightarrow> None)"

text \<open>\<open>LsofProbe\<close>; \<open>None\<close> as output: no such command. True is live.\<close>

definition lsof_probe :: "cmd_out option \<Rightarrow> bool" where
  "lsof_probe c = (case c of None \<Rightarrow> True
     | Some o' \<Rightarrow> (case lsof_tree_rows o' of None \<Rightarrow> True | Some rows \<Rightarrow> rows \<noteq> []))"

definition parse_open_paths :: "string \<Rightarrow> path list" where
  "parse_open_paths out = map tl (filter (\<lambda>l. has_prefix l ''n/'') (split_on lf out))"

definition lsof_open_paths :: "cmd_out option \<Rightarrow> path list option" where
  "lsof_open_paths c = (case c of None \<Rightarrow> None
     | Some o' \<Rightarrow>
         let ps = parse_open_paths (co_out o') in
         if ps \<noteq> [] then Some ps
         else if co_timeout o' then None
         else case co_end o' of
           RunOk \<Rightarrow> Some []
         | RunExit n \<Rightarrow> if n = 1 \<and> co_err o' = [] then Some [] else None
         | RunFailed \<Rightarrow> None)"

lemma lsof_tree_rows_empty: "lsof_tree_rows c = Some [] \<longleftrightarrow> non_header_rows (co_out c) = [] \<and> trusted_empty c"
  by (auto simp: lsof_tree_rows_def trusted_empty_def Let_def split: run_end.split)

subsection \<open>Launch causality\<close>

definition causal_margin :: duration where "causal_margin = 10 * minute"

record lsof_row =
  lr_pid :: string
  lr_fd :: string

definition parse_lsof_row :: "string \<Rightarrow> lsof_row" where
  "parse_lsof_row r =
     (let f = GoStrings.fields r in
      if length f < 4 then \<lparr> lr_pid = [], lr_fd = [] \<rparr>
      else if parse_int (f ! 1) = None then \<lparr> lr_pid = [], lr_fd = [] \<rparr>
      else \<lparr> lr_pid = f ! 1, lr_fd = f ! 3 \<rparr>)"

definition parse_lsof_rows :: "string list \<Rightarrow> lsof_row list" where
  "parse_lsof_rows rows = map parse_lsof_row rows"

datatype causal_proof =
    QuietTree
  | TooYoung
  | BadRow
  | RealHandle string string
  | StartUnknown string
  | BornWith string time
  | AliasesOnly nat "string list"
  | NoRows
  | NoBirth

text \<open>The row loop collects each process's start time once, or stops with the reason the tree is live.\<close>

fun causal_rows :: "(string \<Rightarrow> time option) \<Rightarrow> lsof_row list \<Rightarrow> (string \<times> time) list
    \<Rightarrow> causal_proof + (string \<times> time) list" where
  "causal_rows start [] ss = Inr ss"
| "causal_rows start (r # rs) ss =
     (if lr_pid r = [] then Inl BadRow
      else if lr_fd r \<noteq> ''txt'' then Inl (RealHandle (lr_pid r) (lr_fd r))
      else if map_of ss (lr_pid r) \<noteq> None then causal_rows start rs ss
      else case start (lr_pid r) of
        None \<Rightarrow> Inl (StartUnknown (lr_pid r))
      | Some t \<Rightarrow> causal_rows start rs (ss @ [(lr_pid r, t)]))"

definition born_with :: "time \<Rightarrow> time \<Rightarrow> bool" where
  "born_with t birth \<longleftrightarrow> - causal_margin \<le> sub_time t birth \<and> sub_time t birth \<le> causal_margin"

definition causal_verdict :: "lsof_row list \<Rightarrow> (string \<Rightarrow> time option) \<Rightarrow> time \<Rightarrow> time \<Rightarrow> bool \<times> causal_proof" where
  "causal_verdict rows start birth now =
     (if rows = [] then (True, QuietTree)
      else if sub_time now birth < causal_margin then (False, TooYoung)
      else case causal_rows start rows [] of
        Inl p \<Rightarrow> (False, p)
      | Inr ss \<Rightarrow> (case first_such (\<lambda>(p, t). born_with t birth) ss of
            Some (p, t) \<Rightarrow> (False, BornWith p t)
          | None \<Rightarrow> (True, AliasesOnly (length rows) (sort_by bytes_le (map fst ss)))))"

text \<open>\<open>parseEtime\<close>: [[dd-]hh:]mm:ss, summed in int64.\<close>

fun etime_sum :: "int \<Rightarrow> string list \<Rightarrow> int option" where
  "etime_sum acc [] = Some acc"
| "etime_sum acc (p # ps) = (case parse_int p of None \<Rightarrow> None | Some n \<Rightarrow> etime_sum (wrap64 (acc * 60 + n)) ps)"

definition etime_clock :: "int \<Rightarrow> string \<Rightarrow> duration option" where
  "etime_clock days s =
     (let parts = split_on (CHR '':'') s in
      if length parts < 2 \<or> 3 < length parts then None
      else map_option (\<lambda>n. wrap64 (n * second + days * day)) (etime_sum 0 parts))"

definition parse_etime :: "string \<Rightarrow> duration option" where
  "parse_etime s =
     (if s = [] then None
      else if CHR ''-'' \<in> set s then
        (case parse_int (takeWhile (\<lambda>c. c \<noteq> CHR ''-'') s) of
           None \<Rightarrow> None
         | Some n \<Rightarrow> etime_clock n (tl (dropWhile (\<lambda>c. c \<noteq> CHR ''-'') s)))
      else etime_clock 0 s)"

text \<open>\<open>ps -o etime=\<close> of a process, \<open>None\<close> when the command failed.\<close>

definition ps_start_time :: "(string \<Rightarrow> string option) \<Rightarrow> time \<Rightarrow> string \<Rightarrow> time option" where
  "ps_start_time ps now pid = (case ps pid of None \<Rightarrow> None
     | Some out \<Rightarrow> map_option (\<lambda>d. now - d) (parse_etime (trim_space out)))"

definition causal_check ::
  "cmd_out \<Rightarrow> time option \<Rightarrow> time \<Rightarrow> (string \<Rightarrow> string option) \<Rightarrow> bool \<times> causal_proof" where
  "causal_check lsof birth now ps =
     (case lsof_tree_rows lsof of None \<Rightarrow> (False, NoRows)
      | Some rows \<Rightarrow> (case birth of None \<Rightarrow> (False, NoBirth)
        | Some b \<Rightarrow> causal_verdict (parse_lsof_rows rows) (ps_start_time ps now) b now))"

text \<open>The row loop: it ends well exactly when every row is a txt mapping of a process with a start time.\<close>

definition row_ok :: "(string \<Rightarrow> time option) \<Rightarrow> lsof_row \<Rightarrow> bool" where
  "row_ok start r \<longleftrightarrow> lr_pid r \<noteq> [] \<and> lr_fd r = ''txt'' \<and> start (lr_pid r) \<noteq> None"

definition starts_of :: "(string \<Rightarrow> time option) \<Rightarrow> lsof_row list \<Rightarrow> (string \<times> time) set" where
  "starts_of start rows = {(p, t). (\<exists>r \<in> set rows. lr_pid r = p) \<and> start p = Some t}"

lemma causal_rows_spec:
  assumes "\<forall>(p, t) \<in> set ss. start p = Some t"
  shows "if (\<forall>r \<in> set rows. row_ok start r)
    then \<exists>ss'. causal_rows start rows ss = Inr ss' \<and> set ss' = set ss \<union> starts_of start rows
    else \<exists>p. causal_rows start rows ss = Inl p"
  using assms
proof (induction rows arbitrary: ss)
  case Nil
  then show ?case by (simp add: starts_of_def)
next
  case (Cons r rows)
  show ?case
  proof (cases "row_ok start r")
    case False
    have "map_of ss (lr_pid r) = None" if "start (lr_pid r) = None"
      using that Cons.prems by (cases "map_of ss (lr_pid r)") (auto dest!: map_of_SomeD)
    with False show ?thesis by (auto simp: row_ok_def)
  next
    case True
    then obtain t where t: "start (lr_pid r) = Some t" by (auto simp: row_ok_def)
    define ss1 where "ss1 = (if map_of ss (lr_pid r) \<noteq> None then ss else ss @ [(lr_pid r, t)])"
    have step: "causal_rows start (r # rows) ss = causal_rows start rows ss1"
      using True t by (auto simp: ss1_def row_ok_def)
    have ok: "\<forall>(p, t) \<in> set ss1. start p = Some t" using Cons.prems t by (auto simp: ss1_def)
    have "(lr_pid r, t) \<in> set ss1"
      using Cons.prems t by (cases "map_of ss (lr_pid r)") (auto simp: ss1_def dest!: map_of_SomeD)
    then have "set ss1 = insert (lr_pid r, t) (set ss)" by (auto simp: ss1_def split: if_splits)
    moreover have "starts_of start (r # rows) = insert (lr_pid r, t) (starts_of start rows)"
      using t by (auto simp: starts_of_def)
    ultimately have "set ss1 \<union> starts_of start rows = set ss \<union> starts_of start (r # rows)" by simp
    with Cons.IH [OF ok] True step show ?thesis by (simp split: if_splits)
  qed
qed

text \<open>
  C30. A tree that looks open is judged stale exactly when nothing matched, or it is old enough and every
  match is a txt mapping of a known process whose start lies outside the window around its birth.
\<close>

theorem causal_verdict_iff:
  "fst (causal_verdict rows start birth now) \<longleftrightarrow>
     rows = [] \<or> causal_margin \<le> sub_time now birth
     \<and> (\<forall>r \<in> set rows. lr_pid r \<noteq> [] \<and> lr_fd r = ''txt''
         \<and> (\<exists>t. start (lr_pid r) = Some t \<and> \<not> born_with t birth))"
proof (cases "rows = [] \<or> sub_time now birth < causal_margin")
  case True
  then show ?thesis by (auto simp: causal_verdict_def)
next
  case False
  show ?thesis
  proof (cases "\<forall>r \<in> set rows. row_ok start r")
    case True
    then obtain ss where ss: "causal_rows start rows [] = Inr ss" "set ss = starts_of start rows"
      using causal_rows_spec [of "[]" start rows] by auto
    have "fst (causal_verdict rows start birth now) \<longleftrightarrow> first_such (\<lambda>(p, t). born_with t birth) ss = None"
      using False ss(1)
      by (cases "first_such (\<lambda>(p, t). born_with t birth) ss") (simp_all add: causal_verdict_def del: first_such_None split: prod.split)
    then have "fst (causal_verdict rows start birth now) \<longleftrightarrow> (\<forall>(p, t) \<in> set ss. \<not> born_with t birth)"
      unfolding first_such_None by (simp add: split_def)
    with True False ss(2) show ?thesis by (fastforce simp: starts_of_def row_ok_def)
  next
    case bad: False
    then obtain p where "causal_rows start rows [] = Inl p" using causal_rows_spec [of "[]" start rows] unfolding if_not_P [OF bad] by auto
    then have "\<not> fst (causal_verdict rows start birth now)" using False by (simp add: causal_verdict_def)
    moreover have "row_ok start r"
      if "\<forall>r \<in> set rows. lr_pid r \<noteq> [] \<and> lr_fd r = ''txt'' \<and> (\<exists>t. start (lr_pid r) = Some t \<and> \<not> born_with t birth)"
        "r \<in> set rows" for r
      using that by (auto simp: row_ok_def)
    ultimately show ?thesis using False bad by blast
  qed
qed

definition demo_start :: "string \<Rightarrow> time option" where
  "demo_start pid = (if pid = ''7'' then Some (3 * hour) else if pid = ''8'' then Some (5 * minute) else None)"

lemma causal_verdict_iff_witness:
  "fst (causal_verdict [\<lparr> lr_pid = ''7'', lr_fd = ''txt'' \<rparr>] demo_start 0 (4 * hour))
   \<and> \<not> fst (causal_verdict [\<lparr> lr_pid = ''7'', lr_fd = ''txt'' \<rparr>, \<lparr> lr_pid = ''8'', lr_fd = ''txt'' \<rparr>] demo_start 0 (4 * hour))"
proof -
  have "causal_margin \<le> sub_time (4 * hour) 0" by code_simp
  moreover have "demo_start ''7'' = Some (3 * hour)" "demo_start ''8'' = Some (5 * minute)" by (simp_all add: demo_start_def)
  moreover have "\<not> born_with (3 * hour) 0" "born_with (5 * minute) 0" by code_simp+
  ultimately show ?thesis unfolding causal_verdict_iff by simp
qed

text \<open>What \<open>ps\<close> prints for an elapsed time: [[dd-]hh:]mm:ss, two digits a field.\<close>

definition two_digits :: "int \<Rightarrow> string" where
  "two_digits n = [digit_char (n div 10), digit_char (n mod 10)]"

definition etime_text :: "int \<Rightarrow> int \<Rightarrow> int \<Rightarrow> int \<Rightarrow> string" where
  "etime_text d h m s =
     (if 0 < d then itoa d @ ''-'' @ two_digits h @ '':'' else if 0 < h then two_digits h @ '':'' else [])
     @ two_digits m @ '':'' @ two_digits s"

lemma digit_not_sep: "is_digit c \<Longrightarrow> c \<noteq> CHR ''-'' \<and> c \<noteq> CHR '':'' \<and> c \<noteq> CHR ''+''"
  by (auto simp: is_digit_def)

lemma two_digits_digits: "0 \<le> n \<Longrightarrow> n < 100 \<Longrightarrow> c \<in> set (two_digits n) \<Longrightarrow> is_digit c"
  by (auto simp: two_digits_def digit_char_is_digit)

lemma parse_two_digits: "0 \<le> n \<Longrightarrow> n < 100 \<Longrightarrow> parse_int (two_digits n) = Some n"
proof -
  assume n: "0 \<le> n" "n < 100"
  have "is_digit (digit_char (n div 10))" "is_digit (digit_char (n mod 10))" using n by (auto intro: digit_char_is_digit)
  moreover have "digit_val (digit_char (n div 10)) = n div 10" "digit_val (digit_char (n mod 10)) = n mod 10"
    using n by (auto intro: digit_val_digit_char)
  ultimately have v: "digits_val 0 (two_digits n) = Some n" by (simp add: two_digits_def)
  have "in_i64 n" using n by (simp add: in_i64_def min_i64_def max_i64_def)
  with v digit_not_sep [OF \<open>is_digit (digit_char (n div 10))\<close>] show ?thesis
    by (simp add: parse_int_def two_digits_def parse_uint_digits_def)
qed

lemma etime_clock_text:
  assumes "0 \<le> h" "h < 24" "0 \<le> m" "m < 60" "0 \<le> s" "s < 60" "0 \<le> d" "d \<le> 106750"
  shows "etime_clock d (two_digits m @ '':'' @ two_digits s) = Some ((m * 60 + s) * second + d * day)"
    "etime_clock d (two_digits h @ '':'' @ two_digits m @ '':'' @ two_digits s)
      = Some ((h * 3600 + m * 60 + s) * second + d * day)"
proof -
  have no: "CHR '':'' \<notin> set (two_digits n)" if "0 \<le> n" "n < 100" for n
    using two_digits_digits [OF that] digit_not_sep by blast
  have sp: "split_on (CHR '':'') (two_digits m @ '':'' @ two_digits s) = [two_digits m, two_digits s]"
    using assms no [of m] no [of s] by (simp add: split_on_sep_append split_on_plain)
  then have sp3: "split_on (CHR '':'') (two_digits h @ '':'' @ two_digits m @ '':'' @ two_digits s)
      = [two_digits h, two_digits m, two_digits s]"
    using assms no [of h] by (simp add: split_on_sep_append)
  have w: "wrap64 x = x" if "0 \<le> x" "x \<le> 106751 * day" for x
    using that by (intro wrap64_id) (simp add: in_i64_def min_i64_def max_i64_def day_def hour_def minute_def second_def)
  have b: "0 \<le> (n * second + d * day)" "n * second + d * day \<le> 106751 * day" if "0 \<le> n" "n < 86400" for n
    using that assms by (simp_all add: day_def hour_def minute_def second_def)
  have w': "wrap64 x = x" if "0 \<le> x" "x \<le> 100000" for x
    using that by (intro w) (simp_all add: day_def hour_def minute_def second_def)
  show "etime_clock d (two_digits m @ '':'' @ two_digits s) = Some ((m * 60 + s) * second + d * day)"
    unfolding etime_clock_def sp using assms w [OF b] by (simp add: parse_two_digits w')
  show "etime_clock d (two_digits h @ '':'' @ two_digits m @ '':'' @ two_digits s)
      = Some ((h * 3600 + m * 60 + s) * second + d * day)"
    unfolding etime_clock_def sp3
    using assms w [OF b, of "(h * 60 + m) * 60 + s"] by (simp add: parse_two_digits w')
qed

text \<open>
  Reading back what \<open>ps\<close> prints gives the elapsed time exactly, for every process up to 292 years old.
\<close>

lemma parse_etime_roundtrip:
  assumes "0 \<le> h" "h < 24" "0 \<le> m" "m < 60" "0 \<le> s" "s < 60" "0 \<le> d" "d \<le> 106750"
  shows "parse_etime (etime_text d h m s) = Some (d * day + h * hour + m * minute + s * second)"
proof -
  have eq: "(h * 3600 + m * 60 + s) * second + d * day = d * day + h * hour + m * minute + s * second"
    by (simp add: day_def hour_def minute_def second_def)
  have nd: "CHR ''-'' \<notin> set (two_digits n)" if "0 \<le> n" "n < 100" for n
    using two_digits_digits [OF that] digit_not_sep by blast
  note nds = nd [of h] nd [of m] nd [of s]
  note clock = etime_clock_text [OF assms(1-6)]
  show ?thesis
  proof (cases "0 < d")
    case True
    have di: "\<forall>c \<in> set (itoa d). c \<noteq> CHR ''-''"
      using True nat_digits_all_digits [of d] digit_not_sep by (auto simp: itoa_def)
    have tx: "etime_text d h m s = itoa d @ CHR ''-'' # (two_digits h @ '':'' @ two_digits m @ '':'' @ two_digits s)"
      using True by (simp add: etime_text_def)
    have tw: "takeWhile (\<lambda>c. c \<noteq> CHR ''-'') (itoa d @ CHR ''-'' # r) = itoa d"
      and dw: "dropWhile (\<lambda>c. c \<noteq> CHR ''-'') (itoa d @ CHR ''-'' # r) = CHR ''-'' # r" for r
      using di by (simp_all add: takeWhile_append dropWhile_append)
    have "in_i64 d" using assms by (simp add: in_i64_def min_i64_def max_i64_def)
    then show ?thesis
      unfolding parse_etime_def tx tw dw parse_int_itoa [OF \<open>in_i64 d\<close>] using clock(2) [OF assms(7,8)] eq by simp
  next
    case False
    then have d: "d = 0" using assms by simp
    show ?thesis
    proof (cases "0 < h")
      case True
      have tx: "etime_text d h m s = two_digits h @ '':'' @ two_digits m @ '':'' @ two_digits s"
        using True d by (simp add: etime_text_def)
      have "etime_text d h m s \<noteq> []" "CHR ''-'' \<notin> set (etime_text d h m s)" using tx nds assms by auto
      then have "parse_etime (etime_text d h m s) = etime_clock 0 (etime_text d h m s)" by (simp add: parse_etime_def)
      then show ?thesis unfolding tx using clock(2) [of 0] eq d by simp
    next
      case False
      then have h: "h = 0" using assms by simp
      have tx: "etime_text d h m s = two_digits m @ '':'' @ two_digits s"
        using h d by (simp add: etime_text_def)
      have "etime_text d h m s \<noteq> []" "CHR ''-'' \<notin> set (etime_text d h m s)" using tx nds assms by auto
      then have "parse_etime (etime_text d h m s) = etime_clock 0 (etime_text d h m s)" by (simp add: parse_etime_def)
      then show ?thesis unfolding tx using clock(1) [of 0] eq d h by simp
    qed
  qed
qed

lemma parse_etime_roundtrip_witness:
  "parse_etime ''11-03:04:59'' = Some (11 * day + 3 * hour + 4 * minute + 59 * second)"
proof -
  have "etime_text 11 3 4 59 = ''11-03:04:59''" by code_simp
  then show ?thesis using parse_etime_roundtrip [of 3 4 59 11] by simp
qed

subsection \<open>Agent sessions\<close>

definition is_hex :: "char \<Rightarrow> bool" where
  "is_hex c \<longleftrightarrow> (let n = (of_char c :: nat) in 48 \<le> n \<and> n \<le> 57 \<or> 65 \<le> n \<and> n \<le> 70 \<or> 97 \<le> n \<and> n \<le> 102)"

definition is_session_uuid :: "string \<Rightarrow> bool" where
  "is_session_uuid s \<longleftrightarrow> list_all (list_all is_hex) (split_on (CHR ''-'') s)
     \<and> map length (split_on (CHR ''-'') s) = [8, 4, 4, 4, 12]"

text \<open>\<open>(?i)--session-id[ =]+uuid(?:[^0-9a-fA-F-]|$)\<close>, found anywhere in the text.\<close>

definition uuid_here :: "string \<Rightarrow> string \<Rightarrow> bool" where
  "uuid_here uuid s \<longleftrightarrow> length uuid \<le> length s \<and> equal_fold (take (length uuid) s) uuid
     \<and> (case drop (length uuid) s of [] \<Rightarrow> True | c # r \<Rightarrow> \<not> is_hex c \<and> c \<noteq> CHR ''-'')"

fun after_seps :: "string \<Rightarrow> string \<Rightarrow> bool" where
  "after_seps uuid [] = False"
| "after_seps uuid (c # s) = (c \<in> {CHR '' '', CHR ''=''} \<and> (uuid_here uuid s \<or> after_seps uuid s))"

fun session_flag :: "string \<Rightarrow> string \<Rightarrow> bool" where
  "session_flag uuid [] = False"
| "session_flag uuid (c # s) =
     (equal_fold (take 12 (c # s)) ''--session-id'' \<and> after_seps uuid (drop 12 (c # s)) \<or> session_flag uuid s)"

definition args_carry_session :: "string \<Rightarrow> string \<Rightarrow> bool" where
  "args_carry_session out uuid \<longleftrightarrow> contains (to_lower out) ''--session-id'' \<and> session_flag uuid out"

text \<open>The newest of the transcripts that can be read.\<close>

fun newest_stat :: "path list \<Rightarrow> (time \<times> bool) \<Rightarrow> machine \<Rightarrow> (time \<times> bool) \<times> machine" where
  "newest_stat [] acc m = (acc, m)"
| "newest_stat (p # ps) (newest, found) m =
     (case os_stat p m of
        (None, m1) \<Rightarrow> newest_stat ps (newest, found) m1
      | (Some nd, m1) \<Rightarrow> newest_stat ps (max newest (nd_mtime nd), True) m1)"

definition transcript_mtime :: "path \<Rightarrow> string \<Rightarrow> machine \<Rightarrow> (time \<times> bool) \<times> machine" where
  "transcript_mtime home uuid m =
     (case os_glob (join_path [home, ''.claude'', ''projects'', ''*'', uuid @ ''.jsonl'']) m of
        (None, m1) \<Rightarrow> ((zero_time, False), m1)
      | (Some ps, m1) \<Rightarrow> newest_stat ps (zero_time, False) m1)"

datatype session_proof = PsFailed | FlagFound | TranscriptFresh duration | TranscriptOld duration | NoTranscript

definition session_probe ::
  "path \<Rightarrow> (machine \<Rightarrow> time) \<Rightarrow> (machine \<Rightarrow> string option \<times> machine) \<Rightarrow> string \<Rightarrow> duration \<Rightarrow> machine
   \<Rightarrow> (bool \<times> session_proof) \<times> machine" where
  "session_probe home now ps uuid window m =
     (case ps m of
        (None, m1) \<Rightarrow> ((True, PsFailed), m1)
      | (Some out, m1) \<Rightarrow>
          if args_carry_session out uuid then ((True, FlagFound), m1)
          else (case transcript_mtime home uuid m1 of ((mt, found), m2) \<Rightarrow>
            if found then
              (let age = sub_time (now m2) mt in
               if age < window then ((True, TranscriptFresh age), m2) else ((False, TranscriptOld age), m2))
            else ((False, NoTranscript), m2)))"

end
