(* ===== verification/Sizer.thy ===== *)
theory Sizer
  imports Walk "HOL-Library.Signed_Division"
begin

text \<open>
  \<open>internal/sizer\<close>: how much space trees occupy. The 20-byte wire form of \<open>struct log2phys\<close>, the
  per-device set of physical extents and its union, the extent walk of one file, the walks over trees
  (\<open>Blocks\<close>, \<open>UniqueAllocated\<close>, \<open>Union\<close>) and the freed-bytes measurement. The fcntl, the seek and
  statfs are arguments.
\<close>

subsection \<open>The wire form\<close>

record log2phys =
  lp_flags :: int
  lp_contig :: int
  lp_devoffset :: int

text \<open>\<open>binary.LittleEndian.PutUint\<close> of \<open>n\<close> bytes and its inverse.\<close>

fun put_le :: "nat \<Rightarrow> int \<Rightarrow> int list" where
  "put_le 0 x = []"
| "put_le (Suc n) x = (x mod 256) # put_le n (x div 256)"

fun get_le :: "int list \<Rightarrow> int" where
  "get_le [] = 0"
| "get_le (b # bs) = b + 256 * get_le bs"

definition marshal_log2phys :: "log2phys \<Rightarrow> int list" where
  "marshal_log2phys l = put_le 4 (lp_flags l) @ put_le 8 (lp_contig l mod 2 ^ 64) @ put_le 8 (lp_devoffset l mod 2 ^ 64)"

definition unmarshal_log2phys :: "int list \<Rightarrow> log2phys" where
  "unmarshal_log2phys b = \<lparr> lp_flags = get_le (take 4 b), lp_contig = wrap64 (get_le (take 8 (drop 4 b))),
     lp_devoffset = wrap64 (get_le (take 8 (drop 12 b))) \<rparr>"

definition log2phys_ok :: "log2phys \<Rightarrow> bool" where
  "log2phys_ok l \<longleftrightarrow> 0 \<le> lp_flags l \<and> lp_flags l < 2 ^ 32 \<and> in_i64 (lp_contig l) \<and> in_i64 (lp_devoffset l)"

lemma length_put_le [simp]: "length (put_le n x) = n"
  by (induction n arbitrary: x) auto

lemma put_le_bytes: "b \<in> set (put_le n x) \<Longrightarrow> 0 \<le> b \<and> b < 256"
  by (induction n arbitrary: x) auto

lemma get_put_le: "get_le (put_le n x) = x mod 256 ^ n"
proof (induction n arbitrary: x)
  case (Suc n)
  have "x mod 256 + 256 * (x div 256 mod 256 ^ n) = x mod (256 * 256 ^ n)"
    by (simp add: zmod_zmult2_eq)
  with Suc show ?case by simp
qed simp

lemma put_get_le: "\<forall>b \<in> set bs. 0 \<le> b \<and> b < 256 \<Longrightarrow> put_le (length bs) (get_le bs) = bs"
  by (induction bs) auto

lemma get_le_bound: "\<forall>b \<in> set bs. 0 \<le> b \<and> b < 256 \<Longrightarrow> 0 \<le> get_le bs \<and> get_le bs < 256 ^ length bs"
proof (induction bs)
  case (Cons b bs)
  then have "0 \<le> get_le bs" "get_le bs < 256 ^ length bs" "0 \<le> b" "b < 256" by auto
  then show ?case by simp
qed simp

lemma wrap64_of_mod: "in_i64 x \<Longrightarrow> wrap64 (x mod 2 ^ 64) = x"
proof -
  assume "in_i64 x"
  then have "wrap64 x = x" by simp
  then show ?thesis by (simp add: wrap64_mod mod_add_left_eq)
qed

lemma mod_of_wrap64: "0 \<le> x \<Longrightarrow> x < 2 ^ 64 \<Longrightarrow> wrap64 x mod 2 ^ 64 = x"
  by (simp add: wrap64_mod mod_diff_left_eq)

text \<open>
  The hand-made marshalling is the pack(4) layout: 20 bytes, and unmarshalling what was marshalled
  gives every field back; marshalling what was unmarshalled gives the same bytes.
\<close>

lemma log2phys_roundtrip:
  "(log2phys_ok l \<longrightarrow> length (marshal_log2phys l) = 20 \<and> unmarshal_log2phys (marshal_log2phys l) = l)
   \<and> (length b = 20 \<and> (\<forall>x \<in> set b. 0 \<le> x \<and> x < 256) \<longrightarrow> marshal_log2phys (unmarshal_log2phys b) = b)"
proof (intro conjI impI)
  assume ok: "log2phys_ok l"
  show "length (marshal_log2phys l) = 20" by (simp add: marshal_log2phys_def)
  have d: "drop 4 (marshal_log2phys l) = put_le 8 (lp_contig l mod 2 ^ 64) @ put_le 8 (lp_devoffset l mod 2 ^ 64)"
    "drop 12 (marshal_log2phys l) = put_le 8 (lp_devoffset l mod 2 ^ 64)"
    "take 4 (marshal_log2phys l) = put_le 4 (lp_flags l)"
    by (simp_all add: marshal_log2phys_def)
  have f: "get_le (put_le 4 (lp_flags l)) = lp_flags l"
    using ok by (simp only: get_put_le) (simp add: log2phys_ok_def)
  have s: "wrap64 (get_le (put_le 8 (x mod 2 ^ 64))) = x" if "in_i64 x" for x
    using wrap64_of_mod [OF that] by (simp only: get_put_le) simp
  show "unmarshal_log2phys (marshal_log2phys l) = l"
    unfolding unmarshal_log2phys_def d using ok s f by (simp add: log2phys_ok_def)
next
  assume b: "length b = 20 \<and> (\<forall>x \<in> set b. 0 \<le> x \<and> x < 256)"
  let ?p = "take 4 b" and ?q = "take 8 (drop 4 b)" and ?r = "take 8 (drop 12 b)"
  have bytes: "\<forall>x \<in> set ?p. 0 \<le> x \<and> x < 256" "\<forall>x \<in> set ?q. 0 \<le> x \<and> x < 256" "\<forall>x \<in> set ?r. 0 \<le> x \<and> x < 256"
    using b by (meson in_set_takeD in_set_dropD)+
  have len: "length ?p = 4" "length ?q = 8" "length ?r = 8" using b by simp_all
  have s: "wrap64 (get_le x) mod 2 ^ 64 = get_le x" if "\<forall>y \<in> set x. 0 \<le> y \<and> y < 256" "length x = 8" for x
    using get_le_bound [OF that(1)] that(2) by (intro mod_of_wrap64) simp_all
  have "put_le 4 (get_le ?p) = ?p" "put_le 8 (get_le ?q) = ?q" "put_le 8 (get_le ?r) = ?r"
    using put_get_le [OF bytes(1)] put_get_le [OF bytes(2)] put_get_le [OF bytes(3)] by (simp_all only: len)
  then have "marshal_log2phys (unmarshal_log2phys b) = ?p @ ?q @ ?r"
    by (simp only: marshal_log2phys_def unmarshal_log2phys_def log2phys.select_convs s [OF bytes(2) len(2)] s [OF bytes(3) len(3)])
  also have "?q @ ?r = drop 4 b"
  proof -
    have "take 8 (drop 12 b) = drop 12 b" using b by simp
    moreover have "drop 12 b = drop 8 (drop 4 b)" by simp
    ultimately show ?thesis by (metis append_take_drop_id)
  qed
  also have "?p @ drop 4 b = b" by simp
  finally show "marshal_log2phys (unmarshal_log2phys b) = b" .
qed

lemma log2phys_roundtrip_witness:
  "unmarshal_log2phys (marshal_log2phys \<lparr> lp_flags = 7, lp_contig = 4096, lp_devoffset = - 1 \<rparr>)
     = \<lparr> lp_flags = 7, lp_contig = 4096, lp_devoffset = - 1 \<rparr>
   \<and> marshal_log2phys (unmarshal_log2phys (replicate 20 255)) = replicate 20 255"
proof -
  have "log2phys_ok \<lparr> lp_flags = 7, lp_contig = 4096, lp_devoffset = - 1 \<rparr>"
    by (simp add: log2phys_ok_def in_i64_def min_i64_def max_i64_def)
  moreover have "length (replicate 20 255 :: int list) = 20 \<and> (\<forall>x \<in> set (replicate 20 255). 0 \<le> x \<and> x < (256 :: int))"
    by simp
  ultimately show ?thesis
    using log2phys_roundtrip [of "\<lparr> lp_flags = 7, lp_contig = 4096, lp_devoffset = - 1 \<rparr>" "replicate 20 255"] by blast
qed

subsection \<open>Extent sets\<close>

type_synonym extent = "int \<times> int"
type_synonym extent_set = "(int \<times> extent list) list"

text \<open>The map from a device to its extents, in the order they came.\<close>

fun add_dev :: "int \<Rightarrow> extent \<Rightarrow> extent_set \<Rightarrow> extent_set" where
  "add_dev d e [] = [(d, [e])]"
| "add_dev d e ((d', es) # s) = (if d = d' then (d', es @ [e]) # s else (d', es) # add_dev d e s)"

definition add_extent :: "int \<Rightarrow> int \<Rightarrow> int \<Rightarrow> extent_set \<Rightarrow> extent_set" where
  "add_extent dev start len s = (if len \<le> 0 then s else add_dev dev (start, wrap64 (start + len)) s)"

text \<open>The sweep over the extents of one device, sorted by start: the current run and the sum so far.\<close>

fun sweep :: "int \<Rightarrow> int \<Rightarrow> extent list \<Rightarrow> int" where
  "sweep cs ce [] = ce - cs"
| "sweep cs ce ((s, e) # es) =
     (if s \<le> ce then sweep cs (if ce < e then e else ce) es
      else (ce - cs) + sweep s e es)"

definition dev_total :: "extent list \<Rightarrow> int" where
  "dev_total es = (case sort_key fst es of [] \<Rightarrow> 0 | (s, e) # r \<Rightarrow> sweep s e r)"

definition extent_total :: "extent_set \<Rightarrow> int" where
  "extent_total s = wrap64 (sum_list (map (dev_total \<circ> snd) s))"

definition bytes_of :: "extent list \<Rightarrow> int set" where
  "bytes_of es = (\<Union>(s, e) \<in> set es. {s..<e})"

lemma sweep_card:
  assumes "cs \<le> ce" "\<forall>(s, e) \<in> set es. s \<le> e" "sorted (map fst es)" "\<forall>(s, e) \<in> set es. cs \<le> s"
  shows "sweep cs ce es = int (card ({cs..<ce} \<union> bytes_of es))"
  using assms
proof (induction cs ce es rule: sweep.induct)
  case (1 cs ce)
  then show ?case by (simp add: bytes_of_def)
next
  case (2 cs ce s e es)
  have se: "s \<le> e" and cs: "cs \<le> s" using "2.prems" by auto
  show ?case
  proof (cases "s \<le> ce")
    case True
    let ?ce = "if ce < e then e else ce"
    have "{cs..<ce} \<union> bytes_of ((s, e) # es) = {cs..<?ce} \<union> bytes_of es"
      using True cs by (auto simp: bytes_of_def)
    moreover have "sweep cs ?ce es = int (card ({cs..<?ce} \<union> bytes_of es))"
      by (rule "2.IH"(1) [OF True]) (use "2.prems" in auto)
    ultimately show ?thesis using True by simp
  next
    case False
    have later: "\<forall>(s', e') \<in> set es. s \<le> s'" using "2.prems"(3) by auto
    have "sweep s e es = int (card ({s..<e} \<union> bytes_of es))"
      by (rule "2.IH"(2) [OF False]) (use "2.prems" se later in auto)
    moreover have "{cs..<ce} \<inter> ({s..<e} \<union> bytes_of es) = {}"
      using False later by (fastforce simp: bytes_of_def)
    moreover have "finite ({s..<e} \<union> bytes_of es)" by (auto simp: bytes_of_def)
    ultimately have "int (card ({cs..<ce} \<union> ({s..<e} \<union> bytes_of es))) = (ce - cs) + sweep s e es"
      using "2.prems"(1) by (simp add: card_Un_disjoint)
    moreover have "{cs..<ce} \<union> bytes_of ((s, e) # es) = {cs..<ce} \<union> ({s..<e} \<union> bytes_of es)"
      by (simp add: bytes_of_def)
    ultimately show ?thesis using False by simp
  qed
qed

lemma dev_total_card: "\<forall>(s, e) \<in> set es. s \<le> e \<Longrightarrow> dev_total es = int (card (bytes_of es))"
proof -
  assume ok: "\<forall>(s, e) \<in> set es. s \<le> e"
  have same: "bytes_of (sort_key fst es) = bytes_of es" by (simp add: bytes_of_def)
  show ?thesis
  proof (cases "sort_key fst es")
    case Nil
    with same show ?thesis by (simp add: dev_total_def bytes_of_def)
  next
    case (Cons x r)
    obtain s e where x: "x = (s, e)" by fastforce
    have srt: "sorted (map fst ((s, e) # r))" using Cons x by (metis sorted_sort_key)
    have mem: "set ((s, e) # r) = set es" using Cons x by (metis set_sort)
    have "sweep s e r = int (card ({s..<e} \<union> bytes_of r))"
      by (rule sweep_card) (use ok srt mem in auto)
    moreover have "bytes_of ((s, e) # r) = {s..<e} \<union> bytes_of r" by (simp add: bytes_of_def)
    ultimately show ?thesis using same Cons x by (simp add: dev_total_def)
  qed
qed

definition set_ok :: "extent_set \<Rightarrow> bool" where
  "set_ok s \<longleftrightarrow> distinct (map fst s) \<and> (\<forall>(d, es) \<in> set s. \<forall>(a, b) \<in> set es. a \<le> b)"

lemma add_dev_keys: "fst ` set (add_dev d e s) = insert d (fst ` set s)"
  by (induction d e s rule: add_dev.induct) auto

lemma add_dev_ok: "set_ok s \<Longrightarrow> fst e \<le> snd e \<Longrightarrow> set_ok (add_dev d e s)"
proof (induction s)
  case Nil
  then show ?case by (auto simp: set_ok_def)
next
  case (Cons x s)
  obtain d' es where x: "x = (d', es)" by fastforce
  have "set_ok s" using Cons.prems(1) by (auto simp: set_ok_def)
  then have IH: "set_ok (add_dev d e s)" by (rule Cons.IH [OF _ Cons.prems(2)])
  show ?case
  proof (cases "d = d'")
    case True
    with Cons.prems x show ?thesis by (fastforce simp: set_ok_def)
  next
    case False
    have "d' \<notin> fst ` set (add_dev d e s)"
      using Cons.prems(1) False x by (simp add: set_ok_def add_dev_keys)
    with IH Cons.prems False x show ?thesis by (auto simp: set_ok_def)
  qed
qed

lemma bytes_of_append: "bytes_of (es @ fs) = bytes_of es \<union> bytes_of fs"
  by (auto simp: bytes_of_def)

lemma bytes_of_single: "bytes_of [e] = {fst e..<snd e}"
  by (auto simp: bytes_of_def split: prod.splits)

text \<open>The bytes of a device the set covers.\<close>

definition covered :: "extent_set \<Rightarrow> int \<Rightarrow> int set" where
  "covered s d = (case map_of s d of None \<Rightarrow> {} | Some es \<Rightarrow> bytes_of es)"

lemma covered_Cons: "covered ((k, es) # s) d = (if d = k then bytes_of es else covered s d)"
  by (simp add: covered_def)

lemma covered_Nil [simp]: "covered [] d = {}"
  by (simp add: covered_def)

lemma covered_add_dev: "covered (add_dev d e s) d' = (if d' = d then covered s d \<union> {fst e..<snd e} else covered s d')"
proof (induction d e s rule: add_dev.induct)
  case (1 d e)
  show ?case by (simp add: covered_Cons bytes_of_single)
next
  case (2 d e d'' es s)
  show ?case
  proof (cases "d = d''")
    case True
    then show ?thesis by (simp add: covered_Cons bytes_of_append bytes_of_single)
  next
    case False
    with 2 show ?thesis by (cases "d' = d") (simp_all add: covered_Cons)
  qed
qed

lemma extent_total_covered:
  assumes "set_ok s"
  shows "extent_total s = wrap64 (\<Sum>d \<in> fst ` set s. int (card (covered s d)))"
proof -
  have "sum_list (map (dev_total \<circ> snd) s) = sum_list (map (\<lambda>d. int (card (covered s d))) (map fst s))"
    unfolding map_map
  proof (rule arg_cong [of _ _ sum_list], rule map_cong [OF refl])
    fix x assume x: "x \<in> set s"
    obtain d es where de: "x = (d, es)" by fastforce
    have "map_of s d = Some es" using assms x de by (simp add: set_ok_def map_of_is_SomeI)
    moreover have "\<forall>(a, b) \<in> set es. a \<le> b" using assms x de by (auto simp: set_ok_def)
    ultimately show "(dev_total \<circ> snd) x = ((\<lambda>d. int (card (covered s d))) \<circ> fst) x"
      by (simp add: de covered_def dev_total_card)
  qed
  also have "\<dots> = (\<Sum>d \<in> set (map fst s). int (card (covered s d)))"
    using assms by (intro sum_list_distinct_conv_sum_set) (simp add: set_ok_def)
  finally show ?thesis by (simp add: extent_total_def)
qed

text \<open>What a sequence of \<open>add\<close> calls collects.\<close>

definition add_all_extents :: "(int \<times> int \<times> int) list \<Rightarrow> extent_set \<Rightarrow> extent_set" where
  "add_all_extents xs s = foldl (\<lambda>s (d, a, l). add_extent d a l s) s xs"

definition spans :: "(int \<times> int \<times> int) list \<Rightarrow> int \<Rightarrow> int set" where
  "spans xs d = (\<Union>(d', a, l) \<in> set xs. if d' = d then {a..<a + l} else {})"

definition in_range :: "int \<times> int \<times> int \<Rightarrow> bool" where
  "in_range x \<longleftrightarrow> (case x of (d, a, l) \<Rightarrow> 0 \<le> a \<and> in_i64 a \<and> in_i64 l \<and> a + l \<le> max_i64)"

lemma add_extent_step:
  assumes "in_range (d, a, l)" "set_ok s"
  shows "set_ok (add_extent d a l s) \<and> (\<forall>d'. covered (add_extent d a l s) d' = covered s d' \<union> (if d' = d then {a..<a + l} else {}))
    \<and> fst ` set (add_extent d a l s) \<subseteq> insert d (fst ` set s)"
proof (cases "l \<le> 0")
  case True
  with assms show ?thesis by (auto simp: add_extent_def)
next
  case False
  have "in_i64 (a + l)" using assms(1) False by (auto simp: in_range_def in_i64_def max_i64_def min_i64_def)
  then have w: "wrap64 (a + l) = a + l" by simp
  have "set_ok (add_dev d (a, a + l) s)" by (rule add_dev_ok [OF assms(2)]) (use False in simp)
  with False w show ?thesis by (auto simp: add_extent_def covered_add_dev add_dev_keys)
qed

lemma add_all_extents_step:
  "\<forall>x \<in> set xs. in_range x \<Longrightarrow> set_ok s \<Longrightarrow>
   set_ok (add_all_extents xs s) \<and> (\<forall>d. covered (add_all_extents xs s) d = covered s d \<union> spans xs d)
   \<and> fst ` set (add_all_extents xs s) \<subseteq> fst ` set s \<union> fst ` set xs"
proof (induction xs arbitrary: s)
  case Nil
  then show ?case by (simp add: add_all_extents_def spans_def)
next
  case (Cons x xs)
  obtain d a l where x: "x = (d, a, l)" by (cases x) auto
  have st: "set_ok (add_extent d a l s) \<and> (\<forall>d'. covered (add_extent d a l s) d' = covered s d' \<union> (if d' = d then {a..<a + l} else {}))
    \<and> fst ` set (add_extent d a l s) \<subseteq> insert d (fst ` set s)"
    by (rule add_extent_step) (use Cons.prems x in auto)
  have eq: "add_all_extents (x # xs) s = add_all_extents xs (add_extent d a l s)"
    by (simp add: add_all_extents_def x)
  have sp: "spans (x # xs) d' = (if d' = d then {a..<a + l} else {}) \<union> spans xs d'" for d'
    by (auto simp: spans_def x)
  have "set_ok (add_all_extents xs (add_extent d a l s))
     \<and> (\<forall>d'. covered (add_all_extents xs (add_extent d a l s)) d' = covered (add_extent d a l s) d' \<union> spans xs d')
     \<and> fst ` set (add_all_extents xs (add_extent d a l s)) \<subseteq> fst ` set (add_extent d a l s) \<union> fst ` set xs"
    by (rule Cons.IH) (use Cons.prems st in auto)
  then have 1: "set_ok (add_all_extents xs (add_extent d a l s))"
    and 2: "\<forall>d'. covered (add_all_extents xs (add_extent d a l s)) d' = covered (add_extent d a l s) d' \<union> spans xs d'"
    and 3: "fst ` set (add_all_extents xs (add_extent d a l s)) \<subseteq> fst ` set (add_extent d a l s) \<union> fst ` set xs"
    by blast+
  have "fst ` set (add_extent d a l s) \<union> fst ` set xs \<subseteq> fst ` set s \<union> fst ` set (x # xs)"
    using st x by auto
  with 3 have "fst ` set (add_all_extents xs (add_extent d a l s)) \<subseteq> fst ` set s \<union> fst ` set (x # xs)" by (rule subset_trans)
  with 1 2 st show ?case unfolding eq sp by (simp add: Un_assoc)
qed

lemma set_ok_Nil [simp]: "set_ok []"
  by (simp add: set_ok_def)

lemma finite_spans [simp]: "finite (spans xs d)"
  by (auto simp: spans_def)

lemma extent_total_spans:
  assumes "\<forall>x \<in> set xs. in_range x"
  shows "extent_total (add_all_extents xs []) = wrap64 (\<Sum>d \<in> fst ` set xs. int (card (spans xs d)))"
proof -
  let ?s = "add_all_extents xs []"
  have st: "set_ok ?s" "\<And>d. covered ?s d = spans xs d" "fst ` set ?s \<subseteq> fst ` set xs"
    using add_all_extents_step [OF assms, of "[]"] by auto
  have none: "covered ?s d = {}" if "d \<notin> fst ` set ?s" for d
    using that by (auto simp: covered_def map_of_eq_None_iff split: option.splits dest: map_of_SomeD)
       (metis Some_eq_map_of_iff domIff dom_map_of_conv_image_fst image_eqI option.distinct(1) fst_conv map_of_SomeD)
  have "(\<Sum>d \<in> fst ` set ?s. int (card (covered ?s d))) = (\<Sum>d \<in> fst ` set xs. int (card (covered ?s d)))"
    by (rule sum.mono_neutral_left) (use st(3) none in auto)
  then show ?thesis unfolding extent_total_covered [OF st(1)] st(2) by simp
qed

text \<open>
  C31. The extent sweep counts every physical byte once: after any sequence of extents, in any order
  and however they overlap, the total is the number of distinct bytes of each device they cover,
  summed over the devices (so clones are counted once, and equal offsets on two devices twice).
\<close>

theorem extent_union_exact:
  assumes "\<forall>x \<in> set xs. in_range x" "(\<Sum>d \<in> fst ` set xs. int (card (spans xs d))) \<le> max_i64"
  shows "extent_total (add_all_extents xs []) = (\<Sum>d \<in> fst ` set xs. int (card (spans xs d)))"
proof -
  have "0 \<le> (\<Sum>d \<in> fst ` set xs. int (card (spans xs d)))" by (intro sum_nonneg) simp
  then have "in_i64 (\<Sum>d \<in> fst ` set xs. int (card (spans xs d)))"
    using assms(2) by (simp add: in_i64_def min_i64_def)
  then show ?thesis unfolding extent_total_spans [OF assms(1)] by simp
qed

lemma extent_union_exact_witness:
  "extent_total (add_all_extents [(1, 0, 10), (2, 0, 10), (1, 5, 10), (1, 40, 2)] []) = 27
   \<and> (\<Sum>d \<in> {1, 2 :: int}. int (card (spans [(1, 0, 10), (2, 0, 10), (1, 5, 10), (1, 40, 2)] d))) = 27"
proof -
  let ?xs = "[(1, 0, 10), (2, 0, 10), (1, 5, 10), (1, 40, 2)] :: (int \<times> int \<times> int) list"
  have ok: "\<forall>x \<in> set ?xs. in_range x" by (simp add: in_range_def in_i64_def min_i64_def max_i64_def)
  have "spans ?xs 1 = {0..<15} \<union> {40..<42}" "spans ?xs 2 = {0..<10}" by (auto simp: spans_def)
  moreover have "card ({0..<15} \<union> {40..<42 :: int}) = 17" by (subst card_Un_disjoint) auto
  ultimately have s: "(\<Sum>d \<in> {1, 2 :: int}. int (card (spans ?xs d))) = 27" by simp
  have d: "fst ` set ?xs = {1, 2}" by auto
  have "extent_total (add_all_extents ?xs []) = (\<Sum>d \<in> fst ` set ?xs. int (card (spans ?xs d)))"
    by (rule extent_union_exact [OF ok]) (unfold d s, simp add: max_i64_def)
  with s d show ?thesis by simp
qed

subsection \<open>The extents of one file\<close>

datatype seek_result = SeekTo int | SeekNoData | SeekFailed

text \<open>What the open file answers: the extent at an offset, the next data, the block size.\<close>

record file_map =
  fm_extent :: "int \<Rightarrow> int \<Rightarrow> log2phys option"
  fm_seek :: "int \<Rightarrow> seek_result"
  fm_bsize :: "int option"

definition fs_block_size :: "int option \<Rightarrow> int" where
  "fs_block_size b = (case b of None \<Rightarrow> 4096 | Some n \<Rightarrow> if n = 0 then 4096 else n)"

definition block_remain :: "int \<Rightarrow> int \<Rightarrow> int" where
  "block_remain bs remain = (let r = remain smod bs in if r \<noteq> 0 then remain + (bs - r) else remain)"

text \<open>The loop goes on only with a positive extent or a later data offset.\<close>

function file_extents :: "file_map \<Rightarrow> int \<Rightarrow> int \<Rightarrow> int \<Rightarrow> int \<Rightarrow> extent_set list \<Rightarrow> int \<times> extent_set list" where
  "file_extents fm bs dev size' off sets =
     (if size' \<le> off then (0, sets)
      else case fm_extent fm off (block_remain bs (size' - off)) of
        Some l \<Rightarrow>
          if 0 < lp_contig l then
            file_extents fm bs dev size' (off + lp_contig l)
              (if 0 \<le> lp_devoffset l then map (add_extent dev (lp_devoffset l) (lp_contig l)) sets else sets)
          else (case fm_seek fm off of
              SeekTo nx \<Rightarrow> if nx \<le> off then (1, sets) else file_extents fm bs dev size' nx sets
            | SeekNoData \<Rightarrow> (0, sets) | SeekFailed \<Rightarrow> (1, sets))
      | None \<Rightarrow> (case fm_seek fm off of
              SeekTo nx \<Rightarrow> if nx \<le> off then (1, sets) else file_extents fm bs dev size' nx sets
            | SeekNoData \<Rightarrow> (0, sets) | SeekFailed \<Rightarrow> (1, sets)))"
  by pat_completeness auto
termination
  by (relation "measure (\<lambda>(fm, bs, dev, size', off, sets). nat (size' - off))") (auto split: if_splits)

declare file_extents.simps [simp del]

definition add_file_extents :: "file_map \<Rightarrow> int \<Rightarrow> int \<Rightarrow> extent_set list \<Rightarrow> int \<times> extent_set list" where
  "add_file_extents fm dev size' sets =
     (if size' \<le> 0 then (0, sets) else file_extents fm (fs_block_size (fm_bsize fm)) dev size' 0 sets)"

subsection \<open>The walks\<close>

record tree_size =
  ts_files :: int
  ts_errs :: int
  ts_logical :: int
  ts_blocks :: int
  ts_unique :: int

definition zero_size :: tree_size where
  "zero_size = \<lparr> ts_files = 0, ts_errs = 0, ts_logical = 0, ts_blocks = 0, ts_unique = 0 \<rparr>"

definition block_unit :: int where "block_unit = 512"

text \<open>The root's own error ends a walk before any entry.\<close>

fun walk_failed :: "visit list \<Rightarrow> bool" where
  "walk_failed (RootErr # vs) = True"
| "walk_failed (Visit k n i # ListErr k' # vs) = (k = k')"
| "walk_failed vs = False"

definition add_err :: "tree_size \<Rightarrow> tree_size" where
  "add_err ts = ts\<lparr>ts_errs := ts_errs ts + 1\<rparr>"

definition add_file :: "fnode \<Rightarrow> tree_size \<Rightarrow> tree_size" where
  "add_file nd ts = ts\<lparr>ts_files := ts_files ts + 1, ts_logical := wrap64 (ts_logical ts + nd_size nd),
     ts_blocks := wrap64 (ts_blocks ts + nd_blocks nd * block_unit)\<rparr>"

fun blocks_walk :: "visit list \<Rightarrow> (int \<times> int) list \<Rightarrow> tree_size \<Rightarrow> tree_size" where
  "blocks_walk [] seen ts = ts"
| "blocks_walk (RootErr # vs) seen ts = blocks_walk vs seen (add_err ts)"
| "blocks_walk (ListErr k # vs) seen ts = blocks_walk vs seen (add_err ts)"
| "blocks_walk (Visit k nd i # vs) seen ts =
     (if nd_kind nd \<noteq> KFile then blocks_walk vs seen ts
      else case i of
        InfoGone \<Rightarrow> blocks_walk vs seen ts
      | InfoFailed \<Rightarrow> blocks_walk vs seen (add_err ts)
      | InfoOk \<Rightarrow>
          if 1 < nd_nlink nd \<and> nd_ino nd \<in> set seen then blocks_walk vs seen ts
          else blocks_walk vs (if 1 < nd_nlink nd then nd_ino nd # seen else seen) (add_file nd ts))"

definition sizer_blocks :: "path \<Rightarrow> machine \<Rightarrow> tree_size option \<times> machine" where
  "sizer_blocks p m = (case walk_dir p m of (vs, m') \<Rightarrow>
     (if walk_failed vs then None else Some (blocks_walk vs [] zero_size), m'))"

text \<open>\<open>walkExtents\<close>; the device of a file is the first part of its inode key, \<open>op\<close> opens it.\<close>

fun extents_walk ::
  "(loc \<Rightarrow> fnode \<Rightarrow> file_map option) \<Rightarrow> visit list \<Rightarrow> (int \<times> int) list \<Rightarrow> tree_size \<Rightarrow> extent_set list
   \<Rightarrow> (int \<times> int) list \<times> tree_size \<times> extent_set list" where
  "extents_walk op [] seen ts sets = (seen, ts, sets)"
| "extents_walk op (RootErr # vs) seen ts sets = extents_walk op vs seen (add_err ts) sets"
| "extents_walk op (ListErr k # vs) seen ts sets = extents_walk op vs seen (add_err ts) sets"
| "extents_walk op (Visit k nd i # vs) seen ts sets =
     (if nd_kind nd \<noteq> KFile then extents_walk op vs seen ts sets
      else case i of
        InfoGone \<Rightarrow> extents_walk op vs seen ts sets
      | InfoFailed \<Rightarrow> extents_walk op vs seen (add_err ts) sets
      | InfoOk \<Rightarrow>
          if nd_ino nd \<in> set seen then extents_walk op vs seen ts sets
          else (case op k nd of
              None \<Rightarrow> extents_walk op vs (nd_ino nd # seen) (add_err (add_file nd ts)) sets
            | Some fm \<Rightarrow> (case add_file_extents fm (fst (nd_ino nd)) (nd_size nd) sets of
                (errs, sets') \<Rightarrow> extents_walk op vs (nd_ino nd # seen)
                  ((add_file nd ts)\<lparr>ts_errs := ts_errs ts + errs\<rparr>) sets')))"

type_synonym opener = "machine \<Rightarrow> loc \<Rightarrow> fnode \<Rightarrow> file_map option"

fun walk_roots ::
  "opener \<Rightarrow> path list \<Rightarrow> (int \<times> int) list \<Rightarrow> tree_size \<Rightarrow> extent_set list \<Rightarrow> machine
   \<Rightarrow> (tree_size option \<times> extent_set list) \<times> machine" where
  "walk_roots op [] seen ts sets m = ((Some ts, sets), m)"
| "walk_roots op (p # ps) seen ts sets m =
     (case walk_dir p m of (vs, m1) \<Rightarrow>
        if walk_failed vs then ((None, sets), m1)
        else case extents_walk (op m) vs seen ts sets of
          (seen1, ts1, sets1) \<Rightarrow> walk_roots op ps seen1 ts1 sets1 m1)"

definition unique_allocated :: "opener \<Rightarrow> path list \<Rightarrow> machine \<Rightarrow> tree_size option \<times> machine" where
  "unique_allocated op ps m =
     (case walk_roots op ps [] zero_size [[]] m of
        ((None, sets), m1) \<Rightarrow> (None, m1)
      | ((Some ts, sets), m1) \<Rightarrow> (Some (ts\<lparr>ts_unique := extent_total (hd sets)\<rparr>), m1))"

text \<open>\<open>Union.Add\<close> and \<open>AddAll\<close>: the tree's own measure, its extents also merged into the union.\<close>

definition union_add_all :: "opener \<Rightarrow> path list \<Rightarrow> extent_set \<Rightarrow> machine \<Rightarrow> (tree_size option \<times> extent_set) \<times> machine" where
  "union_add_all op ps u m =
     (case walk_roots op ps [] zero_size [[], u] m of
        ((None, sets), m1) \<Rightarrow> ((None, sets ! 1), m1)
      | ((Some ts, sets), m1) \<Rightarrow> ((Some (ts\<lparr>ts_unique := extent_total (sets ! 0)\<rparr>), sets ! 1), m1))"

definition union_add :: "opener \<Rightarrow> path \<Rightarrow> extent_set \<Rightarrow> machine \<Rightarrow> (tree_size option \<times> extent_set) \<times> machine" where
  "union_add op p = union_add_all op [p]"

datatype 'e freed_err = StatfsFailed | ActionFailed 'e

text \<open>\<open>statfs\<close> gives the available blocks and the block size.\<close>

definition freed_by_delete ::
  "(path \<Rightarrow> machine \<Rightarrow> (int \<times> int) option \<times> machine) \<Rightarrow> path \<Rightarrow> (machine \<Rightarrow> 'e option \<times> machine) \<Rightarrow> machine
   \<Rightarrow> (int \<times> 'e freed_err option) \<times> machine" where
  "freed_by_delete statfs vol fn m =
     (case statfs vol m of
        (None, m1) \<Rightarrow> ((0, Some StatfsFailed), m1)
      | (Some (before, bsize), m1) \<Rightarrow> (case fn m1 of (e, m2) \<Rightarrow>
          (case statfs vol m2 of
             (None, m3) \<Rightarrow> ((0, Some StatfsFailed), m3)
           | (Some (after, bsize'), m3) \<Rightarrow>
               ((wrap64 (wrap64 (after - before) * bsize), map_option ActionFailed e), m3))))"

subsection \<open>Rows and headline\<close>

text \<open>A file's walk adds the same extents to each set it is given.\<close>

definition extents_in :: "(int \<times> int \<times> int \<Rightarrow> bool) \<Rightarrow> file_map \<Rightarrow> int \<Rightarrow> bool" where
  "extents_in P fm dev \<longleftrightarrow> (\<forall>off r l. fm_extent fm off r = Some l \<and> 0 \<le> lp_devoffset l \<and> 0 < lp_contig l \<longrightarrow>
     P (dev, lp_devoffset l, lp_contig l))"

lemma add_all_extents_Cons: "add_all_extents ((d, a, l) # xs) s = add_all_extents xs (add_extent d a l s)"
  by (simp add: add_all_extents_def)

lemma add_all_extents_Nil [simp]: "add_all_extents [] = (\<lambda>s. s)"
  by (simp add: add_all_extents_def fun_eq_iff)

lemma add_all_extents_append: "add_all_extents (xs @ ys) s = add_all_extents ys (add_all_extents xs s)"
  by (simp add: add_all_extents_def)

lemma file_extents_lockstep:
  "extents_in P fm dev \<Longrightarrow> \<exists>xs e. (\<forall>x \<in> set xs. P x) \<and> (\<forall>sets. file_extents fm bs dev z off sets = (e, map (add_all_extents xs) sets))"
proof (induction "nat (z - off)" arbitrary: off rule: less_induct)
  case less
  have seek: "\<exists>xs e. (\<forall>x \<in> set xs. P x) \<and> (\<forall>sets. (case fm_seek fm off of
        SeekTo nx \<Rightarrow> if nx \<le> off then (1, sets) else file_extents fm bs dev z nx sets
      | SeekNoData \<Rightarrow> (0, sets) | SeekFailed \<Rightarrow> (1, sets)) = (e, map (add_all_extents xs) sets))" if "off < z"
  proof (cases "fm_seek fm off")
    case (SeekTo nx)
    show ?thesis
    proof (cases "nx \<le> off")
      case True
      show ?thesis by (rule exI [of _ "[]"], rule exI [of _ 1]) (simp add: SeekTo True)
    next
      case False
      have "nat (z - nx) < nat (z - off)" using False that by simp
      from less.hyps [OF this less.prems] show ?thesis by (simp add: SeekTo False)
    qed
  next
    case SeekNoData
    show ?thesis by (rule exI [of _ "[]"], rule exI [of _ 0]) (simp add: SeekNoData)
  next
    case SeekFailed
    show ?thesis by (rule exI [of _ "[]"], rule exI [of _ 1]) (simp add: SeekFailed)
  qed
  show ?case
  proof (cases "z \<le> off")
    case True
    show ?thesis by (rule exI [of _ "[]"], rule exI [of _ 0]) (simp add: file_extents.simps True)
  next
    case False
    show ?thesis
    proof (cases "\<exists>l. fm_extent fm off (block_remain bs (z - off)) = Some l \<and> 0 < lp_contig l")
      case True
      then obtain l where l: "fm_extent fm off (block_remain bs (z - off)) = Some l" "0 < lp_contig l" by blast
      have "nat (z - (off + lp_contig l)) < nat (z - off)" using l(2) False by simp
      from less.hyps [OF this less.prems] obtain xs e where xs: "\<forall>x \<in> set xs. P x"
        "\<forall>sets. file_extents fm bs dev z (off + lp_contig l) sets = (e, map (add_all_extents xs) sets)" by blast
      let ?x = "(dev, lp_devoffset l, lp_contig l)"
      show ?thesis
      proof (cases "0 \<le> lp_devoffset l")
        case True
        then have "P ?x" using less.prems l by (auto simp: extents_in_def)
        then show ?thesis
          using xs True l False
          by (intro exI [of _ "?x # xs"] exI [of _ e])
            (simp add: file_extents.simps [of fm bs dev z off] add_all_extents_Cons)
      next
        case neg: False
        then show ?thesis
          using xs l False
          by (intro exI [of _ xs] exI [of _ e]) (simp add: file_extents.simps [of fm bs dev z off])
      qed
    next
      case nl: False
      from seek False obtain xs e where xs: "\<forall>x \<in> set xs. P x" "\<forall>sets. (case fm_seek fm off of
          SeekTo nx \<Rightarrow> if nx \<le> off then (1, sets) else file_extents fm bs dev z nx sets
        | SeekNoData \<Rightarrow> (0, sets) | SeekFailed \<Rightarrow> (1, sets)) = (e, map (add_all_extents xs) sets)" by auto
      have "file_extents fm bs dev z off sets = (e, map (add_all_extents xs) sets)" for sets
        using xs(2) nl False
        by (subst file_extents.simps) (auto split: option.splits)
      with xs(1) show ?thesis by blast
    qed
  qed
qed

definition opener_in :: "(int \<times> int \<times> int \<Rightarrow> bool) \<Rightarrow> opener \<Rightarrow> bool" where
  "opener_in P op \<longleftrightarrow> (\<forall>m k nd fm. op m k nd = Some fm \<longrightarrow> extents_in P fm (fst (nd_ino nd)))"

lemma add_file_extents_lockstep:
  "extents_in P fm dev \<Longrightarrow> \<exists>xs e. (\<forall>x \<in> set xs. P x) \<and> (\<forall>sets. add_file_extents fm dev z sets = (e, map (add_all_extents xs) sets))"
proof (cases "z \<le> 0")
  case True
  then show ?thesis by (intro exI [of _ "[]"] exI [of _ 0]) (simp add: add_file_extents_def)
next
  case False
  assume "extents_in P fm dev"
  from file_extents_lockstep [OF this] False show ?thesis by (simp add: add_file_extents_def)
qed

lemma extents_walk_lockstep:
  "opener_in P op \<Longrightarrow> \<exists>xs s' t'. (\<forall>x \<in> set xs. P x)
     \<and> (\<forall>sets. extents_walk (op m) vs seen ts sets = (s', t', map (add_all_extents xs) sets))"
proof (induction vs arbitrary: seen ts)
  case Nil
  show ?case by (rule exI [of _ "[]"]) simp
next
  case (Cons v vs)
  note IH = Cons.IH [OF Cons.prems]
  show ?case
  proof (cases v)
    case (Visit k nd i)
    show ?thesis
    proof (cases "nd_kind nd = KFile \<and> i = InfoOk \<and> nd_ino nd \<notin> set seen")
      case False
      have "(\<forall>sets. extents_walk (op m) (v # vs) seen ts sets = extents_walk (op m) vs seen ts sets)
        \<or> (\<forall>sets. extents_walk (op m) (v # vs) seen ts sets = extents_walk (op m) vs seen (add_err ts) sets)"
        by (cases "nd_kind nd = KFile"; cases i) (use False in \<open>simp_all add: Visit\<close>)
      then show ?thesis
      proof
        assume "\<forall>sets. extents_walk (op m) (v # vs) seen ts sets = extents_walk (op m) vs seen ts sets"
        with IH [of seen ts] show ?thesis by simp
      next
        assume "\<forall>sets. extents_walk (op m) (v # vs) seen ts sets = extents_walk (op m) vs seen (add_err ts) sets"
        with IH [of seen "add_err ts"] show ?thesis by simp
      qed
    next
      case True
      show ?thesis
      proof (cases "op m k nd")
        case None
        from IH [of "nd_ino nd # seen" "add_err (add_file nd ts)"] True None show ?thesis by (simp add: Visit)
      next
        case (Some fm)
        then have "extents_in P fm (fst (nd_ino nd))" using Cons.prems by (simp add: opener_in_def)
        from add_file_extents_lockstep [OF this] obtain xs e where xs: "\<forall>x \<in> set xs. P x"
          "\<And>sets. add_file_extents fm (fst (nd_ino nd)) (nd_size nd) sets = (e, map (add_all_extents xs) sets)" by metis
        obtain ys s' t' where ys: "\<forall>x \<in> set ys. P x" "\<And>sets. extents_walk (op m) vs (nd_ino nd # seen)
            ((add_file nd ts)\<lparr>ts_errs := ts_errs ts + e\<rparr>) sets = (s', t', map (add_all_extents ys) sets)"
          using IH by metis
        show ?thesis
          by (rule exI [of _ "xs @ ys"], rule exI [of _ s'], rule exI [of _ t'])
            (use xs ys True Some in \<open>auto simp: Visit add_all_extents_append\<close>)
      qed
    qed
  qed (use IH in \<open>simp_all add: Cons\<close>)
qed

lemma walk_roots_lockstep:
  "opener_in P op \<Longrightarrow> \<exists>xs r m'. (\<forall>x \<in> set xs. P x)
     \<and> (\<forall>sets. walk_roots op ps seen ts sets m = ((r, map (add_all_extents xs) sets), m'))"
proof (induction ps arbitrary: seen ts m)
  case Nil
  show ?case by (rule exI [of _ "[]"]) simp
next
  case (Cons p ps)
  obtain vs m1 where w: "walk_dir p m = (vs, m1)" by fastforce
  show ?case
  proof (cases "walk_failed vs")
    case True
    then show ?thesis by (intro exI [of _ "[]"] exI [of _ None] exI [of _ m1]) (simp add: w)
  next
    case False
    obtain xs s' t' where xs: "\<forall>x \<in> set xs. P x"
      "\<And>sets. extents_walk (op m) vs seen ts sets = (s', t', map (add_all_extents xs) sets)"
      using extents_walk_lockstep [OF Cons.prems] by metis
    obtain ys r m' where ys: "\<forall>x \<in> set ys. P x"
      "\<And>sets. walk_roots op ps s' t' sets m1 = ((r, map (add_all_extents ys) sets), m')"
      using Cons.IH [OF Cons.prems] by metis
    show ?thesis
      by (rule exI [of _ "xs @ ys"], rule exI [of _ r], rule exI [of _ m'])
        (use xs ys False in \<open>auto simp: w add_all_extents_append\<close>)
  qed
qed

text \<open>One row after the other through the same union, as a scan measures its hits.\<close>

fun measure_rows :: "opener \<Rightarrow> path list list \<Rightarrow> extent_set \<Rightarrow> machine \<Rightarrow> (tree_size option list \<times> extent_set) \<times> machine" where
  "measure_rows op [] u m = (([], u), m)"
| "measure_rows op (ps # pss) u m =
     (case union_add_all op ps u m of ((r, u1), m1) \<Rightarrow>
        (case measure_rows op pss u1 m1 of ((rs, u2), m2) \<Rightarrow> ((r # rs, u2), m2)))"

text \<open>Extents on known devices of bounded size.\<close>

definition on_devices :: "int set \<Rightarrow> int \<Rightarrow> int \<times> int \<times> int \<Rightarrow> bool" where
  "on_devices ds cap x \<longleftrightarrow> (case x of (d, a, l) \<Rightarrow> d \<in> ds \<and> 0 \<le> a \<and> 0 \<le> l \<and> a + l \<le> cap)"

definition span_sum :: "int set \<Rightarrow> (int \<times> int \<times> int) list \<Rightarrow> int" where
  "span_sum ds xs = (\<Sum>d \<in> ds. int (card (spans xs d)))"

lemma spans_append: "spans (xs @ ys) d = spans xs d \<union> spans ys d"
  by (auto simp: spans_def)

lemma span_sum_append: "span_sum ds (xs @ ys) \<le> span_sum ds xs + span_sum ds ys"
proof -
  have "int (card (spans xs d \<union> spans ys d)) \<le> int (card (spans xs d)) + int (card (spans ys d))" for d
    using card_Un_le [of "spans xs d" "spans ys d"] by linarith
  then show ?thesis
    unfolding span_sum_def spans_append sum.distrib [symmetric] by (intro sum_mono) blast
qed

lemma span_sum_mono: "set xs \<subseteq> set ys \<Longrightarrow> span_sum ds xs \<le> span_sum ds ys"
proof -
  assume s: "set xs \<subseteq> set ys"
  have "card (spans xs d) \<le> card (spans ys d)" for d
    by (rule card_mono) (use s in \<open>auto simp: spans_def\<close>)
  then show ?thesis unfolding span_sum_def by (intro sum_mono) simp
qed

lemma total_span_sum:
  assumes "finite ds" "int (card ds) * cap \<le> max_i64" "\<forall>x \<in> set xs. on_devices ds cap x"
  shows "extent_total (add_all_extents xs []) = span_sum ds xs"
proof (cases "xs = []")
  case True
  then show ?thesis by (simp add: span_sum_def extent_total_def spans_def in_i64_def min_i64_def max_i64_def)
next
  case False
  then obtain d a l where "(d, a, l) \<in> set xs" by (cases xs) auto
  then have "d \<in> ds \<and> 0 \<le> a \<and> 0 \<le> l \<and> a + l \<le> cap" using assms(3) by (auto simp: on_devices_def)
  then have ne: "ds \<noteq> {}" "0 \<le> cap" by auto
  have "1 \<le> int (card ds)" using ne(1) assms(1) by (simp add: Suc_leI card_gt_0_iff)
  then have cap: "cap \<le> max_i64" using assms(2) ne(2) mult_right_mono [of 1 "int (card ds)" cap] by linarith
  have rng: "\<forall>x \<in> set xs. in_range x"
    using assms(3) cap by (auto simp: on_devices_def in_range_def in_i64_def min_i64_def split: prod.splits)
  have sub: "fst ` set xs \<subseteq> ds" using assms(3) by (auto simp: on_devices_def)
  have out: "spans xs d = {}" if "d \<notin> fst ` set xs" for d
  proof -
    have "(d, a, l) \<notin> set xs" for a l using that by (metis fst_conv image_eqI)
    then show ?thesis by (auto simp: spans_def split: if_splits)
  qed
  have sum: "(\<Sum>d \<in> fst ` set xs. int (card (spans xs d))) = span_sum ds xs"
    unfolding span_sum_def
    by (rule sum.mono_neutral_left) (use assms(1) sub out in auto)+
  have "card (spans xs d) \<le> nat cap" for d
  proof -
    have "spans xs d \<subseteq> {0..<cap}" using assms(3) by (fastforce simp: spans_def on_devices_def split: if_splits)
    then show ?thesis using card_mono [of "{0..<cap}" "spans xs d"] by simp
  qed
  then have "int (card (spans xs d)) \<le> cap" for d using ne(2) by (metis int_nat_eq of_nat_le_iff)
  then have "span_sum ds xs \<le> int (card ds) * cap"
    unfolding span_sum_def using sum_bounded_above [of ds "\<lambda>d. int (card (spans xs d))" cap] by simp
  then have "span_sum ds xs \<le> max_i64" using assms(2) by linarith
  with extent_union_exact [OF rng] show ?thesis by (simp add: sum)
qed

lemma measure_rows_bounds:
  assumes "finite ds" "int (card ds) * cap \<le> max_i64" "opener_in (on_devices ds cap) op"
  shows "measure_rows op pss (add_all_extents xs []) m = ((map Some rows, u), m') \<Longrightarrow>
    \<forall>x \<in> set xs. on_devices ds cap x \<Longrightarrow>
    \<exists>ys. u = add_all_extents (xs @ ys) [] \<and> (\<forall>y \<in> set ys. on_devices ds cap y)
      \<and> span_sum ds ys \<le> sum_list (map ts_unique rows) \<and> (\<forall>r \<in> set rows. ts_unique r \<le> span_sum ds ys)"
proof (induction pss arbitrary: xs m rows)
  case Nil
  then show ?case by (intro exI [of _ "[]"]) (simp add: span_sum_def spans_def)
next
  case (Cons ps pss)
  obtain zs r n where zs: "\<forall>x \<in> set zs. on_devices ds cap x"
    "\<And>sets. walk_roots op ps [] zero_size sets m = ((r, map (add_all_extents zs) sets), n)"
    using walk_roots_lockstep [OF assms(3)] by metis
  have r: "r \<noteq> None" and rest: "\<exists>rows'. rows = (the r)\<lparr>ts_unique := extent_total (add_all_extents zs [])\<rparr> # rows'
      \<and> measure_rows op pss (add_all_extents (xs @ zs) []) n = ((map Some rows', u), m')"
    using Cons.prems(1)
    by (cases r; cases rows; auto simp: union_add_all_def zs(2) add_all_extents_append split: prod.splits)+
  then obtain rows' where rows: "rows = (the r)\<lparr>ts_unique := extent_total (add_all_extents zs [])\<rparr> # rows'"
    and more: "measure_rows op pss (add_all_extents (xs @ zs) []) n = ((map Some rows', u), m')" by blast
  obtain ys where ys: "u = add_all_extents ((xs @ zs) @ ys) []" "\<forall>y \<in> set ys. on_devices ds cap y"
    "span_sum ds ys \<le> sum_list (map ts_unique rows')" "\<forall>r \<in> set rows'. ts_unique r \<le> span_sum ds ys"
    using Cons.IH [OF more] Cons.prems(2) zs(1) by auto
  have own: "extent_total (add_all_extents zs []) = span_sum ds zs"
    by (rule total_span_sum [OF assms(1,2) zs(1)])
  have "span_sum ds ys \<le> span_sum ds (zs @ ys)" "span_sum ds zs \<le> span_sum ds (zs @ ys)"
    by (rule span_sum_mono, simp)+
  with ys own zs(1) rows span_sum_append [of ds zs ys] show ?case
    by (intro exI [of _ "zs @ ys"]) auto
qed

text \<open>
  The headline of a scan, the union over all its rows, is at most the sum of the rows' own unique
  bytes (extents shared between rows are not claimed twice) and at least each row.
\<close>

lemma headline_bounds:
  assumes "finite ds" "int (card ds) * cap \<le> max_i64" "opener_in (on_devices ds cap) op"
    "measure_rows op pss [] m = ((map Some rows, u), m')"
  shows "extent_total u \<le> sum_list (map ts_unique rows) \<and> (\<forall>r \<in> set rows. ts_unique r \<le> extent_total u)"
proof -
  have "measure_rows op pss (add_all_extents [] []) m = ((map Some rows, u), m')" using assms(4) by simp
  from measure_rows_bounds [OF assms(1-3) this] obtain ys where ys: "u = add_all_extents ys []"
    "\<forall>y \<in> set ys. on_devices ds cap y" "span_sum ds ys \<le> sum_list (map ts_unique rows)"
    "\<forall>r \<in> set rows. ts_unique r \<le> span_sum ds ys" by auto
  have "extent_total u = span_sum ds ys" unfolding ys(1) by (rule total_span_sum [OF assms(1,2) ys(2)])
  with ys show ?thesis by simp
qed

text \<open>Two clones of one extent: each row claims it whole, the headline once.\<close>

definition clone_files :: fs where
  "clone_files = [([''a''], (new_node KFile)\<lparr>nd_size := 4096, nd_blocks := 8, nd_ino := (1, 10)\<rparr>),
     ([''b''], (new_node KFile)\<lparr>nd_size := 4096, nd_blocks := 8, nd_ino := (1, 11)\<rparr>)]"

definition clone_opener :: opener where
  "clone_opener = (\<lambda>m k nd. Some \<lparr> fm_extent = (\<lambda>off r. if fst (nd_ino nd) = 1 then Some \<lparr> lp_flags = 0, lp_contig = 4096, lp_devoffset = 65536 \<rparr> else None),
     fm_seek = (\<lambda>off. SeekNoData), fm_bsize = Some 4096 \<rparr>)"

lemma headline_bounds_witness:
  "case measure_rows clone_opener [[''/a''], [''/b'']] [] (machine_of clone_files) of ((rows, u), m') \<Rightarrow>
     map (map_option ts_unique) rows = [Some 4096, Some 4096] \<and> extent_total u = 4096
     \<and> extent_total u \<le> sum_list (map ts_unique (map the rows))"
proof -
  obtain rows u m' where mr: "measure_rows clone_opener [[''/a''], [''/b'']] [] (machine_of clone_files) = ((rows, u), m')"
    by (metis surj_pair)
  have "case measure_rows clone_opener [[''/a''], [''/b'']] [] (machine_of clone_files) of ((rows, u), m') \<Rightarrow>
     map (map_option ts_unique) rows = [Some 4096, Some 4096] \<and> extent_total u = 4096" by code_simp
  then have v: "map (map_option ts_unique) rows = [Some 4096, Some 4096]" "extent_total u = 4096"
    by (simp_all only: mr prod.case)
  then have "rows = map Some (map the rows)" by (cases rows; cases "tl rows"; auto)
  then have "measure_rows clone_opener [[''/a''], [''/b'']] [] (machine_of clone_files) = ((map Some (map the rows), u), m')"
    using mr by simp
  moreover have "opener_in (on_devices {1} 1000000) clone_opener"
    by (simp add: opener_in_def extents_in_def clone_opener_def on_devices_def)
  moreover have "int (card {1 :: int}) * 1000000 \<le> max_i64" by (simp add: max_i64_def)
  ultimately have "extent_total u \<le> sum_list (map ts_unique (map the rows))"
    using headline_bounds [of "{1}" 1000000 clone_opener "[[''/a''], [''/b'']]" "machine_of clone_files" "map the rows" u m'] by simp
  with v show ?thesis by (simp only: mr prod.case simp_thms)
qed

end
