(* ===== verification/Leaks.thy ===== *)
theory Leaks
  imports Families Liveness Safety Sizer Types
begin

text \<open>
  \<open>internal/leaks\<close>: the signature registry (\<open>leaks.go\<close>) and the module that scans it, plans deletes for
  the provably stale hits and applies them (\<open>module.go\<close>, the family half of \<open>family.go\<close>). The liveness
  probes are the fields the code injects; the prose of the evidence is rendered by a field.
\<close>

subsection \<open>Signatures\<close>

datatype staleness =
    StaleWhenLsofEmpty
  | StaleWhenAgedAndLsofEmpty
  | StaleWhenFamilyAgedAndLsofEmpty
  | StaleWhenSessionDead

fun staleness_string :: "staleness \<Rightarrow> string" where
  "staleness_string StaleWhenLsofEmpty = ''lsof-empty''"
| "staleness_string StaleWhenAgedAndLsofEmpty = ''aged+lsof-empty''"
| "staleness_string StaleWhenFamilyAgedAndLsofEmpty = ''family-aged+lsof-empty''"
| "staleness_string StaleWhenSessionDead = ''session-liveness''"

datatype alias_rule = AliasNone | AliasLaunchCausality

record session_rule =
  sr_scratch_dir :: string
  sr_dead_after :: duration
  sr_entry_idle :: duration
  sr_window :: duration

record signature =
  sn_id :: string
  sn_title :: string
  sn_globs :: "string list"
  sn_staleness :: staleness
  sn_min_age :: duration
  sn_alias :: alias_rule
  sn_risk :: risk_level
  sn_workaround :: string
  sn_family :: "family_rule option"
  sn_session :: "session_rule option"

definition scratch_globs :: "signature \<Rightarrow> string list" where
  "scratch_globs s = (case sn_session s of
     None \<Rightarrow> []
   | Some r \<Rightarrow> if sr_scratch_dir r = [] then []
       else map (\<lambda>g. g @ ''/'' @ sr_scratch_dir r @ ''/*'') (sn_globs s))"

definition all_globs :: "signature \<Rightarrow> string list" where
  "all_globs s = sn_globs s @ scratch_globs s"

definition default_signatures :: "signature list" where
  "default_signatures = [
     \<lparr> sn_id = ''chrome-code-sign-clone'',
       sn_title = ''Chrome leaked code-sign clone (APFS clone '' @ em_dash @ '' du over-reports)'',
       sn_globs = [''/private/var/folders/*/*/X/*.code_sign_clone/code_sign_clone.??????''],
       sn_staleness = StaleWhenLsofEmpty, sn_min_age = 0, sn_alias = AliasLaunchCausality, sn_risk = RiskLow,
       sn_workaround = ''Chrome leaks one code-sign clone per crash/force-kill. '' @
         ''Quit and relaunch Chrome cleanly, or launch with '' @
         ''--disable-features=MacAppCodeSignClone to stop the leak class at its source.'',
       sn_family = None, sn_session = None \<rparr>,
     \<lparr> sn_id = ''private-tmp-agent-scratch'',
       sn_title = ''Stale agent scratch under /private/tmp (never OS-cleaned)'',
       sn_globs = [''/private/tmp/claude-*/*/*'', ''/private/tmp/*-gocache*'', ''/private/tmp/*gocache.*'',
         ''/Volumes/*/dev-caches/tmp/*''],
       sn_staleness = StaleWhenSessionDead, sn_min_age = 7 * 24 * hour, sn_alias = AliasNone, sn_risk = RiskLow,
       sn_workaround = ''Agent sessions recreate scratch dirs on demand; nothing regenerable '' @
         ''is lost. macOS never cleans /private/tmp on this machine '' @ em_dash @ '' without noo-noo '' @
         ''this class only grows.'',
       sn_family = None,
       sn_session = Some \<lparr> sr_scratch_dir = ''scratchpad'', sr_dead_after = hour, sr_entry_idle = 24 * hour,
         sr_window = 30 * minute \<rparr> \<rparr>,
     \<lparr> sn_id = ''darwin-t-agent-trial'',
       sn_title = ''Abandoned agent trial workdirs under $TMPDIR (T/)'',
       sn_globs = [''/private/var/folders/*/*/T/grip-trial-*'', ''/private/var/folders/*/*/T/emit-fence-*'',
         ''/Volumes/*/dev-caches/tmp/grip-trial-*'', ''/Volumes/*/dev-caches/tmp/emit-fence-*''],
       sn_staleness = StaleWhenAgedAndLsofEmpty, sn_min_age = 12 * hour, sn_alias = AliasNone, sn_risk = RiskLow,
       sn_workaround = ''Trial harnesses should remove their workdir on exit (trap cleanup), '' @
         ''or create it under a session scratchpad that already has an owner.'',
       sn_family = None, sn_session = None \<rparr>,
     \<lparr> sn_id = ''temp-family'',
       sn_title = ''Abandoned mktemp families under $TMPDIR and /private/tmp'',
       sn_globs = [''/private/var/folders/*/*/T/*'', ''/private/tmp/*''],
       sn_staleness = StaleWhenFamilyAgedAndLsofEmpty, sn_min_age = 12 * hour, sn_alias = AliasNone, sn_risk = RiskLow,
       sn_workaround = ''os.MkdirTemp/mktemp callers must remove their dir on exit (defer os.RemoveAll / trap). '' @
         ''macOS only sweeps $TMPDIR entries untouched for 3 days, and never sweeps /private/tmp.'',
       sn_family = Some \<lparr> fr_roots = [''/private/var/folders/*/*/T'', ''/private/tmp''], fr_min_members = 5,
         fr_excludes = [''com.apple.''] \<rparr>,
       sn_session = None \<rparr>]"

subsection \<open>The module\<close>

text \<open>The prose the code formats into the evidence, with what it is formatted from.\<close>

datatype leak_text =
    TxtAlive
  | TxtUnprovable
  | TxtTime time
  | TxtDuration duration
  | TxtYoung duration duration
  | TxtDead duration duration
  | TxtFamily "string list"
  | TxtFamilySpecial loc
  | TxtFamilyYoung duration duration
  | TxtFamilyAged duration duration
  | TxtOpenMember path path
  | TxtNoneOpen nat
  | TxtSizeError

type_synonym texts = "string \<Rightarrow> string option"

record leaks =
  lk_sigs :: "signature list"
  lk_safety :: safety
  lk_cwd :: "path option"
  lk_probe :: "path \<Rightarrow> machine \<Rightarrow> (bool \<times> string) \<times> machine"
  lk_causal :: "path \<Rightarrow> machine \<Rightarrow> (bool \<times> string) \<times> machine"
  lk_open :: "machine \<Rightarrow> (string + path list) \<times> machine"
  lk_session :: "string \<Rightarrow> duration \<Rightarrow> machine \<Rightarrow> (bool \<times> string) \<times> machine"
  lk_uid :: int
  lk_now :: "machine \<Rightarrow> time"
  lk_opener :: opener
  lk_statfs :: "path \<Rightarrow> machine \<Rightarrow> (int \<times> int) option \<times> machine"
  lk_text :: "leak_text \<Rightarrow> string"

definition signature_for :: "leaks \<Rightarrow> path \<Rightarrow> signature option" where
  "signature_for l p = (case abs_path (lk_cwd l) p of
     None \<Rightarrow> None
   | Some q \<Rightarrow> first_such (\<lambda>s. list_ex (\<lambda>g. glob_match g (clean_path q) = Some True) (all_globs s)) (lk_sigs l))"

definition is_scratch_entry :: "signature \<Rightarrow> path \<Rightarrow> bool" where
  "is_scratch_entry s p \<longleftrightarrow> list_ex (\<lambda>g. glob_match g p = Some True) (scratch_globs s)"

definition scratch_entries :: "signature \<Rightarrow> path \<Rightarrow> machine \<Rightarrow> path list \<times> machine" where
  "scratch_entries s dir m = (case sn_session s of
     None \<Rightarrow> ([], m)
   | Some r \<Rightarrow>
       if sr_scratch_dir r = [] then ([], m)
       else let d = join_path [dir, sr_scratch_dir r] in
         (case os_read_dir d m of
            (None, m1) \<Rightarrow> ([], m1)
          | (Some es, m1) \<Rightarrow>
              (map (\<lambda>(n, nd). join_path [d, n])
                (filter (\<lambda>(n, nd). case nd_kind nd of KLink t \<Rightarrow> False | _ \<Rightarrow> True) es), m1)))"

subsection \<open>Staleness\<close>

text \<open>The rule's first half: a live session ends the judgement (\<open>Inl\<close>); otherwise whether an age
  gate applies, and which.\<close>

definition session_gate ::
  "leaks \<Rightarrow> signature \<Rightarrow> path \<Rightarrow> texts \<Rightarrow> machine \<Rightarrow> (texts + bool \<times> duration \<times> texts) \<times> machine" where
  "session_gate l s p ev m =
     (case (sn_staleness s, sn_session s) of
        (StaleWhenSessionDead, Some r) \<Rightarrow>
          if is_scratch_entry s p then
            (Inr (True, sr_entry_idle r,
               ev(''staleness_rule'' \<mapsto> ''scratch-entry-idle+lsof-empty'',
                  ''session_uuid'' \<mapsto> base_path (dir_path (dir_path p)))), m)
          else if is_session_uuid (base_path p) then
            (case lk_session l (base_path p) (sr_window r) m of
               ((alive, proof), m1) \<Rightarrow>
                 let ev1 = ev(''session_uuid'' \<mapsto> base_path p, ''session'' \<mapsto> proof) in
                 if alive then (Inl (ev1(''session_alive'' \<mapsto> ''true'', ''age'' \<mapsto> lk_text l TxtAlive)), m1)
                 else (Inr (True, sr_dead_after r, ev1(''session_alive'' \<mapsto> ''false'')), m1))
          else (Inr (True, sn_min_age s, ev(''staleness_rule'' \<mapsto> staleness_string StaleWhenAgedAndLsofEmpty)), m)
      | _ \<Rightarrow> (Inr (sn_staleness s = StaleWhenAgedAndLsofEmpty, sn_min_age s, ev), m))"

definition age_gate :: "leaks \<Rightarrow> path \<Rightarrow> duration \<Rightarrow> texts \<Rightarrow> machine \<Rightarrow> (bool \<times> texts) \<times> machine" where
  "age_gate l p min_age ev m =
     (case newest_mtime p m of
        (None, m1) \<Rightarrow> ((False, ev(''age'' \<mapsto> lk_text l TxtUnprovable)), m1)
      | (Some newest, m1) \<Rightarrow>
          let age = sub_time (lk_now l m1) newest;
              ev1 = ev(''newest_mtime'' \<mapsto> lk_text l (TxtTime newest), ''min_age'' \<mapsto> lk_text l (TxtDuration min_age)) in
          if age < min_age then ((False, ev1(''age'' \<mapsto> lk_text l (TxtYoung age min_age))), m1)
          else ((True, if ev_get ev1 ''session_alive'' = ''false''
                  then ev1(''age'' \<mapsto> lk_text l (TxtDead age min_age)) else ev1), m1))"

definition probe_gate :: "leaks \<Rightarrow> signature \<Rightarrow> path \<Rightarrow> texts \<Rightarrow> machine \<Rightarrow> (bool \<times> texts) \<times> machine" where
  "probe_gate l s p ev m =
     (case lk_probe l p m of ((live, proof), m1) \<Rightarrow>
        let ev1 = ev(''lsof'' \<mapsto> proof) in
        if \<not> live then ((True, ev1), m1)
        else if sn_alias s = AliasLaunchCausality then
          (case lk_causal l p m1 of ((stale, cproof), m2) \<Rightarrow> ((stale, ev1(''causality'' \<mapsto> cproof)), m2))
        else ((False, ev1), m1))"

definition classify :: "leaks \<Rightarrow> signature \<Rightarrow> path \<Rightarrow> texts \<Rightarrow> machine \<Rightarrow> (bool \<times> texts) \<times> machine" where
  "classify l s p ev m =
     (case session_gate l s p ev m of
        (Inl ev1, m1) \<Rightarrow> ((False, ev1), m1)
      | (Inr (aged, min_age, ev1), m1) \<Rightarrow>
          if aged then
            (case age_gate l p min_age ev1 m1 of
               ((False, ev2), m2) \<Rightarrow> ((False, ev2), m2)
             | ((True, ev2), m2) \<Rightarrow> probe_gate l s p ev2 m2)
          else probe_gate l s p ev1 m1)"

text \<open>The two measures of a hit; with a union its extents are merged there too.\<close>

definition measure_hit ::
  "leaks \<Rightarrow> path list \<Rightarrow> extent_set option \<Rightarrow> machine \<Rightarrow> (tree_size option \<times> extent_set option) \<times> machine" where
  "measure_hit l ps u m = (case u of
     None \<Rightarrow> (case unique_allocated (lk_opener l) ps m of (r, m1) \<Rightarrow> ((r, None), m1))
   | Some un \<Rightarrow> (case union_add_all (lk_opener l) ps un m of ((r, un1), m1) \<Rightarrow> ((r, Some un1), m1)))"

definition put_fiction :: "int \<Rightarrow> int \<Rightarrow> texts \<Rightarrow> texts" where
  "put_fiction blocks uniq ev =
     (let d = wrap64 (blocks - uniq) in if 0 < d then ev(''du_fiction_bytes'' \<mapsto> itoa d) else ev)"

definition base_evidence :: "signature \<Rightarrow> texts" where
  "base_evidence s = [''signature'' \<mapsto> sn_id s, ''staleness_rule'' \<mapsto> staleness_string (sn_staleness s),
     ''workaround'' \<mapsto> sn_workaround s]"

definition put_staleness :: "bool \<Rightarrow> texts \<Rightarrow> texts" where
  "put_staleness stale ev = ev(''staleness'' \<mapsto> (if stale then ''stale'' else ''live''))"

definition size_hit ::
  "leaks \<Rightarrow> path \<Rightarrow> extent_set option \<Rightarrow> texts \<Rightarrow> machine \<Rightarrow> (item \<times> extent_set option) \<times> machine" where
  "size_hit l p u ev m =
     (case measure_hit l [p] u m of ((r, u1), m1) \<Rightarrow>
        let uniq = (case r of None \<Rightarrow> 0 | Some ts \<Rightarrow> ts_unique ts);
            ev1 = (case r of None \<Rightarrow> ev(''unique_allocated_error'' \<mapsto> lk_text l TxtSizeError)
                   | Some ts \<Rightarrow> ev(''unique_allocated_bytes'' \<mapsto> itoa (ts_unique ts))) in
        (case sizer_blocks p m1 of (b, m2) \<Rightarrow>
          let blocks = (case b of None \<Rightarrow> 0 | Some ts \<Rightarrow> ts_blocks ts);
              ev2 = (case b of None \<Rightarrow> ev1(''blocks_error'' \<mapsto> lk_text l TxtSizeError)
                     | Some ts \<Rightarrow> ev1(''blocks_bytes'' \<mapsto> itoa (ts_blocks ts))) in
          ((\<lparr> it_path = p, it_size = uniq, it_evidence = put_fiction blocks uniq ev2 \<rparr>, u1), m2)))"

definition inspectable :: "leaks \<Rightarrow> fnode \<Rightarrow> bool" where
  "inspectable l nd \<longleftrightarrow> (case nd_kind nd of KLink t \<Rightarrow> False | _ \<Rightarrow> nd_uid nd = lk_uid l)"

definition inspect ::
  "leaks \<Rightarrow> signature \<Rightarrow> path \<Rightarrow> extent_set option \<Rightarrow> machine \<Rightarrow> (item option \<times> extent_set option) \<times> machine" where
  "inspect l s p u m =
     (case os_lstat p m of
        (None, m1) \<Rightarrow> ((None, u), m1)
      | (Some nd, m1) \<Rightarrow>
          if \<not> inspectable l nd then ((None, u), m1)
          else (case classify l s p (base_evidence s) m1 of ((stale, ev), m2) \<Rightarrow>
            (case size_hit l p u (put_staleness stale ev) m2 of ((it, u1), m3) \<Rightarrow> ((Some it, u1), m3))))"

end
