(* ===== verification/LeakSweep.thy ===== *)
theory LeakSweep
  imports Leaks
begin

text \<open>
  What the leak module does with its hits: the family judgement (\<open>family.go\<close>), \<open>Scan\<close>, \<open>Plan\<close> and
  \<open>Apply\<close> (\<open>module.go\<close>). \<open>stop\<close> is the context, polled once per hit in scan order.
\<close>

subsection \<open>Families\<close>

text \<open>The batched open-file listing of a scan: not asked for yet, untrusted, or the paths.\<close>

datatype open_set = OpenUnasked | OpenFailed string | OpenPaths "path list"

text \<open>The newest time over the members, or why there is none.\<close>

fun member_facts :: "path list \<Rightarrow> time \<Rightarrow> machine \<Rightarrow> (loc option + time) \<times> machine" where
  "member_facts [] newest m = (Inr newest, m)"
| "member_facts (p # ps) newest m =
     (case tree_facts p m of
        (None, m1) \<Rightarrow> (Inl None, m1)
      | (Some (t, Some special), m1) \<Rightarrow> (Inl (Some special), m1)
      | (Some (t, None), m1) \<Rightarrow> member_facts ps (max newest t) m1)"

definition ask_open :: "leaks \<Rightarrow> open_set \<Rightarrow> machine \<Rightarrow> open_set \<times> machine" where
  "ask_open l op m = (if op = OpenUnasked
     then (case lk_open l m of (Inl proof, m1) \<Rightarrow> (OpenFailed proof, m1) | (Inr ps, m1) \<Rightarrow> (OpenPaths ps, m1))
     else (op, m))"

definition family_open_gate :: "leaks \<Rightarrow> family \<Rightarrow> texts \<Rightarrow> open_set \<Rightarrow> bool \<times> texts" where
  "family_open_gate l fam ev op = (case op of
       OpenUnasked \<Rightarrow> (False, ev)
     | OpenFailed proof \<Rightarrow> (False, ev(''lsof'' \<mapsto> proof))
     | OpenPaths ps \<Rightarrow> (case open_member ps fam of
           Some (p, mem) \<Rightarrow> (False, ev(''lsof'' \<mapsto> lk_text l (TxtOpenMember p mem)))
         | None \<Rightarrow> (True, ev(''lsof'' \<mapsto> lk_text l (TxtNoneOpen (length (fa_members fam)))))))"

definition classify_family ::
  "leaks \<Rightarrow> signature \<Rightarrow> family \<Rightarrow> texts \<Rightarrow> open_set \<Rightarrow> machine \<Rightarrow> (bool \<times> texts \<times> open_set) \<times> machine" where
  "classify_family l s fam ev op m =
     (case member_facts (fa_members fam) zero_time m of
        (Inl None, m1) \<Rightarrow> ((False, ev(''age'' \<mapsto> lk_text l TxtUnprovable), op), m1)
      | (Inl (Some sp), m1) \<Rightarrow> ((False, ev(''age'' \<mapsto> lk_text l (TxtFamilySpecial sp)), op), m1)
      | (Inr newest, m1) \<Rightarrow>
          let age = sub_time (lk_now l m1) newest;
              ev1 = ev(''newest_mtime'' \<mapsto> lk_text l (TxtTime newest), ''min_age'' \<mapsto> lk_text l (TxtDuration (sn_min_age s))) in
          if age < sn_min_age s then ((False, ev1(''age'' \<mapsto> lk_text l (TxtFamilyYoung age (sn_min_age s))), op), m1)
          else (case ask_open l op m1 of (op1, m2) \<Rightarrow>
            (case family_open_gate l fam (ev1(''age'' \<mapsto> lk_text l (TxtFamilyAged age (sn_min_age s)))) op1 of
               (stale, ev2) \<Rightarrow> ((stale, ev2, op1), m2))))"

definition family_evidence :: "leaks \<Rightarrow> signature \<Rightarrow> family \<Rightarrow> texts" where
  "family_evidence l s fam = (base_evidence s)(''family_prefix'' \<mapsto> fk_prefix (fa_key fam),
     ''family_root'' \<mapsto> fa_root fam, ''family_members'' \<mapsto> itoa (int (length (fa_members fam))),
     ''members_sample'' \<mapsto> join_with '','' (map base_path (take 3 (fa_members fam))))"

definition inspect_family ::
  "leaks \<Rightarrow> signature \<Rightarrow> family \<Rightarrow> open_set \<Rightarrow> extent_set option \<Rightarrow> machine
   \<Rightarrow> (item \<times> open_set \<times> extent_set option) \<times> machine" where
  "inspect_family l s fam op u m =
     (case classify_family l s fam (family_evidence l s fam) op m of ((stale, ev, op1), m1) \<Rightarrow>
        let ev1 = put_staleness stale ev in
        (case measure_hit l (fa_members fam) u m1 of ((r, u1), m2) \<Rightarrow>
          let uniq = (case r of None \<Rightarrow> 0 | Some ts \<Rightarrow> ts_unique ts);
              ev2 = (case r of None \<Rightarrow> ev1(''unique_allocated_error'' \<mapsto> lk_text l TxtSizeError)
                 | Some ts \<Rightarrow> put_fiction (ts_blocks ts) (ts_unique ts)
                     (ev1(''unique_allocated_bytes'' \<mapsto> itoa (ts_unique ts), ''blocks_bytes'' \<mapsto> itoa (ts_blocks ts)))) in
          ((\<lparr> it_path = family_handle (fa_root fam) (fa_key fam), it_size = uniq, it_evidence = ev2 \<rparr>, op1, u1), m2)))"

subsection \<open>Scan\<close>

record sweep =
  sw_seen :: "path list"
  sw_items :: "item list"
  sw_union :: extent_set
  sw_polls :: nat

definition the_union :: "extent_set option \<Rightarrow> extent_set" where
  "the_union u = (case u of None \<Rightarrow> [] | Some un \<Rightarrow> un)"

definition add_item :: "item \<Rightarrow> extent_set \<Rightarrow> sweep \<Rightarrow> sweep" where
  "add_item it u st = st\<lparr>sw_items := sw_items st @ [it], sw_union := u\<rparr>"

definition sweep_hit :: "leaks \<Rightarrow> signature \<Rightarrow> path \<Rightarrow> sweep \<Rightarrow> machine \<Rightarrow> (item option \<times> sweep) \<times> machine" where
  "sweep_hit l s p st m =
     (case inspect l s p (Some (sw_union st)) m of
        ((None, u), m1) \<Rightarrow> ((None, st), m1)
      | ((Some it, u), m1) \<Rightarrow> ((Some it, add_item it (the_union u) st), m1))"

fun sweep_entries :: "leaks \<Rightarrow> signature \<Rightarrow> path list \<Rightarrow> sweep \<Rightarrow> machine \<Rightarrow> sweep \<times> machine" where
  "sweep_entries l s [] st m = (st, m)"
| "sweep_entries l s (p # ps) st m =
     (if p \<in> set (sw_seen st) then sweep_entries l s ps st m
      else (case sweep_hit l s p (st\<lparr>sw_seen := p # sw_seen st\<rparr>) m of
          ((r, st1), m1) \<Rightarrow> sweep_entries l s ps st1 m1))"

text \<open>True: cancelled.\<close>

fun sweep_matches ::
  "leaks \<Rightarrow> (nat \<Rightarrow> bool) \<Rightarrow> signature \<Rightarrow> path list \<Rightarrow> sweep \<Rightarrow> machine \<Rightarrow> (bool \<times> sweep) \<times> machine" where
  "sweep_matches l stop s [] st m = ((False, st), m)"
| "sweep_matches l stop s (p # ps) st m =
     (if stop (sw_polls st) then ((True, st), m)
      else
        let st0 = st\<lparr>sw_polls := Suc (sw_polls st)\<rparr>; q = clean_path p in
        if q \<in> set (sw_seen st) then sweep_matches l stop s ps st0 m
        else (case sweep_hit l s q (st0\<lparr>sw_seen := q # sw_seen st\<rparr>) m of
            ((None, st1), m1) \<Rightarrow> sweep_matches l stop s ps st1 m1
          | ((Some it, st1), m1) \<Rightarrow>
              if ev_get (it_evidence it) ''session_alive'' = ''true'' then
                (case scratch_entries s q m1 of (es, m2) \<Rightarrow>
                  (case sweep_entries l s es st1 m2 of (st2, m3) \<Rightarrow> sweep_matches l stop s ps st2 m3))
              else sweep_matches l stop s ps st1 m1))"

fun sweep_globs ::
  "leaks \<Rightarrow> (nat \<Rightarrow> bool) \<Rightarrow> signature \<Rightarrow> string list \<Rightarrow> sweep \<Rightarrow> machine \<Rightarrow> (bool \<times> sweep) \<times> machine" where
  "sweep_globs l stop s [] st m = ((False, st), m)"
| "sweep_globs l stop s (g # gs) st m =
     (case os_glob g m of
        (None, m1) \<Rightarrow> sweep_globs l stop s gs st m1
      | (Some ps, m1) \<Rightarrow> (case sweep_matches l stop s ps st m1 of
            ((True, st1), m2) \<Rightarrow> ((True, st1), m2)
          | ((False, st1), m2) \<Rightarrow> sweep_globs l stop s gs st1 m2))"

fun sweep_families ::
  "leaks \<Rightarrow> (nat \<Rightarrow> bool) \<Rightarrow> signature \<Rightarrow> family_rule \<Rightarrow> family list \<Rightarrow> open_set \<Rightarrow> sweep \<Rightarrow> machine
   \<Rightarrow> (bool \<times> open_set \<times> sweep) \<times> machine" where
  "sweep_families l stop s rule [] op st m = ((False, op, st), m)"
| "sweep_families l stop s rule (fam # fams) op st m =
     (if stop (sw_polls st) then ((True, op, st), m)
      else
        let st0 = st\<lparr>sw_polls := Suc (sw_polls st)\<rparr> in
        if length (fa_members fam) < fr_min_members rule then sweep_families l stop s rule fams op st0 m
        else (case inspect_family l s fam op (Some (sw_union st)) m of ((it, op1, u), m1) \<Rightarrow>
          sweep_families l stop s rule fams op1
            ((add_item it (the_union u) st0)\<lparr>sw_seen := fa_members fam @ it_path it # sw_seen st\<rparr>) m1))"

fun sweep_roots ::
  "leaks \<Rightarrow> (nat \<Rightarrow> bool) \<Rightarrow> signature \<Rightarrow> family_rule \<Rightarrow> path list \<Rightarrow> open_set \<Rightarrow> sweep \<Rightarrow> machine
   \<Rightarrow> (bool \<times> open_set \<times> sweep) \<times> machine" where
  "sweep_roots l stop s rule [] op st m = ((False, op, st), m)"
| "sweep_roots l stop s rule (rt # rts) op st m =
     (case list_families rt rule (lk_uid l) (sw_seen st) m of (fams, m1) \<Rightarrow>
        (case sweep_families l stop s rule fams op st m1 of
           ((True, op1, st1), m2) \<Rightarrow> ((True, op1, st1), m2)
         | ((False, op1, st1), m2) \<Rightarrow> sweep_roots l stop s rule rts op1 st1 m2))"

fun scan_families ::
  "leaks \<Rightarrow> (nat \<Rightarrow> bool) \<Rightarrow> signature \<Rightarrow> family_rule \<Rightarrow> string list \<Rightarrow> open_set \<Rightarrow> sweep \<Rightarrow> machine
   \<Rightarrow> (bool \<times> sweep) \<times> machine" where
  "scan_families l stop s rule [] op st m = ((False, st), m)"
| "scan_families l stop s rule (rg # rgs) op st m =
     (case os_glob rg m of
        (None, m1) \<Rightarrow> scan_families l stop s rule rgs op st m1
      | (Some rts, m1) \<Rightarrow> (case sweep_roots l stop s rule rts op st m1 of
            ((True, op1, st1), m2) \<Rightarrow> ((True, st1), m2)
          | ((False, op1, st1), m2) \<Rightarrow> scan_families l stop s rule rgs op1 st1 m2))"

fun sweep_sigs ::
  "leaks \<Rightarrow> (nat \<Rightarrow> bool) \<Rightarrow> signature list \<Rightarrow> sweep \<Rightarrow> machine \<Rightarrow> (bool \<times> sweep) \<times> machine" where
  "sweep_sigs l stop [] st m = ((False, st), m)"
| "sweep_sigs l stop (s # ss) st m =
     (case (case sn_family s of
              Some rule \<Rightarrow> scan_families l stop s rule (fr_roots rule) OpenUnasked st m
            | None \<Rightarrow> sweep_globs l stop s (sn_globs s) st m) of
        ((True, st1), m1) \<Rightarrow> ((True, st1), m1)
      | ((False, st1), m1) \<Rightarrow> sweep_sigs l stop ss st1 m1)"

text \<open>The report, and whether the scan was cancelled; a cancelled scan has no total.\<close>

definition leaks_scan :: "leaks \<Rightarrow> (nat \<Rightarrow> bool) \<Rightarrow> machine \<Rightarrow> (report \<times> bool) \<times> machine" where
  "leaks_scan l stop m =
     (case sweep_sigs l stop (lk_sigs l) \<lparr> sw_seen = [], sw_items = [], sw_union = [], sw_polls = 0 \<rparr> m of
        ((cancelled, st), m1) \<Rightarrow>
          ((\<lparr> rp_module = ''leaks'', rp_items = sw_items st,
              rp_total = (if cancelled then 0 else extent_total (sw_union st)) \<rparr>, cancelled), m1))"

definition leaks_plan :: "leaks \<Rightarrow> report \<Rightarrow> mod_action list" where
  "leaks_plan l r = map (\<lambda>it.
       \<lparr> ma_module = ''leaks'', ma_op = ''delete'', ma_target = it_path it, ma_dest = [], ma_size = it_size it,
         ma_risk = (case signature_for l (it_path it) of None \<Rightarrow> RiskLow | Some s \<Rightarrow> sn_risk s) \<rparr>)
     (filter (\<lambda>it. ev_get (it_evidence it) ''staleness'' = ''stale'') (rp_items r))"

subsection \<open>Apply\<close>

datatype refusal =
    MemberGone
  | MemberSymlink
  | MemberUnprovable
  | MemberSpecial loc
  | MemberYoung duration duration
  | MemberLive string
  | MemberDenied deny
  | MemberNotRemoved

datatype leak_err =
    LeakUnsupported string
  | LeakNoSignature
  | LeakNotInspectable
  | LeakWentLive string
  | LeakDenied deny
  | LeakNotRemoved
  | LeakNoFamily
  | LeakShrank nat nat
  | LeakNothingDeletable "(path \<times> refusal) list"
  | LeakCancelled

text \<open>\<open>CanDeleteLeakTarget\<close> on the file system: the links are followed when the path itself passes.\<close>

definition leak_guard :: "leaks \<Rightarrow> path \<Rightarrow> string list \<Rightarrow> machine \<Rightarrow> deny option \<times> machine" where
  "leak_guard l p globs m =
     (case abs_path (lk_cwd l) p of
        None \<Rightarrow> (can_delete_leak_target (lk_cwd l) (\<lambda>q. None) (lk_safety l) p globs, m)
      | Some q \<Rightarrow>
          if leak_categorical_check (clean_path q) \<noteq> None
          then (can_delete_leak_target (lk_cwd l) (\<lambda>q. None) (lk_safety l) p globs, m)
          else (case os_eval_symlinks q m of (r, m1) \<Rightarrow>
            (can_delete_leak_target (lk_cwd l) (\<lambda>q. r) (lk_safety l) p globs, m1)))"

definition member_refusal :: "leaks \<Rightarrow> signature \<Rightarrow> path \<Rightarrow> machine \<Rightarrow> refusal option \<times> machine" where
  "member_refusal l s p m =
     (case os_lstat p m of
        (None, m1) \<Rightarrow> (Some MemberGone, m1)
      | (Some nd, m1) \<Rightarrow>
          if (case nd_kind nd of KLink t \<Rightarrow> True | _ \<Rightarrow> False) then (Some MemberSymlink, m1)
          else (case tree_facts p m1 of
              (None, m2) \<Rightarrow> (Some MemberUnprovable, m2)
            | (Some (newest, Some sp), m2) \<Rightarrow> (Some (MemberSpecial sp), m2)
            | (Some (newest, None), m2) \<Rightarrow>
                let age = sub_time (lk_now l m2) newest in
                if age < sn_min_age s then (Some (MemberYoung age (sn_min_age s)), m2)
                else (case lk_probe l p m2 of ((live, proof), m3) \<Rightarrow>
                  (if live \<and> proof \<noteq> [] then Some (MemberLive proof) else None, m3))))"

text \<open>The member loop: how many were deleted, the refusals, and whether the context ended it.\<close>

fun member_loop ::
  "leaks \<Rightarrow> signature \<Rightarrow> (nat \<Rightarrow> bool) \<Rightarrow> nat \<Rightarrow> path list \<Rightarrow> nat \<times> (path \<times> refusal) list \<Rightarrow> machine
   \<Rightarrow> ((nat \<times> (path \<times> refusal) list) \<times> bool) \<times> machine" where
  "member_loop l s stop i [] acc m = ((acc, False), m)"
| "member_loop l s stop i (p # ps) (n, rs) m =
     (if stop i then (((n, rs), True), m)
      else (case member_refusal l s p m of
          (Some why, m1) \<Rightarrow> member_loop l s stop (Suc i) ps (n, rs @ [(base_path p, why)]) m1
        | (None, m1) \<Rightarrow> (case leak_guard l p (sn_globs s) m1 of
            (Some d, m2) \<Rightarrow> member_loop l s stop (Suc i) ps (n, rs @ [(base_path p, MemberDenied d)]) m2
          | (None, m2) \<Rightarrow> (case os_remove_all p m2 of
              (None, m3) \<Rightarrow> member_loop l s stop (Suc i) ps (n, rs @ [(base_path p, MemberNotRemoved)]) m3
            | (Some _, m3) \<Rightarrow> member_loop l s stop (Suc i) ps (Suc n, rs) m3))))"

definition apply_family ::
  "leaks \<Rightarrow> signature \<Rightarrow> family_rule \<Rightarrow> (nat \<Rightarrow> bool) \<Rightarrow> path \<Rightarrow> machine \<Rightarrow> (int \<times> leak_err freed_err option) \<times> machine" where
  "apply_family l s rule stop target m =
     (case family_for_handle target rule (lk_uid l) m of
        (None, m1) \<Rightarrow> ((0, Some (ActionFailed LeakNoFamily)), m1)
      | (Some fam, m1) \<Rightarrow>
          if length (fa_members fam) < fr_min_members rule
          then ((0, Some (ActionFailed (LeakShrank (length (fa_members fam)) (fr_min_members rule)))), m1)
          else (case lk_statfs l (fa_root fam) m1 of
              (None, m2) \<Rightarrow> ((0, Some StatfsFailed), m2)
            | (Some (before, bsize), m2) \<Rightarrow>
              (case member_loop l s stop 0 (fa_members fam) (0, []) m2 of (((n, rs), cancelled), m3) \<Rightarrow>
                (case lk_statfs l (fa_root fam) m3 of
                   (None, m4) \<Rightarrow> ((0, Some StatfsFailed), m4)
                 | (Some (after, bsize'), m4) \<Rightarrow>
                     ((wrap64 (wrap64 (after - before) * bsize),
                       if cancelled then Some (ActionFailed LeakCancelled)
                       else if n = 0 then Some (ActionFailed (LeakNothingDeletable rs)) else None), m4)))))"

definition remove_hit :: "path \<Rightarrow> machine \<Rightarrow> leak_err option \<times> machine" where
  "remove_hit p m = (case os_remove_all p m of (None, m1) \<Rightarrow> (Some LeakNotRemoved, m1) | (Some _, m1) \<Rightarrow> (None, m1))"

text \<open>\<open>Apply\<close>; the freed bytes are reported only without an error, except for a family.\<close>

definition leaks_apply ::
  "leaks \<Rightarrow> (nat \<Rightarrow> bool) \<Rightarrow> mod_action \<Rightarrow> machine \<Rightarrow> (int \<times> leak_err freed_err option) \<times> machine" where
  "leaks_apply l stop a m =
     (let t = ma_target a in
      if ma_op a \<noteq> ''delete'' then ((0, Some (ActionFailed (LeakUnsupported (ma_op a)))), m)
      else case signature_for l t of
        None \<Rightarrow> ((0, Some (ActionFailed LeakNoSignature)), m)
      | Some s \<Rightarrow> (case sn_family s of
          Some rule \<Rightarrow> apply_family l s rule stop t m
        | None \<Rightarrow> (case inspect l s t None m of
            ((None, u), m1) \<Rightarrow> ((0, Some (ActionFailed LeakNotInspectable)), m1)
          | ((Some it, u), m1) \<Rightarrow>
              if ev_get (it_evidence it) ''staleness'' \<noteq> ''stale''
              then ((0, Some (ActionFailed (LeakWentLive (ev_get (it_evidence it) ''lsof'')))), m1)
              else (case leak_guard l t (all_globs s) m1 of
                  (Some d, m2) \<Rightarrow> ((0, Some (ActionFailed (LeakDenied d))), m2)
                | (None, m2) \<Rightarrow> (case freed_by_delete (lk_statfs l) (dir_path t) (remove_hit t) m2 of
                    ((freed, Some e), m3) \<Rightarrow> ((0, Some e), m3)
                  | ((freed, None), m3) \<Rightarrow> ((freed, None), m3))))))"

end
