(* ===== verification/Removal.thy ===== *)
theory Removal
  imports Sizer VolGuard
begin

text \<open>
  What the deletion theorems share: reading leaves the tree as it is, and \<open>removes P\<close> relates a tree to
  one from which part of what lies below a single path was removed, a path that satisfied \<open>P\<close> then.
\<close>

lemma os_lstatD: "os_lstat p m = (r, m') \<Longrightarrow> mc_fs m' = mc_fs m"
  using os_lstat_fs [of p m] by simp

lemma walk_dirD: "walk_dir p m = (r, m') \<Longrightarrow> mc_fs m' = mc_fs m"
  using walk_dir_fs [of p m] by simp

lemma walk_rootsD: "walk_roots op ps seen ts sets m = (r, m') \<Longrightarrow> mc_fs m' = mc_fs m"
proof (induction ps arbitrary: seen ts sets m)
  case (Cons p ps)
  obtain vs m1 where w: "walk_dir p m = (vs, m1)" by fastforce
  obtain seen1 ts1 sets1 where e: "extents_walk (op m) vs seen ts sets = (seen1, ts1, sets1)"
    by (metis surj_pair)
  show ?case
    using Cons.prems Cons.IH [of seen1 ts1 sets1 m1] walk_dirD [OF w] by (auto simp: w e split: if_splits)
qed simp

lemma sizer_blocksD: "sizer_blocks p m = (r, m') \<Longrightarrow> mc_fs m' = mc_fs m"
  by (auto simp: sizer_blocks_def split: prod.splits dest: walk_dirD)

definition removes :: "(path \<Rightarrow> fs \<Rightarrow> bool) \<Rightarrow> fs \<Rightarrow> fs \<Rightarrow> bool" where
  "removes P f g \<longleftrightarrow> (\<exists>p q Z. P p f \<and> lloc f p = Some q \<and> g = filter (\<lambda>(k, n). \<not> (prefix q k \<and> Z k)) f)"

lemma remove_all_removes:
  assumes "os_remove_all p m = (r, m')" "P p (mc_fs m)"
  shows "(removes P)\<^sup>*\<^sup>* (mc_fs m) (mc_fs m')"
proof (cases "lloc (mc_fs m) p")
  case None
  then have "mc_fs m' = mc_fs m" using assms(1) by (auto simp: os_remove_all_def)
  then show ?thesis by simp
next
  case (Some q)
  have "mc_fs m' = mc_fs m \<or> (\<exists>Z. mc_fs m' = filter (\<lambda>(k, n). \<not> (prefix q k \<and> Z k)) (mc_fs m))"
  proof -
    have "\<And>a. lloc (mc_fs m) p = Some a \<Longrightarrow> a = q" using Some by simp
    from os_remove_all_cases [OF assms(1) this]
    consider "mc_fs m' = mc_fs m" | "mc_fs m' = remove_tree q (mc_fs m)"
      | Z where "mc_fs m' = filter (\<lambda>(k, n). \<not> (prefix q k \<and> Z k)) (mc_fs m)" by blast
    then show ?thesis
    proof cases
      case 2
      then have "mc_fs m' = filter (\<lambda>(k, n). \<not> (prefix q k \<and> True)) (mc_fs m)" by (simp add: remove_tree_def)
      then show ?thesis by (intro disjI2 exI [of _ "\<lambda>k. True"]) simp
    qed auto
  qed
  then show ?thesis
  proof
    assume "\<exists>Z. mc_fs m' = filter (\<lambda>(k, n). \<not> (prefix q k \<and> Z k)) (mc_fs m)"
    then have "removes P (mc_fs m) (mc_fs m')" using Some assms(2) unfolding removes_def by blast
    then show ?thesis by blast
  qed simp
qed

lemma removes_mono:
  assumes "(removes P)\<^sup>*\<^sup>* f g" "\<And>p f. P p f \<Longrightarrow> Q p f"
  shows "(removes Q)\<^sup>*\<^sup>* f g"
proof -
  have "removes P \<le> removes Q" using assms(2) by (fastforce simp: removes_def)
  from rtranclp_mono [OF this] assms(1) show ?thesis by blast
qed

lemma freed_removes:
  assumes q: "\<forall>p. quiet (statfs p)" and f: "freed_by_delete statfs vol fn m = (r, m')" and P: "P p (mc_fs m)"
    and fn: "\<And>m1. snd (fn m1) = snd (os_remove_all p m1)"
  shows "(removes P)\<^sup>*\<^sup>* (mc_fs m) (mc_fs m')"
proof -
  obtain sf m1 where s1: "statfs vol m = (sf, m1)" by fastforce
  have m1: "mc_fs m1 = mc_fs m" by (rule quietD [OF q [rule_format] s1])
  obtain rm m2 where rm: "os_remove_all p m1 = (rm, m2)" by fastforce
  obtain e where e: "fn m1 = (e, m2)" using fn [of m1] rm by (cases "fn m1") auto
  obtain sg m3 where s2: "statfs vol m2 = (sg, m3)" by fastforce
  have m3: "mc_fs m3 = mc_fs m2" by (rule quietD [OF q [rule_format] s2])
  have one: "(removes P)\<^sup>*\<^sup>* (mc_fs m) (mc_fs m2)" using remove_all_removes [OF rm, of P] P m1 by simp
  have "m' = m1 \<or> m' = m3" using f by (auto simp: freed_by_delete_def s1 e s2 split: option.splits)
  then show ?thesis using one m1 m3 by auto
qed

end
