(* ===== verification/LeakSafe.thy ===== *)
theory LeakSafe
  imports LeakSweep Removal
begin

text \<open>
  What the leak module may delete: every tree \<open>Apply\<close> removes was shown stale by its signature's rule
  and permitted by the guard on the file system as it was just before, for every outcome of the probes and every
  pattern of failing calls.
\<close>

subsection \<open>Reads leave the tree\<close>

definition quiet_leaks :: "leaks \<Rightarrow> bool" where
  "quiet_leaks l \<longleftrightarrow> (\<forall>p. quiet (lk_probe l p)) \<and> (\<forall>p. quiet (lk_causal l p)) \<and> quiet (lk_open l)
     \<and> (\<forall>i w. quiet (lk_session l i w)) \<and> (\<forall>p. quiet (lk_statfs l p))"

lemma quiet_leaksD:
  assumes "quiet_leaks l"
  shows quiet_probe: "lk_probe l p m = (r, m') \<Longrightarrow> mc_fs m' = mc_fs m"
    and quiet_causal: "lk_causal l p m = (r, m') \<Longrightarrow> mc_fs m' = mc_fs m"
    and quiet_session: "lk_session l i w m = (r, m') \<Longrightarrow> mc_fs m' = mc_fs m"
    and quiet_statfs: "lk_statfs l p m = (v, m') \<Longrightarrow> mc_fs m' = mc_fs m"
  using assms unfolding quiet_leaks_def quiet_def by (metis snd_conv)+

lemma tree_factsD: "tree_facts p m = (r, m') \<Longrightarrow> mc_fs m' = mc_fs m"
  by (auto simp: tree_facts_def split: prod.splits dest: walk_dirD)

lemma newest_mtimeD: "newest_mtime p m = (r, m') \<Longrightarrow> mc_fs m' = mc_fs m"
  by (auto simp: newest_mtime_def split: prod.splits dest: walk_dirD)

lemma session_gateD: "quiet_leaks l \<Longrightarrow> session_gate l s p ev m = (r, m') \<Longrightarrow> mc_fs m' = mc_fs m"
  by (auto simp: session_gate_def Let_def split: staleness.splits option.splits if_splits prod.splits dest: quiet_session)

lemma age_gateD: "age_gate l p a ev m = (r, m') \<Longrightarrow> mc_fs m' = mc_fs m"
  by (auto simp: age_gate_def Let_def split: option.splits if_splits prod.splits dest: newest_mtimeD)

lemma probe_gateD:
  assumes "quiet_leaks l" "probe_gate l s p ev m = (r, m')"
  shows "mc_fs m' = mc_fs m"
proof -
  obtain live pf m1 where pr: "lk_probe l p m = ((live, pf), m1)" by (metis surj_pair)
  obtain st cp m2 where c: "lk_causal l p m1 = ((st, cp), m2)" by (metis surj_pair)
  have "m' = m1 \<or> m' = m2" using assms(2) by (auto simp: probe_gate_def pr c Let_def split: if_splits)
  with quiet_probe [OF assms(1) pr] quiet_causal [OF assms(1) c] show ?thesis by auto
qed

lemma measure_hitD: "measure_hit l ps u m = (r, m') \<Longrightarrow> mc_fs m' = mc_fs m"
  by (auto simp: measure_hit_def unique_allocated_def union_add_all_def split: option.splits prod.splits dest: walk_rootsD)

lemma size_hitD: "size_hit l p u ev m = (r, m') \<Longrightarrow> mc_fs m' = mc_fs m"
proof -
  assume s: "size_hit l p u ev m = (r, m')"
  obtain h u1 m1 where h: "measure_hit l [p] u m = ((h, u1), m1)" by (metis surj_pair)
  obtain b m2 where b: "sizer_blocks p m1 = (b, m2)" by fastforce
  have "m' = m2" using s by (simp add: size_hit_def h b Let_def)
  with measure_hitD [OF h] sizer_blocksD [OF b] show ?thesis by simp
qed

subsection \<open>What staleness shows\<close>

definition idle_for :: "leaks \<Rightarrow> duration \<Rightarrow> path \<Rightarrow> fs \<Rightarrow> bool" where
  "idle_for l age p f \<longleftrightarrow> (\<exists>m t sp m1. mc_fs m = f \<and> tree_facts p m = (Some (t, sp), m1) \<and> age \<le> sub_time (lk_now l m1) t)"

definition not_open :: "leaks \<Rightarrow> signature \<Rightarrow> path \<Rightarrow> fs \<Rightarrow> bool" where
  "not_open l s p f \<longleftrightarrow> (\<exists>m. mc_fs m = f \<and> \<not> fst (fst (lk_probe l p m)))
     \<or> sn_alias s = AliasLaunchCausality \<and> (\<exists>m. mc_fs m = f \<and> fst (fst (lk_causal l p m)))"

definition session_ended :: "leaks \<Rightarrow> session_rule \<Rightarrow> path \<Rightarrow> fs \<Rightarrow> bool" where
  "session_ended l r p f \<longleftrightarrow> (\<exists>m. mc_fs m = f \<and> \<not> fst (fst (lk_session l (base_path p) (sr_window r) m)))"

definition stale_by_rule :: "leaks \<Rightarrow> signature \<Rightarrow> path \<Rightarrow> fs \<Rightarrow> bool" where
  "stale_by_rule l s p f \<longleftrightarrow> not_open l s p f \<and>
     (case (sn_staleness s, sn_session s) of
        (StaleWhenSessionDead, Some r) \<Rightarrow>
          if is_scratch_entry s p then idle_for l (sr_entry_idle r) p f
          else if is_session_uuid (base_path p) then session_ended l r p f \<and> idle_for l (sr_dead_after r) p f
          else idle_for l (sn_min_age s) p f
      | (StaleWhenAgedAndLsofEmpty, _) \<Rightarrow> idle_for l (sn_min_age s) p f
      | _ \<Rightarrow> True)"

lemma age_gate_idle:
  assumes "age_gate l p a ev m = ((True, ev'), m')"
  shows "idle_for l a p (mc_fs m)"
proof -
  obtain tf m1 where w: "tree_facts p m = (tf, m1)" by fastforce
  then have nm: "newest_mtime p m = (map_option fst tf, m1)"
    by (auto simp: newest_mtime_def tree_facts_def split: prod.splits)
  show ?thesis
  proof (cases tf)
    case None
    then show ?thesis using assms by (simp add: age_gate_def nm)
  next
    case (Some x)
    obtain t sp where x: "x = (t, sp)" by fastforce
    have "\<not> sub_time (lk_now l m1) t < a" using assms Some x by (auto simp: age_gate_def nm Let_def)
    then show ?thesis using w Some x unfolding idle_for_def by force
  qed
qed

lemma probe_gate_not_open:
  assumes "quiet_leaks l" "probe_gate l s p ev m = ((True, ev'), m')"
  shows "not_open l s p (mc_fs m)"
proof -
  obtain live pf m1 where pr: "lk_probe l p m = ((live, pf), m1)" by (metis surj_pair)
  show ?thesis
  proof (cases live)
    case False
    then show ?thesis unfolding not_open_def using pr by force
  next
    case True
    obtain st cp m2 where c: "lk_causal l p m1 = ((st, cp), m2)" by (metis surj_pair)
    have "sn_alias s = AliasLaunchCausality" "st" using assms(2) True by (auto simp: probe_gate_def pr c Let_def split: if_splits)
    moreover have "mc_fs m1 = mc_fs m" by (rule quiet_probe [OF assms(1) pr])
    ultimately show ?thesis unfolding not_open_def using c by force
  qed
qed

text \<open>What the rule's first half decides.\<close>

lemma session_gate_cases:
  assumes "session_gate l s p ev m = (Inr (aged, age, ev1), m1)"
  shows "(case (sn_staleness s, sn_session s) of
        (StaleWhenSessionDead, Some r) \<Rightarrow> aged \<and>
          (if is_scratch_entry s p then age = sr_entry_idle r
           else if is_session_uuid (base_path p) then session_ended l r p (mc_fs m) \<and> age = sr_dead_after r
           else age = sn_min_age s)
      | (StaleWhenAgedAndLsofEmpty, _) \<Rightarrow> aged \<and> age = sn_min_age s
      | _ \<Rightarrow> \<not> aged)"
proof (cases "sn_staleness s = StaleWhenSessionDead \<and> sn_session s \<noteq> None")
  case False
  then show ?thesis using assms
    by (cases "sn_staleness s"; cases "sn_session s") (auto simp: session_gate_def)
next
  case True
  then obtain r where r: "sn_session s = Some r" "sn_staleness s = StaleWhenSessionDead" by auto
  obtain alive pf m2 where se: "lk_session l (base_path p) (sr_window r) m = ((alive, pf), m2)" by (metis surj_pair)
  have "session_ended l r p (mc_fs m)" if "\<not> alive" using that se unfolding session_ended_def by force
  then show ?thesis using assms r by (auto simp: session_gate_def se Let_def split: if_splits)
qed

lemma classifyD:
  assumes q: "quiet_leaks l" and c: "classify l s p ev m = (r, m')"
  shows "mc_fs m' = mc_fs m"
proof -
  obtain g m1 where g: "session_gate l s p ev m = (g, m1)" by fastforce
  have m1: "mc_fs m1 = mc_fs m" by (rule session_gateD [OF q g])
  show ?thesis
  proof (cases g)
    case (Inl ev1)
    then show ?thesis using c m1 by (auto simp: classify_def g)
  next
    case (Inr x)
    obtain aged age ev1 where x: "x = (aged, age, ev1)" by (metis surj_pair)
    obtain ok ev2 m2 where a: "age_gate l p age ev1 m1 = ((ok, ev2), m2)" by (metis surj_pair)
    have "mc_fs m2 = mc_fs m" using age_gateD [OF a] m1 by simp
    then show ?thesis
      using c m1 by (cases ok) (auto simp: classify_def g Inr x a split: if_splits dest: probe_gateD [OF q])
  qed
qed

lemma classify_sound:
  assumes q: "quiet_leaks l" and c: "classify l s p ev m = ((True, ev'), m')"
  shows "stale_by_rule l s p (mc_fs m)"
proof -
  obtain g m1 where g: "session_gate l s p ev m = (g, m1)" by fastforce
  have m1: "mc_fs m1 = mc_fs m" by (rule session_gateD [OF q g])
  obtain aged age ev1 where gi: "g = Inr (aged, age, ev1)" using c by (cases g) (auto simp: classify_def g)
  note cases' = session_gate_cases [OF g [unfolded gi]]
  have "not_open l s p (mc_fs m) \<and> (aged \<longrightarrow> idle_for l age p (mc_fs m))"
  proof (cases aged)
    case False
    then have "probe_gate l s p ev1 m1 = ((True, ev'), m')" using c by (simp add: classify_def g gi)
    with probe_gate_not_open [OF q this] m1 False show ?thesis by simp
  next
    case True
    obtain ok ev2 m2 where a: "age_gate l p age ev1 m1 = ((ok, ev2), m2)" by (metis surj_pair)
    have pg: "ok" "probe_gate l s p ev2 m2 = ((True, ev'), m')"
      using c True by (auto simp: classify_def g gi a split: bool.splits)
    have "mc_fs m2 = mc_fs m" using age_gateD [OF a] m1 by simp
    with probe_gate_not_open [OF q pg(2)] age_gate_idle [of l p age ev1 m1 ev2 m2] a pg(1) m1 show ?thesis by simp
  qed
  with cases' show ?thesis
    unfolding stale_by_rule_def by (cases "sn_staleness s"; cases "sn_session s") (auto split: if_splits)
qed

subsection \<open>What the guard permits\<close>

definition guard_permits :: "leaks \<Rightarrow> string list \<Rightarrow> path \<Rightarrow> fs \<Rightarrow> bool" where
  "guard_permits l globs p f \<longleftrightarrow> (\<exists>q r. abs_path (lk_cwd l) p = Some q \<and> eval_links f q = Some r
     \<and> \<not> categorical q \<and> leak_permitted (sf_blocked (lk_safety l)) globs (clean_path r))"

lemma os_eval_symlinksD: "os_eval_symlinks p m = (r, m') \<Longrightarrow> mc_fs m' = mc_fs m"
  using os_eval_symlinks_fs [of p m] by simp

lemma leak_guardD: "leak_guard l p globs m = (r, m') \<Longrightarrow> mc_fs m' = mc_fs m"
  by (auto simp: leak_guard_def split: option.splits if_splits prod.splits dest: os_eval_symlinksD)

lemma leak_guard_permits:
  assumes cwd: "cwd_ok (lk_cwd l)" and g: "leak_guard l p globs m = (None, m')"
  shows "guard_permits l globs p (mc_fs m)"
proof -
  have none: "can_delete_leak_target (lk_cwd l) (\<lambda>q. None) s p globs \<noteq> None" for s
    using can_delete_leak_target_None [OF cwd, of "\<lambda>q. None"] by (simp add: eval_symlinks_ok_def)
  obtain q where q: "abs_path (lk_cwd l) p = Some q"
    using g none by (cases "abs_path (lk_cwd l) p") (auto simp: leak_guard_def)
  obtain r m1 where e: "os_eval_symlinks q m = (r, m1)" by fastforce
  have can: "can_delete_leak_target (lk_cwd l) (\<lambda>q. r) (lk_safety l) p globs = None"
    using g none [of "lk_safety l"] by (simp add: leak_guard_def q e split: if_splits)
  then obtain res where res: "r = Some res" using none by (cases r) auto
  have ev: "eval_links (mc_fs m) q = Some res"
    using sys_cases [OF e [unfolded os_eval_symlinks_def]] res by auto
  then have "is_abs res" by (auto simp: eval_links_def split: option.splits if_splits)
  then have ok: "eval_symlinks_ok (\<lambda>q. r)" by (simp add: eval_symlinks_ok_def res)
  show ?thesis
    using can [unfolded can_delete_leak_target_None [OF cwd ok]] q ev by (auto simp: guard_permits_def res)
qed

subsection \<open>What Apply removes\<close>

text \<open>What a member must be: plain, idle, probed not live; what any deletable path must be.\<close>

definition member_stale :: "leaks \<Rightarrow> signature \<Rightarrow> path \<Rightarrow> fs \<Rightarrow> bool" where
  "member_stale l s p f \<longleftrightarrow>
     (\<exists>m t m1. mc_fs m = f \<and> tree_facts p m = (Some (t, None), m1) \<and> sn_min_age s \<le> sub_time (lk_now l m1) t)
     \<and> (\<exists>m. mc_fs m = f \<and> \<not> fst (fst (lk_probe l p m)))"

definition member_of :: "leaks \<Rightarrow> family_rule \<Rightarrow> path \<Rightarrow> fs \<Rightarrow> path \<Rightarrow> bool" where
  "member_of l rule target f p \<longleftrightarrow> (\<exists>m fam m1. mc_fs m = f \<and> family_for_handle target rule (lk_uid l) m = (Some fam, m1)
     \<and> fr_min_members rule \<le> length (fa_members fam) \<and> p \<in> set (fa_members fam))"

definition may_go :: "leaks \<Rightarrow> signature \<Rightarrow> path \<Rightarrow> fs \<Rightarrow> path \<Rightarrow> fs \<Rightarrow> bool" where
  "may_go l s target f0 p f \<longleftrightarrow> (case sn_family s of
       None \<Rightarrow> p = target \<and> stale_by_rule l s p f \<and> guard_permits l (all_globs s) p f
     | Some rule \<Rightarrow> member_of l rule target f0 p \<and> member_stale l s p f \<and> guard_permits l (sn_globs s) p f)"

lemma size_hit_item: "size_hit l p u ev m = ((it, u1), m') \<Longrightarrow> it_path it = p \<and> it_evidence it ''staleness'' = ev ''staleness''"
proof -
  assume s: "size_hit l p u ev m = ((it, u1), m')"
  obtain h u2 m1 where h: "measure_hit l [p] u m = ((h, u2), m1)" by (metis surj_pair)
  obtain b m2 where b: "sizer_blocks p m1 = (b, m2)" by fastforce
  show ?thesis using s by (auto simp: size_hit_def h b Let_def put_fiction_def split: option.splits)
qed

lemma inspectD:
  assumes q: "quiet_leaks l" and i: "inspect l s p u m = (r, m')"
  shows "mc_fs m' = mc_fs m"
proof -
  obtain nd m1 where ls: "os_lstat p m = (nd, m1)" by fastforce
  obtain st ev m2 where c: "classify l s p (base_evidence s) m1 = ((st, ev), m2)" by (metis surj_pair)
  obtain h m3 where h: "size_hit l p u (put_staleness st ev) m2 = (h, m3)" by fastforce
  have "m' = m1 \<or> m' = m3" using i by (auto simp: inspect_def ls c h split: option.splits prod.splits if_splits)
  with os_lstatD [OF ls] classifyD [OF q c] size_hitD [OF h] show ?thesis by auto
qed

lemma inspect_stale:
  assumes q: "quiet_leaks l" and i: "inspect l s p u m = ((Some it, u1), m')"
  shows "mc_fs m' = mc_fs m \<and> (ev_get (it_evidence it) ''staleness'' = ''stale'' \<longrightarrow> stale_by_rule l s p (mc_fs m))"
proof -
  obtain nd m1 where ls: "os_lstat p m = (Some nd, m1)" and ok: "inspectable l nd"
    using i by (auto simp: inspect_def split: prod.splits option.splits if_splits)
  obtain st ev m2 where c: "classify l s p (base_evidence s) m1 = ((st, ev), m2)" by (metis surj_pair)
  obtain h u2 m3 where h: "size_hit l p u (put_staleness st ev) m2 = ((h, u2), m3)" by (metis surj_pair)
  have it: "it = h" "m' = m3" using i ok by (simp_all add: inspect_def ls c h)
  have st: "st" if "ev_get (it_evidence it) ''staleness'' = ''stale''"
    using that size_hit_item [OF h] it(1) by (simp add: ev_get_def put_staleness_def split: if_splits)
  have m1: "mc_fs m1 = mc_fs m" by (rule os_lstatD [OF ls])
  have "mc_fs m2 = mc_fs m1" by (rule classifyD [OF q c])
  with size_hitD [OF h] it m1 st classify_sound [OF q, of s p "base_evidence s" m1 ev m2] c show ?thesis by auto
qed

lemma member_refusalD:
  assumes q: "quiet_leaks l" and r: "member_refusal l s p m = (r, m')"
  shows "mc_fs m' = mc_fs m"
proof -
  obtain nd m1 where ls: "os_lstat p m = (nd, m1)" by fastforce
  obtain tf m2 where tf: "tree_facts p m1 = (tf, m2)" by fastforce
  obtain live pf m3 where pr: "lk_probe l p m2 = ((live, pf), m3)" by (metis surj_pair)
  have "m' = m1 \<or> m' = m2 \<or> m' = m3"
    using r by (auto simp: member_refusal_def ls tf pr Let_def split: option.splits if_splits)
  with os_lstatD [OF ls] tree_factsD [OF tf] quiet_probe [OF q pr] show ?thesis by auto
qed

definition proofs_said :: "leaks \<Rightarrow> bool" where
  "proofs_said l \<longleftrightarrow> (\<forall>p m. fst (fst (lk_probe l p m)) \<longrightarrow> snd (fst (lk_probe l p m)) \<noteq> [])"

lemma member_refusal_stale:
  assumes q: "quiet_leaks l" and pf: "proofs_said l" and r: "member_refusal l s p m = (None, m')"
  shows "member_stale l s p (mc_fs m)"
proof -
  obtain nd m1 where ls: "os_lstat p m = (nd, m1)" by fastforce
  have m1: "mc_fs m1 = mc_fs m" by (rule os_lstatD [OF ls])
  obtain t m2 where tf: "tree_facts p m1 = (Some (t, None), m2)"
    using r by (auto simp: member_refusal_def ls split: option.splits if_splits prod.splits)
  have m2: "mc_fs m2 = mc_fs m" using tree_factsD [OF tf] m1 by simp
  obtain live w m3 where pr: "lk_probe l p m2 = ((live, w), m3)" by (metis surj_pair)
  have "\<not> sub_time (lk_now l m2) t < sn_min_age s \<and> \<not> (live \<and> w \<noteq> [])"
    using r by (auto simp: member_refusal_def ls tf pr Let_def split: option.splits if_splits)
  moreover have "live \<longrightarrow> w \<noteq> []" using pf [unfolded proofs_said_def, rule_format, of p m2] by (simp add: pr)
  ultimately have "sn_min_age s \<le> sub_time (lk_now l m2) t" "\<not> fst (fst (lk_probe l p m2))" by (auto simp: pr)
  with tf m1 m2 show ?thesis unfolding member_stale_def by blast
qed

lemma member_loop_removes:
  assumes q: "quiet_leaks l" and pf: "proofs_said l" and cwd: "cwd_ok (lk_cwd l)"
    and "member_loop l s stop i ps acc m = (r, m')"
  shows "(removes (\<lambda>p f. p \<in> set ps \<and> member_stale l s p f \<and> guard_permits l (sn_globs s) p f))\<^sup>*\<^sup>* (mc_fs m) (mc_fs m')"
proof -
  have "(removes (\<lambda>p f. p \<in> A \<and> member_stale l s p f \<and> guard_permits l (sn_globs s) p f))\<^sup>*\<^sup>* (mc_fs m) (mc_fs m')"
    if "set ps \<subseteq> A" "member_loop l s stop i ps acc m = (r, m')" for A ps i acc m
    using that
  proof (induction ps arbitrary: i acc m)
    case Nil
    then show ?case by (cases acc) simp
  next
    case (Cons p ps)
    obtain n rs where acc: "acc = (n, rs)" by fastforce
    obtain why m1 where mr: "member_refusal l s p m = (why, m1)" by fastforce
    obtain d m2 where gd: "leak_guard l p (sn_globs s) m1 = (d, m2)" by fastforce
    obtain rm m3 where rm: "os_remove_all p m2 = (rm, m3)" by fastforce
    have m1: "mc_fs m1 = mc_fs m" by (rule member_refusalD [OF q mr])
    have m2: "mc_fs m2 = mc_fs m" using leak_guardD [OF gd] m1 by simp
    have A: "set ps \<subseteq> A" using Cons.prems(1) by simp
    consider "m' = m" | i' acc' where "member_loop l s stop i' ps acc' m1 = (r, m')"
      | i' acc' where "member_loop l s stop i' ps acc' m2 = (r, m')"
      | i' acc' where "why = None" "d = None" "member_loop l s stop i' ps acc' m3 = (r, m')"
      using Cons.prems(2) by (simp add: acc mr gd rm split: if_splits option.splits)
    then show ?case
    proof cases
      case (4 i' acc')
      have "member_stale l s p (mc_fs m2)" using member_refusal_stale [OF q pf mr [unfolded 4(1)]] m2 by simp
      moreover have "guard_permits l (sn_globs s) p (mc_fs m2)"
        using leak_guard_permits [OF cwd gd [unfolded 4(2)]] m1 m2 by simp
      moreover have "p \<in> A" using Cons.prems(1) by simp
      ultimately have one: "(removes (\<lambda>p f. p \<in> A \<and> member_stale l s p f \<and> guard_permits l (sn_globs s) p f))\<^sup>*\<^sup>* (mc_fs m2) (mc_fs m3)"
        by (intro remove_all_removes [OF rm]) simp
      from rtranclp_trans [OF one Cons.IH [OF A 4(3)]] show ?thesis by (simp only: m2)
    next
      case 1
      then show ?thesis by simp
    next
      case (2 i' acc')
      from Cons.IH [OF A 2] show ?thesis by (simp only: m1)
    next
      case (3 i' acc')
      from Cons.IH [OF A 3] show ?thesis by (simp only: m2)
    qed
  qed
  from this [OF subset_refl assms(4)] show ?thesis .
qed

lemma group_entriesD: "group_entries rt rule uid skip es gs m = (r, m') \<Longrightarrow> mc_fs m' = mc_fs m"
proof (induction es arbitrary: gs m)
  case (Cons e es)
  obtain name nd where e: "e = (name, nd)" by fastforce
  obtain x m1 where ls: "os_lstat (join_path [rt, name]) m = (x, m1)" by fastforce
  note m1 = os_lstatD [OF ls]
  have "\<exists>gs'. group_entries rt rule uid skip es gs' m = (r, m') \<or> group_entries rt rule uid skip es gs' m1 = (r, m')"
    using Cons.prems by (auto simp: e ls Let_def split: option.splits if_splits)
  with Cons.IH m1 show ?case by metis
qed simp

lemma list_familiesD: "list_families rt rule uid skip m = (r, m') \<Longrightarrow> mc_fs m' = mc_fs m"
proof -
  assume l: "list_families rt rule uid skip m = (r, m')"
  obtain es m1 where rd: "os_read_dir rt m = (es, m1)" by fastforce
  have "mc_fs m1 = mc_fs m" using os_read_dir_fs [of rt m] rd by simp
  with l show ?thesis by (auto simp: list_families_def rd split: option.splits prod.splits dest: group_entriesD)
qed

lemma family_for_handleD: "family_for_handle h rule uid m = (r, m') \<Longrightarrow> mc_fs m' = mc_fs m"
  by (auto simp: family_for_handle_def split: option.splits prod.splits dest: list_familiesD)

lemma apply_family_removes:
  assumes q: "quiet_leaks l" and pf: "proofs_said l" and cwd: "cwd_ok (lk_cwd l)"
    and a: "apply_family l s rule stop target m = (r, m')"
  shows "(removes (\<lambda>p f. member_of l rule target (mc_fs m) p \<and> member_stale l s p f \<and> guard_permits l (sn_globs s) p f))\<^sup>*\<^sup>*
    (mc_fs m) (mc_fs m')"
proof -
  obtain fo m1 where fo: "family_for_handle target rule (lk_uid l) m = (fo, m1)" by fastforce
  have m1: "mc_fs m1 = mc_fs m" by (rule family_for_handleD [OF fo])
  show ?thesis
  proof (cases "fo = None \<or> length (fa_members (the fo)) < fr_min_members rule")
    case True
    then have "m' = m1" using a by (cases fo) (auto simp: apply_family_def fo)
    with m1 show ?thesis by simp
  next
    case False
    then obtain fam where fam: "fo = Some fam" "\<not> length (fa_members fam) < fr_min_members rule" by auto
    obtain sf m2 where s1: "lk_statfs l (fa_root fam) m1 = (sf, m2)" by fastforce
    have m2: "mc_fs m2 = mc_fs m" using quiet_statfs [OF q s1] m1 by simp
    obtain out m3 where lp: "member_loop l s stop 0 (fa_members fam) (0, []) m2 = (out, m3)" by fastforce
    obtain sg m4 where s2: "lk_statfs l (fa_root fam) m3 = (sg, m4)" by fastforce
    have m4: "mc_fs m4 = mc_fs m3" by (rule quiet_statfs [OF q s2])
    have "m' = m2 \<or> m' = m4"
      using a fam by (auto simp: apply_family_def fo s1 lp s2 split: option.splits prod.splits)
    moreover have "(removes (\<lambda>p f. member_of l rule target (mc_fs m) p \<and> member_stale l s p f \<and> guard_permits l (sn_globs s) p f))\<^sup>*\<^sup>*
      (mc_fs m) (mc_fs m3)"
    proof (rule removes_mono)
      show "(removes (\<lambda>p f. p \<in> set (fa_members fam) \<and> member_stale l s p f \<and> guard_permits l (sn_globs s) p f))\<^sup>*\<^sup>*
        (mc_fs m) (mc_fs m3)"
        using member_loop_removes [OF q pf cwd lp] by (simp only: m2)
      show "member_of l rule target (mc_fs m) p \<and> member_stale l s p f \<and> guard_permits l (sn_globs s) p f"
        if "p \<in> set (fa_members fam) \<and> member_stale l s p f \<and> guard_permits l (sn_globs s) p f" for p f
        using that fo fam unfolding member_of_def by auto
    qed
    ultimately show ?thesis using m2 m4 by auto
  qed
qed

lemma hit_freed_removes:
  "quiet_leaks l \<Longrightarrow> freed_by_delete (lk_statfs l) vol (remove_hit p) m = (r, m') \<Longrightarrow> P p (mc_fs m) \<Longrightarrow>
     (removes P)\<^sup>*\<^sup>* (mc_fs m) (mc_fs m')"
  by (rule freed_removes [where fn = "remove_hit p"]) (auto simp: quiet_leaks_def remove_hit_def split: prod.split option.split)

lemma leaks_apply_removes:
  assumes "quiet_leaks l" "proofs_said l" "cwd_ok (lk_cwd l)" "leaks_apply l stop a m = (r, m')"
  shows "mc_fs m' = mc_fs m
    \<or> (\<exists>s. signature_for l (ma_target a) = Some s \<and> ma_op a = ''delete''
        \<and> (removes (may_go l s (ma_target a) (mc_fs m)))\<^sup>*\<^sup>* (mc_fs m) (mc_fs m'))"
proof (cases "ma_op a = ''delete'' \<and> signature_for l (ma_target a) \<noteq> None")
  case False
  then have "m' = m" using assms(4) by (auto simp: leaks_apply_def Let_def split: if_splits)
  then show ?thesis by simp
next
  case True
  then obtain s where s: "signature_for l (ma_target a) = Some s" and op: "ma_op a = ''delete''" by auto
  let ?t = "ma_target a"
  have "(removes (may_go l s ?t (mc_fs m)))\<^sup>*\<^sup>* (mc_fs m) (mc_fs m')"
  proof (cases "sn_family s")
    case (Some rule)
    then have "apply_family l s rule stop ?t m = (r, m')" using assms(4) s op by (simp add: leaks_apply_def)
    from apply_family_removes [OF assms(1-3) this] show ?thesis
      by (rule removes_mono) (simp add: may_go_def Some)
  next
    case None
    obtain io u m1 where i: "inspect l s ?t None m = ((io, u), m1)" by (metis surj_pair)
    show ?thesis
    proof (cases "io = None \<or> ev_get (it_evidence (the io)) ''staleness'' \<noteq> ''stale''")
      case True
      then have "m' = m1" using assms(4) s op None by (cases io) (auto simp: leaks_apply_def i)
      moreover have "mc_fs m1 = mc_fs m"
        using i inspectD [OF assms(1)] by blast
      ultimately show ?thesis by simp
    next
      case False
      then obtain it where it: "io = Some it" "ev_get (it_evidence it) ''staleness'' = ''stale''" by auto
      have st: "mc_fs m1 = mc_fs m" "stale_by_rule l s ?t (mc_fs m)"
        using inspect_stale [OF assms(1) i [unfolded it(1)]] it(2) by auto
      obtain d m2 where g: "leak_guard l ?t (all_globs s) m1 = (d, m2)" by fastforce
      have m2: "mc_fs m2 = mc_fs m" using leak_guardD [OF g] st by simp
      obtain fr e m3 where f: "freed_by_delete (lk_statfs l) (dir_path ?t) (remove_hit ?t) m2 = ((fr, e), m3)"
        by (metis surj_pair)
      show ?thesis
      proof (cases d)
        case (Some x)
        then have "m' = m2" using assms(4) s op None it by (simp add: leaks_apply_def i g)
        with m2 show ?thesis by simp
      next
        case d: None
        have "m' = m3" using assms(4) s op None it d by (cases e) (simp_all add: leaks_apply_def i g f)
        moreover have "may_go l s ?t (mc_fs m) ?t (mc_fs m2)"
          using None st m2 leak_guard_permits [OF assms(3) g [unfolded d]] by (simp add: may_go_def)
        ultimately show ?thesis using hit_freed_removes [OF assms(1) f, of "may_go l s ?t (mc_fs m)"] m2 by simp
      qed
    qed
  qed
  with s op show ?thesis by blast
qed

text \<open>
  C3. Whatever \<open>Apply\<close> of the leak module removes lies below the target (or, for a family, below a current
  member of a family that is still large enough), and just before each removal the path was stale by its
  signature's rule, re-proven then, and permitted by the guard for that signature's globs.
\<close>

theorem leaks_apply_safe:
  assumes "quiet_leaks l" "proofs_said l" "cwd_ok (lk_cwd l)" "leaks_apply l stop a m = (r, m')"
  shows "mc_fs m' = mc_fs m
    \<or> (\<exists>s. signature_for l (ma_target a) = Some s \<and> ma_op a = ''delete''
        \<and> (removes (may_go l s (ma_target a) (mc_fs m)))\<^sup>*\<^sup>* (mc_fs m) (mc_fs m'))"
  by (rule leaks_apply_removes [OF assms])

text \<open>A day-old trial directory nothing holds open, next to another file.\<close>

definition demo_signature :: signature where
  "demo_signature = \<lparr> sn_id = ''trial'', sn_title = [], sn_globs = [''/t/leak-*''], sn_staleness = StaleWhenAgedAndLsofEmpty,
     sn_min_age = 12 * hour, sn_alias = AliasNone, sn_risk = RiskLow, sn_workaround = [], sn_family = None, sn_session = None \<rparr>"

definition demo_leaks :: leaks where
  "demo_leaks = \<lparr> lk_sigs = [demo_signature], lk_safety = \<lparr> sf_roots = [], sf_blocked = [''.git''] \<rparr>, lk_cwd = None,
     lk_probe = (\<lambda>p m. ((False, ''lsof: nothing''), m)), lk_causal = (\<lambda>p m. ((False, ''x''), m)),
     lk_open = (\<lambda>m. (Inl ''x'', m)), lk_session = (\<lambda>i w m. ((True, ''alive''), m)), lk_uid = 501, lk_now = (\<lambda>m. day),
     lk_opener = (\<lambda>m k nd. None), lk_statfs = (\<lambda>p m. (Some (8 * int (length (mc_fs m)), 512), m)), lk_text = (\<lambda>t. []) \<rparr>"

definition demo_tree :: fs where
  "demo_tree = [([''t''], new_node KDir), ([''t'', ''leak-1''], (new_node KDir)\<lparr>nd_uid := 501\<rparr>),
     ([''t'', ''leak-1'', ''f''], (new_node KFile)\<lparr>nd_uid := 501\<rparr>), ([''t'', ''kept''], new_node KFile)]"

definition delete_action :: "path \<Rightarrow> mod_action" where
  "delete_action p = \<lparr> ma_module = ''leaks'', ma_op = ''delete'', ma_target = p, ma_dest = [], ma_size = 0, ma_risk = RiskLow \<rparr>"

lemma demo_leaks_quiet: "quiet_leaks demo_leaks" "proofs_said demo_leaks" "cwd_ok (lk_cwd demo_leaks)"
  by (simp_all add: quiet_leaks_def quiet_def demo_leaks_def proofs_said_def cwd_ok_def)

lemma leaks_apply_safe_witness:
  "snd (fst (leaks_apply demo_leaks (\<lambda>i. False) (delete_action ''/t/leak-1'') (machine_of demo_tree))) = None
   \<and> map fst (mc_fs (snd (leaks_apply demo_leaks (\<lambda>i. False) (delete_action ''/t/leak-1'') (machine_of demo_tree)))) = [[''t''], [''t'', ''kept'']]
   \<and> (removes (may_go demo_leaks demo_signature ''/t/leak-1'' demo_tree))\<^sup>*\<^sup>* demo_tree
        (mc_fs (snd (leaks_apply demo_leaks (\<lambda>i. False) (delete_action ''/t/leak-1'') (machine_of demo_tree))))"
proof -
  let ?r = "leaks_apply demo_leaks (\<lambda>i. False) (delete_action ''/t/leak-1'') (machine_of demo_tree)"
  have v: "snd (fst ?r) = None" by code_simp
  have k: "map fst (mc_fs (snd ?r)) = [[''t''], [''t'', ''kept'']]" by code_simp
  have sg: "signature_for demo_leaks ''/t/leak-1'' = Some demo_signature" by code_simp
  have f: "mc_fs (machine_of demo_tree) = demo_tree" by (simp add: machine_of_def)
  have t: "ma_target (delete_action ''/t/leak-1'') = ''/t/leak-1''" by (simp add: delete_action_def)
  have "map fst demo_tree \<noteq> [[''t''], [''t'', ''kept'']]" by (simp add: demo_tree_def)
  then have ne: "mc_fs (snd ?r) \<noteq> demo_tree" using k by metis
  have "mc_fs (snd ?r) = demo_tree \<or> (\<exists>s. signature_for demo_leaks ''/t/leak-1'' = Some s
      \<and> ma_op (delete_action ''/t/leak-1'') = ''delete''
      \<and> (removes (may_go demo_leaks s ''/t/leak-1'' demo_tree))\<^sup>*\<^sup>* demo_tree (mc_fs (snd ?r)))"
    using leaks_apply_safe [OF demo_leaks_quiet surjective_pairing, of "\<lambda>i. False" "delete_action ''/t/leak-1''" "machine_of demo_tree"]
    unfolding f t .
  with ne sg v k show ?thesis by simp
qed

text \<open>
  While the session probe says a session is alive, \<open>Apply\<close> on the session's directory removes nothing
  and reports an error, however old its files are.
\<close>

lemma live_session_untouched:
  assumes "quiet_leaks l" "\<forall>w m. fst (fst (lk_session l (base_path (ma_target a)) w m))"
    "signature_for l (ma_target a) = Some s" "sn_family s = None" "sn_staleness s = StaleWhenSessionDead"
    "sn_session s = Some r" "is_session_uuid (base_path (ma_target a))" "\<not> is_scratch_entry s (ma_target a)"
    "leaks_apply l stop a m = (out, m')"
  shows "mc_fs m' = mc_fs m \<and> snd out \<noteq> None"
proof (cases "ma_op a = ''delete''")
  case False
  then show ?thesis using assms(9) by (auto simp: leaks_apply_def Let_def)
next
  case True
  obtain io u m1 where i: "inspect l s (ma_target a) None m = ((io, u), m1)" by (metis surj_pair)
  have m1: "mc_fs m1 = mc_fs m" using inspectD [OF assms(1) i] .
  have "\<not> stale_by_rule l s (ma_target a) f" for f
    using assms(2,5-8) by (simp add: stale_by_rule_def session_ended_def)
  then have live: "ev_get (it_evidence it) ''staleness'' \<noteq> ''stale''" if "io = Some it" for it
    using inspect_stale [OF assms(1) i [unfolded that]] by auto
  show ?thesis using assms(9) True assms(3,4) m1 live by (cases io) (auto simp: leaks_apply_def i)
qed

definition demo_session :: leaks where
  "demo_session = demo_leaks\<lparr> lk_sigs := [demo_signature\<lparr> sn_globs := [''/t/*''], sn_staleness := StaleWhenSessionDead,
     sn_session := Some \<lparr> sr_scratch_dir = ''scratchpad'', sr_dead_after = hour, sr_entry_idle = day, sr_window = minute \<rparr> \<rparr>] \<rparr>"

lemma live_session_untouched_witness:
  "mc_fs (snd (leaks_apply demo_session (\<lambda>i. False) (delete_action ''/t/00000000-0000-4000-8000-00000000aBcD'') (machine_of demo_tree)))
     = demo_tree"
proof -
  let ?t = "''/t/00000000-0000-4000-8000-00000000aBcD''"
  let ?s = "hd (lk_sigs demo_session)"
  have q: "quiet_leaks demo_session"
    using demo_leaks_quiet(1) by (simp add: demo_session_def quiet_leaks_def)
  have al: "\<forall>w m. fst (fst (lk_session demo_session b w m))" for b by (simp add: demo_session_def demo_leaks_def)
  have t: "ma_target (delete_action ?t) = ?t" by (simp add: delete_action_def)
  have sg: "signature_for demo_session ?t = Some ?s" by code_simp
  have u: "is_session_uuid (base_path ?t)" "\<not> is_scratch_entry ?s ?t" by code_simp+
  have sr: "sn_family ?s = None" "sn_staleness ?s = StaleWhenSessionDead"
    "sn_session ?s = Some \<lparr> sr_scratch_dir = ''scratchpad'', sr_dead_after = hour, sr_entry_idle = day, sr_window = minute \<rparr>"
    by (simp_all add: demo_session_def demo_signature_def)
  show ?thesis
    using live_session_untouched [OF q, of "delete_action ?t", unfolded t, OF al sg sr u surjective_pairing]
    by (simp add: machine_of_def)
qed

end
