(* ===== verification/Worktrees.thy ===== *)
theory Worktrees
  imports Liveness Sizer Types
begin

text \<open>
  \<open>internal/worktrees\<close>: finished git worktrees. The porcelain parser, the facts and tiers, the discovery of
  repositories, and the module's \<open>Scan\<close>, \<open>Plan\<close>, \<open>Apply\<close>, \<open>Grave\<close>, \<open>ForceRemove\<close> and \<open>Judge\<close>. Git, tar, the
  liveness probe, the judge command and the JSON decoder are fields; every command that is run is
  kept with its outcome in \<open>bn_log\<close>, so that what happened before what can be stated.
\<close>

subsection \<open>The porcelain listing\<close>

record wt_info =
  wi_path :: path
  wi_head :: string
  wi_branch :: string
  wi_detached :: bool
  wi_locked :: bool
  wi_prunable :: bool
  wi_primary :: bool

definition wt_row :: "path \<Rightarrow> bool \<Rightarrow> wt_info" where
  "wt_row p prim = \<lparr> wi_path = p, wi_head = [], wi_branch = [], wi_detached = False, wi_locked = False,
     wi_prunable = False, wi_primary = prim \<rparr>"

definition flush_row :: "wt_info option \<Rightarrow> wt_info list \<Rightarrow> wt_info list" where
  "flush_row cur rows = (case cur of None \<Rightarrow> rows | Some r \<Rightarrow> rows @ [r])"

text \<open>A line of an open row.\<close>

definition wt_line :: "string \<Rightarrow> wt_info \<Rightarrow> wt_info" where
  "wt_line line r =
     (if has_prefix line ''HEAD '' then r\<lparr>wi_head := trim_prefix line ''HEAD ''\<rparr>
      else if has_prefix line ''branch '' then r\<lparr>wi_branch := trim_prefix (trim_prefix line ''branch '') ''refs/heads/''\<rparr>
      else if line = ''detached'' then r\<lparr>wi_detached := True\<rparr>
      else if line = ''locked'' \<or> has_prefix line ''locked '' then r\<lparr>wi_locked := True\<rparr>
      else if line = ''prunable'' \<or> has_prefix line ''prunable '' then r\<lparr>wi_prunable := True\<rparr>
      else r)"

fun wt_lines :: "string list \<Rightarrow> wt_info option \<Rightarrow> wt_info list \<Rightarrow> wt_info list" where
  "wt_lines [] cur rows = flush_row cur rows"
| "wt_lines (l # ls) cur rows =
     (let line = trim_right_chars l [CHR 0x0D] in
      if has_prefix line ''worktree '' then
        (let rows1 = flush_row cur rows in
         wt_lines ls (Some (wt_row (trim_prefix line ''worktree '') (rows1 = []))) rows1)
      else wt_lines ls (map_option (wt_line line) cur) rows)"

definition parse_worktree_list :: "string \<Rightarrow> wt_info list" where
  "parse_worktree_list out = wt_lines (split_on lf out) None []"

subsection \<open>The module and its bench\<close>

datatype command =
    GitRun path "string list" "string + string"
  | ProbeRun path bool
  | ListRun path "string option"
  | TarRun path path "string list" bool

record bench =
  bn_machine :: machine
  bn_log :: "command list"

record worktrees =
  wm_roots :: "path list"
  wm_min_idle :: duration
  wm_judge_cmd :: string
  wm_grave_dir :: path
  wm_git :: "path \<Rightarrow> string list \<Rightarrow> machine \<Rightarrow> (string + string) \<times> machine"
  wm_list :: "path \<Rightarrow> machine \<Rightarrow> string option \<times> machine"
  wm_tar :: "path \<Rightarrow> path \<Rightarrow> string list \<Rightarrow> machine \<Rightarrow> bool \<times> machine"
  wm_probe :: "path \<Rightarrow> machine \<Rightarrow> (bool \<times> string) \<times> machine"
  wm_read :: "path \<Rightarrow> machine \<Rightarrow> string option \<times> machine"
  wm_statfs :: "path \<Rightarrow> machine \<Rightarrow> (int \<times> int) option \<times> machine"
  wm_now :: "machine \<Rightarrow> time"
  wm_stamp :: "time \<Rightarrow> string"
  wm_idle_text :: "duration \<Rightarrow> string"

definition new_min_idle :: "duration \<Rightarrow> duration" where
  "new_min_idle d = (if d \<le> 0 then 12 * hour else d)"

text \<open>A command of the log, and a call of the machine.\<close>

definition logged :: "(machine \<Rightarrow> 'a \<times> machine) \<Rightarrow> ('a \<Rightarrow> command) \<Rightarrow> bench \<Rightarrow> 'a \<times> bench" where
  "logged f c b = (case f (bn_machine b) of (r, m) \<Rightarrow> (r, \<lparr> bn_machine = m, bn_log = bn_log b @ [c r] \<rparr>))"

definition on_bench :: "(machine \<Rightarrow> 'a \<times> machine) \<Rightarrow> bench \<Rightarrow> 'a \<times> bench" where
  "on_bench f b = (case f (bn_machine b) of (r, m) \<Rightarrow> (r, b\<lparr>bn_machine := m\<rparr>))"

definition git :: "worktrees \<Rightarrow> path \<Rightarrow> string list \<Rightarrow> bench \<Rightarrow> (string + string) \<times> bench" where
  "git w dir args = logged (wm_git w dir args) (GitRun dir args)"

definition exec_git :: "cmd_out \<Rightarrow> string \<Rightarrow> string + string" where
  "exec_git c msg = (if co_end c = RunOk \<and> \<not> co_timeout c then Inr (trim_space (co_out c)) else Inl msg)"

subsection \<open>Facts and tiers\<close>

datatype wt_class = ClassActive | ClassObvious | ClassJudgment

fun class_name :: "wt_class \<Rightarrow> string" where
  "class_name ClassActive = ''active''"
| "class_name ClassObvious = ''obvious''"
| "class_name ClassJudgment = ''judgment''"

record wt_facts =
  wf_info :: wt_info
  wf_clean :: bool
  wf_dirty :: string
  wf_contained :: bool
  wf_ahead :: int
  wf_idle :: duration
  wf_commit :: string
  wf_proof :: string

definition dirty_summary :: "string \<Rightarrow> string" where
  "dirty_summary status = (let ls = split_on lf status in
     itoa (int (length ls)) @ '' dirty path(s): '' @ join_with ''; '' (take 5 ls))"

definition consider_mtime :: "path \<Rightarrow> time \<Rightarrow> machine \<Rightarrow> time \<times> machine" where
  "consider_mtime p newest m = (case os_lstat p m of
     (None, m1) \<Rightarrow> (newest, m1) | (Some nd, m1) \<Rightarrow> (max newest (nd_mtime nd), m1))"

definition wt_idle_for :: "worktrees \<Rightarrow> path \<Rightarrow> time \<Rightarrow> machine \<Rightarrow> duration \<times> machine" where
  "wt_idle_for w p now m =
     (let dot = join_path [p, ''.git''] in
      case consider_mtime p zero_time m of (t1, m1) \<Rightarrow>
      (case consider_mtime dot t1 m1 of (t2, m2) \<Rightarrow>
      (case wm_read w dot m2 of (c, m3) \<Rightarrow>
      (case (case Option.bind c (\<lambda>s. cut_prefix (trim_space s) ''gitdir: '') of
               None \<Rightarrow> (t2, m3) | Some dir \<Rightarrow> consider_mtime (join_path [dir, ''index'']) t2 m3) of
         (t3, m4) \<Rightarrow> (if t3 = zero_time then 0 else sub_time now t3, m4)))))"

definition ok_out :: "string + string \<Rightarrow> string option" where
  "ok_out r = (case r of Inl e \<Rightarrow> None | Inr s \<Rightarrow> Some s)"

text \<open>The git side; False: the status could not be read.\<close>

definition gather_facts :: "worktrees \<Rightarrow> wt_info \<Rightarrow> wt_facts \<Rightarrow> bench \<Rightarrow> (bool \<times> wt_facts) \<times> bench" where
  "gather_facts w wt f b =
     (case git w (wi_path wt) [''status'', ''--porcelain''] b of
        (Inl e, b1) \<Rightarrow> ((False, f\<lparr>wf_dirty := ''status unreadable: '' @ e\<rparr>), b1)
      | (Inr status, b1) \<Rightarrow>
          let f1 = f\<lparr>wf_clean := (status = []), wf_dirty := (if status = [] then wf_dirty f else dirty_summary status)\<rparr> in
          (case git w (wi_path wt) [''log'', ''-1'', ''--format=%cI %s''] b1 of (lg, b2) \<Rightarrow>
            let f2 = (case ok_out lg of None \<Rightarrow> f1 | Some s \<Rightarrow> f1\<lparr>wf_commit := s\<rparr>) in
            (case git w (wi_path wt) [''branch'', ''-r'', ''--contains'', ''HEAD''] b2 of (br, b3) \<Rightarrow>
              let f3 = (case ok_out br of None \<Rightarrow> f2 | Some s \<Rightarrow> if trim_space s \<noteq> [] then f2\<lparr>wf_contained := True\<rparr> else f2) in
              if \<not> wi_detached wt \<and> wi_branch wt \<noteq> [] then
                (case git w (wi_path wt) [''rev-list'', ''--count'', ''@'' @ ''{upstream}..HEAD''] b3 of (rl, b4) \<Rightarrow>
                  ((True, case Option.bind (ok_out rl) (\<lambda>s. parse_int (trim_space s)) of
                      None \<Rightarrow> f3 | Some n \<Rightarrow> f3\<lparr>wf_ahead := n\<rparr>), b4))
              else ((True, f3), b3))))"

definition classify_worktree :: "worktrees \<Rightarrow> wt_info \<Rightarrow> bench \<Rightarrow> (wt_facts \<times> wt_class) \<times> bench" where
  "classify_worktree w wt b =
     (let f = \<lparr> wf_info = wt, wf_clean = False, wf_dirty = [], wf_contained = False, wf_ahead = - 1, wf_idle = 0,
          wf_commit = [], wf_proof = [] \<rparr> in
      if wi_primary wt \<or> wi_locked wt then ((f, ClassActive), b)
      else if wi_prunable wt then ((f\<lparr>wf_clean := True, wf_contained := True\<rparr>, ClassObvious), b)
      else (case on_bench (wt_idle_for w (wi_path wt) (wm_now w (bn_machine b))) b of (idle, b1) \<Rightarrow>
        let f1 = f\<lparr>wf_idle := idle\<rparr> in
        if idle < wm_min_idle w then ((f1, ClassActive), b1)
        else (case gather_facts w wt f1 b1 of
            ((False, f2), b2) \<Rightarrow> ((f2, ClassJudgment), b2)
          | ((True, f2), b2) \<Rightarrow>
              if \<not> wf_clean f2 \<or> \<not> wf_contained f2 \<or> 0 < wf_ahead f2 then ((f2, ClassJudgment), b2)
              else (case logged (wm_probe w (wi_path wt)) (\<lambda>r. ProbeRun (wi_path wt) (fst r)) b2 of
                  ((live, pf), b3) \<Rightarrow> ((f2\<lparr>wf_proof := pf\<rparr>, if live then ClassActive else ClassObvious), b3)))))"

subsection \<open>Discovery\<close>

text \<open>The directories still to descend; each is entered once.\<close>

fun walk_repos :: "nat \<Rightarrow> path \<Rightarrow> path list \<times> path list \<Rightarrow> machine \<Rightarrow> (path list \<times> path list) \<times> machine" where
  "walk_repos 0 dir st m = (st, m)"
| "walk_repos (Suc n) dir (seen, out) m =
     (if dir \<in> set seen then ((seen, out), m)
      else (case os_stat (join_path [dir, ''.git'']) m of (gd, m1) \<Rightarrow>
        let out1 = (case gd of None \<Rightarrow> out | Some nd \<Rightarrow> if nd_kind nd = KDir then out @ [dir] else out) in
        (case os_read_dir dir m1 of
           (None, m2) \<Rightarrow> ((dir # seen, out1), m2)
         | (Some es, m2) \<Rightarrow>
             fold (\<lambda>(name, nd) (st, m'). if nd_kind nd = KDir \<and> \<not> has_prefix name ''.''
                 then walk_repos n (join_path [dir, name]) st m' else (st, m'))
               es ((dir # seen, out1), m2))))"

fun discover_from :: "nat \<Rightarrow> path list \<Rightarrow> path list \<times> path list \<Rightarrow> machine \<Rightarrow> (path list \<times> path list) \<times> machine" where
  "discover_from n [] st m = (st, m)"
| "discover_from n (r # rs) st m = (case walk_repos n r st m of (st1, m1) \<Rightarrow> discover_from n rs st1 m1)"

definition discover_repos :: "path list \<Rightarrow> nat \<Rightarrow> machine \<Rightarrow> path list \<times> machine" where
  "discover_repos roots max_depth m = (case discover_from (Suc max_depth) roots ([], []) m of ((seen, out), m1) \<Rightarrow> (out, m1))"

subsection \<open>Scan and Plan\<close>

definition wt_evidence :: "worktrees \<Rightarrow> path \<Rightarrow> wt_facts \<Rightarrow> wt_class \<Rightarrow> string \<Rightarrow> string option" where
  "wt_evidence w repo f c =
     (let i = wf_info f;
          put = (\<lambda>b k v e. if b then e(k \<mapsto> v) else e) in
      put (wf_proof f \<noteq> []) ''lsof'' (wf_proof f)
       (put (0 \<le> wf_ahead f) ''ahead_of_upstream'' (itoa (wf_ahead f))
        (put True ''remote_contained'' (if wf_contained f then ''true'' else ''false'')
         (put (wf_dirty f \<noteq> []) ''dirty'' (wf_dirty f)
          (put (wf_commit f \<noteq> []) ''last_commit'' (wf_commit f)
           (put (wi_prunable i) ''prunable'' ''directory already gone; only the registration remains''
            [''repo'' \<mapsto> repo, ''tier'' \<mapsto> class_name c,
             ''branch'' \<mapsto> (if wi_detached i then ''(detached)'' else wi_branch i),
             ''head'' \<mapsto> wi_head i, ''idle'' \<mapsto> wm_idle_text w (wf_idle f)]))))))"

definition wt_item :: "worktrees \<Rightarrow> path \<Rightarrow> wt_facts \<Rightarrow> wt_class \<Rightarrow> machine \<Rightarrow> item \<times> machine" where
  "wt_item w repo f c m =
     (case (if wi_prunable (wf_info f) then (None, m) else sizer_blocks (wi_path (wf_info f)) m) of
        (ts, m1) \<Rightarrow> (\<lparr> it_path = wi_path (wf_info f), it_size = (case ts of None \<Rightarrow> 0 | Some t \<Rightarrow> ts_blocks t),
            it_evidence = wt_evidence w repo f c \<rparr>, m1))"

text \<open>\<open>stop\<close> is polled per worktree; True: cancelled.\<close>

fun scan_rows ::
  "worktrees \<Rightarrow> (nat \<Rightarrow> bool) \<Rightarrow> path \<Rightarrow> wt_info list \<Rightarrow> nat \<times> item list \<times> int \<Rightarrow> bench
   \<Rightarrow> (bool \<times> nat \<times> item list \<times> int) \<times> bench" where
  "scan_rows w stop repo [] acc b = ((False, acc), b)"
| "scan_rows w stop repo (wt # wts) (i, items, tot) b =
     (if stop i then ((True, i, items, tot), b)
      else (case classify_worktree w wt b of ((f, c), b1) \<Rightarrow>
        if c = ClassActive then scan_rows w stop repo wts (Suc i, items, tot) b1
        else (case on_bench (wt_item w repo f c) b1 of (it, b2) \<Rightarrow>
          scan_rows w stop repo wts (Suc i, items @ [it], wrap64 (tot + it_size it)) b2)))"

fun scan_repos ::
  "worktrees \<Rightarrow> (nat \<Rightarrow> bool) \<Rightarrow> path list \<Rightarrow> nat \<times> item list \<times> int \<Rightarrow> bench
   \<Rightarrow> (bool \<times> nat \<times> item list \<times> int) \<times> bench" where
  "scan_repos w stop [] acc b = ((False, acc), b)"
| "scan_repos w stop (r # rs) acc b =
     (case git w r [''worktree'', ''list'', ''--porcelain''] b of
        (Inl e, b1) \<Rightarrow> scan_repos w stop rs acc b1
      | (Inr out, b1) \<Rightarrow> (case scan_rows w stop r (parse_worktree_list out) acc b1 of
            ((True, acc1), b2) \<Rightarrow> ((True, acc1), b2)
          | ((False, acc1), b2) \<Rightarrow> scan_repos w stop rs acc1 b2))"

definition worktrees_scan :: "worktrees \<Rightarrow> (nat \<Rightarrow> bool) \<Rightarrow> bench \<Rightarrow> (report \<times> bool) \<times> bench" where
  "worktrees_scan w stop b =
     (case on_bench (discover_repos (wm_roots w) 3) b of (repos, b1) \<Rightarrow>
        (case scan_repos w stop repos (0, [], 0) b1 of ((cancelled, i, items, tot), b2) \<Rightarrow>
          ((\<lparr> rp_module = ''worktrees'', rp_items = items, rp_total = tot \<rparr>, cancelled), b2)))"

definition worktrees_plan :: "report \<Rightarrow> mod_action list" where
  "worktrees_plan r = map (\<lambda>it. \<lparr> ma_module = ''worktrees'', ma_op = ''delete'', ma_target = it_path it, ma_dest = [],
       ma_size = it_size it, ma_risk = RiskLow \<rparr>)
     (filter (\<lambda>it. ev_get (it_evidence it) ''tier'' = ''obvious'') (rp_items r))"

subsection \<open>Apply\<close>

datatype wt_err =
    WtUnsupported string
  | WtPrimary
  | WtUnregistered
  | WtGit string
  | WtReclassified wt_class
  | WtStatfs
  | WtNoGraveDir
  | WtGraveDirFailed
  | WtBundleFailed string
  | WtTarFailed

fun locate_in :: "worktrees \<Rightarrow> path \<Rightarrow> path list \<Rightarrow> bench \<Rightarrow> (wt_err + path \<times> wt_info) \<times> bench" where
  "locate_in w target [] b = (Inl WtUnregistered, b)"
| "locate_in w target (r # rs) b =
     (case git w r [''worktree'', ''list'', ''--porcelain''] b of
        (Inl e, b1) \<Rightarrow> locate_in w target rs b1
      | (Inr out, b1) \<Rightarrow> (case first_such (\<lambda>i. clean_path (wi_path i) = clean_path target) (parse_worktree_list out) of
            None \<Rightarrow> locate_in w target rs b1
          | Some i \<Rightarrow> (if wi_primary i then Inl WtPrimary else Inr (r, i), b1)))"

definition locate :: "worktrees \<Rightarrow> path \<Rightarrow> bench \<Rightarrow> (wt_err + path \<times> wt_info) \<times> bench" where
  "locate w target b = (case on_bench (discover_repos (wm_roots w) 3) b of (repos, b1) \<Rightarrow> locate_in w target repos b1)"

text \<open>\<open>FreedByDelete\<close> around one git command.\<close>

definition git_freed ::
  "worktrees \<Rightarrow> path \<Rightarrow> path \<Rightarrow> string list \<Rightarrow> bench \<Rightarrow> (wt_err + int) \<times> bench" where
  "git_freed w vol repo args b =
     (case on_bench (wm_statfs w vol) b of
        (None, b1) \<Rightarrow> (Inl WtStatfs, b1)
      | (Some (before, bsize), b1) \<Rightarrow> (case git w repo args b1 of (r, b2) \<Rightarrow>
          (case on_bench (wm_statfs w vol) b2 of
             (None, b3) \<Rightarrow> (Inl WtStatfs, b3)
           | (Some (after, bsize'), b3) \<Rightarrow>
               (case r of Inl e \<Rightarrow> Inl (WtGit e) | Inr s \<Rightarrow> Inr (wrap64 (wrap64 (after - before) * bsize)), b3))))"

definition drop_branch :: "worktrees \<Rightarrow> path \<Rightarrow> string \<Rightarrow> wt_info \<Rightarrow> bench \<Rightarrow> bench" where
  "drop_branch w repo flag wt b = (if wi_branch wt = [] then b else snd (git w repo [''branch'', flag, wi_branch wt] b))"

definition worktrees_apply :: "worktrees \<Rightarrow> mod_action \<Rightarrow> bench \<Rightarrow> (wt_err + int) \<times> bench" where
  "worktrees_apply w a b =
     (let t = ma_target a in
      if ma_op a \<noteq> ''delete'' then (Inl (WtUnsupported (ma_op a)), b)
      else case locate w t b of
        (Inl e, b1) \<Rightarrow> (Inl e, b1)
      | (Inr (repo, wt), b1) \<Rightarrow>
          if wi_prunable wt then
            (case git w repo [''worktree'', ''prune''] b1 of (Inl e, b2) \<Rightarrow> (Inl (WtGit e), b2) | (Inr s, b2) \<Rightarrow> (Inr 0, b2))
          else (case classify_worktree w wt b1 of ((f, c), b2) \<Rightarrow>
            if c \<noteq> ClassObvious then (Inl (WtReclassified c), b2)
            else (case git_freed w (dir_path t) repo [''worktree'', ''remove'', t] b2 of
                (Inl e, b3) \<Rightarrow> (Inl e, b3)
              | (Inr freed, b3) \<Rightarrow> (Inr freed, drop_branch w repo ''-d'' wt b3))))"

subsection \<open>The judged removal\<close>

text \<open>The listed files, NUL between them; \<open>Some False\<close>: nothing to archive.\<close>

definition dirty_files :: "string \<Rightarrow> string list" where
  "dirty_files out = filter (\<lambda>f. f \<noteq> []) (split_on (CHR 0x00) out)"

definition tar_dirty :: "worktrees \<Rightarrow> path \<Rightarrow> path \<Rightarrow> bench \<Rightarrow> bool option \<times> bench" where
  "tar_dirty w p tarball b =
     (case logged (wm_list w p) (ListRun p) b of
        (None, b1) \<Rightarrow> (None, b1)
      | (Some out, b1) \<Rightarrow>
          if dirty_files out = [] then (Some False, b1)
          else (case logged (wm_tar w tarball p (dirty_files out)) (TarRun tarball p (dirty_files out)) b1 of
              (ok, b2) \<Rightarrow> (if ok then Some True else None, b2)))"

definition grave_name :: "worktrees \<Rightarrow> wt_info \<Rightarrow> time \<Rightarrow> string" where
  "grave_name w wt t = base_path (wi_path wt) @ ''-'' @ wm_stamp w t"

definition grave :: "worktrees \<Rightarrow> wt_info \<Rightarrow> bench \<Rightarrow> (wt_err + path \<times> path) \<times> bench" where
  "grave w wt b =
     (if wm_grave_dir w = [] then (Inl WtNoGraveDir, b)
      else case on_bench (os_mkdir_all (wm_grave_dir w)) b of
        (None, b1) \<Rightarrow> (Inl WtGraveDirFailed, b1)
      | (Some _, b1) \<Rightarrow>
          let name = grave_name w wt (wm_now w (bn_machine b1));
              bdl = join_path [wm_grave_dir w, name @ ''.bundle''];
              tarball = join_path [wm_grave_dir w, name @ ''-dirty.tar.gz''] in
          (case git w (wi_path wt) [''bundle'', ''create'', bdl, ''HEAD''] b1 of
             (Inl e, b2) \<Rightarrow> (Inl (WtBundleFailed e), b2)
           | (Inr s, b2) \<Rightarrow> (case tar_dirty w (wi_path wt) tarball b2 of
                 (None, b3) \<Rightarrow> (Inl WtTarFailed, b3)
               | (Some wrote, b3) \<Rightarrow> (Inr (bdl, if wrote then tarball else []), b3))))"

definition force_remove :: "worktrees \<Rightarrow> path \<Rightarrow> bench \<Rightarrow> ((wt_err + int) \<times> path \<times> path) \<times> bench" where
  "force_remove w target b =
     (case locate w target b of
        (Inl e, b1) \<Rightarrow> ((Inl e, [], []), b1)
      | (Inr (repo, wt), b1) \<Rightarrow> (case grave w wt b1 of
            (Inl e, b2) \<Rightarrow> ((Inl e, [], []), b2)
          | (Inr (bdl, tarball), b2) \<Rightarrow>
              (case git_freed w (dir_path target) repo [''worktree'', ''remove'', ''--force'', target] b2 of
                 (Inl e, b3) \<Rightarrow> ((Inl e, bdl, tarball), b3)
               | (Inr freed, b3) \<Rightarrow> ((Inr freed, bdl, tarball), drop_branch w repo ''-D'' wt b3))))"

subsection \<open>The judge\<close>

record dossier =
  ds_path :: path
  ds_repo :: path
  ds_branch :: string
  ds_head :: string
  ds_size :: int
  ds_idle :: string
  ds_commit :: string
  ds_dirty :: string
  ds_contained :: bool
  ds_ahead :: string

definition dossier_from_item :: "item \<Rightarrow> dossier" where
  "dossier_from_item it = (let ev = it_evidence it in
     \<lparr> ds_path = it_path it, ds_repo = ev_get ev ''repo'', ds_branch = ev_get ev ''branch'', ds_head = ev_get ev ''head'',
       ds_size = it_size it, ds_idle = ev_get ev ''idle'', ds_commit = ev_get ev ''last_commit'', ds_dirty = ev_get ev ''dirty'',
       ds_contained = (ev_get ev ''remote_contained'' = ''true''), ds_ahead = ev_get ev ''ahead_of_upstream'' \<rparr>)"

record verdict =
  vd_verdict :: string
  vd_reason :: string

text \<open>\<open>dec\<close> gives the values a JSON decoder reads from a text before its first error.\<close>

definition parse_verdict :: "(string \<Rightarrow> verdict list) \<Rightarrow> string \<Rightarrow> verdict option" where
  "parse_verdict dec out =
     first_such (\<lambda>v. vd_verdict v = ''remove'' \<or> vd_verdict v = ''keep'') (dec (dropWhile (\<lambda>c. c \<noteq> CHR 0x7B) out))"

datatype judge_err = NoJudge | JudgeFailed | JudgeUnparseable

text \<open>\<open>run\<close> is the shell on the judge command with the dossier's text as its input.\<close>

definition judge ::
  "worktrees \<Rightarrow> (string \<Rightarrow> dossier \<Rightarrow> string option) \<Rightarrow> (string \<Rightarrow> verdict list) \<Rightarrow> dossier \<Rightarrow> judge_err + verdict" where
  "judge w run dec d =
     (if wm_judge_cmd w = [] then Inl NoJudge
      else case run (wm_judge_cmd w) d of
        None \<Rightarrow> Inl JudgeFailed
      | Some out \<Rightarrow> (case parse_verdict dec out of None \<Rightarrow> Inl JudgeUnparseable | Some v \<Rightarrow> Inr v))"

end
