(* ===== verification/WorktreesSafe.thy ===== *)
theory WorktreesSafe
  imports Worktrees
begin

text \<open>
  Which commands the worktree module runs before it removes a checkout: \<open>Apply\<close> has read a clean status, seen
  the head on a remote and found nothing open in the same call, and a judged removal comes after a bundle
  of the commits and an archive of every listed file.
\<close>

subsection \<open>Logs only grow\<close>

definition is_remove :: "command \<Rightarrow> bool" where
  "is_remove c \<longleftrightarrow> (\<exists>repo rest out. c = GitRun repo (''worktree'' # ''remove'' # rest) out)"

definition adds :: "bench \<Rightarrow> bench \<Rightarrow> command list \<Rightarrow> bool" where
  "adds b b' L \<longleftrightarrow> bn_log b' = bn_log b @ L \<and> (\<forall>c \<in> set L. \<not> is_remove c)"

lemma adds_trans: "adds b b1 L \<Longrightarrow> adds b1 b2 M \<Longrightarrow> adds b b2 (L @ M)"
  by (auto simp: adds_def)

lemma adds_refl: "adds b b []"
  by (simp add: adds_def)

lemma git_adds: "git w dir args b = (r, b') \<Longrightarrow> take 2 args \<noteq> [''worktree'', ''remove''] \<Longrightarrow> adds b b' [GitRun dir args r]"
  by (auto simp: git_def logged_def adds_def is_remove_def split: prod.splits)

lemma logged_adds: "logged f c b = (r, b') \<Longrightarrow> \<not> is_remove (c r) \<Longrightarrow> adds b b' [c r]"
  by (auto simp: logged_def adds_def split: prod.splits)

lemma on_bench_adds: "on_bench f b = (r, b') \<Longrightarrow> adds b b' []"
  by (auto simp: on_bench_def adds_def split: prod.splits)

lemma split_at_remove:
  assumes "xs @ x # zs = A @ y # B" "\<forall>c \<in> set xs. \<not> P c" "\<forall>c \<in> set zs. \<not> P c" "P y"
  shows "A = xs \<and> y = x \<and> B = zs"
  using assms
proof (induction xs arbitrary: A)
  case Nil
  then show ?case by (cases A) auto
next
  case (Cons a xs)
  then show ?case by (cases A) auto
qed

lemma no_remove: "xs = A @ y # B \<Longrightarrow> \<forall>c \<in> set xs. \<not> P c \<Longrightarrow> \<not> P y"
  by simp

subsection \<open>What the facts rest on\<close>







subsection \<open>Where the removals stand\<close>

definition listed :: "path \<Rightarrow> path \<Rightarrow> wt_info \<Rightarrow> command list \<Rightarrow> bool" where
  "listed target repo wt L \<longleftrightarrow> \<not> wi_primary wt \<and> clean_path (wi_path wt) = clean_path target
     \<and> (\<exists>out. GitRun repo [''worktree'', ''list'', ''--porcelain''] (Inr out) \<in> set L \<and> wt \<in> set (parse_worktree_list out))"

lemma locate_in_log:
  "locate_in w target rs b = (r, b') \<Longrightarrow>
   \<exists>L. adds b b' L \<and> (\<forall>repo wt. r = Inr (repo, wt) \<longrightarrow> listed target repo wt L)"
proof (induction rs arbitrary: b)
  case Nil
  then show ?case using adds_refl by auto
next
  case (Cons x rs)
  obtain g b1 where g: "git w x [''worktree'', ''list'', ''--porcelain''] b = (g, b1)" by fastforce
  have a1: "adds b b1 [GitRun x [''worktree'', ''list'', ''--porcelain''] g]" by (rule git_adds [OF g]) simp
  have more: ?case if "locate_in w target rs b1 = (r, b')"
  proof -
    note IH = Cons.IH [OF that]
    obtain L where L: "adds b1 b' L" "\<forall>repo wt. r = Inr (repo, wt) \<longrightarrow> listed target repo wt L" using IH by blast
    show ?thesis using adds_trans [OF a1 L(1)] L(2)
      by (intro exI [of _ "[GitRun x [''worktree'', ''list'', ''--porcelain''] g] @ L"]) (auto simp: listed_def)
  qed
  show ?case
  proof (cases g)
    case (Inl e)
    then show ?thesis using Cons.prems more by (simp add: g)
  next
    case (Inr out)
    show ?thesis
    proof (cases "first_such (\<lambda>i. clean_path (wi_path i) = clean_path target) (parse_worktree_list out)")
      case None
      then show ?thesis using Cons.prems more by (simp add: g Inr del: first_such_None)
    next
      case (Some i)
      have "r = (if wi_primary i then Inl WtPrimary else Inr (x, i)) \<and> b' = b1"
        using Cons.prems by (simp add: g Inr Some)
      with a1 Inr first_such_SomeD [OF Some] show ?thesis by (auto simp: listed_def split: if_splits)
    qed
  qed
qed

lemma locate_log:
  assumes "locate w target b = (r, b')"
  shows "\<exists>L. adds b b' L \<and> (\<forall>repo wt. r = Inr (repo, wt) \<longrightarrow> listed target repo wt L)"
proof -
  obtain rs b1 where d: "on_bench (discover_repos (wm_roots w) 3) b = (rs, b1)" by fastforce
  have "locate_in w target rs b1 = (r, b')" using assms by (simp add: locate_def d)
  from locate_in_log [OF this] obtain L where L: "adds b1 b' L" "\<forall>repo wt. r = Inr (repo, wt) \<longrightarrow> listed target repo wt L" by blast
  with adds_trans [OF on_bench_adds [OF d] L(1)] show ?thesis by auto
qed

lemma git_freed_log:
  assumes "git_freed w vol repo args b = (r, b')"
  shows "(\<exists>e. r = Inl e) \<and> bn_log b' = bn_log b \<or> (\<exists>out. bn_log b' = bn_log b @ [GitRun repo args out])"
proof -
  obtain s1 b1 where s1: "on_bench (wm_statfs w vol) b = (s1, b1)" by fastforce
  obtain g b2 where g: "git w repo args b1 = (g, b2)" by fastforce
  obtain s2 b3 where s2: "on_bench (wm_statfs w vol) b2 = (s2, b3)" by fastforce
  have "bn_log b2 = bn_log b1 @ [GitRun repo args g]" using g by (auto simp: git_def logged_def split: prod.splits)
  moreover have "bn_log b1 = bn_log b" "bn_log b3 = bn_log b2"
    using on_bench_adds [OF s1] on_bench_adds [OF s2] by (simp_all add: adds_def)
  moreover have "b' = b1 \<and> (\<exists>e. r = Inl e) \<or> b' = b3"
    using assms by (auto simp: git_freed_def s1 g s2 split: option.splits)
  ultimately show ?thesis by auto
qed

lemma drop_branch_log: "\<exists>L. adds b (drop_branch w repo flag wt b) L"
proof (cases "wi_branch wt = []")
  case True
  then show ?thesis using adds_refl by (auto simp: drop_branch_def)
next
  case False
  obtain g b1 where g: "git w repo [''branch'', flag, wi_branch wt] b = (g, b1)" by fastforce
  then show ?thesis using git_adds [OF g] False by (auto simp: drop_branch_def)
qed

lemma removal_proofs:
  assumes "bn_log b1 = bn_log b0 @ [GitRun repo args x]" "adds b b0 L" "adds b1 b' M"
    "bn_log b' = bn_log b @ A @ GitRun repo' (''worktree'' # ''remove'' # rest) out # B"
  shows "A = L \<and> GitRun repo' (''worktree'' # ''remove'' # rest) out = GitRun repo args x"
proof -
  have "L @ GitRun repo args x # M = A @ GitRun repo' (''worktree'' # ''remove'' # rest) out # B"
    using assms by (simp add: adds_def)
  moreover have "is_remove (GitRun repo' (''worktree'' # ''remove'' # rest) out)" by (simp add: is_remove_def)
  ultimately show ?thesis
    using split_at_remove [of L "GitRun repo args x" M A _ B is_remove] assms(2,3) unfolding adds_def by blast
qed

lemma adds_no_remove:
  assumes "adds b b' L" "bn_log b' = bn_log b @ A @ GitRun repo (''worktree'' # ''remove'' # rest) out # B"
  shows False
proof -
  have "L = A @ GitRun repo (''worktree'' # ''remove'' # rest) out # B" using assms by (simp add: adds_def)
  then have "GitRun repo (''worktree'' # ''remove'' # rest) out \<in> set L" by simp
  with assms(1) show False by (auto simp: adds_def is_remove_def)
qed

lemma removal_run:
  assumes "git_freed w vol rp (''worktree'' # ''remove'' # args) b2 = (fr, b3)" "adds b b2 L"
    "b' = (case fr of Inl e \<Rightarrow> b3 | Inr n \<Rightarrow> drop_branch w rp flag wt b3)"
    "bn_log b' = bn_log b @ A @ GitRun repo (''worktree'' # ''remove'' # rest) out # B"
  shows "A = L \<and> repo = rp \<and> rest = args"
proof -
  obtain N where N: "adds b3 b' N"
    using assms(3) adds_refl drop_branch_log [of b3 w rp flag wt] by (cases fr) auto
  consider e where "bn_log b3 = bn_log b2" "fr = Inl e"
    | y where "bn_log b3 = bn_log b2 @ [GitRun rp (''worktree'' # ''remove'' # args) y]"
    using git_freed_log [OF assms(1)] by auto
  then show ?thesis
  proof cases
    case (1 e)
    then have "adds b b' L" using assms(2,3) by (simp add: adds_def)
    with adds_no_remove assms(4) show ?thesis by blast
  next
    case (2 y)
    from removal_proofs [OF 2 assms(2) N assms(4)] show ?thesis by simp
  qed
qed



text \<open>A repository with one finished worktree.\<close>

definition demo_listing :: string where
  "demo_listing = join_with [lf] [''worktree /r'', ''HEAD aa'', ''branch refs/heads/main'', [], ''worktree /w'', ''HEAD bb'', ''detached'']"

definition demo_worktrees :: worktrees where
  "demo_worktrees = \<lparr> wm_roots = [''/r''], wm_min_idle = new_min_idle 0, wm_judge_cmd = [], wm_grave_dir = ''/g'',
     wm_git = (\<lambda>d args m. (Inr (if hd args = ''worktree'' then demo_listing
        else if hd args = ''branch'' then ''origin/main'' else []), m)),
     wm_list = (\<lambda>p m. (Some ''a.txt'', m)), wm_tar = (\<lambda>t p fs m. (True, m)), wm_probe = (\<lambda>p m. ((False, ''none''), m)),
     wm_read = (\<lambda>p m. (None, m)), wm_statfs = (\<lambda>p m. (Some (7, 512), m)), wm_now = (\<lambda>m. 20 * hour),
     wm_stamp = (\<lambda>t. ''20260101T000000Z''), wm_idle_text = (\<lambda>d. []) \<rparr>"

definition demo_bench :: bench where
  "demo_bench = \<lparr> bn_machine = machine_of [([''r''], new_node KDir), ([''r'', ''.git''], new_node KDir), ([''w''], new_node KDir)], bn_log = [] \<rparr>"



subsection \<open>Judged removals\<close>

definition graved :: "path \<Rightarrow> command list \<Rightarrow> bool" where
  "graved p L \<longleftrightarrow> (\<exists>bdl s out. GitRun p [''bundle'', ''create'', bdl, ''HEAD''] (Inr s) \<in> set L \<and> ListRun p (Some out) \<in> set L
     \<and> (dirty_files out = [] \<or> (\<exists>tb. TarRun tb p (dirty_files out) True \<in> set L)))"

lemma tar_dirty_log:
  assumes "tar_dirty w p tb b = (r, b')"
  shows "\<exists>L. adds b b' L \<and> (r \<noteq> None \<longrightarrow> (\<exists>out. ListRun p (Some out) \<in> set L
     \<and> (dirty_files out = [] \<or> TarRun tb p (dirty_files out) True \<in> set L)))"
proof -
  obtain ls b1 where ls: "logged (wm_list w p) (ListRun p) b = (ls, b1)" by fastforce
  have a1: "adds b b1 [ListRun p ls]" by (rule logged_adds [OF ls]) (simp add: is_remove_def)
  show ?thesis
  proof (cases "ls = None \<or> dirty_files (the ls) = []")
    case True
    then have "b' = b1 \<and> (r \<noteq> None \<longrightarrow> ls \<noteq> None)" using assms by (cases ls) (auto simp: tar_dirty_def ls)
    with a1 True show ?thesis by (intro exI [of _ "[ListRun p ls]"]) auto
  next
    case False
    then obtain out where out: "ls = Some out" "dirty_files out \<noteq> []" by auto
    obtain ok b2 where tr: "logged (wm_tar w tb p (dirty_files out)) (TarRun tb p (dirty_files out)) b1 = (ok, b2)" by fastforce
    have a2: "adds b1 b2 [TarRun tb p (dirty_files out) ok]" by (rule logged_adds [OF tr]) (simp add: is_remove_def)
    have "b' = b2 \<and> r = (if ok then Some True else None)" using assms out by (simp add: tar_dirty_def ls tr)
    with adds_trans [OF a1 a2] out show ?thesis
      by (intro exI [of _ "[ListRun p ls] @ [TarRun tb p (dirty_files out) ok]"]) auto
  qed
qed

lemma grave_log:
  assumes "grave w wt b = (r, b')"
  shows "\<exists>L. adds b b' L \<and> (\<forall>x. r = Inr x \<longrightarrow> graved (wi_path wt) L)"
proof (cases "wm_grave_dir w = []")
  case True
  then show ?thesis using assms adds_refl by (auto simp: grave_def)
next
  case False
  obtain mk b1 where mk: "on_bench (os_mkdir_all (wm_grave_dir w)) b = (mk, b1)" by fastforce
  have a1: "adds b b1 []" by (rule on_bench_adds [OF mk])
  let ?n = "grave_name w wt (wm_now w (bn_machine b1))"
  let ?bdl = "join_path [wm_grave_dir w, ?n @ ''.bundle'']" and ?tb = "join_path [wm_grave_dir w, ?n @ ''-dirty.tar.gz'']"
  obtain g b2 where g: "git w (wi_path wt) [''bundle'', ''create'', ?bdl, ''HEAD''] b1 = (g, b2)" by fastforce
  have a2: "adds b1 b2 [GitRun (wi_path wt) [''bundle'', ''create'', ?bdl, ''HEAD''] g]" by (rule git_adds [OF g]) simp
  note a12 = adds_trans [OF a1 a2]
  obtain tr b3 where tr: "tar_dirty w (wi_path wt) ?tb b2 = (tr, b3)" by fastforce
  from tar_dirty_log [OF tr] obtain L where L': "adds b2 b3 L \<and> (tr \<noteq> None \<longrightarrow> (\<exists>out. ListRun (wi_path wt) (Some out) \<in> set L
     \<and> (dirty_files out = [] \<or> TarRun ?tb (wi_path wt) (dirty_files out) True \<in> set L)))" by (rule exE)
  note L = conjunct1 [OF L'] conjunct2 [OF L']
  note a123 = adds_trans [OF a12 L(1)]
  have c: "b' = b1 \<and> (\<exists>e. r = Inl e) \<or> b' = b2 \<and> (\<exists>e. r = Inl e) \<or> b' = b3 \<and> (\<exists>e. r = Inl e)
      \<or> b' = b3 \<and> tr \<noteq> None \<and> (\<exists>s. g = Inr s)"
    using assms False by (cases mk; cases g; cases tr; auto simp: grave_def mk Let_def g tr)
  then show ?thesis
  proof (elim disjE conjE exE)
    fix s assume ok: "b' = b3" "tr \<noteq> None" "g = Inr s"
    then obtain out where "ListRun (wi_path wt) (Some out) \<in> set L"
      "dirty_files out = [] \<or> TarRun ?tb (wi_path wt) (dirty_files out) True \<in> set L" using mp [OF L(2) ok(2)] by (elim exE conjE)
    then have "graved (wi_path wt) (([] @ [GitRun (wi_path wt) [''bundle'', ''create'', ?bdl, ''HEAD''] g]) @ L)"
      unfolding graved_def ok(3)
      by (intro exI [of _ ?bdl] exI [of _ s] exI [of _ out]) auto
    with a123 ok(1) show ?thesis by blast
  qed (use a1 a12 a123 in auto)
qed

lemma force_remove_removal:
  assumes "force_remove w target b = (r, b')"
    "bn_log b' = bn_log b @ A @ GitRun repo (''worktree'' # ''remove'' # rest) out # B"
  shows "rest = [''--force'', target] \<and> (\<forall>c \<in> set A. \<not> is_remove c) \<and> (\<exists>wt. listed target repo wt A \<and> graved (wi_path wt) A)"
proof -
  obtain lo b1 where lo: "locate w target b = (lo, b1)" by fastforce
  obtain L where L: "adds b b1 L" "\<forall>repo wt. lo = Inr (repo, wt) \<longrightarrow> listed target repo wt L" using locate_log [OF lo] by blast
  show ?thesis
  proof (cases lo)
    case (Inl e)
    then have "b' = b1" using assms(1) by (simp add: force_remove_def lo)
    with adds_no_remove L(1) assms(2) show ?thesis by blast
  next
    case (Inr x)
    obtain rp wt where x: "x = (rp, wt)" by fastforce
    obtain gr b2 where gr: "grave w wt b1 = (gr, b2)" by fastforce
    obtain M where M: "adds b1 b2 M" "\<forall>x. gr = Inr x \<longrightarrow> graved (wi_path wt) M" using grave_log [OF gr] by blast
    note LM = adds_trans [OF L(1) M(1)]
    show ?thesis
    proof (cases gr)
      case (Inl e)
      then have "b' = b2" using assms(1) Inr by (simp add: force_remove_def lo x gr)
      with adds_no_remove LM assms(2) show ?thesis by blast
    next
      case grv: (Inr y)
      obtain bd tb where y: "y = (bd, tb)" by fastforce
      obtain fr b3 where fr: "git_freed w (dir_path target) rp [''worktree'', ''remove'', ''--force'', target] b2 = (fr, b3)" by fastforce
      have b': "b' = (case fr of Inl e \<Rightarrow> b3 | Inr n \<Rightarrow> drop_branch w rp ''-D'' wt b3)"
        using assms(1) Inr grv by (cases fr) (auto simp: force_remove_def lo x gr y fr)
      from removal_run [OF fr LM b' assms(2)] have A: "A = L @ M" "repo = rp" "rest = [''--force'', target]" by auto
      have "listed target rp wt L" using L(2) Inr x by simp
      then have "listed target rp wt A" by (auto simp: listed_def A)
      moreover have "graved (wi_path wt) A" using M(2) grv by (force simp: graved_def A)
      moreover have "\<forall>c \<in> set A. \<not> is_remove c" using L(1) M(1) by (auto simp: A adds_def)
      ultimately show ?thesis using A by blast
    qed
  qed
qed

lemma force_remove_grows:
  assumes "force_remove w target b = (r, b')"
  shows "\<exists>L. bn_log b' = bn_log b @ L"
proof -
  obtain lo b1 where lo: "locate w target b = (lo, b1)" by fastforce
  obtain L where L: "bn_log b1 = bn_log b @ L" using locate_log [OF lo] by (auto simp: adds_def)
  show ?thesis
  proof (cases lo)
    case (Inl e)
    then show ?thesis using assms L by (auto simp: force_remove_def lo)
  next
    case (Inr x)
    obtain rp wt where x: "x = (rp, wt)" by fastforce
    obtain gr b2 where gr: "grave w wt b1 = (gr, b2)" by fastforce
    obtain M where M: "bn_log b2 = bn_log b1 @ M" using grave_log [OF gr] by (auto simp: adds_def)
    obtain fr b3 where fr: "git_freed w (dir_path target) rp [''worktree'', ''remove'', ''--force'', target] b2 = (fr, b3)" by fastforce
    obtain N where N: "bn_log b3 = bn_log b2 @ N" using git_freed_log [OF fr] by auto
    obtain K where K: "bn_log (drop_branch w rp ''-D'' wt b3) = bn_log b3 @ K"
      using drop_branch_log [of b3 w rp "''-D''" wt] by (auto simp: adds_def)
    have "b' = b2 \<or> b' = b3 \<or> b' = drop_branch w rp ''-D'' wt b3"
      using assms Inr by (cases gr; cases fr) (auto simp: force_remove_def lo x gr fr)
    then show ?thesis using L M N K by auto
  qed
qed

text \<open>In a run of removals: each forced, of a target among \<open>ps\<close>, and since the removal before it, its checkout was found in
  the registry and graved.\<close>

definition graved_removals :: "path set \<Rightarrow> command list \<Rightarrow> bool" where
  "graved_removals ps L \<longleftrightarrow> (\<forall>A repo rest out B. L = A @ GitRun repo (''worktree'' # ''remove'' # rest) out # B \<longrightarrow>
     (\<exists>p \<in> ps. \<exists>wt A0 A1. rest = [''--force'', p] \<and> A = A0 @ A1 \<and> (\<forall>c \<in> set A1. \<not> is_remove c) \<and>
        listed p repo wt A1 \<and> graved (wi_path wt) A1))"

lemma graved_removals_Nil: "graved_removals ps []"
  by (simp add: graved_removals_def)

lemma graved_removals_append:
  assumes "graved_removals ps L" "graved_removals ps M"
  shows "graved_removals ps (L @ M)"
  unfolding graved_removals_def
proof (intro allI impI)
  fix A repo rest out B
  assume "L @ M = A @ GitRun repo (''worktree'' # ''remove'' # rest) out # B"
  then consider us where "L = A @ GitRun repo (''worktree'' # ''remove'' # rest) out # us"
    | us where "A = L @ us" "M = us @ GitRun repo (''worktree'' # ''remove'' # rest) out # B"
    by (auto simp: append_eq_append_conv2 append_eq_Cons_conv)
  then show "\<exists>p \<in> ps. \<exists>wt A0 A1. rest = [''--force'', p] \<and> A = A0 @ A1 \<and> (\<forall>c \<in> set A1. \<not> is_remove c) \<and>
        listed p repo wt A1 \<and> graved (wi_path wt) A1"
  proof cases
    case 1
    then show ?thesis using assms(1) unfolding graved_removals_def by blast
  next
    case (2 us)
    then obtain p wt A0 A1 where "p \<in> ps" "rest = [''--force'', p]" "us = A0 @ A1" "\<forall>c \<in> set A1. \<not> is_remove c"
        "listed p repo wt A1" "graved (wi_path wt) A1"
      using assms(2) unfolding graved_removals_def by blast
    then show ?thesis using 2(1) by (metis append.assoc)
  qed
qed

lemma force_remove_graved:
  assumes "force_remove w p b = (r, b')" "p \<in> ps"
  obtains L where "bn_log b' = bn_log b @ L" "graved_removals ps L"
proof -
  obtain L where L: "bn_log b' = bn_log b @ L" using force_remove_grows [OF assms(1)] by blast
  have "graved_removals ps L"
    unfolding graved_removals_def
  proof (intro allI impI)
    fix A repo rest out B
    assume "L = A @ GitRun repo (''worktree'' # ''remove'' # rest) out # B"
    then have "bn_log b' = bn_log b @ A @ GitRun repo (''worktree'' # ''remove'' # rest) out # B" using L by simp
    from force_remove_removal [OF assms(1) this]
    show "\<exists>p \<in> ps. \<exists>wt A0 A1. rest = [''--force'', p] \<and> A = A0 @ A1 \<and> (\<forall>c \<in> set A1. \<not> is_remove c) \<and>
        listed p repo wt A1 \<and> graved (wi_path wt) A1"
      using assms(2) by (metis append_Nil)
  qed
  then show thesis using that L by blast
qed

text \<open>
  C8. A judged removal runs \<open>git worktree remove --force\<close> on its target only after, in the same call, the target was
  found registered and not primary, its commits were bundled, and every file the listing named was archived.
\<close>

theorem judged_removal_graved:
  assumes "force_remove w target b = (r, b')"
    "bn_log b' = bn_log b @ A @ GitRun repo (''worktree'' # ''remove'' # rest) out # B"
  shows "rest = [''--force'', target] \<and> (\<exists>wt. listed target repo wt A \<and> graved (wi_path wt) A)"
  using force_remove_removal [OF assms] by blast

lemma judged_removal_graved_witness:
  "\<exists>A out B. bn_log (snd (force_remove demo_worktrees ''/w'' demo_bench)) = A @ GitRun ''/r'' [''worktree'', ''remove'', ''--force'', ''/w''] out # B
     \<and> (\<exists>wt. listed ''/w'' ''/r'' wt A \<and> graved (wi_path wt) A)"
proof -
  let ?r = "force_remove demo_worktrees ''/w'' demo_bench"
  have l: "bn_log (snd ?r) = take 4 (bn_log (snd ?r)) @ GitRun ''/r'' [''worktree'', ''remove'', ''--force'', ''/w''] (Inr demo_listing) # []"
    by code_simp
  have t: "bn_log demo_bench = []" by (simp add: demo_bench_def)
  have "bn_log (snd ?r) = bn_log demo_bench @ take 4 (bn_log (snd ?r))
      @ GitRun ''/r'' (''worktree'' # ''remove'' # [''--force'', ''/w'']) (Inr demo_listing) # []"
    using l t by simp
  from judged_removal_graved [OF surjective_pairing this]
  obtain wt where wt: "listed ''/w'' ''/r'' wt (take 4 (bn_log (snd ?r)))" "graved (wi_path wt) (take 4 (bn_log (snd ?r)))"
    by (elim exE conjE)
  show ?thesis by (intro exI conjI) (rule l, rule wt(1), rule wt(2))
qed

subsection \<open>Discovery and overlapping roots\<close>

text \<open>A root that the walk from an earlier root reached at its depth limit is marked as seen there, and the
  repositories below it are then not found at all.\<close>

definition deep_tree :: fs where
  "deep_tree = map (\<lambda>k. (k, new_node KDir)) [[''a''], [''a'', ''b''], [''a'', ''b'', ''c''], [''a'', ''b'', ''c'', ''d''],
     [''a'', ''b'', ''c'', ''d'', ''repo''], [''a'', ''b'', ''c'', ''d'', ''repo'', ''.git'']]"

lemma nested_root_hidden:
  "fst (discover_repos [''/a/b/c/d''] 3 (machine_of deep_tree)) = [''/a/b/c/d/repo'']
   \<and> fst (discover_repos [''/a'', ''/a/b/c/d''] 3 (machine_of deep_tree)) = []"
  by code_simp

end
