(* ===== verification/Procsig.thy ===== *)
theory Procsig
  imports GoGlob Types
begin

text \<open>
  \<open>internal/procsig\<close>: orphaned automation browsers. The signature registry and its matching, the process table
  read from \<open>ps\<close>, and the module that scans it, plans and applies terminations. What the kernel answers to
  the nth call is a stream (\<open>pw_ps\<close>, \<open>pw_kill\<close>, \<open>pw_cancel\<close>, \<open>pw_lag\<close>), every signal sent is kept in a log.
\<close>

subsection \<open>Signatures\<close>

record process_signature =
  ps_id :: string
  ps_title :: string
  ps_contains :: "string list"
  ps_globs :: "string list"
  ps_risk :: risk_level
  ps_workaround :: string

record process =
  pr_pid :: int
  pr_ppid :: int
  pr_uid :: int
  pr_etime :: string
  pr_command :: string

definition user_data_dir :: "string \<Rightarrow> path option" where
  "user_data_dir cmd =
     map_option (\<lambda>t. clean_path (trim_prefix t ''--user-data-dir=''))
       (first_such (\<lambda>t. has_prefix t ''--user-data-dir='' \<and> t \<noteq> ''--user-data-dir='') (GoStrings.fields cmd))"

text \<open>The climb from a path to its ancestors; each step shortens an absolute path, so its length is enough.\<close>

fun climb :: "nat \<Rightarrow> path \<Rightarrow> string list \<Rightarrow> bool" where
  "climb 0 p globs = False"
| "climb (Suc n) p globs =
     (list_ex (\<lambda>g. glob_match g p = Some True) globs \<or> (dir_path p \<noteq> p \<and> climb n (dir_path p) globs))"

definition under_any :: "path \<Rightarrow> string list \<Rightarrow> bool" where
  "under_any dir globs = climb (Suc (length (clean_path dir))) (clean_path dir) globs"

definition sig_match :: "process_signature \<Rightarrow> process \<Rightarrow> path option" where
  "sig_match s p =
     (if list_ex (\<lambda>sub. \<not> contains (pr_command p) sub) (ps_contains s) then None
      else case user_data_dir (pr_command p) of
        None \<Rightarrow> None
      | Some dir \<Rightarrow> if under_any dir (ps_globs s) then Some dir else None)"

definition default_process_signatures :: "path option \<Rightarrow> process_signature list" where
  "default_process_signatures home = [
     \<lparr> ps_id = ''headless-chrome-orphan'',
       ps_title = ''Orphaned headless browser (automation job gone, process still running)'',
       ps_contains = [''--headless'', ''--user-data-dir=''],
       ps_globs = [''/private/tmp/*'', ''/tmp/*'', ''/private/var/folders/*/*/T/*'', ''/var/folders/*/*/T/*'']
         @ (case home of None \<Rightarrow> [] | Some h \<Rightarrow>
             [join_path [h, ''.claude'', ''jobs'', ''*''], join_path [h, ''.claude'', ''tmp'', ''*'']]),
       ps_risk = RiskLow,
       ps_workaround = ''Automation harnesses that spawn headless browsers must kill them when '' @
         ''the job ends. Each hard-killed automation Chrome also leaks a code_sign_clone '' @
         ''dir '' @ em_dash @ '' after terminating orphans, run '' @ [CHR 0x27] @ ''noo-noo leaks clean'' @ [CHR 0x27] @ '' to sweep those.'' \<rparr>]"

definition parse_ps_line :: "string \<Rightarrow> process option" where
  "parse_ps_line line =
     (let f = GoStrings.fields line in
      if length f < 5 then None
      else case (parse_int (f ! 0), parse_int (f ! 1), parse_int (f ! 2)) of
        (Some pid, Some ppid, Some uid) \<Rightarrow>
          Some \<lparr> pr_pid = pid, pr_ppid = ppid, pr_uid = uid, pr_etime = f ! 3, pr_command = join_with '' '' (drop 4 f) \<rparr>
      | _ \<Rightarrow> None)"

definition parse_ps :: "string \<Rightarrow> process list" where
  "parse_ps out = List.map_filter parse_ps_line (split_on (CHR 0x0A) out)"

subsection \<open>The kernel's answers\<close>

datatype signal = SigZero | SigTerm | SigKill

datatype kill_answer = KillOk | KillESRCH | KillFailed

record proc_world =
  pw_ps :: "nat \<Rightarrow> string option"
  pw_kill :: "nat \<Rightarrow> int \<Rightarrow> signal \<Rightarrow> kill_answer"
  pw_cancel :: "nat \<Rightarrow> bool"
  pw_lag :: "nat \<Rightarrow> nat"
  pw_calls :: nat
  pw_clock :: time
  pw_log :: "(int \<times> signal) list"

text \<open>Each call takes its number's delay.\<close>

definition pw_step :: "proc_world \<Rightarrow> proc_world" where
  "pw_step w = w\<lparr>pw_calls := Suc (pw_calls w), pw_clock := pw_clock w + int (pw_lag w (pw_calls w))\<rparr>"

definition send :: "int \<Rightarrow> signal \<Rightarrow> proc_world \<Rightarrow> kill_answer \<times> proc_world" where
  "send pid sg w = (pw_kill w (pw_calls w) pid sg, (pw_step w)\<lparr>pw_log := pw_log w @ [(pid, sg)]\<rparr>)"

definition sleep :: "duration \<Rightarrow> proc_world \<Rightarrow> proc_world" where
  "sleep d w = w\<lparr>pw_clock := pw_clock w + max 0 d\<rparr>"

record orphans =
  om_sigs :: "process_signature list"
  om_uid :: int
  om_self :: int
  om_term_wait :: duration
  om_kill_wait :: duration
  om_poll_every :: duration

definition new_orphans :: "process_signature list \<Rightarrow> int \<Rightarrow> int \<Rightarrow> orphans" where
  "new_orphans sigs uid self = \<lparr> om_sigs = sigs, om_uid = uid, om_self = self, om_term_wait = 5 * second,
     om_kill_wait = 2 * second, om_poll_every = 100000000 \<rparr>"

definition list_processes :: "proc_world \<Rightarrow> process list option \<times> proc_world" where
  "list_processes w = (map_option parse_ps (pw_ps w (pw_calls w)), pw_step w)"

fun match_any :: "process_signature list \<Rightarrow> process \<Rightarrow> (process_signature \<times> path) option" where
  "match_any [] p = None"
| "match_any (s # ss) p = (case sig_match s p of Some dir \<Rightarrow> Some (s, dir) | None \<Rightarrow> match_any ss p)"

subsection \<open>Scan and Plan\<close>

definition orphan_row :: "orphans \<Rightarrow> process \<Rightarrow> bool" where
  "orphan_row m p \<longleftrightarrow> \<not> (pr_pid p \<le> 1 \<or> pr_pid p = om_self m \<or> pr_uid p \<noteq> om_uid m \<or> pr_ppid p \<noteq> 1)"

definition orphan_item :: "process \<Rightarrow> process_signature \<Rightarrow> path \<Rightarrow> item" where
  "orphan_item p s dir = \<lparr> it_path = dir, it_size = 0,
     it_evidence = [''pid'' \<mapsto> itoa (pr_pid p), ''ppid'' \<mapsto> itoa (pr_ppid p), ''etime'' \<mapsto> pr_etime p,
       ''signature'' \<mapsto> ps_id s, ''title'' \<mapsto> ps_title s, ''cmdline'' \<mapsto> pr_command p, ''workaround'' \<mapsto> ps_workaround s] \<rparr>"

text \<open>True: cancelled.\<close>

fun scan_processes :: "orphans \<Rightarrow> (nat \<Rightarrow> bool) \<Rightarrow> nat \<Rightarrow> process list \<Rightarrow> item list \<Rightarrow> bool \<times> item list" where
  "scan_processes m stop i [] items = (False, items)"
| "scan_processes m stop i (p # ps) items =
     (if stop i then (True, items)
      else if \<not> orphan_row m p then scan_processes m stop (Suc i) ps items
      else case match_any (om_sigs m) p of
        None \<Rightarrow> scan_processes m stop (Suc i) ps items
      | Some (s, dir) \<Rightarrow> scan_processes m stop (Suc i) ps (items @ [orphan_item p s dir]))"

text \<open>\<open>None\<close>: the table could not be read.\<close>

definition orphans_scan :: "orphans \<Rightarrow> (nat \<Rightarrow> bool) \<Rightarrow> proc_world \<Rightarrow> (bool \<times> report) option \<times> proc_world" where
  "orphans_scan m stop w =
     (case list_processes w of
        (None, w1) \<Rightarrow> (None, w1)
      | (Some ps, w1) \<Rightarrow> (case scan_processes m stop 0 ps [] of (cancelled, items) \<Rightarrow>
          (Some (cancelled, \<lparr> rp_module = ''orphans'', rp_items = items, rp_total = 0 \<rparr>), w1)))"

definition orphans_plan :: "orphans \<Rightarrow> report \<Rightarrow> mod_action list" where
  "orphans_plan m r = map (\<lambda>it.
       \<lparr> ma_module = ''orphans'', ma_op = ''terminate'', ma_target = ev_get (it_evidence it) ''pid'', ma_dest = [], ma_size = 0,
         ma_risk = (case first_such (\<lambda>s. ps_id s = ev_get (it_evidence it) ''signature'') (om_sigs m) of
             None \<Rightarrow> RiskLow | Some s \<Rightarrow> ps_risk s) \<rparr>)
     (filter (\<lambda>it. ev_get (it_evidence it) ''pid'' \<noteq> []) (rp_items r))"

subsection \<open>Apply\<close>

datatype orphan_err =
    OrphanUnsupported string
  | NotAPid string
  | NeverSignal int
  | OwnProcess
  | PsUnreadable
  | NotRunning int
  | ForeignOwner int
  | LiveParent int
  | NoLongerMatches string
  | TermFailed
  | KillFailedErr
  | Survived

definition verify_still_orphan :: "orphans \<Rightarrow> int \<Rightarrow> proc_world \<Rightarrow> orphan_err option \<times> proc_world" where
  "verify_still_orphan m pid w =
     (case list_processes w of
        (None, w1) \<Rightarrow> (Some PsUnreadable, w1)
      | (Some ps, w1) \<Rightarrow>
          (case first_such (\<lambda>p. pr_pid p = pid) ps of
             None \<Rightarrow> Some (NotRunning pid)
           | Some p \<Rightarrow>
               if pr_uid p \<noteq> om_uid m then Some (ForeignOwner (pr_uid p))
               else if pr_ppid p \<noteq> 1 then Some (LiveParent (pr_ppid p))
               else if match_any (om_sigs m) p = None then Some (NoLongerMatches (pr_command p))
               else None, w1))"

text \<open>\<open>waitGone\<close>: polls until the process is gone, the context ends or the deadline has passed.\<close>

partial_function (option) wait_loop :: "orphans \<Rightarrow> int \<Rightarrow> time \<Rightarrow> proc_world \<Rightarrow> (bool \<times> proc_world) option" where
  "wait_loop m pid deadline w =
     (case send pid SigZero w of (r, w1) \<Rightarrow>
        if r = KillESRCH then Some (True, w1)
        else if pw_cancel w1 (pw_calls w1) \<or> deadline < pw_clock w1 then Some (False, w1)
        else wait_loop m pid deadline (sleep (om_poll_every m) w1))"

declare wait_loop.simps [code]

definition wait_gone :: "orphans \<Rightarrow> int \<Rightarrow> duration \<Rightarrow> proc_world \<Rightarrow> (bool \<times> proc_world) option" where
  "wait_gone m pid budget w = wait_loop m pid (pw_clock w + budget) w"

text \<open>\<open>None\<close>: a wait never returned.\<close>

definition kill_phase :: "orphans \<Rightarrow> int \<Rightarrow> proc_world \<Rightarrow> (orphan_err option \<times> proc_world) option" where
  "kill_phase m pid w =
     (case send pid SigKill w of (r, w1) \<Rightarrow>
        if r = KillFailed then Some (Some KillFailedErr, w1)
        else case wait_gone m pid (om_kill_wait m) w1 of
          None \<Rightarrow> None
        | Some (gone, w2) \<Rightarrow> Some (if gone then None else Some Survived, w2))"

definition term_phase :: "orphans \<Rightarrow> int \<Rightarrow> proc_world \<Rightarrow> (orphan_err option \<times> proc_world) option" where
  "term_phase m pid w =
     (case send pid SigTerm w of
        (KillESRCH, w1) \<Rightarrow> Some (None, w1)
      | (KillFailed, w1) \<Rightarrow> Some (Some TermFailed, w1)
      | (KillOk, w1) \<Rightarrow> (case wait_gone m pid (om_term_wait m) w1 of
            None \<Rightarrow> None
          | Some (True, w2) \<Rightarrow> Some (None, w2)
          | Some (False, w2) \<Rightarrow> kill_phase m pid w2))"

definition orphans_apply :: "orphans \<Rightarrow> mod_action \<Rightarrow> proc_world \<Rightarrow> (orphan_err option \<times> proc_world) option" where
  "orphans_apply m a w =
     (if ma_op a \<noteq> ''terminate'' then Some (Some (OrphanUnsupported (ma_op a)), w)
      else case parse_int (ma_target a) of
        None \<Rightarrow> Some (Some (NotAPid (ma_target a)), w)
      | Some pid \<Rightarrow>
          if pid \<le> 1 then Some (Some (NeverSignal pid), w)
          else if pid = om_self m then Some (Some OwnProcess, w)
          else (case verify_still_orphan m pid w of
              (Some e, w1) \<Rightarrow> Some (Some e, w1)
            | (None, w1) \<Rightarrow> term_phase m pid w1))"

end
