(* ===== verification/ProcsigProps.thy ===== *)
theory ProcsigProps
  imports Procsig
begin

text \<open>
  What the orphan module signals: only the verified target, TERM first and KILL at most once after it; that its
  waits end; and what a cancelled context makes of the grace period.
\<close>

subsection \<open>The climb\<close>

lemma length_render: "\<forall>w \<in> set cs. plain_comp w \<Longrightarrow> length cs \<le> length (render_path True cs)"
proof -
  assume "\<forall>w \<in> set cs. plain_comp w"
  then have "length cs \<le> length (join_with ''/'' cs)"
  proof (induction "''/''" cs rule: join_with.induct)
    case (2 w)
    then show ?case by (cases w) (auto simp: plain_comp_def)
  qed auto
  then show ?thesis by (simp add: render_path_def)
qed

lemma climb_render:
  "\<forall>w \<in> set cs. plain_comp w \<Longrightarrow> length cs < n \<Longrightarrow> climb n (render_path True cs) globs \<longleftrightarrow>
     (\<exists>j \<le> length cs. \<exists>g \<in> set globs. glob_match g (render_path True (take j cs)) = Some True)"
proof (induction n arbitrary: cs)
  case (Suc n)
  show ?case
  proof (cases "cs = []")
    case True
    have "dir_path ''/'' = ''/''" by code_simp
    then show ?thesis by (simp add: True render_path_def list_ex_iff)
  next
    case False
    have d: "dir_path (render_path True cs) = render_path True (butlast cs)" by (rule dir_path_render [OF False Suc.prems(1)])
    have pl: "\<forall>w \<in> set (butlast cs). plain_comp w" using Suc.prems(1) by (auto dest: in_set_butlastD)
    have "comps (render_path True cs) \<noteq> comps (render_path True (butlast cs))"
      unfolding comps_render [OF Suc.prems(1)] comps_render [OF pl] using False by (cases cs rule: rev_cases) auto
    then have ne: "render_path True (butlast cs) \<noteq> render_path True cs" by metis
    have IH: "climb n (render_path True (butlast cs)) globs \<longleftrightarrow>
        (\<exists>j \<le> length (butlast cs). \<exists>g \<in> set globs. glob_match g (render_path True (take j (butlast cs))) = Some True)"
      using Suc.prems(2) False by (intro Suc.IH [OF pl]) (cases cs, auto)
    have t: "take j (butlast cs) = take j cs" if "j \<le> length (butlast cs)" for j using that by (simp add: butlast_conv_take min_absorb1)
    have l: "j \<le> length cs \<longleftrightarrow> j = length cs \<or> j \<le> length (butlast cs)" for j using False by (cases cs rule: rev_cases) auto
    define P where "P = (\<lambda>j. \<exists>g \<in> set globs. glob_match g (render_path True (take j cs)) = Some True)"
    have "climb (Suc n) (render_path True cs) globs \<longleftrightarrow> P (length cs) \<or> (\<exists>j \<le> length (butlast cs). P j)"
    proof -
      have eq: "(\<exists>j \<le> length (butlast cs). \<exists>g \<in> set globs. glob_match g (render_path True (take j (butlast cs))) = Some True)
          \<longleftrightarrow> (\<exists>j \<le> length (butlast cs). P j)"
        unfolding P_def by (rule ex_cong1) (metis t)
      have here: "list_ex (\<lambda>g. glob_match g (render_path True cs) = Some True) globs \<longleftrightarrow> P (length cs)"
        by (simp add: P_def list_ex_iff)
      show ?thesis unfolding climb.simps d IH eq here using ne by blast
    qed
    moreover have "(\<exists>j \<le> length cs. P j) \<longleftrightarrow> P (length cs) \<or> (\<exists>j \<le> length (butlast cs). P j)"
      unfolding l by blast
    ultimately show ?thesis by (simp only: P_def)
  qed
qed simp

text \<open>The fuel is enough: an absolute path is under a glob when it or one of its ancestors matches it.\<close>

lemma under_any_iff:
  assumes "clean_abs dir"
  shows "under_any dir globs \<longleftrightarrow> (\<exists>j \<le> length (comps dir). \<exists>g \<in> set globs. glob_match g (render_path True (take j (comps dir))) = Some True)"
proof -
  note c = clean_abs_comps [OF assms]
  have "length (comps dir) < Suc (length dir)" using length_render [of "comps dir"] c by (metis less_Suc_eq_le)
  then show ?thesis unfolding under_any_def clean_path_fix [OF assms] using climb_render [of "comps dir" _ globs] c by metis
qed

subsection \<open>The log\<close>

lemma send_log [simp]: "pw_log (snd (send pid sg w)) = pw_log w @ [(pid, sg)]"
  by (simp add: send_def)

lemma sleep_log [simp]: "pw_log (sleep d w) = pw_log w"
  by (simp add: sleep_def)

lemma wait_loop_log:
  assumes "wait_loop m pid d w = Some r"
  shows "\<exists>n. pw_log (snd r) = pw_log w @ replicate n (pid, SigZero)"
proof (rule wait_loop.raw_induct [OF _ assms])
  fix f m pid d w r
  assume IH: "\<And>m pid d w r. f m pid d w = Some r \<Longrightarrow> \<exists>n. pw_log (snd r) = pw_log w @ replicate n (pid, SigZero)"
    and eq: "(case send pid SigZero w of (k, w1) \<Rightarrow>
        if k = KillESRCH then Some (True, w1)
        else if pw_cancel w1 (pw_calls w1) \<or> d < pw_clock w1 then Some (False, w1)
        else f m pid d (sleep (om_poll_every m) w1)) = Some r"
  obtain k w1 where s: "send pid SigZero w = (k, w1)" by fastforce
  have l: "pw_log w1 = pw_log w @ [(pid, SigZero)]" using send_log [of pid SigZero w] s by simp
  consider "snd r = w1" | "f m pid d (sleep (om_poll_every m) w1) = Some r"
    using eq by (auto simp: s split: if_splits)
  then show "\<exists>n. pw_log (snd r) = pw_log w @ replicate n (pid, SigZero)"
  proof cases
    case 1
    with l show ?thesis by (intro exI [of _ 1]) simp
  next
    case 2
    from IH [OF 2] l show ?thesis by (auto intro: exI [of _ "Suc n" for n])
  qed
qed

text \<open>Each poll sleeps, so the deadline passes after finitely many of them.\<close>

lemma send_clock: "send pid sg w = (k, w1) \<Longrightarrow> pw_clock w \<le> pw_clock w1"
  by (auto simp: send_def pw_step_def)

lemma wait_loop_returns:
  assumes p: "0 < om_poll_every m"
  shows "\<exists>r. wait_loop m pid d w = Some r"
proof (induction "nat (d + 1 - pw_clock w)" arbitrary: w rule: less_induct)
  case less
  obtain k w1 where s: "send pid SigZero w = (k, w1)" by fastforce
  show ?case
  proof (cases "k = KillESRCH \<or> pw_cancel w1 (pw_calls w1) \<or> d < pw_clock w1")
    case True
    then show ?thesis by (subst wait_loop.simps) (auto simp: s)
  next
    case False
    let ?w = "sleep (om_poll_every m) w1"
    have c: "pw_clock ?w = pw_clock w1 + om_poll_every m" using p by (simp add: sleep_def)
    then have "nat (d + 1 - pw_clock ?w) < nat (d + 1 - pw_clock w)" using send_clock [OF s] False p by auto
    from less [OF this] show ?thesis using False by (subst wait_loop.simps) (auto simp: s)
  qed
qed

text \<open>What the verification saw.\<close>

definition seen_orphan :: "orphans \<Rightarrow> int \<Rightarrow> proc_world \<Rightarrow> bool" where
  "seen_orphan m pid w \<longleftrightarrow> (\<exists>out p s dir. pw_ps w (pw_calls w) = Some out \<and> p \<in> set (parse_ps out) \<and> pr_pid p = pid
     \<and> pr_uid p = om_uid m \<and> pr_ppid p = 1 \<and> s \<in> set (om_sigs m) \<and> sig_match s p = Some dir)"

lemma match_any_sound: "match_any ss p = Some (s, dir) \<Longrightarrow> s \<in> set ss \<and> sig_match s p = Some dir"
  by (induction ss) (auto split: option.splits)

lemma verify_sound:
  assumes "verify_still_orphan m pid w = (None, w1)"
  shows "seen_orphan m pid w \<and> pw_log w1 = pw_log w"
proof -
  have l: "list_processes w = (map_option parse_ps (pw_ps w (pw_calls w)), pw_step w)" by (simp add: list_processes_def)
  obtain out where out: "pw_ps w (pw_calls w) = Some out"
    using assms by (cases "pw_ps w (pw_calls w)") (auto simp: verify_still_orphan_def l)
  obtain p where p: "first_such (\<lambda>p. pr_pid p = pid) (parse_ps out) = Some p"
    using assms by (cases "first_such (\<lambda>p. pr_pid p = pid) (parse_ps out)")
      (auto simp: verify_still_orphan_def l out simp del: first_such_None)
  have c: "pr_uid p = om_uid m" "pr_ppid p = 1" "match_any (om_sigs m) p \<noteq> None" "w1 = pw_step w"
    using assms by (auto simp: verify_still_orphan_def l out p split: if_splits)
  then obtain s dir where "match_any (om_sigs m) p = Some (s, dir)" by auto
  with match_any_sound first_such_SomeD [OF p] c out show ?thesis
    unfolding seen_orphan_def by (fastforce simp: pw_step_def)
qed

lemma kill_phase_log:
  assumes "kill_phase m pid w = Some (r, w')"
  shows "\<exists>n. pw_log w' = pw_log w @ (pid, SigKill) # replicate n (pid, SigZero)"
proof -
  obtain k w1 where s: "send pid SigKill w = (k, w1)" by fastforce
  have l: "pw_log w1 = pw_log w @ [(pid, SigKill)]" using send_log [of pid SigKill w] s by simp
  show ?thesis
  proof (cases "k = KillFailed")
    case True
    then show ?thesis using assms l by (intro exI [of _ 0]) (simp add: kill_phase_def s)
  next
    case False
    then obtain g where "wait_loop m pid (pw_clock w1 + om_kill_wait m) w1 = Some (g, w')"
      using assms by (auto simp: kill_phase_def s wait_gone_def split: option.splits)
    from wait_loop_log [OF this] l show ?thesis by auto
  qed
qed

lemma term_phase_log:
  assumes "term_phase m pid w = Some (r, w')"
  shows "\<exists>n. pw_log w' = pw_log w @ (pid, SigTerm) # replicate n (pid, SigZero)
    \<or> (\<exists>k. pw_log w' = pw_log w @ (pid, SigTerm) # replicate n (pid, SigZero) @ (pid, SigKill) # replicate k (pid, SigZero))"
proof -
  obtain a w1 where s: "send pid SigTerm w = (a, w1)" by fastforce
  have l: "pw_log w1 = pw_log w @ [(pid, SigTerm)]" using send_log [of pid SigTerm w] s by simp
  show ?thesis
  proof (cases "a = KillOk")
    case False
    then have "w' = w1" using assms by (cases a) (auto simp: term_phase_def s)
    then show ?thesis using l by (intro exI [of _ 0]) simp
  next
    case True
    then obtain g w2 where g: "wait_loop m pid (pw_clock w1 + om_term_wait m) w1 = Some (g, w2)"
      and e: "if g then w' = w2 else kill_phase m pid w2 = Some (r, w')"
      using assms by (auto simp: term_phase_def s wait_gone_def split: option.splits bool.splits)
    obtain n where n: "pw_log w2 = pw_log w @ (pid, SigTerm) # replicate n (pid, SigZero)"
      using wait_loop_log [OF g] l by auto
    show ?thesis
    proof (cases g)
      case True
      with n e show ?thesis by auto
    next
      case False
      with e have "kill_phase m pid w2 = Some (r, w')" by simp
      from kill_phase_log [OF this] n show ?thesis by auto
    qed
  qed
qed

text \<open>
  Whatever \<open>Apply\<close> signals is the process its target names, not itself and above 1, and the process table read
  in the same call showed it as the user's own, reparented to launchd and matching a signature. The
  signals are one TERM, polls, and at most one KILL followed by polls.
\<close>

lemma orphan_signals_proven:
  assumes "orphans_apply m a w = Some (r, w')"
  shows "pw_log w' = pw_log w \<or>
    (\<exists>pid n. ma_op a = ''terminate'' \<and> parse_int (ma_target a) = Some pid \<and> 1 < pid \<and> pid \<noteq> om_self m \<and> seen_orphan m pid w
       \<and> (pw_log w' = pw_log w @ (pid, SigTerm) # replicate n (pid, SigZero)
         \<or> (\<exists>k. pw_log w' = pw_log w @ (pid, SigTerm) # replicate n (pid, SigZero) @ (pid, SigKill) # replicate k (pid, SigZero))))"
proof (cases "ma_op a = ''terminate'' \<and> (\<exists>pid. parse_int (ma_target a) = Some pid \<and> 1 < pid \<and> pid \<noteq> om_self m)")
  case False
  then have "w' = w" using assms by (auto simp: orphans_apply_def split: if_splits option.splits)
  then show ?thesis by simp
next
  case True
  then obtain pid where pid: "parse_int (ma_target a) = Some pid" "1 < pid" "pid \<noteq> om_self m" "ma_op a = ''terminate''" by auto
  obtain v w1 where v: "verify_still_orphan m pid w = (v, w1)" by fastforce
  show ?thesis
  proof (cases v)
    case None
    then have "term_phase m pid w1 = Some (r, w')" using assms pid by (simp add: orphans_apply_def v)
    from term_phase_log [OF this] verify_sound [OF v [unfolded None]] pid show ?thesis by auto
  next
    case (Some e)
    then have "w' = w1" using assms pid by (simp add: orphans_apply_def v)
    moreover have "pw_log w1 = pw_log w"
      using v by (auto simp: verify_still_orphan_def list_processes_def pw_step_def split: option.splits)
    ultimately show ?thesis by simp
  qed
qed

text \<open>
  With a positive poll interval \<open>Apply\<close> returns, however the kernel answers and whatever each call takes.
\<close>

lemma orphans_apply_returns:
  assumes "0 < om_poll_every m"
  shows "\<exists>r w'. orphans_apply m a w = Some (r, w')"
proof -
  have k: "\<exists>r w'. kill_phase m pid w = Some (r, w')" for pid w
  proof -
    obtain x w1 where s: "send pid SigKill w = (x, w1)" by fastforce
    obtain g w2 where g: "wait_loop m pid (pw_clock w1 + om_kill_wait m) w1 = Some (g, w2)"
      using wait_loop_returns [OF assms] by fastforce
    show ?thesis by (simp add: kill_phase_def s wait_gone_def g)
  qed
  have t: "\<exists>r w'. term_phase m pid w = Some (r, w')" for pid w
  proof -
    obtain x w1 where s: "send pid SigTerm w = (x, w1)" by fastforce
    obtain g w2 where g: "wait_loop m pid (pw_clock w1 + om_term_wait m) w1 = Some (g, w2)"
      using wait_loop_returns [OF assms] by fastforce
    show ?thesis using k [of pid w2] by (cases x; cases g) (simp_all add: term_phase_def s wait_gone_def g)
  qed
  show ?thesis
  proof (cases "parse_int (ma_target a)")
    case None
    then show ?thesis by (simp add: orphans_apply_def)
  next
    case (Some pid)
    obtain v w1 where v: "verify_still_orphan m pid w = (v, w1)" by fastforce
    show ?thesis using t [of pid w1] by (cases v) (simp_all add: orphans_apply_def Some v)
  qed
qed

definition demo_world :: proc_world where
  "demo_world = \<lparr> pw_ps = (\<lambda>n. Some (''PID PPID UID ELAPSED COMMAND'' @ [CHR 0x0A] @ ''42 1 501 01:00 /Chrome --headless --user-data-dir=/tmp/x'')),
     pw_kill = (\<lambda>n pid sg. if n < 4 then KillOk else KillESRCH), pw_cancel = (\<lambda>n. False), pw_lag = (\<lambda>n. 1000),
     pw_calls = 0, pw_clock = 0, pw_log = [] \<rparr>"

definition demo_orphans :: orphans where
  "demo_orphans = new_orphans (default_process_signatures None) 501 7"

definition demo_terminate :: mod_action where
  "demo_terminate = \<lparr> ma_module = ''orphans'', ma_op = ''terminate'', ma_target = ''42'', ma_dest = [], ma_size = 0, ma_risk = RiskLow \<rparr>"

lemma orphan_signals_proven_witness:
  "map_option (\<lambda>x. pw_log (snd x)) (orphans_apply demo_orphans demo_terminate demo_world)
     = Some [(42, SigTerm), (42, SigZero), (42, SigZero), (42, SigZero)]
   \<and> seen_orphan demo_orphans 42 demo_world"
proof -
  have l: "map_option (\<lambda>x. pw_log (snd x)) (orphans_apply demo_orphans demo_terminate demo_world)
     = Some [(42, SigTerm), (42, SigZero), (42, SigZero), (42, SigZero)]" by code_simp
  then obtain r w' where a: "orphans_apply demo_orphans demo_terminate demo_world = Some (r, w')" "pw_log w' \<noteq> []" by auto
  have d: "pw_log demo_world = []" by (simp add: demo_world_def)
  have p: "parse_int (ma_target demo_terminate) = Some 42" by code_simp
  show ?thesis using orphan_signals_proven [OF a(1)] a(2) d p l by auto
qed

lemma orphans_apply_returns_witness: "\<exists>r w'. orphans_apply demo_orphans demo_terminate (demo_world\<lparr>pw_kill := (\<lambda>n pid sg. KillOk)\<rparr>) = Some (r, w')"
  by (rule orphans_apply_returns) (simp add: demo_orphans_def new_orphans_def)

text \<open>
  When the context has ended, the grace period is skipped: after the TERM a single poll, without any sleep,
  leads to the KILL of a process that may still be shutting down.
\<close>

lemma cancelled_grace_skipped:
  assumes "\<forall>i. pw_cancel w i" "\<forall>i p sg. pw_kill w i p sg = KillOk"
    "orphans_apply m a w = Some (r, w')" "pw_log w' \<noteq> pw_log w"
  shows "\<exists>pid. pw_log w' = pw_log w @ [(pid, SigTerm), (pid, SigZero), (pid, SigKill), (pid, SigZero)]
    \<and> pw_clock w' = pw_clock w + (\<Sum>i < 5. int (pw_lag w (pw_calls w + i)))"
proof -
  obtain pid where pid: "parse_int (ma_target a) = Some pid" "\<not> pid \<le> 1" "pid \<noteq> om_self m" "ma_op a = ''terminate''"
    using assms(3,4) by (auto simp: orphans_apply_def split: if_splits option.splits)
  obtain v w1 where v: "verify_still_orphan m pid w = (v, w1)" by fastforce
  have w1: "w1 = pw_step w" using v by (auto simp: verify_still_orphan_def list_processes_def split: option.splits)
  have ap: "orphans_apply m a w = (case v of Some e \<Rightarrow> Some (Some e, w1) | None \<Rightarrow> term_phase m pid w1)"
    using pid by (simp add: orphans_apply_def v split: option.split)
  then have t: "term_phase m pid w1 = Some (r, w')"
    using assms(3,4) w1 by (cases v) (auto simp: pw_step_def)
  define S where "S = (\<lambda>sg x. snd (send pid sg x))"
  have ans: "send pid sg x = (KillOk, S sg x)" if "\<forall>i p sg. pw_kill x i p sg = KillOk" for sg x
    using that by (simp add: send_def S_def)
  have keep: "pw_cancel (S sg x) = pw_cancel x" "pw_kill (S sg x) = pw_kill x" for sg x
    by (simp_all add: send_def pw_step_def S_def)
  have loop: "wait_loop m pid d x = Some (False, S SigZero x)"
    if "\<forall>i. pw_cancel x i" "\<forall>i p sg. pw_kill x i p sg = KillOk" for d x
    by (subst wait_loop.simps) (simp add: ans that keep)
  have st: "pw_cancel w1 = pw_cancel w" "pw_kill w1 = pw_kill w" by (simp_all add: w1 pw_step_def)
  have "w' = S SigZero (S SigKill (S SigZero (S SigTerm w1)))"
    using t assms(1,2) by (simp add: term_phase_def kill_phase_def wait_gone_def ans loop keep st)
  then show ?thesis
    by (intro exI [of _ pid]) (simp add: S_def send_def pw_step_def w1 lessThan_Suc eval_nat_numeral)
qed

lemma cancelled_grace_skipped_witness:
  "map_option (\<lambda>x. pw_log (snd x)) (orphans_apply demo_orphans demo_terminate
      (demo_world\<lparr>pw_kill := (\<lambda>n pid sg. KillOk), pw_cancel := (\<lambda>n. True)\<rparr>))
     = Some [(42, SigTerm), (42, SigZero), (42, SigKill), (42, SigZero)]"
proof -
  let ?w = "demo_world\<lparr>pw_kill := (\<lambda>n pid sg. KillOk), pw_cancel := (\<lambda>n. True)\<rparr>"
  have l: "map_option (\<lambda>x. pw_log (snd x) = [] \<or> fst (hd (pw_log (snd x))) \<noteq> 42) (orphans_apply demo_orphans demo_terminate ?w) = Some False"
    by code_simp
  then obtain r w' where a: "orphans_apply demo_orphans demo_terminate ?w = Some (r, w')" "pw_log w' \<noteq> []" "fst (hd (pw_log w')) = 42" by auto
  have d: "pw_log ?w = []" "\<forall>i. pw_cancel ?w i" "\<forall>i p sg. pw_kill ?w i p sg = KillOk" by (simp_all add: demo_world_def)
  obtain pid where "pw_log w' = pw_log ?w @ [(pid, SigTerm), (pid, SigZero), (pid, SigKill), (pid, SigZero)]"
    using cancelled_grace_skipped [OF d(2,3) a(1)] a(2) d(1) by auto
  with a d(1) show ?thesis by simp
qed

end
