(* ===== verification/FloatProps.thy ===== *)
theory FloatProps
  imports Float64
begin

text \<open>
  What the clients of the float model need of it: the binade of a positive rational, the relative
  error of one rounding, and from it that a rounded quotient of small integers compares with a
  rounded constant exactly as the exact values do.
\<close>

lemma pow2_powi: "pow2 e = 2 powi e"
  by (auto simp: pow2_def power_int_def field_simps)

lemma pow2_add: "pow2 (a + b) = pow2 a * pow2 b"
  by (simp add: pow2_powi power_int_add)

lemma pow2_mono: "a \<le> b \<Longrightarrow> pow2 a \<le> pow2 b"
  by (simp add: pow2_powi power_int_increasing)

lemma int_bits_nonneg: "0 \<le> int_bits n"
  by (induction n rule: int_bits.induct) (subst int_bits.simps, simp)

lemma int_bits_bounds: "0 < n \<Longrightarrow> of_int n < pow2 (int_bits n) \<and> pow2 (int_bits n - 1) \<le> of_int n"
proof (induction n rule: int_bits.induct)
  case (1 n)
  show ?case
  proof (cases "n = 1")
    case True
    then show ?thesis by (simp add: int_bits.simps [of 1] int_bits.simps [of 0] pow2_def)
  next
    case False
    with 1 have h: "of_int (n div 2) < pow2 (int_bits (n div 2))" "pow2 (int_bits (n div 2) - 1) \<le> of_int (n div 2)"
      by auto
    let ?h = "of_int (n div 2) :: rat"
    have e: "int_bits n = 1 + int_bits (n div 2)" using 1 by (simp add: int_bits.simps [of n])
    have "2 * (n div 2) \<le> n" "n \<le> 2 * (n div 2) + 1" by presburger+
    then have "of_int (2 * (n div 2)) \<le> (of_int n :: rat)" "(of_int n :: rat) \<le> of_int (2 * (n div 2) + 1)"
      by (simp_all only: of_int_le_iff)
    then have nb: "2 * ?h \<le> of_int n" "of_int n \<le> 2 * ?h + 1" by simp_all
    have "0 \<le> int_bits (n div 2)" by (rule int_bits_nonneg)
    then obtain i where i: "pow2 (int_bits (n div 2)) = of_int i"
      by (auto simp: pow2_def intro: that [of "2 ^ nat (int_bits (n div 2))"])
    then have "n div 2 < i" using h(1) by (simp only: of_int_less_iff)
    then have "of_int (n div 2 + 1) \<le> (of_int i :: rat)" by (simp only: of_int_le_iff)
    then have "?h + 1 \<le> of_int i" by simp
    then have "of_int n < 2 * pow2 (int_bits (n div 2))" using nb(2) i by linarith
    moreover have "2 * pow2 (int_bits (n div 2)) = pow2 (int_bits n)"
      by (simp add: e pow2_add) (simp add: pow2_def)
    moreover have "pow2 (int_bits n - 1) \<le> of_int n"
    proof -
      have "pow2 (int_bits n - 1) = 2 * pow2 (int_bits (n div 2) - 1)"
        using pow2_add [of 1 "int_bits (n div 2) - 1"] by (simp add: e pow2_def [of 1])
      then show ?thesis using h(2) nb(1) by linarith
    qed
    ultimately show ?thesis by simp
  qed
qed

lemma binade_bounds: "0 < x \<Longrightarrow> pow2 (binade x) \<le> x \<and> x < pow2 (binade x + 1)"
proof -
  assume x: "0 < x"
  obtain n d where q: "quotient_of x = (n, d)" by (cases "quotient_of x")
  have d: "0 < d" and xq: "x = of_int n / of_int d"
    using quotient_of_denom_pos [OF q] quotient_of_div [OF q] by auto
  have n: "0 < n" using x d xq by (simp add: zero_less_divide_iff)
  let ?e = "int_bits n - int_bits d"
  have bn: "of_int n < pow2 (int_bits n)" "pow2 (int_bits n - 1) \<le> of_int n"
    if "0 < n" for n :: int using int_bits_bounds [OF that] by auto
  have up: "x < pow2 (?e + 1)"
  proof -
    have "pow2 (?e + 1) * pow2 (int_bits d - 1) = pow2 (int_bits n)"
      by (simp flip: pow2_add)
    moreover have "pow2 (?e + 1) * pow2 (int_bits d - 1) \<le> pow2 (?e + 1) * of_int d"
      using bn(2) [OF d] by (simp add: mult_left_mono less_imp_le)
    ultimately have "of_int n < pow2 (?e + 1) * of_int d" using bn(1) [OF n] by linarith
    then show ?thesis using d by (simp add: xq divide_less_eq)
  qed
  have lo: "pow2 (?e - 1) \<le> x"
  proof -
    have "pow2 (?e - 1) * pow2 (int_bits d) = pow2 (int_bits n - 1)"
      by (simp flip: pow2_add)
    moreover have "pow2 (?e - 1) * of_int d \<le> pow2 (?e - 1) * pow2 (int_bits d)"
      using bn(1) [OF d] by (simp add: mult_left_mono less_imp_le)
    ultimately have "pow2 (?e - 1) * of_int d \<le> of_int n" using bn(2) [OF n] by linarith
    then show ?thesis using d by (simp add: xq le_divide_eq)
  qed
  show ?thesis using up lo by (auto simp: binade_def q Let_def)
qed

lemma round_even_near: "\<bar>of_int (round_even x) - x\<bar> \<le> 1 / 2"
proof -
  have "of_int \<lfloor>x\<rfloor> \<le> x" "x < of_int \<lfloor>x\<rfloor> + 1" by linarith+
  then show ?thesis
    by (cases "x - of_int \<lfloor>x\<rfloor>" "1 / 2 :: rat" rule: linorder_cases) (simp_all add: round_even_def Let_def abs_le_iff)
qed

text \<open>One rounding of a value in \<open>[2 ^ -1000, 1]\<close> moves it by at most \<open>2 ^ -53\<close>.\<close>

lemma fl_near:
  assumes x: "0 \<le> x" "x \<le> 1" "x = 0 \<or> pow2 (- 1000) \<le> x"
  shows "\<bar>fl x - x\<bar> \<le> 1 / 2 ^ 53"
proof (cases "x = 0")
  case False
  with x have p: "0 < x" by simp
  let ?u = "pow2 (max (binade x - 52) (- 1074))"
  have b: "pow2 (binade x) \<le> x" "x < pow2 (binade x + 1)" using binade_bounds [OF p] by auto
  have "binade x \<le> 0"
  proof (rule ccontr)
    assume "\<not> binade x \<le> 0"
    then have "pow2 1 \<le> pow2 (binade x)" by (intro pow2_mono) simp
    then show False using b x by (simp add: pow2_def)
  qed
  then have "?u \<le> pow2 (- 52)" by (intro pow2_mono) simp
  then have u: "?u \<le> 1 / 2 ^ 52" by (simp add: pow2_def [of "- 52"])
  have up: "0 < ?u" by simp
  have "fl x - x = (of_int (round_even (x / ?u)) - x / ?u) * ?u"
    using p less_imp_neq [OF up] by (simp add: fl_def fl_pos_def Let_def left_diff_distrib)
  then have "\<bar>fl x - x\<bar> = \<bar>of_int (round_even (x / ?u)) - x / ?u\<bar> * ?u"
    using up by (simp only: abs_mult abs_of_pos)
  also have "\<dots> \<le> 1 / 2 * ?u"
    by (rule mult_right_mono [OF round_even_near]) (simp add: less_imp_le)
  finally show ?thesis using u by simp
qed (simp add: fl_def)

lemma fl_of_int_small: "fl (of_int n) = of_int n" if "0 \<le> n" "n \<le> 2 ^ 53"
proof (cases "n = 0")
  case False
  with that have n: "0 < n" by simp
  let ?x = "of_int n :: rat" and ?e = "binade (of_int n)"
  have b: "pow2 ?e \<le> ?x" "?x < pow2 (?e + 1)" using binade_bounds [of ?x] n by auto
  show ?thesis
  proof (cases "?e \<le> 52")
    case True
    have e0: "0 \<le> ?e"
    proof (rule ccontr)
      assume "\<not> 0 \<le> ?e"
      then have "pow2 (?e + 1) \<le> pow2 0" by (intro pow2_mono) simp
      then show False using b n by (simp add: pow2_def [of 0])
    qed
    have "?x / pow2 (?e - 52) = of_int (n * 2 ^ nat (52 - ?e))"
      using True by (simp add: pow2_def)
    then show ?thesis using n e0 True
      by (simp add: fl_def fl_pos_def Let_def max_def del: of_int_mult)
        (simp add: pow2_def)
  next
    case False
    then have "pow2 53 \<le> pow2 ?e" by (intro pow2_mono) simp
    then have "of_int (2 ^ 53) \<le> (of_int n :: rat)" using b by (simp add: pow2_def [of 53])
    then have n53: "n = 2 ^ 53" using that by (simp only: of_int_le_iff)
    have "fl (of_int (2 ^ 53)) = of_int (2 ^ 53)" by code_simp
    then show ?thesis by (simp only: n53)
  qed
qed (simp add: fl_def)

text \<open>A ratio of counts against the rounded constant four fifths.\<close>

lemma fl_ratio_four_fifths:
  assumes "0 \<le> h" "h \<le> n" "0 < n" "n < 2 ^ 32"
  shows "fl (4 / 5) \<le> fl (fl_int h / fl_int n) \<longleftrightarrow> 4 * n \<le> 5 * h"
proof -
  have fi: "fl_int h = of_int h" "fl_int n = of_int n"
    using assms by (auto simp: fl_int_def intro!: fl_of_int_small)
  let ?q = "of_int h / of_int n :: rat"
  have np: "(0::rat) < of_int n" "of_int n < (2 ^ 32 :: rat)" using assms by auto
  have q: "0 \<le> ?q" "?q \<le> 1" using assms by auto
  have small: "?q = 0 \<or> pow2 (- 1000) \<le> ?q"
  proof (cases "h = 0")
    case False
    have "pow2 (- 1000) \<le> pow2 (- 32)" by (intro pow2_mono) simp
    also have "\<dots> = 1 / 2 ^ 32" by (simp add: pow2_def)
    also have "\<dots> \<le> 1 / of_int n" using np by (intro divide_left_mono) auto
    also have "\<dots> \<le> ?q" using assms False np by (intro divide_right_mono) auto
    finally show ?thesis by simp
  qed simp
  have near: "\<bar>fl ?q - ?q\<bar> \<le> 1 / 2 ^ 53" by (rule fl_near [OF q small])
  have "pow2 (- 1000) \<le> pow2 (- 1)" by (intro pow2_mono) simp
  then have four: "\<bar>fl (4 / 5) - 4 / 5\<bar> \<le> 1 / 2 ^ 53"
    by (intro fl_near) (auto simp: pow2_def [of "- 1"])
  have gap: "1 / (5 * 2 ^ 32) < 1 / (5 * of_int n :: rat)"
    using np by (intro divide_strict_left_mono) auto
  have qe: "?q = 5 * of_int h / (5 * of_int n)" using np by simp
  consider "4 * n = 5 * h" | "4 * n < 5 * h" | "5 * h < 4 * n" by linarith
  then show ?thesis
  proof cases
    case 1
    then have "of_int (4 * n) = (of_int (5 * h) :: rat)" by (simp only:)
    then have "(4 * of_int n :: rat) = 5 * of_int h" by simp
    then have q45: "?q = 4 / 5" using np by (simp add: field_simps)
    show ?thesis unfolding fi q45 using 1 by simp
  next
    case 2
    then have "of_int (4 * n + 1) \<le> (of_int (5 * h) :: rat)" by (simp only: of_int_le_iff)
    then have "(4 * of_int n + 1 :: rat) \<le> 5 * of_int h" by simp
    then have "(4 * of_int n + 1) / (5 * of_int n) \<le> ?q" unfolding qe using np by (intro divide_right_mono) auto
    then have "4 / 5 + 1 / (5 * of_int n) \<le> ?q" using np by (simp add: add_divide_distrib)
    then have "fl (4 / 5) < fl ?q" using near four gap by (simp add: abs_if split: if_splits)
    with 2 show ?thesis by (simp add: fi)
  next
    case 3
    then have "of_int (5 * h + 1) \<le> (of_int (4 * n) :: rat)" by (simp only: of_int_le_iff)
    then have "(5 * of_int h + 1 :: rat) \<le> 4 * of_int n" by simp
    then have "(5 * of_int h + 1) / (5 * of_int n) \<le> (4 * of_int n / (5 * of_int n) :: rat)" using np by (intro divide_right_mono) auto
    then have "?q + 1 / (5 * of_int n) \<le> 4 / 5" using np by (simp add: add_divide_distrib)
    then have "fl ?q < fl (4 / 5)" using near four gap by (simp add: abs_if split: if_splits)
    with 3 show ?thesis by (simp add: fi)
  qed
qed

end
