(* ===== verification/Trend.thy ===== *)
theory Trend
  imports FloatProps
begin

text \<open>
  \<open>internal/trend\<close>: day buckets, the least-squares fit, the days until full, scan batches,
  recurrences and the sparkline. \<open>sort.Slice\<close> is modelled as a stable sort; no property below
  depends on the order of equal keys. The least-squares sums are rounded after every operation, the
  separate multiplications and additions of the source (a compiler may fuse them).
\<close>

subsection \<open>Day buckets\<close>

record sample =
  sm_at :: time
  sm_bytes :: int

record point =
  pt_day :: time
  pt_bytes :: int

text \<open>\<open>byDay[day] = bytes\<close> on the map as an association list.\<close>

fun put_day :: "time \<Rightarrow> int \<Rightarrow> (time \<times> int) list \<Rightarrow> (time \<times> int) list" where
  "put_day d b [] = [(d, b)]"
| "put_day d b ((e, c) # m) = (if d = e then (e, b) # m else (e, c) # put_day d b m)"

definition by_day :: "sample list \<Rightarrow> (time \<times> int) list" where
  "by_day ss = fold (\<lambda>s. put_day (utc_day (sm_at s)) (sm_bytes s)) ss []"

definition day_bucket :: "sample list \<Rightarrow> point list" where
  "day_bucket ss = (if ss = [] then []
     else map (\<lambda>(d, b). \<lparr> pt_day = d, pt_bytes = b \<rparr>) (sort_key fst (by_day (sort_key sm_at ss))))"

lemma map_of_put_day: "map_of (put_day d b m) = (map_of m)(d \<mapsto> b)"
  by (induction d b m rule: put_day.induct) (auto simp: fun_eq_iff)

lemma keys_put_day: "map fst (put_day d b m) = (if d \<in> fst ` set m then map fst m else map fst m @ [d])"
  by (induction d b m rule: put_day.induct) auto

lemma distinct_put_day: "distinct (map fst m) \<Longrightarrow> distinct (map fst (put_day d b m))"
  by (simp add: keys_put_day)

text \<open>The last sample of a day in list order is what the map holds for it.\<close>

lemma by_day_spec:
  "distinct (map fst (by_day ss)) \<and> fst ` set (by_day ss) = (utc_day \<circ> sm_at) ` set ss \<and>
   (\<forall>d. map_of (by_day ss) d =
      map_option sm_bytes (first_such (\<lambda>s. utc_day (sm_at s) = d) (rev ss)))"
proof (induction ss rule: rev_induct)
  case Nil
  then show ?case by (simp add: by_day_def)
next
  case (snoc s ss)
  have e: "by_day (ss @ [s]) = put_day (utc_day (sm_at s)) (sm_bytes s) (by_day ss)"
    by (simp add: by_day_def)
  have "fst ` set (by_day (ss @ [s])) = insert (utc_day (sm_at s)) (fst ` set (by_day ss))"
    using arg_cong [where f = set, OF keys_put_day [of "utc_day (sm_at s)" "sm_bytes s" "by_day ss"]]
    by (auto simp: e split: if_splits)
  with snoc show ?case by (auto simp: e distinct_put_day map_of_put_day)
qed

text \<open>Counting a list by a strictly sorted key.\<close>

lemma sorted_distinct_strict: "sorted xs \<Longrightarrow> distinct xs \<Longrightarrow> sorted_wrt (<) (xs :: int list)"
  by (simp add: strict_sorted_iff)

text \<open>In a sorted list the first hit from the end is a latest one.\<close>

lemma first_such_rev_latest:
  "sorted (map f ss) \<Longrightarrow> first_such P (rev ss) = Some s \<Longrightarrow>
   s \<in> set ss \<and> P s \<and> (\<forall>t \<in> set ss. P t \<longrightarrow> f t \<le> (f s :: int))"
proof (induction ss rule: rev_induct)
  case (snoc x ss)
  then show ?case by (auto simp: sorted_append split: if_splits)
qed simp

text \<open>
  A series is bucketed into one point per day that has a sample, in strictly ascending order, and each
  point carries the bytes of a latest sample of its day.
\<close>

lemma day_bucket_exact:
  "sorted_wrt (<) (map pt_day (day_bucket ss)) \<and>
   pt_day ` set (day_bucket ss) = (\<lambda>s. utc_day (sm_at s)) ` set ss \<and>
   (\<forall>p \<in> set (day_bucket ss). \<exists>s \<in> set ss. pt_bytes p = sm_bytes s \<and> utc_day (sm_at s) = pt_day p \<and>
      (\<forall>t \<in> set ss. utc_day (sm_at t) = pt_day p \<longrightarrow> sm_at t \<le> sm_at s))"
proof (cases "ss = []")
  case True
  then show ?thesis by (simp add: day_bucket_def)
next
  case False
  let ?st = "sort_key sm_at ss" and ?m = "by_day (sort_key sm_at ss)"
  have e: "day_bucket ss = map (\<lambda>(d, b). \<lparr> pt_day = d, pt_bytes = b \<rparr>) (sort_key fst ?m)"
    using False by (simp add: day_bucket_def)
  have days: "map pt_day (day_bucket ss) = map fst (sort_key fst ?m)"
    by (simp add: e comp_def case_prod_beta)
  have dist: "distinct (map fst ?m)" and keys: "fst ` set ?m = (utc_day \<circ> sm_at) ` set ss"
    and look: "\<And>d. map_of ?m d = map_option sm_bytes (first_such (\<lambda>s. utc_day (sm_at s) = d) (rev ?st))"
    using by_day_spec [of ?st] by auto
  have "distinct (map fst (sort_key fst ?m))"
    using dist by (simp add: distinct_map)
  then have "sorted_wrt (<) (map pt_day (day_bucket ss))"
    unfolding days by (intro sorted_distinct_strict sorted_sort_key)
  moreover have "pt_day ` set (day_bucket ss) = (\<lambda>s. utc_day (sm_at s)) ` set ss"
    using arg_cong [where f = set, OF days] keys by (simp add: comp_def)
  moreover have "\<exists>s \<in> set ss. pt_bytes p = sm_bytes s \<and> utc_day (sm_at s) = pt_day p \<and>
      (\<forall>t \<in> set ss. utc_day (sm_at t) = pt_day p \<longrightarrow> sm_at t \<le> sm_at s)"
    if p: "p \<in> set (day_bucket ss)" for p
  proof -
    have "(pt_day p, pt_bytes p) \<in> set ?m" using p by (auto simp: e)
    then have "map_of ?m (pt_day p) = Some (pt_bytes p)" using dist by simp
    then obtain s where s: "first_such (\<lambda>s. utc_day (sm_at s) = pt_day p) (rev ?st) = Some s" "pt_bytes p = sm_bytes s"
      by (auto simp: look)
    show ?thesis using first_such_rev_latest [OF _ s(1), of sm_at] s(2) by auto
  qed
  ultimately show ?thesis by blast
qed

subsection \<open>The fit\<close>

record fit =
  ft_ok :: bool
  ft_rate :: rat
  ft_window :: int
  ft_points :: int

definition days_since :: "time \<Rightarrow> time \<Rightarrow> rat" where
  "days_since t t0 = fl (hours_f (sub_time t t0) / 24)"

definition round_away :: "rat \<Rightarrow> int" where
  "round_away x = (if x < 0 then - \<lfloor>1 / 2 - x\<rfloor> else \<lfloor>x + 1 / 2\<rfloor>)"

definition add_point :: "time \<Rightarrow> point \<Rightarrow> rat \<times> rat \<times> rat \<times> rat \<Rightarrow> rat \<times> rat \<times> rat \<times> rat" where
  "add_point x0 p = (\<lambda>(sx, sy, sxy, sxx).
     let x = days_since (pt_day p) x0; y = fl_int (pt_bytes p)
     in (fl (sx + x), fl (sy + y), fl (sxy + fl (x * y)), fl (sxx + fl (x * x))))"

definition linear_fit :: "point list \<Rightarrow> fit" where
  "linear_fit pts =
     (let none = \<lparr> ft_ok = False, ft_rate = 0, ft_window = 0, ft_points = int (length pts) \<rparr>
      in if length pts < 2 then none
      else let x0 = pt_day (hd pts);
               n = fl_int (int (length pts));
               (sx, sy, sxy, sxx) = fold (add_point x0) pts (0, 0, 0, 0);
               denom = fl (fl (n * sxx) - fl (sx * sx))
           in if denom = 0 then none
           else let slope = fl (fl (fl (n * sxy) - fl (sx * sy)) / denom);
                    win = i64_of_rat (of_int (round_away (days_since (pt_day (last pts)) x0)))
                in \<lparr> ft_ok = True, ft_rate = slope, ft_window = (if win < 1 then 1 else win),
                     ft_points = int (length pts) \<rparr>)"

definition days_until_full :: "int \<Rightarrow> rat \<Rightarrow> rat \<times> bool" where
  "days_until_full free rate = (if rate \<le> 0 then (0, False)
     else if free \<le> 0 then (0, True) else (fl (fl_int free / rate), True))"

subsection \<open>Scan batches\<close>

fun batch_loop :: "duration \<Rightarrow> time \<Rightarrow> int \<Rightarrow> time list \<Rightarrow> int" where
  "batch_loop gap prev n [] = n"
| "batch_loop gap prev n (t # ts) = batch_loop gap t (if gap < sub_time t prev then n + 1 else n) ts"

definition batches :: "time list \<Rightarrow> duration \<Rightarrow> int" where
  "batches tms gap = (case sort tms of [] \<Rightarrow> 0 | t # ts \<Rightarrow> batch_loop gap t 1 ts)"

text \<open>A time that starts a batch: no earlier one within the gap.\<close>

definition starts_batch :: "time list \<Rightarrow> duration \<Rightarrow> time \<Rightarrow> bool" where
  "starts_batch tms gap t \<longleftrightarrow> (\<forall>u \<in> set tms. u < t \<longrightarrow> gap < t - u)"

lemma batch_loop_count:
  assumes gap: "0 \<le> gap" "gap < max_i64"
  shows "sorted (prev # ts) \<Longrightarrow>
    batch_loop gap prev n ts = n + int (card {t \<in> set ts. prev < t \<and> (\<forall>u \<in> set (prev # ts). u < t \<longrightarrow> gap < t - u)})"
proof (induction ts arbitrary: prev n)
  case (Cons t ts)
  let ?S = "\<lambda>prev ts. {t \<in> set ts. prev < t \<and> (\<forall>u \<in> set (prev # ts). u < t \<longrightarrow> gap < t - u)}"
  have far: "gap < sub_time t prev \<longleftrightarrow> gap < t - prev"
    using gap by (auto simp: sub_time_def max_i64_def min_i64_def)
  have le: "prev \<le> t" "\<forall>u \<in> set ts. t \<le> u" using Cons.prems by auto
  have split: "?S prev (t # ts) = (if gap < t - prev then insert t (?S t ts) else ?S t ts)"
    using le gap by (auto; force)
  have gen: "int (card (if b then insert t S else S)) = (if b then 1 else 0) + int (card S)"
    if "finite S" "t \<notin> S" for S and b :: bool using that by simp
  have "int (card (?S prev (t # ts))) = (if gap < t - prev then 1 else 0) + int (card (?S t ts))"
    unfolding split by (rule gen) auto
  moreover have "batch_loop gap prev n (t # ts) = (if gap < t - prev then n + 1 else n) + int (card (?S t ts))"
    using Cons far by simp
  ultimately show ?case by simp
qed simp

text \<open>
  The number of batches is the number of times that have no earlier time within the gap, whatever the
  order of the input: bursts count once, and equal times never start a second batch.
\<close>

lemma batches_exact:
  assumes "0 \<le> gap" "gap < max_i64"
  shows "batches tms gap = int (card {t \<in> set tms. starts_batch tms gap t})"
proof (cases "sort tms")
  case Nil
  have "set tms = set (sort tms)" by simp
  with Nil have "tms = []" by simp
  then show ?thesis by (simp add: batches_def)
next
  case (Cons t ts)
  have "set tms = set (sort tms)" by simp
  then have st: "set tms = set (t # ts)" by (simp only: Cons)
  have sorted: "sorted (t # ts)" using sorted_sort [of tms] by (simp only: Cons)
  let ?S = "{v \<in> set ts. t < v \<and> (\<forall>u \<in> set (t # ts). u < v \<longrightarrow> gap < v - u)}"
  have le: "\<And>v. v \<in> set ts \<Longrightarrow> t \<le> v" using sorted by simp
  have "{v \<in> set tms. starts_batch tms gap v} = insert t ?S"
  proof -
    have "v = t \<or> t < v" if "v \<in> set (t # ts)" for v using that le [of v] by force
    moreover have "\<not> u < t" if "u \<in> set ts" for u using le [OF that] by simp
    ultimately show ?thesis by (auto simp: st starts_batch_def)
  qed
  moreover have "t \<notin> ?S" "finite ?S" by auto
  ultimately have "int (card {v \<in> set tms. starts_batch tms gap v}) = 1 + int (card ?S)"
    by (simp only: card_insert_disjoint) simp
  then show ?thesis using batch_loop_count [OF assms sorted, of 1] by (simp only: batches_def Cons list.case)
qed

subsection \<open>Recurrences\<close>

record occurrence =
  oc_sig :: string
  oc_workaround :: string
  oc_target :: string
  oc_at :: time

record pattern =
  pn_sig :: string
  pn_workaround :: string
  pn_days :: int
  pn_occ :: int
  pn_first :: time
  pn_last :: time
  pn_targets :: "string list"

text \<open>The code's \<open>agg\<close>: the pattern under construction and the set of its days. The set of
  targets already seen is the list of targets itself.\<close>

record agg =
  ag_p :: pattern
  ag_days :: "time list"

definition ag_sig :: "agg \<Rightarrow> string" where
  "ag_sig g = pn_sig (ag_p g)"

definition fresh_agg :: "occurrence \<Rightarrow> agg" where
  "fresh_agg w = \<lparr> ag_p = \<lparr> pn_sig = oc_sig w, pn_workaround = [], pn_days = 0, pn_occ = 0,
     pn_first = oc_at w, pn_last = oc_at w, pn_targets = [] \<rparr>, ag_days = [] \<rparr>"

definition absorb :: "occurrence \<Rightarrow> agg \<Rightarrow> agg" where
  "absorb w g =
     (let d = utc_day (oc_at w); p = ag_p g in
      g\<lparr> ag_days := (if d \<in> set (ag_days g) then ag_days g else ag_days g @ [d]),
         ag_p := p\<lparr> pn_occ := pn_occ p + 1,
           pn_first := (if oc_at w < pn_first p then oc_at w else pn_first p),
           pn_last := (if pn_last p < oc_at w then oc_at w else pn_last p),
           pn_workaround := (if oc_workaround w \<noteq> [] then oc_workaround w else pn_workaround p),
           pn_targets := (if oc_target w \<noteq> [] \<and> oc_target w \<notin> set (pn_targets p)
                          then pn_targets p @ [oc_target w] else pn_targets p) \<rparr> \<rparr>)"

fun add_occ :: "occurrence \<Rightarrow> agg list \<Rightarrow> agg list" where
  "add_occ w [] = [absorb w (fresh_agg w)]"
| "add_occ w (g # gs) = (if ag_sig g = oc_sig w then absorb w g # gs else g # add_occ w gs)"

definition group_occ :: "occurrence list \<Rightarrow> agg list" where
  "group_occ ws = fold (\<lambda>w gs. if oc_sig w = [] then gs else add_occ w gs) ws []"

definition pattern_le :: "pattern \<Rightarrow> pattern \<Rightarrow> bool" where
  "pattern_le p q \<longleftrightarrow> (if pn_days p \<noteq> pn_days q then pn_days q < pn_days p else bytes_le (pn_sig p) (pn_sig q))"

definition recurrences :: "occurrence list \<Rightarrow> pattern list" where
  "recurrences ws = sort_by pattern_le
     (map (\<lambda>g. (ag_p g)\<lparr> pn_days := int (length (ag_days g)) \<rparr>)
       (filter (\<lambda>g. \<not> length (ag_days g) < 2) (group_occ ws)))"

text \<open>What is recorded of one signature in a list of occurrences.\<close>

definition days_of :: "occurrence list \<Rightarrow> string \<Rightarrow> time set" where
  "days_of ws s = (\<lambda>w. utc_day (oc_at w)) ` {w \<in> set ws. oc_sig w = s}"

definition agg_of :: "occurrence list \<Rightarrow> agg \<Rightarrow> bool" where
  "agg_of ws g \<longleftrightarrow> (let s = ag_sig g in
     s \<noteq> [] \<and> set (ag_days g) = days_of ws s \<and> distinct (ag_days g) \<and> ag_days g \<noteq> [] \<and>
     pn_occ (ag_p g) = int (length (filter (\<lambda>w. oc_sig w = s) ws)))"

lemma absorb_simps [simp]:
  "ag_sig (absorb w g) = ag_sig g"
  "pn_occ (ag_p (absorb w g)) = pn_occ (ag_p g) + 1"
  "set (ag_days (absorb w g)) = insert (utc_day (oc_at w)) (set (ag_days g))"
  "distinct (ag_days (absorb w g)) = distinct (ag_days g)"
  "ag_sig (fresh_agg w) = oc_sig w" "pn_occ (ag_p (fresh_agg w)) = 0" "ag_days (fresh_agg w) = []"
  by (auto simp: absorb_def fresh_agg_def Let_def ag_sig_def)

lemma sigs_add_occ:
  "map ag_sig (add_occ w gs) = (let sigs = map ag_sig gs in
     if oc_sig w \<in> set sigs then sigs else sigs @ [oc_sig w])"
  by (induction w gs rule: add_occ.induct) (auto simp: Let_def)

lemma mem_add_occ:
  "g \<in> set (add_occ w gs) \<Longrightarrow> distinct (map ag_sig gs) \<Longrightarrow>
     (g \<in> set gs \<and> ag_sig g \<noteq> oc_sig w) \<or>
     (\<exists>h \<in> set gs. ag_sig h = oc_sig w \<and> g = absorb w h) \<or>
     (oc_sig w \<notin> ag_sig ` set gs \<and> g = absorb w (fresh_agg w))"
proof (induction w gs rule: add_occ.induct)
  case (2 w k gs)
  then show ?case
    by (cases "ag_sig k = oc_sig w") (auto simp: image_iff split: if_splits)
qed simp

lemma days_of_snoc: "days_of (ws @ [w]) s = (if oc_sig w = s then insert (utc_day (oc_at w)) (days_of ws s) else days_of ws s)"
  by (auto simp: days_of_def)

lemma group_occ_spec:
  "distinct (map ag_sig (group_occ ws)) \<and>
   ag_sig ` set (group_occ ws) = oc_sig ` set ws - {[]} \<and> (\<forall>g \<in> set (group_occ ws). agg_of ws g)"
proof (induction ws rule: rev_induct)
  case Nil
  then show ?case by (simp add: group_occ_def)
next
  case (snoc w ws)
  let ?gs = "group_occ ws"
  have dist: "distinct (map ag_sig ?gs)" and sigs: "ag_sig ` set ?gs = oc_sig ` set ws - {[]}"
    and ok: "\<And>g. g \<in> set ?gs \<Longrightarrow> agg_of ws g" using snoc by auto
  show ?case
  proof (cases "oc_sig w = []")
    case True
    then have e: "group_occ (ws @ [w]) = ?gs" by (simp add: group_occ_def)
    have "agg_of (ws @ [w]) g" if "g \<in> set ?gs" for g
      using ok [OF that] True by (auto simp: agg_of_def Let_def days_of_snoc)
    then show ?thesis using dist sigs True by (auto simp: e)
  next
    case False
    then have e: "group_occ (ws @ [w]) = add_occ w ?gs" by (simp add: group_occ_def)
    have "agg_of (ws @ [w]) g" if g: "g \<in> set (add_occ w ?gs)" for g
      using mem_add_occ [OF g dist]
    proof (elim disjE conjE bexE)
      assume "g \<in> set ?gs" "ag_sig g \<noteq> oc_sig w"
      then show ?thesis using ok [of g] by (auto simp: agg_of_def Let_def days_of_snoc)
    next
      fix h assume h: "h \<in> set ?gs" "ag_sig h = oc_sig w" "g = absorb w h"
      then show ?thesis using ok [OF h(1)] False
        by (auto simp: agg_of_def Let_def days_of_snoc simp flip: set_empty)
    next
      assume new: "oc_sig w \<notin> ag_sig ` set ?gs" "g = absorb w (fresh_agg w)"
      then have no: "oc_sig w \<notin> oc_sig ` set ws" using sigs False by auto
      then have "days_of ws (oc_sig w) = {}" "filter (\<lambda>v. oc_sig v = oc_sig w) ws = []"
        by (auto simp: days_of_def filter_empty_conv intro: rev_image_eqI)
      then show ?thesis using new(2) False
        by (auto simp: agg_of_def Let_def days_of_snoc simp flip: set_empty)
    qed
    moreover have "distinct (map ag_sig (add_occ w ?gs))"
      using dist by (simp add: sigs_add_occ Let_def)
    moreover have "ag_sig ` set (add_occ w ?gs) = oc_sig ` set (ws @ [w]) - {[]}"
      using arg_cong [where f = set, OF sigs_add_occ [of w ?gs]] sigs False by (auto simp: Let_def split: if_splits)
    ultimately show ?thesis by (simp add: e)
  qed
qed

lemma set_insert_by: "set (insert_by le x xs) = insert x (set xs)"
  by (induction xs) auto

lemma set_sort_by: "set (sort_by le xs) = set xs"
  by (induction xs) (auto simp: sort_by_def set_insert_by)

text \<open>
  A signature is reported as recurring exactly when it is not empty and was seen on at least two
  UTC days; the report counts those days and all its occurrences, and no signature is reported twice.
\<close>

theorem recurrences_exact:
  "(\<lambda>p. (pn_sig p, pn_days p, pn_occ p)) ` set (recurrences ws) =
     {(s, int (card (days_of ws s)), int (length (filter (\<lambda>w. oc_sig w = s) ws))) | s.
        s \<noteq> [] \<and> 2 \<le> card (days_of ws s)}"
proof -
  let ?row = "\<lambda>s. (s, int (card (days_of ws s)), int (length (filter (\<lambda>w. oc_sig w = s) ws)))"
  have sigs: "ag_sig ` set (group_occ ws) = oc_sig ` set ws - {[]}" and ok: "\<And>g. g \<in> set (group_occ ws) \<Longrightarrow> agg_of ws g"
    using group_occ_spec [of ws] by auto
  have len: "length (ag_days g) = card (days_of ws (ag_sig g))" if "g \<in> set (group_occ ws)" for g
    using ok [OF that] distinct_card [of "ag_days g"] by (auto simp: agg_of_def Let_def)
  have occ: "pn_occ (ag_p g) = int (length (filter (\<lambda>w. oc_sig w = ag_sig g) ws))" if "g \<in> set (group_occ ws)" for g
    using ok [OF that] by (auto simp: agg_of_def Let_def)
  have "(\<lambda>p. (pn_sig p, pn_days p, pn_occ p)) ` set (recurrences ws) =
      (\<lambda>g. ?row (ag_sig g)) ` {g \<in> set (group_occ ws). 2 \<le> card (days_of ws (ag_sig g))}"
    by (auto simp: recurrences_def set_sort_by image_image ag_sig_def [symmetric] len occ not_less intro!: image_cong)
  also have "\<dots> = ?row ` {s \<in> ag_sig ` set (group_occ ws). 2 \<le> card (days_of ws s)}" by auto
  also have "{s \<in> ag_sig ` set (group_occ ws). 2 \<le> card (days_of ws s)} = {s. s \<noteq> [] \<and> 2 \<le> card (days_of ws s)}"
  proof -
    have "s \<in> oc_sig ` set ws" if "2 \<le> card (days_of ws s)" for s
      using that by (cases "{w \<in> set ws. oc_sig w = s} = {}") (auto simp: days_of_def)
    then show ?thesis by (auto simp: sigs)
  qed
  finally show ?thesis by auto
qed

subsection \<open>The sparkline\<close>

text \<open>The eight block elements are the three-byte characters U+2581 to U+2588.\<close>

definition spark_level :: "nat \<Rightarrow> string" where
  "spark_level i = [CHR 0xE2, CHR 0x96, char_of (0x81 + i)]"

definition spark_index :: "int \<Rightarrow> int \<Rightarrow> int \<Rightarrow> nat" where
  "spark_index lo hi v =
     (let i = i64_of_rat (fl (fl (fl_int (wrap64 (v - lo)) / fl_int (wrap64 (hi - lo))) * 7))
      in if i < 0 then 0 else if 7 < i then 7 else nat i)"

definition sparkline :: "int list \<Rightarrow> string" where
  "sparkline vs = (case vs of [] \<Rightarrow> []
     | v # ws \<Rightarrow> let lo = foldl min v ws; hi = foldl max v ws
         in concat (map (\<lambda>x. spark_level (if hi = lo then 3 else spark_index lo hi x)) vs))"

lemma spark_index_range: "spark_index lo hi v \<le> 7"
  unfolding spark_index_def Let_def by (auto simp: nat_le_iff)

lemma length_sparkline: "length (sparkline vs) = 3 * length vs"
  by (cases vs) (simp_all add: sparkline_def Let_def spark_level_def length_concat comp_def sum_list_triv)

end
