(* ===== verification/Pressure.thy ===== *)
theory Pressure
  imports FloatProps
begin

text \<open>
  \<open>internal/pressure\<close>: the samplers and the watch loop that fires an out-of-band scan. Running
  \<open>vm_stat\<close> and \<open>statfs\<close> is not modelled: what they answered is an argument. One iteration of the
  loop is \<open>watch_step\<close>, given the sample and the two readings of the clock.
\<close>

record reading =
  rd_mem :: rat
  rd_disk :: rat
  rd_measured :: bool

definition no_reading :: reading where
  "no_reading = \<lparr> rd_mem = 0, rd_disk = 0, rd_measured = False \<rparr>"

subsection \<open>vm_stat\<close>

datatype vm_err = VmExec | VmNoMatch string | VmRange | VmZeroTotal

text \<open>The expressions are a literal, optional spaces, digits and a literal that follows; the leftmost
  match is taken. \<open>match_count\<close> is one attempt at the head of the text.\<close>

definition re_space :: "char \<Rightarrow> bool" where
  "re_space c \<longleftrightarrow> is_space c \<and> c \<noteq> CHR 0x0B"

definition match_count :: "string \<Rightarrow> bool \<Rightarrow> string \<Rightarrow> string \<Rightarrow> string option" where
  "match_count lit spaced rest s =
     (case cut_prefix s lit of None \<Rightarrow> None
      | Some r \<Rightarrow>
          let r1 = (if spaced then dropWhile re_space r else r);
              ds = takeWhile is_digit r1
          in if (spaced \<and> r1 = r) \<or> ds = [] \<or> \<not> has_prefix (drop (length ds) r1) rest then None else Some ds)"

fun grab :: "string \<Rightarrow> bool \<Rightarrow> string \<Rightarrow> string \<Rightarrow> vm_err + int" where
  "grab lit spaced rest [] = Inl (VmNoMatch lit)"
| "grab lit spaced rest (c # s) = (case match_count lit spaced rest (c # s) of
     Some ds \<Rightarrow> (case parse_uint ds of None \<Rightarrow> Inl VmRange | Some n \<Rightarrow> Inr n)
   | None \<Rightarrow> grab lit spaced rest s)"

definition parse_vmstat :: "string \<Rightarrow> vm_err + reading" where
  "parse_vmstat s =
     try_bind (grab ''page size of '' False '' bytes'' s) (\<lambda>pg.
     try_bind (grab ''Pages free:'' True [] s) (\<lambda>free.
     try_bind (grab ''Pages active:'' True [] s) (\<lambda>active.
     try_bind (grab ''Pages inactive:'' True [] s) (\<lambda>inactive.
     try_bind (grab ''Pages wired down:'' True [] s) (\<lambda>wired.
       let used = wrap_u64 (active + wired); total = wrap_u64 (wrap_u64 (used + free) + inactive)
       in if total = 0 then Inl VmZeroTotal
          else Inr (no_reading\<lparr> rd_mem := fl (fl_int used / fl_int total) \<rparr>))))))"

definition vmstat_sample :: "string option \<Rightarrow> vm_err + reading" where
  "vmstat_sample out = (case out of None \<Rightarrow> Inl VmExec | Some s \<Rightarrow> parse_vmstat s)"

text \<open>What \<open>statfs\<close> answered: the available blocks and the block size.\<close>

definition disk_sample :: "'e + (int \<times> int) \<Rightarrow> 'e + reading" where
  "disk_sample st = try_bind st (\<lambda>(bavail, bsize).
     Inr \<lparr> rd_mem = 0, rd_disk = fl (fl (fl_int bavail * fl_int bsize) / 10 ^ 9), rd_measured = True \<rparr>)"

text \<open>The samplers are asked in order; the first error ends the sample.\<close>

definition merge_reading :: "reading \<Rightarrow> reading \<Rightarrow> reading" where
  "merge_reading r w =
     (let w1 = (if rd_mem w < rd_mem r then w\<lparr> rd_mem := rd_mem r \<rparr> else w)
      in if rd_measured r \<and> (\<not> rd_measured w1 \<or> rd_disk r < rd_disk w1)
         then w1\<lparr> rd_disk := rd_disk r, rd_measured := True \<rparr> else w1)"

fun combined_sample :: "('e + reading) list \<Rightarrow> reading \<Rightarrow> 'e + reading" where
  "combined_sample [] w = Inr w"
| "combined_sample (r # rs) w = try_bind r (\<lambda>v. combined_sample rs (merge_reading v w))"

lemma combined_unmeasured:
  "combined_sample rs w = Inr r \<Longrightarrow> (\<And>v. Inr v \<in> set rs \<Longrightarrow> \<not> rd_measured v) \<Longrightarrow> rd_measured r = rd_measured w"
proof (induction rs arbitrary: w)
  case (Cons x rs)
  then show ?case by (cases x) (auto simp: merge_reading_def Let_def)
qed simp

subsection \<open>The watch loop\<close>

record threshold =
  th_mem_high :: rat
  th_disk_low_gb :: int
  th_interval :: duration
  th_window :: duration

definition trigger_cooldown :: duration where
  "trigger_cooldown = 60 * minute"

text \<open>\<open>bufLen\<close>. The ticker of the loop panics on an interval that is not positive.\<close>

definition buf_len :: "threshold \<Rightarrow> int" where
  "buf_len th = (let n = (if th_window th < 0 then - ((- th_window th) div th_interval th) else th_window th div th_interval th)
     in if n < 3 then 3 else n)"

record watch =
  wa_buf :: "bool list"
  wa_fired :: time

definition watch_start :: watch where
  "watch_start = \<lparr> wa_buf = [], wa_fired = zero_time \<rparr>"

record 'e tick_in =
  ti_sample :: "'e + reading"
  ti_check :: time
  ti_set :: time

definition is_high :: "threshold \<Rightarrow> reading \<Rightarrow> bool" where
  "is_high th r \<longleftrightarrow> rd_measured r \<and> rd_disk r \<le> fl_int (th_disk_low_gb th)"

definition frac_high :: "bool list \<Rightarrow> rat" where
  "frac_high bs = fl (fl_int (int (length (filter id bs))) / fl_int (int (length bs)))"

definition watch_step :: "threshold \<Rightarrow> 'e tick_in \<Rightarrow> watch \<Rightarrow> watch \<times> bool" where
  "watch_step th t w =
     (case ti_sample t of Inl _ \<Rightarrow> (w, False)
      | Inr r \<Rightarrow>
          let high = is_high th r;
              b1 = (if buf_len th \<le> int (length (wa_buf w)) then tl (wa_buf w) else wa_buf w);
              b2 = b1 @ [high]; w2 = w\<lparr> wa_buf := b2 \<rparr>
          in if int (length b2) < buf_len th then (w2, False)
             else if fl (4 / 5) \<le> frac_high b2 \<and> trigger_cooldown < sub_time (ti_check t) (wa_fired w)
             then (w2\<lparr> wa_fired := ti_set t \<rparr>, True) else (w2, False))"

text \<open>The ticks of a run, each with whether it fired.\<close>

fun watch_run :: "threshold \<Rightarrow> watch \<Rightarrow> 'e tick_in list \<Rightarrow> ('e tick_in \<times> bool) list" where
  "watch_run th w [] = []"
| "watch_run th w (t # ts) = (let (w1, f) = watch_step th t w in (t, f) # watch_run th w1 ts)"

text \<open>The readings a run has had so far, oldest first: failed samples are skipped.\<close>

definition highs :: "threshold \<Rightarrow> 'e tick_in list \<Rightarrow> bool list" where
  "highs th ts = concat (map (\<lambda>t. case ti_sample t of Inl _ \<Rightarrow> [] | Inr r \<Rightarrow> [is_high th r]) ts)"

definition last_n :: "nat \<Rightarrow> 'a list \<Rightarrow> 'a list" where
  "last_n n xs = drop (length xs - n) xs"

lemma buf_len_ge: "3 \<le> buf_len th"
  by (simp add: buf_len_def Let_def)

lemma last_n_snoc: "0 < n \<Longrightarrow>
    last_n n (xs @ [x]) = (if n \<le> length (last_n n xs) then tl (last_n n xs) else last_n n xs) @ [x]"
  by (auto simp: last_n_def tl_drop drop_Suc Suc_diff_le simp flip: drop_Suc)

lemma length_last_n: "length (last_n n xs) = min n (length xs)"
  by (simp add: last_n_def min_def)

text \<open>The state before the tick at index \<open>i\<close>.\<close>

definition watch_at :: "threshold \<Rightarrow> 'e tick_in list \<Rightarrow> watch" where
  "watch_at th ts = foldl (\<lambda>w t. fst (watch_step th t w)) watch_start ts"

lemma watch_run_nth:
  "i < length ts \<Longrightarrow> watch_run th w ts ! i =
     (ts ! i, snd (watch_step th (ts ! i) (foldl (\<lambda>w t. fst (watch_step th t w)) w (take i ts))))"
proof (induction ts arbitrary: w i)
  case (Cons t ts)
  then show ?case by (cases i) (auto simp: Let_def case_prod_beta)
qed simp

lemma watch_buf_step:
  "wa_buf w = last_n (nat (buf_len th)) hs \<Longrightarrow>
     wa_buf (fst (watch_step th t w)) = last_n (nat (buf_len th)) (hs @ highs th [t])"
  using buf_len_ge [of th]
  by (cases "ti_sample t") (auto simp: watch_step_def highs_def Let_def last_n_snoc nat_le_iff)

lemma watch_at_buf: "wa_buf (watch_at th ts) = last_n (nat (buf_len th)) (highs th ts)"
proof (induction ts rule: rev_induct)
  case Nil
  then show ?case by (simp add: watch_at_def watch_start_def highs_def last_n_def)
next
  case (snoc t ts)
  have "watch_at th (ts @ [t]) = fst (watch_step th t (watch_at th ts))" by (simp add: watch_at_def)
  moreover have "highs th (ts @ [t]) = highs th ts @ highs th [t]" by (simp add: highs_def)
  ultimately show ?case using watch_buf_step [OF snoc] by simp
qed

lemma watch_step_fired:
  "wa_fired (fst (watch_step th t w)) = (if snd (watch_step th t w) then ti_set t else wa_fired w)"
  by (cases "ti_sample t") (auto simp: watch_step_def Let_def)

lemma watch_step_fires:
  assumes "snd (watch_step th t w)"
  shows "buf_len th \<le> int (length (wa_buf (fst (watch_step th t w))))"
    and "fl (4 / 5) \<le> frac_high (wa_buf (fst (watch_step th t w)))"
    and "trigger_cooldown < sub_time (ti_check t) (wa_fired w)"
  using assms by (cases "ti_sample t"; auto simp: watch_step_def Let_def split: if_splits)+

text \<open>After a prefix, every firing in it was no later than the one the loop remembers.\<close>

lemma watch_at_fired:
  "sorted (map ti_set ts) \<Longrightarrow> j < length ts \<Longrightarrow> snd (watch_step th (ts ! j) (watch_at th (take j ts))) \<Longrightarrow>
     ti_set (ts ! j) \<le> wa_fired (watch_at th ts)"
proof (induction ts rule: rev_induct)
  case (snoc t ts)
  have e: "watch_at th (ts @ [t]) = fst (watch_step th t (watch_at th ts))" by (simp add: watch_at_def)
  show ?case
  proof (cases "j < length ts")
    case True
    then have "ti_set (ts ! j) \<le> wa_fired (watch_at th ts)" using snoc by (simp add: sorted_append nth_append)
    moreover have "ti_set (ts ! j) \<le> ti_set t" using snoc.prems(1) True by (auto simp: sorted_append)
    ultimately show ?thesis using True by (simp add: e watch_step_fired nth_append)
  next
    case False
    with snoc.prems have "j = length ts" by simp
    then show ?thesis using snoc.prems(3) by (simp add: e watch_step_fired)
  qed
qed simp

text \<open>
  C24. Whenever the pressure watcher fires, at least four fifths of its last measured samples showed a
  low disk, the window is full, and more than an hour has passed since every earlier firing. The clock
  is taken to be monotone, as Go's is within a process.
\<close>

theorem watch_fires_justified:
  assumes "watch_run th watch_start ts ! i = (t, True)" "i < length ts" "buf_len th < 2 ^ 32" "sorted (map ti_set ts)"
  shows "let recent = last_n (nat (buf_len th)) (highs th (take (Suc i) ts)) in
      int (length recent) = buf_len th \<and> 4 * length recent \<le> 5 * length (filter id recent) \<and>
      (\<forall>j<i. snd (watch_run th watch_start ts ! j) \<longrightarrow> trigger_cooldown < sub_time (ti_check t) (ti_set (ts ! j)))"
proof -
  let ?w = "watch_at th (take i ts)" and ?r = "last_n (nat (buf_len th)) (highs th (take (Suc i) ts))"
  have run: "watch_run th watch_start ts ! k = (ts ! k, snd (watch_step th (ts ! k) (watch_at th (take k ts))))"
    if "k < length ts" for k using watch_run_nth [OF that] by (simp add: watch_at_def)
  have t: "t = ts ! i" and fired: "snd (watch_step th t ?w)" using run [OF assms(2)] assms(1) by auto
  have "fst (watch_step th t ?w) = watch_at th (take (Suc i) ts)"
    using assms(2) by (simp add: watch_at_def t take_Suc_conv_app_nth)
  then have buf: "wa_buf (fst (watch_step th t ?w)) = ?r" by (simp add: watch_at_buf)
  have len: "int (length ?r) = buf_len th"
    using watch_step_fires(1) [OF fired] buf_len_ge [of th] unfolding buf by (simp add: length_last_n)
  have "int (length (filter id ?r)) \<le> buf_len th" using length_filter_le [of id ?r] len by linarith
  then have "4 * int (length ?r) \<le> 5 * int (length (filter id ?r))"
    using watch_step_fires(2) [OF fired] assms(3) len buf_len_ge [of th] unfolding buf frac_high_def
    by (subst (asm) fl_ratio_four_fifths) auto
  then have four: "4 * length ?r \<le> 5 * length (filter id ?r)" by linarith
  have "trigger_cooldown < sub_time (ti_check t) (ti_set (ts ! j))"
    if j: "j < i" and fj: "snd (watch_run th watch_start ts ! j)" for j
  proof -
    have "ti_set (ts ! j) \<le> wa_fired ?w"
      using watch_at_fired [of "take i ts" j th] assms(2,4) j fj run [of j]
      by (simp add: sorted_wrt_take flip: take_map)
    then show ?thesis using watch_step_fires(3) [OF fired] by (auto simp: sub_time_def)
  qed
  then show ?thesis using len four by (simp add: Let_def)
qed

definition demo_threshold :: threshold where
  "demo_threshold = \<lparr> th_mem_high = 9 / 10, th_disk_low_gb = 10, th_interval = 10 * second, th_window = 30 * second \<rparr>"

definition demo_tick :: "int \<Rightarrow> unit tick_in" where
  "demo_tick n = \<lparr> ti_sample = Inr \<lparr> rd_mem = 0, rd_disk = 5, rd_measured = True \<rparr>, ti_check = n * minute, ti_set = n * minute \<rparr>"

lemma watch_fires_justified_witness:
  "let recent = last_n (nat (buf_len demo_threshold)) (highs demo_threshold (take (Suc 5) (map demo_tick [0, 1, 2, 3, 70, 141]))) in
      int (length recent) = buf_len demo_threshold \<and> 4 * length recent \<le> 5 * length (filter id recent) \<and>
      (\<forall>j<5. snd (watch_run demo_threshold watch_start (map demo_tick [0, 1, 2, 3, 70, 141]) ! j) \<longrightarrow>
         trigger_cooldown < sub_time (ti_check (demo_tick 141)) (ti_set (map demo_tick [0, 1, 2, 3, 70, 141] ! j)))"
proof (rule watch_fires_justified)
  show "watch_run demo_threshold watch_start (map demo_tick [0, 1, 2, 3, 70, 141]) ! 5 = (demo_tick 141, True)"
    by code_simp
  show "buf_len demo_threshold < 2 ^ 32" by code_simp
  show "sorted (map ti_set (map demo_tick [0, 1, 2, 3, 70, 141]))" by code_simp
qed simp

end
