(* ===== verification/Volumes.thy ===== *)
theory Volumes
  imports VolGuard
begin

text \<open>
  \<open>internal/core/volumes.go\<close>: the posture of the mounted volumes. \<open>diskutil\<close>, \<open>plutil\<close>, the JSON
  decoder and \<open>statfs\<close> are arguments; the context is a predicate polled once per mount.
\<close>

datatype volume_class = VolumeUsable | VolumeMediaRO | VolumeFSCorruptionRO

record volume =
  vo_uuid :: string
  vo_mount :: path
  vo_name :: string
  vo_container :: string
  vo_disk :: string
  vo_total :: int
  vo_free :: int
  vo_media :: bool
  vo_writable :: bool
  vo_class :: volume_class

text \<open>Go's zero value; the zero class is the empty string, which no test of the program reads.\<close>

definition no_volume :: volume where
  "no_volume = \<lparr> vo_uuid = [], vo_mount = [], vo_name = [], vo_container = [], vo_disk = [], vo_total = 0,
     vo_free = 0, vo_media = False, vo_writable = False, vo_class = VolumeMediaRO \<rparr>"

text \<open>What \<open>statfs\<close> answers: blocks, available blocks and block size, as the kernel's unsigned counts.\<close>

record statfs =
  sf_blocks :: int
  sf_bavail :: int
  sf_bsize :: int

type_synonym statfs_call = "path \<Rightarrow> machine \<Rightarrow> statfs option \<times> machine"

definition volume_capacity :: "statfs_call \<Rightarrow> path \<Rightarrow> machine \<Rightarrow> (int \<times> int) option \<times> machine" where
  "volume_capacity statfs p m = (case statfs p m of
     (None, m1) \<Rightarrow> (None, m1)
   | (Some s, m1) \<Rightarrow> let bs = wrap64 (sf_bsize s) in
       (Some (wrap64 (wrap64 (sf_blocks s) * bs), wrap64 (wrap64 (sf_bavail s) * bs)), m1))"

definition classify_volume :: "bool \<Rightarrow> bool \<Rightarrow> volume_class" where
  "classify_volume media writable = (if \<not> media then VolumeMediaRO
     else if \<not> writable then VolumeFSCorruptionRO else VolumeUsable)"

record diskutil_info =
  du_uuid :: string
  du_mount :: string
  du_name :: string
  du_whole :: string
  du_writable :: "bool option"
  du_media :: "bool option"
  du_stores :: "string list"

definition bool_or_true :: "bool option \<Rightarrow> bool" where
  "bool_or_true b = (case b of None \<Rightarrow> True | Some x \<Rightarrow> x)"

definition system_volume_names :: "string list" where
  "system_volume_names = [''Recovery'', ''Recovery HD'', ''Preboot'', ''VM'', ''Update'', ''xART'', ''xarts'', ''iSCPreboot'']"

definition is_external_candidate :: "volume \<Rightarrow> volume \<Rightarrow> bool" where
  "is_external_candidate boot v =
     (if vo_mount v = ''/'' \<or> (vo_uuid v \<noteq> [] \<and> vo_uuid v = vo_uuid boot) then False
      else if vo_container v \<noteq> [] \<and> vo_container v = vo_container boot then False
      else if vo_disk v \<noteq> [] \<and> vo_disk v = vo_disk boot then False
      else vo_name v \<notin> set system_volume_names)"

definition whole_disk :: "string \<Rightarrow> string" where
  "whole_disk dev = (case cut_prefix dev ''disk'' of None \<Rightarrow> dev
     | Some r \<Rightarrow> ''disk'' @ takeWhile is_digit r)"

record diskutil =
  dk_run :: runner
  dk_list :: "string \<Rightarrow> string list option"
  dk_info :: "string \<Rightarrow> diskutil_info option"
  dk_statfs :: statfs_call

definition diskutil_json :: "runner \<Rightarrow> string list \<Rightarrow> machine \<Rightarrow> string option \<times> machine" where
  "diskutil_json run args m = (case run None ''/usr/sbin/diskutil'' args m of
     (None, m1) \<Rightarrow> (None, m1)
   | (Some plist, m1) \<Rightarrow> run (Some plist) ''/usr/bin/plutil'' [''-convert'', ''json'', ''-o'', ''-'', ''-''] m1)"

definition volume_at :: "diskutil \<Rightarrow> path \<Rightarrow> machine \<Rightarrow> volume option \<times> machine" where
  "volume_at d mount m = (case diskutil_json (dk_run d) [''info'', ''-plist'', mount] m of
     (None, m1) \<Rightarrow> (None, m1)
   | (Some js, m1) \<Rightarrow> (case dk_info d js of
       None \<Rightarrow> (None, m1)
     | Some vi \<Rightarrow>
         let media = bool_or_true (du_media vi); writable = bool_or_true (du_writable vi);
             mp = (if du_mount vi = [] then mount else du_mount vi);
             v = no_volume\<lparr> vo_uuid := du_uuid vi, vo_mount := mp, vo_name := du_name vi, vo_container := du_whole vi,
                   vo_media := media, vo_writable := writable, vo_class := classify_volume media writable,
                   vo_disk := (case du_stores vi of [] \<Rightarrow> [] | s # ss \<Rightarrow> whole_disk s) \<rparr>
         in (case volume_capacity (dk_statfs d) mp m1 of
               (None, m2) \<Rightarrow> (Some v, m2)
             | (Some (tot, avail), m2) \<Rightarrow> (Some (v\<lparr> vo_total := tot, vo_free := avail \<rparr>), m2))))"

datatype list_err = DiskutilList | DiskutilParse | ListCancelled

text \<open>The loop over the mounts: the boot volume seen so far, the volumes kept, and whether it was cut
  short. The number counts the polls of the context.\<close>

fun volume_loop :: "diskutil \<Rightarrow> (nat \<Rightarrow> bool) \<Rightarrow> nat \<Rightarrow> path list \<Rightarrow> volume \<Rightarrow> volume list \<Rightarrow> machine \<Rightarrow>
    (volume list \<times> list_err option) \<times> machine" where
  "volume_loop d stop n [] boot out m = ((out, None), m)"
| "volume_loop d stop n (mount # ms) boot out m =
     (if stop n then ((out, Some ListCancelled), m)
      else case volume_at d mount m of
        (None, m1) \<Rightarrow> volume_loop d stop (Suc n) ms boot out m1
      | (Some v, m1) \<Rightarrow>
          if mount = ''/'' then volume_loop d stop (Suc n) ms v (out @ [v]) m1
          else if \<not> is_external_candidate boot v then volume_loop d stop (Suc n) ms boot out m1
          else volume_loop d stop (Suc n) ms boot (out @ [v]) m1)"

definition external_mounts :: "string list \<Rightarrow> path list" where
  "external_mounts names = map (\<lambda>n. ''/Volumes/'' @ n) names"

definition list_volumes :: "diskutil \<Rightarrow> (nat \<Rightarrow> bool) \<Rightarrow> machine \<Rightarrow> (volume list \<times> list_err option) \<times> machine" where
  "list_volumes d stop m = (case diskutil_json (dk_run d) [''list'', ''-plist''] m of
     (None, m1) \<Rightarrow> (([], Some DiskutilList), m1)
   | (Some js, m1) \<Rightarrow> (case dk_list d js of
       None \<Rightarrow> (([], Some DiskutilParse), m1)
     | Some names \<Rightarrow> volume_loop d stop 0 (''/'' # external_mounts names) no_volume [] m1))"

lemma volume_loop_external:
  "''/'' \<notin> set ms \<Longrightarrow> v \<in> set (fst (fst (volume_loop d stop n ms boot out m))) \<Longrightarrow>
     v \<in> set out \<or> is_external_candidate boot v"
proof (induction ms arbitrary: n out m)
  case (Cons mount ms)
  show ?case
  proof (cases "stop n")
    case False
    obtain r m1 where r: "volume_at d mount m = (r, m1)" by fastforce
    show ?thesis
    proof (cases r)
      case None
      then show ?thesis using Cons False r by auto
    next
      case (Some a)
      then show ?thesis
        using Cons.prems False r Cons.IH [of "Suc n" "if is_external_candidate boot a then out @ [a] else out" m1]
        by (auto split: if_splits)
    qed
  qed (use Cons in simp)
qed simp

text \<open>
  Every volume listed beside the boot volume is one the user could offload to: it is not the boot
  volume, not in its container and not on its physical disk, and not a helper volume of the system.
\<close>

lemma list_volumes_external:
  assumes "list_volumes d stop m = ((vs, e), m')" "volume_at d ''/'' (snd (diskutil_json (dk_run d) [''list'', ''-plist''] m)) = (Some boot, m1)"
    "v \<in> set vs" "v \<noteq> boot"
  shows "is_external_candidate boot v"
proof -
  obtain js m0 where j: "diskutil_json (dk_run d) [''list'', ''-plist''] m = (js, m0)" by fastforce
  show ?thesis
  proof (cases js)
    case None
    then show ?thesis using assms j by (simp add: list_volumes_def)
  next
    case (Some s)
    then obtain names where names: "dk_list d s = Some names" using assms j
      by (cases "dk_list d s") (auto simp: list_volumes_def)
    let ?ms = "external_mounts names"
    have "''/'' \<notin> set ?ms" by (auto simp: external_mounts_def)
    moreover have "\<not> stop 0" using assms j Some names by (auto simp: list_volumes_def split: if_splits)
    then have "v \<in> set (fst (fst (volume_loop d stop (Suc 0) ?ms boot [boot] m1)))"
      using assms j Some names by (simp add: list_volumes_def)
    ultimately show ?thesis using volume_loop_external [of ?ms v d stop "Suc 0" boot "[boot]" m1] assms(4) by auto
  qed
qed

end
