(* ===== verification/Scan.thy ===== *)
theory Scan
  imports Volumes Sizer Store
begin

text \<open>
  \<open>internal/scan\<close>: the collectors that fill the store before the heuristics score it. The walk runs on
  the file-system model; reading a file is an argument, as are the volumes \<open>core.ListVolumes\<close> gives.
  The context is a predicate polled with a running count, and a store failure ends the collector.
\<close>

type_synonym read_file = "path \<Rightarrow> machine \<Rightarrow> string option \<times> machine"

datatype scan_err = ScanNoStore | ScanCancelled | ScanStore

subsection \<open>Repositories\<close>

definition heads_mtime :: "path \<Rightarrow> machine \<Rightarrow> time option \<times> machine" where
  "heads_mtime repo m = (case os_stat (join_path [repo, ''.git'', ''refs'', ''heads'']) m of
     (r, m1) \<Rightarrow> (map_option nd_mtime r, m1))"

definition object_commit_time :: "path \<Rightarrow> string \<Rightarrow> machine \<Rightarrow> time option \<times> machine" where
  "object_commit_time repo sha m =
     (if length sha < 4 then (None, m)
      else case os_stat (join_path [repo, ''.git'', ''objects'', take 2 sha, drop 2 sha]) m of
        (None, m1) \<Rightarrow> heads_mtime repo m1
      | (Some nd, m1) \<Rightarrow> (Some (nd_mtime nd), m1))"

definition read_head_commit_time :: "read_file \<Rightarrow> path \<Rightarrow> machine \<Rightarrow> time option \<times> machine" where
  "read_head_commit_time rd repo m =
     (case rd (join_path [repo, ''.git'', ''HEAD'']) m of
        (None, m1) \<Rightarrow> (None, m1)
      | (Some raw, m1) \<Rightarrow>
          let hd_text = trim_space raw in
          (case cut_prefix hd_text ''ref: '' of
             None \<Rightarrow> object_commit_time repo hd_text m1
           | Some ref \<Rightarrow>
               (case rd (join_path [repo, ''.git'', ref]) m1 of
                  (None, m2) \<Rightarrow> heads_mtime repo m2
                | (Some sha, m2) \<Rightarrow> object_commit_time repo (trim_space sha) m2)))"

definition last_active :: "read_file \<Rightarrow> path \<Rightarrow> machine \<Rightarrow> time \<times> machine" where
  "last_active rd repo m =
     (case read_head_commit_time rd repo m of (ct, m1) \<Rightarrow>
        let t = (case ct of None \<Rightarrow> zero_time | Some c \<Rightarrow> c) in
        (case os_stat (join_path [repo, ''node_modules'']) m1 of
           (None, m2) \<Rightarrow> (t, m2)
         | (Some nd, m2) \<Rightarrow> (if t < nd_mtime nd then nd_mtime nd else t, m2)))"

definition node_modules_bytes :: "path \<Rightarrow> machine \<Rightarrow> int \<times> machine" where
  "node_modules_bytes repo m = (case os_stat (join_path [repo, ''node_modules'']) m of
     (None, m1) \<Rightarrow> (0, m1)
   | (Some nd, m1) \<Rightarrow> (if nd_kind nd = KDir then nd_size nd else 0, m1))"

definition record_repo :: "read_file \<Rightarrow> time \<Rightarrow> path \<Rightarrow> machine \<times> store \<Rightarrow> machine \<times> store" where
  "record_repo rd tm repo = (\<lambda>(m, st).
     case last_active rd repo m of (la, m1) \<Rightarrow>
       (case node_modules_bytes repo m1 of (nb, m2) \<Rightarrow>
          (m2, snd (upsert_repo_idleness \<lparr> ir_path = repo, ir_last_commit = la, ir_nm_bytes = nb, ir_last_scan = tm \<rparr> st))))"

text \<open>The callback over the visits of the walk. \<open>sk\<close> is a directory the callback answered with
  \<open>SkipDir\<close>: what lies below it is not visited.\<close>

fun scan_visits :: "read_file \<Rightarrow> (nat \<Rightarrow> bool) \<Rightarrow> time \<Rightarrow> (loc \<Rightarrow> path) \<Rightarrow> visit list \<Rightarrow> loc option \<Rightarrow> nat \<Rightarrow>
    machine \<times> store \<Rightarrow> (bool \<times> nat) \<times> machine \<times> store" where
  "scan_visits rd stop tm name [] sk n w = ((False, n), w)"
| "scan_visits rd stop tm name (Visit k nd i # vs) sk n w =
     (if (case sk of None \<Rightarrow> False | Some d \<Rightarrow> strict_prefix d k) then scan_visits rd stop tm name vs sk n w
      else if stop n then ((True, n), w)
      else if nd_kind nd \<noteq> KDir then scan_visits rd stop tm name vs sk (Suc n) w
      else let p = name k; b = base_path p in
        if b = ''node_modules'' \<or> b = ''vendor'' then scan_visits rd stop tm name vs (Some k) (Suc n) w
        else if b = ''.git'' then scan_visits rd stop tm name vs (Some k) (Suc n) (record_repo rd tm (dir_path p) w)
        else scan_visits rd stop tm name vs sk (Suc n) w)"
| "scan_visits rd stop tm name (v # vs) sk n w = scan_visits rd stop tm name vs sk n w"

definition scan_one_root :: "read_file \<Rightarrow> (nat \<Rightarrow> bool) \<Rightarrow> time \<Rightarrow> path \<Rightarrow> nat \<Rightarrow> machine \<times> store \<Rightarrow>
    (bool \<times> nat) \<times> machine \<times> store" where
  "scan_one_root rd stop tm rt n = (\<lambda>(m, st).
     case os_eval_symlinks rt m of (r, m1) \<Rightarrow>
       let real = (case r of None \<Rightarrow> rt | Some p \<Rightarrow> p);
           base = (case lloc (mc_fs m1) real of None \<Rightarrow> [] | Some q \<Rightarrow> q)
       in case walk_dir real m1 of (vs, m2) \<Rightarrow>
            scan_visits rd stop tm (\<lambda>k. join_path (real # drop (length base) k)) vs None n (m2, st))"

fun scan_repos_roots :: "read_file \<Rightarrow> (nat \<Rightarrow> bool) \<Rightarrow> (nat \<Rightarrow> time) \<Rightarrow> path list \<Rightarrow> nat \<Rightarrow> machine \<times> store \<Rightarrow>
    (scan_err option \<times> nat) \<times> machine \<times> store" where
  "scan_repos_roots rd stop now [] n w = ((None, n), w)"
| "scan_repos_roots rd stop now (r # rs) n w =
     (case scan_one_root rd stop (now n) r n w of
        ((ended, n1), w1) \<Rightarrow> if ended then ((Some ScanCancelled, n1), w1) else scan_repos_roots rd stop now rs n1 w1)"

subsection \<open>Caches and disks\<close>

fun scan_caches :: "(nat \<Rightarrow> bool) \<Rightarrow> time \<Rightarrow> path list \<Rightarrow> nat \<Rightarrow> machine \<times> store \<Rightarrow> (scan_err option \<times> nat) \<times> machine \<times> store" where
  "scan_caches stop tm [] n w = ((None, n), w)"
| "scan_caches stop tm (r # rs) n w =
     (if stop n then ((Some ScanCancelled, n), w)
      else case sizer_blocks r (fst w) of
        (None, m1) \<Rightarrow> scan_caches stop tm rs (Suc n) (m1, snd w)
      | (Some ts, m1) \<Rightarrow>
          (case record_cache_size r (ts_blocks ts) tm (snd w) of
             (None, st1) \<Rightarrow> ((Some ScanStore, Suc n), (m1, st1))
           | (Some _, st1) \<Rightarrow> scan_caches stop tm rs (Suc n) (m1, st1)))"

definition disk_sample_throttle :: duration where
  "disk_sample_throttle = hour"

fun sample_disks :: "(nat \<Rightarrow> bool) \<Rightarrow> time \<Rightarrow> volume list \<Rightarrow> nat \<Rightarrow> store \<Rightarrow> (scan_err option \<times> nat) \<times> store" where
  "sample_disks stop tm [] n st = ((None, n), st)"
| "sample_disks stop tm (v # vs) n st =
     (if stop n then ((Some ScanCancelled, n), st)
      else if vo_uuid v = [] then sample_disks stop tm vs (Suc n) st
      else case disk_space_series (vo_uuid v) (tm - disk_sample_throttle) st of
        (None, st1) \<Rightarrow> ((Some ScanStore, Suc n), st1)
      | (Some recent, st1) \<Rightarrow>
          if recent \<noteq> [] then sample_disks stop tm vs (Suc n) st1
          else case record_disk_space (vo_uuid v) (vo_mount v) (vo_total v) (vo_free v) tm st1 of
            (None, st2) \<Rightarrow> ((Some ScanStore, Suc n), st2)
          | (Some _, st2) \<Rightarrow> sample_disks stop tm vs (Suc n) st2)"

text \<open>\<open>listVolumesFn\<close>: an enumeration that fails ends the collector without an error.\<close>

definition scan_disks :: "(machine \<Rightarrow> (volume list \<times> list_err option) \<times> machine) \<Rightarrow> (nat \<Rightarrow> bool) \<Rightarrow> time \<Rightarrow> nat \<Rightarrow>
    machine \<times> store \<Rightarrow> (scan_err option \<times> nat) \<times> machine \<times> store" where
  "scan_disks vols stop tm n = (\<lambda>(m, st). case vols m of
     ((vs, Some e), m1) \<Rightarrow> ((None, n), (m1, st))
   | ((vs, None), m1) \<Rightarrow> (case sample_disks stop tm vs n st of (r, st1) \<Rightarrow> (r, (m1, st1))))"

text \<open>The three collectors in order; the first error ends the scan.\<close>

definition scan_roots :: "read_file \<Rightarrow> (machine \<Rightarrow> (volume list \<times> list_err option) \<times> machine) \<Rightarrow> (nat \<Rightarrow> bool) \<Rightarrow>
    (nat \<Rightarrow> time) \<Rightarrow> path list \<Rightarrow> path list \<Rightarrow> machine \<times> store \<Rightarrow> scan_err option \<times> machine \<times> store" where
  "scan_roots rd vols stop now repos caches w =
     (case scan_repos_roots rd stop now repos 0 w of
        ((Some e, n), w1) \<Rightarrow> (Some e, w1)
      | ((None, n), w1) \<Rightarrow>
          (case scan_caches stop (now n) caches n w1 of
             ((Some e, n1), w2) \<Rightarrow> (Some e, w2)
           | ((None, n1), w2) \<Rightarrow>
               (case scan_disks vols stop (now n1) n1 w2 of ((e, n2), w3) \<Rightarrow> (e, w3))))"

subsection \<open>The disk history is sparse\<close>

text \<open>Two rows of one volume are more than the throttle apart, the later one after the earlier.\<close>

definition disk_sparse :: "disk_row list \<Rightarrow> bool" where
  "disk_sparse rows = sorted_wrt (\<lambda>r q. dr_uuid r = dr_uuid q \<longrightarrow> disk_sample_throttle < dr_at q - dr_at r) rows"

lemma db_exec_disks:
  "st_disks (snd (db_exec f s)) = (if db_faults s (db_calls s) then st_disks s
     else st_disks (snd (f (s\<lparr>db_calls := Suc (db_calls s)\<rparr>))))"
  by (simp add: db_exec_def Let_def split: prod.split)

lemma disk_series_empty:
  assumes "disk_space_series u since st = (Some [], st1)" "q \<in> set (st_disks st)" "dr_uuid q = u"
  shows "dr_at q < since"
proof -
  have "sort_key dr_at (filter (\<lambda>r. dr_uuid r = u \<and> since \<le> dr_at r) (st_disks st)) = []"
    using assms(1) by (auto simp: disk_space_series_def db_exec_def Let_def split: if_splits)
  from arg_cong [OF this, of set] show ?thesis using assms(2,3) by auto
qed

lemma sample_disks_sparse: "disk_sparse (st_disks st) \<Longrightarrow> disk_sparse (st_disks (snd (sample_disks stop tm vs n st)))"
proof (induction vs arbitrary: n st)
  case (Cons v vs)
  obtain recent st1 where s: "disk_space_series (vo_uuid v) (tm - disk_sample_throttle) st = (recent, st1)" by fastforce
  have d1: "st_disks st1 = st_disks st" using s
    by (auto simp: disk_space_series_def db_exec_def Let_def split: if_splits)
  obtain r st2 where r: "record_disk_space (vo_uuid v) (vo_mount v) (vo_total v) (vo_free v) tm st1 = (r, st2)" by fastforce
  have d2: "disk_sparse (st_disks st2)" if "recent = Some []"
  proof -
    have "disk_sample_throttle < tm - dr_at q" if "q \<in> set (st_disks st)" "dr_uuid q = vo_uuid v" for q
      using disk_series_empty [of "vo_uuid v" "tm - disk_sample_throttle" st st1 q] s that \<open>recent = Some []\<close> by simp
    then show ?thesis using r Cons.prems d1
      by (auto simp: record_disk_space_def db_exec_def Let_def disk_sparse_def sorted_wrt_append split: if_splits)
  qed
  show ?case using Cons s r d1 d2 by (cases recent; cases r) auto
qed simp

lemma record_repo_disks [simp]: "st_disks (snd (record_repo rd tm repo w)) = st_disks (snd w)"
  by (cases w) (auto simp: record_repo_def upsert_repo_idleness_def db_exec_disks split: prod.split)

lemma scan_visits_disks: "st_disks (snd (snd (scan_visits rd stop tm name vs sk n w))) = st_disks (snd w)"
  by (induction rd stop tm name vs sk n w rule: scan_visits.induct) (simp_all add: Let_def del: record_repo_disks; simp)+

lemma scan_one_root_disks: "st_disks (snd (snd (scan_one_root rd stop tm rt n w))) = st_disks (snd w)"
  by (cases w) (simp add: scan_one_root_def Let_def scan_visits_disks split: prod.split)

lemma scan_repos_disks: "st_disks (snd (snd (scan_repos_roots rd stop now rs n w))) = st_disks (snd w)"
proof (induction rs arbitrary: n w)
  case (Cons r rs)
  obtain c n1 w1 where o: "scan_one_root rd stop (now n) r n w = ((c, n1), w1)" by (metis prod.exhaust)
  then have "st_disks (snd w1) = st_disks (snd w)" using scan_one_root_disks [of rd stop "now n" r n w] by simp
  with o Cons show ?case by simp
qed simp

lemma scan_caches_disks: "st_disks (snd (snd (scan_caches stop tm rs n w))) = st_disks (snd w)"
proof (induction rs arbitrary: n w)
  case (Cons r rs)
  show ?case
    by (auto simp: Cons record_cache_size_def db_exec_def Let_def split: prod.splits option.splits if_splits)
qed simp

text \<open>
  C27. However often the scan runs, and whatever fails in it, the disk history keeps two samples of one
  volume more than an hour apart.
\<close>

theorem disk_history_sparse:
  assumes "disk_sparse (st_disks (snd w))"
  shows "disk_sparse (st_disks (snd (snd (scan_roots rd vols stop now repos caches w))))"
proof -
  obtain e1 n1 w1 where 1: "scan_repos_roots rd stop now repos 0 w = ((e1, n1), w1)" by (metis prod.exhaust)
  have d1: "st_disks (snd w1) = st_disks (snd w)" using scan_repos_disks [of rd stop now repos 0 w] 1 by simp
  obtain e2 n2 w2 where 2: "scan_caches stop (now n1) caches n1 w1 = ((e2, n2), w2)" by (metis prod.exhaust)
  have d2: "st_disks (snd w2) = st_disks (snd w)" using scan_caches_disks [of stop "now n1" caches n1 w1] 2 d1 by simp
  obtain m2 st2 where w2: "w2 = (m2, st2)" by fastforce
  obtain vs e m3 where v: "vols m2 = ((vs, e), m3)" by (metis prod.exhaust)
  have "disk_sparse (st_disks (snd (snd (scan_disks vols stop (now n2) n2 w2))))"
    using sample_disks_sparse [of st2 stop "now n2" vs n2] assms d2
    by (cases e) (auto simp: scan_disks_def w2 v split: prod.splits)
  then show ?thesis using assms 1 2 d1 d2
    by (cases e1; cases e2) (auto simp: scan_roots_def split: prod.splits)
qed

definition demo_volume :: volume where
  "demo_volume = no_volume\<lparr> vo_uuid := ''U'', vo_mount := ''/'', vo_total := 100, vo_free := 50 \<rparr>"

definition demo_scan :: "time \<Rightarrow> machine \<times> store \<Rightarrow> scan_err option \<times> machine \<times> store" where
  "demo_scan t = scan_roots (\<lambda>p m. (None, m)) (\<lambda>m. (([demo_volume], None), m)) (\<lambda>n. False) (\<lambda>n. t) [] []"

lemma disk_history_sparse_witness:
  "let w = demo_scan (90 * minute) (snd (demo_scan (30 * minute) (snd (demo_scan 0 (machine_of [], empty_store (\<lambda>n. False))))))
   in disk_sparse (st_disks (snd (snd w))) \<and> map dr_at (st_disks (snd (snd w))) = [0, 90 * minute]"
proof -
  have s0: "disk_sparse (st_disks (snd (machine_of [], empty_store (\<lambda>n. False))))" by (simp add: disk_sparse_def empty_store_def)
  have "disk_sparse (st_disks (snd (snd (demo_scan t w))))" if "disk_sparse (st_disks (snd w))" for t w
    unfolding demo_scan_def using that by (rule disk_history_sparse)
  then have "disk_sparse (st_disks (snd (snd (demo_scan (90 * minute) (snd (demo_scan (30 * minute) (snd (demo_scan 0 (machine_of [], empty_store (\<lambda>n. False))))))))))"
    using s0 by blast
  moreover have "map dr_at (st_disks (snd (snd (demo_scan (90 * minute) (snd (demo_scan (30 * minute) (snd (demo_scan 0 (machine_of [], empty_store (\<lambda>n. False)))))))))) = [0, 90 * minute]"
    by code_simp
  ultimately show ?thesis by (simp only: Let_def)
qed

end
