(* ===== verification/GoText.thy ===== *)
theory GoText
  imports Float64
begin

text \<open>
  Text primitives the command line and the tool readers share: \<open>bufio.Scanner\<close> over lines, upper case,
  runes of UTF-8 text, \<open>%q\<close>, padding, \<open>time.Duration.String\<close>, the civil date of a UTC time, and
  \<open>core.Bytes\<close> with \<open>core.ParseBytes\<close> (\<open>internal/core/size.go\<close>).
\<close>

subsection \<open>Lines\<close>

abbreviation nl :: string where
  "nl \<equiv> [CHR 0x0A]"

definition drop_cr :: "string \<Rightarrow> string" where
  "drop_cr l = (if l \<noteq> [] \<and> last l = CHR 0x0D then butlast l else l)"

text \<open>\<open>bufio.Scanner\<close> with a buffer of the given size: a line that does not fit ends the scan.\<close>

definition scanner_lines :: "nat \<Rightarrow> string \<Rightarrow> string list" where
  "scanner_lines cap s = (let ls = split_on (CHR 0x0A) s; ls1 = (if last ls = [] then butlast ls else ls)
     in map drop_cr (takeWhile (\<lambda>l. length l < cap) ls1))"

abbreviation default_lines :: "string \<Rightarrow> string list" where
  "default_lines \<equiv> scanner_lines (2 ^ 16)"

text \<open>\<open>strings.Index\<close> of a text, as the texts before and after its first occurrence.\<close>

fun cut_text :: "string \<Rightarrow> string \<Rightarrow> (string \<times> string) option" where
  "cut_text sep [] = (if sep = [] then Some ([], []) else None)"
| "cut_text sep (c # s) =
     (if has_prefix (c # s) sep then Some ([], drop (length sep) (c # s))
      else map_option (\<lambda>(u, v). (c # u, v)) (cut_text sep s))"

lemma cut_text_Some: "cut_text sep s = Some (u, v) \<Longrightarrow> s = u @ sep @ v"
proof (induction s arbitrary: u)
  case (Cons c s)
  show ?case
  proof (cases "has_prefix (c # s) sep")
    case True
    with Cons.prems show ?thesis by (auto simp: prefix_def)
  next
    case False
    with Cons show ?thesis by auto
  qed
qed (simp split: if_splits)

definition to_upper_char :: "char \<Rightarrow> char" where
  "to_upper_char c = (if 97 \<le> (of_char c :: nat) \<and> (of_char c :: nat) \<le> 122 then char_of (of_char c - 32 :: nat) else c)"

definition to_upper :: "string \<Rightarrow> string" where
  "to_upper s = map to_upper_char s"

definition spaces :: "nat \<Rightarrow> string" where
  "spaces n = replicate n (CHR '' '')"

text \<open>\<open>%*s\<close> and \<open>%-*s\<close> of single-byte text.\<close>

definition pad_left :: "nat \<Rightarrow> string \<Rightarrow> string" where
  "pad_left n s = spaces (n - length s) @ s"

definition pad_right :: "nat \<Rightarrow> string \<Rightarrow> string" where
  "pad_right n s = s @ spaces (n - length s)"

text \<open>\<open>%q\<close> of text whose bytes above 0x7F form printable characters.\<close>

definition hex_digit :: "nat \<Rightarrow> char" where
  "hex_digit d = (if d < 10 then char_of (48 + d) else char_of (87 + d))"

definition quote_char :: "char \<Rightarrow> string" where
  "quote_char c = (let n = (of_char c :: nat) in
     if n = 34 \<or> n = 92 then [CHR 0x5C, c]
     else if n = 7 then [CHR 0x5C, CHR ''a''] else if n = 8 then [CHR 0x5C, CHR ''b'']
     else if n = 12 then [CHR 0x5C, CHR ''f''] else if n = 10 then [CHR 0x5C, CHR ''n'']
     else if n = 13 then [CHR 0x5C, CHR ''r''] else if n = 9 then [CHR 0x5C, CHR ''t'']
     else if n = 11 then [CHR 0x5C, CHR ''v'']
     else if n < 32 \<or> n = 127 then [CHR 0x5C, CHR ''x'', hex_digit (n div 16), hex_digit (n mod 16)]
     else [c])"

definition go_quote :: "string \<Rightarrow> string" where
  "go_quote s = [CHR 0x22] @ concat (map quote_char s) @ [CHR 0x22]"

definition go_quotes :: "string list \<Rightarrow> string" where
  "go_quotes ws = ''['' @ join_with '' '' (map go_quote ws) @ '']''"

subsection \<open>Runes\<close>

text \<open>A byte of the form 10xxxxxx continues a character. \<open>runes\<close> groups the bytes of valid UTF-8 text
  into characters.\<close>

definition cont_byte :: "char \<Rightarrow> bool" where
  "cont_byte c \<longleftrightarrow> (of_char c :: nat) div 64 = 2"

fun runes :: "string \<Rightarrow> string list" where
  "runes [] = []"
| "runes (c # s) = (case runes s of
     (d # w) # ws \<Rightarrow> if cont_byte d then (c # d # w) # ws else [c] # (d # w) # ws
   | _ \<Rightarrow> [[c]])"

lemma runes_nonempty: "w \<in> set (runes s) \<Longrightarrow> w \<noteq> []"
  by (induction s arbitrary: w) (auto split: list.splits if_splits)

lemma concat_runes [simp]: "concat (runes s) = s"
proof (induction s)
  case (Cons c s)
  show ?case
  proof (cases "runes s")
    case Nil
    with Cons have "s = []" by simp
    then show ?thesis by simp
  next
    case (Cons w ws)
    then obtain d v where "w = d # v" using runes_nonempty [of w s] by (cases w) auto
    with Cons Cons.IH show ?thesis by auto
  qed
qed simp

subsection \<open>Durations and dates\<close>

definition pad0 :: "nat \<Rightarrow> int \<Rightarrow> string" where
  "pad0 w n = (let s = itoa n in replicate (w - length s) (CHR ''0'') @ s)"

text \<open>The fraction of \<open>n / 10 ^ k\<close>, trailing zeros and an empty fraction left out.\<close>

definition frac_text :: "nat \<Rightarrow> int \<Rightarrow> string" where
  "frac_text k n = (let ds = rev (dropWhile (\<lambda>c. c = CHR ''0'') (rev (pad0 k (n mod 10 ^ k))))
     in if ds = [] then [] else ''.'' @ ds)"

definition micro_sign :: string where
  "micro_sign = [CHR 0xC2, CHR 0xB5]"

definition dur_string :: "duration \<Rightarrow> string" where
  "dur_string d =
     (let u = \<bar>d\<bar>; v = u div 10 ^ 9; sec = itoa (v mod 60) @ frac_text 9 u @ ''s''; mins = v div 60 in
      (if d < 0 then ''-'' else []) @
      (if u = 0 then ''0s''
       else if u < 1000 then itoa u @ ''ns''
       else if u < 1000000 then itoa (u div 1000) @ frac_text 3 u @ micro_sign @ ''s''
       else if u < 1000000000 then itoa (u div 1000000) @ frac_text 6 u @ ''ms''
       else if mins = 0 then sec
       else if mins div 60 = 0 then itoa mins @ ''m'' @ sec
       else itoa (mins div 60) @ ''h'' @ itoa (mins mod 60) @ ''m'' @ sec))"

text \<open>\<open>Duration.Round\<close> of a non-negative duration: halves up.\<close>

definition dur_round :: "duration \<Rightarrow> duration \<Rightarrow> duration" where
  "dur_round d u = (let r = d mod u in if 2 * r < u then d - r else min max_i64 (d + (u - r)))"

text \<open>The civil date of the day with the given number since 1970-01-01, in the proleptic Gregorian
  calendar \<open>time.Time\<close> uses, by the 400-year cycle that starts on the 1st of March of year 0.\<close>

definition civil :: "int \<Rightarrow> int \<times> int \<times> int" where
  "civil z =
     (let z1 = z + 719468; era = z1 div 146097; doe = z1 mod 146097;
          yoe = (doe - doe div 1460 + doe div 36524 - doe div 146096) div 365;
          doy = doe - (365 * yoe + yoe div 4 - yoe div 100);
          mp = (5 * doy + 2) div 153; dd = doy - (153 * mp + 2) div 5 + 1;
          mm = (if mp < 10 then mp + 3 else mp - 9)
      in (yoe + era * 400 + (if mm \<le> 2 then 1 else 0), mm, dd))"

text \<open>\<open>t.UTC().Format("2006-01-02")\<close> of a time of a year from 0 to 9999.\<close>

definition fmt_day :: "time \<Rightarrow> string" where
  "fmt_day t = (case civil (t div day) of (y, m, d) \<Rightarrow> pad0 4 y @ ''-'' @ pad0 2 m @ ''-'' @ pad0 2 d)"

text \<open>\<open>t.UTC().Format(time.RFC3339)\<close>.\<close>

definition fmt_rfc3339 :: "time \<Rightarrow> string" where
  "fmt_rfc3339 t = (let s = (t mod day) div second in
     fmt_day t @ ''T'' @ pad0 2 (s div 3600) @ '':'' @ pad0 2 (s mod 3600 div 60) @ '':'' @ pad0 2 (s mod 60) @ ''Z'')"

subsection \<open>core.Bytes\<close>

definition bytes_string :: "int \<Rightarrow> string" where
  "bytes_string b =
     (if 2 ^ 40 \<le> b then fmt_f1 (fl (fl_int b / 2 ^ 40)) @ '' TB''
      else if 2 ^ 30 \<le> b then fmt_f1 (fl (fl_int b / 2 ^ 30)) @ '' GB''
      else if 2 ^ 20 \<le> b then fmt_f1 (fl (fl_int b / 2 ^ 20)) @ '' MB''
      else if 2 ^ 10 \<le> b then fmt_f1 (fl (fl_int b / 2 ^ 10)) @ '' KB''
      else itoa b @ '' B'')"

text \<open>A product with a positive finite factor.\<close>

fun f64_scale :: "f64 \<Rightarrow> rat \<Rightarrow> f64" where
  "f64_scale (Fin x) k = (let y = fl (x * k) in if max_f64 < y then PInf else if y < - max_f64 then NInf else Fin y)"
| "f64_scale f k = f"

datatype size_err = EmptySize | BadSize string

definition parse_bytes :: "string \<Rightarrow> size_err + int" where
  "parse_bytes s0 =
     (let s = trim_space (to_upper s0) in
      if s = [] then Inl EmptySize
      else let (k, t) =
             (if has_suffix s ''TB'' then (2 ^ 40, trim_suffix s ''TB'')
              else if has_suffix s ''GB'' then (2 ^ 30, trim_suffix s ''GB'')
              else if has_suffix s ''MB'' then (2 ^ 20, trim_suffix s ''MB'')
              else if has_suffix s ''KB'' then (2 ^ 10, trim_suffix s ''KB'')
              else (1, s))
           in case parse_float (trim_space t) of
             None \<Rightarrow> Inl (BadSize t)
           | Some v \<Rightarrow> Inr (i64_of_f64 (f64_scale v k)))"

lemma parse_bytes_range: "parse_bytes s = Inr n \<Longrightarrow> in_i64 n"
  by (auto simp: parse_bytes_def Let_def split: if_splits option.splits)

end
