(* ===== verification/Vmdisk.thy ===== *)
theory Vmdisk
  imports GoPaths FloatProps GoText
begin

text \<open>
  \<open>internal/vmdisk\<close>: VM managers, the fill of their data disks and the advice. The commands (which only
  read), the look-up of a binary, \<open>stat\<close>, \<open>statfs\<close>, \<open>EvalSymlinks\<close>, the environment and the JSON decoder are
  fields of the detector; sizes are unsigned 64-bit integers with their wrap-around written out.
\<close>

definition datadisk_warn_pct :: int where
  "datadisk_warn_pct = 85"

definition gib :: int where
  "gib = 2 ^ 30"

record disk_usage =
  us_mount :: path
  us_total :: int
  us_used :: int
  us_present :: bool

definition no_usage :: disk_usage where
  "no_usage = \<lparr> us_mount = [], us_total = 0, us_used = 0, us_present = False \<rparr>"

definition pct :: "disk_usage \<Rightarrow> int" where
  "pct d = (if us_total d = 0 then 0 else wrap64 (wrap_u64 (us_used d * 100) div us_total d))"

datatype vm_kind = Colima | Lima

fun kind_name :: "vm_kind \<Rightarrow> string" where
  "kind_name Colima = ''colima''"
| "kind_name Lima = ''lima''"

record vm =
  vm_kind :: vm_kind
  vm_name :: string
  vm_running :: bool
  vm_disk_gib :: int
  vm_usage :: disk_usage
  vm_home :: path

datatype advice_level = AdviceGrow | AdviceRelocateThenGrow | AdviceBlocked

record advice =
  ad_vm :: vm
  ad_level :: advice_level
  ad_target :: int
  ad_command :: string
  ad_headline :: string
  ad_detail :: string
  ad_volume :: path
  ad_free :: int
  ad_needed :: int

text \<open>One row of \<open>list --json\<close> of either manager.\<close>

record vm_row =
  vr_name :: string
  vr_status :: string
  vr_disk :: int

record detector =
  dt_run :: "string list \<Rightarrow> string \<Rightarrow> string list \<Rightarrow> string option"
  dt_override :: path
  dt_env_colima :: path
  dt_env_lima :: path
  dt_user_home :: path
  dt_look :: "string \<Rightarrow> bool"
  dt_stat :: "path \<Rightarrow> bool"
  dt_statfs :: "path \<Rightarrow> (int \<times> int) option"
  dt_mount :: "path \<Rightarrow> path option"
  dt_eval :: "path \<Rightarrow> path option"
  dt_array :: "string \<Rightarrow> vm_row list option"
  dt_object :: "string \<Rightarrow> vm_row option"

subsection \<open>Reading the managers\<close>

text \<open>\<open>bufio.Scanner\<close> with a buffer of 1 MiB: a line that does not fit ends the scan.\<close>

definition scan_lines :: "string \<Rightarrow> string list" where
  "scan_lines = scanner_lines (2 ^ 20)"

definition docker_data_mount :: path where
  "docker_data_mount = ''/var/lib/docker''"

definition df_row :: "string \<Rightarrow> disk_usage \<times> disk_usage \<Rightarrow> disk_usage \<times> disk_usage" where
  "df_row line = (\<lambda>(best, docker).
     let fs = GoStrings.fields line in
     if length fs < 6 then (best, docker)
     else if equal_fold (fs ! 0) ''Filesystem'' then (best, docker)
     else case (parse_uint (fs ! 1), parse_uint (fs ! 2)) of
       (Some tot, Some used) \<Rightarrow>
         if tot = 0 then (best, docker)
         else let u = \<lparr> us_mount = last fs, us_total = tot, us_used = used, us_present = True \<rparr>
              in (if has_prefix (fs ! 0) ''/dev/vd'' \<and> us_total best < tot then u else best,
                  if last fs = docker_data_mount then u else docker)
     | _ \<Rightarrow> (best, docker))"

definition parse_datadisk_df :: "string \<Rightarrow> disk_usage" where
  "parse_datadisk_df out = (case fold df_row (scan_lines out) (no_usage, no_usage) of
     (best, docker) \<Rightarrow> if us_present docker then docker else best)"

definition ndjson_rows :: "(string \<Rightarrow> vm_row option) \<Rightarrow> string \<Rightarrow> vm_row list" where
  "ndjson_rows obj out = concat (map (\<lambda>l.
     let t = trim_space l in if t = [] then []
       else case obj t of None \<Rightarrow> [] | Some p \<Rightarrow> if vr_name p = [] then [] else [p]) (scan_lines out))"

definition parse_colima_list :: "detector \<Rightarrow> string \<Rightarrow> vm_row list" where
  "parse_colima_list d raw = (let out = trim_space raw in
     if out = [] then []
     else if hd out = CHR ''['' then (case dt_array d out of None \<Rightarrow> [] | Some rows \<Rightarrow> rows)
     else ndjson_rows (dt_object d) out)"

definition parse_lima_list :: "detector \<Rightarrow> string \<Rightarrow> vm_row list" where
  "parse_lima_list d raw = (let out = trim_space raw in
     if out = [] then []
     else if hd out = CHR ''['' then (case dt_array d out of None \<Rightarrow> [] | Some rows \<Rightarrow> rows)
     else ndjson_rows (dt_object d) out)"

definition default_colima_home :: "detector \<Rightarrow> path" where
  "default_colima_home d = (if dt_env_colima d \<noteq> [] then dt_env_colima d else join_path [dt_user_home d, ''.colima''])"

definition default_lima_home :: "detector \<Rightarrow> path" where
  "default_lima_home d = (if dt_env_lima d \<noteq> [] then dt_env_lima d else join_path [dt_user_home d, ''.lima''])"

definition colima_home :: "detector \<Rightarrow> path" where
  "colima_home d = (if dt_override d \<noteq> [] then dt_override d else default_colima_home d)"

definition default_profile :: "string \<Rightarrow> bool" where
  "default_profile p \<longleftrightarrow> p = [] \<or> p = ''default''"

definition colima_datadisk :: "detector \<Rightarrow> string \<Rightarrow> disk_usage" where
  "colima_datadisk d profile =
     (case dt_run d [] ''colima'' (''ssh'' # (if default_profile profile then [] else [''-p'', profile]) @ [''--'', ''df'', ''-B1'']) of
        None \<Rightarrow> no_usage | Some out \<Rightarrow> parse_datadisk_df out)"

definition detect_colima :: "detector \<Rightarrow> vm list" where
  "detect_colima d = (case dt_run d [] ''colima'' [''list'', ''--json''] of
     None \<Rightarrow> []
   | Some out \<Rightarrow> map (\<lambda>p. let up = equal_fold (vr_status p) ''Running'' in
       \<lparr> vm_kind = Colima, vm_name = vr_name p, vm_running = up, vm_disk_gib = vr_disk p div gib,
         vm_usage = (if up then colima_datadisk d (vr_name p) else no_usage), vm_home = colima_home d \<rparr>)
       (parse_colima_list d out))"

definition lima_datadisk :: "detector \<Rightarrow> string list \<Rightarrow> string \<Rightarrow> disk_usage" where
  "lima_datadisk d env name = (case dt_run d env ''limactl'' [''shell'', name, ''--'', ''df'', ''-B1''] of
     None \<Rightarrow> no_usage | Some out \<Rightarrow> parse_datadisk_df out)"

definition detect_lima :: "detector \<Rightarrow> path \<Rightarrow> vm list" where
  "detect_lima d lima_home =
     (if lima_home \<noteq> [] \<and> \<not> dt_stat d lima_home then []
      else let env = (if lima_home = [] then [] else [''LIMA_HOME='' @ lima_home]);
               home = (if lima_home = [] then default_lima_home d else lima_home)
           in case dt_run d env ''limactl'' [''list'', ''--json''] of
                None \<Rightarrow> []
              | Some out \<Rightarrow> map (\<lambda>r. let up = equal_fold (vr_status r) ''Running'' in
                  \<lparr> vm_kind = Lima, vm_name = vr_name r, vm_running = up, vm_disk_gib = vr_disk r div gib,
                    vm_usage = (if up then lima_datadisk d env (vr_name r) else no_usage), vm_home = home \<rparr>)
                  (parse_lima_list d out))"

definition lima_instance_name :: "string \<Rightarrow> string" where
  "lima_instance_name profile = (if default_profile profile then ''colima'' else ''colima-'' @ profile)"

text \<open>The loop that skips a name already seen.\<close>

fun add_unseen :: "vm list \<Rightarrow> string list \<times> vm list \<Rightarrow> string list \<times> vm list" where
  "add_unseen [] acc = acc"
| "add_unseen (v # vs) (seen, out) =
     (if vm_name v \<in> set seen then add_unseen vs (seen, out) else add_unseen vs (vm_name v # seen, out @ [v]))"

definition detect :: "detector \<Rightarrow> vm list" where
  "detect d =
     (let cvms = (if dt_look d ''colima'' then detect_colima d else []);
          acc = (map (\<lambda>v. lima_instance_name (vm_name v)) cvms, cvms)
      in snd (if dt_look d ''limactl''
              then add_unseen (detect_lima d (join_path [colima_home d, ''_lima''])) (add_unseen (detect_lima d []) acc)
              else acc))"

subsection \<open>Advice\<close>

definition current_disk_gib :: "vm \<Rightarrow> int" where
  "current_disk_gib v = (if 0 < vm_disk_gib v then vm_disk_gib v
     else if 0 < us_total (vm_usage v) then wrap_u64 (us_total (vm_usage v) + gib - 1) div gib else 0)"

definition target_gib :: "vm \<Rightarrow> int" where
  "target_gib v = (let current = current_disk_gib v;
       want = wrap_u64 (wrap_u64 (us_used (vm_usage v) * 2) + gib - 1) div gib
     in if want \<le> current then current + 1 else want)"

definition host_home :: "detector \<Rightarrow> vm \<Rightarrow> path" where
  "host_home d v = (if vm_home v \<noteq> [] then vm_home v
     else case vm_kind v of Colima \<Rightarrow> colima_home d | Lima \<Rightarrow> default_lima_home d)"

definition statfs_free_bytes :: "detector \<Rightarrow> path \<Rightarrow> int option" where
  "statfs_free_bytes d p = map_option (\<lambda>(bavail, bsize). wrap_u64 (bavail * bsize)) (dt_statfs d p)"

definition resolve_host_volume :: "detector \<Rightarrow> path \<Rightarrow> (path \<times> int) option" where
  "resolve_host_volume d p =
     (let real = (case dt_eval d p of None \<Rightarrow> p | Some q \<Rightarrow> q) in
      case statfs_free_bytes d real of None \<Rightarrow> None
      | Some avail \<Rightarrow> Some (case dt_mount d real of None \<Rightarrow> real | Some mp \<Rightarrow> mp, avail))"

definition dest_usable :: "detector \<Rightarrow> path \<Rightarrow> int \<Rightarrow> bool" where
  "dest_usable d dest needed = (case resolve_host_volume d dest of None \<Rightarrow> False | Some (mp, avail) \<Rightarrow> needed \<le> avail)"

definition grow_command :: "vm \<Rightarrow> int \<Rightarrow> string" where
  "grow_command v target = (case vm_kind v of
     Colima \<Rightarrow> if default_profile (vm_name v) then ''colima stop && colima start --disk '' @ itoa target
       else ''colima stop -p '' @ vm_name v @ '' && colima start -p '' @ vm_name v @ '' --disk '' @ itoa target
   | Lima \<Rightarrow> ''limactl stop '' @ vm_name v @ '' && limactl disk resize --size '' @ itoa target @ ''GiB '' @ vm_name v
       @ '' && limactl start '' @ vm_name v)"

definition relocate_then_grow_command :: "vm \<Rightarrow> path \<Rightarrow> int \<Rightarrow> string" where
  "relocate_then_grow_command v dest target = (case vm_kind v of
     Colima \<Rightarrow> let new_home = join_path [dest, ''.colima''] in
       ''colima stop && mv ~/.colima '' @ new_home @ '' && export COLIMA_HOME='' @ new_home @ '' && colima start --disk '' @ itoa target
   | Lima \<Rightarrow> ''# relocate lima home under '' @ dest @ '', then: limactl disk resize --size '' @ itoa target @ ''GiB '' @ vm_name v)"

definition host_vol_or_unknown :: "path \<Rightarrow> bool \<Rightarrow> string" where
  "host_vol_or_unknown mount resolved = (if \<not> resolved \<or> mount = [] then ''(host volume unresolved)'' else mount)"

definition vm_human_bytes :: "int \<Rightarrow> string" where
  "vm_human_bytes b = (if gib \<le> b then fmt_f0 (fl (fl_int b / fl_int gib)) @ ''G''
     else if 2 ^ 20 \<le> b then fmt_f0 (fl (fl_int b / fl_int (2 ^ 20))) @ ''M''
     else if b = 0 then ''0'' else itoa b @ ''B'')"

definition vm_headline :: "vm \<Rightarrow> string" where
  "vm_headline v = kind_name (vm_kind v) @ '' '' @ vm_name v @ '': datadisk '' @ vm_human_bytes (us_total (vm_usage v))
     @ '', '' @ itoa (pct (vm_usage v)) @ ''% full '' @ em_dash @ '' dockerd at risk; ''"

definition advise :: "detector \<Rightarrow> vm \<Rightarrow> path \<Rightarrow> advice option" where
  "advise d v dest =
     (if \<not> vm_running v \<or> \<not> us_present (vm_usage v) then None
      else if pct (vm_usage v) < datadisk_warn_pct then None
      else
        let target = target_gib v; current = current_disk_gib v;
            needed = (if current < target then wrap_u64 ((target - current) * gib) else 0);
            host_path = host_home d v; res = resolve_host_volume d host_path;
            resolved = (res \<noteq> None);
            (host_vol, avail) = (case res of None \<Rightarrow> ([], 0) | Some r \<Rightarrow> r);
            adv = \<lparr> ad_vm = v, ad_level = AdviceBlocked, ad_target = target, ad_command = [], ad_headline = [],
                    ad_detail = [], ad_volume = host_vol, ad_free = avail, ad_needed = needed \<rparr>;
            only = ''host volume '' @ host_vol_or_unknown host_vol resolved @ '' has only '' @ vm_human_bytes avail
              @ '' free (need '' @ vm_human_bytes needed @ '')''
        in Some (if resolved \<and> needed \<le> avail
             then adv\<lparr> ad_level := AdviceGrow, ad_command := grow_command v target,
               ad_headline := vm_headline v @ ''grow to '' @ itoa target @ ''G'',
               ad_detail := ''host volume '' @ host_vol @ '' has '' @ vm_human_bytes avail @ '' free (need ''
                 @ vm_human_bytes needed @ '' to grow) '' @ em_dash @ '' safe to grow in place'' \<rparr>
             else if dest \<noteq> [] \<and> dest_usable d dest needed
             then adv\<lparr> ad_level := AdviceRelocateThenGrow, ad_command := relocate_then_grow_command v dest target,
               ad_headline := vm_headline v @ ''host disk is full, relocate then grow'',
               ad_detail := only @ ''; move '' @ host_path @ '' to '' @ dest @ '' first, then grow to '' @ itoa target @ ''G'' \<rparr>
             else adv\<lparr> ad_headline := vm_headline v @ ''nowhere to grow'',
               ad_detail := only @ '' and no offload destination is configured '' @ em_dash
                 @ '' free space or set [offload] dest_root'' \<rparr>))"

definition vm_report :: "detector \<Rightarrow> path \<Rightarrow> vm list \<times> advice list" where
  "vm_report d dest = (let vms = detect d in
     (vms, concat (map (\<lambda>v. case advise d v dest of None \<Rightarrow> [] | Some a \<Rightarrow> [a]) vms)))"

text \<open>\<open>RenderSection\<close>: of several advices with one key the last one is shown.\<close>


definition vm_key :: "vm \<Rightarrow> string" where
  "vm_key v = kind_name (vm_kind v) @ ''/'' @ vm_name v"

definition render_vm :: "advice list \<Rightarrow> vm \<Rightarrow> string" where
  "render_vm advs v =
     (let u = vm_usage v in
      ''  '' @ kind_name (vm_kind v) @ '' '' @ vm_name v @
      (if \<not> vm_running v then '': stopped''
       else if \<not> us_present u then '': running, datadisk usage unknown''
       else '': datadisk '' @ vm_human_bytes (us_used u) @ '' used of '' @ vm_human_bytes (us_total u) @ '' ('' @ itoa (pct u) @ ''%)'') @ nl @
      (case first_such (\<lambda>a. vm_key (ad_vm a) = vm_key v) (rev advs) of
         None \<Rightarrow> []
       | Some a \<Rightarrow> ''    ! '' @ ad_headline a @ nl @ ''      '' @ ad_detail a @ nl @
           (if ad_command a = [] then [] else ''      fix: '' @ ad_command a @ nl)))"

definition render_section :: "vm list \<times> advice list \<Rightarrow> string" where
  "render_section r = (if fst r = [] then []
     else nl @ ''VM datadisks'' @ nl @ concat (map (render_vm (snd r)) (fst r)))"

subsection \<open>What the advice promises\<close>

lemma target_above_current: "current_disk_gib v < target_gib v"
  by (simp add: target_gib_def Let_def)

text \<open>While the used bytes are below 2 ^ 62 the doubling does not wrap, and the grown disk is at most half full.\<close>

lemma target_halves_use:
  assumes "0 \<le> us_used (vm_usage v)" "us_used (vm_usage v) < 2 ^ 62"
  shows "2 * us_used (vm_usage v) \<le> target_gib v * gib"
proof -
  let ?u = "us_used (vm_usage v)"
  let ?want = "(?u * 2 + gib - 1) div gib"
  have w: "wrap_u64 (wrap_u64 (?u * 2) + gib - 1) = ?u * 2 + gib - 1"
    using assms by (simp add: wrap_u64_def gib_def)
  have "?u * 2 \<le> ?want * gib" by (simp add: gib_def)
  moreover have "?want \<le> target_gib v" by (simp add: target_gib_def Let_def w)
  then have "?want * gib \<le> target_gib v * gib" by (simp add: gib_def)
  ultimately show ?thesis by linarith
qed

text \<open>
  C23. Advice is given only for a running machine whose data disk was read and is at least 85 percent
  full; growing in place is advised only when the volume behind its home was resolved and has room for
  the growth, moving first only when a configured destination has, and otherwise no command is given.
  The target is always a real growth.
\<close>

theorem advise_sound:
  assumes "advise d v dest = Some a"
  shows "vm_running v \<and> us_present (vm_usage v) \<and> datadisk_warn_pct \<le> pct (vm_usage v) \<and>
    current_disk_gib v < ad_target a \<and> ad_needed a = wrap_u64 ((ad_target a - current_disk_gib v) * gib) \<and>
    (case ad_level a of
       AdviceGrow \<Rightarrow> (\<exists>mp avail. resolve_host_volume d (host_home d v) = Some (mp, avail) \<and> ad_needed a \<le> avail) \<and>
         ad_command a = grow_command v (ad_target a)
     | AdviceRelocateThenGrow \<Rightarrow> dest \<noteq> [] \<and> (\<exists>mp avail. resolve_host_volume d dest = Some (mp, avail) \<and> ad_needed a \<le> avail) \<and>
         ad_command a = relocate_then_grow_command v dest (ad_target a)
     | AdviceBlocked \<Rightarrow> ad_command a = [] \<and>
         (\<forall>mp avail. resolve_host_volume d (host_home d v) = Some (mp, avail) \<longrightarrow> avail < ad_needed a) \<and>
         \<not> (dest \<noteq> [] \<and> dest_usable d dest (ad_needed a)))"
  using assms target_above_current [of v]
  by (cases "resolve_host_volume d (host_home d v)")
    (auto simp: advise_def Let_def dest_usable_def not_le split: if_splits option.splits)

definition demo_detector :: detector where
  "demo_detector = \<lparr> dt_run = (\<lambda>env name args. None), dt_override = [], dt_env_colima = [], dt_env_lima = [],
     dt_user_home = ''/Users/me'', dt_look = (\<lambda>n. True), dt_stat = (\<lambda>p. True),
     dt_statfs = (\<lambda>p. Some (100, 2 ^ 30)), dt_mount = (\<lambda>p. Some ''/''), dt_eval = (\<lambda>p. Some p),
     dt_array = (\<lambda>s. None), dt_object = (\<lambda>s. None) \<rparr>"

definition demo_vm :: vm where
  "demo_vm = \<lparr> vm_kind = Colima, vm_name = ''work'', vm_running = True, vm_disk_gib = 10,
     vm_usage = \<lparr> us_mount = docker_data_mount, us_total = 10 * 2 ^ 30, us_used = 9 * 2 ^ 30, us_present = True \<rparr>, vm_home = [] \<rparr>"

lemma advise_sound_witness:
  "\<exists>a. advise demo_detector demo_vm [] = Some a \<and> current_disk_gib demo_vm < ad_target a \<and> ad_target a = 18 \<and>
     ad_command a = ''colima stop -p work && colima start -p work --disk 18''"
proof -
  define a where "a = the (advise demo_detector demo_vm [])"
  have "advise demo_detector demo_vm [] \<noteq> None" by code_simp
  then have s: "advise demo_detector demo_vm [] = Some a" by (auto simp: a_def)
  have "ad_target a = 18" unfolding a_def by code_simp
  moreover have "ad_command a = ''colima stop -p work && colima start -p work --disk 18''" unfolding a_def by code_simp
  ultimately show ?thesis using s advise_sound [OF s] by blast
qed

text \<open>
  The command that moves the home first names no profile: for every profile it stops and grows the
  default one, where the command that grows in place names the profile it is about.
\<close>

lemma relocate_ignores_profile:
  "vm_kind v = Colima \<Longrightarrow> relocate_then_grow_command (v\<lparr> vm_name := p \<rparr>) dest target = relocate_then_grow_command v dest target"
  by (simp add: relocate_then_grow_command_def)

text \<open>Nothing colima accounts for is listed a second time as a lima instance, and no lima name twice.\<close>

lemma add_unseen_names:
  "add_unseen vs (seen, out) = (seen', out') \<Longrightarrow>
     \<exists>new. out' = out @ new \<and> distinct (map vm_name new) \<and> set (map vm_name new) \<inter> set seen = {} \<and>
       set seen' = set seen \<union> set (map vm_name new)"
proof (induction vs arbitrary: seen out)
  case (Cons v vs)
  show ?case
  proof (cases "vm_name v \<in> set seen")
    case True
    with Cons show ?thesis by simp
  next
    case False
    with Cons.prems have "add_unseen vs (vm_name v # seen, out @ [v]) = (seen', out')" by simp
    then obtain new where n: "out' = (out @ [v]) @ new" "distinct (map vm_name new)"
        "set (map vm_name new) \<inter> set (vm_name v # seen) = {}" "set seen' = set (vm_name v # seen) \<union> set (map vm_name new)"
      using Cons.IH by metis
    with False show ?thesis by (intro exI [of _ "v # new"]) auto
  qed
qed simp

lemma detect_no_duplicates:
  "\<exists>new. detect d = (if dt_look d ''colima'' then detect_colima d else []) @ new \<and> distinct (map vm_name new) \<and>
     (dt_look d ''colima'' \<longrightarrow> (\<forall>v \<in> set (detect_colima d). lima_instance_name (vm_name v) \<notin> set (map vm_name new)))"
proof -
  let ?c = "if dt_look d ''colima'' then detect_colima d else []"
  let ?acc = "(map (\<lambda>v. lima_instance_name (vm_name v)) ?c, ?c)"
  obtain s1 o1 where 1: "add_unseen (detect_lima d []) ?acc = (s1, o1)" by fastforce
  obtain s2 o2 where 2: "add_unseen (detect_lima d (join_path [colima_home d, ''_lima''])) (s1, o1) = (s2, o2)" by fastforce
  obtain n1 where n1: "o1 = ?c @ n1" "distinct (map vm_name n1)" "set (map vm_name n1) \<inter> set (fst ?acc) = {}"
      "set s1 = set (fst ?acc) \<union> set (map vm_name n1)" using add_unseen_names [OF 1] by auto
  obtain n2 where n2: "o2 = o1 @ n2" "distinct (map vm_name n2)" "set (map vm_name n2) \<inter> set s1 = {}"
    using add_unseen_names [OF 2] by auto
  show ?thesis
  proof (cases "dt_look d ''limactl''")
    case True
    have "detect d = ?c @ n1 @ n2" using 1 2 n1 n2 True by (simp add: detect_def Let_def)
    moreover have "distinct (map vm_name (n1 @ n2))" using n1 n2 by auto
    moreover have "\<forall>v \<in> set ?c. lima_instance_name (vm_name v) \<notin> set (map vm_name (n1 @ n2))"
      using n1 n2 by auto
    ultimately show ?thesis by (intro exI [of _ "n1 @ n2"]) auto
  next
    case False
    then show ?thesis by (auto simp: detect_def Let_def)
  qed
qed

end
