(* ===== verification/Instance.thy ===== *)
theory Instance
  imports Prelude
begin

text \<open>
  The single-instance lock of \<open>internal/ipc/server.go\<close>: several daemons run \<open>Start\<close> and \<open>Stop\<close> on one
  socket path, interleaved system call by system call, and any of them may crash. A file is an inode;
  a path holds one inode or none; an flock belongs to an inode and is dropped when its holder dies.
  Every call may fail (\<open>ok = False\<close>).
\<close>

datatype pc =
    Idle
  | Opened nat          \<comment> \<open>the lock file is open\<close>
  | Locked nat          \<comment> \<open>the flock is taken\<close>
  | Stamped nat         \<comment> \<open>the pid is written\<close>
  | Checked nat         \<comment> \<open>nobody answered on the socket\<close>
  | Cleared nat         \<comment> \<open>a stale socket file is removed\<close>
  | Serving nat nat     \<comment> \<open>bound: the lock's inode and the socket's\<close>
  | Closing nat         \<comment> \<open>the listener is closed\<close>
  | Releasing nat       \<comment> \<open>about to remove the lock file\<close>
  | Unlinked nat        \<comment> \<open>about to close it, which drops the flock\<close>
  | Done

record inst_os =
  io_lock :: "nat option"
  io_lock_owner :: "nat \<Rightarrow> nat option"
  io_lock_pid :: "nat \<Rightarrow> nat option"
  io_sock :: "nat option"
  io_sock_owner :: "nat \<Rightarrow> nat option"
  io_next :: nat

text \<open>\<open>socketAnswers\<close>: a file on the path and somebody listening on it.\<close>

definition socket_answers :: "bool \<Rightarrow> inst_os \<Rightarrow> bool" where
  "socket_answers ok w = (case io_sock w of None \<Rightarrow> False
     | Some s \<Rightarrow> if io_sock_owner w s = None then False else ok)"

text \<open>\<open>acquireInstanceLock\<close>: open, flock, stamp. Who meets a held lock closes the file and is refused.\<close>

fun acquire_step :: "nat \<Rightarrow> bool \<Rightarrow> pc \<Rightarrow> inst_os \<Rightarrow> pc \<times> inst_os" where
  "acquire_step p ok Idle w =
     (if \<not> ok then (Done, w)
      else case io_lock w of
        Some i \<Rightarrow> (Opened i, w)
      | None \<Rightarrow> (Opened (io_next w), w\<lparr> io_lock := Some (io_next w), io_next := Suc (io_next w) \<rparr>))"
| "acquire_step p ok (Opened i) w =
     (if ok \<and> io_lock_owner w i = None then (Locked i, w\<lparr> io_lock_owner := (io_lock_owner w)(i := Some p) \<rparr>) else (Done, w))"
| "acquire_step p ok (Locked i) w = (Stamped i, if ok then w\<lparr> io_lock_pid := (io_lock_pid w)(i := Some p) \<rparr> else w)"
| "acquire_step p ok c w = (c, w)"

text \<open>\<open>releaseLock\<close>: remove the file by its path, then close it.\<close>

fun release_step :: "nat \<Rightarrow> bool \<Rightarrow> pc \<Rightarrow> inst_os \<Rightarrow> pc \<times> inst_os" where
  "release_step p ok (Releasing i) w = (Unlinked i, if ok then w\<lparr> io_lock := None \<rparr> else w)"
| "release_step p ok (Unlinked i) w = (Done, w\<lparr> io_lock_owner := (io_lock_owner w)(i := None) \<rparr>)"
| "release_step p ok c w = (c, w)"

text \<open>The rest of \<open>Start\<close>, with the lock held.\<close>

fun start_step :: "nat \<Rightarrow> bool \<Rightarrow> pc \<Rightarrow> inst_os \<Rightarrow> pc \<times> inst_os" where
  "start_step p ok (Stamped i) w = (if socket_answers ok w then Releasing i else Checked i, w)"
| "start_step p ok (Checked i) w = (Cleared i, if ok then w\<lparr> io_sock := None \<rparr> else w)"
| "start_step p ok (Cleared i) w =
     (if ok \<and> io_sock w = None
      then (Serving i (io_next w), w\<lparr> io_sock := Some (io_next w), io_sock_owner := (io_sock_owner w)(io_next w := Some p),
              io_next := Suc (io_next w) \<rparr>)
      else (Releasing i, w))"
| "start_step p ok c w = acquire_step p ok c w"

text \<open>\<open>Stop\<close> of a bound server: closing a Go unix listener removes its path too, then \<open>Remove\<close> again.\<close>

fun stop_step :: "nat \<Rightarrow> bool \<Rightarrow> pc \<Rightarrow> inst_os \<Rightarrow> pc \<times> inst_os" where
  "stop_step p ok (Serving i s) w = (Closing i, w\<lparr> io_sock := (if ok then None else io_sock w),
     io_sock_owner := (io_sock_owner w)(s := None) \<rparr>)"
| "stop_step p ok (Closing i) w = (Releasing i, if ok then w\<lparr> io_sock := None \<rparr> else w)"
| "stop_step p ok c w = release_step p ok c w"

definition pc_step :: "nat \<Rightarrow> bool \<Rightarrow> pc \<Rightarrow> inst_os \<Rightarrow> pc \<times> inst_os" where
  "pc_step p ok c w = (case c of
     Serving i s \<Rightarrow> stop_step p ok c w | Closing i \<Rightarrow> stop_step p ok c w
   | Releasing i \<Rightarrow> stop_step p ok c w | Unlinked i \<Rightarrow> stop_step p ok c w
   | _ \<Rightarrow> start_step p ok c w)"

text \<open>The lock a process has open, and the socket it listens on.\<close>

fun held :: "pc \<Rightarrow> nat option" where
  "held Idle = None"
| "held (Opened i) = None"
| "held Done = None"
| "held (Locked i) = Some i"
| "held (Stamped i) = Some i"
| "held (Checked i) = Some i"
| "held (Cleared i) = Some i"
| "held (Serving i s) = Some i"
| "held (Closing i) = Some i"
| "held (Releasing i) = Some i"
| "held (Unlinked i) = Some i"

text \<open>A process that dies: the kernel drops its flock and closes its listener; the files stay.\<close>

definition crash :: "pc \<Rightarrow> inst_os \<Rightarrow> pc \<times> inst_os" where
  "crash c w = (Done,
     (case c of Serving i s \<Rightarrow> (\<lambda>v. v\<lparr> io_sock_owner := (io_sock_owner v)(s := None) \<rparr>) | _ \<Rightarrow> id)
     (case held c of None \<Rightarrow> w | Some i \<Rightarrow> w\<lparr> io_lock_owner := (io_lock_owner w)(i := None) \<rparr>))"

record inst =
  in_os :: inst_os
  in_procs :: "pc list"

datatype inst_act = Run bool | Crash

definition inst_act :: "nat \<times> inst_act \<Rightarrow> inst \<Rightarrow> inst" where
  "inst_act = (\<lambda>(p, a) w. if length (in_procs w) \<le> p then w
     else case (case a of Run ok \<Rightarrow> pc_step p ok (in_procs w ! p) (in_os w) | Crash \<Rightarrow> crash (in_procs w ! p) (in_os w)) of
       (c, v) \<Rightarrow> \<lparr> in_os = v, in_procs = (in_procs w)[p := c] \<rparr>)"

definition inst_run :: "(nat \<times> inst_act) list \<Rightarrow> inst \<Rightarrow> inst" where
  "inst_run acts w = fold inst_act acts w"

text \<open>Daemons that have not started yet, over whatever files earlier daemons left.\<close>

definition inst_init :: "nat \<Rightarrow> nat option \<Rightarrow> nat option \<Rightarrow> nat \<Rightarrow> inst" where
  "inst_init n lock sock nxt = \<lparr> in_os = \<lparr> io_lock = lock, io_lock_owner = (\<lambda>i. None), io_lock_pid = (\<lambda>i. None),
     io_sock = sock, io_sock_owner = (\<lambda>s. None), io_next = nxt \<rparr>, in_procs = replicate n Idle \<rparr>"

fun serving :: "pc \<Rightarrow> bool" where
  "serving (Serving i s) = True"
| "serving c = False"

text \<open>No lock file is removed while another daemon has it open and has not locked it yet.\<close>

definition clean_unlink :: "nat \<times> inst_act \<Rightarrow> inst \<Rightarrow> bool" where
  "clean_unlink = (\<lambda>(p, a) w. if length (in_procs w) \<le> p then True
     else case (a, in_procs w ! p) of
       (Run ok, Releasing i) \<Rightarrow> list_all (\<lambda>c. c \<noteq> Opened i) (in_procs w)
     | _ \<Rightarrow> True)"

fun no_race :: "(nat \<times> inst_act) list \<Rightarrow> inst \<Rightarrow> bool" where
  "no_race [] w = True"
| "no_race (a # as) w = (clean_unlink a w \<and> no_race as (inst_act a w))"

subsection \<open>The invariant\<close>

text \<open>Beside an unlinked one, every lock in use is the one at the path, and whoever holds it owns it.\<close>

fun proc_ok :: "inst_os \<Rightarrow> nat \<Rightarrow> pc \<Rightarrow> bool" where
  "proc_ok v q Idle = True"
| "proc_ok v q Done = True"
| "proc_ok v q (Opened i) = (io_lock v = Some i)"
| "proc_ok v q (Unlinked i) = (io_lock_owner v i = Some q)"
| "proc_ok v q (Serving i s) = (io_lock v = Some i \<and> io_lock_owner v i = Some q \<and> io_sock v = Some s \<and> io_sock_owner v s = Some q)"
| "proc_ok v q (Locked i) = (io_lock v = Some i \<and> io_lock_owner v i = Some q)"
| "proc_ok v q (Stamped i) = (io_lock v = Some i \<and> io_lock_owner v i = Some q)"
| "proc_ok v q (Checked i) = (io_lock v = Some i \<and> io_lock_owner v i = Some q)"
| "proc_ok v q (Cleared i) = (io_lock v = Some i \<and> io_lock_owner v i = Some q)"
| "proc_ok v q (Closing i) = (io_lock v = Some i \<and> io_lock_owner v i = Some q)"
| "proc_ok v q (Releasing i) = (io_lock v = Some i \<and> io_lock_owner v i = Some q)"

definition inst_ok :: "inst \<Rightarrow> bool" where
  "inst_ok w \<longleftrightarrow>
     (\<forall>q < length (in_procs w). proc_ok (in_os w) q (in_procs w ! q)) \<and>
     (\<forall>i. io_lock (in_os w) = Some i \<longrightarrow> i < io_next (in_os w)) \<and>
     (\<forall>i q. io_lock_owner (in_os w) i = Some q \<longrightarrow> i < io_next (in_os w))"

lemma inst_ok_init: "(case lock of None \<Rightarrow> True | Some i \<Rightarrow> i < nxt) \<Longrightarrow> inst_ok (inst_init n lock sock nxt)"
  by (auto simp: inst_ok_def inst_init_def)

text \<open>What one process may change without disturbing the others.\<close>

lemma proc_ok_frame:
  assumes "proc_ok v q c"
    and "\<And>i. held c = Some i \<Longrightarrow> io_lock_owner v i = Some q \<Longrightarrow> io_lock_owner u i = Some q"
    and "\<And>i. io_lock v = Some i \<Longrightarrow> c = Opened i \<or> (held c = Some i \<and> c \<noteq> Unlinked i) \<Longrightarrow> io_lock u = Some i"
    and "\<And>i s. c = Serving i s \<Longrightarrow> io_lock v = Some i \<Longrightarrow> io_lock_owner v i = Some q \<Longrightarrow> io_sock v = Some s \<Longrightarrow>
      io_sock_owner v s = Some q \<Longrightarrow> io_sock u = Some s \<and> io_sock_owner u s = Some q"
  shows "proc_ok u q c"
  using assms by (cases c) auto

lemma inst_ok_step:
  assumes ok: "inst_ok w" and clean: "clean_unlink a w"
  shows "inst_ok (inst_act a w)"
proof -
  obtain p x where a: "a = (p, x)" by fastforce
  let ?v = "in_os w" and ?c = "in_procs w ! p"
  show ?thesis
  proof (cases "length (in_procs w) \<le> p")
    case True
    then show ?thesis using ok by (simp add: a inst_act_def)
  next
    case False
    then have p: "p < length (in_procs w)" by simp
    obtain c' v' where e: "(case x of Run k \<Rightarrow> pc_step p k ?c ?v | Crash \<Rightarrow> crash ?c ?v) = (c', v')" by fastforce
    have act: "inst_act a w = \<lparr> in_os = v', in_procs = (in_procs w)[p := c'] \<rparr>"
      using p e by (simp add: a inst_act_def)
    have others: "proc_ok ?v q (in_procs w ! q)" if "q < length (in_procs w)" for q
      using ok that by (simp add: inst_ok_def)
    have fresh: "io_lock ?v \<noteq> Some (io_next ?v)" "\<And>i. io_lock_owner ?v i \<noteq> None \<Longrightarrow> i < io_next ?v"
      using ok by (auto simp: inst_ok_def)
    have me: "proc_ok v' p c'"
      using e others [OF p] fresh
      by (cases x; cases ?c) (auto simp: pc_step_def crash_def split: if_splits option.splits)
    have them: "proc_ok v' q (in_procs w ! q)" if q: "q < length (in_procs w)" "q \<noteq> p" for q
      using others [OF q(1)]
    proof (rule proc_ok_frame)
      show "io_lock_owner v' i = Some q" if "held (in_procs w ! q) = Some i" "io_lock_owner ?v i = Some q" for i
        using e others [OF p] that q by (cases x; cases ?c) (auto simp: pc_step_def crash_def split: if_splits option.splits)
      show "io_lock v' = Some i"
        if "io_lock ?v = Some i" "in_procs w ! q = Opened i \<or> (held (in_procs w ! q) = Some i \<and> in_procs w ! q \<noteq> Unlinked i)" for i
        using e others [OF p] others [OF q(1)] that q clean p
        by (cases x; cases ?c; cases "in_procs w ! q")
          (auto simp: a pc_step_def crash_def clean_unlink_def list_all_length split: if_splits option.splits)
      show "io_sock v' = Some s \<and> io_sock_owner v' s = Some q"
        if "in_procs w ! q = Serving i s" "io_lock ?v = Some i" "io_lock_owner ?v i = Some q" "io_sock ?v = Some s"
          "io_sock_owner ?v s = Some q" for i s
        using e others [OF p] that q by (cases x; cases ?c) (auto simp: pc_step_def crash_def split: if_splits option.splits)
    qed
    have "i < io_next v'" if "io_lock v' = Some i" for i
      using e ok that by (cases x; cases ?c) (auto simp: inst_ok_def pc_step_def crash_def split: if_splits option.splits)
    moreover have "i < io_next v'" if "io_lock_owner v' i = Some q" for i q
      using e ok others [OF p] that
      by (cases x; cases ?c) (auto simp: inst_ok_def pc_step_def crash_def less_SucI split: if_splits option.splits)
    moreover have "proc_ok v' q ((in_procs w)[p := c'] ! q)" if "q < length (in_procs w)" for q
      using me them [OF that] p by (cases "q = p") simp_all
    ultimately show ?thesis by (simp add: act inst_ok_def)
  qed
qed

lemma inst_ok_run: "no_race acts w \<Longrightarrow> inst_ok w \<Longrightarrow> inst_ok (inst_run acts w)"
proof (induction acts arbitrary: w)
  case (Cons a acts)
  then show ?case using inst_ok_step [of w a] by (simp add: inst_run_def)
qed (simp add: inst_run_def)

text \<open>
  C18. Exactly one daemon owns a socket path: from any files left behind, whatever calls fail and
  whichever daemons crash, two daemons never serve at once and the serving one's socket stays at the
  path, provided no lock file is removed between another daemon's open and its flock.
\<close>

theorem single_owner:
  assumes "no_race acts (inst_init n lock sock nxt)" "case lock of None \<Rightarrow> True | Some i \<Rightarrow> i < nxt"
    "w = inst_run acts (inst_init n lock sock nxt)" "p < length (in_procs w)" "in_procs w ! p = Serving i s"
  shows "io_sock (in_os w) = Some s \<and> io_sock_owner (in_os w) s = Some p \<and>
    (\<forall>q < length (in_procs w). serving (in_procs w ! q) \<longrightarrow> q = p)"
proof -
  have ok: "inst_ok w" using inst_ok_run [OF assms(1) inst_ok_init [OF assms(2)]] by (simp add: assms(3))
  have me: "proc_ok (in_os w) p (Serving i s)" using ok assms(4,5) by (metis inst_ok_def)
  have "q = p" if q: "q < length (in_procs w)" "serving (in_procs w ! q)" for q
  proof -
    obtain j t where c: "in_procs w ! q = Serving j t" using q(2) by (cases "in_procs w ! q") auto
    have "proc_ok (in_os w) q (Serving j t)" using ok q(1) c by (metis inst_ok_def)
    then show ?thesis using me by simp
  qed
  then show ?thesis using me by simp
qed

definition demo_handover :: "(nat \<times> inst_act) list" where
  "demo_handover = replicate 6 (0, Run True) @ [(1, Run True), (1, Run True), (0, Crash)] @ replicate 6 (2, Run True)"

lemma single_owner_witness:
  "let w = inst_run demo_handover (inst_init 3 None None 0) in
   in_procs w = [Done, Done, Serving 0 2] \<and> io_sock (in_os w) = Some 2 \<and>
   (\<forall>q < length (in_procs w). serving (in_procs w ! q) \<longrightarrow> q = 2)"
proof -
  let ?w = "inst_run demo_handover (inst_init 3 None None 0)"
  have pr: "in_procs ?w = [Done, Done, Serving 0 2]" by code_simp
  have nr: "no_race demo_handover (inst_init 3 None None 0)" by code_simp
  have "io_sock (in_os ?w) = Some 2 \<and> io_sock_owner (in_os ?w) 2 = Some 2 \<and>
      (\<forall>q < length (in_procs ?w). serving (in_procs ?w ! q) \<longrightarrow> q = 2)"
    by (rule single_owner [OF nr _ refl, of 2 0 2]) (simp_all add: pr)
  then show ?thesis unfolding Let_def using pr by blast
qed

definition demo_race :: "(nat \<times> inst_act) list" where
  "demo_race = replicate 6 (0, Run True) @ [(1, Run True)] @ replicate 4 (0, Run True) @
     replicate 4 (2, Run True) @ replicate 5 (1, Run True) @ replicate 2 (2, Run True)"

text \<open>
  Without that provision the law fails: a daemon that opens the lock file just before its holder
  unlinks it locks a file no path names, the next daemon locks a new one, and both serve; the first of
  them is alive and cannot be reached.
\<close>

lemma two_owners_reachable:
  "let w = inst_run demo_race (inst_init 3 None None 0) in
   in_procs w = [Done, Serving 0 3, Serving 2 4] \<and> io_sock (in_os w) = Some 4 \<and> io_sock_owner (in_os w) 3 = Some 1"
  by code_simp

end
