(* ===== verification/OrphanApps.thy ===== *)
theory OrphanApps
  imports Removal Safety Types
begin

text \<open>
  \<open>internal/modules/orphanapps\<close>: data left behind by applications that are no longer installed. \<open>mdfind\<close>
  (asked anew for each index), the home directory and \<open>statfs\<close> are arguments; formatted prose is rendered by a field.
  Lower-casing and trimming are those of ASCII.
\<close>

subsection \<open>The index of installed applications\<close>

record app =
  ap_path :: path
  ap_bundle :: string

record app_index =
  ix_id :: "string \<Rightarrow> path option"
  ix_token :: "string \<Rightarrow> path option"
  ix_degraded :: string

definition empty_index :: app_index where
  "empty_index = \<lparr> ix_id = Map.empty, ix_token = Map.empty, ix_degraded = [] \<rparr>"

definition generic_tokens :: "string list" where
  "generic_tokens = [''the'', ''app'', ''for'', ''and'', ''mac'', ''macos'', ''pro'', ''com'', ''org'', ''net'', ''io'', ''co'',
     ''dev'', ''desktop'', ''helper'', ''inc'', ''ltd'', ''llc'', ''beta'', ''lite'']"

text \<open>The tokens between runs of the separators. The code's split also gives empty tokens, which every
  user of it skips for their length.\<close>

fun tokens_acc :: "string \<Rightarrow> string \<Rightarrow> string list" where
  "tokens_acc w [] = (if w = [] then [] else [rev w])"
| "tokens_acc w (c # s) = (if c \<in> set '' -_.'' then (if w = [] then [] else [rev w]) @ tokens_acc [] s else tokens_acc (c # w) s)"

definition tokens :: "string \<Rightarrow> string list" where
  "tokens s = tokens_acc [] s"

definition add_token :: "string \<Rightarrow> path \<Rightarrow> (string \<Rightarrow> path option) \<Rightarrow> string \<Rightarrow> path option" where
  "add_token tok p m = (if length tok < 3 \<or> tok \<in> set generic_tokens then m
     else if m tok \<noteq> None then m else m(tok \<mapsto> p))"

definition add_app :: "app \<Rightarrow> app_index \<Rightarrow> app_index" where
  "add_app a ix =
     (let i1 = (if ap_bundle a = [] then ix
                else let id = to_lower (ap_bundle a) in
                  ix\<lparr> ix_id := (ix_id ix)(id \<mapsto> ap_path a), ix_token := fold (\<lambda>t. add_token t (ap_path a)) (tokens id) (ix_token ix) \<rparr>);
          lower = to_lower (trim_suffix (base_path (ap_path a)) ''.app'')
      in i1\<lparr> ix_token := fold (\<lambda>t. add_token t (ap_path a)) (tokens lower) ((ix_token i1)(lower \<mapsto> ap_path a)) \<rparr>)"

definition new_index :: "app list \<Rightarrow> app_index" where
  "new_index apps = fold add_app apps empty_index"

definition meaningful :: "string \<Rightarrow> bool" where
  "meaningful tok \<longleftrightarrow> \<not> (length tok < 3 \<or> tok \<in> set generic_tokens)"

definition index_lookup :: "app_index \<Rightarrow> string \<Rightarrow> path option" where
  "index_lookup ix name =
     (let lower = to_lower (trim_space name) in
      if lower = [] then None
      else case ix_id ix lower of Some p \<Rightarrow> Some p
      | None \<Rightarrow> (case ix_token ix lower of Some p \<Rightarrow> Some p
          | None \<Rightarrow> (case first_such meaningful (tokens lower) of None \<Rightarrow> None | Some t \<Rightarrow> ix_token ix t)))"

definition app_folders :: "path list" where
  "app_folders = [''/Applications'', ''/Applications/Utilities'', ''/System/Applications'', ''/System/Applications/Utilities'']"

definition mdfind_sep :: string where
  "mdfind_sep = ''kMDItemCFBundleIdentifier = ''"

text \<open>\<open>strings.Index\<close> as the text before and after the first occurrence.\<close>

fun cut_at :: "string \<Rightarrow> string \<Rightarrow> (string \<times> string) option" where
  "cut_at sub [] = (if sub = [] then Some ([], []) else None)"
| "cut_at sub (c # s) = (case cut_prefix (c # s) sub of Some r \<Rightarrow> Some ([], r)
     | None \<Rightarrow> map_option (\<lambda>(a, b). (c # a, b)) (cut_at sub s))"

definition parse_mdfind :: "string \<Rightarrow> app list" where
  "parse_mdfind out = concat (map (\<lambda>line. case cut_at mdfind_sep line of None \<Rightarrow> []
     | Some (a, b) \<Rightarrow> let p = trim_space a; id = trim_space b in
         if p = [] then [] else [\<lparr> ap_path = p, ap_bundle = (if id = ''(null)'' then [] else id) \<rparr>])
     (split_on (CHR 0x0A) out))"

text \<open>Why the bundle ids are unknown: no \<open>mdfind\<close>, it failed, or it found nothing.\<close>

definition mdfind_apps :: "(string + string) \<Rightarrow> string + app list" where
  "mdfind_apps out = try_bind out (\<lambda>s. let apps = parse_mdfind s in
     if apps = [] then Inl ''mdfind returned no application bundles (Spotlight indexing off?)'' else Inr apps)"

fun list_folders :: "path list \<Rightarrow> app_index \<Rightarrow> machine \<Rightarrow> app_index \<times> machine" where
  "list_folders [] ix m = (ix, m)"
| "list_folders (d # ds) ix m = (case os_read_dir d m of
     (None, m1) \<Rightarrow> list_folders ds ix m1
   | (Some es, m1) \<Rightarrow> list_folders ds (fold (\<lambda>(name, nd) i. if has_suffix name ''.app''
        then add_app \<lparr> ap_path = join_path [d, name], ap_bundle = [] \<rparr> i else i) es ix) m1)"

text \<open>\<open>BuildIndex\<close>; \<open>mdfind\<close> is run anew by every call, so its answer is a function of the machine at that moment.\<close>

definition build_index :: "(machine \<Rightarrow> string + string) \<Rightarrow> path option \<Rightarrow> machine \<Rightarrow> app_index \<times> machine" where
  "build_index mdfind home m =
     (let (apps, deg) = (case mdfind_apps (mdfind m) of Inr as \<Rightarrow> (as, [])
            | Inl e \<Rightarrow> ([], ''mdfind failed ('' @ e @ '') '' @ em_dash @ '' bundle ids unknown, name matching only''))
      in list_folders (app_folders @ (case home of None \<Rightarrow> [] | Some h \<Rightarrow> [join_path [h, ''Applications'']]))
           (fold add_app apps (empty_index\<lparr> ix_degraded := deg \<rparr>)) m)"

subsection \<open>Candidates\<close>

datatype app_text = TxtReason string string int | TxtTime time | TxtIdle duration

record apps =
  am_roots :: "path list"
  am_curated :: "(path \<times> string) list"
  am_index :: "machine \<Rightarrow> app_index \<times> machine"
  am_safety :: safety
  am_min_size :: int
  am_idle :: duration
  am_uid :: int
  am_now :: "machine \<Rightarrow> time"
  am_cwd :: "path option"
  am_opener :: opener
  am_statfs :: "path \<Rightarrow> machine \<Rightarrow> (int \<times> int) option \<times> machine"
  am_text :: "app_text \<Rightarrow> string"

definition apps_min_size :: int where "apps_min_size = 50 * 2 ^ 20"
definition apps_idle_for :: duration where "apps_idle_for = 30 * 24 * hour"

definition default_curated :: "path \<Rightarrow> (path \<times> string) list" where
  "default_curated home = [(join_path [home, ''DevKinsta''], ''DevKinsta''), (join_path [home, ''Local Sites''], ''Local''),
     (join_path [home, ''.docker''], ''Docker'')]"

definition default_library_roots :: "path \<Rightarrow> path list" where
  "default_library_roots home = [join_path [home, ''Library'', ''Application Support''], join_path [home, ''Library'', ''Containers''],
     join_path [home, ''Library'', ''Caches'']]"

definition new_apps :: "apps \<Rightarrow> path list \<Rightarrow> (path \<times> string) list \<Rightarrow> apps" where
  "new_apps env roots curated = env\<lparr> am_roots := roots, am_curated := curated, am_safety := new_safety (am_cwd env) roots [],
     am_min_size := apps_min_size, am_idle := apps_idle_for \<rparr>"

definition never_flag :: "string list" where
  "never_flag = [''addressbook'', ''animoji'', ''app store'', ''apple'', ''callhistorydb'',
    ''callhistorytransactions'', ''clouddocs'', ''cloudkit'', ''controlcenter'',
    ''crashreporter'', ''differentialprivacy'', ''diskimages'', ''dock'',
    ''facetime'', ''fileprovider'', ''icloud'', ''knowledge'', ''mobilesync'',
    ''syncservices'', ''siri'', ''spotlight'', ''developer'', ''xcode'',
    ''instruments'', ''caches'', ''homebrew'', ''pip'', ''go-build'',
    ''yarn'', ''pnpm'', ''npm'', ''node-gyp'', ''typescript'', ''composer'',
    ''electron'', ''cypress'', ''ms-playwright'', ''deno'', ''bun'', ''uv'',
    ''cargo'', ''rustup'', ''pypoetry'', ''huggingface'', ''torch'',
    ''temporaryitems'', ''keychain'', ''mail'', ''messages'', ''photos'',
    ''notes'', ''reminders'', ''calendar'', ''contacts'', ''music'']"

datatype keyed_by = ByBundleId | ByName | ByCurated

fun keyed_name :: "keyed_by \<Rightarrow> string" where
  "keyed_name ByBundleId = ''bundle-id''"
| "keyed_name ByName = ''name''"
| "keyed_name ByCurated = ''curated''"

record candidate =
  cd_path :: path
  cd_keyed :: keyed_by
  cd_key :: string

definition excluded_app :: "string \<Rightarrow> bool" where
  "excluded_app name \<longleftrightarrow> (let lower = to_lower name in
     has_prefix lower ''.'' \<or> has_prefix lower ''com.apple.'' \<or> lower \<in> set never_flag)"

definition name_candidate :: "path \<Rightarrow> string \<Rightarrow> candidate" where
  "name_candidate p name = \<lparr> cd_path = p, cd_keyed = (if contains name ''.'' then ByBundleId else ByName), cd_key = name \<rparr>"

fun root_candidates :: "path list \<Rightarrow> machine \<Rightarrow> candidate list \<times> machine" where
  "root_candidates [] m = ([], m)"
| "root_candidates (r # rs) m = (case os_read_dir r m of
     (None, m1) \<Rightarrow> root_candidates rs m1
   | (Some es, m1) \<Rightarrow> (case root_candidates rs m1 of (cs, m2) \<Rightarrow>
       (map (\<lambda>(name, nd). name_candidate (join_path [r, name]) name)
          (filter (\<lambda>(name, nd). nd_kind nd = KDir \<and> \<not> excluded_app name) es) @ cs, m2)))"

fun curated_candidates :: "(path \<times> string) list \<Rightarrow> machine \<Rightarrow> candidate list \<times> machine" where
  "curated_candidates [] m = ([], m)"
| "curated_candidates ((p, a) # cs) m = (case os_lstat p m of (r, m1) \<Rightarrow>
     (case curated_candidates cs m1 of (out, m2) \<Rightarrow>
        ((case r of None \<Rightarrow> out | Some nd \<Rightarrow> if nd_kind nd = KDir then \<lparr> cd_path = p, cd_keyed = ByCurated, cd_key = a \<rparr> # out else out), m2)))"

definition candidates :: "apps \<Rightarrow> machine \<Rightarrow> candidate list \<times> machine" where
  "candidates a m = (case root_candidates (am_roots a) m of (cs, m1) \<Rightarrow>
     (case curated_candidates (am_curated a) m1 of (ds, m2) \<Rightarrow> (cs @ ds, m2)))"

subsection \<open>Judgement\<close>

text \<open>\<open>statWalk\<close>: an error at the root fails it, any other entry that cannot be read is skipped.\<close>

fun stat_visits :: "loc \<Rightarrow> visit list \<Rightarrow> int \<Rightarrow> time \<Rightarrow> (int \<times> time) option" where
  "stat_visits rt [] b t = Some (b, t)"
| "stat_visits rt (RootErr # vs) b t = None"
| "stat_visits rt (ListErr k # vs) b t = (if k = rt then None else stat_visits rt vs b t)"
| "stat_visits rt (Visit k nd i # vs) b t =
     (if i \<noteq> InfoOk then stat_visits rt vs b t
      else stat_visits rt vs (if nd_kind nd = KFile then wrap64 (b + wrap64 (nd_blocks nd * 512)) else b) (max t (nd_mtime nd)))"

definition stat_walk :: "path \<Rightarrow> machine \<Rightarrow> (int \<times> time) option \<times> machine" where
  "stat_walk p m = (case walk_dir p m of (vs, m1) \<Rightarrow>
     (stat_visits (case lloc (mc_fs m) p of None \<Rightarrow> [] | Some q \<Rightarrow> q) vs 0 zero_time, m1))"

definition app_evidence :: "apps \<Rightarrow> candidate \<Rightarrow> app_index \<Rightarrow> time \<Rightarrow> duration \<Rightarrow> tree_size \<Rightarrow> string \<Rightarrow> string option" where
  "app_evidence a c ix newest idle ts =
     (let put = (\<lambda>b k v e. if b then e(k \<mapsto> v) else e);
          fiction = wrap64 (ts_blocks ts - ts_unique ts); sparse = wrap64 (ts_logical ts - ts_unique ts)
      in put (ix_degraded ix \<noteq> []) ''resolver'' (ix_degraded ix)
        (put (0 < sparse) ''sparse_fiction_bytes'' (itoa sparse)
         (put (0 < fiction) ''du_fiction_bytes'' (itoa fiction)
          [''keyed_by'' \<mapsto> keyed_name (cd_keyed c), ''expected_app'' \<mapsto> cd_key c,
           ''reason'' \<mapsto> am_text a (TxtReason (cd_key c) (keyed_name (cd_keyed c)) (trunc_rat (fl (hours_f idle / 24)))),
           ''newest_mtime'' \<mapsto> am_text a (TxtTime newest), ''idle'' \<mapsto> am_text a (TxtIdle idle),
           ''unique_allocated_bytes'' \<mapsto> itoa (ts_unique ts), ''blocks_bytes'' \<mapsto> itoa (ts_blocks ts),
           ''logical_bytes'' \<mapsto> itoa (ts_logical ts),
           ''suggestion'' \<mapsto> ''Delete '' @ em_dash @ '' '' @ cd_key c @ '' is not installed'']))) "

definition inspect_app :: "apps \<Rightarrow> candidate \<Rightarrow> app_index \<Rightarrow> machine \<Rightarrow> item option \<times> machine" where
  "inspect_app a c ix m =
     (if index_lookup ix (cd_key c) \<noteq> None then (None, m)
      else case os_lstat (cd_path c) m of
        (None, m1) \<Rightarrow> (None, m1)
      | (Some nd, m1) \<Rightarrow>
          if nd_kind nd \<noteq> KDir \<or> nd_uid nd \<noteq> am_uid a then (None, m1)
          else case stat_walk (cd_path c) m1 of
            (None, m2) \<Rightarrow> (None, m2)
          | (Some (blocks, newest), m2) \<Rightarrow>
              if blocks < am_min_size a then (None, m2)
              else let idle = sub_time (am_now a m2) newest in
                if idle < am_idle a then (None, m2)
                else case unique_allocated (am_opener a) [cd_path c] m2 of
                  (None, m3) \<Rightarrow> (None, m3)
                | (Some ts, m3) \<Rightarrow>
                    if ts_unique ts < am_min_size a then (None, m3)
                    else (Some \<lparr> it_path = cd_path c, it_size = ts_unique ts, it_evidence = app_evidence a c ix newest idle ts \<rparr>, m3))"

text \<open>The context is polled once per candidate; a scan cut short gives what it has.\<close>

fun scan_candidates :: "apps \<Rightarrow> (nat \<Rightarrow> bool) \<Rightarrow> nat \<Rightarrow> app_index \<Rightarrow> candidate list \<Rightarrow> report \<Rightarrow> machine \<Rightarrow> (report \<times> bool) \<times> machine" where
  "scan_candidates a stop n ix [] rep m = ((rep, True), m)"
| "scan_candidates a stop n ix (c # cs) rep m =
     (if stop n then ((rep, False), m)
      else case inspect_app a c ix m of
        (None, m1) \<Rightarrow> scan_candidates a stop (Suc n) ix cs rep m1
      | (Some it, m1) \<Rightarrow> scan_candidates a stop (Suc n) ix cs
          (rep\<lparr> rp_items := rp_items rep @ [it], rp_total := wrap64 (rp_total rep + it_size it) \<rparr>) m1)"

definition apps_scan :: "apps \<Rightarrow> (nat \<Rightarrow> bool) \<Rightarrow> machine \<Rightarrow> (report \<times> bool) \<times> machine" where
  "apps_scan a stop m = (case am_index a m of (ix, m1) \<Rightarrow> (case candidates a m1 of (cs, m2) \<Rightarrow>
     scan_candidates a stop 0 ix cs \<lparr> rp_module = ''apps'', rp_items = [], rp_total = 0 \<rparr> m2))"

definition apps_plan :: "report \<Rightarrow> mod_action list" where
  "apps_plan r = map (\<lambda>it. \<lparr> ma_module = ''apps'', ma_op = ''delete'', ma_target = it_path it, ma_dest = [], ma_size = it_size it,
     ma_risk = RiskMedium \<rparr>) (rp_items r)"

definition candidate_for :: "apps \<Rightarrow> path \<Rightarrow> candidate option" where
  "candidate_for a target = (case abs_path (am_cwd a) target of None \<Rightarrow> None
     | Some ab \<Rightarrow>
         let q = clean_path ab in
         case first_such (\<lambda>(p, app). clean_path p = q) (am_curated a) of
           Some (p, app) \<Rightarrow> Some \<lparr> cd_path = q, cd_keyed = ByCurated, cd_key = app \<rparr>
         | None \<Rightarrow>
             let name = base_path q in
             if excluded_app name then None
             else if list_ex (\<lambda>r. dir_path q = clean_path r) (am_roots a) then Some (name_candidate q name)
             else None)"

datatype app_err = AppUnsupported string | AppNoCandidate | AppDenied deny | AppNotOrphaned | AppNotRemoved

definition remove_app :: "path \<Rightarrow> machine \<Rightarrow> app_err option \<times> machine" where
  "remove_app p m = (case os_remove_all p m of (None, m1) \<Rightarrow> (Some AppNotRemoved, m1) | (Some _, m1) \<Rightarrow> (None, m1))"

definition apps_apply :: "apps \<Rightarrow> mod_action \<Rightarrow> machine \<Rightarrow> (int \<times> app_err freed_err option) \<times> machine" where
  "apps_apply a act m =
     (if ma_op act \<noteq> ''delete'' then ((0, Some (ActionFailed (AppUnsupported (ma_op act)))), m)
      else case candidate_for a (ma_target act) of
        None \<Rightarrow> ((0, Some (ActionFailed AppNoCandidate)), m)
      | Some c \<Rightarrow>
          (case (if cd_keyed c = ByCurated then None else can_delete (am_cwd a) (am_safety a) (cd_path c)) of
             Some d \<Rightarrow> ((0, Some (ActionFailed (AppDenied d))), m)
           | None \<Rightarrow> (case am_index a m of (ix, m1) \<Rightarrow>
               (case inspect_app a c ix m1 of
                  (None, m2) \<Rightarrow> ((0, Some (ActionFailed AppNotOrphaned)), m2)
                | (Some it, m2) \<Rightarrow> (case freed_by_delete (am_statfs a) (dir_path (cd_path c)) (remove_app (cd_path c)) m2 of
                    ((freed, Some e), m3) \<Rightarrow> ((0, Some e), m3)
                  | ((freed, None), m3) \<Rightarrow> ((freed, None), m3))))))"

subsection \<open>What is deleted was orphaned\<close>

definition orphaned :: "apps \<Rightarrow> candidate \<Rightarrow> fs \<Rightarrow> bool" where
  "orphaned a c f \<longleftrightarrow>
     (\<exists>m ix m1. mc_fs m = f \<and> am_index a m = (ix, m1) \<and> index_lookup ix (cd_key c) = None) \<and>
     (\<exists>nd. lstat f (cd_path c) = Some nd \<and> nd_kind nd = KDir \<and> nd_uid nd = am_uid a) \<and>
     (\<exists>m b t m1. mc_fs m = f \<and> stat_walk (cd_path c) m = (Some (b, t), m1) \<and> am_min_size a \<le> b \<and> am_idle a \<le> sub_time (am_now a m1) t) \<and>
     (\<exists>m ts m1. mc_fs m = f \<and> unique_allocated (am_opener a) [cd_path c] m = (Some ts, m1) \<and> am_min_size a \<le> ts_unique ts)"

lemma os_lstat_SomeD: "os_lstat p m = (Some nd, m') \<Longrightarrow> lstat (mc_fs m) p = Some nd"
  by (auto simp: os_lstat_def sys_def Let_def split: if_splits option.splits)

lemma unique_allocatedD: "unique_allocated op ps m = (r, m') \<Longrightarrow> mc_fs m' = mc_fs m"
  by (auto simp: unique_allocated_def split: option.splits prod.splits dest: walk_rootsD)

lemma stat_walkD: "stat_walk p m = (r, m') \<Longrightarrow> mc_fs m' = mc_fs m"
  by (auto simp: stat_walk_def split: prod.splits dest: walk_dirD)

lemma inspect_app_fs:
  assumes "inspect_app a c ix m = (r, m')"
  shows "mc_fs m' = mc_fs m"
  using assms
  by (auto simp: inspect_app_def Let_def split: if_splits option.splits prod.splits
      dest!: os_lstatD stat_walkD unique_allocatedD)

lemma inspect_app_orphaned:
  assumes "quiet (am_index a)" "am_index a m0 = (ix, m)" "inspect_app a c ix m = (Some it, m')"
  shows "orphaned a c (mc_fs m)"
proof -
  have f0: "mc_fs m = mc_fs m0" by (rule quietD [OF assms(1,2)])
  obtain r m1 where l: "os_lstat (cd_path c) m = (r, m1)" by fastforce
  obtain s m2 where w: "stat_walk (cd_path c) m1 = (s, m2)" by fastforce
  obtain u m3 where u: "unique_allocated (am_opener a) [cd_path c] m2 = (u, m3)" by fastforce
  have fs: "mc_fs m1 = mc_fs m" "mc_fs m2 = mc_fs m" using os_lstatD [OF l] stat_walkD [OF w] by auto
  obtain nd b t ts where *: "index_lookup ix (cd_key c) = None" "r = Some nd" "nd_kind nd = KDir" "nd_uid nd = am_uid a"
      "s = Some (b, t)" "\<not> b < am_min_size a" "\<not> sub_time (am_now a m2) t < am_idle a" "u = Some ts" "\<not> ts_unique ts < am_min_size a"
    using assms(3) by (auto simp: inspect_app_def l w u Let_def split: if_splits option.splits)
  have "lstat (mc_fs m) (cd_path c) = Some nd" using os_lstat_SomeD l *(2) by blast
  then show ?thesis unfolding orphaned_def
    using * f0 assms(2) w u fs by (intro conjI) (force, force, force simp: not_less, force simp: not_less)
qed

text \<open>
  Whatever removing leftover application data deletes lies below one path that is a curated folder or,
  permitted by the guard, a direct child of an app-data root, and just before that no installed application
  resolved for its name, it was the user's own directory, large, and untouched for the idle time.
\<close>

lemma apps_apply_safe:
  assumes "quiet (am_index a)" "\<forall>p. quiet (am_statfs a p)" "apps_apply a act m = (r, m')" "mc_fs m' \<noteq> mc_fs m"
  shows "ma_op act = ''delete'' \<and> (\<exists>c. candidate_for a (ma_target act) = Some c \<and>
    (cd_keyed c = ByCurated \<or> can_delete (am_cwd a) (am_safety a) (cd_path c) = None) \<and>
    orphaned a c (mc_fs m) \<and> (removes (\<lambda>p f. p = cd_path c))\<^sup>*\<^sup>* (mc_fs m) (mc_fs m'))"
proof -
  have op: "ma_op act = ''delete''" using assms(3,4) by (auto simp: apps_apply_def split: if_splits)
  obtain c where c: "candidate_for a (ma_target act) = Some c"
    using assms(3,4) op by (cases "candidate_for a (ma_target act)") (auto simp: apps_apply_def)
  obtain ix m1 where ix: "am_index a m = (ix, m1)" by fastforce
  have f1: "mc_fs m1 = mc_fs m" by (rule quietD [OF assms(1) ix])
  obtain io m2 where i: "inspect_app a c ix m1 = (io, m2)" by fastforce
  have f2: "mc_fs m2 = mc_fs m" using inspect_app_fs [OF i] f1 by simp
  obtain fr m3 where fr: "freed_by_delete (am_statfs a) (dir_path (cd_path c)) (remove_app (cd_path c)) m2 = (fr, m3)" by fastforce
  have perm: "(if cd_keyed c = ByCurated then None else can_delete (am_cwd a) (am_safety a) (cd_path c)) = None"
    using assms(3,4) op c by (auto simp: apps_apply_def split: option.splits)
  obtain it where it: "io = Some it"
    using assms(3,4) op c perm ix i f2 by (cases io) (auto simp: apps_apply_def split: if_splits)
  have m': "m' = m3"
    using assms(3) op c perm ix i it fr by (auto simp: apps_apply_def split: if_splits option.splits prod.splits)
  have "orphaned a c (mc_fs m1)" using inspect_app_orphaned [OF assms(1) ix] i it by simp
  moreover have "(removes (\<lambda>p f. p = cd_path c))\<^sup>*\<^sup>* (mc_fs m2) (mc_fs m3)"
    using freed_removes [OF assms(2) fr, of "\<lambda>p f. p = cd_path c" "cd_path c"]
    by (simp add: remove_app_def split: prod.split option.split)
  ultimately show ?thesis using op c perm f1 f2 m' by (auto split: if_splits)
qed

definition demo_apps :: apps where
  "demo_apps = \<lparr> am_roots = [''/U/Lib''], am_curated = [(''/U/Kinsta'', ''Kinsta'')],
     am_index = (\<lambda>m. (new_index [\<lparr> ap_path = ''/Applications/Local.app'', ap_bundle = ''com.local'' \<rparr>], m)),
     am_safety = new_safety None [''/U/Lib''] [], am_min_size = 0, am_idle = apps_idle_for, am_uid = 501,
     am_now = (\<lambda>m. 100 * day), am_cwd = None, am_opener = (\<lambda>m k nd. None), am_statfs = (\<lambda>p m. (Some (1, 4096), m)),
     am_text = (\<lambda>t. []) \<rparr>"

definition demo_dir :: fnode where
  "demo_dir = root_node\<lparr> nd_uid := 501 \<rparr>"

definition demo_home :: machine where
  "demo_home = machine_of [([''U''], demo_dir), ([''U'', ''Kinsta''], demo_dir), ([''U'', ''Kinsta'', ''db''], demo_dir), ([''U'', ''Lib''], demo_dir)]"

definition demo_remove :: mod_action where
  "demo_remove = \<lparr> ma_module = ''apps'', ma_op = ''delete'', ma_target = ''/U/Kinsta'', ma_dest = [], ma_size = 0, ma_risk = RiskMedium \<rparr>"

lemma apps_apply_safe_witness:
  "\<exists>c. candidate_for demo_apps ''/U/Kinsta'' = Some c \<and> orphaned demo_apps c (mc_fs demo_home) \<and>
     map fst (mc_fs (snd (apps_apply demo_apps demo_remove demo_home))) = [[''U''], [''U'', ''Lib'']]"
proof -
  obtain r m' where a: "apps_apply demo_apps demo_remove demo_home = (r, m')" by fastforce
  have after: "map fst (mc_fs (snd (apps_apply demo_apps demo_remove demo_home))) = [[''U''], [''U'', ''Lib'']]" by code_simp
  moreover have "map fst (mc_fs demo_home) = [[''U''], [''U'', ''Kinsta''], [''U'', ''Kinsta'', ''db''], [''U'', ''Lib'']]" by code_simp
  ultimately have changed: "mc_fs m' \<noteq> mc_fs demo_home" by (auto simp: a)
  have "quiet (am_index demo_apps)" "\<forall>p. quiet (am_statfs demo_apps p)" by (simp_all add: demo_apps_def quiet_def)
  from apps_apply_safe [OF this a changed] show ?thesis using after by (auto simp: demo_remove_def)
qed

end
