(* ===== verification/CleanModules.thy ===== *)
theory CleanModules
  imports Removal Safety Types
begin

text \<open>
  The modules \<open>dev\<close>, \<open>caches\<close> and \<open>startup\<close> of \<open>internal/modules\<close> and \<open>core.DirSize\<close>
  (\<open>internal/core/walk.go\<close>). The context is a predicate polled with a count; \<open>launchctl\<close> is the runner
  the code injects, on a state of its own.
\<close>

subsection \<open>DirSize\<close>

fun dir_visits :: "visit list \<Rightarrow> int \<Rightarrow> int option" where
  "dir_visits [] n = Some n"
| "dir_visits (Visit k nd i # vs) n =
     (if nd_kind nd \<noteq> KFile then dir_visits vs n
      else case i of InfoOk \<Rightarrow> dir_visits vs (wrap64 (n + nd_size nd)) | InfoGone \<Rightarrow> dir_visits vs n | InfoFailed \<Rightarrow> None)"
| "dir_visits (v # vs) n = None"

definition dir_size :: "path \<Rightarrow> machine \<Rightarrow> int option \<times> machine" where
  "dir_size p m = (case walk_dir p m of (vs, m1) \<Rightarrow> (dir_visits vs 0, m1))"

text \<open>\<open>size, _ := DirSize(p)\<close>.\<close>

definition size_or_zero :: "int option \<Rightarrow> int" where
  "size_or_zero r = (case r of None \<Rightarrow> 0 | Some n \<Rightarrow> n)"

lemma dir_sizeD: "dir_size p m = (r, m') \<Longrightarrow> mc_fs m' = mc_fs m"
  by (auto simp: dir_size_def split: prod.splits dest: walk_dirD)

datatype module_err = BadOp string | ReportOnlyTarget | GuardDenied deny | NotRemoved | NotListed | Launchctl

subsection \<open>dev\<close>

record dev =
  de_roots :: "path list"
  de_safety :: safety
  de_cwd :: "path option"
  de_time :: "time \<Rightarrow> string"

definition dev_targets :: "string list" where
  "dev_targets = [''node_modules'', ''.next'', ''.turbo'', ''.cache'', ''dist'', ''build'']"

definition add_item :: "item \<Rightarrow> report \<Rightarrow> report" where
  "add_item it r = r\<lparr> rp_items := rp_items r @ [it], rp_total := wrap64 (rp_total r + it_size it) \<rparr>"

definition dev_item :: "dev \<Rightarrow> path \<Rightarrow> machine \<Rightarrow> item \<times> machine" where
  "dev_item d p m = (case dir_size p m of (s, m1) \<Rightarrow> (case os_stat p m1 of (st, m2) \<Rightarrow>
     let n = size_or_zero s; ev = [''size_bytes'' \<mapsto> itoa n] in
     (\<lparr> it_path = p, it_size = n, it_evidence = (case st of None \<Rightarrow> ev | Some nd \<Rightarrow> ev(''mtime'' \<mapsto> de_time d (nd_mtime nd))) \<rparr>, m2)))"

fun dev_visits :: "dev \<Rightarrow> (loc \<Rightarrow> path) \<Rightarrow> visit list \<Rightarrow> loc option \<Rightarrow> report \<Rightarrow> machine \<Rightarrow> report \<times> machine" where
  "dev_visits d name [] sk r m = (r, m)"
| "dev_visits d name (Visit k nd i # vs) sk r m =
     (if (case sk of None \<Rightarrow> False | Some q \<Rightarrow> strict_prefix q k) then dev_visits d name vs sk r m
      else if nd_kind nd = KDir \<and> base_path (name k) \<in> set dev_targets
      then (case dev_item d (name k) m of (it, m1) \<Rightarrow> dev_visits d name vs (Some k) (add_item it r) m1)
      else dev_visits d name vs sk r m)"
| "dev_visits d name (v # vs) sk r m = dev_visits d name vs sk r m"

definition visit_path :: "path \<Rightarrow> loc \<Rightarrow> loc \<Rightarrow> path" where
  "visit_path rt base k = (if k = base then rt else join_path (rt # drop (length base) k))"

fun dev_roots :: "dev \<Rightarrow> (nat \<Rightarrow> bool) \<Rightarrow> nat \<Rightarrow> path list \<Rightarrow> report \<Rightarrow> machine \<Rightarrow> (report \<times> bool) \<times> machine" where
  "dev_roots d stop n [] r m = ((r, True), m)"
| "dev_roots d stop n (rt # rts) r m =
     (if stop n then ((r, False), m)
      else case walk_dir rt m of (vs, m1) \<Rightarrow>
        (case dev_visits d (visit_path rt (case lloc (mc_fs m) rt of None \<Rightarrow> [] | Some q \<Rightarrow> q)) vs None r m1 of
           (r1, m2) \<Rightarrow> dev_roots d stop (Suc n) rts r1 m2))"

definition dev_scan :: "dev \<Rightarrow> (nat \<Rightarrow> bool) \<Rightarrow> machine \<Rightarrow> (report \<times> bool) \<times> machine" where
  "dev_scan d stop m = dev_roots d stop 0 (de_roots d) \<lparr> rp_module = ''dev'', rp_items = [], rp_total = 0 \<rparr> m"

definition dev_plan :: "report \<Rightarrow> mod_action list" where
  "dev_plan r = map (\<lambda>it. \<lparr> ma_module = ''dev'', ma_op = ''delete'', ma_target = it_path it, ma_dest = [],
     ma_size = it_size it, ma_risk = RiskLow \<rparr>) (rp_items r)"

definition dev_apply :: "dev \<Rightarrow> mod_action \<Rightarrow> machine \<Rightarrow> (module_err + int) \<times> machine" where
  "dev_apply d a m =
     (if ma_op a \<noteq> ''delete'' then (Inl (BadOp (ma_op a)), m)
      else case can_delete (de_cwd d) (de_safety d) (ma_target a) of
        Some e \<Rightarrow> (Inl (GuardDenied e), m)
      | None \<Rightarrow> (case dir_size (ma_target a) m of (s, m1) \<Rightarrow>
          (case os_remove_all (ma_target a) m1 of
             (None, m2) \<Rightarrow> (Inl NotRemoved, m2)
           | (Some _, m2) \<Rightarrow> (Inr (size_or_zero s), m2))))"

subsection \<open>caches\<close>

record caches =
  ch_targets :: "path list"
  ch_safety :: safety
  ch_report_only :: "(path \<times> string) list"
  ch_cwd :: "path option"

definition with_report_only :: "(path \<times> string) list \<Rightarrow> caches \<Rightarrow> caches" where
  "with_report_only items c = c\<lparr> ch_report_only := ch_report_only c @ items \<rparr>"

definition cache_item :: "path \<Rightarrow> (int \<Rightarrow> string \<Rightarrow> string option) \<Rightarrow> report \<Rightarrow> machine \<Rightarrow> report \<times> machine" where
  "cache_item p ev r m = (case os_stat p m of
     (None, m1) \<Rightarrow> (r, m1)
   | (Some nd, m1) \<Rightarrow> if nd_kind nd \<noteq> KDir then (r, m1)
       else case dir_size p m1 of (s, m2) \<Rightarrow>
         (add_item \<lparr> it_path = p, it_size = size_or_zero s, it_evidence = ev (size_or_zero s) \<rparr> r, m2))"

fun cache_items :: "(nat \<Rightarrow> bool) \<Rightarrow> nat \<Rightarrow> (path \<times> (int \<Rightarrow> string \<Rightarrow> string option)) list \<Rightarrow> report \<Rightarrow> machine \<Rightarrow> (report \<times> bool) \<times> machine" where
  "cache_items stop n [] r m = ((r, True), m)"
| "cache_items stop n ((p, ev) # ps) r m =
     (if stop n then ((r, False), m)
      else case cache_item p ev r m of (r1, m1) \<Rightarrow> cache_items stop (Suc n) ps r1 m1)"

definition caches_scan :: "caches \<Rightarrow> (nat \<Rightarrow> bool) \<Rightarrow> machine \<Rightarrow> (report \<times> bool) \<times> machine" where
  "caches_scan c stop m = cache_items stop 0
     (map (\<lambda>t. (t, \<lambda>n. [''size_bytes'' \<mapsto> itoa n])) (ch_targets c) @
      map (\<lambda>(p, s). (p, \<lambda>n. [''size_bytes'' \<mapsto> itoa n, ''report_only'' \<mapsto> ''true'', ''suggestion'' \<mapsto> s])) (ch_report_only c))
     \<lparr> rp_module = ''caches'', rp_items = [], rp_total = 0 \<rparr> m"

definition is_report_only :: "caches \<Rightarrow> path \<Rightarrow> bool" where
  "is_report_only c p \<longleftrightarrow> list_ex (\<lambda>(q, s). clean_path q = clean_path p) (ch_report_only c)"

definition caches_plan :: "caches \<Rightarrow> report \<Rightarrow> mod_action list" where
  "caches_plan c r = map (\<lambda>it. \<lparr> ma_module = ''caches'', ma_op = ''clear'', ma_target = it_path it, ma_dest = [],
     ma_size = it_size it, ma_risk = RiskLow \<rparr>)
     (filter (\<lambda>it. \<not> (it_size it = 0 \<or> ev_get (it_evidence it) ''report_only'' = ''true'' \<or> is_report_only c (it_path it))) (rp_items r))"

fun clear_entries :: "path \<Rightarrow> string list \<Rightarrow> machine \<Rightarrow> machine" where
  "clear_entries dir [] m = m"
| "clear_entries dir (n # ns) m = clear_entries dir ns (snd (os_remove_all (join_path [dir, n]) m))"

definition clear_contents :: "path \<Rightarrow> machine \<Rightarrow> unit option \<times> machine" where
  "clear_contents dir m = (case os_read_dir dir m of
     (None, m1) \<Rightarrow> (None, m1) | (Some es, m1) \<Rightarrow> (Some (), clear_entries dir (map fst es) m1))"

definition caches_apply :: "caches \<Rightarrow> mod_action \<Rightarrow> machine \<Rightarrow> (module_err + int) \<times> machine" where
  "caches_apply c a m =
     (if ma_op a \<noteq> ''clear'' then (Inl (BadOp (ma_op a)), m)
      else if is_report_only c (ma_target a) then (Inl ReportOnlyTarget, m)
      else case can_delete (ch_cwd c) (ch_safety c) (ma_target a) of
        Some e \<Rightarrow> (Inl (GuardDenied e), m)
      | None \<Rightarrow> (case dir_size (ma_target a) m of (before, m1) \<Rightarrow>
          (case clear_contents (ma_target a) m1 of
             (None, m2) \<Rightarrow> (Inl NotListed, m2)
           | (Some _, m2) \<Rightarrow> (Inr (size_or_zero before), m2))))"

subsection \<open>startup\<close>

text \<open>The runner answers whether the command succeeded.\<close>

type_synonym 's launchctl = "bool \<Rightarrow> string list \<Rightarrow> 's \<Rightarrow> bool \<times> 's"

record startup_config =
  su_user_agents :: "string list"
  su_system_agents :: "string list"
  su_system_daemons :: "string list"

definition startup_scan :: "startup_config \<Rightarrow> int \<Rightarrow> report" where
  "startup_scan c uid =
     (let add = (\<lambda>dom sudo l. \<lparr> it_path = dom @ ''/'' @ l, it_size = 0,
            it_evidence = (if sudo then [''domain'' \<mapsto> dom, ''sudo'' \<mapsto> ''true''] else [''domain'' \<mapsto> dom]) \<rparr>)
      in \<lparr> rp_module = ''startup'', rp_items = map (add (''gui/'' @ itoa uid) False) (su_user_agents c) @
           map (add ''system'' True) (su_system_agents c) @ map (add ''system'' True) (su_system_daemons c), rp_total = 0 \<rparr>)"

definition startup_plan :: "report \<Rightarrow> mod_action list" where
  "startup_plan r = map (\<lambda>it. \<lparr> ma_module = ''startup'', ma_op = ''disable'', ma_target = it_path it, ma_dest = [],
     ma_size = 0, ma_risk = RiskMedium \<rparr>) (rp_items r)"

definition is_system_domain :: "string \<Rightarrow> bool" where
  "is_system_domain t \<longleftrightarrow> 7 \<le> length t \<and> take 7 t = ''system/''"

definition startup_apply :: "'s launchctl \<Rightarrow> mod_action \<Rightarrow> 's \<Rightarrow> module_err option \<times> 's" where
  "startup_apply run a s =
     (let sudo = is_system_domain (ma_target a); t = ma_target a in
      if ma_op a = ''disable'' then
        (case run sudo [''launchctl'', ''bootout'', t] s of (b, s1) \<Rightarrow>
           (case run sudo [''launchctl'', ''disable'', t] s1 of (ok, s2) \<Rightarrow> (if ok then None else Some Launchctl, s2)))
      else if ma_op a = ''enable'' then
        (case run sudo [''launchctl'', ''enable'', t] s of (ok, s1) \<Rightarrow> (if ok then None else Some Launchctl, s1))
      else (Some (BadOp (ma_op a)), s))"

subsection \<open>What is deleted was permitted\<close>

lemma dev_apply_safe:
  assumes "dev_apply d a m = (r, m')" "mc_fs m' \<noteq> mc_fs m"
  shows "ma_op a = ''delete'' \<and> can_delete (de_cwd d) (de_safety d) (ma_target a) = None \<and>
    (removes (\<lambda>p f. p = ma_target a))\<^sup>*\<^sup>* (mc_fs m) (mc_fs m')"
proof -
  obtain s m1 where s: "dir_size (ma_target a) m = (s, m1)" by fastforce
  obtain e m2 where e: "os_remove_all (ma_target a) m1 = (e, m2)" by fastforce
  have "ma_op a = ''delete''" "can_delete (de_cwd d) (de_safety d) (ma_target a) = None" "m' = m2"
    using assms by (auto simp: dev_apply_def s e split: if_splits option.splits)
  then show ?thesis using remove_all_removes [OF e, of "\<lambda>p f. p = ma_target a"] dir_sizeD [OF s] by simp
qed

lemma clear_entries_removes:
  "(removes (\<lambda>p f. \<exists>n \<in> set ns. p = join_path [dir, n]))\<^sup>*\<^sup>* (mc_fs m) (mc_fs (clear_entries dir ns m))"
proof (induction ns arbitrary: m)
  case (Cons n ns)
  let ?P = "\<lambda>p f. \<exists>k \<in> set (n # ns). p = join_path [dir, k]"
  obtain r m1 where r: "os_remove_all (join_path [dir, n]) m = (r, m1)" by fastforce
  have "(removes ?P)\<^sup>*\<^sup>* (mc_fs m) (mc_fs m1)" by (rule remove_all_removes [OF r]) auto
  moreover have "(removes ?P)\<^sup>*\<^sup>* (mc_fs m1) (mc_fs (clear_entries dir ns m1))"
    by (rule removes_mono [OF Cons.IH]) auto
  ultimately show ?case by (simp add: r)
qed simp

text \<open>
  Clearing a cache deletes only entries listed in the permitted target itself, never a report-only
  target.
\<close>

lemma caches_apply_safe:
  assumes "caches_apply c a m = (r, m')" "mc_fs m' \<noteq> mc_fs m"
  shows "ma_op a = ''clear'' \<and> \<not> is_report_only c (ma_target a) \<and>
    can_delete (ch_cwd c) (ch_safety c) (ma_target a) = None \<and>
    (\<exists>es m1. fst (os_read_dir (ma_target a) m1) = Some es \<and> mc_fs m1 = mc_fs m \<and>
       (removes (\<lambda>p f. \<exists>n \<in> fst ` set es. p = join_path [ma_target a, n]))\<^sup>*\<^sup>* (mc_fs m) (mc_fs m'))"
proof -
  obtain s m1 where s: "dir_size (ma_target a) m = (s, m1)" by fastforce
  have f1: "mc_fs m1 = mc_fs m" by (rule dir_sizeD [OF s])
  obtain es m2 where e: "os_read_dir (ma_target a) m1 = (es, m2)" by fastforce
  have f2: "mc_fs m2 = mc_fs m" using os_read_dir_fs [of "ma_target a" m1] e f1 by simp
  have *: "ma_op a = ''clear''" "\<not> is_report_only c (ma_target a)" "can_delete (ch_cwd c) (ch_safety c) (ma_target a) = None"
    using assms by (auto simp: caches_apply_def split: if_splits option.splits)
  then obtain xs where xs: "es = Some xs" "m' = clear_entries (ma_target a) (map fst xs) m2"
    using assms s e f2 by (cases es) (auto simp: caches_apply_def clear_contents_def)
  have "(removes (\<lambda>p f. \<exists>n \<in> fst ` set xs. p = join_path [ma_target a, n]))\<^sup>*\<^sup>* (mc_fs m) (mc_fs m')"
    using clear_entries_removes [of "map fst xs" "ma_target a" m2] f2 xs(2) by simp
  then show ?thesis using * xs(1) e f1 by (intro conjI exI [of _ xs] exI [of _ m1]) simp_all
qed

lemma caches_plan_spec:
  "a \<in> set (caches_plan c r) \<Longrightarrow> ma_op a = ''clear'' \<and> \<not> is_report_only c (ma_target a) \<and> ma_size a \<noteq> 0"
  by (auto simp: caches_plan_def)

text \<open>A disabled service is booted out first, and only the second command decides.\<close>

lemma startup_disable:
  "ma_op a = ''disable'' \<Longrightarrow> fst (startup_apply run a s) = None \<longleftrightarrow>
     fst (run (is_system_domain (ma_target a)) [''launchctl'', ''disable'', ma_target a]
       (snd (run (is_system_domain (ma_target a)) [''launchctl'', ''bootout'', ma_target a] s)))"
  by (simp add: startup_apply_def Let_def split: prod.split)

end
