(* ===== verification/Output.thy ===== *)
theory Output
  imports Types GoText
begin

text \<open>
  \<open>internal/cli/output.go\<close>: the two sizes of a report row, the totals of a report and its rendering. The
  JSON encoder and the width of the terminal are arguments.
\<close>

definition default_term_width :: int where "default_term_width = 120"
definition size_col_width :: nat where "size_col_width = 9"
definition material_ratio :: rat where "material_ratio = fl (6 / 5)"

record sizing =
  sz_reclaimable :: int
  sz_apparent :: int
  sz_measured :: bool

definition evidence_bytes :: "(string \<Rightarrow> string option) \<Rightarrow> string \<Rightarrow> int option" where
  "evidence_bytes ev k = (case parse_int (ev_get ev k) of None \<Rightarrow> None | Some v \<Rightarrow> if v < 0 then None else Some v)"

definition item_sizing :: "item \<Rightarrow> sizing" where
  "item_sizing it =
     (case evidence_bytes (it_evidence it) ''unique_allocated_bytes'' of
        None \<Rightarrow> \<lparr> sz_reclaimable = it_size it, sz_apparent = it_size it, sz_measured = False \<rparr>
      | Some v \<Rightarrow>
          let a = (case evidence_bytes (it_evidence it) ''blocks_bytes'' of Some b \<Rightarrow> b
                   | None \<Rightarrow> (case evidence_bytes (it_evidence it) ''allocated_bytes'' of Some b \<Rightarrow> b | None \<Rightarrow> it_size it))
          in \<lparr> sz_reclaimable = v, sz_apparent = (if a < v then v else a), sz_measured = True \<rparr>)"

definition materially_different :: "int \<Rightarrow> int \<Rightarrow> bool" where
  "materially_different a b =
     (if a = b then False
      else let lo = min a b; hi = max a b in
        if lo \<le> 0 then 0 < hi else fl (fl_int lo * material_ratio) < fl_int hi)"

definition add_measured :: "item \<Rightarrow> int \<times> int \<Rightarrow> int \<times> int" where
  "add_measured it = (\<lambda>(mr, ma). let s = item_sizing it in
     if sz_measured s then (wrap64 (mr + sz_reclaimable s), wrap64 (ma + sz_apparent s)) else (mr, ma))"

definition report_totals :: "report \<Rightarrow> int \<times> int" where
  "report_totals r =
     (let (mr, ma) = fold add_measured (rp_items r) (0, 0);
          rest = wrap64 (rp_total r - mr)
      in (rp_total r, wrap64 (ma + (if rest < 0 then 0 else rest))))"

definition apparent_suffix :: "int \<Rightarrow> int \<Rightarrow> string" where
  "apparent_suffix r a = (if materially_different r a then '' (apparent '' @ bytes_string a @ '')'' else [])"

text \<open>What the terminal answered: \<open>None\<close> when the output is not one or the call failed.\<close>

definition term_width :: "int option \<Rightarrow> int" where
  "term_width w = (case w of None \<Rightarrow> default_term_width | Some c \<Rightarrow> if c = 0 then default_term_width else if c < 40 then 40 else c)"

definition ellipsis :: string where
  "ellipsis = [CHR 0xE2, CHR 0x80, CHR 0xA6]"

definition middle_truncate :: "string \<Rightarrow> int \<Rightarrow> string" where
  "middle_truncate s width =
     (let rs = runes s; n = length rs; hd_n = nat ((width - 1) div 3); tl_n = nat (width - 1) - hd_n in
      if int n \<le> width \<or> width < 5 then s
      else concat (take hd_n rs) @ ellipsis @ concat (drop (n - tl_n) rs))"

subsection \<open>Rendering\<close>

text \<open>The encoder of a row and of the closing total; \<open>None\<close> is an error, which ends the output.\<close>

record json_enc =
  je_item :: "item \<Rightarrow> sizing \<Rightarrow> string option"
  je_total :: "string \<Rightarrow> int \<Rightarrow> int \<Rightarrow> int \<Rightarrow> string option"

fun json_items :: "json_enc \<Rightarrow> item list \<Rightarrow> string \<Rightarrow> bool \<times> string" where
  "json_items e [] acc = (True, acc)"
| "json_items e (it # its) acc = (case je_item e it (item_sizing it) of
     None \<Rightarrow> (False, acc) | Some s \<Rightarrow> json_items e its (acc @ s @ nl))"

definition row_text :: "bool \<Rightarrow> int \<Rightarrow> item \<Rightarrow> string" where
  "row_text show_app width it =
     (let s = item_sizing it; p = middle_truncate (it_path it) width;
          app = (if sz_measured s \<and> materially_different (sz_reclaimable s) (sz_apparent s) then bytes_string (sz_apparent s) else [])
      in if show_app
         then pad_left size_col_width (bytes_string (sz_reclaimable s)) @ ''  '' @ pad_left size_col_width app @ ''  '' @ p @ nl
         else pad_left size_col_width (bytes_string (sz_reclaimable s)) @ ''  '' @ p @ nl)"

definition print_report :: "json_enc \<Rightarrow> int option \<Rightarrow> report \<Rightarrow> bool \<Rightarrow> string" where
  "print_report e win r as_json =
     (let (reclaimable, apparent) = report_totals r in
      if as_json then
        (case json_items e (rp_items r) [] of
           (False, s) \<Rightarrow> s
         | (True, s) \<Rightarrow> (case je_total e (rp_module r) (rp_total r) reclaimable apparent of None \<Rightarrow> s | Some t \<Rightarrow> s @ t @ nl))
      else
        let measured = filter sz_measured (map item_sizing (rp_items r));
            show_app = list_ex (\<lambda>s. materially_different (sz_reclaimable s) (sz_apparent s)) measured;
            row_sum = fold (\<lambda>s n. wrap64 (n + sz_reclaimable s)) measured 0;
            width = term_width win - int size_col_width - 2;
            path_width = (if show_app then width - (int size_col_width + 2) else width)
        in rp_module r @ '' module '' @ em_dash @ '' '' @ itoa (int (length (rp_items r))) @ '' item(s), '' @
           bytes_string reclaimable @ '' reclaimable'' @ apparent_suffix reclaimable apparent @ nl @
           (if reclaimable < row_sum \<and> materially_different row_sum reclaimable
            then ''(rows share APFS extents with each other: they sum to '' @ bytes_string row_sum @
              '', but deleting all of them frees at most '' @ bytes_string reclaimable @ '')'' @ nl else []) @
           (if show_app then pad_left size_col_width ''SIZE'' @ ''  '' @ pad_left size_col_width ''APPARENT'' @ ''  PATH'' @ nl
            else pad_left size_col_width ''SIZE'' @ ''  PATH'' @ nl) @
           concat (map (row_text show_app path_width) (rp_items r)))"

subsection \<open>The two totals\<close>

lemma item_sizing_measured:
  "sz_measured (item_sizing it) \<Longrightarrow> 0 \<le> sz_reclaimable (item_sizing it) \<and> sz_reclaimable (item_sizing it) \<le> sz_apparent (item_sizing it)"
  by (auto simp: item_sizing_def evidence_bytes_def Let_def split: option.splits if_splits)

definition measured_apparent :: "item list \<Rightarrow> int" where
  "measured_apparent its = sum_list (map sz_apparent (filter sz_measured (map item_sizing its)))"

definition measured_reclaimable :: "item list \<Rightarrow> int" where
  "measured_reclaimable its = sum_list (map sz_reclaimable (filter sz_measured (map item_sizing its)))"

lemma measured_sums: "0 \<le> measured_reclaimable its \<and> measured_reclaimable its \<le> measured_apparent its"
proof (induction its)
  case (Cons it its)
  then show ?case using item_sizing_measured [of it] by (auto simp: measured_apparent_def measured_reclaimable_def)
qed (simp add: measured_apparent_def measured_reclaimable_def)

lemma totals_fold:
  assumes "0 \<le> mr" "mr \<le> ma" "ma + measured_apparent its \<le> max_i64"
  shows "fold add_measured its (mr, ma) = (mr + measured_reclaimable its, ma + measured_apparent its)"
  using assms
proof (induction its arbitrary: mr ma)
  case Nil
  then show ?case by (simp add: measured_apparent_def measured_reclaimable_def)
next
  case (Cons it its)
  let ?s = "item_sizing it"
  have m: "measured_apparent (it # its) = (if sz_measured ?s then sz_apparent ?s else 0) + measured_apparent its"
    "measured_reclaimable (it # its) = (if sz_measured ?s then sz_reclaimable ?s else 0) + measured_reclaimable its"
    by (simp_all add: measured_apparent_def measured_reclaimable_def)
  show ?case
  proof (cases "sz_measured ?s")
    case True
    have b: "0 \<le> sz_reclaimable ?s" "sz_reclaimable ?s \<le> sz_apparent ?s" using item_sizing_measured [OF True] by auto
    have s: "0 \<le> measured_apparent its" using measured_sums [of its] by simp
    have le: "ma + sz_apparent ?s \<le> max_i64" using Cons.prems(3) True m(1) s by simp
    have w: "wrap64 (mr + sz_reclaimable ?s) = mr + sz_reclaimable ?s" "wrap64 (ma + sz_apparent ?s) = ma + sz_apparent ?s"
      using Cons.prems(1,2) b le by (auto intro!: wrap64_id simp: in_i64_def min_i64_def)
    show ?thesis
      using Cons.IH [of "mr + sz_reclaimable ?s" "ma + sz_apparent ?s"] Cons.prems b True m by (simp add: w add_measured_def Let_def ac_simps)
  next
    case False
    then show ?thesis using Cons.IH [of mr ma] Cons.prems m by (simp add: add_measured_def)
  qed
qed

text \<open>
  The apparent size of a report is never below what it claims to reclaim: the measured rows
  contribute at least their reclaimable bytes and the rest of the total is carried over. The sums are
  taken to stay in the 64-bit range.
\<close>

lemma apparent_at_least_reclaimable:
  assumes "0 \<le> rp_total r" "measured_apparent (rp_items r) + rp_total r \<le> max_i64"
  shows "(case report_totals r of (reclaimable, apparent) \<Rightarrow> reclaimable = rp_total r \<and>
    apparent = measured_apparent (rp_items r) + max 0 (rp_total r - measured_reclaimable (rp_items r)) \<and>
    reclaimable \<le> apparent)"
proof -
  let ?a = "measured_apparent (rp_items r)" and ?m = "measured_reclaimable (rp_items r)"
  have s: "0 \<le> ?m" "?m \<le> ?a" using measured_sums by auto
  have f: "fold add_measured (rp_items r) (0, 0) = (?m, ?a)"
    using totals_fold [of 0 0 "rp_items r"] assms by simp
  have w: "wrap64 (rp_total r - ?m) = rp_total r - ?m"
    using assms s by (intro wrap64_id) (auto simp: in_i64_def min_i64_def max_i64_def)
  have "wrap64 (?a + max 0 (rp_total r - ?m)) = ?a + max 0 (rp_total r - ?m)"
    using assms s by (intro wrap64_id) (auto simp: in_i64_def min_i64_def max_i64_def)
  then show ?thesis unfolding report_totals_def f using s w by (auto simp: Let_def max_def)
qed

definition demo_item :: "string \<Rightarrow> int \<Rightarrow> string \<Rightarrow> string \<Rightarrow> item" where
  "demo_item p n u b = \<lparr> it_path = p, it_size = n, it_evidence = [''unique_allocated_bytes'' \<mapsto> u, ''blocks_bytes'' \<mapsto> b] \<rparr>"

lemma apparent_at_least_reclaimable_witness:
  "let r = \<lparr> rp_module = ''leaks'', rp_items = [demo_item ''/a'' 5 ''5'' ''9'', demo_item ''/b'' 7 ''7'' ''8''], rp_total = 10 \<rparr>
   in 10 \<le> snd (report_totals r)"
proof -
  let ?r = "\<lparr> rp_module = ''leaks'', rp_items = [demo_item ''/a'' 5 ''5'' ''9'', demo_item ''/b'' 7 ''7'' ''8''], rp_total = 10 \<rparr>"
  have "measured_apparent (rp_items ?r) + rp_total ?r \<le> max_i64" by code_simp
  then show ?thesis using apparent_at_least_reclaimable [of ?r] by (simp add: split_beta Let_def)
qed

subsection \<open>Truncation\<close>

lemma middle_truncate_fits: "int (length (runes s)) \<le> w \<Longrightarrow> middle_truncate s w = s"
  by (simp add: middle_truncate_def)

text \<open>A path that does not fit keeps its head and its tail, and takes exactly the width.\<close>

lemma middle_truncate_cut:
  assumes "w < int (length (runes s))" "5 \<le> w"
  shows "\<exists>hs ts. middle_truncate s w = concat hs @ ellipsis @ concat ts \<and> prefix hs (runes s) \<and> suffix ts (runes s) \<and>
    int (length hs) + 1 + int (length ts) = w"
proof -
  let ?h = "nat ((w - 1) div 3)" and ?n = "length (runes s)"
  let ?t = "nat (w - 1) - ?h"
  have h: "?h \<le> nat (w - 1)" using assms(2) by (intro nat_mono) simp
  have t: "?t \<le> ?n" "?h \<le> ?n" using assms h by (auto simp: nat_le_iff)
  have "length (take ?h (runes s)) = ?h" using t by simp
  moreover have "length (drop (?n - ?t) (runes s)) = ?t" using diff_diff_cancel [OF t(1)] by (simp only: length_drop)
  moreover have "int ?h + 1 + int ?t = w" using h assms(2) by linarith
  ultimately have "int (length (take ?h (runes s))) + 1 + int (length (drop (?n - ?t) (runes s))) = w" by presburger
  then show ?thesis using assms
    by (intro exI [of _ "take ?h (runes s)"] exI [of _ "drop (?n - ?t) (runes s)"])
      (simp add: middle_truncate_def Let_def take_is_prefix suffix_drop)
qed

end
