(* ===== verification/AuditLog.thy ===== *)
theory AuditLog
  imports GoText GoPaths
begin

text \<open>
  \<open>internal/audit/audit.go\<close>: the append-only log of destructive actions, one file per day. Files are
  byte strings; creating the directory, opening and writing may fail, and a failing write may have
  written part of its bytes. The directories made are listed beside the files. The JSON encoder is an argument.
\<close>

record audit_rec =
  au_ts :: "time option"
  au_module :: string
  au_op :: string
  au_target :: string
  au_size :: int
  au_evidence :: "string \<Rightarrow> string option"
  au_outcome :: string
  au_error :: string

text \<open>The operating system: the files, the directories made, and for every call by its number whether it fails, how
  much a failing call still did (bytes written, directories made), and the clock.\<close>

record audit_os =
  ao_files :: "path \<Rightarrow> string option"
  ao_dirs :: "path list"
  ao_fails :: "nat \<Rightarrow> bool"
  ao_short :: "nat \<Rightarrow> nat"
  ao_clock :: "nat \<Rightarrow> time"
  ao_calls :: nat

record audit_log =
  al_dir :: path
  al_open :: "(string \<times> path) option"

datatype audit_err = AuditMkdir | AuditOpen | AuditMarshal | AuditWrite

definition audit_step :: "audit_os \<Rightarrow> audit_os" where
  "audit_step os = os\<lparr> ao_calls := Suc (ao_calls os) \<rparr>"

definition audit_fails :: "audit_os \<Rightarrow> bool" where
  "audit_fails os = ao_fails os (ao_calls os)"

definition audit_now :: "audit_os \<Rightarrow> time \<times> audit_os" where
  "audit_now os = (ao_clock os (ao_calls os), audit_step os)"

text \<open>The directories \<open>MkdirAll\<close> makes where they are missing, from the outermost in.\<close>

definition dir_chain :: "path \<Rightarrow> path list" where
  "dir_chain dir = map (\<lambda>n. render_path (is_abs dir) (take n (comps dir))) [1..<Suc (length (comps dir))]"

definition audit_new :: "path \<Rightarrow> audit_os \<Rightarrow> audit_log option \<times> audit_os" where
  "audit_new dir os =
     (let made = (if audit_fails os then take (ao_short os (ao_calls os)) (dir_chain dir) else dir_chain dir)
      in (if audit_fails os then None else Some \<lparr> al_dir = dir, al_open = None \<rparr>,
          audit_step (os\<lparr> ao_dirs := ao_dirs os @ filter (\<lambda>d. d \<notin> set (ao_dirs os)) made \<rparr>)))"

definition audit_path :: "path \<Rightarrow> string \<Rightarrow> path" where
  "audit_path dir d = join_path [dir, ''audit-'' @ d @ ''.jsonl'']"

text \<open>Opening with \<open>O_CREATE|O_APPEND\<close> creates a missing file and changes no other.\<close>

definition audit_rotate :: "string \<Rightarrow> audit_log \<Rightarrow> audit_os \<Rightarrow> (audit_err option \<times> audit_log) \<times> audit_os" where
  "audit_rotate d l os =
     (if (case al_open l of Some (d', _) \<Rightarrow> d' = d | None \<Rightarrow> False) then ((None, l), os)
      else let p = audit_path (al_dir l) d; l0 = l\<lparr> al_open := None \<rparr> in
        if audit_fails os then ((Some AuditOpen, l0), audit_step os)
        else ((None, l\<lparr> al_open := Some (d, p) \<rparr>),
          audit_step (os\<lparr> ao_files := (ao_files os)(p \<mapsto> (case ao_files os p of None \<Rightarrow> [] | Some c \<Rightarrow> c)) \<rparr>)))"

definition audit_append :: "path \<Rightarrow> string \<Rightarrow> audit_os \<Rightarrow> audit_err option \<times> audit_os" where
  "audit_append p s os =
     (let c = (case ao_files os p of None \<Rightarrow> [] | Some c \<Rightarrow> c);
          bs = (if audit_fails os then take (ao_short os (ao_calls os)) s else s)
      in (if audit_fails os then Some AuditWrite else None, audit_step (os\<lparr> ao_files := (ao_files os)(p \<mapsto> c @ bs) \<rparr>)))"

definition audit_write :: "(audit_rec \<Rightarrow> string option) \<Rightarrow> audit_rec \<Rightarrow> audit_log \<Rightarrow> audit_os \<Rightarrow> (audit_err option \<times> audit_log) \<times> audit_os" where
  "audit_write enc r l os =
     (let (t, os1) = (case au_ts r of Some t \<Rightarrow> (t, os) | None \<Rightarrow> audit_now os);
          r1 = r\<lparr> au_ts := Some t \<rparr>
      in case audit_rotate (fmt_day t) l os1 of
        ((Some e, l1), os2) \<Rightarrow> ((Some e, l1), os2)
      | ((None, l1), os2) \<Rightarrow>
          (case (enc r1, al_open l1) of
             (Some s, Some (_, p)) \<Rightarrow> (case audit_append p (s @ nl) os2 of (e, os3) \<Rightarrow> ((e, l1), os3))
           | _ \<Rightarrow> ((Some AuditMarshal, l1), os2)))"

definition audit_close :: "audit_log \<Rightarrow> audit_log" where
  "audit_close l = l\<lparr> al_open := None \<rparr>"

subsection \<open>The log only grows\<close>

definition grown :: "audit_os \<Rightarrow> audit_os \<Rightarrow> bool" where
  "grown os os' \<longleftrightarrow> (\<forall>p c. ao_files os p = Some c \<longrightarrow> (\<exists>s. ao_files os' p = Some (c @ s)))"

lemma grown_refl [simp]: "grown os os"
  by (auto simp: grown_def)

lemma grown_trans: "grown a b \<Longrightarrow> grown b c \<Longrightarrow> grown a c"
  unfolding grown_def by (metis append.assoc)

lemma grown_step [simp]: "grown os (audit_step os') \<longleftrightarrow> grown os os'"
  by (simp add: grown_def audit_step_def)

lemma grown_new: "grown os (snd (audit_new dir os))"
  by (simp add: audit_new_def grown_def audit_step_def Let_def)

lemma grown_put:
  "grown os (os\<lparr> ao_files := (ao_files os)(p \<mapsto> (case ao_files os p of None \<Rightarrow> [] | Some c \<Rightarrow> c) @ s) \<rparr>)"
  by (auto simp: grown_def)

lemma grown_append: "grown os (snd (audit_append p s os))"
  using grown_put [of os p] by (simp add: audit_append_def Let_def)

lemma grown_rotate: "grown os (snd (audit_rotate d l os))"
  using grown_put [of os _ "[]"] by (auto simp: audit_rotate_def Let_def split: option.splits)

lemma rotate_open:
  "audit_rotate d l os = ((None, l1), os1) \<Longrightarrow> (\<And>d' p. al_open l = Some (d', p) \<Longrightarrow> p = audit_path (al_dir l) d') \<Longrightarrow>
     al_dir l1 = al_dir l \<and> al_open l1 = Some (d, audit_path (al_dir l) d)"
  by (auto simp: audit_rotate_def Let_def split: if_splits option.splits)

lemma grown_write: "grown os (snd (audit_write enc r l os))"
proof -
  obtain t os1 where t: "(case au_ts r of Some t \<Rightarrow> (t, os) | None \<Rightarrow> audit_now os) = (t, os1)" by fastforce
  have g1: "grown os os1" using t by (auto simp: audit_now_def split: option.splits)
  obtain e l1 os2 where r: "audit_rotate (fmt_day t) l os1 = ((e, l1), os2)" by (metis surj_pair)
  have g2: "grown os os2" using grown_trans [OF g1] grown_rotate [of os1 "fmt_day t" l] r by simp
  have "grown os os3" if "audit_append p s os2 = (e', os3)" for p s e' os3
    using grown_trans [OF g2] grown_append [of os2 p s] that by simp
  then show ?thesis using t r g2
    by (auto simp: audit_write_def Let_def split: option.splits prod.splits)
qed

text \<open>A log whose open file, if any, is the one of its day in its directory.\<close>

definition log_ok :: "path \<Rightarrow> audit_log \<Rightarrow> bool" where
  "log_ok dir l \<longleftrightarrow> al_dir l = dir \<and> (\<forall>d p. al_open l = Some (d, p) \<longrightarrow> p = audit_path dir d)"

lemma log_ok_new: "audit_new dir os = (Some l, os') \<Longrightarrow> log_ok dir l"
  by (auto simp: audit_new_def log_ok_def Let_def split: if_splits)

lemma log_ok_write: "log_ok dir l \<Longrightarrow> audit_write enc r l os = ((e, l'), os') \<Longrightarrow> log_ok dir l'"
  by (auto simp: audit_write_def audit_rotate_def log_ok_def Let_def split: prod.splits option.splits if_splits)

text \<open>A write that reports success added exactly the record's line, at the end of the file of its day.\<close>

lemma audit_write_ok:
  assumes "log_ok dir l" "audit_write enc r l os = ((None, l'), os')"
  shows "\<exists>t s. enc (r\<lparr> au_ts := Some t \<rparr>) = Some s \<and> (case au_ts r of None \<Rightarrow> t = ao_clock os (ao_calls os) | Some t' \<Rightarrow> t = t') \<and>
    ao_files os' = (ao_files os)(audit_path dir (fmt_day t) \<mapsto>
      (case ao_files os (audit_path dir (fmt_day t)) of None \<Rightarrow> [] | Some c \<Rightarrow> c) @ s @ nl)"
proof -
  obtain t os1 where t: "(case au_ts r of Some t \<Rightarrow> (t, os) | None \<Rightarrow> audit_now os) = (t, os1)" by fastforce
  have f1: "ao_files os1 = ao_files os" and tc: "case au_ts r of None \<Rightarrow> t = ao_clock os (ao_calls os) | Some t' \<Rightarrow> t = t'"
    using t by (auto simp: audit_now_def audit_step_def split: option.splits)
  obtain e l1 os2 where r: "audit_rotate (fmt_day t) l os1 = ((e, l1), os2)" by (metis surj_pair)
  have e: "e = None" using assms(2) t r by (auto simp: audit_write_def split: option.splits prod.splits)
  let ?p = "audit_path dir (fmt_day t)"
  have o: "al_open l1 = Some (fmt_day t, ?p)"
    using rotate_open [OF r [unfolded e]] assms(1) by (auto simp: log_ok_def)
  have f2: "ao_files os2 q = ao_files os1 q \<or> q = ?p \<and> ao_files os1 q = None \<and> ao_files os2 q = Some []" for q
    using r [unfolded e] assms(1) by (auto simp: audit_rotate_def Let_def audit_step_def log_ok_def split: if_splits option.splits)
  obtain s where s: "enc (r\<lparr> au_ts := Some t \<rparr>) = Some s"
    using assms(2) t r e o by (cases "enc (r\<lparr> au_ts := Some t \<rparr>)") (auto simp: audit_write_def)
  have "audit_append ?p (s @ nl) os2 = (None, os')"
    using assms(2) t r e o s by (auto simp: audit_write_def split: prod.splits)
  then have "ao_files os' = (ao_files os2)(?p \<mapsto> (case ao_files os2 ?p of None \<Rightarrow> [] | Some c \<Rightarrow> c) @ s @ nl)"
    by (auto simp: audit_append_def Let_def audit_step_def split: if_splits)
  moreover have "(case ao_files os2 ?p of None \<Rightarrow> [] | Some c \<Rightarrow> c) = (case ao_files os ?p of None \<Rightarrow> [] | Some c \<Rightarrow> c)"
    using f2 [of ?p] f1 by auto
  moreover have "(ao_files os2)(?p \<mapsto> x) = (ao_files os)(?p \<mapsto> x)" for x
    using f2 f1 by (auto simp: fun_eq_iff)
  ultimately show ?thesis using s tc by (intro exI [of _ t] exI [of _ s]) simp
qed

text \<open>What using a log in \<open>dir\<close> may leave behind: its directory and the ones it lies in, records appended to the daily
  files in it, and nothing else. With \<open>dry\<close>, no record either.\<close>

definition audit_effect :: "path \<Rightarrow> bool \<Rightarrow> audit_os \<Rightarrow> audit_os \<Rightarrow> bool" where
  "audit_effect dir dry os os' \<longleftrightarrow> grown os os' \<and> set (ao_dirs os) \<subseteq> set (ao_dirs os') \<and>
     set (ao_dirs os') \<subseteq> set (ao_dirs os) \<union> set (dir_chain dir) \<and>
     (\<forall>p. ao_files os' p \<noteq> ao_files os p \<longrightarrow> \<not> dry \<and> (\<exists>d. p = audit_path dir d))"

lemma audit_effect_refl: "audit_effect dir dry os os"
  by (simp add: audit_effect_def)

lemma audit_effect_trans: "audit_effect dir dry a b \<Longrightarrow> audit_effect dir dry b c \<Longrightarrow> audit_effect dir dry a c"
proof -
  assume ab: "audit_effect dir dry a b" and bc: "audit_effect dir dry b c"
  have "grown a c" using ab bc grown_trans unfolding audit_effect_def by blast
  moreover have "ao_files c p \<noteq> ao_files a p \<Longrightarrow> \<not> dry \<and> (\<exists>d. p = audit_path dir d)" for p
    using ab bc unfolding audit_effect_def by (cases "ao_files b p = ao_files a p") auto
  moreover have "set (ao_dirs a) \<subseteq> set (ao_dirs c)" "set (ao_dirs c) \<subseteq> set (ao_dirs a) \<union> set (dir_chain dir)"
    using ab bc unfolding audit_effect_def by blast+
  ultimately show ?thesis unfolding audit_effect_def by blast
qed

lemma audit_effect_new: "audit_effect dir dry os (snd (audit_new dir os))"
  using grown_new [of os dir] set_take_subset
  by (fastforce simp: audit_effect_def audit_new_def audit_step_def Let_def)

lemma audit_effect_write:
  assumes "log_ok dir l" "audit_write enc r l os = ((e, l'), os')"
  shows "audit_effect dir False os os'"
proof -
  obtain t os1 where t: "(case au_ts r of Some t \<Rightarrow> (t, os) | None \<Rightarrow> audit_now os) = (t, os1)" by fastforce
  have f1: "ao_files os1 = ao_files os" "ao_dirs os1 = ao_dirs os"
    using t by (auto simp: audit_now_def audit_step_def split: option.splits)
  obtain e1 l1 os2 where r: "audit_rotate (fmt_day t) l os1 = ((e1, l1), os2)" by (metis surj_pair)
  have l1: "log_ok dir l1" "ao_dirs os2 = ao_dirs os1"
    "\<And>q. ao_files os2 q \<noteq> ao_files os1 q \<Longrightarrow> q = audit_path dir (fmt_day t)"
    using r assms(1) by (auto simp: audit_rotate_def Let_def audit_step_def log_ok_def split: if_splits option.splits)
  have app: "ao_dirs os3 = ao_dirs os2" "q \<noteq> p \<Longrightarrow> ao_files os3 q = ao_files os2 q" if "audit_append p x os2 = (y, os3)" for p x y os3 q
    using that by (auto simp: audit_append_def Let_def audit_step_def)
  have "ao_dirs os' = ao_dirs os \<and> (\<forall>q. ao_files os' q \<noteq> ao_files os q \<longrightarrow> (\<exists>d. q = audit_path dir d))"
  proof (cases "os' = os2")
    case True
    then show ?thesis using l1 f1 by auto
  next
    case False
    have w: "audit_write enc r l os = (case e1 of Some z \<Rightarrow> ((Some z, l1), os2) | None \<Rightarrow>
        (case (enc (r\<lparr> au_ts := Some t \<rparr>), al_open l1) of
           (Some z, Some (_, p)) \<Rightarrow> (case audit_append p (z @ nl) os2 of (y, os3) \<Rightarrow> ((y, l1), os3))
         | _ \<Rightarrow> ((Some AuditMarshal, l1), os2)))"
      unfolding audit_write_def t Let_def prod.case r by (cases e1) simp_all
    obtain d p x y where "al_open l1 = Some (d, p)" "audit_append p x os2 = (y, os')"
      using assms(2) False unfolding w
      by (cases e1; cases "enc (r\<lparr> au_ts := Some t \<rparr>)"; cases "al_open l1") (auto split: prod.splits)
    then have "p = audit_path dir d" "ao_dirs os' = ao_dirs os2" "\<And>q. q \<noteq> p \<Longrightarrow> ao_files os' q = ao_files os2 q"
      using l1(1) app by (auto simp: log_ok_def)
    then show ?thesis using l1 f1 by metis
  qed
  then show ?thesis using grown_write [of os enc r l] assms(2) by (auto simp: audit_effect_def)
qed

text \<open>A session: any number of records written through one log.\<close>

fun audit_all :: "(audit_rec \<Rightarrow> string option) \<Rightarrow> audit_rec list \<Rightarrow> audit_log \<Rightarrow> audit_os \<Rightarrow> audit_err option list \<times> audit_log \<times> audit_os" where
  "audit_all enc [] l os = ([], l, os)"
| "audit_all enc (r # rs) l os = (case audit_write enc r l os of ((e, l1), os1) \<Rightarrow>
     (case audit_all enc rs l1 os1 of (es, l2, os2) \<Rightarrow> (e # es, l2, os2)))"

text \<open>
  C36. The audit log only ever grows: whatever fails, no byte already in an audit file is changed or
  removed, by a log just opened or used for any number of records; and a record whose write is reported
  as done is the last line of the file of its day.
\<close>

theorem audit_append_only:
  assumes "audit_new dir os0 = (Some l0, os1)" "audit_all enc rs l0 os1 = (es, l1, os2)"
    "audit_write enc r l1 os2 = ((e, l2), os3)"
  shows "grown os0 os3 \<and> length es = length rs \<and>
    (e = None \<longrightarrow> (\<exists>t s c. enc (r\<lparr> au_ts := Some t \<rparr>) = Some s \<and>
       ao_files os3 (audit_path dir (fmt_day t)) = Some (c @ s @ nl) \<and>
       (\<forall>q. q \<noteq> audit_path dir (fmt_day t) \<longrightarrow> ao_files os3 q = ao_files os2 q)))"
proof -
  have all: "log_ok dir l \<Longrightarrow> audit_all enc rs l os = (es, l1, os2) \<Longrightarrow>
      grown os os2 \<and> log_ok dir l1 \<and> length es = length rs" for l os
  proof (induction rs arbitrary: l os es)
    case (Cons x xs)
    obtain e' l' os' where w: "audit_write enc x l os = ((e', l'), os')" by (metis surj_pair)
    obtain es' where a: "audit_all enc xs l' os' = (es', l1, os2)" "es = e' # es'"
      using Cons.prems(2) w by (auto split: prod.splits)
    have g: "grown os os'" using grown_write [of os enc x l] w by simp
    show ?case using Cons.IH [OF log_ok_write [OF Cons.prems(1) w] a(1)] g grown_trans a(2) by auto
  qed simp
  have g0: "grown os0 os1" using grown_new [of os0 dir] assms(1) by simp
  have a: "grown os1 os2 \<and> log_ok dir l1 \<and> length es = length rs"
    by (rule all [OF log_ok_new [OF assms(1)] assms(2)])
  have g3: "grown os2 os3" using grown_write [of os2 enc r l1] assms(3) by simp
  have "\<exists>t s c. enc (r\<lparr> au_ts := Some t \<rparr>) = Some s \<and>
       ao_files os3 (audit_path dir (fmt_day t)) = Some (c @ s @ nl) \<and>
       (\<forall>q. q \<noteq> audit_path dir (fmt_day t) \<longrightarrow> ao_files os3 q = ao_files os2 q)" if "e = None"
    using audit_write_ok [of dir l1 enc r os2 l2 os3] a assms(3) that by fastforce
  then show ?thesis using g0 a g3 grown_trans by blast
qed

definition demo_rec :: "string \<Rightarrow> audit_rec" where
  "demo_rec t = \<lparr> au_ts = None, au_module = ''dev'', au_op = ''delete'', au_target = t, au_size = 1,
     au_evidence = Map.empty, au_outcome = ''ok'', au_error = [] \<rparr>"

definition demo_audit :: audit_os where
  "demo_audit = \<lparr> ao_files = [''/l/audit-1970-01-01.jsonl'' \<mapsto> ''old'' @ nl], ao_dirs = [''/l''], ao_fails = (\<lambda>n. n = 3),
     ao_short = (\<lambda>n. 1), ao_clock = (\<lambda>n. 0), ao_calls = 0 \<rparr>"

text \<open>The first write fails half way, the second succeeds.\<close>

lemma audit_append_only_witness:
  "case audit_new ''/l'' demo_audit of (Some l0, os1) \<Rightarrow>
     (case audit_all (Some \<circ> au_target) [demo_rec ''a''] l0 os1 of (es, l1, os2) \<Rightarrow>
       (case audit_write (Some \<circ> au_target) (demo_rec ''b'') l1 os2 of ((e, l2), os3) \<Rightarrow>
          es = [Some AuditWrite] \<and> e = None \<and> grown demo_audit os3))
   | _ \<Rightarrow> False"
proof -
  let ?n = "audit_new ''/l'' demo_audit"
  let ?a = "\<lambda>l0 os1. audit_all (Some \<circ> au_target) [demo_rec ''a''] l0 os1"
  let ?w = "\<lambda>l1 os2. audit_write (Some \<circ> au_target) (demo_rec ''b'') l1 os2"
  have run: "case ?n of (Some l0, os1) \<Rightarrow> (case ?a l0 os1 of (es, l1, os2) \<Rightarrow>
      (case ?w l1 os2 of ((e, l2), os3) \<Rightarrow> es = [Some AuditWrite] \<and> e = None)) | _ \<Rightarrow> False"
    by (simp add: audit_new_def audit_fails_def audit_step_def audit_write_def audit_rotate_def audit_append_def
        audit_now_def demo_audit_def demo_rec_def Let_def)
  then obtain l0 os1 where n: "?n = (Some l0, os1)" by (auto split: prod.splits option.splits)
  obtain es l1 os2 where a: "?a l0 os1 = (es, l1, os2)" by (metis surj_pair)
  obtain e l2 os3 where w: "?w l1 os2 = ((e, l2), os3)" by (metis surj_pair)
  have "es = [Some AuditWrite] \<and> e = None" using run by (simp only: n a w option.case prod.case)
  then show ?thesis using audit_append_only [OF n a w] by (simp only: n a w option.case prod.case simp_thms)
qed

end
