(* ===== verification/GoFlag.thy ===== *)
theory GoFlag
  imports GoText
begin

text \<open>
  Go's \<open>flag.FlagSet\<close> as the commands use it, and the verb parser, the list flag and the flag tests of
  \<open>internal/cli/dev_cmd.go\<close>. A flag set maps the defined names to their current values; the usage text the
  package prints on an error is not modelled, the error is a value.
\<close>

datatype flag_val = FBool bool | FInt int | FStr string

type_synonym flag_set = "string \<Rightarrow> flag_val option"

datatype flag_err = FlagSyntax string | FlagUndefined string | FlagHelp | FlagInvalid string | FlagNoArg string

subsection \<open>Values\<close>

definition parse_bool :: "string \<Rightarrow> bool option" where
  "parse_bool s =
     (if s \<in> set [''1'', ''t'', ''T'', ''true'', ''TRUE'', ''True''] then Some True
      else if s \<in> set [''0'', ''f'', ''F'', ''false'', ''FALSE'', ''False''] then Some False
      else None)"

text \<open>\<open>strconv.ParseInt(s, 0, 64)\<close>: a base prefix, and underscores between digits.\<close>

definition digit_any :: "char \<Rightarrow> int option" where
  "digit_any c = (let n = (of_char (to_lower_char c) :: nat) in
     if is_digit c then Some (digit_val c) else if 97 \<le> n \<and> n \<le> 122 then Some (int n - 87) else None)"

fun base_digits :: "int \<Rightarrow> int \<Rightarrow> string \<Rightarrow> int option" where
  "base_digits b acc [] = Some acc"
| "base_digits b acc (c # s) =
     (if c = CHR ''_'' then base_digits b acc s
      else case digit_any c of None \<Rightarrow> None
        | Some d \<Rightarrow> if d < b then base_digits b (acc * b + d) s else None)"

definition base_of :: "string \<Rightarrow> int \<times> string" where
  "base_of s = (case s of
       z # x # y # r \<Rightarrow> if z \<noteq> CHR ''0'' then (10, s)
         else if to_lower_char x = CHR ''b'' then (2, y # r) else if to_lower_char x = CHR ''o'' then (8, y # r)
         else if to_lower_char x = CHR ''x'' then (16, y # r) else (8, x # y # r)
     | z # r \<Rightarrow> if z = CHR ''0'' then (8, r) else (10, s)
     | [] \<Rightarrow> (10, []))"

fun underscores :: "bool \<Rightarrow> char \<Rightarrow> string \<Rightarrow> bool" where
  "underscores hex i [] = (i \<noteq> CHR ''_'')"
| "underscores hex i (c # s) =
     (if is_digit c \<or> hex \<and> (case digit_any c of Some d \<Rightarrow> d < 16 | None \<Rightarrow> False) then underscores hex (CHR ''0'') s
      else if c = CHR ''_'' then i = CHR ''0'' \<and> underscores hex (CHR ''_'') s
      else i \<noteq> CHR ''_'' \<and> underscores hex (CHR ''!'') s)"

definition underscore_ok :: "string \<Rightarrow> bool" where
  "underscore_ok s = (case s of
       z # x # r \<Rightarrow> if z = CHR ''0'' \<and> to_lower_char x \<in> {CHR ''b'', CHR ''o'', CHR ''x''}
         then underscores (to_lower_char x = CHR ''x'') (CHR ''0'') r else underscores False (CHR ''^'') s
     | _ \<Rightarrow> underscores False (CHR ''^'') s)"

definition parse_int0 :: "string \<Rightarrow> int option" where
  "parse_int0 s =
     (let (neg, ds) = (case s of [] \<Rightarrow> (False, [])
                       | c # r \<Rightarrow> if c = CHR ''-'' then (True, r) else if c = CHR ''+'' then (False, r) else (False, s));
          (b, r) = base_of ds
      in if ds = [] \<or> (CHR ''_'' \<in> set ds \<and> \<not> underscore_ok ds) then None
         else case base_digits b 0 r of None \<Rightarrow> None
           | Some n \<Rightarrow> let v = (if neg then - n else n) in if in_i64 v then Some v else None)"

text \<open>\<open>Value.Set\<close>: the new value has the kind of the old one.\<close>

fun set_val :: "flag_val \<Rightarrow> string \<Rightarrow> flag_val option" where
  "set_val (FBool _) s = map_option FBool (parse_bool s)"
| "set_val (FInt _) s = map_option FInt (parse_int0 s)"
| "set_val (FStr _) s = Some (FStr s)"

definition set_flag :: "flag_set \<Rightarrow> string \<Rightarrow> flag_val \<Rightarrow> string \<Rightarrow> flag_err + flag_set" where
  "set_flag fs name v s = (case set_val v s of None \<Rightarrow> Inl (FlagInvalid name) | Some v' \<Rightarrow> Inr (fs(name \<mapsto> v')))"

subsection \<open>Parse\<close>

text \<open>The name and the value a flag token carries; the first \<open>=\<close> after the first byte separates them.\<close>

definition flag_token :: "string \<Rightarrow> (flag_err, string \<times> string option) sum" where
  "flag_token s =
     (let name = drop (if has_prefix s ''--'' then 2 else 1) s in
      case name of [] \<Rightarrow> Inl (FlagSyntax s)
      | c # r \<Rightarrow> if c = CHR ''-'' \<or> c = CHR ''='' then Inl (FlagSyntax s)
          else case split_at_char (\<lambda>d. d = CHR ''='') r of (u, v) \<Rightarrow> Inr (c # u, v))"

text \<open>The value of a flag: the one it carries; "true" for a boolean one; otherwise the next token.\<close>

fun flag_arg :: "flag_val \<Rightarrow> string option \<Rightarrow> string list \<Rightarrow> (string \<times> string list) option" where
  "flag_arg old (Some x) args = Some (x, args)"
| "flag_arg (FBool b) None args = Some (''true'', args)"
| "flag_arg old None [] = None"
| "flag_arg old None (x # r) = Some (x, r)"

lemma flag_arg_Some:
  "flag_arg old v args = Some (x, r) \<Longrightarrow>
     length r \<le> length args \<and> set r \<subseteq> set args \<and> flag_arg old v (args @ ws) = Some (x, r @ ws)"
  by (induction old v args rule: flag_arg.induct) auto

text \<open>\<open>parseOne\<close>: whether a flag was read, the new values and what is left.\<close>

fun flag_one :: "flag_set \<Rightarrow> string list \<Rightarrow> flag_err + bool \<times> flag_set \<times> string list" where
  "flag_one fs [] = Inr (False, fs, [])"
| "flag_one fs (s # args) =
     (if length s < 2 \<or> hd s \<noteq> CHR ''-'' then Inr (False, fs, s # args)
      else if s = ''--'' then Inr (False, fs, args)
      else try_bind (flag_token s) (\<lambda>(name, v).
        case fs name of
          None \<Rightarrow> Inl (if name = ''help'' \<or> name = ''h'' then FlagHelp else FlagUndefined name)
        | Some old \<Rightarrow>
            (case flag_arg old v args of
               None \<Rightarrow> Inl (FlagNoArg name)
             | Some (x, r) \<Rightarrow> try_bind (set_flag fs name old x) (\<lambda>fs'. Inr (True, fs', r)))))"

declare flag_one.simps(2) [simp del]

lemma flag_one_read:
  "\<not> (length s < 2 \<or> hd s \<noteq> CHR ''-'') \<Longrightarrow> s \<noteq> ''--'' \<Longrightarrow> flag_one fs (s # args) = Inr (b, fs', r) \<longleftrightarrow>
     b \<and> (\<exists>name v old x. flag_token s = Inr (name, v) \<and> fs name = Some old \<and>
       flag_arg old v args = Some (x, r) \<and> set_flag fs name old x = Inr fs')"
  by (cases "flag_token s") (auto simp: flag_one.simps(2) err_simps split: option.splits)

lemma flag_one_halt:
  "length s < 2 \<or> hd s \<noteq> CHR ''-'' \<Longrightarrow> flag_one fs (s # args) = Inr (False, fs, s # args)"
  "flag_one fs (''--'' # args) = Inr (False, fs, args)"
  by (simp_all add: flag_one.simps(2))

lemma flag_one_cases:
  assumes "flag_one fs us = Inr (b, fs', r)"
  obtains (stop) "\<not> b" "fs' = fs" "us = r \<or> us = ''--'' # r"
  | (read) s args where "b" "us = s # args" "length r \<le> length args" "set r \<subseteq> set args"
      "\<And>ws. flag_one fs (us @ ws) = Inr (True, fs', r @ ws)"
proof (cases us)
  case (Cons s args)
  consider "length s < 2 \<or> hd s \<noteq> CHR ''-''" | "s = ''--''"
    | "\<not> (length s < 2 \<or> hd s \<noteq> CHR ''-'')" "s \<noteq> ''--''" by blast
  then show thesis
  proof cases
    case 3
    have e: "b" "\<exists>name v old x. flag_token s = Inr (name, v) \<and> fs name = Some old \<and>
        flag_arg old v args = Some (x, r) \<and> set_flag fs name old x = Inr fs'"
      using assms [unfolded Cons flag_one_read [OF 3]] by blast+
    have "\<exists>name v old x. flag_token s = Inr (name, v) \<and> fs name = Some old \<and>
        flag_arg old v (args @ ws) = Some (x, r @ ws) \<and> set_flag fs name old x = Inr fs'" for ws
      using e(2) flag_arg_Some by blast
    then have "flag_one fs (us @ ws) = Inr (True, fs', r @ ws)" for ws
      using 3 by (simp add: Cons flag_one_read)
    then show thesis using read [OF e(1) Cons] e(2) flag_arg_Some by blast
  qed (use assms Cons stop flag_one_halt in auto)
qed (use assms stop in simp)

lemma flag_one_rest: "flag_one fs args = Inr (b, fs', r) \<Longrightarrow> length r \<le> length args \<and> (b \<longrightarrow> length r < length args)"
  by (erule flag_one_cases) auto

lemma flag_one_append:
  "flag_one fs us = Inr (True, fs', r) \<Longrightarrow> flag_one fs (us @ ws) = Inr (True, fs', r @ ws)"
  by (erule flag_one_cases) auto

lemma flag_one_stop: "flag_one fs us = Inr (False, fs', []) \<Longrightarrow> fs' = fs \<and> (us = [] \<or> us = [''--''])"
  by (erule flag_one_cases) auto

lemma flag_one_suffix: "flag_one fs us = Inr (b, fs', r) \<Longrightarrow> set r \<subseteq> set us"
  by (erule flag_one_cases) auto

function flag_parse :: "flag_set \<Rightarrow> string list \<Rightarrow> flag_err + flag_set \<times> string list" where
  "flag_parse fs args = (case flag_one fs args of Inl e \<Rightarrow> Inl e
     | Inr (more, fs', r) \<Rightarrow> if more then flag_parse fs' r else Inr (fs', r))"
  by pat_completeness auto
termination by (relation "measure (\<lambda>(fs, args). length args)") (auto dest: flag_one_rest)

declare flag_parse.simps [simp del]

lemma flag_parse_rest: "flag_parse fs args = Inr (fs', r) \<Longrightarrow> length r \<le> length args"
proof (induction fs args arbitrary: fs' r rule: flag_parse.induct)
  case (1 fs args)
  then show ?case
    using flag_one_rest by (subst (asm) (2) flag_parse.simps) (fastforce split: sum.splits if_splits)
qed

subsection \<open>The verb\<close>

definition flag_like :: "string \<Rightarrow> bool" where
  "flag_like t \<longleftrightarrow> 1 < length t \<and> hd t = CHR ''-''"

definition first_flag_like :: "string list \<Rightarrow> string" where
  "first_flag_like ws = (case first_such flag_like ws of None \<Rightarrow> [] | Some w \<Rightarrow> w)"

datatype verb_err = VerbFlag flag_err | VerbMissing | VerbUnknownFlag string string

function verb_loop :: "flag_set \<Rightarrow> string \<Rightarrow> string list \<Rightarrow> (flag_err, flag_set \<times> string \<times> string list) sum" where
  "verb_loop fs verb remaining =
     (case flag_parse fs remaining of Inl e \<Rightarrow> Inl e
      | Inr (fs', tail) \<Rightarrow>
          (case tail of [] \<Rightarrow> Inr (fs', verb, [])
           | t # ts \<Rightarrow> if verb = [] \<and> \<not> flag_like t then verb_loop fs' t ts else Inr (fs', verb, tail)))"
  by pat_completeness auto
termination
  by (relation "measure (\<lambda>(fs, verb, remaining). length remaining)") (auto dest: flag_parse_rest)

declare verb_loop.simps [simp del]

definition parse_verb :: "flag_set \<Rightarrow> string list \<Rightarrow> (verb_err, string \<times> flag_set \<times> string list) sum" where
  "parse_verb fs args =
     (case verb_loop fs [] args of Inl e \<Rightarrow> Inl (VerbFlag e)
      | Inr (fs', verb, extra) \<Rightarrow>
          if verb = [] then Inl VerbMissing
          else if first_flag_like extra \<noteq> [] then Inl (VerbUnknownFlag (first_flag_like extra) verb)
          else Inr (verb, fs', extra))"

definition split_csv :: "string \<Rightarrow> string list" where
  "split_csv s = (let ws = split_on (CHR '','') s in if last ws = [] then butlast ws else ws)"

text \<open>The values of the flags the commands define.\<close>

definition flag_bool :: "flag_set \<Rightarrow> string \<Rightarrow> bool" where
  "flag_bool fs n \<longleftrightarrow> fs n = Some (FBool True)"

definition flag_int :: "flag_set \<Rightarrow> string \<Rightarrow> int" where
  "flag_int fs n = (case fs n of Some (FInt i) \<Rightarrow> i | _ \<Rightarrow> 0)"

definition flag_str :: "flag_set \<Rightarrow> string \<Rightarrow> string" where
  "flag_str fs n = (case fs n of Some (FStr s) \<Rightarrow> s | _ \<Rightarrow> [])"

subsection \<open>The order of verb and flags\<close>

lemma flag_parse_append:
  "flag_parse fs us = Inr (fs', []) \<Longrightarrow> ''--'' \<notin> set us \<Longrightarrow> flag_parse fs (us @ ws) = flag_parse fs' ws"
proof (induction fs us arbitrary: fs' rule: flag_parse.induct)
  case (1 fs us)
  obtain more f1 r where one: "flag_one fs us = Inr (more, f1, r)"
    using "1.prems"(1) by (subst (asm) flag_parse.simps) (auto split: sum.splits)
  show ?case
  proof (cases more)
    case True
    have "flag_parse f1 r = Inr (fs', [])" using "1.prems"(1) one True by (subst (asm) flag_parse.simps) simp
    moreover have "''--'' \<notin> set r" using flag_one_suffix [OF one] "1.prems"(2) by blast
    ultimately have "flag_parse f1 (r @ ws) = flag_parse fs' ws" using "1.IH" one True by simp
    then show ?thesis using one True by (subst flag_parse.simps) (simp add: flag_one_append)
  next
    case False
    then have "r = [] \<and> fs' = f1" using "1.prems"(1) one by (subst (asm) flag_parse.simps) simp
    then have "us = [] \<and> fs' = fs" using flag_one_stop one False "1.prems"(2) by fastforce
    then show ?thesis by simp
  qed
qed

lemma flag_parse_halt: "length s < 2 \<or> hd s \<noteq> CHR ''-'' \<Longrightarrow> flag_parse fs (s # args) = Inr (fs, s # args)"
  by (subst flag_parse.simps) (simp add: flag_one_halt)

lemma flag_parse_Nil: "flag_parse fs [] = Inr (fs, [])"
  by (subst flag_parse.simps) simp

lemma verb_loop_at_verb:
  assumes "flag_parse fs us = Inr (fs', [])" "''--'' \<notin> set us" "v \<noteq> []" "\<not> flag_like v"
  shows "verb_loop fs [] (us @ v # ws) = verb_loop fs' v ws"
proof -
  have "flag_parse fs' (v # ws) = Inr (fs', v # ws)"
    using assms(4) by (auto simp: flag_like_def intro!: flag_parse_halt)
  then have "flag_parse fs (us @ v # ws) = Inr (fs', v # ws)" using flag_parse_append [OF assms(1,2)] by simp
  then show ?thesis using assms(4) by (simp add: verb_loop.simps [of fs])
qed

lemma verb_loop_flags:
  assumes "flag_parse fs us = Inr (fs', [])" "''--'' \<notin> set us"
  shows "verb_loop fs v (us @ ws) = verb_loop fs' v ws"
  using flag_parse_append [OF assms] by (simp add: verb_loop.simps)

text \<open>
  C34. Flags may stand before or after the verb: moving a block of flags that parses on its own from
  before the verb to after it changes neither the verb, nor the flags, nor what is left over, and a
  successful parse leaves no token that looks like a flag unread.
\<close>

theorem verb_order_irrelevant:
  assumes "flag_parse fs us = Inr (fs', [])" "''--'' \<notin> set us" "v \<noteq> []" "\<not> flag_like v"
  shows "parse_verb fs (us @ v # ws) = parse_verb fs (v # us @ ws) \<and>
    (case parse_verb fs (us @ v # ws) of Inr (verb, fs2, extra) \<Rightarrow> verb = v \<and> \<not> list_ex flag_like extra | Inl e \<Rightarrow> True)"
proof -
  have a: "verb_loop fs [] (us @ v # ws) = verb_loop fs' v ws" by (rule verb_loop_at_verb [OF assms])
  have "verb_loop fs [] ([] @ v # us @ ws) = verb_loop fs v (us @ ws)"
    by (rule verb_loop_at_verb) (use assms(3,4) flag_parse_Nil in simp_all)
  then have b: "verb_loop fs [] (v # us @ ws) = verb_loop fs' v ws" using verb_loop_flags [OF assms(1,2)] by simp
  have c: "verb = v" if "verb_loop fs' v ws = Inr (f, verb, x)" for f verb x
    using that assms(3) by (auto simp: verb_loop.simps split: sum.splits list.splits)
  have d: "\<not> list_ex flag_like x" if "first_flag_like x = []" for x
    using that by (auto simp: first_flag_like_def list_ex_iff flag_like_def split: option.splits dest!: first_such_SomeD)
  show ?thesis unfolding parse_verb_def a b
    by (auto split: sum.splits prod.splits dest: c d)
qed

definition demo_flags :: flag_set where
  "demo_flags = [''json'' \<mapsto> FBool False, ''y'' \<mapsto> FBool False, ''dry-run'' \<mapsto> FBool False, ''limit'' \<mapsto> FInt 0]"

lemma verb_order_irrelevant_witness:
  "parse_verb demo_flags [''-y'', ''--limit'', ''3'', ''clean'', ''-dry-run=T''] =
     parse_verb demo_flags [''clean'', ''-y'', ''--limit'', ''3'', ''-dry-run=T'']"
proof -
  have "case flag_parse demo_flags [''-y'', ''--limit'', ''3''] of Inr (fs', r) \<Rightarrow> r = [] | Inl e \<Rightarrow> False"
    by code_simp
  then obtain fs' where "flag_parse demo_flags [''-y'', ''--limit'', ''3''] = Inr (fs', [])"
    by (auto split: sum.splits prod.splits)
  from verb_order_irrelevant [OF this, of "''clean''" "[''-dry-run=T'']"] show ?thesis
    by (simp add: flag_like_def)
qed

subsection \<open>The kinds of the flags\<close>

fun same_kind :: "flag_val \<Rightarrow> flag_val \<Rightarrow> bool" where
  "same_kind (FBool a) (FBool b) = True"
| "same_kind (FInt i) (FInt j) = True"
| "same_kind (FStr s) (FStr t) = True"
| "same_kind v w = False"

definition in_range :: "flag_val \<Rightarrow> bool" where
  "in_range v \<longleftrightarrow> (case v of FInt i \<Rightarrow> in_i64 i | _ \<Rightarrow> True)"

definition same_flags :: "flag_set \<Rightarrow> flag_set \<Rightarrow> bool" where
  "same_flags fs fs' \<longleftrightarrow> (\<forall>n. case fs n of None \<Rightarrow> fs' n = None
     | Some v \<Rightarrow> \<exists>w. fs' n = Some w \<and> same_kind v w \<and> (w = v \<or> in_range w))"

lemma same_kind_refl: "same_kind v v"
  by (cases v) simp_all

lemma same_kind_trans: "same_kind u v \<Longrightarrow> same_kind v w \<Longrightarrow> same_kind u w"
  by (cases u; cases v; cases w) simp_all

lemma same_flags_refl: "same_flags fs fs"
  by (simp add: same_flags_def same_kind_refl split: option.split)

lemma same_flags_trans: "same_flags f g \<Longrightarrow> same_flags g h \<Longrightarrow> same_flags f h"
  unfolding same_flags_def by (auto split: option.splits) (metis option.inject option.distinct(1) same_kind_trans)+

lemma set_val_kind: "set_val v s = Some w \<Longrightarrow> same_kind v w \<and> in_range w"
  by (cases v) (auto simp: in_range_def parse_int0_def Let_def split: prod.splits option.splits if_splits)

lemma flag_one_kind:
  assumes "flag_one fs us = Inr (b, fs', r)"
  shows "same_flags fs fs'"
proof (cases us)
  case (Cons s args)
  show ?thesis
  proof (cases "(length s < 2 \<or> hd s \<noteq> CHR ''-'') \<or> s = ''--''")
    case True
    then have "fs' = fs" using assms Cons flag_one_halt by auto
    then show ?thesis by (simp add: same_flags_refl)
  next
    case False
    then obtain name v old x where o: "fs name = Some old" "set_flag fs name old x = Inr fs'"
      using assms Cons by (auto simp: flag_one_read)
    then obtain w where "set_val old x = Some w" "fs' = fs(name \<mapsto> w)" by (auto simp: set_flag_def split: option.splits)
    then show ?thesis using o set_val_kind by (auto simp: same_flags_def same_kind_refl split: option.split)
  qed
qed (use assms same_flags_refl in simp)

lemma flag_parse_kind: "flag_parse fs us = Inr (fs', r) \<Longrightarrow> same_flags fs fs'"
proof (induction fs us arbitrary: fs' r rule: flag_parse.induct)
  case (1 fs us)
  obtain b f1 r1 where one: "flag_one fs us = Inr (b, f1, r1)" using "1.prems" by (subst (asm) flag_parse.simps) (auto split: sum.splits)
  show ?case
  proof (cases b)
    case True
    then have "flag_parse f1 r1 = Inr (fs', r)" using "1.prems" one by (subst (asm) flag_parse.simps) simp
    with "1.IH" one True have "same_flags f1 fs'" by simp
    with flag_one_kind [OF one] show ?thesis by (rule same_flags_trans)
  next
    case False
    then have "fs' = f1" using "1.prems" one by (subst (asm) flag_parse.simps) simp
    with flag_one_kind [OF one] show ?thesis by simp
  qed
qed

lemma verb_loop_kind: "verb_loop fs v us = Inr (fs', w, r) \<Longrightarrow> same_flags fs fs'"
proof (induction fs v us arbitrary: fs' w r rule: verb_loop.induct)
  case (1 fs v us)
  obtain f1 tl where p: "flag_parse fs us = Inr (f1, tl)" using "1.prems" by (subst (asm) verb_loop.simps) (auto split: sum.splits)
  note k = flag_parse_kind [OF p]
  show ?case
  proof (cases tl)
    case Nil
    then show ?thesis using "1.prems" p k by (subst (asm) verb_loop.simps) simp
  next
    case (Cons t ts)
    show ?thesis
    proof (cases "v = [] \<and> \<not> flag_like t")
      case True
      then have "verb_loop f1 t ts = Inr (fs', w, r)" using "1.prems" p Cons by (subst (asm) verb_loop.simps) simp
      with "1.IH" p Cons True have "same_flags f1 fs'" by simp
      with k show ?thesis by (rule same_flags_trans)
    next
      case False
      then have "fs' = f1" using "1.prems" p Cons by (subst (asm) verb_loop.simps) auto
      with k show ?thesis by simp
    qed
  qed
qed

lemma flag_parse_suffix: "flag_parse fs us = Inr (fs', r) \<Longrightarrow> set r \<subseteq> set us"
proof (induction fs us arbitrary: fs' r rule: flag_parse.induct)
  case (1 fs us)
  obtain more f1 r1 where one: "flag_one fs us = Inr (more, f1, r1)"
    using "1.prems" by (subst (asm) flag_parse.simps) (auto split: sum.splits)
  show ?case
  proof (cases more)
    case True
    have "flag_parse f1 r1 = Inr (fs', r)" using "1.prems" one True by (subst (asm) flag_parse.simps) simp
    from "1.IH" [OF one refl refl True this] flag_one_suffix [OF one] show ?thesis by blast
  next
    case False
    then show ?thesis using "1.prems" one flag_one_suffix [OF one] by (subst (asm) flag_parse.simps) simp
  qed
qed

lemma first_flag_like_filter: "first_flag_like x = (case filter flag_like x of [] \<Rightarrow> [] | t # ts \<Rightarrow> t)"
  by (induction x) (simp_all add: first_flag_like_def)

text \<open>
  C35. What a command line means, without the loop: on arguments none of which is empty, parsing is one pass of
  the flag package up to the verb and a second one over everything behind it, so flags on both sides
  are read; a line without a verb, or with a token like a flag left unread, is refused. And the
  types hold: exactly the defined flags have values afterwards, each of the kind it was declared with, an
  integer that was set being a 64-bit one, so every pointer a command reads its options through holds a value of its type.
\<close>

theorem parse_verb_two_passes:
  assumes "[] \<notin> set args"
  shows "parse_verb fs args = (case flag_parse fs args of Inl e \<Rightarrow> Inl (VerbFlag e) | Inr (fs1, tail) \<Rightarrow>
      (case tail of [] \<Rightarrow> Inl VerbMissing
       | verb # rest \<Rightarrow> if flag_like verb then Inl VerbMissing
           else case flag_parse fs1 rest of Inl e \<Rightarrow> Inl (VerbFlag e) | Inr (fs2, extra) \<Rightarrow>
             (case filter flag_like extra of [] \<Rightarrow> Inr (verb, fs2, extra) | bad # more \<Rightarrow> Inl (VerbUnknownFlag bad verb))))
    \<and> (case parse_verb fs args of Inl e \<Rightarrow> True | Inr (verb, fs', extra) \<Rightarrow> same_flags fs fs')"
proof (rule conjI, goal_cases)
  case 1
  have ne: "v \<noteq> []" if "flag_parse fs args = Inr (f, v # vs)" for f v vs
    using flag_parse_suffix [OF that] assms by auto
  have two: "verb_loop f v rest = (case flag_parse f rest of Inl e \<Rightarrow> Inl e | Inr (f2, x) \<Rightarrow> Inr (f2, v, x))" if "v \<noteq> []" for f v rest
    using that by (subst verb_loop.simps) (auto split: sum.splits list.splits)
  have big: "t \<noteq> []" if "filter flag_like x = t # ts" for x t ts
  proof -
    have "t \<in> set (filter flag_like x)" by (simp add: that)
    then show ?thesis by (auto simp: flag_like_def)
  qed
  show ?case
    unfolding parse_verb_def by (subst verb_loop.simps)
      (auto simp: two ne first_flag_like_filter split: sum.splits list.splits dest: big)
next
  case 2
  then show ?case using verb_loop_kind by (auto simp: parse_verb_def split: sum.splits prod.splits if_splits)
qed

lemma parse_verb_two_passes_witness:
  "\<exists>fs'. parse_verb demo_flags [''clean'', ''--limit'', ''0x10''] = Inr (''clean'', fs', []) \<and> same_flags demo_flags fs' \<and> fs' ''limit'' = Some (FInt 16)"
proof -
  have a: "case flag_parse demo_flags [''clean'', ''--limit'', ''0x10''] of Inl e \<Rightarrow> False | Inr (f1, tail) \<Rightarrow> tail = [''clean'', ''--limit'', ''0x10'']
      \<and> (case flag_parse f1 [''--limit'', ''0x10''] of Inl e \<Rightarrow> False | Inr (f2, x) \<Rightarrow> f2 ''limit'' = Some (FInt 16) \<and> x = [])"
    by code_simp
  then obtain f1 f2 where "flag_parse demo_flags [''clean'', ''--limit'', ''0x10''] = Inr (f1, [''clean'', ''--limit'', ''0x10''])"
      "flag_parse f1 [''--limit'', ''0x10''] = Inr (f2, [])" "f2 ''limit'' = Some (FInt 16)" by (auto split: sum.splits)
  then have p: "parse_verb demo_flags [''clean'', ''--limit'', ''0x10''] = Inr (''clean'', f2, [])" and l: "f2 ''limit'' = Some (FInt 16)"
    using parse_verb_two_passes [of "[''clean'', ''--limit'', ''0x10'']" demo_flags] by (simp_all add: flag_like_def)
  from parse_verb_two_passes [of "[''clean'', ''--limit'', ''0x10'']" demo_flags] have "same_flags demo_flags f2" by (simp add: p)
  with p l show ?thesis by blast
qed

end
