(* ===== verification/CliCore.thy ===== *)
theory CliCore
  imports Output AuditLog GoFlag
begin

text \<open>
  What the cleaning commands of \<open>internal/cli\<close> share: the module contract (\<open>internal/modules/module.go\<close>),
  the prompt (\<open>confirm.go\<close>), the dispatcher (\<open>cli.go\<close>) and the sequence of a clean: prompt, audit log,
  one \<open>Apply\<close> and one record per action. A command returns its exit code, or \<open>None\<close> when it
  dereferences a nil pointer and the process dies.
\<close>

subsection \<open>The module contract\<close>

record 'w cli_module =
  md_scan :: "'w \<Rightarrow> (string + report) \<times> 'w"
  md_plan :: "report \<Rightarrow> mod_action list"
  md_apply :: "mod_action \<Rightarrow> 'w \<Rightarrow> (int \<times> string option) \<times> 'w"

subsection \<open>The terminal\<close>

text \<open>What the reads of standard input will deliver, and what was written to the two outputs.\<close>

record 'w cli =
  cl_world :: 'w
  cl_in :: "string list"
  cl_out :: string
  cl_err :: string
  cl_audit :: audit_os

definition put :: "string \<Rightarrow> 'w cli \<Rightarrow> 'w cli" where
  "put s c = c\<lparr> cl_out := cl_out c @ s \<rparr>"

definition put_err :: "string \<Rightarrow> 'w cli \<Rightarrow> 'w cli" where
  "put_err s c = c\<lparr> cl_err := cl_err c @ s \<rparr>"

definition on_world :: "('w \<Rightarrow> 'a \<times> 'w) \<Rightarrow> 'w cli \<Rightarrow> 'a \<times> 'w cli" where
  "on_world f c = (case f (cl_world c) of (r, w) \<Rightarrow> (r, c\<lparr> cl_world := w \<rparr>))"

text \<open>One \<open>Scan\<close> of a fresh \<open>bufio.Scanner\<close>: reads are taken until one brings a newline, the input
  ends or the buffer is full; what a read brought beyond the line is lost with the scanner.\<close>

fun scan_token :: "string \<Rightarrow> string list \<Rightarrow> string option \<times> string list" where
  "scan_token buf [] = (if buf = [] then None else Some buf, [])"
| "scan_token buf (r # rs) =
     (let b = buf @ r in
      if CHR 0x0A \<in> set b then (Some (takeWhile (\<lambda>c. c \<noteq> CHR 0x0A) b), rs)
      else if 2 ^ 16 \<le> length b then (None, rs)
      else scan_token b rs)"

definition says_yes :: "string list \<Rightarrow> bool" where
  "says_yes inp = (case fst (scan_token [] inp) of None \<Rightarrow> False
     | Some l \<Rightarrow> let a = to_lower (trim_space l) in a = ''y'' \<or> a = ''yes'')"

definition confirm :: "string \<Rightarrow> bool \<Rightarrow> 'w cli \<Rightarrow> bool \<times> 'w cli" where
  "confirm prompt skip c =
     (if skip then (True, put (''(--yes specified, skipping confirmation)'' @ nl) c)
      else (says_yes (cl_in c), (put (prompt @ '' [y/N] '') c)\<lparr> cl_in := snd (scan_token [] (cl_in c)) \<rparr>))"

subsection \<open>A clean\<close>

definition outcome_of :: "string option \<Rightarrow> string \<times> string" where
  "outcome_of e = (case e of Some s \<Rightarrow> (''error'', s) | None \<Rightarrow> (''ok'', []))"

definition audit_rec_of :: "string \<Rightarrow> mod_action \<Rightarrow> int \<Rightarrow> string option \<Rightarrow> audit_rec" where
  "audit_rec_of m a freed e = \<lparr> au_ts = None, au_module = m, au_op = ma_op a, au_target = ma_target a, au_size = freed,
     au_evidence = Map.empty, au_outcome = fst (outcome_of e), au_error = snd (outcome_of e) \<rparr>"

text \<open>The words of one command: what a dry run and a success say before the target, how a success
  gives the bytes, and what a failure says. \<open>cw_enc\<close> is the JSON encoder of the audit log.\<close>

record clean_words =
  cw_module :: string
  cw_would :: string
  cw_done :: string
  cw_freed :: "string \<Rightarrow> string"
  cw_failed :: string
  cw_total :: "int \<Rightarrow> string"
  cw_enc :: "audit_rec \<Rightarrow> string option"
  cw_audit_dir :: path

text \<open>The loop. A log that could not be opened is nil, and writing to it ends the process, after the
  first action has been applied.\<close>

fun clean_actions ::
  "'w cli_module \<Rightarrow> clean_words \<Rightarrow> bool \<Rightarrow> audit_log option \<Rightarrow> mod_action list \<Rightarrow> int \<Rightarrow> 'w cli \<Rightarrow>
     (int \<times> audit_log option) option \<times> 'w cli" where
  "clean_actions md t dry lg [] freed c = (Some (freed, lg), c)"
| "clean_actions md t dry lg (a # as) freed c =
     (if dry then clean_actions md t dry lg as freed
        (put (cw_would t @ ma_target a @ '' ('' @ bytes_string (ma_size a) @ '')'' @ nl) c)
      else case on_world (md_apply md a) c of ((n, e), c1) \<Rightarrow>
        (case lg of None \<Rightarrow> (None, c1)
         | Some l \<Rightarrow> (case audit_write (cw_enc t) (audit_rec_of (cw_module t) a n e) l (cl_audit c1) of ((_, l1), os) \<Rightarrow>
             let c2 = c1\<lparr> cl_audit := os \<rparr> in
             (case e of
                None \<Rightarrow> clean_actions md t dry (Some l1) as (wrap64 (freed + n))
                  (put (cw_done t @ ma_target a @ '' ('' @ cw_freed t (bytes_string n) @ '')'' @ nl) c2)
              | Some s \<Rightarrow> clean_actions md t dry (Some l1) as freed
                  (put_err (cw_failed t @ ma_target a @ '' '' @ em_dash @ '' '' @ s @ nl) c2)))))"

text \<open>From the prompt to the exit: the deferred close of a nil log ends the process as well.\<close>

definition clean_run ::
  "'w cli_module \<Rightarrow> clean_words \<Rightarrow> string \<Rightarrow> bool \<Rightarrow> bool \<Rightarrow> mod_action list \<Rightarrow> 'w cli \<Rightarrow> int option \<times> 'w cli" where
  "clean_run md t prompt yes dry as c =
     (case confirm prompt yes c of
        (False, c1) \<Rightarrow> (Some 0, put (''Aborted.'' @ nl) c1)
      | (True, c1) \<Rightarrow>
          (case audit_new (cw_audit_dir t) (cl_audit c1) of (lg, os) \<Rightarrow>
            (case clean_actions md t dry lg as 0 (c1\<lparr> cl_audit := os \<rparr>) of
               (None, c2) \<Rightarrow> (None, c2)
             | (Some (freed, log1), c2) \<Rightarrow>
                 let c3 = (if dry then c2 else put (cw_total t freed) c2) in
                 (if log1 = None then None else Some 0, c3))))"

text \<open>Scanning, and what a failing scan does.\<close>

definition scan_then :: "'w cli_module \<Rightarrow> (report \<Rightarrow> 'w cli \<Rightarrow> int option \<times> 'w cli) \<Rightarrow> 'w cli \<Rightarrow> int option \<times> 'w cli" where
  "scan_then md f c = (case on_world (md_scan md) c of
     (Inl e, c1) \<Rightarrow> (Some 1, put_err (''scan: '' @ e @ nl) c1)
   | (Inr rep, c1) \<Rightarrow> f rep c1)"

definition planned_size :: "mod_action list \<Rightarrow> int" where
  "planned_size as = fold (\<lambda>a n. wrap64 (n + ma_size a)) as 0"

subsection \<open>Dispatch\<close>

text \<open>\<open>App.Run\<close>; the table maps a name to its command, and the usage is an argument.\<close>

definition app_run ::
  "string \<Rightarrow> (string \<Rightarrow> (string list \<Rightarrow> 'w cli \<Rightarrow> int option \<times> 'w cli) option) \<Rightarrow> string list \<Rightarrow> 'w cli \<Rightarrow> int option \<times> 'w cli" where
  "app_run usage commands argv c =
     (case argv of
        _ # name # args \<Rightarrow>
          (case commands name of
             None \<Rightarrow> (Some 2, put usage (put_err (''noo-noo: unknown command '' @ go_quote name @ nl @ nl) c))
           | Some cmd \<Rightarrow> cmd args c)
      | _ \<Rightarrow> (Some 0, put usage c))"

text \<open>The tail of \<open>parseVerb\<close>: what it prints besides the flag package's own text.\<close>

definition with_verb ::
  "string \<Rightarrow> flag_set \<Rightarrow> string list \<Rightarrow> (string \<Rightarrow> flag_set \<Rightarrow> string list \<Rightarrow> 'w cli \<Rightarrow> int option \<times> 'w cli) \<Rightarrow> 'w cli \<Rightarrow>
     int option \<times> 'w cli" where
  "with_verb usage fs args f c =
     (case parse_verb fs args of
        Inl (VerbFlag e) \<Rightarrow> (Some 2, c)
      | Inl VerbMissing \<Rightarrow> (Some 2, put_err (usage @ nl) c)
      | Inl (VerbUnknownFlag b v) \<Rightarrow>
          (Some 2, put_err (''unknown flag '' @ go_quote b @ '' after subcommand '' @ go_quote v @ nl) c)
      | Inr (v, fs', extra) \<Rightarrow> f v fs' extra c)"

definition base_flags :: flag_set where
  "base_flags = [''json'' \<mapsto> FBool False, ''y'' \<mapsto> FBool False, ''dry-run'' \<mapsto> FBool False]"

definition unknown_sub :: "string \<Rightarrow> string \<Rightarrow> string" where
  "unknown_sub cmd verb = ''unknown '' @ cmd @ '' subcommand '' @ go_quote verb @ nl"

subsection \<open>What a clean may change\<close>

lemma put_simps [simp]:
  "cl_world (put s c) = cl_world c" "cl_audit (put s c) = cl_audit c" "cl_in (put s c) = cl_in c"
  "cl_world (put_err s c) = cl_world c" "cl_audit (put_err s c) = cl_audit c" "cl_in (put_err s c) = cl_in c"
  by (simp_all add: put_def put_err_def)

lemma confirm_world: "confirm p s c = (b, c1) \<Longrightarrow> cl_world c1 = cl_world c \<and> cl_audit c1 = cl_audit c \<and> (b \<longrightarrow> s \<or> says_yes (cl_in c))"
  by (auto simp: confirm_def split: if_splits)

lemma clean_actions_dry: "cl_world (snd (clean_actions md t True lg as freed c)) = cl_world c"
  by (induction as arbitrary: freed c) simp_all

lemma clean_actions_next:
  assumes "clean_actions md t dry (Some l) (a # as) freed c = (r, c')" "\<not> dry"
    "\<And>l2 f2 c2. clean_actions md t dry l2 as f2 c2 = (r, c') \<Longrightarrow> cl_world c2 = snd (md_apply md a (cl_world c)) \<Longrightarrow> P"
  shows P
proof -
  obtain n e w1 where ap: "md_apply md a (cl_world c) = ((n, e), w1)" by (metis surj_pair)
  obtain x l1 os where wr: "audit_write (cw_enc t) (audit_rec_of (cw_module t) a n e) l (cl_audit c) = ((x, l1), os)" by (metis surj_pair)
  let ?c2 = "c\<lparr> cl_world := w1, cl_audit := os \<rparr>"
  show P
  proof (cases e)
    case None
    show P by (rule assms(3) [of "Some l1" "wrap64 (freed + n)" "put (cw_done t @ ma_target a @ '' ('' @ cw_freed t (bytes_string n) @ '')'' @ nl) ?c2"])
        (use assms(1,2) None ap wr in \<open>simp_all add: on_world_def\<close>)
  next
    case (Some s)
    show P by (rule assms(3) [of "Some l1" freed "put_err (cw_failed t @ ma_target a @ '' '' @ em_dash @ '' '' @ s @ nl) ?c2"])
        (use assms(1,2) Some ap wr in \<open>simp_all add: on_world_def\<close>)
  qed
qed

text \<open>The interface between the commands and the modules: an observation of the world that scanning
  does not change, and a relation of it every \<open>Apply\<close> respects.\<close>

locale cleaner =
  fixes md :: "'w cli_module"
    and obs :: "'w \<Rightarrow> 'o"
    and removal :: "mod_action \<Rightarrow> 'o \<Rightarrow> 'o \<Rightarrow> bool"
  assumes scan_obs: "md_scan md w = (r, w') \<Longrightarrow> obs w' = obs w"
    and apply_obs: "md_apply md a w = (x, w') \<Longrightarrow> obs w' \<noteq> obs w \<Longrightarrow> removal a (obs w) (obs w')"
begin

lemma actions_removal:
  assumes "clean_actions md t dry lg as freed c = (r, c')"
  shows "(\<lambda>x y. \<exists>a \<in> set as. removal a x y)\<^sup>*\<^sup>* (obs (cl_world c)) (obs (cl_world c')) \<and> (dry \<longrightarrow> obs (cl_world c') = obs (cl_world c))"
  using assms
proof (induction as arbitrary: lg freed c)
  case (Cons a as)
  let ?R = "\<lambda>x y. \<exists>b \<in> set (a # as). removal b x y" and ?S = "\<lambda>x y. \<exists>b \<in> set as. removal b x y"
  have mono: "?R\<^sup>*\<^sup>* x y" if "?S\<^sup>*\<^sup>* x y" for x y
    by (rule rtranclp_mono [THEN predicate2D, OF _ that]) auto
  show ?case
  proof (cases dry)
    case True
    then show ?thesis using clean_actions_dry [of md t lg "a # as" freed c] Cons.prems by simp
  next
    case False
    obtain n e w1 where ap: "md_apply md a (cl_world c) = ((n, e), w1)" by (metis surj_pair)
    have step: "?R\<^sup>*\<^sup>* (obs (cl_world c)) (obs w1)"
      using apply_obs [OF ap] by (cases "obs w1 = obs (cl_world c)") auto
    show ?thesis
    proof (cases lg)
      case None
      then have "c' = c\<lparr> cl_world := w1 \<rparr>" using Cons.prems False ap by (simp add: on_world_def)
      then have "cl_world c' = w1" by simp
      then show ?thesis using step False by simp
    next
      case (Some l)
      obtain l2 f2 c2 where "clean_actions md t dry l2 as f2 c2 = (r, c')" and w2: "cl_world c2 = w1"
      proof (rule clean_actions_next [of md t dry l a as freed c r c'])
        show "clean_actions md t dry (Some l) (a # as) freed c = (r, c')" using Cons.prems Some by simp
      qed (auto simp: False ap)
      then have "?S\<^sup>*\<^sup>* (obs w1) (obs (cl_world c'))" using Cons.IH w2 by metis
      then show ?thesis using rtranclp_trans [OF step mono] False by simp
    qed
  qed
qed simp

text \<open>A clean changes what is observed only with consent and outside a dry run, and then by the
  removals of the planned actions.\<close>

lemma run_removal:
  assumes "clean_run md t p yes dry as c = (r, c')"
  shows "(\<lambda>x y. \<exists>a \<in> set as. removal a x y)\<^sup>*\<^sup>* (obs (cl_world c)) (obs (cl_world c')) \<and>
    (obs (cl_world c') \<noteq> obs (cl_world c) \<longrightarrow> \<not> dry \<and> (yes \<or> says_yes (cl_in c)))"
proof -
  obtain b c1 where cf: "confirm p yes c = (b, c1)" by fastforce
  have w1: "cl_world c1 = cl_world c" "b \<longrightarrow> yes \<or> says_yes (cl_in c)" using confirm_world [OF cf] by auto
  show ?thesis
  proof (cases b)
    case True
    obtain lg os where n: "audit_new (cw_audit_dir t) (cl_audit c1) = (lg, os)" by fastforce
    obtain r2 c2 where ac: "clean_actions md t dry lg as 0 (c1\<lparr> cl_audit := os \<rparr>) = (r2, c2)" by fastforce
    have "cl_world c' = cl_world c2"
      using assms True by (auto simp: clean_run_def cf n ac Let_def split: option.splits if_splits prod.splits)
    then show ?thesis using actions_removal [OF ac] w1 True by auto
  next
    case False
    then show ?thesis using assms w1 by (simp add: clean_run_def cf) force
  qed
qed

lemma scan_then_obs:
  assumes "scan_then md f c = (r, c')"
  shows "obs (cl_world c') = obs (cl_world c) \<or>
    (\<exists>rep c1. fst (md_scan md (cl_world c)) = Inr rep \<and> obs (cl_world c1) = obs (cl_world c) \<and> cl_in c1 = cl_in c \<and>
       cl_audit c1 = cl_audit c \<and> f rep c1 = (r, c'))"
proof -
  obtain x w where s: "md_scan md (cl_world c) = (x, w)" by fastforce
  have o: "obs w = obs (cl_world c)" by (rule scan_obs [OF s])
  show ?thesis using assms o
    by (cases x) (auto simp: scan_then_def on_world_def s intro!: exI [of _ "c\<lparr> cl_world := w \<rparr>"])
qed

end

subsection \<open>The audit trail of a clean\<close>

lemma clean_actions_dry_audit: "cl_audit (snd (clean_actions md t True lg as freed c)) = cl_audit c"
  by (induction as arbitrary: freed c) simp_all

lemma clean_actions_audit:
  "clean_actions md t False lg as freed c = (r, c') \<Longrightarrow> (\<And>l. lg = Some l \<Longrightarrow> log_ok dir l) \<Longrightarrow>
     audit_effect dir False (cl_audit c) (cl_audit c')"
proof (induction as arbitrary: lg freed c)
  case Nil
  then show ?case by (simp add: audit_effect_refl)
next
  case (Cons a as)
  obtain n e c1 where ap: "on_world (md_apply md a) c = ((n, e), c1)" by (metis surj_pair)
  have c1: "cl_audit c1 = cl_audit c" using ap by (auto simp: on_world_def split: prod.splits)
  show ?case
  proof (cases lg)
    case None
    then show ?thesis using Cons.prems(1) ap c1 by (simp add: audit_effect_refl)
  next
    case (Some l)
    obtain x l1 os where wr: "audit_write (cw_enc t) (audit_rec_of (cw_module t) a n e) l (cl_audit c1) = ((x, l1), os)" by (metis surj_pair)
    note l1 = log_ok_write [OF Cons.prems(2) [OF Some] wr]
    obtain f2 c2 where c2: "clean_actions md t False (Some l1) as f2 c2 = (r, c')" "cl_audit c2 = os"
    proof (cases e)
      case None
      show ?thesis by (rule that [of _ "put _ (c1\<lparr> cl_audit := os \<rparr>)"]) (use Cons.prems(1) ap wr Some None in simp_all)
    next
      case (Some s)
      show ?thesis by (rule that [of _ "put_err _ (c1\<lparr> cl_audit := os \<rparr>)"]) (use Cons.prems(1) ap wr \<open>lg = Some l\<close> Some in simp_all)
    qed
    have "audit_effect dir False os (cl_audit c')" using Cons.IH [OF c2(1)] l1 c2(2) by simp
    moreover have "audit_effect dir False (cl_audit c) os"
      using audit_effect_write [OF Cons.prems(2) [OF Some] wr] c1 by simp
    ultimately show ?thesis by (rule audit_effect_trans [rotated])
  qed
qed

text \<open>A clean touches its audit directory only after the prompt, dry run or not, and a dry run writes no record.\<close>

lemma clean_run_audit:
  assumes "clean_run md t p yes dry as c = (r, c')"
  shows "audit_effect (cw_audit_dir t) dry (cl_audit c) (cl_audit c') \<and>
    (cl_audit c' \<noteq> cl_audit c \<longrightarrow> yes \<or> says_yes (cl_in c))"
proof -
  obtain b c1 where cf: "confirm p yes c = (b, c1)" by fastforce
  have w1: "cl_audit c1 = cl_audit c" "b \<longrightarrow> yes \<or> says_yes (cl_in c)" using confirm_world [OF cf] by auto
  show ?thesis
  proof (cases b)
    case True
    obtain lg os where n: "audit_new (cw_audit_dir t) (cl_audit c) = (lg, os)" by fastforce
    obtain r2 c2 where ac: "clean_actions md t dry lg as 0 (c1\<lparr> cl_audit := os \<rparr>) = (r2, c2)" by fastforce
    have c': "cl_audit c' = cl_audit c2"
      using assms True by (auto simp: clean_run_def cf n ac w1 Let_def split: option.splits if_splits prod.splits)
    have "audit_effect (cw_audit_dir t) dry os (cl_audit c2)"
    proof (cases dry)
      case True
      then show ?thesis using clean_actions_dry_audit [of md t lg as 0 "c1\<lparr> cl_audit := os \<rparr>"] ac by (simp add: audit_effect_refl)
    next
      case False
      then show ?thesis using clean_actions_audit [of md t lg as 0 _ r2 c2 "cw_audit_dir t"] ac log_ok_new n by fastforce
    qed
    then show ?thesis using audit_effect_trans [OF audit_effect_new] n c' w1(2) True by (metis snd_conv)
  next
    case False
    then have "cl_audit c' = cl_audit c" using assms w1(1) by (auto simp: clean_run_def cf)
    then show ?thesis by (simp add: audit_effect_refl)
  qed
qed

text \<open>When no call of the audit log fails, every action that is applied leaves one record, in order.\<close>

lemma nil_log_applies_one:
  "clean_actions md t False None (a # as) freed c = (None, snd (on_world (md_apply md a) c))"
  by (simp split: prod.split)

lemma nil_log_kills: "fst (clean_actions md t dry None as freed c) = Some (x, lg) \<Longrightarrow> lg = None"
  by (induction as arbitrary: freed c) (auto split: prod.splits if_splits)

end
