(* ===== verification/CliClean.thy ===== *)
theory CliClean
  imports CliCore CleanModules OrphanApps LeakSafe
begin

text \<open>
  The commands \<open>dev\<close>, \<open>caches\<close>, \<open>apps\<close> and \<open>leaks\<close> of \<open>internal/cli\<close> on the file-system machine. Each
  builds its module, scans, prints and, for \<open>clean\<close>, runs the sequence of \<open>CliCore\<close>.
\<close>

subsection \<open>The environment of a command\<close>

text \<open>The home directory, when it is known; the JSON encoders; the width of the terminal; the working
  directory; the context as polled in the scan and in the \<open>Apply\<close> of each action, and its error.\<close>

record env =
  en_home :: "path option"
  en_json :: json_enc
  en_audit_json :: "audit_rec \<Rightarrow> string option"
  en_width :: "int option"
  en_cwd :: "path option"
  en_stop :: "mod_action option \<Rightarrow> nat \<Rightarrow> bool"
  en_ctx_err :: string

definition home_dir :: "env \<Rightarrow> path" where
  "home_dir e = (case en_home e of Some h \<Rightarrow> h | None \<Rightarrow> ''.'')"

definition audit_dir :: "env \<Rightarrow> path" where
  "audit_dir e = join_path [home_dir e, ''Library'', ''Logs'', ''noo-noo'']"

definition show_report :: "env \<Rightarrow> report \<Rightarrow> bool \<Rightarrow> 'w cli \<Rightarrow> 'w cli" where
  "show_report e rep json = put (print_report (en_json e) (en_width e) rep json)"

definition count_text :: "'a list \<Rightarrow> string" where
  "count_text as = itoa (int (length as))"

text \<open>A module whose scan reports whether it completed, and whose \<open>Apply\<close> returns a size or an error.\<close>

definition scan_result :: "env \<Rightarrow> report \<times> bool \<Rightarrow> string + report" where
  "scan_result e x = (if snd x then Inr (fst x) else Inl (en_ctx_err e))"

definition sum_result :: "('e \<Rightarrow> string) \<Rightarrow> 'e + int \<Rightarrow> int \<times> string option" where
  "sum_result txt r = (case r of Inl x \<Rightarrow> (0, Some (txt x)) | Inr n \<Rightarrow> (n, None))"

definition pair_result :: "('e \<Rightarrow> string) \<Rightarrow> int \<times> 'e option \<Rightarrow> int \<times> string option" where
  "pair_result txt r = (fst r, map_option txt (snd r))"

definition words ::
  "env \<Rightarrow> string \<Rightarrow> string \<Rightarrow> string \<Rightarrow> string \<Rightarrow> (string \<Rightarrow> string) \<Rightarrow> string \<Rightarrow> clean_words" where
  "words e m would done failed freed total_tail =
     \<lparr> cw_module = m, cw_would = would @ '': '', cw_done = done @ '': '', cw_freed = freed, cw_failed = failed @ '': '',
       cw_total = (\<lambda>n. ''Freed '' @ bytes_string n @ total_tail @ nl), cw_enc = en_audit_json e, cw_audit_dir = audit_dir e \<rparr>"

definition measured_freed :: "string \<Rightarrow> string" where
  "measured_freed n = ''freed '' @ n @ '', statfs-measured''"

subsection \<open>dev\<close>

definition dev_module :: "env \<Rightarrow> (module_err \<Rightarrow> string) \<Rightarrow> dev \<Rightarrow> machine cli_module" where
  "dev_module e txt d =
     \<lparr> md_scan = (\<lambda>m. map_prod (scan_result e) id (dev_scan d (en_stop e None) m)),
       md_plan = dev_plan,
       md_apply = (\<lambda>a m. map_prod (sum_result txt) id (dev_apply d a m)) \<rparr>"

definition cli_dev :: "env \<Rightarrow> (time \<Rightarrow> string) \<Rightarrow> path list \<Rightarrow> dev" where
  "cli_dev e tm roots = \<lparr> de_roots = roots, de_safety = new_safety (en_cwd e) roots [''.git''], de_cwd = en_cwd e, de_time = tm \<rparr>"

definition dev_verb :: "env \<Rightarrow> machine cli_module \<Rightarrow> string \<Rightarrow> flag_set \<Rightarrow> report \<Rightarrow> machine cli \<Rightarrow> int option \<times> machine cli" where
  "dev_verb e md verb fs rep c =
     (let json = flag_bool fs ''json'' in
      if verb = ''list'' then (Some 0, show_report e rep json c)
      else if verb = ''clean'' then
        (let as = md_plan md rep in
         if as = [] then (Some 0, put (''Nothing to clean.'' @ nl) c)
         else clean_run md (words e ''dev'' ''would delete'' ''deleted'' ''failed'' id ''.'')
                (''Delete '' @ count_text as @ '' folder(s) totalling '' @ bytes_string (rp_total rep) @ ''?'')
                (flag_bool fs ''y'') (flag_bool fs ''dry-run'') as (show_report e rep json c))
      else (Some 2, put_err (unknown_sub ''dev'' verb) c))"

definition dev_flags :: "env \<Rightarrow> flag_set" where
  "dev_flags e = base_flags(''roots'' \<mapsto> FStr (join_path [home_dir e, ''Documents'', ''GitHub'']))"

definition dev_cmd :: "env \<Rightarrow> (module_err \<Rightarrow> string) \<Rightarrow> (time \<Rightarrow> string) \<Rightarrow> string list \<Rightarrow> machine cli \<Rightarrow> int option \<times> machine cli" where
  "dev_cmd e txt tm args c =
     with_verb ''Usage: noo-noo dev [list|clean] [flags]'' (dev_flags e) args
       (\<lambda>verb fs extra c1.
          let md = dev_module e txt (cli_dev e tm (split_csv (flag_str fs ''roots''))) in
          scan_then md (dev_verb e md verb fs) c1) c"

subsection \<open>caches\<close>

definition cache_rels :: "path list" where
  "cache_rels = [''Library/Caches/Yarn'', ''Library/Caches/pnpm'', ''Library/Caches/Google'', ''Library/Caches/com.spotify.client'',
     ''Library/Caches/Adobe'', ''Library/Caches/Arc'', ''Library/Caches/curseforge-updater'', ''Library/Caches/go-build'',
     ''Library/Caches/Cursor'', ''Library/Caches/typescript'', ''Library/Caches/composer'', ''Library/Caches/node-gyp'',
     ''Library/Caches/electron'', ''Library/Developer/CoreSimulator/Caches/dyld'']"

definition default_cache_targets :: "env \<Rightarrow> machine \<Rightarrow> path list \<times> machine" where
  "default_cache_targets e m =
     (case os_glob (join_path [home_dir e, ''Library'', ''Caches'', ''*.ShipIt'']) m of (r, m1) \<Rightarrow>
        (map (\<lambda>r. join_path [home_dir e, r]) cache_rels @ (case r of None \<Rightarrow> [] | Some ps \<Rightarrow> ps), m1))"

definition default_cache_safety :: "env \<Rightarrow> safety" where
  "default_cache_safety e = new_safety (en_cwd e)
     [join_path [home_dir e, ''Library'', ''Caches''], join_path [home_dir e, ''Library'', ''Developer'', ''CoreSimulator'', ''Caches'']] []"

definition new_caches_module :: "env \<Rightarrow> machine \<Rightarrow> caches \<times> machine" where
  "new_caches_module e m = (case default_cache_targets e m of (ts, m1) \<Rightarrow>
     (with_report_only [(join_path [home_dir e, ''.Trash''], ''Empty Trash'')]
        \<lparr> ch_targets = ts, ch_safety = default_cache_safety e, ch_report_only = [], ch_cwd = en_cwd e \<rparr>, m1))"

definition caches_module :: "env \<Rightarrow> (module_err \<Rightarrow> string) \<Rightarrow> caches \<Rightarrow> machine cli_module" where
  "caches_module e txt h =
     \<lparr> md_scan = (\<lambda>m. map_prod (scan_result e) id (caches_scan h (en_stop e None) m)),
       md_plan = caches_plan h,
       md_apply = (\<lambda>a m. map_prod (sum_result txt) id (caches_apply h a m)) \<rparr>"

definition report_only_notes :: "report \<Rightarrow> bool \<Rightarrow> string" where
  "report_only_notes rep json = (if json then [] else concat (map (\<lambda>it.
     if ev_get (it_evidence it) ''report_only'' = ''true''
     then ''note: '' @ it_path it @ '' ('' @ bytes_string (it_size it) @ '') is reported only '' @ em_dash @ '' '' @
          ev_get (it_evidence it) ''suggestion'' @ nl
     else []) (rp_items rep)))"

definition caches_verb :: "env \<Rightarrow> machine cli_module \<Rightarrow> string \<Rightarrow> flag_set \<Rightarrow> report \<Rightarrow> machine cli \<Rightarrow> int option \<times> machine cli" where
  "caches_verb e md verb fs rep c =
     (let json = flag_bool fs ''json''; notes = put (report_only_notes rep json) in
      if verb = ''list'' then (Some 0, notes (show_report e rep json c))
      else if verb = ''clean'' then
        (let as = md_plan md rep in
         if as = [] then (Some 0, notes (put (''Nothing to clean.'' @ nl) c))
         else clean_run md (words e ''caches'' ''would clear'' ''cleared'' ''failed'' id ''.'')
                (''Clear '' @ count_text as @ '' cache target(s) totalling '' @ bytes_string (planned_size as) @ ''?'')
                (flag_bool fs ''y'') (flag_bool fs ''dry-run'') as (notes (show_report e rep json c)))
      else (Some 2, put_err (unknown_sub ''caches'' verb) c))"

definition caches_cmd :: "env \<Rightarrow> (module_err \<Rightarrow> string) \<Rightarrow> string list \<Rightarrow> machine cli \<Rightarrow> int option \<times> machine cli" where
  "caches_cmd e txt args c =
     with_verb ''Usage: noo-noo caches [list|clean]'' base_flags args
       (\<lambda>verb fs extra c1. case on_world (new_caches_module e) c1 of (h, c2) \<Rightarrow>
          scan_then (caches_module e txt h) (caches_verb e (caches_module e txt h) verb fs) c2) c"

subsection \<open>apps\<close>

text \<open>\<open>mdfind\<close> is the Spotlight query, run anew for every index; \<open>base\<close> has the collaborators of the module.\<close>

definition new_apps_module :: "env \<Rightarrow> (machine \<Rightarrow> string + string) \<Rightarrow> apps \<Rightarrow> apps" where
  "new_apps_module e mdfind base = new_apps (base\<lparr> am_index := build_index mdfind (en_home e), am_cwd := en_cwd e \<rparr>)
     (default_library_roots (home_dir e)) (default_curated (home_dir e))"

definition apps_module :: "env \<Rightarrow> (app_err freed_err \<Rightarrow> string) \<Rightarrow> apps \<Rightarrow> machine cli_module" where
  "apps_module e txt a =
     \<lparr> md_scan = (\<lambda>m. map_prod (scan_result e) id (apps_scan a (en_stop e None) m)),
       md_plan = apps_plan,
       md_apply = (\<lambda>x m. map_prod (pair_result txt) id (apps_apply a x m)) \<rparr>"

definition line_if :: "string \<Rightarrow> string \<Rightarrow> string" where
  "line_if label v = (if v = [] then [] else ''  '' @ label @ v @ nl)"

definition app_details :: "item \<Rightarrow> string" where
  "app_details it =
     (let ev = ev_get (it_evidence it) in
      nl @ it_path it @ nl @ ''  '' @ ev ''reason'' @ nl @
      (if ev ''sparse_fiction_bytes'' \<noteq> []
       then ''  apparent '' @ ev ''logical_bytes'' @ '' bytes, really allocated '' @ ev ''unique_allocated_bytes'' @
            '' bytes (sparse: '' @ ev ''sparse_fiction_bytes'' @ '' bytes never written)'' @ nl
       else if ev ''du_fiction_bytes'' \<noteq> []
       then ''  du would say '' @ ev ''blocks_bytes'' @ '' bytes; really reclaimable '' @ ev ''unique_allocated_bytes'' @
            '' bytes (APFS-clone fiction: '' @ ev ''du_fiction_bytes'' @ '' bytes)'' @ nl
       else []) @
      line_if ''resolver: '' (ev ''resolver'') @ line_if ''suggest: '' (ev ''suggestion''))"

definition apps_verb :: "env \<Rightarrow> machine cli_module \<Rightarrow> string \<Rightarrow> flag_set \<Rightarrow> report \<Rightarrow> machine cli \<Rightarrow> int option \<times> machine cli" where
  "apps_verb e md verb fs rep c =
     (let json = flag_bool fs ''json'';
          c1 = put (if json then [] else concat (map app_details (rp_items rep))) (show_report e rep json c);
          as = md_plan md rep in
      if verb = ''list'' then (Some 0, c1)
      else if as = [] then (Some 0, put (''No orphaned app data to clean.'' @ nl) c1)
      else clean_run md (words e ''apps'' ''would delete'' ''deleted'' ''refused/failed'' measured_freed '' (real, statfs-measured).'')
             (''Delete '' @ count_text as @ '' orphaned app-data dir(s), ~'' @ bytes_string (planned_size as) @
              '' real? (data of uninstalled apps '' @ em_dash @ '' not regenerable)'')
             (flag_bool fs ''y'') (flag_bool fs ''dry-run'') as c1)"

definition apps_cmd ::
  "env \<Rightarrow> (app_err freed_err \<Rightarrow> string) \<Rightarrow> (machine \<Rightarrow> string + string) \<Rightarrow> apps \<Rightarrow> string list \<Rightarrow> machine cli \<Rightarrow> int option \<times> machine cli" where
  "apps_cmd e txt mdfind base args c =
     with_verb ''Usage: noo-noo apps [list|clean]'' base_flags args
       (\<lambda>verb fs extra c1.
          if verb \<notin> {''list'', ''clean''} then (Some 2, put_err (unknown_sub ''apps'' verb) c1)
          else let md = apps_module e txt (new_apps_module e mdfind base) in scan_then md (apps_verb e md verb fs) c1) c"

subsection \<open>leaks\<close>

definition new_leaks_module :: "env \<Rightarrow> leaks \<Rightarrow> leaks" where
  "new_leaks_module e base = base\<lparr> lk_sigs := default_signatures, lk_safety := new_safety (en_cwd e) [] [], lk_cwd := en_cwd e \<rparr>"

definition leaks_module :: "env \<Rightarrow> (leak_err freed_err \<Rightarrow> string) \<Rightarrow> leaks \<Rightarrow> machine cli_module" where
  "leaks_module e txt l =
     \<lparr> md_scan = (\<lambda>m. map_prod (\<lambda>x. scan_result e (fst x, \<not> snd x)) id (leaks_scan l (en_stop e None) m)),
       md_plan = leaks_plan l,
       md_apply = (\<lambda>a m. map_prod (pair_result txt) id (leaks_apply l (en_stop e (Some a)) a m)) \<rparr>"

definition strupper :: "string \<Rightarrow> string" where
  "strupper s = (if s = ''stale'' then ''STALE'' else if s = ''live'' then ''LIVE'' else s)"

definition leak_details :: "item \<Rightarrow> string" where
  "leak_details it =
     (let ev = ev_get (it_evidence it) in
      nl @ strupper (ev ''staleness'') @ '' ['' @ ev ''signature'' @ ''] '' @ it_path it @ nl @
      (if ev ''blocks_bytes'' \<noteq> [] \<and> ev ''du_fiction_bytes'' \<noteq> []
       then ''  du would say '' @ ev ''blocks_bytes'' @ '' bytes; really reclaimable '' @ ev ''unique_allocated_bytes'' @
            '' bytes (APFS-clone fiction: '' @ ev ''du_fiction_bytes'' @ '' bytes)'' @ nl
       else if ev ''unique_allocated_bytes'' \<noteq> []
       then ''  really reclaimable: '' @ ev ''unique_allocated_bytes'' @ '' bytes'' @ nl else []) @
      line_if ''liveness: '' (ev ''lsof'') @ line_if ''alias arbitration: '' (ev ''causality'') @
      line_if ''age: '' (ev ''age'') @ line_if ''prevent: '' (ev ''workaround''))"

definition show_leaks :: "env \<Rightarrow> report \<Rightarrow> bool \<Rightarrow> 'w cli \<Rightarrow> 'w cli" where
  "show_leaks e rep json c = put (if json then [] else concat (map leak_details (rp_items rep))) (show_report e rep json c)"

definition leaks_verb :: "env \<Rightarrow> machine cli_module \<Rightarrow> string \<Rightarrow> flag_set \<Rightarrow> report \<Rightarrow> machine cli \<Rightarrow> int option \<times> machine cli" where
  "leaks_verb e md verb fs rep c =
     (let json = flag_bool fs ''json'' in
      if verb \<noteq> ''clean'' then (Some 0, show_leaks e rep json c)
      else let as = md_plan md rep; planned = min (rp_total rep) (planned_size as) in
        if as = [] then (Some 0, put (''Nothing provably stale to clean. (LIVE hits are never deletable.)'' @ nl) c)
        else clean_run md (words e ''leaks'' ''would delete'' ''deleted'' ''refused/failed'' measured_freed '' (real, statfs-measured).'')
               (''Delete '' @ count_text as @ '' stale leak hit(s), up to '' @ bytes_string planned @ '' real reclaimable?'')
               (flag_bool fs ''y'') (flag_bool fs ''dry-run'') as (show_leaks e rep json c))"

definition leaks_cmd ::
  "env \<Rightarrow> (leak_err freed_err \<Rightarrow> string) \<Rightarrow> leaks \<Rightarrow> string list \<Rightarrow> machine cli \<Rightarrow> int option \<times> machine cli" where
  "leaks_cmd e txt base args c =
     with_verb ''Usage: noo-noo leaks [list|scan|clean]'' base_flags args
       (\<lambda>verb fs extra c1.
          if verb \<notin> {''list'', ''scan'', ''clean''} then (Some 2, put_err (unknown_sub ''leaks'' verb) c1)
          else let md = leaks_module e txt (new_leaks_module e base) in scan_then md (leaks_verb e md verb fs) c1) c"

end
