(* ===== verification/CliOffload.thy ===== *)
theory CliOffload
  imports CliClean Pending
begin

text \<open>
  The command \<open>offload\<close> (\<open>internal/cli/offload_cmd.go\<close>): scan, plan and apply, the offer to queue a
  stop-gated relocation, and the verbs of the queue. The world is the one of the relocation queue: the
  daemon's store, a clock and the file-system machine.
\<close>

subsection \<open>Setup\<close>

text \<open>The configuration and module of the command, whether the store opens, and the words of errors:
  of an \<open>Apply\<close>, of a block, of a re-check's error, of a volume refusal, of the queue's refusals.\<close>

record off_env =
  oe_env :: env
  oe_mod :: offload
  oe_open :: "qworld \<Rightarrow> string option"
  oe_err :: "off_err \<Rightarrow> string"
  oe_block :: "block_reason \<Rightarrow> string"
  oe_note :: "pending_result \<Rightarrow> string"
  oe_vol :: "vol_err \<Rightarrow> string"
  oe_queue :: "mod_action \<Rightarrow> string"
  oe_run :: "pending_err \<Rightarrow> string"
  oe_resolve :: "reloc_err \<Rightarrow> string"
  oe_list :: string
  oe_row_json :: "reloc_row \<Rightarrow> string option"

text \<open>A configuration that does not load is replaced by the defaults.\<close>

definition config_or_default :: "path \<Rightarrow> (string \<Rightarrow> config \<Rightarrow> config \<times> bool) \<Rightarrow> file_read \<Rightarrow> config" where
  "config_or_default home toml file = (case load_config home toml file of (c, None) \<Rightarrow> c | (c, Some x) \<Rightarrow> default_config home)"

definition offload_setup :: "offload \<Rightarrow> config \<Rightarrow> offload" where
  "offload_setup base cfg = base\<lparr> of_playbooks := default_playbooks, of_dest_root := oc_dest_root (cf_offload cfg),
     of_dest_uuid := oc_dest_uuid (cf_offload cfg) \<rparr>"

definition clock_now :: "qworld cli \<Rightarrow> time \<times> qworld cli" where
  "clock_now = on_world now_at"

definition arrow :: string where
  "arrow = map char_of [226, 134, 146 :: nat]"

definition middle_dot :: string where
  "middle_dot = map char_of [194, 183 :: nat]"

definition offload_module :: "off_env \<Rightarrow> qworld cli_module" where
  "offload_module x =
     \<lparr> md_scan = (\<lambda>w. map_prod (scan_result (oe_env x)) id (on_rest (offload_scan (oe_vol x) (oe_mod x) (en_stop (oe_env x) None)) w)),
       md_plan = offload_plan (oe_mod x),
       md_apply = (\<lambda>a w. map_prod (sum_result (oe_err x)) id (on_rest (offload_apply (oe_mod x) a) w)) \<rparr>"

subsection \<open>Evidence and ages\<close>

definition offload_evidence :: "item \<Rightarrow> string" where
  "offload_evidence it =
     (let ev = ev_get (it_evidence it); cl = ev ''class'' in
      if cl = ''native-config'' then nl @ it_path it @ '' [native-config]'' @ nl @ ''  run: '' @ ev ''native_command'' @ nl
      else if cl = ''relocate'' then nl @ it_path it @ '' [relocate]'' @
        (if ev ''never_delete'' = ''true'' then '' (never-delete: irreplaceable data, relocate only)'' else []) @
        (if ev ''stop_gate'' \<noteq> [] then '' (stop-gate: '' @ ev ''stop_gate'' @ '' must not be running)'' else []) @ nl @
        ''  guard: '' @ ev ''guard_verdict'' @ nl
      else if cl = ''manual'' then nl @ it_path it @ '' [manual]'' @ nl @ ''  '' @ ev ''note'' @ nl
      else if cl = ''unguarded-external-symlink'' then
        nl @ it_path it @ '' [risk: unguarded external symlink '' @ arrow @ '' '' @ ev ''target'' @ '']'' @ nl @ ''  '' @ ev ''risk'' @ nl
      else [])"

definition minutes_f :: "duration \<Rightarrow> rat" where
  "minutes_f d = fl (fl_int (d sdiv minute) + fl (fl_int (d smod minute) / 60000000000))"

definition human_age :: "duration \<Rightarrow> string" where
  "human_age d =
     (if 48 * hour \<le> d then itoa (trunc_rat (fl (hours_f d / 24))) @ ''d''
      else if hour \<le> d then itoa (trunc_rat (hours_f d)) @ ''h''
      else if minute \<le> d then itoa (trunc_rat (minutes_f d)) @ ''m''
      else ''just now'')"

subsection \<open>The offer to queue\<close>

text \<open>What must become true, and what the user should do, for the gate of a target.\<close>

definition gate_words :: "offload \<Rightarrow> path \<Rightarrow> string \<times> string" where
  "gate_words m target =
     (let say = (\<lambda>g. (g @ '' is no longer running'', ''after quitting '' @ g)) in
      case playbook_for_target m target of
        None \<Rightarrow> say ''the blocking app''
      | Some pb \<Rightarrow>
          if path_gated pb then (''nothing holds files open under '' @ target, ''after closing what holds it open'')
          else if pb_stop_gate pb \<noteq> [] then say (go_quote (pb_stop_gate pb))
          else say ''the blocking app'')"

definition queue_text :: "int \<Rightarrow> mod_action \<Rightarrow> string \<Rightarrow> time \<Rightarrow> string" where
  "queue_text i a after t = ''queued (id '' @ itoa i @ ''): '' @ ma_target a @ '' '' @ arrow @ '' '' @ ma_dest a @ nl @
     ''  run `noo-noo offload run-pending` '' @ after @ '','' @ nl @
     ''  or let the daemon retry on its daily tick by setting BOTH in config.toml:'' @ nl @ ''    [offload]'' @ nl @
     ''    auto_apply_pending = true'' @ nl @ ''    risk_acknowledged_at = '' @ go_quote (fmt_rfc3339 t) @ nl"

definition offer_queue :: "off_env \<Rightarrow> mod_action \<Rightarrow> string \<Rightarrow> bool \<Rightarrow> qworld cli \<Rightarrow> bool \<times> qworld cli" where
  "offer_queue x a reason deferred c =
     (case gate_words (oe_mod x) (ma_target a) of (clears, after) \<Rightarrow>
       (case (if deferred then (True, put (''(--defer specified: queueing for a later safe moment)'' @ nl) c)
              else confirm (''Queue '' @ ma_target a @ '' for automatic retry once '' @ clears @ ''?'') False c) of
          (False, c1) \<Rightarrow> (False, put (''Not queued. Re-run `noo-noo offload apply` '' @ after @ '', or pass --defer to queue.'' @ nl) c1)
        | (True, c1) \<Rightarrow> (case oe_open x (cl_world c1) of
            Some e \<Rightarrow> (False, put_err (''open queue store: '' @ e @ nl) c1)
          | None \<Rightarrow> (case clock_now c1 of (t, c2) \<Rightarrow>
              (case on_world (enqueue_deferred (\<lambda>r. on_store (enqueue_relocation r)) (oe_mod x) a reason t) c2 of
                 (None, c3) \<Rightarrow> (False, put_err (''queue: '' @ oe_queue x a @ nl) c3)
               | (Some i, c3) \<Rightarrow> (case clock_now c3 of (t2, c4) \<Rightarrow> (True, put (queue_text i a after t2) c4)))))))"

subsection \<open>scan, plan, apply\<close>

definition is_stop_gate :: "off_err \<Rightarrow> bool" where
  "is_stop_gate e \<longleftrightarrow> (case e of StopGate _ \<Rightarrow> True | _ \<Rightarrow> False)"

fun relocate_loop ::
  "off_env \<Rightarrow> flag_set \<Rightarrow> audit_log option \<Rightarrow> mod_action list \<Rightarrow> int \<Rightarrow> qworld cli \<Rightarrow> (int \<times> audit_log option) option \<times> qworld cli" where
  "relocate_loop x fs lg [] code c = (Some (code, lg), c)"
| "relocate_loop x fs lg (a # as) code c =
     (if flag_bool fs ''dry-run''
      then relocate_loop x fs lg as code (put (''would relocate: '' @ ma_target a @ '' '' @ arrow @ '' '' @ ma_dest a @ nl) c)
      else case on_world (on_rest (offload_apply (oe_mod x) a)) c of (r, c1) \<Rightarrow>
        (case lg of None \<Rightarrow> (None, c1)
         | Some l \<Rightarrow> (case audit_write (en_audit_json (oe_env x))
               ((audit_rec_of ''offload'' a (case r of Inl e \<Rightarrow> 0 | Inr n \<Rightarrow> n) (case r of Inl e \<Rightarrow> Some (oe_err x e) | Inr n \<Rightarrow> None))
                  \<lparr> au_evidence := [''destination'' \<mapsto> ma_dest a] \<rparr>) l (cl_audit c1) of
             ((_, l1), os) \<Rightarrow>
               let c2 = c1\<lparr> cl_audit := os \<rparr> in
               (case r of
                  Inr n \<Rightarrow> relocate_loop x fs (Some l1) as code
                    (put (''relocated: '' @ ma_target a @ '' '' @ arrow @ '' '' @ ma_dest a @ '' (freed '' @ bytes_string n @ '' locally)'' @ nl) c2)
                | Inl e \<Rightarrow>
                    if is_stop_gate e then
                      (case offer_queue x a (oe_err x e) (flag_bool fs ''defer'')
                          (put_err (''deferred-able: '' @ ma_target a @ '' '' @ em_dash @ '' '' @ oe_err x e @ nl) c2) of
                         (queued, c3) \<Rightarrow> relocate_loop x fs (Some l1) as (if queued then code else 1) c3)
                    else relocate_loop x fs (Some l1) as 1
                      (put_err (''failed: '' @ ma_target a @ '' '' @ em_dash @ '' '' @ oe_err x e @ nl) c2)))))"

definition plan_lines :: "string \<Rightarrow> mod_action list \<Rightarrow> string" where
  "plan_lines word as = concat (map (\<lambda>a. word @ ma_target a @ '' '' @ arrow @ '' '' @ ma_dest a @ '' (frees '' @
     bytes_string (ma_size a) @ '' locally)'' @ nl) as)"

definition offload_verb :: "off_env \<Rightarrow> string \<Rightarrow> flag_set \<Rightarrow> report \<Rightarrow> qworld cli \<Rightarrow> int option \<times> qworld cli" where
  "offload_verb x verb fs rep c =
     (let json = flag_bool fs ''json''; as = offload_plan (oe_mod x) rep in
      if verb = ''scan'' then
        (Some 0, put (if json then [] else concat (map offload_evidence (rp_items rep))) (show_report (oe_env x) rep json c))
      else if verb = ''plan'' then
        (Some 0, put (if as = [] then ''Nothing to relocate. Native-config assets move via their own commands '' @ em_dash @
            '' run `noo-noo offload scan` for the exact commands.'' @ nl else plan_lines ''would relocate: '' as) c)
      else if as = [] then
        (Some 0, put (''Nothing to relocate. Configure [offload] dest_root + dest_volume_uuid, or use the native commands from `noo-noo offload scan`.'' @ nl) c)
      else case confirm (''Relocate '' @ count_text as @ '' asset(s)? Data is copied, verified, then symlinked '' @ em_dash @
            '' nothing is deleted until the copy is proven.'') (flag_bool fs ''y'') (put (plan_lines ''relocate: '' as) c) of
          (False, c1) \<Rightarrow> (Some 0, put (''Aborted.'' @ nl) c1)
        | (True, c1) \<Rightarrow> (case audit_new (audit_dir (oe_env x)) (cl_audit c1) of (lg, os) \<Rightarrow>
            (case relocate_loop x fs lg as 0 (c1\<lparr> cl_audit := os \<rparr>) of
               (Some (code, Some l), c2) \<Rightarrow> (Some code, c2)
             | (_, c2) \<Rightarrow> (None, c2))))"

subsection \<open>The queue\<close>

fun reloc_text :: "reloc_status \<Rightarrow> string" where
  "reloc_text RelocQueued = ''queued''"
| "reloc_text RelocApplied = ''applied''"
| "reloc_text RelocBlocked = ''blocked''"
| "reloc_text RelocCancelled = ''cancelled''"

definition entry_text :: "time \<Rightarrow> reloc_row \<Rightarrow> string" where
  "entry_text now r =
     ''#'' @ itoa (rq_id r) @ ''  '' @ rq_target r @ ''  ['' @ reloc_text (rq_status r) @ '', queued '' @
       human_age (sub_time now (rq_queued_at r * second)) @ '' ago]'' @ nl @
     ''    deferred because: '' @ rq_gate_reason r @ nl @
     (case rq_blocked_reason r of
        Some b \<Rightarrow> if rq_status r = RelocBlocked \<and> b \<noteq> []
          then ''    last re-check: '' @ b @ '' (attempts: '' @ itoa (rq_attempts r) @ '')'' @ nl else []
      | None \<Rightarrow> []) @
     ''    destination: '' @ join_path [rq_dest_root r, rq_asset r] @ nl"

definition opened :: "off_env \<Rightarrow> (qworld cli \<Rightarrow> int option \<times> qworld cli) \<Rightarrow> qworld cli \<Rightarrow> int option \<times> qworld cli" where
  "opened x f c = (case oe_open x (cl_world c) of Some e \<Rightarrow> (Some 1, put_err (''open queue store: '' @ e @ nl) c) | None \<Rightarrow> f c)"

definition offload_pending :: "off_env \<Rightarrow> bool \<Rightarrow> qworld cli \<Rightarrow> int option \<times> qworld cli" where
  "offload_pending x json = opened x (\<lambda>c.
     case on_world queue_list c of
       (None, c1) \<Rightarrow> (Some 1, put_err (''list pending: '' @ oe_list x @ nl) c1)
     | (Some es, c1) \<Rightarrow>
         if json then (Some 0, put (concat (map (\<lambda>r. case oe_row_json x r of None \<Rightarrow> [] | Some s \<Rightarrow> s @ nl) es)) c1)
         else if es = [] then (Some 0, put (''No pending relocations. A stop-gated `offload apply` offers queueing (or pass --defer).'' @ nl) c1)
         else case clock_now c1 of (now, c2) \<Rightarrow>
           (Some 0, put (concat (map (entry_text now) es) @ nl @ ''Re-check now: `noo-noo offload run-pending` '' @ middle_dot @
             '' withdraw: `noo-noo offload cancel <id>`'' @ nl) c2))"

definition pending_rec :: "off_env \<Rightarrow> pending_result \<Rightarrow> audit_rec" where
  "pending_rec x r = \<lparr> au_ts = None, au_module = ''offload'', au_op = ''relocate'', au_target = rq_target (pd_entry r), au_size = pd_freed r,
     au_evidence = [''destination'' \<mapsto> join_path [rq_dest_root (pd_entry r), rq_asset (pd_entry r)],
       ''queue_id'' \<mapsto> itoa (rq_id (pd_entry r)), ''trigger'' \<mapsto> ''manual''],
     au_outcome = fst (outcome_of (if pd_error r then Some (oe_note x r) else None)),
     au_error = snd (outcome_of (if pd_error r then Some (oe_note x r) else None)) \<rparr>"

fun pending_loop ::
  "off_env \<Rightarrow> audit_log option \<Rightarrow> pending_result list \<Rightarrow> int \<Rightarrow> qworld cli \<Rightarrow> (int \<times> audit_log option) option \<times> qworld cli" where
  "pending_loop x lg [] code c = (Some (code, lg), c)"
| "pending_loop x lg (r # rs) code c =
     (case (if \<not> pd_attempted r then (Some lg, c)
            else case lg of None \<Rightarrow> (None, c)
            | Some l \<Rightarrow> (case audit_write (en_audit_json (oe_env x)) (pending_rec x r) l (cl_audit c) of
                ((_, l1), os) \<Rightarrow> (Some (Some l1), c\<lparr> cl_audit := os \<rparr>))) of
        (None, c1) \<Rightarrow> (None, c1)
      | (Some lg1, c1) \<Rightarrow>
          let e = pd_entry r; row = ''#'' @ itoa (rq_id e) @ '' '' @ rq_target e @ '' '' @ em_dash @ '' '' @ pd_reason r @ nl in
          (case pd_outcome r of
             PendingApplied \<Rightarrow> pending_loop x lg1 rs code
               (let c2 = put (''relocated: '' @ rq_target e @ '' (freed '' @ bytes_string (pd_freed r) @ '' locally)'' @ nl) c1
                in if pd_error r then put_err (''  note: '' @ oe_note x r @ nl) c2 else c2)
           | PendingBlocked \<Rightarrow> pending_loop x lg1 rs 1 (put (''still blocked: '' @ row) c1)
           | PendingSkippedBudget \<Rightarrow> pending_loop x lg1 rs code (put (''skipped: '' @ row) c1)))"

definition offload_run_pending :: "off_env \<Rightarrow> bool \<Rightarrow> qworld cli \<Rightarrow> int option \<times> qworld cli" where
  "offload_run_pending x dry = opened x (\<lambda>c.
     if dry then offload_pending x False (put (''(dry-run: showing what would be re-checked)'' @ nl) c)
     else case on_world (run_pending (oe_block x) queue_list queue_mark queue_resolve (oe_mod x) (en_stop (oe_env x) None) ''manual'' (- 1)) c of
       ((rs, Some e), c1) \<Rightarrow> (Some 1, put_err (''run-pending: '' @ oe_run x e @ nl) c1)
     | ((rs, None), c1) \<Rightarrow>
         if rs = [] then (Some 0, put (''No pending relocations.'' @ nl) c1)
         else (case audit_new (audit_dir (oe_env x)) (cl_audit c1) of (lg, os) \<Rightarrow>
           (case pending_loop x lg rs 0 (c1\<lparr> cl_audit := os \<rparr>) of
              (Some (code, Some l), c2) \<Rightarrow> (Some code, c2)
            | (_, c2) \<Rightarrow> (None, c2))))"

definition offload_cancel :: "off_env \<Rightarrow> string list \<Rightarrow> qworld cli \<Rightarrow> int option \<times> qworld cli" where
  "offload_cancel x args c =
     (case args of
        [s] \<Rightarrow> (case parse_int s of
            None \<Rightarrow> (Some 2, put_err (''invalid id '' @ go_quote s @ nl) c)
          | Some i \<Rightarrow> opened x (\<lambda>c.
              case clock_now c of (t, c1) \<Rightarrow>
              (case on_world (queue_resolve i \<lparr> rr_status = RelocCancelled, rr_blocked_reason = [], rr_freed = 0, rr_resolved_at = unix_of t \<rparr>) c1 of
                 (Inl e, c2) \<Rightarrow> (Some 1, put_err (''cancel #'' @ itoa i @ '': '' @ oe_resolve x e @ nl) c2)
               | (Inr u, c2) \<Rightarrow> (Some 0, put (''cancelled #'' @ itoa i @ '' '' @ em_dash @ '' it will not be retried.'' @ nl) c2))) c)
      | _ \<Rightarrow> (Some 2, put_err (''Usage: noo-noo offload cancel <id>   (ids from `noo-noo offload pending`)'' @ nl) c))"

definition offload_usage :: string where
  "offload_usage = ''Usage: noo-noo offload <scan|plan|apply|pending|run-pending|cancel> [flags]''"

definition offload_flags :: flag_set where
  "offload_flags = base_flags(''defer'' \<mapsto> FBool False)"

text \<open>\<open>fs.Args()\<close> is what the last parse left: the extra arguments.\<close>

definition offload_cmd :: "off_env \<Rightarrow> string list \<Rightarrow> qworld cli \<Rightarrow> int option \<times> qworld cli" where
  "offload_cmd x args c =
     with_verb offload_usage offload_flags args
       (\<lambda>verb fs extra c1.
          if verb \<in> {''scan'', ''plan'', ''apply''} then scan_then (offload_module x) (offload_verb x verb fs) c1
          else if verb = ''pending'' then offload_pending x (flag_bool fs ''json'') c1
          else if verb = ''run-pending'' then offload_run_pending x (flag_bool fs ''dry-run'') c1
          else if verb = ''cancel'' then offload_cancel x extra c1
          else (Some 2, put_err (unknown_sub ''offload'' verb @ offload_usage @ nl) c1)) c"

end
