(* ===== verification/CliSystem.thy ===== *)
theory CliSystem
  imports CliClean Procsig Worktrees Config
begin

text \<open>
  The commands \<open>startup\<close>, \<open>orphans\<close> and \<open>worktrees\<close> of \<open>internal/cli\<close>: on the state of \<open>launchctl\<close>, on the
  process table and on the git bench. The worlds and the modules are those of \<open>CleanModules\<close>,
  \<open>Procsig\<close> and \<open>Worktrees\<close>.
\<close>

subsection \<open>startup\<close>

definition default_startup_config :: startup_config where
  "default_startup_config = \<lparr>
     su_user_agents = [''com.google.GoogleUpdater.wake'', ''com.google.keystone.agent'', ''com.google.keystone.xpcservice''],
     su_system_agents = [''com.adobe.AdobeCreativeCloud'', ''com.adobe.ccxprocess'', ''com.google.keystone.agent'',
       ''com.google.keystone.xpcservice'', ''com.razer.rzupdater'', ''com.razerzone.rzdeviceengine''],
     su_system_daemons = [''com.adobe.ARMDC.Communicator'', ''com.adobe.ARMDC.SMJobBlessHelper'', ''com.adobe.acc.installer.v2'',
       ''com.google.GoogleUpdater.wake.system'', ''com.google.keystone.daemon'', ''com.teamviewer.Helper'',
       ''com.teamviewer.UninstallerHelper'', ''com.teamviewer.UninstallerWatcher''] \<rparr>"

text \<open>The loop of \<open>disable\<close> and of \<open>restore\<close>: the word is the operation of the record. The log comes
  back, or \<open>None\<close> when the process died on a nil one.\<close>

fun service_loop ::
  "'s launchctl \<Rightarrow> (module_err \<Rightarrow> string) \<Rightarrow> env \<Rightarrow> string \<Rightarrow> bool \<Rightarrow> audit_log option \<Rightarrow> mod_action list \<Rightarrow> 's cli \<Rightarrow>
     audit_log option option \<times> 's cli" where
  "service_loop run txt e word dry lg [] c = (Some lg, c)"
| "service_loop run txt e word dry lg (a # as) c =
     (if dry then service_loop run txt e word dry lg as (put (''would '' @ word @ '': '' @ ma_target a @ nl) c)
      else case on_world (startup_apply run a) c of (err, c1) \<Rightarrow>
        (case lg of None \<Rightarrow> (None, c1)
         | Some l \<Rightarrow> (case audit_write (en_audit_json e) ((audit_rec_of ''startup'' a 0 (map_option txt err))\<lparr> au_op := word \<rparr>) l (cl_audit c1) of
             ((_, l1), os) \<Rightarrow>
               let c2 = c1\<lparr> cl_audit := os \<rparr> in
               service_loop run txt e word dry (Some l1) as
                 (case err of None \<Rightarrow> put (word @ ''d: '' @ ma_target a @ nl) c2
                  | Some x \<Rightarrow> put_err (''failed: '' @ ma_target a @ '' '' @ em_dash @ '' '' @ txt x @ nl) c2))))"

definition service_run ::
  "'s launchctl \<Rightarrow> (module_err \<Rightarrow> string) \<Rightarrow> env \<Rightarrow> string \<Rightarrow> bool \<Rightarrow> mod_action list \<Rightarrow> 's cli \<Rightarrow> int option \<times> 's cli" where
  "service_run run txt e word dry as c =
     (case audit_new (audit_dir e) (cl_audit c) of (lg, os) \<Rightarrow>
       (case service_loop run txt e word dry lg as (c\<lparr> cl_audit := os \<rparr>) of
          (Some (Some _), c1) \<Rightarrow> (Some 0, c1) | (_, c1) \<Rightarrow> (None, c1)))"

definition enable_action :: "item \<Rightarrow> mod_action" where
  "enable_action it = \<lparr> ma_module = ''startup'', ma_op = ''enable'', ma_target = it_path it, ma_dest = [], ma_size = 0, ma_risk = RiskLow \<rparr>"

definition startup_cmd ::
  "env \<Rightarrow> 's launchctl \<Rightarrow> (module_err \<Rightarrow> string) \<Rightarrow> int \<Rightarrow> string list \<Rightarrow> 's cli \<Rightarrow> int option \<times> 's cli" where
  "startup_cmd e run txt uid args c =
     with_verb ''Usage: noo-noo startup [list|disable|restore]'' base_flags args
       (\<lambda>verb fs extra c1.
          let rep = startup_scan default_startup_config uid; json = flag_bool fs ''json''; dry = flag_bool fs ''dry-run'' in
          if verb = ''list'' then (Some 0, show_report e rep json c1)
          else if verb = ''disable'' then
            (let as = startup_plan rep in
             case confirm (''Disable '' @ count_text as @ '' service(s)? (system items will prompt for sudo)'') (flag_bool fs ''y'')
                    (show_report e rep json c1) of
               (False, c2) \<Rightarrow> (Some 0, put (''Aborted.'' @ nl) c2)
             | (True, c2) \<Rightarrow> service_run run txt e ''disable'' dry as c2)
          else if verb = ''restore'' then service_run run txt e ''enable'' dry (map enable_action (rp_items rep)) c1
          else (Some 2, put_err (unknown_sub ''startup'' verb) c1)) c"

subsection \<open>orphans\<close>

text \<open>An \<open>Apply\<close> that does not return makes the outer result \<open>None\<close>.\<close>

definition orphan_details :: "item \<Rightarrow> string" where
  "orphan_details it =
     (let ev = ev_get (it_evidence it) in
      nl @ ''ORPHAN ['' @ ev ''signature'' @ ''] pid '' @ ev ''pid'' @ '' '' @ em_dash @ '' profile '' @ it_path it @ nl @
      (if ev ''etime'' = [] then [] else ''  running for: '' @ ev ''etime'' @ '' (parent job is gone '' @ em_dash @ '' reparented to launchd)'' @ nl) @
      line_if ''cmdline: '' (ev ''cmdline'') @ line_if ''prevent: '' (ev ''workaround''))"

definition show_orphans :: "env \<Rightarrow> report \<Rightarrow> bool \<Rightarrow> 'w cli \<Rightarrow> 'w cli" where
  "show_orphans e rep json c = put (if json then [] else concat (map orphan_details (rp_items rep))) (show_report e rep json c)"

definition user_data_dir_for :: "report \<Rightarrow> string \<Rightarrow> path" where
  "user_data_dir_for rep pid = (case first_such (\<lambda>it. ev_get (it_evidence it) ''pid'' = pid) (rp_items rep) of
     None \<Rightarrow> [] | Some it \<Rightarrow> it_path it)"

fun kill_loop ::
  "orphans \<Rightarrow> (orphan_err \<Rightarrow> string) \<Rightarrow> env \<Rightarrow> report \<Rightarrow> bool \<Rightarrow> audit_log option \<Rightarrow> mod_action list \<Rightarrow> int \<Rightarrow> proc_world cli \<Rightarrow>
     ((int \<times> audit_log option) option \<times> proc_world cli) option" where
  "kill_loop m txt e rep dry lg [] killed c = Some (Some (killed, lg), c)"
| "kill_loop m txt e rep dry lg (a # as) killed c =
     (let dir = user_data_dir_for rep (ma_target a) in
      if dry then kill_loop m txt e rep dry lg as killed (put (''would terminate: pid '' @ ma_target a @ '' ('' @ dir @ '')'' @ nl) c)
      else case orphans_apply m a (cl_world c) of None \<Rightarrow> None | Some (err, w) \<Rightarrow>
        (let c1 = c\<lparr> cl_world := w \<rparr> in
         case lg of None \<Rightarrow> Some (None, c1)
         | Some l \<Rightarrow> (case audit_write (en_audit_json e)
               ((audit_rec_of ''orphans'' a 0 (map_option txt err))\<lparr> au_evidence := [''user_data_dir'' \<mapsto> dir] \<rparr>) l (cl_audit c1) of
             ((_, l1), os) \<Rightarrow>
               let c2 = c1\<lparr> cl_audit := os \<rparr> in
               (case err of
                  None \<Rightarrow> kill_loop m txt e rep dry (Some l1) as (killed + 1)
                    (put (''terminated: pid '' @ ma_target a @ '' ('' @ dir @ '')'' @ nl) c2)
                | Some x \<Rightarrow> kill_loop m txt e rep dry (Some l1) as killed
                    (put_err (''refused/failed: pid '' @ ma_target a @ '' '' @ em_dash @ '' '' @ txt x @ nl) c2)))))"

definition orphans_kill ::
  "orphans \<Rightarrow> (orphan_err \<Rightarrow> string) \<Rightarrow> env \<Rightarrow> report \<Rightarrow> flag_set \<Rightarrow> proc_world cli \<Rightarrow> (int option \<times> proc_world cli) option" where
  "orphans_kill m txt e rep fs c =
     (let as = orphans_plan m rep; dry = flag_bool fs ''dry-run'' in
      if as = [] then Some (Some 0, put (''Nothing to terminate.'' @ nl) c)
      else case confirm (''Terminate '' @ count_text as @ '' orphaned automation browser process(es)? (SIGTERM, SIGKILL after a grace period)'')
          (flag_bool fs ''y'') (show_orphans e rep (flag_bool fs ''json'') c) of
        (False, c1) \<Rightarrow> Some (Some 0, put (''Aborted.'' @ nl) c1)
      | (True, c1) \<Rightarrow> (case audit_new (audit_dir e) (cl_audit c1) of (lg, os) \<Rightarrow>
          (case kill_loop m txt e rep dry lg as 0 (c1\<lparr> cl_audit := os \<rparr>) of
             None \<Rightarrow> None
           | Some (None, c2) \<Rightarrow> Some (None, c2)
           | Some (Some (killed, l1), c2) \<Rightarrow>
               Some (if l1 = None then None else Some 0,
                 if \<not> dry \<and> 0 < killed
                 then put (''Terminated '' @ itoa killed @ '' orphaned automation browser(s).'' @ nl @
                   ''Their leaked Chrome code-sign clones are now unpinned '' @ em_dash @ '' run 'noo-noo leaks clean' to sweep them.'' @ nl) c2
                 else c2))))"

definition orphans_cmd ::
  "env \<Rightarrow> orphans \<Rightarrow> (orphan_err \<Rightarrow> string) \<Rightarrow> string \<Rightarrow> string list \<Rightarrow> proc_world cli \<Rightarrow> (int option \<times> proc_world cli) option" where
  "orphans_cmd e m txt ps_err args c =
     (case args of
        [] \<Rightarrow> Some (Some 2, put_err (''Usage: noo-noo orphans [list|scan|kill]'' @ nl) c)
      | verb # rest \<Rightarrow>
          if verb \<notin> {''list'', ''scan'', ''kill''}
          then Some (Some 2, put_err (''unknown orphans subcommand '' @ go_quote verb @ '' (try list|scan|kill)'' @ nl) c)
          else (case flag_parse base_flags rest of
             Inl x \<Rightarrow> Some (Some 2, c)
           | Inr (fs, left) \<Rightarrow>
               if left \<noteq> []
               then Some (Some 2, put_err (''unexpected argument(s) ['' @ join_with '' '' left @ ''] after 'orphans '' @ verb @ [CHR 0x27] @ nl) c)
               else (case on_world (orphans_scan m (en_stop e None)) c of
                  (None, c1) \<Rightarrow> Some (Some 1, put_err (''scan: '' @ ps_err @ nl) c1)
                | (Some (True, rep), c1) \<Rightarrow> Some (Some 1, put_err (''scan: '' @ en_ctx_err e @ nl) c1)
                | (Some (False, rep), c1) \<Rightarrow>
                    if rp_items rep = []
                    then Some (Some 0, put (''No orphaned automation browsers found. (Headless browsers with a live parent job are never touched.)'' @ nl) c1)
                    else if verb = ''kill'' then orphans_kill m txt e rep fs c1
                    else Some (Some 0, put (if flag_bool fs ''json'' then []
                        else nl @ ''Terminate with 'noo-noo orphans kill', then run 'noo-noo leaks clean' to sweep the clone dirs they were pinning.'' @ nl)
                      (show_orphans e rep (flag_bool fs ''json'') c1)))))"

subsection \<open>worktrees\<close>

text \<open>\<open>base\<close> has the collaborators, \<open>toml\<close> is the decoder and \<open>file\<close> what reading the configuration gave.\<close>

definition worktrees_from_config :: "worktrees \<Rightarrow> config \<Rightarrow> worktrees" where
  "worktrees_from_config base cfg =
     (let wc = cf_worktrees cfg in
      base\<lparr> wm_roots := (if wc_roots wc = [] then cf_roots cfg else wc_roots wc),
        wm_min_idle := new_min_idle (wrap64 (wc_min_idle_hours wc * hour)),
        wm_judge_cmd := wc_judge_cmd wc, wm_grave_dir := wc_grave_dir wc \<rparr>)"

definition worktrees_module :: "env \<Rightarrow> (wt_err \<Rightarrow> string) \<Rightarrow> worktrees \<Rightarrow> bench cli_module" where
  "worktrees_module e txt w =
     \<lparr> md_scan = (\<lambda>b. map_prod (\<lambda>x. scan_result e (fst x, \<not> snd x)) id (worktrees_scan w (en_stop e None) b)),
       md_plan = worktrees_plan,
       md_apply = (\<lambda>a b. map_prod (sum_result txt) id (worktrees_apply w a b)) \<rparr>"

definition strupper_tier :: "string \<Rightarrow> string" where
  "strupper_tier s = (if s = ''obvious'' then ''OBVIOUS '' else if s = ''judgment'' then ''JUDGMENT'' else s)"

definition worktree_details :: "item \<Rightarrow> string" where
  "worktree_details it =
     (let ev = ev_get (it_evidence it) in
      nl @ strupper_tier (ev ''tier'') @ '' ['' @ ev ''branch'' @ ''] '' @ it_path it @ nl @
      ''  repo: '' @ ev ''repo'' @ nl @ ''  idle: '' @ ev ''idle'' @ ''  remote-contained: '' @ ev ''remote_contained'' @ nl @
      line_if ''last commit: '' (ev ''last_commit'') @ line_if ''dirty: '' (ev ''dirty'') @
      (if ev ''ahead_of_upstream'' \<noteq> [] \<and> ev ''ahead_of_upstream'' \<noteq> ''0''
       then ''  ahead of upstream: '' @ ev ''ahead_of_upstream'' @ '' commit(s)'' @ nl else []) @
      line_if ''prunable: '' (ev ''prunable''))"

definition worktrees_clean ::
  "env \<Rightarrow> bench cli_module \<Rightarrow> report \<Rightarrow> flag_set \<Rightarrow> bench cli \<Rightarrow> int option \<times> bench cli" where
  "worktrees_clean e md rep fs c =
     (let as = md_plan md rep in
      if as = [] then (Some 0, put (''No provably-dead worktrees. (Judgment-tier candidates need `noo-noo worktrees judge`.)'' @ nl) c)
      else clean_run md ((words e ''worktrees'' ''would remove'' ''removed'' ''refused/failed'' measured_freed [])
               \<lparr> cw_total := (\<lambda>n. ''Freed '' @ human_bytes n @ '' (real, statfs-measured).'' @ nl) \<rparr>)
             (''Remove '' @ count_text as @ '' provably-dead worktree(s), ~'' @ human_bytes (planned_size as) @ ''?'')
             (flag_bool fs ''y'') (flag_bool fs ''dry-run'') as (show_report e rep (flag_bool fs ''json'') c))"

definition verdict_tag :: "string \<Rightarrow> string" where
  "verdict_tag v = (if v = ''remove'' then ''REMOVE'' else ''KEEP  '')"

text \<open>The judge on every dossier, and its rulings to remove.\<close>

fun judge_all ::
  "(dossier \<Rightarrow> judge_err + verdict) \<Rightarrow> (judge_err \<Rightarrow> string) \<Rightarrow> dossier list \<Rightarrow> 'w cli \<Rightarrow> (dossier \<times> verdict) list \<times> 'w cli" where
  "judge_all j txt [] c = ([], c)"
| "judge_all j txt (d # ds) c = (case j d of
     Inl x \<Rightarrow> judge_all j txt ds (put_err (''KEEP (judge failed) '' @ ds_path d @ '' '' @ em_dash @ '' '' @ txt x @ nl) c)
   | Inr v \<Rightarrow> (case judge_all j txt ds (put (verdict_tag (vd_verdict v) @ ''  '' @ ds_path d @ nl @ ''    '' @ vd_reason v @ nl) c) of
       (rs, c1) \<Rightarrow> (if vd_verdict v = ''remove'' then (d, v) # rs else rs, c1)))"

definition judged_rec :: "(string \<Rightarrow> string \<Rightarrow> string \<Rightarrow> string) \<Rightarrow> path \<Rightarrow> verdict \<Rightarrow> int \<Rightarrow> string option \<Rightarrow> path \<Rightarrow> path \<Rightarrow> audit_rec" where
  "judged_rec gj p v freed err bdl tarball = \<lparr> au_ts = None, au_module = ''worktrees'', au_op = ''judged-remove'', au_target = p,
     au_size = freed, au_evidence = Map.empty, au_outcome = fst (outcome_of err),
     au_error = snd (outcome_of err) @ '' '' @ gj bdl tarball (vd_reason v) \<rparr>"

fun remove_judged ::
  "worktrees \<Rightarrow> (wt_err \<Rightarrow> string) \<Rightarrow> env \<Rightarrow> (string \<Rightarrow> string \<Rightarrow> string \<Rightarrow> string) \<Rightarrow> audit_log option \<Rightarrow> (dossier \<times> verdict) list \<Rightarrow>
     bench cli \<Rightarrow> audit_log option option \<times> bench cli" where
  "remove_judged w txt e gj lg [] c = (Some lg, c)"
| "remove_judged w txt e gj lg ((d, v) # rs) c =
     (case on_world (force_remove w (ds_path d)) c of ((r, bdl, tarball), c1) \<Rightarrow>
        (let err = (case r of Inl x \<Rightarrow> Some (txt x) | Inr n \<Rightarrow> None); freed = (case r of Inl x \<Rightarrow> 0 | Inr n \<Rightarrow> n) in
         case lg of None \<Rightarrow> (None, c1)
         | Some l \<Rightarrow> (case audit_write (en_audit_json e) (judged_rec gj (ds_path d) v freed err bdl tarball) l (cl_audit c1) of
             ((_, l1), os) \<Rightarrow>
               let c2 = c1\<lparr> cl_audit := os \<rparr> in
               remove_judged w txt e gj (Some l1) rs
                 (case err of
                    Some x \<Rightarrow> put_err (''refused/failed: '' @ ds_path d @ '' '' @ em_dash @ '' '' @ x @ nl) c2
                  | None \<Rightarrow> put (''removed: '' @ ds_path d @ '' (freed '' @ bytes_string freed @ ''; grave '' @ bdl @ '')'' @ nl) c2))))"

definition judgment_dossiers :: "report \<Rightarrow> dossier list" where
  "judgment_dossiers rep = map dossier_from_item (filter (\<lambda>it. ev_get (it_evidence it) ''tier'' = ''judgment'') (rp_items rep))"

definition limited :: "int \<Rightarrow> 'a list \<Rightarrow> 'a list" where
  "limited n xs = (if 0 < n \<and> n < int (length xs) then take (nat n) xs else xs)"

definition worktrees_judge ::
  "env \<Rightarrow> worktrees \<Rightarrow> (wt_err \<Rightarrow> string) \<Rightarrow> (dossier \<Rightarrow> judge_err + verdict) \<Rightarrow> (judge_err \<Rightarrow> string) \<Rightarrow>
     (string \<Rightarrow> string \<Rightarrow> string \<Rightarrow> string) \<Rightarrow> report \<Rightarrow> flag_set \<Rightarrow> bench cli \<Rightarrow> int option \<times> bench cli" where
  "worktrees_judge e w txt j jtxt gj rep fs c =
     (let all = judgment_dossiers rep; limit = flag_int fs ''limit''; dossiers = limited limit all;
          c0 = (if 0 < limit \<and> limit < int (length all)
                then put (''judging '' @ itoa limit @ '' of '' @ count_text all @ '' dossier(s) (--limit)'' @ nl) c else c) in
      if dossiers = [] then (Some 0, put (''Nothing needs judgment.'' @ nl) c0)
      else case judge_all j jtxt dossiers c0 of (rs, c1) \<Rightarrow>
        if rs = [] then (Some 0, put (''Judge kept everything.'' @ nl) c1)
        else if flag_bool fs ''dry-run'' then (Some 0, put (''dry-run: '' @ count_text rs @ '' removal verdict(s) not applied.'' @ nl) c1)
        else case confirm (''Apply '' @ count_text rs @ '' removal verdict(s)? Each is grave-bundled (commits + dirty files) first.'')
            (flag_bool fs ''y'') c1 of
          (False, c2) \<Rightarrow> (Some 0, put (''Aborted '' @ em_dash @ '' verdicts printed above, nothing removed.'' @ nl) c2)
        | (True, c2) \<Rightarrow> (case audit_new (audit_dir e) (cl_audit c2) of (lg, os) \<Rightarrow>
            (case remove_judged w txt e gj lg rs (c2\<lparr> cl_audit := os \<rparr>) of
               (Some (Some _), c3) \<Rightarrow> (Some 0, c3) | (_, c3) \<Rightarrow> (None, c3))))"

definition worktrees_flags :: flag_set where
  "worktrees_flags = base_flags(''limit'' \<mapsto> FInt 0)"

definition worktrees_cmd ::
  "env \<Rightarrow> worktrees \<Rightarrow> (wt_err \<Rightarrow> string) \<Rightarrow> (string \<Rightarrow> dossier \<Rightarrow> string option) \<Rightarrow> (string \<Rightarrow> verdict list) \<Rightarrow> (judge_err \<Rightarrow> string) \<Rightarrow>
     (string \<Rightarrow> string \<Rightarrow> string \<Rightarrow> string) \<Rightarrow> (string \<Rightarrow> config \<Rightarrow> config \<times> bool) \<Rightarrow> file_read \<Rightarrow> (load_err \<Rightarrow> string) \<Rightarrow> string list \<Rightarrow>
     bench cli \<Rightarrow> int option \<times> bench cli" where
  "worktrees_cmd e base txt run dec jtxt gj toml file ltxt args c =
     with_verb ''Usage: noo-noo worktrees [list|scan|clean|judge]'' worktrees_flags args
       (\<lambda>verb fs extra c1.
          if verb \<notin> {''list'', ''scan'', ''clean'', ''judge''} then (Some 2, put_err (unknown_sub ''worktrees'' verb) c1)
          else case load_config (case en_home e of None \<Rightarrow> [] | Some h \<Rightarrow> h) toml file of
            (cfg, Some x) \<Rightarrow> (Some 1, put_err (''config: '' @ ltxt x @ nl) c1)
          | (cfg, None) \<Rightarrow>
              let w = worktrees_from_config base cfg; md = worktrees_module e txt w; json = flag_bool fs ''json'' in
              scan_then md (\<lambda>rep c2.
                if verb = ''clean'' then worktrees_clean e md rep fs c2
                else if verb = ''judge'' then worktrees_judge e w txt (judge w run dec) jtxt gj rep fs c2
                else (Some 0, put (if json then [] else concat (map worktree_details (rp_items rep))) (show_report e rep json c2))) c1) c"

end
