(* ===== verification/Memory.thy ===== *)
theory Memory
  imports GoText "HOL-Library.Multiset"
begin

text \<open>
  \<open>internal/core/memory.go\<close>: the memory snapshot, its verdict, and the readers of \<open>sysctl\<close>, \<open>vm_stat\<close> and
  \<open>top\<close>. What each tool printed is an argument; so is the prose of a failure.
\<close>

subsection \<open>The snapshot and its verdict\<close>

datatype memory_verdict = MemoryFine | MemoryTight | MemoryThrashing

record memory_process =
  mp_pid :: int
  mp_command :: string
  mp_resident :: int
  mp_compressed :: int

record memory_snapshot =
  mm_physical :: int
  mm_swap_used :: int
  mm_swap_total :: int
  mm_compressor :: int
  mm_compressed :: int
  mm_top :: "memory_process list"
  mm_notes :: "string list"

definition no_memory :: memory_snapshot where
  "no_memory = \<lparr> mm_physical = 0, mm_swap_used = 0, mm_swap_total = 0, mm_compressor = 0, mm_compressed = 0, mm_top = [], mm_notes = [] \<rparr>"

definition compressor_share :: "memory_snapshot \<Rightarrow> rat" where
  "compressor_share m = (if mm_physical m \<le> 0 then 0 else fl (fl_int (mm_compressor m) / fl_int (mm_physical m)))"

definition swap_fill :: "memory_snapshot \<Rightarrow> rat" where
  "swap_fill m = (if mm_swap_total m \<le> 0 then 0 else fl (fl_int (mm_swap_used m) / fl_int (mm_swap_total m)))"

definition swap_of_ram :: "memory_snapshot \<Rightarrow> rat" where
  "swap_of_ram m = (if mm_physical m \<le> 0 then 0 else fl (fl_int (mm_swap_used m) / fl_int (mm_physical m)))"

definition mem_tight_swap :: rat where "mem_tight_swap = 1 / 4"
definition mem_tight_compressor :: rat where "mem_tight_compressor = 1 / 4"
definition mem_thrash_swap :: rat where "mem_thrash_swap = 1 / 2"
definition mem_thrash_fill :: rat where "mem_thrash_fill = fl (9 / 10)"
definition mem_thrash_compressor :: rat where "mem_thrash_compressor = fl (3 / 10)"

definition memory_verdict_of :: "memory_snapshot \<Rightarrow> memory_verdict" where
  "memory_verdict_of m =
     (if mm_physical m \<le> 0 then MemoryFine
      else if mem_thrash_swap \<le> swap_of_ram m \<and> (mem_thrash_fill \<le> swap_fill m \<or> mem_thrash_compressor \<le> compressor_share m)
      then MemoryThrashing
      else if mem_tight_swap \<le> swap_of_ram m \<or> mem_tight_compressor \<le> compressor_share m then MemoryTight
      else MemoryFine)"

definition percent :: "rat \<Rightarrow> string" where
  "percent x = fmt_f0 (fl (100 * x)) @ ''%''"

definition verdict_line :: "memory_snapshot \<Rightarrow> string" where
  "verdict_line m =
     (let used = bytes_string (mm_swap_used m); comp = percent (compressor_share m) @ '' of RAM'' in
      case memory_verdict_of m of
        MemoryThrashing \<Rightarrow> ''THRASHING '' @ em_dash @ '' swap is '' @ percent (swap_fill m) @ '' full ('' @ used @ '', '' @
          fmt_f0 (swap_of_ram m) @ ''x of RAM) and the compressor holds '' @ comp @
          '': the machine is paging, not computing; quit the top compressed processes or add memory''
      | MemoryTight \<Rightarrow> ''tight '' @ em_dash @ '' '' @ used @ '' swapped ('' @ percent (swap_of_ram m) @ '' of RAM), compressor holds '' @
          comp @ ''; one more big process tips this into paging''
      | MemoryFine \<Rightarrow> ''fine '' @ em_dash @ '' '' @ used @ '' swapped, compressor holds '' @ comp)"

subsection \<open>Sizes\<close>

definition negative :: "f64 \<Rightarrow> bool" where
  "negative v \<longleftrightarrow> (case v of Fin x \<Rightarrow> x < 0 | NInf \<Rightarrow> True | _ \<Rightarrow> False)"

definition size_unit :: "char \<Rightarrow> rat option" where
  "size_unit c = (if c = CHR ''K'' then Some (2 ^ 10) else if c = CHR ''M'' then Some (2 ^ 20) else if c = CHR ''G'' then Some (2 ^ 30)
     else if c = CHR ''T'' then Some (2 ^ 40) else if c = CHR ''B'' then Some 1 else None)"

definition parse_size_suffix :: "string \<Rightarrow> int option" where
  "parse_size_suffix s0 =
     (let s = trim_right_chars (trim_space s0) ''+-'' in
      if s = [] then None
      else let (k, num) = (case size_unit (last s) of Some k \<Rightarrow> (k, butlast s) | None \<Rightarrow> (1, s)) in
        case parse_float num of None \<Rightarrow> None
        | Some v \<Rightarrow> if negative v then None else Some (i64_of_f64 (f64_scale v k)))"

subsection \<open>sysctl\<close>

text \<open>\<open>used = 1.00M\<close>: the first such triple whose value reads.\<close>

fun swap_pairs :: "string list \<Rightarrow> string \<Rightarrow> int" where
  "swap_pairs (a # b # c # ws) key =
     (if a = key \<and> b = ''='' then (case parse_size_suffix c of Some n \<Rightarrow> n | None \<Rightarrow> swap_pairs (b # c # ws) key)
      else swap_pairs (b # c # ws) key)"
| "swap_pairs ws key = 0"

definition swap_field :: "string \<Rightarrow> string \<Rightarrow> int" where
  "swap_field line key = swap_pairs (GoStrings.fields line) key"

text \<open>Physical memory, swap in use, swap in total.\<close>

definition parse_sysctl_memory :: "string \<Rightarrow> string + int \<times> int \<times> int" where
  "parse_sysctl_memory s =
     (case split_on (CHR 0x0A) (trim_space s) of
        [] \<Rightarrow> Inl ''sysctl: empty output''
      | l # ls \<Rightarrow>
          (case parse_int (trim_space l) of
             None \<Rightarrow> Inl (''sysctl hw.memsize: unparseable '' @ go_quote l)
           | Some n \<Rightarrow>
               if n \<le> 0 then Inl (''sysctl hw.memsize: unparseable '' @ go_quote l)
               else (case ls of [] \<Rightarrow> Inr (n, 0, 0) | l2 # _ \<Rightarrow> Inr (n, swap_field l2 ''used'', swap_field l2 ''total''))))"

subsection \<open>vm_stat\<close>

text \<open>The text after the last colon.\<close>

definition after_colon :: "string \<Rightarrow> string option" where
  "after_colon s = (if CHR '':'' \<in> set s then Some (rev (takeWhile (\<lambda>c. c \<noteq> CHR '':'') (rev s))) else None)"

definition vm_stat_count :: "string \<Rightarrow> int" where
  "vm_stat_count line = (case after_colon line of None \<Rightarrow> 0
     | Some s \<Rightarrow> (case parse_int (trim_suffix (trim_space s) ''.'') of None \<Rightarrow> 0 | Some n \<Rightarrow> n))"

text \<open>Page size, pages occupied, pages stored.\<close>

definition vm_stat_line :: "string \<Rightarrow> int \<times> int \<times> int \<Rightarrow> int \<times> int \<times> int" where
  "vm_stat_line l0 st = (case st of (psize, occ, stored) \<Rightarrow>
     let l = trim_space l0 in
     if has_prefix l ''Mach Virtual Memory Statistics'' then
       (case cut_text ''page size of '' l of
          None \<Rightarrow> st
        | Some (u, v) \<Rightarrow> (case GoStrings.fields v of [] \<Rightarrow> st
            | w # _ \<Rightarrow> (case parse_int w of Some n \<Rightarrow> if 0 < n then (n, occ, stored) else st | None \<Rightarrow> st)))
     else if has_prefix l ''Pages occupied by compressor:'' then (psize, vm_stat_count l, stored)
     else if has_prefix l ''Pages stored in compressor:'' then (psize, occ, vm_stat_count l)
     else st)"

definition parse_vm_stat_compressor :: "string \<Rightarrow> string + int \<times> int" where
  "parse_vm_stat_compressor s =
     (case fold vm_stat_line (split_on (CHR 0x0A) s) (4096, 0, 0) of (psize, occ, stored) \<Rightarrow>
        if occ = 0 \<and> stored = 0 \<and> \<not> contains s ''compressor'' then Inl ''no compressor lines''
        else Inr (wrap64 (occ * psize), wrap64 (stored * psize)))"

subsection \<open>top\<close>

definition top_row :: "string list \<Rightarrow> memory_process option" where
  "top_row f = (if length f < 4 then None
     else case parse_int (hd f) of None \<Rightarrow> None
     | Some pid \<Rightarrow> (case (parse_size_suffix (f ! (length f - 2)), parse_size_suffix (last f)) of
         (Some mem, Some cmprs) \<Rightarrow> Some \<lparr> mp_pid = pid, mp_command = join_with '' '' (butlast (butlast (tl f))),
           mp_resident = mem, mp_compressed = cmprs \<rparr>
       | _ \<Rightarrow> None))"

fun top_rows :: "bool \<Rightarrow> string list \<Rightarrow> memory_process list" where
  "top_rows b [] = []"
| "top_rows b (l # ls) =
     (let f = GoStrings.fields l in
      if f = [] then top_rows b ls
      else if hd f = ''PID'' then top_rows True ls
      else if \<not> b then top_rows b ls
      else case top_row f of None \<Rightarrow> top_rows b ls | Some r \<Rightarrow> r # top_rows b ls)"

text \<open>The inner and the outer loop of the insertion sort, on the array.\<close>

fun sink :: "memory_process list \<Rightarrow> nat \<Rightarrow> memory_process list" where
  "sink xs 0 = xs"
| "sink xs (Suc j) =
     (if mp_compressed (xs ! j) < mp_compressed (xs ! Suc j)
      then sink (xs[Suc j := xs ! j, j := xs ! Suc j]) j else xs)"

definition sort_rows :: "memory_process list \<Rightarrow> memory_process list" where
  "sort_rows xs = fold (\<lambda>i ys. sink ys i) [1..<length xs] xs"

definition parse_top_memory :: "string \<Rightarrow> int \<Rightarrow> memory_process list" where
  "parse_top_memory s n = (let rows = sort_rows (top_rows False (split_on (CHR 0x0A) s)) in
     if 0 < n \<and> n < int (length rows) then take (nat n) rows else rows)"

subsection \<open>ReadMemory\<close>

text \<open>The three tools in turn; each answers its output or the text of its error.\<close>

definition read_memory :: "string + string \<Rightarrow> string + string \<Rightarrow> string + string \<Rightarrow> string + memory_snapshot" where
  "read_memory sysctl vmstat procs =
     (case sysctl of
        Inl e \<Rightarrow> Inl (''sysctl hw.memsize vm.swapusage: '' @ e)
      | Inr out \<Rightarrow> try_bind (parse_sysctl_memory out) (\<lambda>(phys, used, tot).
          let m = no_memory\<lparr> mm_physical := phys, mm_swap_used := used, mm_swap_total := tot \<rparr>;
              m1 = (case vmstat of
                 Inl e \<Rightarrow> m\<lparr> mm_notes := mm_notes m @ [''vm_stat unavailable: '' @ e] \<rparr>
               | Inr v \<Rightarrow> (case parse_vm_stat_compressor v of
                   Inl e \<Rightarrow> m\<lparr> mm_notes := mm_notes m @ [''vm_stat unparseable: '' @ e] \<rparr>
                 | Inr (occ, stored) \<Rightarrow> m\<lparr> mm_compressor := occ, mm_compressed := stored \<rparr>));
              m2 = (case procs of
                 Inl e \<Rightarrow> m1\<lparr> mm_notes := mm_notes m1 @ [''top unavailable: '' @ e] \<rparr>
               | Inr t \<Rightarrow> let rows = parse_top_memory t 3 in
                   m1\<lparr> mm_top := rows, mm_notes := mm_notes m1 @ (if rows = [] then [''top printed no process rows''] else []) \<rparr>)
          in Inr m2))"

subsection \<open>The insertion sort\<close>

abbreviation desc_key :: "memory_process \<Rightarrow> int" where
  "desc_key p \<equiv> - mp_compressed p"

lemma swap_adjacent:
  assumes "Suc j < length xs"
  shows "xs[Suc j := xs ! j, j := xs ! Suc j] = take j xs @ xs ! Suc j # xs ! j # drop (Suc (Suc j)) xs"
    "xs = take j xs @ xs ! j # xs ! Suc j # drop (Suc (Suc j)) xs"
proof -
  show eq: "xs = take j xs @ xs ! j # xs ! Suc j # drop (Suc (Suc j)) xs"
    using assms by (simp add: Cons_nth_drop_Suc id_take_nth_drop [symmetric])
  have "(us @ a # b # ws)[Suc (length us) := c, length us := d] = us @ d # c # ws" for us ws :: "'a list" and a b c d
    by (induction us) simp_all
  from this [of "take j xs" "xs ! j" "xs ! Suc j" "drop (Suc (Suc j)) xs"] assms eq
  show "xs[Suc j := xs ! j, j := xs ! Suc j] = take j xs @ xs ! Suc j # xs ! j # drop (Suc (Suc j)) xs"
    by (simp add: min_absorb2)
qed

lemma sink_props:
  assumes "j < length xs"
  shows "length (sink xs j) = length xs \<and> mset (sink xs j) = mset xs \<and> drop (Suc j) (sink xs j) = drop (Suc j) xs \<and>
    filter (\<lambda>p. desc_key p = k) (sink xs j) = filter (\<lambda>p. desc_key p = k) xs"
  using assms
proof (induction j arbitrary: xs)
  case (Suc j)
  let ?ys = "xs[Suc j := xs ! j, j := xs ! Suc j]"
  show ?case
  proof (cases "mp_compressed (xs ! j) < mp_compressed (xs ! Suc j)")
    case True
    note sw = swap_adjacent [OF Suc.prems]
    have l: "length ?ys = length xs" by simp
    from Suc.IH [of ?ys] Suc.prems
    have ih: "mset (sink ?ys j) = mset ?ys" "drop (Suc j) (sink ?ys j) = drop (Suc j) ?ys"
      "filter (\<lambda>p. desc_key p = k) (sink ?ys j) = filter (\<lambda>p. desc_key p = k) ?ys" "length (sink ?ys j) = length xs" by simp_all
    have m: "mset ?ys = mset xs" by (subst (2) sw(2), subst sw(1)) simp
    have f: "filter (\<lambda>p. desc_key p = k) ?ys = filter (\<lambda>p. desc_key p = k) xs"
      using True by (subst (2) sw(2), subst sw(1)) auto
    have "drop (Suc (Suc j)) (sink ?ys j) = drop (Suc (Suc j)) ?ys" using arg_cong [OF ih(2), of "drop 1"] by simp
    then show ?thesis using True ih m f by simp
  qed simp
qed simp

lemma sink_sorted:
  assumes "j < length xs" "sorted (map desc_key (take j xs))"
  shows "sorted (map desc_key (take (Suc j) (sink xs j)))"
  using assms
proof (induction j arbitrary: xs)
  case 0
  then show ?case by (cases xs) simp_all
next
  case (Suc j)
  let ?ys = "xs[Suc j := xs ! j, j := xs ! Suc j]"
  have tk: "take (Suc j) xs = take j xs @ [xs ! j]" using Suc.prems(1) by (simp add: take_Suc_conv_app_nth)
  show ?case
  proof (cases "mp_compressed (xs ! j) < mp_compressed (xs ! Suc j)")
    case True
    note sw = swap_adjacent [OF Suc.prems(1)]
    have j: "j < length ?ys" using Suc.prems(1) by simp
    have tj: "take j ?ys = take j xs" by simp
    have s: "sorted (map desc_key (take (Suc j) (sink ?ys j)))"
      by (rule Suc.IH [OF j]) (use Suc.prems(2) tk tj in \<open>simp add: sorted_append\<close>)
    from sink_props [OF j] have p: "mset (sink ?ys j) = mset ?ys" "drop (Suc j) (sink ?ys j) = drop (Suc j) ?ys"
      "length (sink ?ys j) = length xs" by auto
    have "mset (take (Suc j) (sink ?ys j)) + mset (drop (Suc j) (sink ?ys j)) = mset (take (Suc j) ?ys) + mset (drop (Suc j) ?ys)"
      using p(1) by (metis append_take_drop_id mset_append)
    then have "mset (take (Suc j) (sink ?ys j)) = mset (take (Suc j) ?ys)" using p(2) by simp
    then have "set (take (Suc j) (sink ?ys j)) = set (take (Suc j) ?ys)" by (metis set_mset_mset)
    also have "take (Suc j) ?ys = take j xs @ [xs ! Suc j]" using j by (simp add: take_Suc_conv_app_nth)
    finally have st: "set (take (Suc j) (sink ?ys j)) = insert (xs ! Suc j) (set (take j xs))" by auto
    have nth: "sink ?ys j ! Suc j = xs ! j"
    proof -
      have "sink ?ys j ! Suc j = drop (Suc j) (sink ?ys j) ! 0" using Suc.prems(1) p(3) by simp
      also have "\<dots> = drop (Suc j) ?ys ! 0" by (simp only: p(2))
      also have "\<dots> = xs ! j" using Suc.prems(1) by simp
      finally show ?thesis .
    qed
    have "take (Suc (Suc j)) (sink ?ys j) = take (Suc j) (sink ?ys j) @ [xs ! j]"
      using Suc.prems(1) p(3) nth by (subst take_Suc_conv_app_nth) simp_all
    moreover have "\<forall>p \<in> set (take (Suc j) (sink ?ys j)). desc_key p \<le> desc_key (xs ! j)"
      unfolding st using True Suc.prems(2) tk by (auto simp: sorted_append)
    ultimately show ?thesis using s True by (simp add: sorted_append)
  next
    case False
    then show ?thesis using Suc.prems by (simp add: take_Suc_conv_app_nth [of "Suc j"] sorted_append tk) force
  qed
qed

text \<open>
  The insertion sort of the process rows is a stable sort by compressed memory, descending: it gives
  the library's sort on that key, so no row is lost, and rows with equal sizes keep the order of \<open>top\<close>.
\<close>

lemma sort_rows_eq: "sort_rows xs = sort_key (\<lambda>p. - mp_compressed p) xs"
proof -
  let ?step = "\<lambda>i ys. sink ys i"
  have inv: "length (fold ?step [1..<n] xs) = length xs \<and> mset (fold ?step [1..<n] xs) = mset xs \<and>
      (\<forall>k. filter (\<lambda>p. desc_key p = k) (fold ?step [1..<n] xs) = filter (\<lambda>p. desc_key p = k) xs) \<and>
      sorted (map desc_key (take n (fold ?step [1..<n] xs)))" if "0 < n" "n \<le> length xs" for n
    using that
  proof (induction n)
    case (Suc n)
    show ?case
    proof (cases "n = 0")
      case True
      then show ?thesis using Suc.prems by (cases xs) simp_all
    next
      case False
      let ?ys = "fold ?step [1..<n] xs"
      from False Suc have ih: "length ?ys = length xs" "mset ?ys = mset xs"
        "\<forall>k. filter (\<lambda>p. desc_key p = k) ?ys = filter (\<lambda>p. desc_key p = k) xs" "sorted (map desc_key (take n ?ys))" by auto
      have n: "n < length ?ys" using Suc.prems ih(1) by simp
      have "fold ?step [1..<Suc n] xs = sink ?ys n" using False by simp
      then show ?thesis using sink_props [OF n] sink_sorted [OF n ih(4)] ih by simp
    qed
  qed simp
  show ?thesis
  proof (cases "xs = []")
    case False
    then have i: "0 < length xs" "length xs \<le> length xs" by simp_all
    note v = inv [OF i]
    have "filter (\<lambda>x. desc_key k = desc_key x) (fold ?step [1..<length xs] xs) = filter (\<lambda>x. desc_key k = desc_key x) xs" for k
      using v by (metis (mono_tags, lifting) filter_cong)
    moreover have "take (length xs) (fold ?step [1..<length xs] xs) = fold ?step [1..<length xs] xs" using v by simp
    ultimately show ?thesis unfolding sort_rows_def by (intro properties_for_sort_key [symmetric]) (use v in simp_all)
  qed (simp add: sort_rows_def)
qed

end
