(* ===== verification/MemReport.thy ===== *)
theory MemReport
  imports Memory Output GoPaths
begin

text \<open>
  The samplers of \<open>internal/metrics\<close> (\<open>sysctl.go\<close>, \<open>vmstat.go\<close>) and the memory section of a report
  (\<open>internal/cli/report_memory.go\<close>). The kernel's answers and the outputs of the tools are arguments, as is
  the order in which the runtime ranges over a map.
\<close>

subsection \<open>Little-endian integers\<close>

definition le_val :: "string \<Rightarrow> int" where
  "le_val s = foldr (\<lambda>c n. int (of_char c) + 256 * n) s 0"

definition bytes_at :: "nat \<Rightarrow> nat \<Rightarrow> string \<Rightarrow> string" where
  "bytes_at off n b = take n (drop off b)"

subsection \<open>sysctl\<close>

record sys_info =
  si_mem :: int
  si_swap_used :: int
  si_swap_total :: int
  si_load1 :: f64
  si_load5 :: f64
  si_load15 :: f64

datatype metrics_err = SysctlFailed string string | NoSwapMatch string | BadSwapValue string | ShortLoad | BadLoad

text \<open>Used and total.\<close>

definition parse_swap_raw :: "string \<Rightarrow> (int \<times> int) option" where
  "parse_swap_raw b =
     (if length b \<noteq> 32 then None
      else let total = wrap64 (le_val (bytes_at 0 8 b)); used = wrap64 (le_val (bytes_at 16 8 b)) in
        if total < 0 \<or> used < 0 \<or> total < used then None else Some (used, total))"

definition parse_load_raw :: "string \<Rightarrow> (rat \<times> rat \<times> rat) option" where
  "parse_load_raw b =
     (if length b \<noteq> 24 then None
      else let fscale = fl_int (wrap64 (le_val (bytes_at 16 8 b))); avg = (\<lambda>off. fl (fl_int (le_val (bytes_at off 4 b)) / fscale)) in
        if fscale \<le> 0 then None else Some (avg 0, avg 4, avg 8))"

text \<open>The first match of the literal, digits and dots, and a unit.\<close>

definition re_num :: "char \<Rightarrow> bool" where
  "re_num c \<longleftrightarrow> is_digit c \<or> c = CHR ''.''"

fun match_size :: "string \<Rightarrow> string \<Rightarrow> (string \<times> char) option" where
  "match_size lit [] = None"
| "match_size lit (c # s) =
     (let r = drop (length lit) (c # s); num = takeWhile re_num r; u = drop (length num) r in
      if has_prefix (c # s) lit \<and> num \<noteq> [] \<and> u \<noteq> [] \<and> hd u \<in> {CHR ''K'', CHR ''M'', CHR ''G''}
      then Some (num, hd u) else match_size lit s)"

definition parse_swap_field :: "string \<Rightarrow> string \<Rightarrow> metrics_err + int" where
  "parse_swap_field s lit =
     (case match_size lit s of None \<Rightarrow> Inl (NoSwapMatch s)
      | Some (num, u) \<Rightarrow> (case parse_float num of None \<Rightarrow> Inl (BadSwapValue num)
          | Some v \<Rightarrow> Inr (i64_of_f64 (f64_scale v (if u = CHR ''K'' then 2 ^ 10 else if u = CHR ''M'' then 2 ^ 20 else 2 ^ 30)))))"

definition swap_used_re :: string where "swap_used_re = ''used = ''"
definition swap_total_re :: string where "swap_total_re = ''total = ''"

definition trim_braces :: "string \<Rightarrow> string" where
  "trim_braces s = dropWhile (\<lambda>c. c \<in> set ''{}'') (trim_right_chars s ''{}'')"

definition parse_load_avg :: "string \<Rightarrow> metrics_err + f64 \<times> f64 \<times> f64" where
  "parse_load_avg s = (case GoStrings.fields (trim_braces (trim_space s)) of
     a # b # c # _ \<Rightarrow> (case (parse_float a, parse_float b, parse_float c) of
         (Some x, Some y, Some z) \<Rightarrow> Inr (x, y, z) | _ \<Rightarrow> Inl BadLoad)
   | _ \<Rightarrow> Inl ShortLoad)"

text \<open>A missing swap or load MIB leaves zeros; a present one that does not read is an error.\<close>

definition sample_sysctl :: "(string \<Rightarrow> string + string) \<Rightarrow> metrics_err + sys_info" where
  "sample_sysctl rd =
     try_bind (case rd ''hw.memsize'' of Inl e \<Rightarrow> Inl (SysctlFailed ''hw.memsize'' e)
               | Inr b \<Rightarrow> Inr (if 8 \<le> length b then le_val (take 8 b) else 0)) (\<lambda>mem.
     try_bind (case rd ''vm.swapusage'' of Inl e \<Rightarrow> Inr (0, 0)
               | Inr b \<Rightarrow> (case parse_swap_raw b of Some p \<Rightarrow> Inr p
                   | None \<Rightarrow> try_bind (parse_swap_field b swap_used_re) (\<lambda>used.
                       Inr (used, case parse_swap_field b swap_total_re of Inl e \<Rightarrow> 0 | Inr n \<Rightarrow> n)))) (\<lambda>(used, tot).
     try_bind (case rd ''vm.loadavg'' of Inl e \<Rightarrow> Inr (Fin 0, Fin 0, Fin 0)
               | Inr b \<Rightarrow> (case parse_load_raw b of Some (x, y, z) \<Rightarrow> Inr (Fin x, Fin y, Fin z) | None \<Rightarrow> parse_load_avg b)) (\<lambda>(x, y, z).
     Inr \<lparr> si_mem = mem, si_swap_used = used, si_swap_total = tot, si_load1 = x, si_load5 = y, si_load15 = z \<rparr>)))"

subsection \<open>vm_stat\<close>

record vm_stat =
  vs_page_size :: int
  vs_free :: int
  vs_active :: int
  vs_wired :: int
  vs_compressed :: int
  vs_occupied :: int
  vs_swapins :: int
  vs_swapouts :: int

datatype vmstat_err = VsRun string | VsEmpty | VsHeader string | VsPageSize | VsTooLong

definition free_bytes :: "vm_stat \<Rightarrow> int" where
  "free_bytes v = wrap64 (vs_free v * vs_page_size v)"

text \<open>\<open>page size of (\d+) bytes\<close>.\<close>

fun match_page :: "string \<Rightarrow> string option" where
  "match_page [] = None"
| "match_page (c # s) =
     (let r = drop 13 (c # s); num = takeWhile is_digit r in
      if has_prefix (c # s) ''page size of '' \<and> num \<noteq> [] \<and> has_prefix (drop (length num) r) '' bytes''
      then Some num else match_page s)"

definition vm_stat_row :: "string \<Rightarrow> vm_stat \<Rightarrow> vm_stat" where
  "vm_stat_row line v = (case cut_text '':'' line of
     None \<Rightarrow> v
   | Some (k, x) \<Rightarrow> (case parse_int (trim_space (trim_suffix (trim_space x) ''.'')) of
       None \<Rightarrow> v
     | Some n \<Rightarrow> let key = trim_space k in
         if key = ''Pages free'' then v\<lparr> vs_free := n \<rparr>
         else if key = ''Pages active'' then v\<lparr> vs_active := n \<rparr>
         else if key = ''Pages wired down'' then v\<lparr> vs_wired := n \<rparr>
         else if key = ''Pages stored in compressor'' then v\<lparr> vs_compressed := n \<rparr>
         else if key = ''Pages occupied by compressor'' then v\<lparr> vs_occupied := n \<rparr>
         else if key = ''Swapins'' then v\<lparr> vs_swapins := n \<rparr>
         else if key = ''Swapouts'' then v\<lparr> vs_swapouts := n \<rparr>
         else v))"

definition parse_vm_stat :: "string \<Rightarrow> vmstat_err + vm_stat" where
  "parse_vm_stat data = (case default_lines data of
     [] \<Rightarrow> Inl VsEmpty
   | header # rows \<Rightarrow> (case match_page header of
       None \<Rightarrow> Inl (VsHeader header)
     | Some num \<Rightarrow> (case parse_int num of
         None \<Rightarrow> Inl VsPageSize
       | Some n \<Rightarrow>
           if list_ex (\<lambda>l. 2 ^ 16 \<le> length l) (split_on (CHR 0x0A) data) then Inl VsTooLong
           else Inr (fold vm_stat_row rows \<lparr> vs_page_size = n, vs_free = 0, vs_active = 0, vs_wired = 0, vs_compressed = 0,
             vs_occupied = 0, vs_swapins = 0, vs_swapouts = 0 \<rparr>))))"

definition sample_vm_stat :: "string + string \<Rightarrow> vmstat_err + vm_stat" where
  "sample_vm_stat out = (case out of Inl e \<Rightarrow> Inl (VsRun e) | Inr s \<Rightarrow> parse_vm_stat s)"

subsection \<open>The memory section\<close>

definition mem_top_n :: nat where "mem_top_n = 5"
definition mem_top_fetch :: nat where "mem_top_fetch = 15"

record mem_proc =
  mr_pid :: int
  mr_name :: string
  mr_age :: string
  mr_resident :: int
  mr_compressed :: int

record memory_section =
  ms_physical :: int
  ms_swap_used :: int
  ms_swap_total :: int
  ms_compressor :: int
  ms_compressor_ram :: int
  ms_top :: "mem_proc list"
  ms_notes :: "string list"
  ms_have_sysctl :: bool
  ms_have_vmstat :: bool

record ps_row =
  pw_rss :: int
  pw_etime :: string
  pw_comm :: string

definition ps_line :: "string \<Rightarrow> (int \<Rightarrow> ps_row option) \<Rightarrow> int \<Rightarrow> ps_row option" where
  "ps_line l m = (let f = GoStrings.fields l in
     if length f < 4 then m
     else case parse_int (f ! 0) of None \<Rightarrow> m
     | Some pid \<Rightarrow> m(pid \<mapsto> \<lparr> pw_rss = wrap64 ((case parse_int (f ! 1) of None \<Rightarrow> 0 | Some n \<Rightarrow> n) * 1024),
         pw_etime = f ! 2, pw_comm = join_with '' '' (drop 3 f) \<rparr>))"

definition parse_ps_table :: "string \<Rightarrow> int \<Rightarrow> ps_row option" where
  "parse_ps_table data = fold ps_line (default_lines data) Map.empty"

definition parse_top_size :: "string \<Rightarrow> int option" where
  "parse_top_size s0 =
     (let s = trim_right_chars s0 ''+-'' in
      if s = [] then None
      else let (k, num) = (case size_unit (last s) of Some k \<Rightarrow> (k, butlast s) | None \<Rightarrow> (1, s)) in
        case parse_float num of None \<Rightarrow> None
        | Some v \<Rightarrow> if negative v then None else Some (i64_of_f64 (f64_scale v k)))"

definition top_mem_row :: "string list \<Rightarrow> mem_proc option" where
  "top_mem_row f = (if length f < 4 then None
     else case parse_int (hd f) of None \<Rightarrow> None
     | Some pid \<Rightarrow> (case (parse_top_size (f ! (length f - 2)), parse_top_size (last f)) of
         (Some mem, Some cmprs) \<Rightarrow> Some \<lparr> mr_pid = pid, mr_name = join_with '' '' (butlast (butlast (tl f))), mr_age = [],
           mr_resident = mem, mr_compressed = cmprs \<rparr>
       | _ \<Rightarrow> None))"

fun top_mem_rows :: "bool \<Rightarrow> string list \<Rightarrow> mem_proc list" where
  "top_mem_rows b [] = []"
| "top_mem_rows b (l # ls) =
     (let f = GoStrings.fields l in
      if \<not> b then top_mem_rows (take 2 f = [''PID'', ''COMMAND'']) ls
      else case top_mem_row f of None \<Rightarrow> top_mem_rows b ls | Some r \<Rightarrow> r # top_mem_rows b ls)"

definition parse_top_mem :: "string \<Rightarrow> mem_proc list" where
  "parse_top_mem data = top_mem_rows False (default_lines data)"

definition proc_of_ps :: "(int \<Rightarrow> ps_row option) \<Rightarrow> int \<Rightarrow> mem_proc list" where
  "proc_of_ps ps pid = (case ps pid of None \<Rightarrow> []
     | Some r \<Rightarrow> [\<lparr> mr_pid = pid, mr_name = pw_comm r, mr_age = [], mr_resident = pw_rss r, mr_compressed = 0 \<rparr>])"

definition name_proc :: "(int \<Rightarrow> ps_row option) \<Rightarrow> mem_proc \<Rightarrow> mem_proc" where
  "name_proc ps p = (case ps (mr_pid p) of None \<Rightarrow> p | Some r \<Rightarrow> p\<lparr> mr_name := base_path (pw_comm r), mr_age := pw_etime r \<rparr>)"

definition proc_weight :: "mem_proc \<Rightarrow> int" where
  "proc_weight p = wrap64 (mr_resident p + mr_compressed p)"

text \<open>\<open>order\<close> lists the keys of the map in the order the runtime visits them.\<close>

definition gather_memory ::
  "((int \<Rightarrow> ps_row option) \<Rightarrow> int list) \<Rightarrow> string + sys_info \<Rightarrow> string + vm_stat \<Rightarrow> string + string \<Rightarrow> string + string \<Rightarrow> memory_section" where
  "gather_memory order sysctl vmstat psout topout =
     (let m0 = \<lparr> ms_physical = 0, ms_swap_used = 0, ms_swap_total = 0, ms_compressor = 0, ms_compressor_ram = 0, ms_top = [],
            ms_notes = [], ms_have_sysctl = False, ms_have_vmstat = False \<rparr>;
          m1 = (case sysctl of
             Inr si \<Rightarrow> m0\<lparr> ms_physical := wrap64 (si_mem si), ms_swap_used := si_swap_used si, ms_swap_total := si_swap_total si, ms_have_sysctl := True \<rparr>
           | Inl e \<Rightarrow> m0\<lparr> ms_notes := [''physical/swap unavailable: '' @ e] \<rparr>);
          m2 = (case vmstat of
             Inr vs \<Rightarrow> m1\<lparr> ms_compressor := wrap64 (vs_compressed vs * vs_page_size vs),
               ms_compressor_ram := wrap64 (vs_occupied vs * vs_page_size vs), ms_have_vmstat := True \<rparr>
           | Inl e \<Rightarrow> m1\<lparr> ms_notes := ms_notes m1 @ [''compressor unavailable: '' @ e] \<rparr>);
          (ps, n3) = (case psout of Inr s \<Rightarrow> (parse_ps_table s, [])
           | Inl e \<Rightarrow> (Map.empty, [''process ages unavailable: ps failed: '' @ e]));
          (rows, n4) = (case topout of
             Inr s \<Rightarrow> (parse_top_mem s, [])
           | Inl e \<Rightarrow> (case psout of
               Inr _ \<Rightarrow> (concat (map (proc_of_ps ps) (order ps)), [''per-process compressed memory unavailable: top failed: '' @ e])
             | Inl _ \<Rightarrow> ([], [''top processes unavailable: top failed: '' @ e])))
      in m2\<lparr> ms_notes := ms_notes m2 @ n3 @ n4,
           ms_top := take mem_top_n (sort_key (\<lambda>p. - proc_weight p) (map (name_proc ps) rows)) \<rparr>)"

definition proc_text :: "mem_proc \<Rightarrow> string" where
  "proc_text p = ''  '' @ pad_left 6 (itoa (mr_pid p)) @ ''  '' @ pad_left size_col_width (bytes_string (mr_resident p)) @ ''  '' @
     pad_left size_col_width (bytes_string (mr_compressed p)) @ ''  '' @ pad_right 12 (mr_age p) @ ''  '' @ mr_name p @ nl"

definition render_memory :: "memory_section \<Rightarrow> string" where
  "render_memory m = ''Memory'' @ nl @
     (if ms_have_sysctl m then
        ''  '' @ bytes_string (ms_physical m) @ '' physical, '' @
        (if 0 < ms_swap_total m \<or> 0 < ms_swap_used m
         then ''swap '' @ bytes_string (ms_swap_used m) @ '' / '' @ bytes_string (ms_swap_total m) @ '' used'' else ''no swap'') @ '', '' @
        (if ms_have_vmstat m
         then ''compressor holding '' @ bytes_string (ms_compressor m) @ '' in '' @ bytes_string (ms_compressor_ram m) @ '' of RAM''
         else ''compressor unavailable'') @ nl
      else ''  physical/swap unavailable'' @ nl) @
     (if ms_top m = [] then ''  top processes: unavailable'' @ nl
      else ''  top '' @ itoa (int (length (ms_top m))) @ '' by resident+compressed:'' @ nl @
        ''  '' @ pad_left 6 ''PID'' @ ''  '' @ pad_left size_col_width ''RESIDENT'' @ ''  '' @ pad_left size_col_width ''COMPRESSED'' @
        ''  '' @ pad_right 12 ''AGE'' @ ''  NAME'' @ nl @ concat (map proc_text (ms_top m))) @
     concat (map (\<lambda>n. ''  note: '' @ n @ nl) (ms_notes m))"

subsection \<open>Sources that fail\<close>

text \<open>A source that fails leaves a note and only its own figures at zero.\<close>

lemma gather_memory_independent:
  "ms_have_sysctl (gather_memory ord s v p t) = is_ok s" "ms_have_vmstat (gather_memory ord s v p t) = is_ok v"
  "ms_physical (gather_memory ord s v p t) = (case s of Inl e \<Rightarrow> 0 | Inr i \<Rightarrow> wrap64 (si_mem i))"
  "length (ms_notes (gather_memory ord s v p t)) = (if is_ok s then 0 else 1) + (if is_ok v then 0 else 1) + (if is_ok p then 0 else 1) + (if is_ok t then 0 else 1)"
  "\<not> is_ok p \<Longrightarrow> \<not> is_ok t \<Longrightarrow> ms_top (gather_memory ord s v p t) = []"
  by (cases s; cases v; cases p; cases t; simp add: gather_memory_def Let_def split: prod.split)+

text \<open>The raw reader never reports more swap in use than there is.\<close>

lemma parse_swap_raw_bounds: "parse_swap_raw b = Some (used, tot) \<Longrightarrow> 0 \<le> used \<and> used \<le> tot \<and> in_i64 tot"
  by (auto simp: parse_swap_raw_def Let_def split: if_splits)

end
