(* ===== verification/CliReport.thy ===== *)
theory CliReport
  imports CliOffload CliSystem MemReport
begin

text \<open>
  The command \<open>report\<close> (\<open>internal/cli/report_cmd.go\<close>): the memory section, then the scan of every module and
  the grand total. A module whose scan fails is reported and left out.
\<close>

type_synonym scanner = "machine \<Rightarrow> (string + report) \<times> machine"

fun report_modules :: "env \<Rightarrow> bool \<Rightarrow> (string \<times> scanner) list \<Rightarrow> int \<times> int \<Rightarrow> machine cli \<Rightarrow> (int \<times> int) \<times> machine cli" where
  "report_modules e json [] g c = (g, c)"
| "report_modules e json ((name, sc) # ms) (grand, apparent) c =
     (case on_world sc c of
        (Inl x, c1) \<Rightarrow> report_modules e json ms (grand, apparent) (put_err (name @ '' scan failed: '' @ x @ nl) c1)
      | (Inr rep, c1) \<Rightarrow> (case report_totals rep of (r, a) \<Rightarrow>
          report_modules e json ms (wrap64 (grand + r), wrap64 (apparent + a)) (put nl (show_report e rep json c1))))"

text \<open>What every module is built from: the collaborators of leaks, apps and offload, and the Spotlight query.\<close>

record report_mods =
  rm_time :: "time \<Rightarrow> string"
  rm_leaks :: leaks
  rm_apps :: apps
  rm_mdfind :: "machine \<Rightarrow> string + string"
  rm_offload :: offload
  rm_vol :: "vol_err \<Rightarrow> string"
  rm_uid :: int

definition report_scanners :: "env \<Rightarrow> report_mods \<Rightarrow> caches \<Rightarrow> (string \<times> scanner) list" where
  "report_scanners e b h =
     (let stop = en_stop e None; done = (\<lambda>f m. map_prod (scan_result e) id (f m)) in
      [(''dev'', done (dev_scan (cli_dev e (rm_time b) [join_path [home_dir e, ''Documents'', ''GitHub'']]) stop)),
       (''caches'', done (caches_scan h stop)),
       (''leaks'', \<lambda>m. map_prod (\<lambda>x. scan_result e (fst x, \<not> snd x)) id (leaks_scan (new_leaks_module e (rm_leaks b)) stop m)),
       (''apps'', done (apps_scan (new_apps_module e (rm_mdfind b) (rm_apps b)) stop)),
       (''startup'', \<lambda>m. (Inr (startup_scan default_startup_config (rm_uid b)), m)),
       (''offload'', done (offload_scan (rm_vol b) (rm_offload b) stop))])"

definition report_cmd ::
  "env \<Rightarrow> report_mods \<Rightarrow> (memory_section \<Rightarrow> string option) \<Rightarrow> memory_section \<Rightarrow> string list \<Rightarrow> machine cli \<Rightarrow> int option \<times> machine cli" where
  "report_cmd e b enc mem args c =
     (case flag_parse [''json'' \<mapsto> FBool False] args of
        Inl x \<Rightarrow> (Some 2, c)
      | Inr (fs, left) \<Rightarrow>
          let json = flag_bool fs ''json'';
              c1 = put (if json then (case enc mem of None \<Rightarrow> [] | Some s \<Rightarrow> s @ nl) else render_memory mem @ nl) c in
          (case on_world (new_caches_module e) c1 of (h, c2) \<Rightarrow>
            (case report_modules e json (report_scanners e b h) (0, 0) c2 of ((grand, apparent), c3) \<Rightarrow>
              (Some 0, if json then c3
                else put (''Grand total reclaimable: '' @ bytes_string grand @ apparent_suffix grand apparent @ nl) c3))))"

text \<open>Each module is scanned whatever the others do: the totals are those of the scans that succeed.\<close>

lemma report_modules_failed_scan:
  "fst (sc (cl_world c)) = Inl x \<Longrightarrow> fst (report_modules e json [(name, sc)] g c) = g"
  by (cases g) (auto simp: on_world_def split: prod.splits)

end
