(* ===== verification/CliSafe.thy ===== *)
theory CliSafe
  imports CliClean
begin

text \<open>
  What the cleaning commands may change: the laws of \<open>cleaner\<close> for the four modules that work on the
  file system, and for each command that a change of the tree had the user's consent, was not a dry run,
  and consists of removals the module's own gate allowed.
\<close>

subsection \<open>Scanning changes no file\<close>

lemma os_statD: "os_stat p m = (r, m') \<Longrightarrow> mc_fs m' = mc_fs m"
  using os_stat_fs [of p m] by simp

lemma os_read_dirD: "os_read_dir p m = (r, m') \<Longrightarrow> mc_fs m' = mc_fs m"
  using os_read_dir_fs [of p m] by simp

lemma dev_itemD: "dev_item d p m = (it, m') \<Longrightarrow> mc_fs m' = mc_fs m"
  by (auto simp: dev_item_def Let_def split: prod.splits dest!: dir_sizeD os_statD)

lemma dev_visitsD: "dev_visits d name vs sk r m = (r', m') \<Longrightarrow> mc_fs m' = mc_fs m"
proof (induction vs arbitrary: sk r m)
  case (Cons v vs)
  show ?case
  proof (cases v)
    case (Visit k nd i)
    obtain it m1 where it: "dev_item d (name k) m = (it, m1)" by fastforce
    let ?skip = "case sk of None \<Rightarrow> False | Some q \<Rightarrow> strict_prefix q k"
    show ?thesis using Cons.prems dev_itemD [OF it] unfolding Visit dev_visits.simps it
      by (cases "?skip"; cases "nd_kind nd = KDir \<and> base_path (name k) \<in> set dev_targets") (auto dest!: Cons.IH)
  qed (use Cons.prems in \<open>auto dest!: Cons.IH\<close>)
qed simp

lemma dev_rootsD: "dev_roots d stop n rts r m = (x, m') \<Longrightarrow> mc_fs m' = mc_fs m"
proof (induction rts arbitrary: n r m)
  case (Cons rt rts)
  obtain vs m1 where w: "walk_dir rt m = (vs, m1)" by fastforce
  obtain r1 m2 where v: "dev_visits d (visit_path rt (case lloc (mc_fs m) rt of None \<Rightarrow> [] | Some q \<Rightarrow> q)) vs None r m1 = (r1, m2)"
    by fastforce
  show ?case using Cons.prems walk_dirD [OF w] dev_visitsD [OF v]
    by (auto simp: w v split: if_splits dest!: Cons.IH)
qed simp

lemma dev_scanD: "dev_scan d stop m = (x, m') \<Longrightarrow> mc_fs m' = mc_fs m"
  by (auto simp: dev_scan_def dest: dev_rootsD)

lemma cache_itemD: "cache_item p ev r m = (r', m') \<Longrightarrow> mc_fs m' = mc_fs m"
  by (auto simp: cache_item_def split: option.splits if_splits prod.splits dest!: dir_sizeD os_statD)

lemma cache_itemsD: "cache_items stop n ps r m = (x, m') \<Longrightarrow> mc_fs m' = mc_fs m"
  by (induction stop n ps r m arbitrary: x m' rule: cache_items.induct)
    (auto split: if_splits prod.splits dest!: cache_itemD)

lemma caches_scanD: "caches_scan h stop m = (x, m') \<Longrightarrow> mc_fs m' = mc_fs m"
  by (auto simp: caches_scan_def dest: cache_itemsD)

lemma scan_candidatesD: "scan_candidates a stop n ix cs rep m = (x, m') \<Longrightarrow> mc_fs m' = mc_fs m"
proof (induction cs arbitrary: n rep m)
  case (Cons c cs)
  obtain io m1 where i: "inspect_app a c ix m = (io, m1)" by fastforce
  show ?case using Cons.prems inspect_app_fs [OF i] unfolding scan_candidates.simps i
    by (cases "stop n"; cases io) (auto dest!: Cons.IH)
qed simp

lemma root_candidatesD: "root_candidates rs m = (x, m') \<Longrightarrow> mc_fs m' = mc_fs m"
proof (induction rs arbitrary: m m' x)
  case (Cons r rs)
  obtain es m1 where e: "os_read_dir r m = (es, m1)" by fastforce
  obtain cs m2 where c: "root_candidates rs m1 = (cs, m2)" by fastforce
  have "m' = m2" using Cons.prems by (cases es) (simp_all add: e c)
  then show ?case using Cons.IH [OF c] os_read_dirD [OF e] by simp
qed simp

lemma curated_candidatesD: "curated_candidates cs m = (x, m') \<Longrightarrow> mc_fs m' = mc_fs m"
  by (induction cs m arbitrary: x m' rule: curated_candidates.induct)
    (auto split: prod.splits dest!: os_lstatD)

lemma apps_scanD:
  assumes "quiet (am_index a)" "apps_scan a stop m = (x, m')"
  shows "mc_fs m' = mc_fs m"
proof -
  obtain ix m1 where ix: "am_index a m = (ix, m1)" by fastforce
  obtain c1 m2 where c: "candidates a m1 = (c1, m2)" by fastforce
  have "mc_fs m2 = mc_fs m1" using c by (auto simp: candidates_def split: prod.splits dest!: root_candidatesD curated_candidatesD)
  then show ?thesis using assms quietD [OF assms(1) ix]
    by (auto simp: apps_scan_def ix c dest!: scan_candidatesD)
qed


subsection \<open>The sweep of leaks\<close>

lemma sweep_hitD: "quiet_leaks l \<Longrightarrow> sweep_hit l s p st m = (r, m') \<Longrightarrow> mc_fs m' = mc_fs m"
  by (auto simp: sweep_hit_def split: prod.splits option.splits dest!: inspectD)

lemma os_globD: "os_glob g m = (r, m') \<Longrightarrow> mc_fs m' = mc_fs m"
  using os_glob_fs [of g m] by simp

lemma scratch_entriesD: "scratch_entries s d m = (r, m') \<Longrightarrow> mc_fs m' = mc_fs m"
  by (auto simp: scratch_entries_def Let_def split: option.splits if_splits prod.splits dest!: os_read_dirD)

lemma sweep_entriesD:
  assumes "quiet_leaks l"
  shows "sweep_entries l s ps st m = (r, m') \<Longrightarrow> mc_fs m' = mc_fs m"
proof (induction ps arbitrary: st m)
  case (Cons p ps)
  obtain h m1 where h: "sweep_hit l s p (st\<lparr>sw_seen := p # sw_seen st\<rparr>) m = (h, m1)" by fastforce
  show ?case using Cons.prems sweep_hitD [OF assms h] unfolding sweep_entries.simps h
    by (cases "p \<in> set (sw_seen st)"; cases h) (auto dest!: Cons.IH)
qed simp

lemma sweep_matchesD:
  assumes q: "quiet_leaks l"
  shows "sweep_matches l stop s ps st m = (r, m') \<Longrightarrow> mc_fs m' = mc_fs m"
proof (induction ps arbitrary: st m)
  case (Cons p ps)
  let ?q = "clean_path p" and ?st = "st\<lparr>sw_polls := Suc (sw_polls st)\<rparr>"
  obtain io st1 m1 where h: "sweep_hit l s ?q (?st\<lparr>sw_seen := ?q # sw_seen st\<rparr>) m = ((io, st1), m1)" by (metis surj_pair)
  obtain es m2 where e: "scratch_entries s ?q m1 = (es, m2)" by fastforce
  obtain st2 m3 where t: "sweep_entries l s es st1 m2 = (st2, m3)" by fastforce
  have f: "mc_fs m1 = mc_fs m" "mc_fs m2 = mc_fs m1" "mc_fs m3 = mc_fs m2"
    using sweep_hitD [OF q h] scratch_entriesD [OF e] sweep_entriesD [OF q t] by auto
  show ?case using Cons.prems f unfolding sweep_matches.simps Let_def h
    by (cases io; cases "stop (sw_polls st)"; cases "?q \<in> set (sw_seen st)") (auto simp: e t split: if_splits dest!: Cons.IH)
qed simp

lemma sweep_globsD:
  assumes q: "quiet_leaks l"
  shows "sweep_globs l stop s gs st m = (r, m') \<Longrightarrow> mc_fs m' = mc_fs m"
proof (induction gs arbitrary: st m)
  case (Cons g gs)
  obtain ps m1 where g: "os_glob g m = (ps, m1)" by fastforce
  obtain b st1 m2 where w: "sweep_matches l stop s (case ps of Some x \<Rightarrow> x | None \<Rightarrow> []) st m1 = ((b, st1), m2)" by (metis surj_pair)
  note f = os_globD [OF g] sweep_matchesD [OF q w]
  show ?case
  proof (cases ps)
    case None
    then show ?thesis using Cons.prems f(1) by (auto simp: g dest!: Cons.IH)
  next
    case (Some xs)
    then show ?thesis using Cons.prems f w by (cases b) (auto simp: g dest!: Cons.IH)
  qed
qed simp

lemma member_factsD: "member_facts ps t m = (r, m') \<Longrightarrow> mc_fs m' = mc_fs m"
proof (induction ps arbitrary: t m)
  case (Cons p ps)
  obtain f m1 where f: "tree_facts p m = (f, m1)" by fastforce
  show ?case using Cons.prems tree_factsD [OF f] unfolding member_facts.simps f
    by (auto split: option.splits dest!: Cons.IH)
qed simp

lemma ask_openD:
  assumes "quiet_leaks l" "ask_open l op m = (r, m')"
  shows "mc_fs m' = mc_fs m"
proof -
  have "quiet (lk_open l)" using assms(1) by (simp add: quiet_leaks_def)
  then show ?thesis using assms(2) by (auto simp: ask_open_def split: if_splits prod.splits sum.splits dest: quietD)
qed

lemma inspect_familyD:
  assumes "quiet_leaks l" "inspect_family l s fam op u m = (r, m')"
  shows "mc_fs m' = mc_fs m"
proof -
  obtain st ev op1 m1 where c: "classify_family l s fam (family_evidence l s fam) op m = ((st, ev, op1), m1)" by (metis surj_pair)
  have "mc_fs m1 = mc_fs m"
    using c by (auto simp: classify_family_def Let_def split: sum.splits option.splits if_splits prod.splits
        dest!: member_factsD ask_openD [OF assms(1)])
  then show ?thesis using assms(2) by (auto simp: inspect_family_def c Let_def split: prod.splits dest!: measure_hitD)
qed

lemma sweep_familiesD:
  assumes q: "quiet_leaks l"
  shows "sweep_families l stop s rule fams op st m = (r, m') \<Longrightarrow> mc_fs m' = mc_fs m"
proof (induction fams arbitrary: op st m)
  case (Cons fam fams)
  obtain it op1 u m1 where i: "inspect_family l s fam op (Some (sw_union st)) m = ((it, op1, u), m1)" by (metis surj_pair)
  show ?case using Cons.prems inspect_familyD [OF q i] unfolding sweep_families.simps Let_def i
    by (auto split: if_splits dest!: Cons.IH)
qed simp

lemma sweep_rootsD:
  assumes q: "quiet_leaks l"
  shows "sweep_roots l stop s rule rts op st m = (r, m') \<Longrightarrow> mc_fs m' = mc_fs m"
proof (induction rts arbitrary: op st m)
  case (Cons rt rts)
  obtain fams m1 where f: "list_families rt rule (lk_uid l) (sw_seen st) m = (fams, m1)" by fastforce
  obtain b op1 st1 m2 where w: "sweep_families l stop s rule fams op st m1 = ((b, op1, st1), m2)" by (metis surj_pair)
  show ?case using Cons.prems list_familiesD [OF f] sweep_familiesD [OF q w] unfolding sweep_roots.simps f prod.case w
    by (cases b) (auto dest!: Cons.IH)
qed simp

lemma scan_familiesD:
  assumes q: "quiet_leaks l"
  shows "scan_families l stop s rule rgs op st m = (r, m') \<Longrightarrow> mc_fs m' = mc_fs m"
proof (induction rgs arbitrary: op st m)
  case (Cons g gs)
  obtain ps m1 where g: "os_glob g m = (ps, m1)" by fastforce
  obtain b op1 st1 m2 where w: "sweep_roots l stop s rule (case ps of Some x \<Rightarrow> x | None \<Rightarrow> []) op st m1 = ((b, op1, st1), m2)"
    by (metis surj_pair)
  note f = os_globD [OF g] sweep_rootsD [OF q w]
  show ?case
  proof (cases ps)
    case None
    then show ?thesis using Cons.prems f(1) by (auto simp: g dest!: Cons.IH)
  next
    case (Some xs)
    then show ?thesis using Cons.prems f w by (cases b) (auto simp: g dest!: Cons.IH)
  qed
qed simp

lemma sweep_sigsD:
  assumes q: "quiet_leaks l"
  shows "sweep_sigs l stop ss st m = (r, m') \<Longrightarrow> mc_fs m' = mc_fs m"
proof (induction ss arbitrary: st m)
  case (Cons s ss)
  let ?one = "case sn_family s of Some rule \<Rightarrow> scan_families l stop s rule (fr_roots rule) OpenUnasked st m
     | None \<Rightarrow> sweep_globs l stop s (sn_globs s) st m"
  obtain b st1 m1 where o: "?one = ((b, st1), m1)" by (metis surj_pair)
  have "mc_fs m1 = mc_fs m" using o scan_familiesD [OF q] sweep_globsD [OF q] by (cases "sn_family s") auto
  then show ?case using Cons.prems o unfolding sweep_sigs.simps o by (cases b) (auto dest!: Cons.IH)
qed simp

lemma leaks_scanD: "quiet_leaks l \<Longrightarrow> leaks_scan l stop m = (r, m') \<Longrightarrow> mc_fs m' = mc_fs m"
  by (auto simp: leaks_scan_def split: prod.splits dest!: sweep_sigsD)

subsection \<open>The modules keep the contract\<close>

definition dev_removal :: "dev \<Rightarrow> mod_action \<Rightarrow> fs \<Rightarrow> fs \<Rightarrow> bool" where
  "dev_removal d a f g \<longleftrightarrow> ma_op a = ''delete'' \<and> can_delete (de_cwd d) (de_safety d) (ma_target a) = None \<and>
     (removes (\<lambda>p f. p = ma_target a))\<^sup>*\<^sup>* f g"

definition caches_removal :: "caches \<Rightarrow> mod_action \<Rightarrow> fs \<Rightarrow> fs \<Rightarrow> bool" where
  "caches_removal h a f g \<longleftrightarrow> ma_op a = ''clear'' \<and> \<not> is_report_only h (ma_target a) \<and>
     can_delete (ch_cwd h) (ch_safety h) (ma_target a) = None \<and>
     (\<exists>es m. fst (os_read_dir (ma_target a) m) = Some es \<and> mc_fs m = f \<and>
        (removes (\<lambda>p f. \<exists>n \<in> fst ` set es. p = join_path [ma_target a, n]))\<^sup>*\<^sup>* f g)"

definition apps_removal :: "apps \<Rightarrow> mod_action \<Rightarrow> fs \<Rightarrow> fs \<Rightarrow> bool" where
  "apps_removal b a f g \<longleftrightarrow> ma_op a = ''delete'' \<and> (\<exists>c. candidate_for b (ma_target a) = Some c \<and>
     (cd_keyed c = ByCurated \<or> can_delete (am_cwd b) (am_safety b) (cd_path c) = None) \<and>
     orphaned b c f \<and> (removes (\<lambda>p f. p = cd_path c))\<^sup>*\<^sup>* f g)"

definition leaks_removal :: "leaks \<Rightarrow> mod_action \<Rightarrow> fs \<Rightarrow> fs \<Rightarrow> bool" where
  "leaks_removal l a f g \<longleftrightarrow> (\<exists>s. signature_for l (ma_target a) = Some s \<and> ma_op a = ''delete'' \<and>
     (removes (may_go l s (ma_target a) f))\<^sup>*\<^sup>* f g)"

interpretation devm: cleaner "dev_module e txt d" mc_fs "dev_removal d" for e txt d
proof unfold_locales
  fix m r m' assume "md_scan (dev_module e txt d) m = (r, m')"
  then show "mc_fs m' = mc_fs m" by (auto simp: dev_module_def map_prod_def split: prod.splits dest: dev_scanD)
next
  fix a m x m' assume "md_apply (dev_module e txt d) a m = (x, m')" "mc_fs m' \<noteq> mc_fs m"
  moreover obtain y m2 where "dev_apply d a m = (y, m2)" by fastforce
  ultimately show "dev_removal d a (mc_fs m) (mc_fs m')"
    using dev_apply_safe [of d a m y m'] by (simp add: dev_module_def dev_removal_def)
qed

interpretation cachesm: cleaner "caches_module e txt h" mc_fs "caches_removal h" for e txt h
proof unfold_locales
  fix m r m' assume "md_scan (caches_module e txt h) m = (r, m')"
  then show "mc_fs m' = mc_fs m" by (auto simp: caches_module_def map_prod_def split: prod.splits dest: caches_scanD)
next
  fix a m x m' assume "md_apply (caches_module e txt h) a m = (x, m')" "mc_fs m' \<noteq> mc_fs m"
  moreover obtain y m2 where "caches_apply h a m = (y, m2)" by fastforce
  ultimately show "caches_removal h a (mc_fs m) (mc_fs m')"
    using caches_apply_safe [of h a m y m'] by (simp add: caches_module_def caches_removal_def)
qed

lemma apps_cleaner:
  assumes "quiet (am_index b)" "\<forall>p. quiet (am_statfs b p)"
  shows "cleaner (apps_module e txt b) mc_fs (apps_removal b)"
proof unfold_locales
  fix m r m' assume "md_scan (apps_module e txt b) m = (r, m')"
  then show "mc_fs m' = mc_fs m"
    by (auto simp: apps_module_def map_prod_def split: prod.splits dest: apps_scanD [OF assms(1)])
next
  fix a m x m' assume "md_apply (apps_module e txt b) a m = (x, m')" "mc_fs m' \<noteq> mc_fs m"
  moreover obtain y m2 where "apps_apply b a m = (y, m2)" by fastforce
  ultimately show "apps_removal b a (mc_fs m) (mc_fs m')"
    using apps_apply_safe [OF assms, of a m y m'] by (simp add: apps_module_def apps_removal_def)
qed

lemma leaks_cleaner:
  assumes "quiet_leaks l" "proofs_said l" "cwd_ok (lk_cwd l)"
  shows "cleaner (leaks_module e txt l) mc_fs (leaks_removal l)"
proof unfold_locales
  fix m r m' assume "md_scan (leaks_module e txt l) m = (r, m')"
  then show "mc_fs m' = mc_fs m"
    by (auto simp: leaks_module_def map_prod_def split: prod.splits dest: leaks_scanD [OF assms(1)])
next
  fix a m x m' assume "md_apply (leaks_module e txt l) a m = (x, m')" "mc_fs m' \<noteq> mc_fs m"
  moreover obtain y m2 where "leaks_apply l (en_stop e (Some a)) a m = (y, m2)" by fastforce
  ultimately show "leaks_removal l a (mc_fs m) (mc_fs m')"
    using leaks_apply_removes [OF assms, of "en_stop e (Some a)" a m y m'] by (auto simp: leaks_module_def leaks_removal_def)
qed

subsection \<open>A command changes the tree only with consent\<close>

definition consented :: "flag_set \<Rightarrow> string list \<Rightarrow> bool" where
  "consented fs inp \<longleftrightarrow> \<not> flag_bool fs ''dry-run'' \<and> (flag_bool fs ''y'' \<or> says_yes inp)"

lemma with_verb_cases:
  assumes "with_verb usage fs0 args f c = (r, c')"
  obtains "cl_world c' = cl_world c" "cl_audit c' = cl_audit c" | verb fs extra where "parse_verb fs0 args = Inr (verb, fs, extra)" "f verb fs extra c = (r, c')"
proof (cases "parse_verb fs0 args")
  case (Inl x)
  then have "cl_world c' = cl_world c \<and> cl_audit c' = cl_audit c" using assms by (cases x) (auto simp: with_verb_def)
  then show ?thesis using that(1) by blast
next
  case (Inr y)
  then show ?thesis using assms that(2) by (cases y) (auto simp: with_verb_def)
qed

text \<open>A verb function either leaves the world alone or runs a clean on the plan of the report.\<close>

definition verb_cleans :: "'w cli_module \<Rightarrow> bool \<Rightarrow> flag_set \<Rightarrow> (report \<Rightarrow> 'w cli \<Rightarrow> int option \<times> 'w cli) \<Rightarrow> bool" where
  "verb_cleans md clean fs f \<longleftrightarrow> (\<forall>rep c r c'. f rep c = (r, c') \<longrightarrow> cl_world c' = cl_world c \<or>
     clean \<and> (\<exists>t p c1. cl_world c1 = cl_world c \<and> cl_in c1 = cl_in c \<and>
       clean_run md t p (flag_bool fs ''y'') (flag_bool fs ''dry-run'') (md_plan md rep) c1 = (r, c')))"

context cleaner begin

lemma verb_safe:
  assumes "verb_cleans md clean fs f" "scan_then md f c = (r, c')" "obs (cl_world c') \<noteq> obs (cl_world c)"
  shows "clean \<and> consented fs (cl_in c) \<and> (\<exists>rep. fst (md_scan md (cl_world c)) = Inr rep \<and>
    (\<lambda>x y. \<exists>a \<in> set (md_plan md rep). removal a x y)\<^sup>*\<^sup>* (obs (cl_world c)) (obs (cl_world c')))"
proof -
  obtain rep c1 where s: "fst (md_scan md (cl_world c)) = Inr rep" "obs (cl_world c1) = obs (cl_world c)" "cl_in c1 = cl_in c"
    "f rep c1 = (r, c')"
    using scan_then_obs [OF assms(2)] assms(3) by auto
  then have "cl_world c' \<noteq> cl_world c1" using assms(3) by auto
  then obtain t p c2 where "clean" and w: "cl_world c2 = cl_world c1" "cl_in c2 = cl_in c1" and
    "clean_run md t p (flag_bool fs ''y'') (flag_bool fs ''dry-run'') (md_plan md rep) c2 = (r, c')"
    using assms(1) s(4) unfolding verb_cleans_def by metis
  from run_removal [OF this(4)] show ?thesis
    using \<open>clean\<close> s assms(3) unfolding w consented_def by auto
qed

end

lemma show_report_simps [simp]: "cl_world (show_report e rep j c) = cl_world c" "cl_in (show_report e rep j c) = cl_in c"
  "cl_audit (show_report e rep j c) = cl_audit c"
  by (simp_all add: show_report_def)

lemma verbs_clean:
  "verb_cleans md (verb = ''clean'') fs (dev_verb e md verb fs)"
  "verb_cleans md (verb = ''clean'') fs (caches_verb e md verb fs)"
  "verb_cleans md (verb \<noteq> ''list'') fs (apps_verb e md verb fs)"
  "verb_cleans md (verb = ''clean'') fs (leaks_verb e md verb fs)"
  unfolding verb_cleans_def
  by (auto simp: dev_verb_def caches_verb_def apps_verb_def leaks_verb_def show_leaks_def Let_def split: if_splits)

lemma scan_result_Inr: "scan_result e x = Inr rep \<longleftrightarrow> x = (rep, True)"
  by (cases x) (simp add: scan_result_def)

lemma scan_cancelled_Inr: "scan_result e (fst x, \<not> snd x) = Inr rep \<longleftrightarrow> x = (rep, False)"
  by (cases x) (simp add: scan_result_def)

text \<open>The audit directory under a command: \<open>scan\<close> leaves it alone, and \<open>clean\<close> uses it after the prompt.\<close>

lemma dev_verb_audit:
  assumes "scan_then md (dev_verb e md verb fs) c = (r, c')" "cl_audit c' \<noteq> cl_audit c"
  shows "verb = ''clean'' \<and> (flag_bool fs ''y'' \<or> says_yes (cl_in c)) \<and>
    audit_effect (audit_dir e) (flag_bool fs ''dry-run'') (cl_audit c) (cl_audit c')"
proof -
  obtain x c1 where s: "on_world (md_scan md) c = (x, c1)" by fastforce
  have c1: "cl_audit c1 = cl_audit c" "cl_in c1 = cl_in c" using s by (auto simp: on_world_def split: prod.splits)
  obtain rep where x: "x = Inr rep" using assms s c1 by (cases x) (auto simp: scan_then_def)
  let ?t = "words e ''dev'' ''would delete'' ''deleted'' ''failed'' id ''.''"
  let ?p = "''Delete '' @ count_text (md_plan md rep) @ '' folder(s) totalling '' @ bytes_string (rp_total rep) @ ''?''"
  let ?c2 = "show_report e rep (flag_bool fs ''json'') c1"
  have "dev_verb e md verb fs rep c1 = (r, c')" using assms(1) s x by (simp add: scan_then_def)
  then have v: "verb = ''clean''" and run: "clean_run md ?t ?p (flag_bool fs ''y'') (flag_bool fs ''dry-run'') (md_plan md rep) ?c2 = (r, c')"
    using assms(2) c1 by (auto simp: dev_verb_def Let_def split: if_splits)
  show ?thesis using clean_run_audit [OF run] v c1 assms(2) by (simp add: words_def)
qed

text \<open>
  C10. What \<open>noo-noo dev\<close> writes. It changes the file tree it scans only on the verb \<open>clean\<close>, outside a dry run, and when
  the user passed \<open>-y\<close> or answered yes; the change then consists of removals, each below the target of an action
  planned from the completed scan and each allowed by the guard built on the \<open>-roots\<close> given. The only other place
  it writes is its audit directory, and that on \<open>clean\<close> after the same consent: it makes the directory, on a
  dry run too, and appends records to the daily files in it, on a dry run none.
\<close>

theorem dev_clean_consent:
  assumes "dev_cmd e txt tm args c = (r, c')"
  shows "(mc_fs (cl_world c') \<noteq> mc_fs (cl_world c) \<longrightarrow>
      (\<exists>fs extra rep. parse_verb (dev_flags e) args = Inr (''clean'', fs, extra) \<and> consented fs (cl_in c) \<and>
        (let d = cli_dev e tm (split_csv (flag_str fs ''roots'')) in
           fst (dev_scan d (en_stop e None) (cl_world c)) = (rep, True) \<and>
           (\<lambda>f g. \<exists>a \<in> set (dev_plan rep). dev_removal d a f g)\<^sup>*\<^sup>* (mc_fs (cl_world c)) (mc_fs (cl_world c')))))
    \<and> (cl_audit c' \<noteq> cl_audit c \<longrightarrow>
      (\<exists>fs extra. parse_verb (dev_flags e) args = Inr (''clean'', fs, extra) \<and> (flag_bool fs ''y'' \<or> says_yes (cl_in c)) \<and>
        audit_effect (audit_dir e) (flag_bool fs ''dry-run'') (cl_audit c) (cl_audit c')))"
proof (rule with_verb_cases [OF assms [unfolded dev_cmd_def Let_def]])
  fix verb fs extra
  let ?d = "cli_dev e tm (split_csv (flag_str fs ''roots''))"
  assume v: "parse_verb (dev_flags e) args = Inr (verb, fs, extra)"
    and s: "scan_then (dev_module e txt ?d) (dev_verb e (dev_module e txt ?d) verb fs) c = (r, c')"
  show ?thesis
    using devm.verb_safe [OF verbs_clean(1) s] dev_verb_audit [OF s] v
    by (auto simp: dev_module_def scan_result_Inr)
qed simp_all

definition demo_env :: env where
  "demo_env = \<lparr> en_home = Some ''/U'', en_json = \<lparr> je_item = (\<lambda>it s. None), je_total = (\<lambda>m a b d. None) \<rparr>,
     en_audit_json = (\<lambda>r. Some (au_target r)), en_width = None, en_cwd = None, en_stop = (\<lambda>a n. False), en_ctx_err = [] \<rparr>"

definition demo_cli :: "fs \<Rightarrow> string list \<Rightarrow> machine cli" where
  "demo_cli f inp = \<lparr> cl_world = machine_of f, cl_in = inp, cl_out = [], cl_err = [],
     cl_audit = \<lparr> ao_files = Map.empty, ao_dirs = [], ao_fails = (\<lambda>n. False), ao_short = (\<lambda>n. 0), ao_clock = (\<lambda>n. 0), ao_calls = 0 \<rparr> \<rparr>"

definition demo_repo :: fs where
  "demo_repo = [([''r''], root_node), ([''r'', ''node_modules''], root_node), ([''r'', ''src''], root_node)]"

text \<open>A clean of one action, with \<open>-y\<close>.\<close>

lemma clean_one: "cl_world (snd (clean_run md t p True False [a] c)) = snd (md_apply md a (cl_world c))"
proof -
  obtain lg os where n: "audit_new (cw_audit_dir t) (cl_audit (put (''(--yes specified, skipping confirmation)'' @ nl) c)) = (lg, os)" by fastforce
  obtain k x w where ap: "md_apply md a (cl_world c) = ((k, x), w)" by (metis surj_pair)
  show ?thesis
  proof (cases lg)
    case None
    then show ?thesis using n by (simp add: clean_run_def confirm_def on_world_def ap)
  next
    case (Some l)
    obtain y l1 os1 where "audit_write (cw_enc t) (audit_rec_of (cw_module t) a k x) l os = ((y, l1), os1)" by (metis surj_pair)
    then show ?thesis using n Some by (cases x) (simp_all add: clean_run_def confirm_def on_world_def ap)
  qed
qed

lemma dev_module_simps [simp]:
  "md_scan (dev_module e txt d) m = map_prod (scan_result e) id (dev_scan d (en_stop e None) m)"
  "md_plan (dev_module e txt d) = dev_plan"
  "md_apply (dev_module e txt d) a m = map_prod (sum_result txt) id (dev_apply d a m)"
  by (simp_all add: dev_module_def)

lemma dev_cmd_one:
  assumes "parse_verb (dev_flags e) args = Inr (''clean'', fs, x)" "flag_bool fs ''y''" "\<not> flag_bool fs ''dry-run''"
    "dev_scan (cli_dev e tm (split_csv (flag_str fs ''roots''))) (en_stop e None) (cl_world c) = ((rep, True), m1)" "dev_plan rep = [a]"
  shows "cl_world (snd (dev_cmd e txt tm args c)) = snd (dev_apply (cli_dev e tm (split_csv (flag_str fs ''roots''))) a m1)"
  using assms by (simp add: dev_cmd_def with_verb_def scan_then_def on_world_def scan_result_def dev_verb_def clean_one Let_def)

lemma dev_clean_consent_witness:
  "\<exists>r c' fs extra. dev_cmd demo_env (\<lambda>e. []) (\<lambda>t. []) [''clean'', ''-y'', ''-roots'', ''/r''] (demo_cli demo_repo []) = (r, c') \<and>
     map fst (mc_fs (cl_world c')) = [[''r''], [''r'', ''src'']] \<and>
     parse_verb (dev_flags demo_env) [''clean'', ''-y'', ''-roots'', ''/r''] = Inr (''clean'', fs, extra) \<and> consented fs []"
proof -
  let ?args = "[''clean'', ''-y'', ''-roots'', ''/r'']" and ?c = "demo_cli demo_repo []"
  let ?d = "cli_dev demo_env (\<lambda>t. []) [''/r'']"
  obtain r c' where d: "dev_cmd demo_env (\<lambda>e. []) (\<lambda>t. []) ?args ?c = (r, c')" by fastforce
  have "case parse_verb (dev_flags demo_env) ?args of Inl e \<Rightarrow> False | Inr (v, fs, x) \<Rightarrow> v = ''clean'' \<and> split_csv (flag_str fs ''roots'') = [''/r'']
      \<and> flag_bool fs ''y'' \<and> \<not> flag_bool fs ''dry-run''" by code_simp
  then obtain fs x where p: "parse_verb (dev_flags demo_env) ?args = Inr (''clean'', fs, x)" "split_csv (flag_str fs ''roots'') = [''/r'']"
      "flag_bool fs ''y''" "\<not> flag_bool fs ''dry-run''" by (auto split: sum.splits)
  obtain rep ok m1 where s: "dev_scan ?d (\<lambda>n. False) (machine_of demo_repo) = ((rep, ok), m1)" by (metis surj_pair)
  have "case dev_scan ?d (\<lambda>n. False) (machine_of demo_repo) of ((rep, ok), m1) \<Rightarrow> ok \<and> (case dev_plan rep of [a] \<Rightarrow>
     map fst (mc_fs (snd (dev_apply ?d a m1))) = [[''r''], [''r'', ''src'']] | _ \<Rightarrow> False)" by code_simp
  then obtain a where a: "ok" "dev_plan rep = [a]" "map fst (mc_fs (snd (dev_apply ?d a m1))) = [[''r''], [''r'', ''src'']]"
    unfolding s by (auto split: list.splits)
  have w: "map fst (mc_fs (cl_world c')) = [[''r''], [''r'', ''src'']]"
    using dev_cmd_one [OF p(1,3,4), of "\<lambda>t. []" ?c rep m1 a "\<lambda>e. []"] s a d p(2) by (simp add: demo_env_def demo_cli_def)
  then have "mc_fs (cl_world c') \<noteq> mc_fs (cl_world ?c)" by (auto simp: demo_cli_def demo_repo_def machine_of_def)
  with dev_clean_consent [OF d] show ?thesis using d w p by (auto simp: demo_cli_def)
qed

lemma caches_clean_consent:
  assumes "caches_cmd e txt args c = (r, c')" "mc_fs (cl_world c') \<noteq> mc_fs (cl_world c)"
  shows "\<exists>fs extra rep. parse_verb base_flags args = Inr (''clean'', fs, extra) \<and> consented fs (cl_in c) \<and>
    (case new_caches_module e (cl_world c) of (h, m1) \<Rightarrow>
       fst (caches_scan h (en_stop e None) m1) = (rep, True) \<and>
       (\<lambda>f g. \<exists>a \<in> set (caches_plan h rep). caches_removal h a f g)\<^sup>*\<^sup>* (mc_fs (cl_world c)) (mc_fs (cl_world c')))"
proof (rule with_verb_cases [OF assms(1) [unfolded caches_cmd_def]])
  fix verb fs extra
  assume v: "parse_verb base_flags args = Inr (verb, fs, extra)"
    and s: "(case on_world (new_caches_module e) c of (h, c2) \<Rightarrow>
      scan_then (caches_module e txt h) (caches_verb e (caches_module e txt h) verb fs) c2) = (r, c')"
  obtain h m1 where n: "new_caches_module e (cl_world c) = (h, m1)" by fastforce
  have m1: "mc_fs m1 = mc_fs (cl_world c)"
    using n by (auto simp: new_caches_module_def default_cache_targets_def split: prod.splits dest!: os_globD)
  from s have "scan_then (caches_module e txt h) (caches_verb e (caches_module e txt h) verb fs) (c\<lparr>cl_world := m1\<rparr>) = (r, c')"
    by (simp add: on_world_def n)
  from cachesm.verb_safe [OF verbs_clean(2) this] show ?thesis
    using assms(2) v n m1 by (auto simp: caches_module_def scan_result_Inr)
qed (use assms(2) in simp)

lemma list_foldersD: "list_folders ds ix m = (r, m') \<Longrightarrow> mc_fs m' = mc_fs m"
proof (induction ds arbitrary: ix m)
  case (Cons d ds)
  obtain es m1 where e: "os_read_dir d m = (es, m1)" by fastforce
  show ?case using Cons.prems os_read_dirD [OF e] by (cases es) (auto simp: e dest!: Cons.IH)
qed simp

lemma build_index_quiet: "quiet (build_index mdfind home)"
proof -
  have "mc_fs (snd (build_index mdfind home m)) = mc_fs m" for m
    using list_foldersD [OF surjective_pairing] by (simp add: build_index_def Let_def split: prod.split sum.split)
  then show ?thesis by (simp add: quiet_def)
qed

text \<open>
  C9. When \<open>noo-noo apps\<close> changes the file tree, the verb was \<open>clean\<close>, with consent and not a dry run, and
  every removal lies below the target of a planned action: a curated folder or, permitted by the guard, a
  direct child of an app-data root; just before it, no installed application resolved for its name, it was
  the user's own directory, large, and untouched for the idle time.
\<close>

theorem apps_clean_safe:
  assumes "\<forall>p. quiet (am_statfs base p)"
    "apps_cmd e txt mdfind base args c = (r, c')" "mc_fs (cl_world c') \<noteq> mc_fs (cl_world c)"
  shows "\<exists>fs extra rep. parse_verb base_flags args = Inr (''clean'', fs, extra) \<and> consented fs (cl_in c) \<and>
    (let b = new_apps_module e mdfind base in
       fst (apps_scan b (en_stop e None) (cl_world c)) = (rep, True) \<and>
       (\<lambda>f g. \<exists>a \<in> set (apps_plan rep). apps_removal b a f g)\<^sup>*\<^sup>* (mc_fs (cl_world c)) (mc_fs (cl_world c')))"
proof (rule with_verb_cases [OF assms(2) [unfolded apps_cmd_def Let_def]])
  fix verb fs extra
  let ?b = "new_apps_module e mdfind base"
  assume v: "parse_verb base_flags args = Inr (verb, fs, extra)"
    and s: "(if verb \<notin> {''list'', ''clean''} then (Some 2, put_err (unknown_sub ''apps'' verb) c)
       else scan_then (apps_module e txt ?b) (apps_verb e (apps_module e txt ?b) verb fs) c) = (r, c')"
  have q: "quiet (am_index ?b)" "\<forall>p. quiet (am_statfs ?b p)"
    using assms(1) by (simp_all add: new_apps_module_def new_apps_def build_index_quiet)
  have ok: "verb \<in> {''list'', ''clean''}" using s assms(3) by (auto split: if_splits)
  then have "scan_then (apps_module e txt ?b) (apps_verb e (apps_module e txt ?b) verb fs) c = (r, c')" using s by simp
  from cleaner.verb_safe [OF apps_cleaner [OF q] verbs_clean(3) this assms(3)] show ?thesis
    using v ok by (auto simp: apps_module_def scan_result_Inr)
qed (use assms(3) in simp)

definition big_file :: fnode where
  "big_file = \<lparr> nd_kind = KFile, nd_size = 2 ^ 26, nd_blocks = 2 ^ 17, nd_mtime = 0, nd_uid = 501, nd_ino = (1, 7), nd_nlink = 1 \<rparr>"
definition demo_left :: fs where
  "demo_left = [([''U''], demo_dir), ([''U'', ''DevKinsta''], demo_dir), ([''U'', ''DevKinsta'', ''db''], big_file)]"
definition demo_base :: apps where
  "demo_base = demo_apps\<lparr> am_opener := (\<lambda>m k nd. Some \<lparr> fm_extent = (\<lambda>off n. Some \<lparr> lp_flags = 0, lp_contig = n, lp_devoffset = 0 \<rparr>), fm_seek = (\<lambda>n. SeekNoData), fm_bsize = None \<rparr>) \<rparr>"

lemma apps_module_simps [simp]:
  "md_scan (apps_module e txt b) m = map_prod (scan_result e) id (apps_scan b (en_stop e None) m)"
  "md_plan (apps_module e txt b) = apps_plan"
  "md_apply (apps_module e txt b) a m = map_prod (pair_result txt) id (apps_apply b a m)"
  by (simp_all add: apps_module_def)

lemma apps_cmd_one:
  assumes "parse_verb base_flags args = Inr (''clean'', fs, x)" "flag_bool fs ''y''" "\<not> flag_bool fs ''dry-run''"
    "apps_scan (new_apps_module e mdfind base) (en_stop e None) (cl_world c) = ((rep, True), m1)" "apps_plan rep = [a]"
  shows "cl_world (snd (apps_cmd e txt mdfind base args c)) = snd (apps_apply (new_apps_module e mdfind base) a m1)"
  using assms by (simp add: apps_cmd_def with_verb_def scan_then_def on_world_def scan_result_def apps_verb_def clean_one Let_def)

lemma apps_clean_safe_witness:
  "\<exists>r c' fs extra. apps_cmd demo_env (\<lambda>e. []) (\<lambda>m. Inr []) demo_base [''clean'', ''-y''] (demo_cli demo_left []) = (r, c') \<and>
     map fst (mc_fs (cl_world c')) = [[''U'']] \<and>
     parse_verb base_flags [''clean'', ''-y''] = Inr (''clean'', fs, extra) \<and> consented fs []"
proof -
  let ?args = "[''clean'', ''-y'']" and ?c = "demo_cli demo_left []" and ?b = "new_apps_module demo_env (\<lambda>m. Inr []) demo_base"
  obtain r c' where d: "apps_cmd demo_env (\<lambda>e. []) (\<lambda>m. Inr []) demo_base ?args ?c = (r, c')" by fastforce
  have "case parse_verb base_flags ?args of Inl e \<Rightarrow> False | Inr (v, fs, x) \<Rightarrow> v = ''clean'' \<and> flag_bool fs ''y'' \<and> \<not> flag_bool fs ''dry-run''"
    by code_simp
  then obtain fs x where p: "parse_verb base_flags ?args = Inr (''clean'', fs, x)" "flag_bool fs ''y''" "\<not> flag_bool fs ''dry-run''"
    by (auto split: sum.splits)
  obtain rep ok m1 where s: "apps_scan ?b (\<lambda>n. False) (machine_of demo_left) = ((rep, ok), m1)" by (metis surj_pair)
  have "case apps_scan ?b (\<lambda>n. False) (machine_of demo_left) of ((rep, ok), m1) \<Rightarrow> ok \<and> (case apps_plan rep of [a] \<Rightarrow>
     map fst (mc_fs (snd (apps_apply ?b a m1))) = [[''U'']] | _ \<Rightarrow> False)" by code_simp
  then obtain a where a: "ok" "apps_plan rep = [a]" "map fst (mc_fs (snd (apps_apply ?b a m1))) = [[''U'']]"
    unfolding s by (auto split: list.splits)
  have w: "map fst (mc_fs (cl_world c')) = [[''U'']]"
    using apps_cmd_one [OF p, of demo_env "\<lambda>m. Inr []" demo_base ?c rep m1 a "\<lambda>e. []"] s a d by (simp add: demo_env_def demo_cli_def)
  then have "mc_fs (cl_world c') \<noteq> mc_fs (cl_world ?c)" by (auto simp: demo_cli_def demo_left_def machine_of_def)
  moreover have "\<forall>p. quiet (am_statfs demo_base p)" by (simp add: demo_base_def demo_apps_def quiet_def)
  ultimately show ?thesis using apps_clean_safe [OF _ d] d w p by (auto simp: demo_cli_def)
qed

lemma leaks_clean_consent:
  assumes "quiet_leaks base" "proofs_said base" "cwd_ok (en_cwd e)"
    "leaks_cmd e txt base args c = (r, c')" "mc_fs (cl_world c') \<noteq> mc_fs (cl_world c)"
  shows "\<exists>fs extra rep. parse_verb base_flags args = Inr (''clean'', fs, extra) \<and> consented fs (cl_in c) \<and>
    (let l = new_leaks_module e base in
       fst (leaks_scan l (en_stop e None) (cl_world c)) = (rep, False) \<and>
       (\<lambda>f g. \<exists>a \<in> set (leaks_plan l rep). leaks_removal l a f g)\<^sup>*\<^sup>* (mc_fs (cl_world c)) (mc_fs (cl_world c')))"
proof (rule with_verb_cases [OF assms(4) [unfolded leaks_cmd_def Let_def]])
  fix verb fs extra
  let ?l = "new_leaks_module e base"
  assume v: "parse_verb base_flags args = Inr (verb, fs, extra)"
    and s: "(if verb \<notin> {''list'', ''scan'', ''clean''} then (Some 2, put_err (unknown_sub ''leaks'' verb) c)
       else scan_then (leaks_module e txt ?l) (leaks_verb e (leaks_module e txt ?l) verb fs) c) = (r, c')"
  have q: "quiet_leaks ?l" "proofs_said ?l" "cwd_ok (lk_cwd ?l)"
    using assms(1-3) by (simp_all add: new_leaks_module_def quiet_leaks_def proofs_said_def)
  have ok: "verb \<in> {''list'', ''scan'', ''clean''}" using s assms(5) by (auto split: if_splits)
  then have "scan_then (leaks_module e txt ?l) (leaks_verb e (leaks_module e txt ?l) verb fs) c = (r, c')" using s by simp
  from cleaner.verb_safe [OF leaks_cleaner [OF q] verbs_clean(4) this assms(5)] show ?thesis
    using v by (auto simp: leaks_module_def scan_cancelled_Inr Let_def)
qed (use assms(5) in simp)

end
