(* ===== verification/OffloadSizes.thy ===== *)
theory OffloadSizes
  imports Sizer Offload
begin

text \<open>
  The shipped collaborators of the offload module (\<open>offload.New\<close>, \<open>sizes.go\<close>): the allocated-blocks walk, the
  unique size, the process check, and the module they are wired into. What an errno of the walk means,
  pgrep, ditto and lsof are arguments.
\<close>

subsection \<open>The allocated-blocks walk\<close>

text \<open>How \<open>errors.Is\<close> classifies the error of a visit: \<open>ErrNotExist\<close>, \<open>ErrPermission\<close> or another.\<close>

datatype walk_err = WalkGone | WalkDenied | WalkOther

text \<open>The bytes, the entries that were denied, and whether the walk ended with an error (whose text is \<open>txt\<close> below).\<close>

fun blocks_loop :: "(visit \<Rightarrow> walk_err) \<Rightarrow> visit list \<Rightarrow> int \<Rightarrow> nat \<Rightarrow> int \<times> nat \<times> bool" where
  "blocks_loop cls [] n denied = (n, denied, False)"
| "blocks_loop cls (v # vs) n denied =
     (let failed = (case cls v of WalkGone \<Rightarrow> blocks_loop cls vs n denied | WalkDenied \<Rightarrow> blocks_loop cls vs n (Suc denied)
        | WalkOther \<Rightarrow> (n, denied, True))
      in case v of
        Visit k nd i \<Rightarrow>
          if nd_kind nd \<noteq> KFile then blocks_loop cls vs n denied
          else (case i of InfoOk \<Rightarrow> blocks_loop cls vs (wrap64 (n + nd_blocks nd * block_unit)) denied
             | InfoGone \<Rightarrow> blocks_loop cls vs n denied
             | InfoFailed \<Rightarrow> failed)
      | _ \<Rightarrow> failed)"

definition allocated_blocks :: "(visit \<Rightarrow> walk_err) \<Rightarrow> string \<Rightarrow> path \<Rightarrow> machine \<Rightarrow> (int \<times> string option) \<times> machine" where
  "allocated_blocks cls txt p m = (case walk_dir p m of (vs, m1) \<Rightarrow>
     (case blocks_loop cls vs 0 0 of (n, denied, failed) \<Rightarrow>
       ((n, if failed then Some txt
            else if 0 < denied then Some (''partial: '' @ itoa (int denied) @ '' unreadable entr(ies) skipped under '' @ p)
            else None), m1)))"

definition sizer_unique :: "opener \<Rightarrow> path \<Rightarrow> machine \<Rightarrow> int option \<times> machine" where
  "sizer_unique op p m = (case unique_allocated op [p] m of (r, m1) \<Rightarrow> (map_option ts_unique r, m1))"

text \<open>The freed bytes, whose error the module ignores.\<close>

definition sizer_freed :: "opener \<Rightarrow> path \<Rightarrow> machine \<Rightarrow> int \<times> machine" where
  "sizer_freed op p m = (case sizer_unique op p m of (r, m1) \<Rightarrow> (case r of None \<Rightarrow> 0 | Some n \<Rightarrow> n, m1))"

subsection \<open>The module\<close>

text \<open>\<open>pgrep\<close>'s exit status: 0 for a match, 1 for none; anything else is an error.\<close>

definition pgrep_running :: "(string \<Rightarrow> machine \<Rightarrow> int option \<times> machine) \<Rightarrow> string \<Rightarrow> machine \<Rightarrow> bool option \<times> machine" where
  "pgrep_running pg pat m = (case pg pat m of (st, m1) \<Rightarrow>
     ((case st of None \<Rightarrow> None | Some c \<Rightarrow> if c = 0 then Some True else if c = 1 then Some False else None), m1))"

record offload_os =
  oo_guard :: vol_guard
  oo_pgrep :: "string \<Rightarrow> machine \<Rightarrow> int option \<times> machine"
  oo_ditto :: "path \<Rightarrow> path \<Rightarrow> machine \<Rightarrow> bool \<times> machine"
  oo_lsof :: "path \<Rightarrow> machine \<Rightarrow> (bool \<times> string) \<times> machine"
  oo_errno :: "visit \<Rightarrow> walk_err"
  oo_walk_text :: string
  oo_opener :: opener
  oo_home :: "path option"

definition new_offload :: "offload_os \<Rightarrow> offload_cfg \<Rightarrow> offload" where
  "new_offload e c = \<lparr> of_playbooks = default_playbooks, of_dest_root = oc_dest_root c, of_dest_uuid = oc_dest_uuid c,
     of_guard = check_dest (oo_guard e), of_procs = pgrep_running (oo_pgrep e), of_copy = oo_ditto e, of_probe = oo_lsof e,
     of_blocks = allocated_blocks (oo_errno e) (oo_walk_text e), of_unique = sizer_unique (oo_opener e), of_freed = sizer_freed (oo_opener e),
     of_home = (case oo_home e of None \<Rightarrow> ''.'' | Some h \<Rightarrow> h) \<rparr>"

subsection \<open>Properties\<close>

lemma walk_dir_sizeD: "walk_dir p m = (vs, m1) \<Longrightarrow> mc_fs m1 = mc_fs m"
  using walk_dir_fs [of p m] by simp

lemma allocated_blocks_quiet: "quiet (allocated_blocks cls txt p)"
proof -
  have "mc_fs (snd (allocated_blocks cls txt p m)) = mc_fs m" for m
    by (auto simp: allocated_blocks_def split: prod.split dest: walk_dir_sizeD)
  then show ?thesis by (simp add: quiet_def)
qed

lemma walk_roots_fs: "mc_fs (snd (walk_roots op ps seen ts sets m)) = mc_fs m"
proof (induction ps arbitrary: seen ts sets m)
  case (Cons p ps)
  then show ?case by (auto split: prod.split dest: walk_dir_sizeD)
qed simp

lemma sizer_unique_quiet: "quiet (sizer_unique op p)"
proof -
  have "mc_fs (snd (sizer_unique op p m)) = mc_fs m" for m
    using walk_roots_fs [of op "[p]" "[]" zero_size "[[]]" m]
    by (cases "walk_roots op [p] [] zero_size [[]] m")
      (auto simp: sizer_unique_def unique_allocated_def simp del: walk_roots.simps split: prod.split option.split)
  then show ?thesis by (simp add: quiet_def)
qed

text \<open>A walk whose every visit got its \<open>Info\<close>, over files with one name each.\<close>

definition plain_visit :: "visit \<Rightarrow> bool" where
  "plain_visit v \<longleftrightarrow> (case v of Visit k nd i \<Rightarrow> i \<noteq> InfoFailed \<and> (nd_kind nd = KFile \<longrightarrow> nd_nlink nd \<le> 1) | _ \<Rightarrow> False)"

lemma blocks_loop_sizer:
  "list_all plain_visit vs \<Longrightarrow> \<exists>d. blocks_loop cls vs (ts_blocks ts) n = (ts_blocks (blocks_walk vs seen ts), n, False)"
proof (induction vs arbitrary: ts)
  case (Cons v vs)
  then obtain k nd i where v: "v = Visit k nd i" by (auto simp: plain_visit_def split: visit.splits)
  have "blocks_loop cls vs (ts_blocks (add_file nd ts)) n = (ts_blocks (blocks_walk vs seen (add_file nd ts)), n, False)"
    using Cons by simp
  then show ?case using Cons v by (auto simp: plain_visit_def add_file_def Let_def split: info.split)
qed simp

lemma plain_not_failed: "list_all plain_visit vs \<Longrightarrow> \<not> walk_failed vs"
  by (cases vs rule: walk_failed.cases) (auto simp: plain_visit_def)

text \<open>
  On a tree of singly linked files that is walked without an error, the offload module's own size walk and
  the sizer's agree on the allocated bytes, and it reports no error; its walk changes nothing on any tree.
\<close>

lemma allocated_blocks_sizer:
  assumes "list_all plain_visit (fst (walk_dir p m))"
  shows "\<exists>ts. fst (sizer_blocks p m) = Some ts \<and> fst (allocated_blocks cls txt p m) = (ts_blocks ts, None)"
proof -
  obtain vs m1 where w: "walk_dir p m = (vs, m1)" by fastforce
  have "blocks_loop cls vs 0 0 = (ts_blocks (blocks_walk vs [] zero_size), 0, False)"
    using blocks_loop_sizer [of vs cls zero_size 0 "[]"] assms by (simp add: w zero_size_def)
  moreover have "\<not> walk_failed vs" using plain_not_failed assms by (simp add: w)
  ultimately show ?thesis by (simp add: sizer_blocks_def allocated_blocks_def w)
qed

text \<open>A file with two names is counted twice here and once by the sizer, and a missing path has size 0
  without an error.\<close>

lemma allocated_blocks_hardlinks:
  "let f = (new_node KFile)\<lparr>nd_blocks := 8, nd_nlink := 2, nd_ino := (1, 5)\<rparr>;
       m = machine_of [([''d''], new_node KDir), ([''d'', ''a''], f), ([''d'', ''b''], f)] in
   fst (allocated_blocks (\<lambda>v. WalkOther) [] ''/d'' m) = (8192, None) \<and> map_option ts_blocks (fst (sizer_blocks ''/d'' m)) = Some 4096"
  by code_simp

lemma allocated_blocks_missing: "fst (allocated_blocks (\<lambda>v. WalkGone) [] ''/d'' (machine_of [])) = (0, None)"
  by code_simp

lemma allocated_blocks_sizer_witness:
  "fst (allocated_blocks (\<lambda>v. WalkOther) [] ''/a'' (machine_of clone_files)) = (4096, None)"
proof -
  have "list_all plain_visit (fst (walk_dir ''/a'' (machine_of clone_files)))"
    "map_option ts_blocks (fst (sizer_blocks ''/a'' (machine_of clone_files))) = Some 4096" by code_simp+
  with allocated_blocks_sizer [OF this(1), of "\<lambda>v. WalkOther"] show ?thesis by auto
qed

text \<open>The shipped module is as quiet as the commands require of it, when the tools it runs are.\<close>

lemma new_offload_quiet_sizes:
  "quiet (of_blocks (new_offload e c) p)" "quiet (of_unique (new_offload e c) p)"
  by (simp_all add: new_offload_def allocated_blocks_quiet sizer_unique_quiet)

end
