(* ===== verification/CliReadOnly.thy ===== *)
theory CliReadOnly
  imports CliReport CliSafe OffloadSizes
begin

text \<open>
  What the diagnosing commands leave alone: \<open>report\<close> changes no file, but may leave that of a write probe that failed
  halfway, and \<open>offload\<close> relocates and queues only on \<open>apply\<close>, outside a dry run and with consent.
\<close>

subsection \<open>The offload scan\<close>

definition quiet_sizes :: "offload \<Rightarrow> bool" where
  "quiet_sizes o' \<longleftrightarrow> (\<forall>p. quiet (of_blocks o' p)) \<and> (\<forall>p. quiet (of_unique o' p))"

lemma quiet_sizesD:
  assumes "quiet_sizes o'"
  shows quiet_blocks: "of_blocks o' p m = (x, m') \<Longrightarrow> mc_fs m' = mc_fs m"
    and quiet_unique: "of_unique o' p m = (y, m') \<Longrightarrow> mc_fs m' = mc_fs m"
  using assms unfolding quiet_sizes_def quiet_def by (metis snd_conv)+

lemma os_readlinkD: "os_readlink p m = (r, m') \<Longrightarrow> mc_fs m' = mc_fs m"
  using os_readlink_fs [of p m] by simp

lemma external_linksD: "external_links home es m = (r, m') \<Longrightarrow> mc_fs m' = mc_fs m"
proof (induction es arbitrary: m r m')
  case (Cons x es)
  obtain nm nd where x: "x = (nm, nd)" by fastforce
  obtain t m1 where t: "os_readlink (join_path [home, nm]) m = (t, m1)" by fastforce
  obtain its m2 where i: "external_links home es m1 = (its, m2)" by fastforce
  obtain jts m3 where j: "external_links home es m = (jts, m3)" by fastforce
  have "m' = m2 \<or> m' = m3" using Cons.prems by (auto simp: x t i j Let_def split: kind.splits option.splits)
  then show ?case using Cons.IH [OF i] Cons.IH [OF j] os_readlinkD [OF t] by auto
qed simp

lemma scan_playbookD:
  assumes "quiet_sizes o'" "scan_playbook o' v pb m = (r, m')"
  shows "mc_fs m' = mc_fs m"
proof (cases "pb_path pb = []")
  case False
  let ?p = "expand_path (of_home o') (pb_path pb)"
  obtain st m1 where st: "os_stat ?p m = (st, m1)" by fastforce
  obtain sz serr m2 where b: "of_blocks o' ?p m1 = ((sz, serr), m2)" by (metis surj_pair)
  obtain u m3 where u: "of_unique o' ?p m2 = (u, m3)" by fastforce
  have "m' = m1 \<or> m' = m2 \<or> m' = m3"
    using assms(2) False unfolding scan_playbook_def Let_def st prod.case b
    by (auto simp: u split: option.splits if_splits asset_class.splits prod.splits)
  then show ?thesis using os_statD [OF st] quiet_blocks [OF assms(1) b] quiet_unique [OF assms(1) u] by auto
qed (use assms(2) in \<open>simp add: scan_playbook_def Let_def\<close>)

lemma scan_playbooksD:
  assumes "quiet_sizes o'"
  shows "scan_playbooks o' v stop n pbs rep m = (r, m') \<Longrightarrow> mc_fs m' = mc_fs m"
proof (induction pbs arbitrary: n rep m)
  case (Cons pb pbs)
  obtain x m1 where x: "scan_playbook o' v pb m = (x, m1)" by fastforce
  show ?case using Cons.prems scan_playbookD [OF assms x] unfolding scan_playbooks.simps x
    by (cases "stop n"; cases x) (auto dest!: Cons.IH)
qed simp

text \<open>The scan asks the guard about the destination, and the guard probes it with a write.\<close>

lemma offload_scan_left:
  assumes q: "quiet_sizes o'" and g: "of_guard o' = check_dest g" "quiet_guard_of g" and s: "offload_scan vtxt o' stop m = (r, m')"
  shows "probe_left g (of_dest_root o') (mc_fs m) (mc_fs m')"
proof -
  let ?v = "if \<not> off_configured o' then (''offload disabled: set [offload] dest_root and dest_volume_uuid'', m)
     else case of_guard o' (of_dest_root o') (of_dest_uuid o') m of
       (Some e, n) \<Rightarrow> (''guard REFUSED: '' @ vtxt e, n)
     | (None, n) \<Rightarrow> (''guard ok: '' @ of_dest_root o' @ '' is volume '' @ of_dest_uuid o' @ '' and live-writable'', n)"
  obtain verdict m1 where v: "?v = (verdict, m1)" by fastforce
  have f1: "probe_left g (of_dest_root o') (mc_fs m) (mc_fs m1)"
  proof (cases "off_configured o'")
    case True
    obtain x n where c: "check_dest g (of_dest_root o') (of_dest_uuid o') m = (x, n)" by fastforce
    then have "m1 = n" using v True g(1) by (auto split: option.splits)
    then show ?thesis using check_dest_effect [OF g(2) c] by blast
  qed (use v in \<open>simp add: probe_left_def\<close>)
  obtain rep b m2 where p: "scan_playbooks o' verdict stop 0 (of_playbooks o') \<lparr> rp_module = ''offload'', rp_items = [], rp_total = 0 \<rparr> m1
     = ((rep, b), m2)" by (metis surj_pair)
  have "mc_fs m' = mc_fs m2"
    using s unfolding offload_scan_def v Let_def prod.case p
    by (auto simp: scan_external_links_def split: bool.splits prod.splits option.splits dest!: os_read_dirD external_linksD)
  then show ?thesis using f1 scan_playbooksD [OF q p] by simp
qed

lemma new_offload_left:
  assumes "quiet_guard_of (oo_guard oe)" "offload_scan vtxt (new_offload oe oc) stop m = (r, m')"
  shows "probe_left (oo_guard oe) (oc_dest_root oc) (mc_fs m) (mc_fs m')"
proof -
  have "quiet_sizes (new_offload oe oc)" by (simp add: quiet_sizes_def new_offload_quiet_sizes)
  from offload_scan_left [OF this _ assms] show ?thesis by (simp add: new_offload_def)
qed

subsection \<open>report\<close>

lemma report_modules_quiet:
  "\<forall>(n, sc) \<in> set ms. quiet sc \<Longrightarrow> report_modules e json ms g c = (r, c') \<Longrightarrow> mc_fs (cl_world c') = mc_fs (cl_world c)"
proof (induction ms arbitrary: g c)
  case (Cons x ms)
  obtain n sc where x: "x = (n, sc)" by fastforce
  obtain g1 g2 where g: "g = (g1, g2)" by fastforce
  obtain y m where s: "sc (cl_world c) = (y, m)" by fastforce
  have "mc_fs m = mc_fs (cl_world c)" using Cons.prems(1) x quietD [of sc "cl_world c" y m] s by auto
  then show ?case using Cons.prems unfolding x g report_modules.simps on_world_def s
    by (cases y) (auto split: prod.splits dest!: Cons.IH [rotated])
qed simp

lemma quiet_map: "(\<And>m r m'. f m = (r, m') \<Longrightarrow> mc_fs m' = mc_fs m) \<Longrightarrow> quiet (\<lambda>m. map_prod g id (f m))"
  unfolding quiet_def by (metis map_prod_def prod.collapse snd_map_prod id_apply snd_conv)

text \<open>Modules of which only one, named \<open>x\<close>, may write, and only so that \<open>P\<close> holds of the trees before and after.\<close>

lemma report_modules_one:
  assumes "\<And>f. P f f" "\<forall>(n, sc) \<in> set ms. quiet sc \<or> n = x \<and> (\<forall>m. P (mc_fs m) (mc_fs (snd (sc m))))" "distinct (map fst ms)"
    "report_modules e json ms g c = (r, c')"
  shows "P (mc_fs (cl_world c)) (mc_fs (cl_world c'))"
  using assms(2-4)
proof (induction ms arbitrary: g c)
  case Nil
  then show ?case using assms(1) by simp
next
  case (Cons y ms)
  obtain n sc where y: "y = (n, sc)" by fastforce
  obtain g1 g2 where g: "g = (g1, g2)" by fastforce
  obtain z m where s: "sc (cl_world c) = (z, m)" by fastforce
  obtain g' c1 where rest: "report_modules e json ms g' c1 = (r, c')" and c1: "cl_world c1 = m"
    using Cons.prems(3) unfolding y g report_modules.simps on_world_def s by (cases z) (auto split: prod.splits)
  show ?case
  proof (cases "quiet sc")
    case True
    then have "mc_fs m = mc_fs (cl_world c)" using quietD [of sc "cl_world c" z m] s by simp
    then show ?thesis using Cons.IH [OF _ _ rest] Cons.prems(1,2) c1 by simp
  next
    case False
    then have n: "n = x" and p: "P (mc_fs (cl_world c)) (mc_fs m)" using Cons.prems(1) y s by (auto dest: spec [of _ "cl_world c"])
    have "n \<notin> fst ` set ms" using Cons.prems(2) y by simp
    then have "\<forall>(n, sc) \<in> set ms. quiet sc" using Cons.prems(1) n by (force simp: image_iff)
    from report_modules_quiet [OF this rest] show ?thesis using p c1 by simp
  qed
qed

lemma report_scanners_left:
  assumes "quiet_leaks (rm_leaks b)" "rm_offload b = new_offload oe oc" "quiet_guard_of (oo_guard oe)"
  shows "\<forall>(n, sc) \<in> set (report_scanners e b h). quiet sc \<or>
    n = ''offload'' \<and> (\<forall>m. probe_left (oo_guard oe) (oc_dest_root oc) (mc_fs m) (mc_fs (snd (sc m))))"
proof -
  have l: "quiet_leaks (new_leaks_module e (rm_leaks b))"
    using assms(1) by (simp add: new_leaks_module_def quiet_leaks_def)
  have a: "quiet (am_index (new_apps_module e (rm_mdfind b) (rm_apps b)))"
    by (simp add: new_apps_module_def new_apps_def build_index_quiet)
  have q: "quiet (\<lambda>m. map_prod g id (dev_scan d st m))" "quiet (\<lambda>m. map_prod g id (caches_scan h st m))"
    "quiet (\<lambda>m. map_prod g id (leaks_scan (new_leaks_module e (rm_leaks b)) st m))"
    "quiet (\<lambda>m. map_prod g id (apps_scan (new_apps_module e (rm_mdfind b) (rm_apps b)) st m))"
    "quiet (\<lambda>m. (k, m))" for g d st and k :: "string + report"
    by (rule quiet_map, erule dev_scanD, rule quiet_map, erule caches_scanD, rule quiet_map, erule leaks_scanD [OF l],
        rule quiet_map, erule apps_scanD [OF a], simp add: quiet_def)
  have o': "probe_left (oo_guard oe) (oc_dest_root oc) (mc_fs m) (mc_fs (snd (offload_scan vt (rm_offload b) st m)))" for vt st m
    using new_offload_left [OF assms(3) surjective_pairing, where vtxt = vt and oc = oc and stop = st and m = m] by (simp add: assms(2))
  show ?thesis unfolding report_scanners_def Let_def by (simp add: q o')
qed

text \<open>
  C13. \<open>noo-noo report\<close> diagnoses without changing anything: whatever its arguments, whichever calls fail and whichever scans
  are cancelled, the file tree is the one it found, but for one file: its offload section probes the configured
  destination with a write, and a probe that fails halfway may leave its temporary file there. (\<open>lsof\<close>, \<open>ps\<close>,
  \<open>diskutil\<close> and \<open>plutil\<close> are taken to write nothing.) It exits with 0, or with 2 on a bad flag before it touches anything.
\<close>

theorem report_read_only:
  assumes "quiet_leaks (rm_leaks b)" "rm_offload b = new_offload oe oc" "quiet_guard_of (oo_guard oe)"
    "report_cmd e b enc mem args c = (r, c')"
  shows "probe_left (oo_guard oe) (oc_dest_root oc) (mc_fs (cl_world c)) (mc_fs (cl_world c')) \<and> (r = Some 0 \<or> r = Some 2 \<and> c' = c)"
proof (cases "flag_parse [''json'' \<mapsto> FBool False] args")
  case (Inl x)
  then show ?thesis using assms(4) by (simp add: report_cmd_def probe_left_def)
next
  case (Inr y)
  obtain fs left where y: "y = (fs, left)" by fastforce
  let ?json = "flag_bool fs ''json''"
  let ?c1 = "put (if ?json then (case enc mem of None \<Rightarrow> [] | Some s \<Rightarrow> s @ nl) else render_memory mem @ nl) c"
  obtain h m where n: "new_caches_module e (cl_world c) = (h, m)" by fastforce
  have f: "mc_fs m = mc_fs (cl_world c)"
    using n by (auto simp: new_caches_module_def default_cache_targets_def split: prod.splits dest!: os_globD)
  obtain g a c3 where p: "report_modules e ?json (report_scanners e b h) (0, 0) (?c1\<lparr> cl_world := m \<rparr>) = ((g, a), c3)" by (metis surj_pair)
  have d: "distinct (map fst (report_scanners e b h))" by (simp add: report_scanners_def Let_def)
  have "probe_left (oo_guard oe) (oc_dest_root oc) (mc_fs m) (mc_fs (cl_world c3))"
    using report_modules_one [OF _ report_scanners_left [OF assms(1-3)] d p] by (simp add: probe_left_def)
  moreover have "cl_world c' = cl_world c3 \<and> r = Some 0"
    using assms(4) p unfolding report_cmd_def Inr y sum.case prod.case Let_def
    by (simp add: on_world_def n split: if_splits) auto
  ultimately show ?thesis using f by simp
qed

text \<open>A machine whose offload destination is the volume of \<open>demo_guard\<close>.\<close>

definition demo_offload_os :: offload_os where
  "demo_offload_os = \<lparr> oo_guard = demo_guard, oo_pgrep = (\<lambda>s m. (None, m)), oo_ditto = (\<lambda>a b m. (False, m)), oo_lsof = (\<lambda>p m. ((True, []), m)),
     oo_errno = (\<lambda>v. WalkOther), oo_walk_text = [], oo_opener = (\<lambda>m k nd. None), oo_home = Some ''/U'' \<rparr>"

definition demo_offload_cfg :: offload_cfg where
  "demo_offload_cfg = \<lparr> oc_dest_root = ''/v'', oc_dest_uuid = ''AB-1'', oc_auto_apply = False, oc_risk_ack = [] \<rparr>"

definition demo_mods :: report_mods where
  "demo_mods = \<lparr> rm_time = (\<lambda>t. []), rm_leaks = demo_leaks, rm_apps = demo_base, rm_mdfind = (\<lambda>m. Inl []),
     rm_offload = new_offload demo_offload_os demo_offload_cfg, rm_vol = (\<lambda>v. []), rm_uid = 501 \<rparr>"

lemma report_read_only_witness:
  "let c = demo_cli (mc_fs demo_volume) [];
       c' = snd (report_cmd demo_env demo_mods (\<lambda>m. None) (gather_memory (\<lambda>m. []) (Inl []) (Inl []) (Inl []) (Inl [])) [''-json''] c)
   in probe_left demo_guard ''/v'' (mc_fs demo_volume) (mc_fs (cl_world c'))"
proof -
  let ?c = "demo_cli (mc_fs demo_volume) []"
  have q: "quiet_leaks (rm_leaks demo_mods)" "rm_offload demo_mods = new_offload demo_offload_os demo_offload_cfg"
    "quiet_guard_of (oo_guard demo_offload_os)"
    using demo_leaks_quiet demo_guard_quiet by (simp_all add: demo_mods_def demo_offload_os_def)
  obtain r c' where o: "report_cmd demo_env demo_mods (\<lambda>m. None) (gather_memory (\<lambda>m. []) (Inl []) (Inl []) (Inl []) (Inl [])) [''-json''] ?c = (r, c')"
    by fastforce
  from report_read_only [OF q o] show ?thesis
    unfolding Let_def o snd_conv by (simp add: demo_cli_def machine_of_def demo_offload_os_def demo_offload_cfg_def)
qed

subsection \<open>offload\<close>

lemma relocate_loop_dry: "flag_bool fs ''dry-run'' \<Longrightarrow> relocate_loop x fs lg as code c = (r, c') \<Longrightarrow> cl_world c' = cl_world c"
  by (induction as arbitrary: c) auto

lemma offload_verb_consent:
  assumes "offload_verb x verb fs rep c = (r, c')" "cl_world c' \<noteq> cl_world c"
  shows "verb \<noteq> ''scan'' \<and> verb \<noteq> ''plan'' \<and> consented fs (cl_in c)"
proof -
  let ?as = "offload_plan (oe_mod x) rep"
  let ?p = "''Relocate '' @ count_text ?as @ '' asset(s)? Data is copied, verified, then symlinked '' @ em_dash @ '' nothing is deleted until the copy is proven.''"
  obtain b c1 where cf: "confirm ?p (flag_bool fs ''y'') (put (plan_lines ''relocate: '' ?as) c) = (b, c1)" by fastforce
  note w = confirm_world [OF cf]
  have v: "verb \<noteq> ''scan''" "verb \<noteq> ''plan''" "?as \<noteq> []" "b"
    using assms w unfolding offload_verb_def Let_def cf by (auto simp: show_report_simps split: if_splits bool.splits)
  obtain lg os where n: "audit_new (audit_dir (oe_env x)) (cl_audit c1) = (lg, os)" by fastforce
  obtain y c2 where l: "relocate_loop x fs lg ?as 0 (c1\<lparr> cl_audit := os \<rparr>) = (y, c2)" by fastforce
  have "cl_world c' = cl_world c2"
    using assms(1) v unfolding offload_verb_def Let_def cf by (auto simp: n l split: option.splits)
  then have "\<not> flag_bool fs ''dry-run''" using relocate_loop_dry [OF _ l] w assms(2) by auto
  then show ?thesis using v w by (simp add: consented_def)
qed

end
