(* ===== verification/CliSystemSafe.thy ===== *)
theory CliSystemSafe
  imports CliSystem CliSafe ProcsigProps
begin

text \<open>
  What the commands \<open>orphans\<close> and \<open>worktrees\<close> may do: signal only with consent and only verified orphans of
  the plan, always come back, and remove a judged worktree only on the judge's verdict and with consent.
\<close>

subsection \<open>orphans\<close>

text \<open>One \<open>Apply\<close> as the log of signals sees it.\<close>

definition kill_step :: "orphans \<Rightarrow> mod_action \<Rightarrow> proc_world \<Rightarrow> proc_world \<Rightarrow> bool" where
  "kill_step m a w w' \<longleftrightarrow> pw_log w' = pw_log w \<or>
     (\<exists>pid n. ma_op a = ''terminate'' \<and> parse_int (ma_target a) = Some pid \<and> 1 < pid \<and> pid \<noteq> om_self m \<and> seen_orphan m pid w
       \<and> (pw_log w' = pw_log w @ (pid, SigTerm) # replicate n (pid, SigZero)
         \<or> (\<exists>k. pw_log w' = pw_log w @ (pid, SigTerm) # replicate n (pid, SigZero) @ (pid, SigKill) # replicate k (pid, SigZero))))"

lemma kill_loop_steps:
  assumes "kill_loop m txt e rep dry lg as killed c = Some (r, c')"
  shows "(\<lambda>x y. \<exists>a \<in> set as. kill_step m a x y)\<^sup>*\<^sup>* (cl_world c) (cl_world c') \<and> (dry \<longrightarrow> cl_world c' = cl_world c)"
  using assms
proof (induction as arbitrary: lg killed c)
  case (Cons a as)
  let ?R = "\<lambda>x y. \<exists>b \<in> set (a # as). kill_step m b x y" and ?S = "\<lambda>x y. \<exists>b \<in> set as. kill_step m b x y"
  have mono: "?R\<^sup>*\<^sup>* x y" if "?S\<^sup>*\<^sup>* x y" for x y
    by (rule rtranclp_mono [THEN predicate2D, OF _ that]) auto
  show ?case
  proof (cases dry)
    case True
    have "kill_loop m txt e rep dry lg as killed (put (''would terminate: pid '' @ ma_target a @ '' ('' @ user_data_dir_for rep (ma_target a) @ '')'' @ nl) c) = Some (r, c')"
      using Cons.prems True by (simp add: Let_def)
    from Cons.IH [OF this] show ?thesis using mono True by simp
  next
    case False
    then have d: "dry = False" by simp
    note IH = Cons.IH [unfolded d]
    obtain err w where ap: "orphans_apply m a (cl_world c) = Some (err, w)"
      using Cons.prems d by (auto simp: Let_def split: option.splits)
    have one: "?R (cl_world c) w" using orphan_signals_proven [OF ap] by (auto simp: kill_step_def)
    show ?thesis
    proof (cases lg)
      case None
      then have "c' = c\<lparr> cl_world := w \<rparr>" using Cons.prems False ap by (simp add: Let_def)
      then show ?thesis using one False by auto
    next
      case (Some l)
      obtain y l1 os where wr: "audit_write (en_audit_json e) ((audit_rec_of ''orphans'' a 0 (map_option txt err))
          \<lparr> au_evidence := [''user_data_dir'' \<mapsto> user_data_dir_for rep (ma_target a)] \<rparr>) l (cl_audit c) = ((y, l1), os)" by (metis surj_pair)
      have "?S\<^sup>*\<^sup>* w (cl_world c')"
      proof (cases err)
        case None
        with Cons.prems False ap Some wr show ?thesis by (auto simp: Let_def dest!: IH)
      next
        case (Some x)
        with Cons.prems False ap \<open>lg = Some l\<close> wr show ?thesis by (auto simp: Let_def dest!: IH)
      qed
      then show ?thesis using one mono False by (auto intro: converse_rtranclp_into_rtranclp)
    qed
  qed
qed simp

lemma kill_loop_returns:
  assumes "0 < om_poll_every m"
  shows "\<exists>r c'. kill_loop m txt e rep dry lg as killed c = Some (r, c')"
proof (induction as arbitrary: lg killed c)
  case (Cons a as)
  obtain err w where ap: "orphans_apply m a (cl_world c) = Some (err, w)" using orphans_apply_returns [OF assms] by fastforce
  show ?case using Cons ap by (auto simp: Let_def split: option.split prod.split)
qed simp

lemma orphans_kill_steps:
  assumes "orphans_kill m txt e rep fs c = Some (r, c')"
  shows "(\<lambda>x y. \<exists>a \<in> set (orphans_plan m rep). kill_step m a x y)\<^sup>*\<^sup>* (cl_world c) (cl_world c') \<and>
    (cl_world c' \<noteq> cl_world c \<longrightarrow> consented fs (cl_in c))"
proof (cases "orphans_plan m rep = []")
  case True
  then show ?thesis using assms by (auto simp: orphans_kill_def)
next
  case False
  let ?p = "''Terminate '' @ count_text (orphans_plan m rep) @ '' orphaned automation browser process(es)? (SIGTERM, SIGKILL after a grace period)''"
  obtain b c1 where cf: "confirm ?p (flag_bool fs ''y'') (show_orphans e rep (flag_bool fs ''json'') c) = (b, c1)" by fastforce
  have w1: "cl_world c1 = cl_world c" "b \<longrightarrow> flag_bool fs ''y'' \<or> says_yes (cl_in c)"
    using confirm_world [OF cf] by (auto simp: show_orphans_def)
  show ?thesis
  proof (cases b)
    case True
    obtain lg os where n: "audit_new (audit_dir e) (cl_audit c1) = (lg, os)" by fastforce
    obtain x c2 where k: "kill_loop m txt e rep (flag_bool fs ''dry-run'') lg (orphans_plan m rep) 0 (c1\<lparr> cl_audit := os \<rparr>) = Some (x, c2)"
      and c2: "cl_world c' = cl_world c2"
      using assms False True cf n by (auto simp: orphans_kill_def Let_def split: option.splits prod.splits if_splits)
    from kill_loop_steps [OF k] show ?thesis using w1 True c2 by (auto simp: consented_def)
  next
    case False
    then show ?thesis using assms \<open>orphans_plan m rep \<noteq> []\<close> cf w1 by (auto simp: orphans_kill_def)
  qed
qed

text \<open>
  C11. When \<open>noo-noo orphans\<close> sends a signal, the verb was \<open>kill\<close>, it was not a dry run, the user passed \<open>-y\<close> or
  answered yes, and every signal belongs to the \<open>Apply\<close> of a planned action: it goes to the process the
  target names, not the command itself and above 1, which the process table read in that call showed as the
  user's own, reparented to launchd and matching a signature; one TERM, polls, and at most one KILL.
\<close>

theorem orphans_kill_consent:
  assumes "orphans_cmd e m txt ps_err args c = Some (r, c')" "pw_log (cl_world c') \<noteq> pw_log (cl_world c)"
  shows "\<exists>rest fs rep w1. args = ''kill'' # rest \<and> flag_parse base_flags rest = Inr (fs, []) \<and> consented fs (cl_in c) \<and>
    orphans_scan m (en_stop e None) (cl_world c) = (Some (False, rep), w1) \<and> pw_log w1 = pw_log (cl_world c) \<and>
    (\<lambda>x y. \<exists>a \<in> set (orphans_plan m rep). kill_step m a x y)\<^sup>*\<^sup>* w1 (cl_world c')"
proof -
  obtain verb rest where a: "args = verb # rest" and v: "verb \<in> {''list'', ''scan'', ''kill''}"
    using assms by (cases args) (auto simp: orphans_cmd_def split: if_splits)
  obtain fs left where f: "flag_parse base_flags rest = Inr (fs, left)"
    using assms a v by (cases "flag_parse base_flags rest") (auto simp: orphans_cmd_def)
  have l: "left = []" using assms a v f by (auto simp: orphans_cmd_def split: if_splits)
  obtain x w1 where s: "orphans_scan m (en_stop e None) (cl_world c) = (x, w1)" by fastforce
  have log: "pw_log w1 = pw_log (cl_world c)"
    using s by (auto simp: orphans_scan_def list_processes_def pw_step_def split: option.splits prod.splits)
  obtain rep where x: "x = Some (False, rep)" and it: "rp_items rep \<noteq> []"
    using assms a v f l s log by (cases x) (auto simp: orphans_cmd_def on_world_def split: if_splits bool.splits)
  have "verb = ''kill''"
    using assms a v f l s log x it by (auto simp: orphans_cmd_def on_world_def show_orphans_def split: if_splits)
  moreover from this have "orphans_kill m txt e rep fs (c\<lparr> cl_world := w1 \<rparr>) = Some (r, c')"
    using assms(1) a f l s x it by (simp add: orphans_cmd_def on_world_def)
  ultimately show ?thesis using orphans_kill_steps [of m "txt" e rep fs "c\<lparr> cl_world := w1 \<rparr>" r c'] a f l s x log assms(2)
    by (auto intro!: exI [of _ rest] exI [of _ rep])
qed

text \<open>
  C33. \<open>noo-noo orphans\<close> comes back with an exit code or a crash whatever its arguments, the answers of the
  kernel and the delays, as long as the poll interval is positive.
\<close>

theorem orphans_cmd_returns:
  assumes "0 < om_poll_every m"
  shows "\<exists>r c'. orphans_cmd e m txt ps_err args c = Some (r, c')"
proof -
  have "orphans_kill m txt e rep fs c1 \<noteq> None" for rep fs c1
  proof -
    have k: "(kill_loop m txt e rep dry lg as n c2 = None) = False" for dry lg as n c2
      using kill_loop_returns [OF assms] by (metis option.distinct(1))
    show ?thesis unfolding orphans_kill_def Let_def by (simp add: k split: prod.split bool.split option.split)
  qed
  then have "orphans_cmd e m txt ps_err args c \<noteq> None"
    unfolding orphans_cmd_def by (simp split: list.split sum.split prod.split option.split bool.split)
  then show ?thesis by auto
qed

text \<open>A kill of one orphan, with \<open>-y\<close>.\<close>

lemma kill_one:
  assumes "orphans_apply m a w = Some (x, w')" "cl_world c = w"
    "kill_loop m txt e rep False lg [a] n c = Some (r, c')"
  shows "cl_world c' = w'"
proof (cases lg)
  case None
  then have "c' = c\<lparr> cl_world := w' \<rparr>" using assms by (simp add: Let_def)
  then show ?thesis by simp
next
  case (Some l)
  obtain y l1 os where "audit_write (en_audit_json e) ((audit_rec_of ''orphans'' a 0 (map_option txt x))
      \<lparr> au_evidence := [''user_data_dir'' \<mapsto> user_data_dir_for rep (ma_target a)] \<rparr>) l (cl_audit c) = ((y, l1), os)" by (metis surj_pair)
  then show ?thesis using assms Some by (cases x) (auto simp: Let_def)
qed

lemma orphans_cmd_one:
  assumes "flag_parse base_flags rest = Inr (fs, [])" "flag_bool fs ''y''" "\<not> flag_bool fs ''dry-run''"
    "orphans_scan m (en_stop e None) (cl_world c) = (Some (False, rep), w1)" "rp_items rep \<noteq> []"
    "orphans_plan m rep = [a]" "orphans_apply m a w1 = Some (x, w2)"
    "orphans_cmd e m txt ps_err (''kill'' # rest) c = Some (r, c')"
  shows "cl_world c' = w2"
proof -
  have k: "orphans_kill m txt e rep fs (c\<lparr> cl_world := w1 \<rparr>) = Some (r, c')"
    using assms by (simp add: orphans_cmd_def on_world_def)
  let ?p = "''Terminate '' @ count_text [a] @ '' orphaned automation browser process(es)? (SIGTERM, SIGKILL after a grace period)''"
  obtain c1 where c1: "confirm ?p (flag_bool fs ''y'') (show_orphans e rep (flag_bool fs ''json'') (c\<lparr> cl_world := w1 \<rparr>)) = (True, c1)"
    "cl_world c1 = w1" using assms(2) by (simp add: confirm_def show_orphans_def)
  obtain lg os where n: "audit_new (audit_dir e) (cl_audit c1) = (lg, os)" by fastforce
  obtain y c2 where l: "kill_loop m txt e rep False lg [a] 0 (c1\<lparr> cl_audit := os \<rparr>) = Some (y, c2)" "cl_world c' = cl_world c2"
    using k assms(3,6) c1 n by (auto simp: orphans_kill_def Let_def split: option.splits prod.splits if_splits)
  show ?thesis using kill_one [OF assms(7) _ l(1)] c1(2) l(2) by simp
qed

definition demo_shell :: "proc_world \<Rightarrow> proc_world cli" where
  "demo_shell w = \<lparr> cl_world = w, cl_in = [], cl_out = [], cl_err = [], cl_audit = cl_audit (demo_cli [] []) \<rparr>"

lemma orphans_kill_consent_witness:
  "\<exists>r c'. orphans_cmd demo_env demo_orphans (\<lambda>e. []) [] [''kill'', ''-y''] (demo_shell demo_world) = Some (r, c') \<and>
     pw_log (cl_world c') = [(42, SigTerm), (42, SigZero), (42, SigZero)] \<and>
     (\<exists>fs. flag_parse base_flags [''-y''] = Inr (fs, []) \<and> consented fs [])"
proof -
  obtain r c' where o: "orphans_cmd demo_env demo_orphans (\<lambda>e. []) [] [''kill'', ''-y''] (demo_shell demo_world) = Some (r, c')"
    using orphans_cmd_returns [of demo_orphans] by (fastforce simp: demo_orphans_def new_orphans_def)
  have "case flag_parse base_flags [''-y''] of Inl e \<Rightarrow> False | Inr (fs, l) \<Rightarrow> l = [] \<and> flag_bool fs ''y'' \<and> \<not> flag_bool fs ''dry-run''"
    by code_simp
  then obtain fs where f: "flag_parse base_flags [''-y''] = Inr (fs, [])" "flag_bool fs ''y''" "\<not> flag_bool fs ''dry-run''"
    by (auto split: sum.splits)
  obtain so w1 where sc: "orphans_scan demo_orphans (\<lambda>n. False) demo_world = (so, w1)" by fastforce
  have "case orphans_scan demo_orphans (\<lambda>n. False) demo_world of (Some (b, rep), w1) \<Rightarrow> \<not> b \<and> rp_items rep \<noteq> [] \<and>
      length (orphans_plan demo_orphans rep) = 1 \<and>
      map_option (\<lambda>x. pw_log (snd x)) (orphans_apply demo_orphans (hd (orphans_plan demo_orphans rep)) w1)
         = Some [(42, SigTerm), (42, SigZero), (42, SigZero)] | _ \<Rightarrow> False" by code_simp
  then obtain rep where s: "so = Some (False, rep)" "rp_items rep \<noteq> []" "length (orphans_plan demo_orphans rep) = 1"
      "map_option (\<lambda>x. pw_log (snd x)) (orphans_apply demo_orphans (hd (orphans_plan demo_orphans rep)) w1)
         = Some [(42, SigTerm), (42, SigZero), (42, SigZero)]"
    unfolding sc by (auto split: option.splits)
  then obtain a x w2 where t: "orphans_plan demo_orphans rep = [a]" "orphans_apply demo_orphans a w1 = Some (x, w2)"
      "pw_log w2 = [(42, SigTerm), (42, SigZero), (42, SigZero)]"
    by (auto simp: length_Suc_conv)
  have "cl_world c' = w2"
    using orphans_cmd_one [OF f, of demo_orphans demo_env "demo_shell demo_world" rep w1 a x w2 "\<lambda>e. []" "[]" r c'] s t sc o
    by (simp add: demo_env_def demo_shell_def)
  with t(3) have "pw_log (cl_world c') \<noteq> pw_log (cl_world (demo_shell demo_world))" by (simp add: demo_shell_def demo_world_def)
  from orphans_kill_consent [OF o this] o t(3) \<open>cl_world c' = w2\<close> f show ?thesis by (auto simp: demo_shell_def)
qed

lemma orphans_cmd_returns_witness:
  "\<exists>r c'. orphans_cmd demo_env demo_orphans (\<lambda>e. []) [] [''kill'', ''-y''] (demo_shell (demo_world\<lparr>pw_kill := (\<lambda>n pid sg. KillOk)\<rparr>)) = Some (r, c')"
  by (rule orphans_cmd_returns) (simp add: demo_orphans_def new_orphans_def)

end
