(* ===== verification/CliJudge.thy ===== *)
theory CliJudge
  imports CliSystemSafe WorktreesSafe
begin

text \<open>
  The judged removal of \<open>worktrees judge\<close>: what it applies and on whose word.
\<close>

lemma judge_all_sound:
  "judge_all j txt ds c = (rs, c') \<Longrightarrow> cl_world c' = cl_world c \<and> cl_in c' = cl_in c \<and>
     (\<forall>(d, v) \<in> set rs. d \<in> set ds \<and> j d = Inr v \<and> vd_verdict v = ''remove'')"
proof (induction ds arbitrary: c rs)
  case (Cons d ds)
  show ?case
  proof (cases "j d")
    case (Inl x)
    then have "judge_all j txt ds (put_err (''KEEP (judge failed) '' @ ds_path d @ '' '' @ em_dash @ '' '' @ txt x @ nl) c) = (rs, c')"
      using Cons.prems by simp
    from Cons.IH [OF this] show ?thesis by auto
  next
    case (Inr v)
    let ?c = "put (verdict_tag (vd_verdict v) @ ''  '' @ ds_path d @ nl @ ''    '' @ vd_reason v @ nl) c"
    obtain qs where q: "judge_all j txt ds ?c = (qs, c')" and rs: "rs = (if vd_verdict v = ''remove'' then (d, v) # qs else qs)"
      using Cons.prems Inr by (auto split: prod.splits)
    from Cons.IH [OF q] show ?thesis using Inr rs by auto
  qed
qed auto

definition judged_step :: "worktrees \<Rightarrow> (dossier \<Rightarrow> judge_err + verdict) \<Rightarrow> dossier list \<Rightarrow> bench \<Rightarrow> bench \<Rightarrow> bool" where
  "judged_step w j ds b b' \<longleftrightarrow> (\<exists>d v. d \<in> set ds \<and> j d = Inr v \<and> vd_verdict v = ''remove'' \<and> b' = snd (force_remove w (ds_path d) b))"

lemma remove_judged_steps:
  "remove_judged w txt e gj lg rs c = (r, c') \<Longrightarrow> \<forall>(d, v) \<in> set rs. d \<in> set ds \<and> j d = Inr v \<and> vd_verdict v = ''remove'' \<Longrightarrow>
     (judged_step w j ds)\<^sup>*\<^sup>* (cl_world c) (cl_world c')"
proof (induction rs arbitrary: lg c)
  case (Cons p rs)
  obtain d v where p: "p = (d, v)" by fastforce
  obtain x bdl tarball b where f: "force_remove w (ds_path d) (cl_world c) = ((x, bdl, tarball), b)" by (metis surj_pair)
  have one: "judged_step w j ds (cl_world c) b" using Cons.prems(2) p f by (auto simp: judged_step_def)
  show ?case
  proof (cases lg)
    case None
    then have "c' = c\<lparr> cl_world := b \<rparr>" using Cons.prems(1) p f by (simp add: on_world_def Let_def)
    then show ?thesis using one by auto
  next
    case (Some l)
    let ?err = "case x of Inl y \<Rightarrow> Some (txt y) | Inr n \<Rightarrow> None" and ?n = "case x of Inl y \<Rightarrow> 0 | Inr n \<Rightarrow> n"
    obtain y l1 os where wr: "audit_write (en_audit_json e) (judged_rec gj (ds_path d) v ?n ?err bdl tarball) l (cl_audit c) = ((y, l1), os)"
      by (metis surj_pair)
    have "(judged_step w j ds)\<^sup>*\<^sup>* b (cl_world c')"
      using Cons.prems p f Some wr by (cases x) (auto simp: on_world_def Let_def dest!: Cons.IH)
    then show ?thesis using one by (rule converse_rtranclp_into_rtranclp [rotated])
  qed
qed simp

definition ruled_out :: "(dossier \<Rightarrow> judge_err + verdict) \<Rightarrow> dossier list \<Rightarrow> path set" where
  "ruled_out j ds = ds_path ` {d \<in> set ds. \<exists>v. j d = Inr v \<and> vd_verdict v = ''remove''}"

lemma judged_steps_log:
  "(judged_step w j ds)\<^sup>*\<^sup>* b b' \<Longrightarrow> \<exists>L. bn_log b' = bn_log b @ L \<and> graved_removals (ruled_out j ds) L"
proof (induction rule: rtranclp_induct)
  case base
  show ?case using graved_removals_Nil by auto
next
  case (step y z)
  then obtain d v where d: "d \<in> set ds" "j d = Inr v" "vd_verdict v = ''remove''" and z: "z = snd (force_remove w (ds_path d) y)"
    by (auto simp: judged_step_def)
  have "force_remove w (ds_path d) y = (fst (force_remove w (ds_path d) y), z)" by (simp add: z)
  moreover have "ds_path d \<in> ruled_out j ds" using d by (auto simp: ruled_out_def)
  ultimately obtain M where "bn_log z = bn_log y @ M" "graved_removals (ruled_out j ds) M" by (rule force_remove_graved)
  with step.IH show ?case using graved_removals_append by (metis append.assoc)
qed

text \<open>
  C12. \<open>worktrees judge\<close> runs a forced removal only outside a dry run, with \<open>-y\<close> or the user's yes, and only
  on worktrees of the judgment tier, within the limit, for which the judge itself answered \<open>remove\<close>; an
  unavailable judge, an unreadable answer and \<open>keep\<close> change nothing. Every \<open>git worktree remove\<close> it runs comes, with no
  other removal between, after the checkout was found in the registry, its commits were bundled and every
  file it listed was archived.
\<close>

theorem judge_needs_consent:
  assumes "worktrees_judge e w txt j jtxt gj rep fs c = (r, c')" "cl_world c' \<noteq> cl_world c"
  defines "ds \<equiv> limited (flag_int fs ''limit'') (judgment_dossiers rep)"
  shows "consented fs (cl_in c) \<and> (judged_step w j ds)\<^sup>*\<^sup>* (cl_world c) (cl_world c') \<and>
    (\<exists>L. bn_log (cl_world c') = bn_log (cl_world c) @ L \<and> graved_removals (ruled_out j ds) L)"
proof -
  let ?ds = "limited (flag_int fs ''limit'') (judgment_dossiers rep)"
  let ?c0 = "if 0 < flag_int fs ''limit'' \<and> flag_int fs ''limit'' < int (length (judgment_dossiers rep))
     then put (''judging '' @ itoa (flag_int fs ''limit'') @ '' of '' @ count_text (judgment_dossiers rep) @ '' dossier(s) (--limit)'' @ nl) c else c"
  obtain rs c1 where a: "judge_all j jtxt ?ds ?c0 = (rs, c1)" by fastforce
  have c1: "cl_world c1 = cl_world c" "cl_in c1 = cl_in c"
    and rs: "\<forall>(d, v) \<in> set rs. d \<in> set ?ds \<and> j d = Inr v \<and> vd_verdict v = ''remove''"
    using judge_all_sound [OF a] by auto
  let ?p = "''Apply '' @ count_text rs @ '' removal verdict(s)? Each is grave-bundled (commits + dirty files) first.''"
  obtain b c2 where cf: "confirm ?p (flag_bool fs ''y'') c1 = (b, c2)" by fastforce
  note w2 = confirm_world [OF cf]
  have ne: "?ds \<noteq> []" "rs \<noteq> []" "\<not> flag_bool fs ''dry-run''" "b"
    using assms c1 w2 unfolding worktrees_judge_def Let_def a prod.case cf by (auto split: if_splits bool.splits)
  obtain lg os where n: "audit_new (audit_dir e) (cl_audit c2) = (lg, os)" by fastforce
  obtain x c3 where m: "remove_judged w txt e gj lg rs (c2\<lparr> cl_audit := os \<rparr>) = (x, c3)" by fastforce
  have "cl_world c' = cl_world c3"
    using assms(1) ne unfolding worktrees_judge_def Let_def a prod.case cf
    by (auto simp: n m split: option.splits)
  with remove_judged_steps [OF m rs] have steps: "(judged_step w j ?ds)\<^sup>*\<^sup>* (cl_world c) (cl_world c')" using w2 c1 by simp
  show ?thesis unfolding ds_def using steps judged_steps_log [OF steps] ne w2 c1 by (auto simp: consented_def)
qed

lemma judge_one:
  assumes "limited (flag_int fs ''limit'') (judgment_dossiers rep) = [d]" "j d = Inr v" "vd_verdict v = ''remove''"
    "flag_bool fs ''y''" "\<not> flag_bool fs ''dry-run''"
    "worktrees_judge e w txt j jtxt gj rep fs c = (r, c')"
  shows "cl_world c' = snd (force_remove w (ds_path d) (cl_world c))"
proof -
  define c0 where "c0 = (if 0 < flag_int fs ''limit'' \<and> flag_int fs ''limit'' < int (length (judgment_dossiers rep))
      then put (''judging '' @ itoa (flag_int fs ''limit'') @ '' of '' @ count_text (judgment_dossiers rep) @ '' dossier(s) (--limit)'' @ nl) c
      else c)"
  have w0: "cl_world c0 = cl_world c" by (simp add: c0_def)
  let ?c1 = "put (verdict_tag (vd_verdict v) @ ''  '' @ ds_path d @ nl @ ''    '' @ vd_reason v @ nl) c0"
  have ja: "judge_all j jtxt [d] c0 = ([(d, v)], ?c1)" using assms(2,3) by simp
  let ?c2 = "put (''(--yes specified, skipping confirmation)'' @ nl) ?c1"
  obtain lg os where n: "audit_new (audit_dir e) (cl_audit ?c2) = (lg, os)" by fastforce
  obtain x bdl tarball b where f: "force_remove w (ds_path d) (cl_world c) = ((x, bdl, tarball), b)" by (metis surj_pair)
  obtain y c3 where m: "remove_judged w txt e gj lg [(d, v)] (?c2\<lparr> cl_audit := os \<rparr>) = (y, c3)" by fastforce
  have "cl_world c' = cl_world c3"
    using assms(6) unfolding worktrees_judge_def Let_def assms(1) c0_def [symmetric] ja
    using assms(4,5) n m by (auto simp: confirm_def split: option.splits)
  moreover have "cl_world c3 = b"
    using m f w0 by (cases lg) (auto simp: on_world_def Let_def split: prod.splits sum.splits)
  ultimately show ?thesis using f by simp
qed

definition demo_rep :: report where
  "demo_rep = \<lparr> rp_module = ''worktrees'', rp_items = [\<lparr> it_path = ''/w'', it_size = 0, it_evidence = [''tier'' \<mapsto> ''judgment''] \<rparr>], rp_total = 0 \<rparr>"

lemma judge_needs_consent_witness:
  "let c = \<lparr> cl_world = demo_bench, cl_in = [], cl_out = [], cl_err = [], cl_audit = cl_audit (demo_cli [] []) \<rparr>;
       fs = worktrees_flags(''y'' \<mapsto> FBool True); j = (\<lambda>d. Inr \<lparr> vd_verdict = ''remove'', vd_reason = [] \<rparr>);
       c' = snd (worktrees_judge demo_env demo_worktrees (\<lambda>e. []) j (\<lambda>e. []) (\<lambda>b t r. []) demo_rep fs c)
   in bn_log (cl_world c') \<noteq> [] \<and> graved_removals {''/w''} (bn_log (cl_world c'))"
proof -
  let ?c = "\<lparr> cl_world = demo_bench, cl_in = [], cl_out = [], cl_err = [], cl_audit = cl_audit (demo_cli [] []) \<rparr> :: bench cli"
  let ?fs = "worktrees_flags(''y'' \<mapsto> FBool True)" and ?j = "\<lambda>d. Inr \<lparr> vd_verdict = ''remove'', vd_reason = [] \<rparr> :: judge_err + verdict"
  obtain r c' where w: "worktrees_judge demo_env demo_worktrees (\<lambda>e. []) ?j (\<lambda>e. []) (\<lambda>b t r. []) demo_rep ?fs ?c = (r, c')" by fastforce
  have l: "limited (flag_int ?fs ''limit'') (judgment_dossiers demo_rep) = judgment_dossiers demo_rep"
    by (simp add: limited_def flag_int_def worktrees_flags_def)
  obtain d where d: "judgment_dossiers demo_rep = [d]" "ds_path d = ''/w''"
    by (simp add: judgment_dossiers_def demo_rep_def ev_get_def dossier_from_item_def)
  have "cl_world c' = snd (force_remove demo_worktrees ''/w'' demo_bench)"
    using judge_one [OF _ _ _ _ _ w, of d] l d by (simp add: flag_bool_def worktrees_flags_def base_flags_def)
  moreover have "bn_log (snd (force_remove demo_worktrees ''/w'' demo_bench)) \<noteq> []" by code_simp
  ultimately have ne: "bn_log (cl_world c') \<noteq> []" by simp
  then have "cl_world c' \<noteq> cl_world ?c" by (auto simp: demo_bench_def)
  from judge_needs_consent [OF w this] obtain L where "bn_log (cl_world c') = bn_log demo_bench @ L"
      "graved_removals (ruled_out ?j (judgment_dossiers demo_rep)) L" unfolding l by auto
  moreover have "ruled_out ?j (judgment_dossiers demo_rep) = {''/w''}" using d by (simp add: ruled_out_def)
  ultimately show ?thesis using ne w by (simp add: Let_def demo_bench_def)
qed

end
