(* ===== verification/CliTrends.thy ===== *)
theory CliTrends
  imports CliOffload Trend
begin

text \<open>
  The command \<open>trends\<close> (\<open>internal/cli/trends_cmd.go\<close>) on the daemon's store: the growth of every recorded
  cache and volume over a window, day by day, and the leak classes that come back. Whether a store is at
  a path, whether it opens, the tab writer, the JSON encoder and the words of database errors are in
  \<open>hist_env\<close>. The world of the command is the store it opens.
\<close>

record cache_trend =
  tc_target :: path
  tc_buckets :: "point list"
  tc_fit :: fit
  tc_now :: int

record disk_trend =
  td_uuid :: string
  td_mount :: path
  td_total :: int
  td_free :: int
  td_buckets :: "point list"
  td_fit :: fit
  td_full_in :: rat
  td_full_ok :: bool

record trends_data =
  tr_window :: int
  tr_recurrence :: int
  tr_caches :: "cache_trend list"
  tr_disks :: "disk_trend list"
  tr_patterns :: "pattern list"

definition recurrence_days :: int where "recurrence_days = 90"

subsection \<open>Reading the store\<close>

text \<open>Statements in sequence; a failing one ends the reading with an error.\<close>

definition db_then :: "(store \<Rightarrow> 'a option \<times> store) \<Rightarrow> ('a \<Rightarrow> store \<Rightarrow> 'b option \<times> store) \<Rightarrow> store \<Rightarrow> 'b option \<times> store" where
  "db_then q k s = (case q s of (None, s1) \<Rightarrow> (None, s1) | (Some x, s1) \<Rightarrow> k x s1)"

definition distinct_column :: "(store \<Rightarrow> string list) \<Rightarrow> store \<Rightarrow> string list option \<times> store" where
  "distinct_column col = db_exec (\<lambda>s. (sort_by bytes_le (remdups (col s)), s))"

text \<open>\<open>now.Add(-time.Duration(days) * 24 * time.Hour)\<close>: the product wraps.\<close>

definition window_start :: "time \<Rightarrow> int \<Rightarrow> time" where
  "window_start now days = now + wrap64 (wrap64 (wrap64 (- days) * 24) * hour)"

definition used_samples :: "disk_row list \<Rightarrow> sample list" where
  "used_samples rows = map (\<lambda>r. \<lparr> sm_at = dr_at r, sm_bytes = wrap64 (dr_total r - dr_free r) \<rparr>) rows"

definition size_samples :: "cache_row list \<Rightarrow> sample list" where
  "size_samples rows = map (\<lambda>r. \<lparr> sm_at = cr_at r, sm_bytes = cr_bytes r \<rparr>) rows"

definition cache_trend_of :: "path \<Rightarrow> cache_row list \<Rightarrow> cache_trend" where
  "cache_trend_of t rows = (let b = day_bucket (size_samples rows) in
     \<lparr> tc_target = t, tc_buckets = b, tc_fit = linear_fit b, tc_now = cr_bytes (last rows) \<rparr>)"

definition disk_trend_of :: "string \<Rightarrow> disk_row list \<Rightarrow> disk_trend" where
  "disk_trend_of u rows =
     (let r = last rows; b = day_bucket (used_samples rows); f = linear_fit b;
          full = (if ft_ok f then days_until_full (dr_free r) (ft_rate f) else (0, False)) in
      \<lparr> td_uuid = u, td_mount = dr_mount r, td_total = dr_total r, td_free = dr_free r, td_buckets = b, td_fit = f,
        td_full_in = fst full, td_full_ok = snd full \<rparr>)"

text \<open>One series per name; a name without a row in the window is passed over.\<close>

fun series_loop :: "(string \<Rightarrow> store \<Rightarrow> 'r list option \<times> store) \<Rightarrow> (string \<Rightarrow> 'r list \<Rightarrow> 't) \<Rightarrow> string list \<Rightarrow> store \<Rightarrow> 't list option \<times> store" where
  "series_loop q f [] s = (Some [], s)"
| "series_loop q f (n # ns) s = db_then (q n) (\<lambda>rows.
     if rows = [] then series_loop q f ns
     else db_then (series_loop q f ns) (\<lambda>ts s1. (Some (f n rows # ts), s1))) s"

definition occurrence_of :: "sg_row \<Rightarrow> occurrence" where
  "occurrence_of r = \<lparr> oc_sig = ev_get (sr_evidence r) ''signature'', oc_workaround = ev_get (sr_evidence r) ''workaround'',
     oc_target = sr_target r, oc_at = sr_ts r \<rparr>"

definition gather_recurrences :: "time \<Rightarrow> int \<Rightarrow> store \<Rightarrow> pattern list option \<times> store" where
  "gather_recurrences now days =
     db_then (distinct_column (\<lambda>s. map sr_module (st_suggestions s))) (\<lambda>ms.
     db_then (series_loop (\<lambda>m. list_suggestions_since m (window_start now days)) (\<lambda>m. map occurrence_of) ms) (\<lambda>os s.
       (Some (recurrences (concat os)), s)))"

definition gather_trends :: "time \<Rightarrow> int \<Rightarrow> store \<Rightarrow> trends_data option \<times> store" where
  "gather_trends now days =
     (let since = window_start now days in
      db_then (distinct_column (\<lambda>s. map cr_target (st_caches s))) (\<lambda>ts.
      db_then (series_loop (\<lambda>t. cache_size_series t since) cache_trend_of ts) (\<lambda>cs.
      db_then (distinct_column (\<lambda>s. map dr_uuid (st_disks s))) (\<lambda>us.
      db_then (series_loop (\<lambda>u. disk_space_series u since) disk_trend_of us) (\<lambda>ds.
      db_then (gather_recurrences now recurrence_days) (\<lambda>ps s.
        (Some \<lparr> tr_window = days, tr_recurrence = recurrence_days, tr_caches = cs, tr_disks = ds, tr_patterns = ps \<rparr>, s)))))))"

subsection \<open>Words\<close>

definition bucket_values :: "point list \<Rightarrow> int list" where
  "bucket_values = map pt_bytes"

definition format_rate :: "rat \<Rightarrow> string" where
  "format_rate r = (if r < 0 then ''-'' @ bytes_string (i64_of_rat (- r)) else ''+'' @ bytes_string (i64_of_rat r)) @ ''/day''"

definition format_full_in :: "rat \<Rightarrow> bool \<Rightarrow> string" where
  "format_full_in d ok = (if \<not> ok then ''not filling'' else if 3650 < d then ''>10 years'' else ''~'' @ fmt_f0 d @ '' days'')"

definition days_word :: "int \<Rightarrow> string" where
  "days_word n = (if n = 1 then ''day'' else ''days'')"

definition insufficient_history :: "int \<Rightarrow> string" where
  "insufficient_history n = ''insufficient history ('' @ itoa n @ '' '' @ days_word n @ '') '' @ em_dash @ '' check back tomorrow''"

definition rate_text :: "point list \<Rightarrow> fit \<Rightarrow> string" where
  "rate_text b f = (if ft_ok f then format_rate (ft_rate f) @ '' over '' @ itoa (ft_window f) @ '' '' @ days_word (ft_window f)
     else insufficient_history (int (length b)))"

definition tab :: string where "tab = [CHR 0x09]"

definition cache_line :: "cache_trend \<Rightarrow> string" where
  "cache_line c = ''  '' @ tc_target c @ tab @ sparkline (bucket_values (tc_buckets c)) @ tab @
     rate_text (tc_buckets c) (tc_fit c) @ tab @ bytes_string (tc_now c) @ nl"

definition disk_line :: "disk_trend \<Rightarrow> string" where
  "disk_line v = ''  '' @ td_mount v @ tab @ sparkline (bucket_values (td_buckets v)) @ tab @
     rate_text (td_buckets v) (td_fit v) @ tab @ bytes_string (td_free v) @ tab @
     (if ft_ok (td_fit v) then format_full_in (td_full_in v) (td_full_ok v) else ''unknown'') @ nl"

definition pattern_lines :: "pattern \<Rightarrow> string" where
  "pattern_lines p = ''  '' @ pn_sig p @ '' '' @ em_dash @ '' seen on '' @ itoa (pn_days p) @ '' distinct days ('' @ itoa (pn_occ p) @
     '' hits; first '' @ fmt_day (pn_first p) @ '', last '' @ fmt_day (pn_last p) @ '')'' @ nl @
     (if pn_workaround p \<noteq> [] then ''    recurring '' @ em_dash @ '' fix it permanently: '' @ pn_workaround p @ nl
      else ''    recurring '' @ em_dash @ '' no known permanent fix yet; expect to clean this again'' @ nl)"

definition render_trends :: "(string \<Rightarrow> string) \<Rightarrow> trends_data \<Rightarrow> string" where
  "render_trends tw d =
     ''Cache growth '' @ em_dash @ '' last '' @ itoa (tr_window d) @ '' days, day-bucketed (last sample per day)'' @ nl @
     (if tr_caches d = []
      then ''  No cache history yet '' @ em_dash @ '' the daemon records sizes on each scan; check back after a day of uptime.'' @ nl
      else tw (''  TARGET'' @ tab @ ''TREND'' @ tab @ ''RATE'' @ tab @ ''NOW'' @ nl @ concat (map cache_line (tr_caches d)))) @
     nl @ ''Disk fill '' @ em_dash @ '' last '' @ itoa (tr_window d) @ '' days (used bytes, day-bucketed)'' @ nl @
     (if tr_disks d = []
      then ''  No disk-space history yet '' @ em_dash @ '' the daemon samples each volume hourly; check back after a day of uptime.'' @ nl
      else tw (''  VOLUME'' @ tab @ ''TREND'' @ tab @ ''FILL RATE'' @ tab @ ''FREE'' @ tab @ ''FULL IN'' @ nl @ concat (map disk_line (tr_disks d)))) @
     nl @ ''Recurring patterns '' @ em_dash @ '' last '' @ itoa (tr_recurrence d) @ '' days (dismissed suggestions included)'' @ nl @
     (if tr_patterns d = [] then ''  No recurring patterns '' @ em_dash @ '' no leak class has come back on a second day.'' @ nl
      else concat (map pattern_lines (tr_patterns d)))"

subsection \<open>JSON rows\<close>

record cache_json =
  cj_target :: path
  cj_spark :: string
  cj_fit_ok :: bool
  cj_rate :: rat
  cj_window :: int
  cj_points :: int
  cj_now :: int

record disk_json =
  dj_uuid :: string
  dj_mount :: path
  dj_total :: int
  dj_free :: int
  dj_spark :: string
  dj_fit_ok :: bool
  dj_rate :: rat
  dj_window :: int
  dj_points :: int
  dj_full_in :: rat
  dj_full_ok :: bool

record pattern_json =
  pj_sig :: string
  pj_days :: int
  pj_occ :: int
  pj_first :: string
  pj_last :: string
  pj_workaround :: string
  pj_targets :: "string list"

datatype trends_row = CacheRow cache_json | DiskRow disk_json | PatternRow pattern_json

definition cache_json_of :: "cache_trend \<Rightarrow> cache_json" where
  "cache_json_of c = \<lparr> cj_target = tc_target c, cj_spark = sparkline (bucket_values (tc_buckets c)), cj_fit_ok = ft_ok (tc_fit c),
     cj_rate = ft_rate (tc_fit c), cj_window = ft_window (tc_fit c), cj_points = int (length (tc_buckets c)), cj_now = tc_now c \<rparr>"

definition disk_json_of :: "disk_trend \<Rightarrow> disk_json" where
  "disk_json_of v = \<lparr> dj_uuid = td_uuid v, dj_mount = td_mount v, dj_total = td_total v, dj_free = td_free v,
     dj_spark = sparkline (bucket_values (td_buckets v)), dj_fit_ok = ft_ok (td_fit v), dj_rate = ft_rate (td_fit v),
     dj_window = ft_window (td_fit v), dj_points = int (length (td_buckets v)), dj_full_in = td_full_in v, dj_full_ok = td_full_ok v \<rparr>"

definition pattern_json_of :: "pattern \<Rightarrow> pattern_json" where
  "pattern_json_of p = \<lparr> pj_sig = pn_sig p, pj_days = pn_days p, pj_occ = pn_occ p, pj_first = fmt_rfc3339 (pn_first p),
     pj_last = fmt_rfc3339 (pn_last p), pj_workaround = pn_workaround p, pj_targets = pn_targets p \<rparr>"

definition trends_rows :: "trends_data \<Rightarrow> trends_row list" where
  "trends_rows d = map (CacheRow \<circ> cache_json_of) (tr_caches d) @ map (DiskRow \<circ> disk_json_of) (tr_disks d) @
     map (PatternRow \<circ> pattern_json_of) (tr_patterns d)"

text \<open>Rows are written until one does not encode.\<close>

fun encode_rows :: "(trends_row \<Rightarrow> string option) \<Rightarrow> trends_row list \<Rightarrow> string \<times> bool" where
  "encode_rows enc [] = ([], True)"
| "encode_rows enc (r # rs) = (case enc r of None \<Rightarrow> ([], False)
     | Some l \<Rightarrow> (case encode_rows enc rs of (t, ok) \<Rightarrow> (l @ nl @ t, ok)))"

subsection \<open>The command\<close>

record hist_env =
  hs_now :: time
  hs_config :: config
  hs_stat :: "path \<Rightarrow> bool"
  hs_open :: "path \<Rightarrow> string option"
  hs_db_err :: string
  hs_tab :: "string \<Rightarrow> string"
  hs_enc :: "trends_row \<Rightarrow> string option"
  hs_enc_err :: string

definition store_path :: "hist_env \<Rightarrow> string \<Rightarrow> path" where
  "store_path h override = (if override = [] then cf_store_path (hs_config h) else override)"

definition open_daemon_store :: "hist_env \<Rightarrow> string \<Rightarrow> string + path" where
  "open_daemon_store h override =
     (let p = store_path h override in
      if \<not> hs_stat h p
      then Inl (''no daemon store at '' @ p @ '' '' @ em_dash @ '' the daemon records the history this command reads; install it with `noo-noo install`, or point -store at a store file'')
      else case hs_open h p of Some x \<Rightarrow> Inl (''open daemon store '' @ p @ '': '' @ x) | None \<Rightarrow> Inr p)"

definition hist_flags :: flag_set where
  "hist_flags = [''json'' \<mapsto> FBool False, ''days'' \<mapsto> FInt 30, ''store'' \<mapsto> FStr []]"

text \<open>What \<open>trends\<close> and \<open>status\<close> refuse before they read anything.\<close>

definition hist_args :: "string \<Rightarrow> string list \<Rightarrow> (string option + bool \<times> int \<times> string)" where
  "hist_args name args = (case flag_parse hist_flags args of
     Inl x \<Rightarrow> Inl None
   | Inr (fs, left) \<Rightarrow>
       if left \<noteq> [] then Inl (Some (name @ '' takes no arguments (got '' @ go_quotes left @ '') '' @ em_dash @ '' flags only: -days N -json -store PATH''))
       else if flag_int fs ''days'' < 1 then Inl (Some ''-days must be >= 1'')
       else Inr (flag_bool fs ''json'', flag_int fs ''days'', flag_str fs ''store''))"

definition trends_cmd :: "hist_env \<Rightarrow> string list \<Rightarrow> store cli \<Rightarrow> int option \<times> store cli" where
  "trends_cmd h args c =
     (case hist_args ''trends'' args of
        Inl None \<Rightarrow> (Some 2, c)
      | Inl (Some msg) \<Rightarrow> (Some 2, put_err (msg @ nl) c)
      | Inr (json, days, override) \<Rightarrow>
          (case open_daemon_store h override of
             Inl x \<Rightarrow> (Some 1, put_err (x @ nl) c)
           | Inr p \<Rightarrow> (case on_world (gather_trends (hs_now h) days) c of
               (None, c1) \<Rightarrow> (Some 1, put_err (''read '' @ p @ '': '' @ hs_db_err h @ nl) c1)
             | (Some d, c1) \<Rightarrow>
                 if json then (case encode_rows (hs_enc h) (trends_rows d) of
                     (t, True) \<Rightarrow> (Some 0, put t c1) | (t, False) \<Rightarrow> (Some 1, put_err (hs_enc_err h @ nl) (put t c1)))
                 else (Some 0, put (render_trends (hs_tab h) d) c1))))"


subsection \<open>The store is only read\<close>

text \<open>Only the number of statements run has changed.\<close>

definition same_tables :: "store \<Rightarrow> store \<Rightarrow> bool" where
  "same_tables s s' \<longleftrightarrow> s' = s\<lparr> db_calls := db_calls s' \<rparr>"

lemma same_tables_refl [simp]: "same_tables s s"
  by (simp add: same_tables_def)

lemma same_tables_trans: "same_tables s t \<Longrightarrow> same_tables t u \<Longrightarrow> same_tables s u"
  unfolding same_tables_def by (cases s, cases t, cases u) simp

lemma same_tablesD:
  assumes "same_tables s s'"
  shows "st_caches s' = st_caches s" "st_disks s' = st_disks s" "st_suggestions s' = st_suggestions s" "st_events s' = st_events s"
    "st_reloc s' = st_reloc s" "st_actions s' = st_actions s" "st_idle s' = st_idle s" "st_storms s' = st_storms s"
    "db_faults s' = db_faults s"
  using assms unfolding same_tables_def by (metis store.simps store.select_convs store.surjective)+

lemma db_exec_read:
  assumes "db_exec (\<lambda>s. (g s, s)) s = (r, s')" "\<And>n. g (s\<lparr> db_calls := n \<rparr>) = g s"
  shows "same_tables s s' \<and> (r = None \<or> r = Some (g s))"
  using assms by (auto simp: db_exec_def Let_def same_tables_def split: if_splits)

lemma db_thenE:
  assumes "db_then q k s = (r, s')"
  obtains s1 where "q s = (None, s1)" "r = None" "s' = s1"
    | x s1 where "q s = (Some x, s1)" "k x s1 = (r, s')"
  using assms by (auto simp: db_then_def split: prod.splits option.splits)

text \<open>What a series query promises: it reads, and what it gives is a function of the tables.\<close>

locale series_query =
  fixes q :: "string \<Rightarrow> store \<Rightarrow> 'r list option \<times> store"
    and rows :: "store \<Rightarrow> string \<Rightarrow> 'r list"
  assumes reads: "q n s = (r, s') \<Longrightarrow> same_tables s s' \<and> (r = None \<or> r = Some (rows s n))"
    and rows_tables: "same_tables s s' \<Longrightarrow> rows s' = rows s"
    and fails: "q n s = (None, s') \<Longrightarrow> db_faults s (db_calls s)"
begin

lemma loop_exact:
  "series_loop q f ns s = (r, s') \<Longrightarrow> same_tables s s' \<and>
     (r = None \<or> r = Some (map (\<lambda>n. f n (rows s n)) (filter (\<lambda>n. rows s n \<noteq> []) ns)))"
proof (induction ns arbitrary: s r s')
  case (Cons n ns)
  from Cons.prems have "db_then (q n) (\<lambda>rs. if rs = [] then series_loop q f ns
     else db_then (series_loop q f ns) (\<lambda>ts s1. (Some (f n rs # ts), s1))) s = (r, s')" by simp
  then show ?case
  proof (rule db_thenE)
    fix s1 assume "q n s = (None, s1)" "r = None" "s' = s1"
    then show ?thesis using reads [of n s None s1] by simp
  next
    fix rs s1 assume g: "q n s = (Some rs, s1)"
      and k: "(if rs = [] then series_loop q f ns else db_then (series_loop q f ns) (\<lambda>ts s1. (Some (f n rs # ts), s1))) s1 = (r, s')"
    have t: "same_tables s s1" "rs = rows s n" using reads [OF g] by auto
    show ?thesis
    proof (cases "rs = []")
      case True
      with k have "series_loop q f ns s1 = (r, s')" by simp
      from Cons.IH [OF this] show ?thesis using t True by (auto simp: rows_tables [OF t(1)] intro: same_tables_trans)
    next
      case False
      with k have "db_then (series_loop q f ns) (\<lambda>ts s1. (Some (f n rs # ts), s1)) s1 = (r, s')" by simp
      then show ?thesis
      proof (rule db_thenE)
        fix s2 assume l: "series_loop q f ns s1 = (None, s2)" and "r = None" "s' = s2"
        then show ?thesis using Cons.IH [OF l] t by (auto intro: same_tables_trans)
      next
        fix ts s2 assume l: "series_loop q f ns s1 = (Some ts, s2)" and "(Some (f n rs # ts), s2) = (r, s')"
        then show ?thesis using Cons.IH [OF l] t False by (auto simp: rows_tables [OF t(1)] intro: same_tables_trans)
      qed
    qed
  qed
qed simp

lemma loop_fails: "series_loop q f ns s = (None, s') \<Longrightarrow> \<exists>n. db_faults s n"
proof (induction ns arbitrary: s s')
  case (Cons n ns)
  have faults: "db_faults s1 = db_faults s" if "q n s = (Some x, s1)" for x s1
    using reads [OF that] same_tablesD(9) by simp
  from Cons.prems show ?case
    using Cons.IH faults fails [of n s] by (fastforce simp: db_then_def split: prod.splits option.splits if_splits)
qed simp

end

definition cache_rows :: "time \<Rightarrow> store \<Rightarrow> path \<Rightarrow> cache_row list" where
  "cache_rows since s t = sort_key cr_at (filter (\<lambda>r. cr_target r = t \<and> since \<le> cr_at r) (st_caches s))"

definition disk_rows :: "time \<Rightarrow> store \<Rightarrow> string \<Rightarrow> disk_row list" where
  "disk_rows since s u = sort_key dr_at (filter (\<lambda>r. dr_uuid r = u \<and> since \<le> dr_at r) (st_disks s))"

definition sg_rows :: "time \<Rightarrow> store \<Rightarrow> string \<Rightarrow> sg_row list" where
  "sg_rows since s m = newest_first sr_ts (filter (\<lambda>r. sr_module r = m \<and> since \<le> sr_ts r) (st_suggestions s))"

interpretation caches_q: series_query "\<lambda>t. cache_size_series t since" "cache_rows since" for since
proof
  fix n s r s' assume "cache_size_series n since s = (r, s')"
  from db_exec_read [OF this [unfolded cache_size_series_def]] show "same_tables s s' \<and> (r = None \<or> r = Some (cache_rows since s n))"
    by (simp add: cache_rows_def)
qed (auto simp: cache_rows_def [abs_def] same_tablesD cache_size_series_def db_exec_def Let_def split: if_splits)

interpretation disks_q: series_query "\<lambda>u. disk_space_series u since" "disk_rows since" for since
proof
  fix n s r s' assume "disk_space_series n since s = (r, s')"
  from db_exec_read [OF this [unfolded disk_space_series_def]] show "same_tables s s' \<and> (r = None \<or> r = Some (disk_rows since s n))"
    by (simp add: disk_rows_def)
qed (auto simp: disk_rows_def [abs_def] same_tablesD disk_space_series_def db_exec_def Let_def split: if_splits)

interpretation sugg_q: series_query "\<lambda>m. list_suggestions_since m since" "sg_rows since" for since
proof
  fix n s r s' assume "list_suggestions_since n since s = (r, s')"
  from db_exec_read [OF this [unfolded list_suggestions_since_def]] show "same_tables s s' \<and> (r = None \<or> r = Some (sg_rows since s n))"
    by (simp add: sg_rows_def)
qed (auto simp: sg_rows_def [abs_def] same_tablesD list_suggestions_since_def db_exec_def Let_def split: if_splits)

lemma distinct_column_reads:
  assumes "distinct_column col s = (r, s')" "\<And>n. col (s\<lparr> db_calls := n \<rparr>) = col s"
  shows "same_tables s s' \<and> (r = None \<or> r = Some (sort_by bytes_le (remdups (col s))))"
  using db_exec_read [OF assms(1) [unfolded distinct_column_def]] assms(2) by simp


lemma distinct_sort_by: "distinct xs \<Longrightarrow> distinct (sort_by le xs)"
proof -
  have ins: "mset (insert_by le x ys) = add_mset x (mset ys)" for x and ys :: "'a list"
    by (induction ys) auto
  have "mset (sort_by le ys) = mset ys" for ys :: "'a list"
    by (induction ys) (simp_all add: sort_by_def ins)
  then show "distinct xs \<Longrightarrow> distinct (sort_by le xs)" by (metis mset_eq_imp_distinct_iff)
qed

lemma gather_recurrences_reads: "gather_recurrences now days s = (r, s') \<Longrightarrow> same_tables s s'"
  unfolding gather_recurrences_def
  by (elim db_thenE) (auto dest!: distinct_column_reads sugg_q.loop_exact intro: same_tables_trans)

text \<open>The two lists of a gathering, over the tables.\<close>

lemma gather_trends_lists:
  assumes "gather_trends now days s = (r, s')"
  shows "same_tables s s' \<and> (\<forall>d. r = Some d \<longrightarrow>
    tr_caches d = map (\<lambda>t. cache_trend_of t (cache_rows (window_start now days) s t))
      (filter (\<lambda>t. cache_rows (window_start now days) s t \<noteq> []) (sort_by bytes_le (remdups (map cr_target (st_caches s))))) \<and>
    tr_disks d = map (\<lambda>u. disk_trend_of u (disk_rows (window_start now days) s u))
      (filter (\<lambda>u. disk_rows (window_start now days) s u \<noteq> []) (sort_by bytes_le (remdups (map dr_uuid (st_disks s))))))"
proof -
  have tab: "cache_rows since s2 = cache_rows since s1" "disk_rows since s2 = disk_rows since s1" "st_disks s2 = st_disks s1"
    if "same_tables s1 s2" for s1 s2 since
    using caches_q.rows_tables [OF that] disks_q.rows_tables [OF that] same_tablesD [OF that] by auto
  show ?thesis
    using assms unfolding gather_trends_def Let_def
    by (elim db_thenE)
      (auto simp: tab dest!: distinct_column_reads caches_q.loop_exact disks_q.loop_exact gather_recurrences_reads,
        (meson same_tables_trans)+)
qed

text \<open>A gathering fails only when a statement fails.\<close>

lemma distinct_column_fails: "distinct_column col s = (None, s') \<Longrightarrow> \<exists>n. db_faults s n"
  by (auto simp: distinct_column_def db_exec_def Let_def split: if_splits)

lemma distinct_column_faults: "distinct_column col s = (r, s') \<Longrightarrow> db_faults s' = db_faults s"
  by (auto simp: distinct_column_def db_exec_def Let_def split: if_splits)

lemmas loop_faults = same_tablesD(9) [OF caches_q.loop_exact [THEN conjunct1]] same_tablesD(9) [OF disks_q.loop_exact [THEN conjunct1]]

lemma gather_recurrences_fails: "gather_recurrences now days s = (None, s') \<Longrightarrow> \<exists>n. db_faults s n"
  unfolding gather_recurrences_def
  by (elim db_thenE) (blast dest: distinct_column_fails, metis distinct_column_faults sugg_q.loop_fails, auto)

lemma gather_trends_fails: "gather_trends now days s = (None, s') \<Longrightarrow> \<exists>n. db_faults s n"
  unfolding gather_trends_def Let_def
  by (elim db_thenE,
    (drule distinct_column_fails caches_q.loop_fails disks_q.loop_fails gather_recurrences_fails;
      auto simp: distinct_column_faults loop_faults; metis distinct_column_faults loop_faults)+) simp

lemma last_sort_key_latest: "r \<in> set xs \<Longrightarrow> (f r :: int) \<le> f (last (sort_key f xs)) \<and> last (sort_key f xs) \<in> set xs"
proof -
  assume r: "r \<in> set xs"
  then have ne: "sort_key f xs \<noteq> []" by (metis empty_iff list.set(1) set_sort)
  have "sorted (map f (butlast (sort_key f xs) @ [last (sort_key f xs)]))" using ne by simp
  moreover have "r \<in> set (butlast (sort_key f xs) @ [last (sort_key f xs)])" using r ne by simp
  ultimately have "f r \<le> f (last (sort_key f xs))" unfolding map_append sorted_append by auto
  moreover have "last (sort_key f xs) \<in> set xs" using last_in_set [OF ne] by simp
  ultimately show ?thesis by simp
qed

text \<open>The rows of a window, and the trend of one series of them.\<close>

lemma set_cache_rows: "set (cache_rows since s t) = {r \<in> set (st_caches s). cr_target r = t \<and> since \<le> cr_at r}"
  by (auto simp: cache_rows_def)

lemma set_disk_rows: "set (disk_rows since s u) = {r \<in> set (st_disks s). dr_uuid r = u \<and> since \<le> dr_at r}"
  by (auto simp: disk_rows_def)

text \<open>
  A daily series of rows: one point per day that has a row, the days strictly ascending, each with the
  bytes of a latest row of its day.
\<close>

definition daily_series :: "('r \<Rightarrow> time) \<Rightarrow> ('r \<Rightarrow> int) \<Rightarrow> 'r set \<Rightarrow> point list \<Rightarrow> bool" where
  "daily_series tm bytes R ps \<longleftrightarrow> sorted_wrt (<) (map pt_day ps) \<and> pt_day ` set ps = (utc_day \<circ> tm) ` R \<and>
     (\<forall>p \<in> set ps. \<exists>r \<in> R. pt_bytes p = bytes r \<and> utc_day (tm r) = pt_day p \<and>
        (\<forall>q \<in> R. utc_day (tm q) = pt_day p \<longrightarrow> tm q \<le> tm r))"

lemma day_bucket_daily:
  "daily_series tm bytes (set rows) (day_bucket (map (\<lambda>r. \<lparr> sm_at = tm r, sm_bytes = bytes r \<rparr>) rows))"
  using day_bucket_exact [of "map (\<lambda>r. \<lparr> sm_at = tm r, sm_bytes = bytes r \<rparr>) rows"]
  by (simp add: daily_series_def image_image comp_def)

lemma cache_trend_latest:
  assumes "cache_rows since s t \<noteq> []" "c = cache_trend_of t (cache_rows since s t)"
  defines "R \<equiv> {r \<in> set (st_caches s). cr_target r = t \<and> since \<le> cr_at r}"
  shows "tc_target c = t \<and> (\<exists>r \<in> R. tc_now c = cr_bytes r \<and> (\<forall>q \<in> R. cr_at q \<le> cr_at r)) \<and>
    daily_series cr_at cr_bytes R (tc_buckets c) \<and> tc_fit c = linear_fit (tc_buckets c)"
proof -
  let ?rows = "filter (\<lambda>r. cr_target r = t \<and> since \<le> cr_at r) (st_caches s)"
  have R: "R = set ?rows" by (auto simp: R_def)
  obtain r0 where "r0 \<in> set ?rows" using assms(1) by (metis R R_def last_in_set set_cache_rows)
  then have "last (sort_key cr_at ?rows) \<in> R \<and> (\<forall>q \<in> R. cr_at q \<le> cr_at (last (sort_key cr_at ?rows)))"
    using last_sort_key_latest [of _ ?rows cr_at] unfolding R by blast
  then have "\<exists>r \<in> R. tc_now c = cr_bytes r \<and> (\<forall>q \<in> R. cr_at q \<le> cr_at r)"
    by (auto simp: assms(2) cache_trend_of_def cache_rows_def Let_def)
  moreover have "daily_series cr_at cr_bytes (set (cache_rows since s t)) (tc_buckets c)"
    using day_bucket_daily [of cr_at cr_bytes "cache_rows since s t"]
    by (simp add: assms(2) cache_trend_of_def Let_def size_samples_def)
  ultimately show ?thesis by (simp add: assms(2) cache_trend_of_def Let_def set_cache_rows R_def)
qed

lemma disk_trend_latest:
  assumes "disk_rows since s u \<noteq> []" "v = disk_trend_of u (disk_rows since s u)"
  defines "R \<equiv> {r \<in> set (st_disks s). dr_uuid r = u \<and> since \<le> dr_at r}"
  shows "td_uuid v = u \<and> (\<exists>r \<in> R. td_free v = dr_free r \<and> td_total v = dr_total r \<and> td_mount v = dr_mount r \<and> (\<forall>q \<in> R. dr_at q \<le> dr_at r)) \<and>
    daily_series dr_at (\<lambda>r. wrap64 (dr_total r - dr_free r)) R (td_buckets v) \<and> td_fit v = linear_fit (td_buckets v) \<and>
    (td_full_ok v \<longrightarrow> ft_ok (td_fit v) \<and> 0 < ft_rate (td_fit v))"
proof -
  let ?rows = "filter (\<lambda>r. dr_uuid r = u \<and> since \<le> dr_at r) (st_disks s)"
  have R: "R = set ?rows" by (auto simp: R_def)
  obtain r0 where "r0 \<in> set ?rows" using assms(1) by (metis R R_def last_in_set set_disk_rows)
  then have "last (sort_key dr_at ?rows) \<in> R \<and> (\<forall>q \<in> R. dr_at q \<le> dr_at (last (sort_key dr_at ?rows)))"
    using last_sort_key_latest [of _ ?rows dr_at] unfolding R by blast
  then have "\<exists>r \<in> R. td_free v = dr_free r \<and> td_total v = dr_total r \<and> td_mount v = dr_mount r \<and> (\<forall>q \<in> R. dr_at q \<le> dr_at r)"
    by (auto simp: assms(2) disk_trend_of_def disk_rows_def Let_def)
  moreover have "td_full_ok v \<longrightarrow> ft_ok (td_fit v) \<and> 0 < ft_rate (td_fit v)"
    by (auto simp: assms(2) disk_trend_of_def Let_def days_until_full_def split: if_splits)
  moreover have "daily_series dr_at (\<lambda>r. wrap64 (dr_total r - dr_free r)) (set (disk_rows since s u)) (td_buckets v)"
    using day_bucket_daily [of dr_at "\<lambda>r. wrap64 (dr_total r - dr_free r)" "disk_rows since s u"]
    by (simp add: assms(2) disk_trend_of_def Let_def used_samples_def)
  ultimately show ?thesis by (simp add: assms(2) disk_trend_of_def Let_def set_disk_rows R_def)
qed

text \<open>
  C17. When \<open>gatherTrends\<close> succeeds it has only read the store. It reports every cache target with a sample in
  the window exactly once and no other: the size it cites is that of a latest sample, and its series has one point
  per sampled day, in order, with the bytes of a latest sample of that day. A disk is reported the same way, with
  the free and total bytes of a latest sample and the used bytes as its series. Each growth rate is the fit of the very
  series reported, and a date of running full is given only for a fit that grows.
\<close>

theorem trends_exact:
  assumes "gather_trends now days s = (Some d, s')"
  defines "since \<equiv> window_start now days"
  shows "same_tables s s' \<and> distinct (map tc_target (tr_caches d)) \<and> distinct (map td_uuid (tr_disks d)) \<and>
    tc_target ` set (tr_caches d) = cr_target ` {r \<in> set (st_caches s). since \<le> cr_at r} \<and>
    td_uuid ` set (tr_disks d) = dr_uuid ` {r \<in> set (st_disks s). since \<le> dr_at r} \<and>
    (\<forall>c \<in> set (tr_caches d). let R = {r \<in> set (st_caches s). cr_target r = tc_target c \<and> since \<le> cr_at r} in
      (\<exists>r \<in> R. tc_now c = cr_bytes r \<and> (\<forall>q \<in> R. cr_at q \<le> cr_at r)) \<and>
      daily_series cr_at cr_bytes R (tc_buckets c) \<and> tc_fit c = linear_fit (tc_buckets c)) \<and>
    (\<forall>v \<in> set (tr_disks d). let R = {r \<in> set (st_disks s). dr_uuid r = td_uuid v \<and> since \<le> dr_at r} in
      (\<exists>r \<in> R. td_free v = dr_free r \<and> td_total v = dr_total r \<and> td_mount v = dr_mount r \<and> (\<forall>q \<in> R. dr_at q \<le> dr_at r)) \<and>
      daily_series dr_at (\<lambda>r. wrap64 (dr_total r - dr_free r)) R (td_buckets v) \<and> td_fit v = linear_fit (td_buckets v) \<and>
      (td_full_ok v \<longrightarrow> ft_ok (td_fit v) \<and> 0 < ft_rate (td_fit v)))"
proof -
  let ?cs = "filter (\<lambda>t. cache_rows since s t \<noteq> []) (sort_by bytes_le (remdups (map cr_target (st_caches s))))"
  let ?us = "filter (\<lambda>u. disk_rows since s u \<noteq> []) (sort_by bytes_le (remdups (map dr_uuid (st_disks s))))"
  note l = gather_trends_lists [OF assms(1), folded since_def]
  have c: "tr_caches d = map (\<lambda>t. cache_trend_of t (cache_rows since s t)) ?cs" and t: "same_tables s s'"
    and v: "tr_disks d = map (\<lambda>u. disk_trend_of u (disk_rows since s u)) ?us" using l by auto
  have nec: "cache_rows since s t \<noteq> [] \<longleftrightarrow> (\<exists>r \<in> set (st_caches s). cr_target r = t \<and> since \<le> cr_at r)" for t
    using set_cache_rows [of since s t] by (metis (mono_tags, lifting) empty_Collect_eq set_empty)
  have nev: "disk_rows since s u \<noteq> [] \<longleftrightarrow> (\<exists>r \<in> set (st_disks s). dr_uuid r = u \<and> since \<le> dr_at r)" for u
    using set_disk_rows [of since s u] by (metis (mono_tags, lifting) empty_Collect_eq set_empty)
  have "map tc_target (tr_caches d) = ?cs" "map td_uuid (tr_disks d) = ?us"
    by (simp_all add: c v cache_trend_of_def disk_trend_of_def Let_def comp_def)
  then have m: "distinct (map tc_target (tr_caches d))" "distinct (map td_uuid (tr_disks d))"
      "set (map tc_target (tr_caches d)) = cr_target ` {r \<in> set (st_caches s). since \<le> cr_at r}"
      "set (map td_uuid (tr_disks d)) = dr_uuid ` {r \<in> set (st_disks s). since \<le> dr_at r}"
    by (auto simp: distinct_sort_by set_sort_by nec nev) (metis (mono_tags, lifting) image_eqI mem_Collect_eq)+
  have one: "let R = {r \<in> set (st_caches s). cr_target r = tc_target x \<and> since \<le> cr_at r} in
      (\<exists>r \<in> R. tc_now x = cr_bytes r \<and> (\<forall>q \<in> R. cr_at q \<le> cr_at r)) \<and>
      daily_series cr_at cr_bytes R (tc_buckets x) \<and> tc_fit x = linear_fit (tc_buckets x)"
    if x: "x \<in> set (tr_caches d)" for x
  proof -
    obtain a where "cache_rows since s a \<noteq> []" "x = cache_trend_of a (cache_rows since s a)" using x by (auto simp: c)
    from cache_trend_latest [OF this] show ?thesis by (simp add: Let_def)
  qed
  have two: "let R = {r \<in> set (st_disks s). dr_uuid r = td_uuid x \<and> since \<le> dr_at r} in
      (\<exists>r \<in> R. td_free x = dr_free r \<and> td_total x = dr_total r \<and> td_mount x = dr_mount r \<and> (\<forall>q \<in> R. dr_at q \<le> dr_at r)) \<and>
      daily_series dr_at (\<lambda>r. wrap64 (dr_total r - dr_free r)) R (td_buckets x) \<and> td_fit x = linear_fit (td_buckets x) \<and>
      (td_full_ok x \<longrightarrow> ft_ok (td_fit x) \<and> 0 < ft_rate (td_fit x))"
    if x: "x \<in> set (tr_disks d)" for x
  proof -
    obtain a where "disk_rows since s a \<noteq> []" "x = disk_trend_of a (disk_rows since s a)" using x by (auto simp: v)
    from disk_trend_latest [OF this] show ?thesis by (auto simp: Let_def)
  qed
  show ?thesis by (intro conjI t m [simplified] ballI one two)
qed


definition demo_history :: store where
  "demo_history = (empty_store (\<lambda>n. False))\<lparr>
     st_caches := [\<lparr> cr_target = ''/c'', cr_bytes = 7, cr_at = 3 * day \<rparr>, \<lparr> cr_target = ''/c'', cr_bytes = 9, cr_at = 4 * day \<rparr>] \<rparr>"

lemma trends_exact_witness:
  "\<exists>d s'. gather_trends (5 * day) 30 demo_history = (Some d, s') \<and> tc_target ` set (tr_caches d) = {''/c''}"
proof -
  obtain x s' where x: "gather_trends (5 * day) 30 demo_history = (x, s')" by fastforce
  have "x \<noteq> None" using gather_trends_fails [of "5 * day" 30 demo_history s'] x by (auto simp: demo_history_def empty_store_def)
  then obtain d where g: "gather_trends (5 * day) 30 demo_history = (Some d, s')" using x by auto
  have "window_start (5 * day) 30 \<le> 3 * day" by (simp add: window_start_def wrap64_mod duration_defs)
  then have "cr_target ` {r \<in> set (st_caches demo_history). window_start (5 * day) 30 \<le> cr_at r} = {''/c''}"
    by (auto simp: demo_history_def image_iff intro!: exI [of _ "\<lparr> cr_target = ''/c'', cr_bytes = 7, cr_at = 3 * day \<rparr>"])
  then show ?thesis using trends_exact [OF g] g by (intro exI conjI) auto
qed

text \<open>A window of more than 106751 days wraps: it starts in the future and shows nothing.\<close>

lemma window_wraps: "now < window_start now 106752"
  by (simp add: window_start_def wrap64_mod hour_def minute_def second_def)

end
