(* ===== verification/CliStatus.thy ===== *)
theory CliStatus
  imports CliTrends Volumes Vmdisk Memory
begin

text \<open>
  The command \<open>status\<close> (\<open>internal/cli/status_cmd.go\<close>): the live posture of the disks, of the offload
  destination, of memory and of the guests, and what the daemon's store recorded, closed by a verdict. Its
  world has the file tree and the store. \<open>diskutil\<close>, \<open>statfs\<close>, the guard's commands, the memory tools, the
  detector of guests, the JSON encoder and the words of errors are in \<open>status_env\<close>. The detection of
  guests has no failing branch (\<open>Detect\<close> returns no error of its own).
\<close>

definition near_continuous :: int where "near_continuous = 100"

record offload_posture =
  op_configured :: bool
  op_dest :: path
  op_usable :: bool
  op_detail :: string

record status_data =
  sd_window :: int
  sd_total :: int
  sd_free :: int
  sd_fit :: fit
  sd_history :: int
  sd_full_in :: rat
  sd_full_ok :: bool
  sd_fallback :: "cache_trend list"
  sd_externals :: "volume list"
  sd_offload :: offload_posture
  sd_vm :: "vm list \<times> advice list"
  sd_batches :: int
  sd_near :: bool
  sd_memory :: "memory_snapshot option"
  sd_memory_note :: string
  sd_note :: string

subsection \<open>Words\<close>

definition append_note :: "string \<Rightarrow> string \<Rightarrow> string" where
  "append_note a b = (if a = [] then b else a @ ''; '' @ b)"

definition usable_volumes :: "volume list \<Rightarrow> volume list" where
  "usable_volumes vs = filter (\<lambda>v. vo_class v = VolumeUsable) vs"

definition headroom :: "volume list \<Rightarrow> int" where
  "headroom vs = fold (\<lambda>v n. wrap64 (n + vo_free v)) (usable_volumes vs) 0"

definition verdict_sentence :: "int \<Rightarrow> volume list \<Rightarrow> offload_posture \<Rightarrow> string" where
  "verdict_sentence tot vs off =
     (if usable_volumes vs = []
      then ''You are stuck on one small '' @ bytes_string tot @ '' disk '' @ em_dash @ '' no usable external headroom; space must come from cleanup, not offload.''
      else if op_configured off \<and> op_usable off
      then ''You have '' @ bytes_string (headroom vs) @ '' of usable external headroom and offload is configured and healthy '' @ em_dash @ '' offloading is cheaper than deleting.''
      else ''You have '' @ bytes_string (headroom vs) @ '' of usable external headroom '' @ em_dash @ '' configure [offload] to use it (`noo-noo offload scan` shows what would move).'')"

definition volume_verdict :: "volume \<Rightarrow> string" where
  "volume_verdict v = (case vo_class v of
     VolumeMediaRO \<Rightarrow> ''HARDWARE WRITE-LOCKED (media refuses writes) '' @ em_dash @ '' rescue-copy your data off it, then diagnose the hardware (SD lock switch / failing controller); no software fix can help a write-locked disk''
   | VolumeFSCorruptionRO \<Rightarrow> ''read-only from filesystem corruption '' @ em_dash @ '' back up its contents first, then repair (Disk Utility First Aid)''
   | VolumeUsable \<Rightarrow> ''usable '' @ em_dash @ '' '' @ bytes_string (vo_free v) @ '' free of '' @ bytes_string (vo_total v))"

definition offload_line :: "offload_posture \<Rightarrow> string" where
  "offload_line p = (if \<not> op_configured p then op_detail p else ''dest '' @ op_dest p @ '' '' @ em_dash @ '' '' @ op_detail p)"

subsection \<open>Gathering\<close>

record status_env =
  se_hist :: hist_env
  se_diskutil :: diskutil
  se_stop :: "nat \<Rightarrow> bool"
  se_guard :: vol_guard
  se_detector :: detector
  se_sysctl :: "string + string"
  se_vm_stat :: "string + string"
  se_top :: "string + string"
  se_statfs_err :: string
  se_list_err :: "list_err \<Rightarrow> string"
  se_vol_err :: "vol_err \<Rightarrow> string"

text \<open>The volume at the root gives the UUID of the internal disk, the others are external.\<close>

fun split_volumes :: "volume list \<Rightarrow> string \<Rightarrow> volume list \<Rightarrow> string \<times> volume list" where
  "split_volumes [] u ext = (u, ext)"
| "split_volumes (v # vs) u ext = (if vo_mount v = ''/'' then split_volumes vs (vo_uuid v) ext else split_volumes vs u (ext @ [v]))"

definition check_offload_posture :: "vol_guard \<Rightarrow> (vol_err \<Rightarrow> string) \<Rightarrow> offload_cfg \<Rightarrow> machine \<Rightarrow> offload_posture \<times> machine" where
  "check_offload_posture g txt oc m =
     (if oc_dest_root oc = [] \<or> oc_dest_uuid oc = []
      then (\<lparr> op_configured = False, op_dest = [], op_usable = False,
        op_detail = ''not configured '' @ em_dash @ '' set [offload] dest_root + dest_volume_uuid to enable relocation'' \<rparr>, m)
      else let p = \<lparr> op_configured = True, op_dest = oc_dest_root oc, op_usable = False, op_detail = [] \<rparr> in
        case check_dest g (oc_dest_root oc) (oc_dest_uuid oc) m of
          (Some x, m1) \<Rightarrow> (p\<lparr> op_detail := ''configured but UNUSABLE right now: '' @ txt x \<rparr>, m1)
        | (None, m1) \<Rightarrow> (p\<lparr> op_usable := True, op_detail := ''verified writable just now (UUID-pinned, live write-probe)'' \<rparr>, m1))"

definition fill_internal_trend :: "string \<Rightarrow> int \<Rightarrow> time \<Rightarrow> status_data \<Rightarrow> store \<Rightarrow> status_data option \<times> store" where
  "fill_internal_trend uuid avail since d = db_then (disk_space_series uuid since) (\<lambda>rows s.
     let b = day_bucket (used_samples rows); f = linear_fit b;
         full = (if ft_ok f then days_until_full avail (ft_rate f) else (sd_full_in d, sd_full_ok d)) in
     (Some (d\<lparr> sd_history := int (length b), sd_fit := f, sd_full_in := fst full, sd_full_ok := snd full \<rparr>), s))"

definition growers :: "cache_trend list \<Rightarrow> cache_trend list" where
  "growers cs = take 3 (filter (\<lambda>c. ft_ok (tc_fit c) \<and> 0 < ft_rate (tc_fit c)) cs)"

definition fill_cache_fallback :: "time \<Rightarrow> int \<Rightarrow> status_data \<Rightarrow> store \<Rightarrow> status_data option \<times> store" where
  "fill_cache_fallback now days d = db_then (gather_trends now days) (\<lambda>t s. (Some (d\<lparr> sd_fallback := growers (tr_caches t) \<rparr>), s))"

definition scan_timestamps :: "time \<Rightarrow> store \<Rightarrow> time list option \<times> store" where
  "scan_timestamps since =
     db_then (db_exec (\<lambda>s. (map cr_at (filter (\<lambda>r. since \<le> cr_at r) (st_caches s)), s))) (\<lambda>ts.
     db_then (db_exec (\<lambda>s. (map dr_at (filter (\<lambda>r. since \<le> dr_at r) (st_disks s)), s))) (\<lambda>us s. (Some (ts @ us), s)))"

text \<open>What the store adds to the live posture.\<close>

definition history_posture :: "time \<Rightarrow> int \<Rightarrow> string \<Rightarrow> int \<Rightarrow> status_data \<Rightarrow> store \<Rightarrow> status_data option \<times> store" where
  "history_posture now days uuid avail d =
     db_then (if uuid = [] then (\<lambda>s. (Some d, s)) else fill_internal_trend uuid avail (window_start now days) d) (\<lambda>d1.
     db_then (if ft_ok (sd_fit d1) then (\<lambda>s. (Some d1, s)) else fill_cache_fallback now days d1) (\<lambda>d2.
     db_then (scan_timestamps (now - 24 * hour)) (\<lambda>ts s.
       let n = batches ts (2 * minute) in (Some (d2\<lparr> sd_batches := n, sd_near := near_continuous \<le> n \<rparr>), s))))"

definition live_posture :: "status_env \<Rightarrow> int \<Rightarrow> int \<times> int \<Rightarrow> volume list \<Rightarrow> list_err option \<Rightarrow> offload_posture \<Rightarrow> status_data" where
  "live_posture e days cap vols lerr off =
     (let cfg = hs_config (se_hist e); mem = read_memory (se_sysctl e) (se_vm_stat e) (se_top e) in
      \<lparr> sd_window = days, sd_total = fst cap, sd_free = snd cap, sd_fit = \<lparr> ft_ok = False, ft_rate = 0, ft_window = 0, ft_points = 0 \<rparr>,
        sd_history = 0, sd_full_in = 0, sd_full_ok = False, sd_fallback = [], sd_externals = snd (split_volumes vols [] []),
        sd_offload = off, sd_vm = vm_report (se_detector e) (oc_dest_root (cf_offload cfg)), sd_batches = 0, sd_near = False,
        sd_memory = (case mem of Inl x \<Rightarrow> None | Inr m \<Rightarrow> Some m), sd_memory_note = (case mem of Inl x \<Rightarrow> x | Inr m \<Rightarrow> []),
        sd_note = (case lerr of None \<Rightarrow> [] | Some x \<Rightarrow> append_note [] (''volume inventory unavailable: '' @ se_list_err e x)) \<rparr>)"

definition gather_status :: "status_env \<Rightarrow> string \<Rightarrow> int \<Rightarrow> qworld \<Rightarrow> (string + status_data) \<times> qworld" where
  "gather_status e override days w =
     (let h = se_hist e; du = se_diskutil e in
      case on_rest (volume_capacity (dk_statfs du) ''/'') w of
        (None, w1) \<Rightarrow> (Inl (''statfs /: '' @ se_statfs_err e), w1)
      | (Some cap, w1) \<Rightarrow> (case on_rest (list_volumes du (se_stop e)) w1 of ((vols, lerr), w2) \<Rightarrow>
          (case on_rest (check_offload_posture (se_guard e) (se_vol_err e) (cf_offload (hs_config h))) w2 of (off, w3) \<Rightarrow>
            let d = live_posture e days cap vols lerr off in
            (case open_daemon_store h override of
               Inl x \<Rightarrow> (Inr (d\<lparr> sd_note := append_note (sd_note d) x \<rparr>), w3)
             | Inr p \<Rightarrow> (case on_store (history_posture (hs_now h) days (fst (split_volumes vols [] [])) (snd cap) d) w3 of
                 (None, w4) \<Rightarrow> (Inl (''read '' @ p @ '': '' @ hs_db_err h), w4)
               | (Some d1, w4) \<Rightarrow> (Inr d1, w4))))))"

subsection \<open>Rendering\<close>

definition used_pct :: "int \<Rightarrow> int \<Rightarrow> rat" where
  "used_pct tot avail = (if 0 < tot then fl (fl (100 * fl_int (wrap64 (tot - avail))) / fl_int tot) else 0)"

definition fill_lines :: "status_data \<Rightarrow> string" where
  "fill_lines d = (let f = sd_fit d; span = '' over the last '' @ itoa (ft_window f) @ '' days ('' @ itoa (ft_points f) @ '' day-samples)'' in
     if ft_ok f then
       (if 0 < ft_rate f then ''  filling at '' @ format_rate (ft_rate f) @ span @ '' '' @ arrow @ '' full in '' @ format_full_in (sd_full_in d) (sd_full_ok d) @ nl
        else ''  not filling: '' @ format_rate (ft_rate f) @ span @ nl)
     else ''  fill rate: '' @ insufficient_history (sd_history d) @ nl @
       concat (map (\<lambda>c. ''  known grower (cache history): '' @ tc_target c @ '' '' @ format_rate (ft_rate (tc_fit c)) @ '' over '' @
         itoa (ft_window (tc_fit c)) @ '' '' @ days_word (ft_window (tc_fit c)) @ nl) (sd_fallback d)))"

definition memory_lines :: "status_data \<Rightarrow> string" where
  "memory_lines d = (case sd_memory d of
     None \<Rightarrow> ''  unavailable: '' @ sd_memory_note d @ nl
   | Some m \<Rightarrow>
       ''  '' @ bytes_string (mm_physical m) @ '' physical; '' @
       (if 0 < mm_swap_total m
        then ''swap '' @ bytes_string (mm_swap_used m) @ '' used of '' @ bytes_string (mm_swap_total m) @ '' ('' @ percent (swap_fill m) @ '')''
        else ''no swap in use'') @
       ''; compressor holds '' @ bytes_string (mm_compressor m) @ '' ('' @ percent (compressor_share m) @ '' of RAM)'' @ nl @
       ''  verdict: '' @ verdict_line m @ nl @
       (if mm_top m = [] then [] else ''  top compressed: '' @ join_with '', ''
          (map (\<lambda>p. mp_command p @ '' (pid '' @ itoa (mp_pid p) @ '') '' @ bytes_string (mp_compressed p)) (mm_top m)) @ nl) @
       concat (map (\<lambda>n. ''  note: '' @ n @ nl) (mm_notes m)))"

definition render_status :: "status_data \<Rightarrow> string" where
  "render_status d =
     ''Internal disk /'' @ nl @
     ''  '' @ bytes_string (sd_total d) @ '' total, '' @ bytes_string (sd_free d) @ '' free ('' @ fmt_f0 (used_pct (sd_total d) (sd_free d)) @ ''% used)'' @ nl @
     fill_lines d @
     nl @ ''Memory'' @ nl @ memory_lines d @
     nl @ ''External volumes'' @ nl @
     (if sd_externals d = [] then ''  none mounted'' @ nl else []) @
     concat (map (\<lambda>v. ''  '' @ vo_mount v @ '' ('' @ bytes_string (vo_total v) @ '' total): '' @ volume_verdict v @ nl) (sd_externals d)) @
     nl @ ''Offload'' @ nl @ ''  '' @ offload_line (sd_offload d) @ nl @
     render_section (sd_vm d) @
     nl @ ''Pressure'' @ nl @
     (if sd_near d
      then ''  scan triggers fired ~'' @ itoa (sd_batches d) @ '' times in the last 24h '' @ em_dash @ '' this machine spends much of its day at the memory-pressure threshold (working as designed, but a posture worth knowing)'' @ nl
      else ''  '' @ itoa (sd_batches d) @ '' scan batch(es) in the last 24h '' @ em_dash @ '' quiet'' @ nl) @
     (if sd_note d = [] then [] else nl @ ''Note: '' @ sd_note d @ nl) @
     nl @ ''Verdict: '' @ verdict_sentence (sd_total d) (sd_externals d) (sd_offload d) @ nl"

subsection \<open>JSON\<close>

record vm_json =
  vj_kind :: string
  vj_name :: string
  vj_running :: bool
  vj_present :: bool
  vj_total :: int
  vj_used :: int
  vj_pct :: int
  vj_level :: string
  vj_advice :: string
  vj_command :: string

record volume_json =
  oj_mount :: path
  oj_uuid :: string
  oj_total :: int
  oj_free :: int
  oj_class :: string
  oj_verdict :: string

record memory_json =
  mj_snapshot :: memory_snapshot
  mj_share :: rat
  mj_verdict :: string
  mj_line :: string

record status_json =
  xj_total :: int
  xj_free :: int
  xj_fit_ok :: bool
  xj_rate :: rat
  xj_window :: int
  xj_history :: int
  xj_full_in :: rat
  xj_full_ok :: bool
  xj_externals :: "volume_json list"
  xj_offload :: offload_posture
  xj_vms :: "vm_json list"
  xj_batches :: int
  xj_near :: bool
  xj_memory :: "memory_json option"
  xj_note :: string
  xj_verdict :: string

fun level_name :: "advice_level \<Rightarrow> string" where
  "level_name AdviceGrow = ''grow''"
| "level_name AdviceRelocateThenGrow = ''relocate-then-grow''"
| "level_name AdviceBlocked = ''blocked''"

fun class_name :: "volume_class \<Rightarrow> string" where
  "class_name VolumeUsable = ''usable''"
| "class_name VolumeMediaRO = ''media-ro''"
| "class_name VolumeFSCorruptionRO = ''fs-corruption-ro''"

fun memory_name :: "memory_verdict \<Rightarrow> string" where
  "memory_name MemoryFine = ''fine''"
| "memory_name MemoryTight = ''tight''"
| "memory_name MemoryThrashing = ''thrashing''"

definition volume_json_of :: "volume \<Rightarrow> volume_json" where
  "volume_json_of v = \<lparr> oj_mount = vo_mount v, oj_uuid = vo_uuid v, oj_total = vo_total v, oj_free = vo_free v,
     oj_class = class_name (vo_class v), oj_verdict = volume_verdict v \<rparr>"

text \<open>The map of advices holds the last one of a key.\<close>

definition vm_json_of :: "advice list \<Rightarrow> vm \<Rightarrow> vm_json" where
  "vm_json_of advs v =
     (let u = vm_usage v;
          row = \<lparr> vj_kind = kind_name (vm_kind v), vj_name = vm_name v, vj_running = vm_running v, vj_present = us_present u,
            vj_total = us_total u, vj_used = us_used u, vj_pct = pct u, vj_level = [], vj_advice = [], vj_command = [] \<rparr> in
      case first_such (\<lambda>a. vm_key (ad_vm a) = vm_key v) (rev advs) of
        None \<Rightarrow> row
      | Some a \<Rightarrow> row\<lparr> vj_level := level_name (ad_level a), vj_advice := ad_headline a, vj_command := ad_command a \<rparr>)"

definition memory_json_of :: "memory_snapshot \<Rightarrow> memory_json" where
  "memory_json_of m = \<lparr> mj_snapshot = m, mj_share = compressor_share m, mj_verdict = memory_name (memory_verdict_of m),
     mj_line = verdict_line m \<rparr>"

definition status_json_of :: "status_data \<Rightarrow> status_json" where
  "status_json_of d = \<lparr> xj_total = sd_total d, xj_free = sd_free d, xj_fit_ok = ft_ok (sd_fit d), xj_rate = ft_rate (sd_fit d),
     xj_window = ft_window (sd_fit d), xj_history = sd_history d, xj_full_in = sd_full_in d, xj_full_ok = sd_full_ok d,
     xj_externals = map volume_json_of (sd_externals d), xj_offload = sd_offload d,
     xj_vms = map (vm_json_of (snd (sd_vm d))) (fst (sd_vm d)), xj_batches = sd_batches d, xj_near = sd_near d,
     xj_memory = map_option memory_json_of (sd_memory d), xj_note = append_note (sd_note d) (sd_memory_note d),
     xj_verdict = verdict_sentence (sd_total d) (sd_externals d) (sd_offload d) \<rparr>"

subsection \<open>The command\<close>

text \<open>\<open>enc\<close> is the JSON encoder and \<open>enc_err\<close> its error.\<close>

definition status_cmd :: "status_env \<Rightarrow> (status_json \<Rightarrow> string option) \<Rightarrow> string \<Rightarrow> string list \<Rightarrow> qworld cli \<Rightarrow> int option \<times> qworld cli" where
  "status_cmd e enc enc_err args c =
     (case hist_args ''status'' args of
        Inl None \<Rightarrow> (Some 2, c)
      | Inl (Some msg) \<Rightarrow> (Some 2, put_err (msg @ nl) c)
      | Inr (json, days, override) \<Rightarrow>
          (case on_world (gather_status e override days) c of
             (Inl x, c1) \<Rightarrow> (Some 1, put_err (x @ nl) c1)
           | (Inr d, c1) \<Rightarrow>
               if json then (case enc (status_json_of d) of
                   Some t \<Rightarrow> (Some 0, put (t @ nl) c1) | None \<Rightarrow> (Some 1, put_err (enc_err @ nl) c1))
               else (Some 0, put (render_status d) c1)))"


subsection \<open>What status changes and when it fails\<close>

definition quiet_diskutil :: "diskutil \<Rightarrow> bool" where
  "quiet_diskutil d \<longleftrightarrow> (\<forall>i n as. quiet (dk_run d i n as)) \<and> (\<forall>p. quiet (dk_statfs d p))"

lemma volume_capacity_fs: "quiet_diskutil d \<Longrightarrow> volume_capacity (dk_statfs d) p m = (r, m') \<Longrightarrow> mc_fs m' = mc_fs m"
  by (auto simp: volume_capacity_def quiet_diskutil_def quiet_def Let_def split: prod.splits option.splits) (metis snd_conv)+

lemma diskutil_json_fs: "quiet_diskutil d \<Longrightarrow> diskutil_json (dk_run d) as m = (r, m') \<Longrightarrow> mc_fs m' = mc_fs m"
  by (auto simp: diskutil_json_def quiet_diskutil_def quiet_def split: prod.splits option.splits) (metis snd_conv)+

lemma volume_at_fs: "quiet_diskutil d \<Longrightarrow> volume_at d p m = (r, m') \<Longrightarrow> mc_fs m' = mc_fs m"
  by (auto simp: volume_at_def Let_def dest!: diskutil_json_fs [rotated] volume_capacity_fs [rotated] split: prod.splits option.splits if_splits)

lemma volume_loop_fs: "quiet_diskutil d \<Longrightarrow> volume_loop d stop n ms boot out m = (r, m') \<Longrightarrow> mc_fs m' = mc_fs m"
proof (induction ms arbitrary: n boot out m)
  case (Cons p ms)
  then show ?case by (auto dest!: volume_at_fs [rotated] Cons.IH [rotated] split: prod.splits option.splits if_splits)
qed simp

lemma list_volumes_fs: "quiet_diskutil d \<Longrightarrow> list_volumes d stop m = (r, m') \<Longrightarrow> mc_fs m' = mc_fs m"
  by (auto simp: list_volumes_def simp del: volume_loop.simps
    dest!: diskutil_json_fs [rotated] volume_loop_fs [rotated] split: prod.splits option.splits)

lemma offload_posture_proven:
  assumes "quiet_guard_of g" "check_offload_posture g txt oc m = (p, m')"
  shows "probe_left g (oc_dest_root oc) (mc_fs m) (mc_fs m') \<and>
    (op_usable p \<longrightarrow> mc_fs m' = mc_fs m \<and> dest_proven g (oc_dest_root oc) (oc_dest_uuid oc) m m')"
proof (cases "oc_dest_root oc = [] \<or> oc_dest_uuid oc = []")
  case True
  then show ?thesis using assms by (auto simp: check_offload_posture_def probe_left_def)
next
  case False
  obtain r where r: "check_dest g (oc_dest_root oc) (oc_dest_uuid oc) m = (r, m')"
    and p: "op_usable p \<longleftrightarrow> r = None"
    using assms(2) False by (auto simp: check_offload_posture_def Let_def split: prod.splits option.splits)
  show ?thesis
    using check_dest_effect [OF assms(1) r] p by blast
qed

lemma history_posture_fails: "history_posture now days u avail d s = (None, s') \<Longrightarrow> \<exists>n. db_faults s n"
proof -
  have fill: "db_faults t' = db_faults t \<and> (x = None \<longrightarrow> (\<exists>n. db_faults t n))" if "fill_internal_trend u avail since d0 t = (x, t')" for since d0 t x t'
    using that unfolding fill_internal_trend_def
    by (elim db_thenE) (auto simp: Let_def same_tablesD dest: disks_q.reads disks_q.fails)
  have fall: "db_faults t' = db_faults t \<and> (x = None \<longrightarrow> (\<exists>n. db_faults t n))" if "fill_cache_fallback now days d0 t = (x, t')" for d0 t x t'
    using that unfolding fill_cache_fallback_def
    by (elim db_thenE) (auto simp: same_tablesD dest: gather_trends_lists gather_trends_fails)
  have scan: "\<exists>n. db_faults t n" if "scan_timestamps since t = (None, t')" for since t t'
    using that by (auto simp: scan_timestamps_def db_then_def db_exec_def Let_def split: if_splits)
  show "history_posture now days u avail d s = (None, s') \<Longrightarrow> \<exists>n. db_faults s n"
    unfolding history_posture_def
    by (elim db_thenE; auto simp: Let_def split: if_splits dest: scan) (metis fill fall scan)+
qed

lemma history_posture_reads:
  assumes "history_posture now days u avail d s = (r, s')"
  shows "same_tables s s' \<and> (\<forall>d'. r = Some d' \<longrightarrow> sd_offload d' = sd_offload d)"
proof -
  have fill: "same_tables t t' \<and> (\<forall>d'. x = Some d' \<longrightarrow> sd_offload d' = sd_offload d0)"
    if "fill_internal_trend u avail since d0 t = (x, t')" for since d0 t x t'
    using that unfolding fill_internal_trend_def by (elim db_thenE) (auto simp: Let_def dest!: disks_q.reads)
  have fall: "same_tables t t' \<and> (\<forall>d'. x = Some d' \<longrightarrow> sd_offload d' = sd_offload d0)"
    if "fill_cache_fallback now days d0 t = (x, t')" for d0 t x t'
    using that unfolding fill_cache_fallback_def by (elim db_thenE) (auto dest!: gather_trends_lists)
  have scan: "same_tables t t'" if "scan_timestamps since t = (x, t')" for since t x t'
    using that unfolding scan_timestamps_def by (elim db_thenE) (auto dest!: db_exec_read intro: same_tables_trans)
  show ?thesis
    using assms unfolding history_posture_def
    by (elim db_thenE; (auto simp: Let_def dest!: scan split: if_splits; (fastforce dest!: fill fall intro: same_tables_trans)?))
qed


text \<open>The live part of a gathering, and where it goes on with the store.\<close>

lemma gather_status_cases:
  assumes "gather_status e override days w = (r, w')"
  obtains (capacity) m1 where "volume_capacity (dk_statfs (se_diskutil e)) ''/'' (w_rest w) = (None, m1)"
      "r = Inl (''statfs /: '' @ se_statfs_err e)" "w' = w\<lparr> w_rest := m1 \<rparr>"
  | (live) cap m1 vols lerr m2 off m3 where
      "volume_capacity (dk_statfs (se_diskutil e)) ''/'' (w_rest w) = (Some cap, m1)"
      "list_volumes (se_diskutil e) (se_stop e) m1 = ((vols, lerr), m2)"
      "check_offload_posture (se_guard e) (se_vol_err e) (cf_offload (hs_config (se_hist e))) m2 = (off, m3)"
      "w_rest w' = m3" "op_usable off = (case r of Inl x \<Rightarrow> op_usable off | Inr d \<Rightarrow> op_usable (sd_offload d))"
      "same_tables (w_store w) (w_store w')"
      "\<And>x. r = Inl x \<Longrightarrow> (\<exists>p. open_daemon_store (se_hist e) override = Inr p) \<and> (\<exists>n. db_faults (w_store w) n)"
proof -
  obtain c m1 where c: "volume_capacity (dk_statfs (se_diskutil e)) ''/'' (w_rest w) = (c, m1)" by fastforce
  show thesis
  proof (cases c)
    case None
    show thesis by (rule capacity [OF c [unfolded None]]) (use assms None c in \<open>simp_all add: gather_status_def on_rest_def Let_def\<close>)
  next
    case (Some cap)
    obtain vols lerr m2 where l: "list_volumes (se_diskutil e) (se_stop e) m1 = ((vols, lerr), m2)" by (metis surj_pair)
    obtain off m3 where o: "check_offload_posture (se_guard e) (se_vol_err e) (cf_offload (hs_config (se_hist e))) m2 = (off, m3)" by fastforce
    let ?d = "live_posture e days cap vols lerr off"
    let ?u = "fst (split_volumes vols [] [])"
    have d: "sd_offload ?d = off" by (simp add: live_posture_def Let_def)
    show thesis
    proof (cases "open_daemon_store (se_hist e) override")
      case (Inl x)
      show thesis
        by (rule live [OF c [unfolded Some] l o]) (use assms Some c l o Inl d in \<open>auto simp: gather_status_def on_rest_def Let_def\<close>)
    next
      case (Inr p)
      obtain x s1 where h: "history_posture (hs_now (se_hist e)) days ?u (snd cap) ?d (w_store w) = (x, s1)" by fastforce
      note hr = history_posture_reads [OF h]
      show thesis
        by (rule live [OF c [unfolded Some] l o])
          (use assms Some c l o Inr d h hr history_posture_fails [of _ days ?u "snd cap" ?d "w_store w" s1] in
            \<open>auto simp: gather_status_def on_rest_def on_store_eq Let_def split: option.splits prod.splits\<close>)
    qed
  qed
qed

text \<open>
  C14. \<open>noo-noo status\<close> only reads: every table of the store is as it was, and so is the file tree, except for
  the file of a write probe that failed halfway. When it reports the offload destination as usable, this same
  call has proven it after listing the volumes: the destination is a directory, \<open>diskutil\<close> described the
  mount point it lies on with the pinned UUID and not read-only, and a file was written there and removed.
\<close>

theorem status_reads_and_proves:
  assumes "quiet_diskutil (se_diskutil e)" "quiet_guard_of (se_guard e)" "gather_status e override days w = (r, w')"
  defines "fs \<equiv> mc_fs (w_rest w)" and "oc \<equiv> cf_offload (hs_config (se_hist e))"
  shows "same_tables (w_store w) (w_store w') \<and> probe_left (se_guard e) (oc_dest_root oc) fs (mc_fs (w_rest w')) \<and>
    (\<forall>d. r = Inr d \<and> op_usable (sd_offload d) \<longrightarrow> mc_fs (w_rest w') = fs \<and>
      (\<exists>cap m1 vols m2. volume_capacity (dk_statfs (se_diskutil e)) ''/'' (w_rest w) = (Some cap, m1) \<and>
         list_volumes (se_diskutil e) (se_stop e) m1 = (vols, m2) \<and>
         dest_proven (se_guard e) (oc_dest_root oc) (oc_dest_uuid oc) m2 (w_rest w')))"
  using assms(3)
proof (cases rule: gather_status_cases)
  case (capacity m1)
  then show ?thesis using volume_capacity_fs [OF assms(1)] by (auto simp: fs_def probe_left_def)
next
  case (live cap m1 vols lerr m2 off m3)
  have "mc_fs m2 = fs"
    using volume_capacity_fs [OF assms(1) live(1)] list_volumes_fs [OF assms(1) live(2)] by (simp add: fs_def)
  then show ?thesis using offload_posture_proven [OF assms(2) live(3)] live(1,2,4-6) unfolding oc_def by auto
qed

definition demo_status :: "statfs option \<Rightarrow> status_env" where
  "demo_status a = \<lparr>
     se_hist = \<lparr> hs_now = 0, hs_config = (default_config ''/U'')\<lparr> cf_offload :=
         \<lparr> oc_dest_root = ''/v'', oc_dest_uuid = ''AB-1'', oc_auto_apply = False, oc_risk_ack = [] \<rparr> \<rparr>,
       hs_stat = (\<lambda>p. False), hs_open = (\<lambda>p. None), hs_db_err = [], hs_tab = id, hs_enc = (\<lambda>r. None), hs_enc_err = [] \<rparr>,
     se_diskutil = \<lparr> dk_run = (\<lambda>i n as m. (None, m)), dk_list = (\<lambda>s. None), dk_info = (\<lambda>s. None), dk_statfs = (\<lambda>p m. (a, m)) \<rparr>,
     se_stop = (\<lambda>n. False), se_guard = demo_guard, se_detector = demo_detector, se_sysctl = Inl [], se_vm_stat = Inl [], se_top = Inl [],
     se_statfs_err = [], se_list_err = (\<lambda>x. []), se_vol_err = (\<lambda>x. []) \<rparr>"

definition demo_qworld :: qworld where
  "demo_qworld = \<lparr> w_store = empty_store (\<lambda>n. False), w_clock = (\<lambda>n. 0), w_ticks = 0, w_rest = demo_volume \<rparr>"

lemma status_reads_and_proves_witness:
  "\<exists>d w' m. gather_status (demo_status (Some \<lparr> sf_blocks = 9, sf_bavail = 4, sf_bsize = 4096 \<rparr>)) [] 30 demo_qworld = (Inr d, w') \<and>
     op_usable (sd_offload d) \<and> mc_fs (w_rest w') = mc_fs demo_volume \<and> dest_proven demo_guard ''/v'' ''AB-1'' m (w_rest w')"
proof -
  let ?e = "demo_status (Some \<lparr> sf_blocks = 9, sf_bavail = 4, sf_bsize = 4096 \<rparr>)"
  have "fst (check_dest demo_guard ''/v'' ''AB-1'' demo_volume) = None" by code_simp
  then obtain m where c: "check_dest demo_guard ''/v'' ''AB-1'' demo_volume = (None, m)" by (metis prod.collapse)
  then obtain d w' where g: "gather_status ?e [] 30 demo_qworld = (Inr d, w')" and u: "op_usable (sd_offload d)"
    by (auto simp: gather_status_def demo_status_def demo_qworld_def on_rest_def volume_capacity_def list_volumes_def diskutil_json_def
      check_offload_posture_def open_daemon_store_def live_posture_def Let_def)
  have "quiet_diskutil (se_diskutil ?e)" "quiet_guard_of (se_guard ?e)"
    using demo_guard_quiet by (simp_all add: demo_status_def quiet_diskutil_def quiet_def)
  from status_reads_and_proves [OF this g] u
  have "mc_fs (w_rest w') = mc_fs demo_volume \<and> (\<exists>m. dest_proven demo_guard ''/v'' ''AB-1'' m (w_rest w'))"
    by (auto simp: demo_qworld_def demo_status_def)
  with g u show ?thesis by blast
qed

text \<open>
  C39. \<open>noo-noo status\<close> degrades instead of failing: it gives an error only when the internal disk itself cannot be
  measured, or when a daemon store is there, opens, and a statement on it fails. A missing store, a failing
  \<open>diskutil\<close>, an unusable destination or unreadable memory do not stop it.
\<close>

theorem status_degrades:
  assumes "gather_status e override days w = (Inl x, w')"
  shows "fst (volume_capacity (dk_statfs (se_diskutil e)) ''/'' (w_rest w)) = None \<or>
    ((\<exists>p. open_daemon_store (se_hist e) override = Inr p) \<and> (\<exists>n. db_faults (w_store w) n))"
  using assms by (cases rule: gather_status_cases) auto


lemma status_degrades_witness:
  "\<exists>x w'. gather_status (demo_status None) [] 30 demo_qworld = (Inl x, w') \<and>
     fst (volume_capacity (dk_statfs (se_diskutil (demo_status None))) ''/'' demo_volume) = None"
proof -
  obtain x w' where g: "gather_status (demo_status None) [] 30 demo_qworld = (Inl x, w')"
    by (simp add: gather_status_def demo_status_def on_rest_def volume_capacity_def Let_def)
  have "open_daemon_store (se_hist (demo_status None)) [] \<noteq> Inr p" for p
    by (simp add: open_daemon_store_def demo_status_def Let_def)
  with status_degrades [OF g] g show ?thesis by (auto simp: demo_qworld_def)
qed

end
