(* ===== verification/Ipc.thy ===== *)
theory Ipc
  imports Autoclean Store
begin

text \<open>
  The methods of \<open>internal/ipc\<close> the daemon serves: report, suggestions, clean, status, scan and
  auto-clean. The JSON-RPC transport is not modelled; a service whose store, scheduler or configuration
  may be missing takes an option. Errors are values of \<open>rpc_err\<close>.
\<close>

datatype rpc_err =
    RpcNoStore
  | RpcQuery string
  | RpcInvalidId int
  | RpcNotFound int
  | RpcEmptyPath
  | RpcAudit
  | RpcNoScheduler
  | RpcTick
  | RpcNoConfig
  | RpcNeedsAck
  | RpcStats
  | RpcSave

text \<open>One statement of a method, whose failure ends the method with the error.\<close>

definition db_try :: "rpc_err \<Rightarrow> (store \<Rightarrow> 'a option \<times> store) \<Rightarrow> ('a \<Rightarrow> store \<Rightarrow> (rpc_err + 'b) \<times> store) \<Rightarrow>
    store \<Rightarrow> (rpc_err + 'b) \<times> store" where
  "db_try e stmt k s = (case stmt s of (None, s1) \<Rightarrow> (Inl e, s1) | (Some x, s1) \<Rightarrow> k x s1)"

text \<open>A service without a store answers with an error.\<close>

definition with_store :: "(store \<Rightarrow> (rpc_err + 'b) \<times> store) \<Rightarrow> store option \<Rightarrow> (rpc_err + 'b) \<times> store option" where
  "with_store f so = (case so of None \<Rightarrow> (Inl RpcNoStore, None) | Some s \<Rightarrow> (case f s of (r, s1) \<Rightarrow> (r, Some s1)))"

subsection \<open>Socket path\<close>

definition socket_env :: "string \<Rightarrow> path \<Rightarrow> path" where
  "socket_env env home = (if env \<noteq> [] then env
     else join_path [home, ''Library'', ''Application Support'', ''noo-noo'', ''noo-noo.sock''])"

definition lock_path :: "path \<Rightarrow> path" where
  "lock_path sock = sock @ ''.lock''"

text \<open>\<open>readLockPID\<close>: the first 32 bytes of the lock file.\<close>

definition read_lock_pid :: "string \<Rightarrow> int" where
  "read_lock_pid content = (case parse_int (trim_space (take 32 content)) of None \<Rightarrow> 0 | Some pid \<Rightarrow> if pid \<le> 0 then 0 else pid)"

subsection \<open>Report and suggestions\<close>

definition parse_size_bytes :: "string \<Rightarrow> int" where
  "parse_size_bytes v = (if v = [] then 0
     else case parse_int v of Some n \<Rightarrow> n
     | None \<Rightarrow> (case parse_float v of Some f \<Rightarrow> i64_of_f64 f | None \<Rightarrow> 0))"

definition suggestion_from_stored :: "sg_row \<Rightarrow> suggestion" where
  "suggestion_from_stored r = \<lparr> sg_id = sr_id r, sg_module = sr_module r, sg_target = sr_target r, sg_reason = sr_reason r,
     sg_evidence = (\<lambda>k. map_option EvStr (sr_evidence r k)), sg_risk = sr_severity r,
     sg_size = parse_size_bytes (ev_get (sr_evidence r) ''size_bytes''), sg_created = sr_ts r \<rparr>"

record rpc_report =
  rr_generated :: time
  rr_actions :: "action_row list"
  rr_open :: "suggestion list"
  rr_idle :: "idle_row list"

definition recent_actions_limit :: int where "recent_actions_limit = 50"
definition recent_actions_window :: duration where "recent_actions_window = 30 * day"
definition idle_repo_min_days :: int where "idle_repo_min_days = 60"
definition idle_repo_min_bytes :: int where "idle_repo_min_bytes = 100 * 2 ^ 20"

definition report_full :: "time \<Rightarrow> store option \<Rightarrow> (rpc_err + rpc_report) \<times> store option" where
  "report_full tm = with_store
     (db_try (RpcQuery ''recent actions'') (list_actions (tm - recent_actions_window) recent_actions_limit) (\<lambda>acts.
      db_try (RpcQuery ''open suggestions'') list_open_suggestions (\<lambda>rows.
      db_try (RpcQuery ''idleness'') (list_idle_repos idle_repo_min_days idle_repo_min_bytes tm) (\<lambda>idle s.
        (Inr \<lparr> rr_generated = tm, rr_actions = acts, rr_open = map suggestion_from_stored rows, rr_idle = idle \<rparr>, s)))))"

definition suggestions_list :: "time \<Rightarrow> store option \<Rightarrow> (rpc_err + time \<times> suggestion list) \<times> store option" where
  "suggestions_list tm = with_store
     (db_try (RpcQuery ''list open suggestions'') list_open_suggestions (\<lambda>rows s. (Inr (tm, map suggestion_from_stored rows), s)))"

definition suggestions_dismiss :: "time \<Rightarrow> int \<Rightarrow> store option \<Rightarrow> (rpc_err + unit) \<times> store option" where
  "suggestions_dismiss tm i = with_store (\<lambda>s0.
     if i \<le> 0 then (Inl (RpcInvalidId i), s0)
     else db_try (RpcQuery ''dismiss: lookup'') list_open_suggestions (\<lambda>rows s1.
       if first_such (\<lambda>r. sr_id r = i) rows = None then (Inl (RpcNotFound i), s1)
       else db_try (RpcQuery ''dismiss'') (dismiss_suggestion i tm) (\<lambda>u s2. (Inr (), s2)) s1) s0)"

subsection \<open>Clean\<close>

record clean_target =
  ct_path :: path
  ct_bytes :: int

definition clean_action :: "time \<Rightarrow> string \<Rightarrow> clean_target \<Rightarrow> action_row" where
  "clean_action tm how t = \<lparr> ar_id = 0, ar_ts = tm, ar_module = ''ipc.clean'', ar_op = ''clean'', ar_target = ct_path t,
     ar_size = ct_bytes t, ar_evidence = (\<lambda>k. None), ar_outcome = how \<rparr>"

fun execute_loop :: "time \<Rightarrow> string \<Rightarrow> int \<Rightarrow> clean_target list \<Rightarrow> store \<Rightarrow> (rpc_err + int) \<times> store" where
  "execute_loop tm how n [] s = (Inr n, s)"
| "execute_loop tm how n (t # ts) s =
     (if ct_path t = [] then (Inl RpcEmptyPath, s)
      else db_try RpcAudit (record_action (clean_action tm how t)) (\<lambda>i. execute_loop tm how (wrap64 (n + ct_bytes t)) ts) s)"

definition clean_execute :: "time \<Rightarrow> clean_target list \<Rightarrow> bool \<Rightarrow> store option \<Rightarrow> (rpc_err + nat \<times> int) \<times> store option" where
  "clean_execute tm ts dry = with_store (\<lambda>s.
     case execute_loop tm (if dry then ''dry-run'' else ''accepted'') 0 ts s of
       (Inl e, s1) \<Rightarrow> (Inl e, s1) | (Inr n, s1) \<Rightarrow> (Inr (length ts, n), s1))"

subsection \<open>Daemon\<close>

record status_reply =
  sp_running :: bool
  sp_version :: string
  sp_uptime :: duration
  sp_pid :: int

definition daemon_status :: "string \<Rightarrow> int \<Rightarrow> time option \<Rightarrow> time \<Rightarrow> status_reply" where
  "daemon_status version pid started tm = \<lparr> sp_running = True, sp_version = version,
     sp_uptime = (case started of None \<Rightarrow> 0 | Some t \<Rightarrow> sub_time tm t), sp_pid = pid \<rparr>"

record trigger_reply =
  tp_ok :: bool
  tp_added :: int
  tp_ms :: int

text \<open>The scheduler runs one tick on the daemon's state \<open>'d\<close>.\<close>

definition trigger_scan :: "('d \<Rightarrow> (unit option \<times> int \<times> duration) \<times> 'd) option \<Rightarrow> 'd \<Rightarrow> (rpc_err option \<times> trigger_reply) \<times> 'd" where
  "trigger_scan sched d = (let refused = \<lparr> tp_ok = False, tp_added = 0, tp_ms = 0 \<rparr> in
     case sched of None \<Rightarrow> ((Some RpcNoScheduler, refused), d)
     | Some k \<Rightarrow> (case k d of
         ((None, added, dur), d1) \<Rightarrow> ((Some RpcTick, refused), d1)
       | ((Some _, added, dur), d1) \<Rightarrow> ((None, \<lparr> tp_ok = True, tp_added = added, tp_ms = dur div 1000000 \<rparr>), d1)))"

subsection \<open>Auto-clean\<close>

record ac_status =
  as_config :: ac_config
  as_deletions :: int
  as_freed :: int

definition autoclean_status :: "time \<Rightarrow> ac_config option \<Rightarrow> store option \<Rightarrow> (rpc_err + ac_status) \<times> store option" where
  "autoclean_status tm cfg so = (case cfg of None \<Rightarrow> (Inl RpcNoConfig, so)
     | Some c \<Rightarrow> (case so of None \<Rightarrow> (Inr \<lparr> as_config = c, as_deletions = 0, as_freed = 0 \<rparr>, None)
        | Some s \<Rightarrow> (case auto_clean_stats_since ((tm - 7 * 24 * hour) div second) s of
            (None, s1) \<Rightarrow> (Inl RpcStats, Some s1)
          | (Some (n, freed), s1) \<Rightarrow> (Inr \<lparr> as_config = c, as_deletions = n, as_freed = freed \<rparr>, Some s1))))"

text \<open>\<open>save\<close> persists the switched configuration, when there is one.\<close>

definition autoclean_toggle :: "(ac_config \<Rightarrow> bool) option \<Rightarrow> bool \<Rightarrow> string \<Rightarrow> ac_config option \<Rightarrow>
    (rpc_err + bool \<times> string) \<times> ac_config option" where
  "autoclean_toggle save enabled ack cfg = (case cfg of None \<Rightarrow> (Inl RpcNoConfig, None)
     | Some c \<Rightarrow>
        if enabled \<and> ack = [] then (Inl RpcNeedsAck, Some c)
        else let c1 = c\<lparr> ac_enabled := enabled \<rparr>; c2 = (if enabled then c1\<lparr> ac_risk_ack := ack \<rparr> else c1)
             in case save of
                  None \<Rightarrow> (Inr (ac_enabled c2, ac_risk_ack c2), Some c2)
                | Some f \<Rightarrow> if f c2 then (Inr (ac_enabled c2, ac_risk_ack c2), Some c2) else (Inl RpcSave, Some c2))"

subsection \<open>Properties\<close>

text \<open>The wire parses a stored size as the engine does.\<close>

lemma parse_size_bytes_engine: "parse_size_bytes v = ev_size (EvStr v)"
proof (cases "v = []")
  case True
  have "ev_size (EvStr []) = 0" by code_simp
  with True show ?thesis by (simp add: parse_size_bytes_def)
qed (simp add: parse_size_bytes_def)

lemma wire_size_engine:
  "sr_evidence r ''size_bytes'' = Some v \<Longrightarrow> suggestion_size (suggestion_from_stored r) = ev_size (EvStr v)"
  by (simp add: suggestion_size_def suggestion_from_stored_def ev_get_def parse_size_bytes_engine Let_def del: ev_size.simps)

text \<open>Switching never leaves auto-clean enabled without an acknowledgement, and a refused switch changes nothing.\<close>

definition acknowledged :: "ac_config \<Rightarrow> bool" where
  "acknowledged c \<longleftrightarrow> (ac_enabled c \<longrightarrow> ac_risk_ack c \<noteq> [])"

lemma toggle_acknowledged:
  "acknowledged c \<Longrightarrow> autoclean_toggle save e ack (Some c) = (r, Some c') \<Longrightarrow> acknowledged c'"
  by (auto simp: autoclean_toggle_def acknowledged_def Let_def split: if_splits option.splits)

text \<open>What the loop of a clean request records: the actions of the targets up to the first failure.\<close>

lemma execute_loop_rows:
  "execute_loop tm how n ts s = (r, s') \<Longrightarrow> \<exists>k \<le> length ts. \<exists>rows. st_actions s' = st_actions s @ rows \<and>
     map (\<lambda>a. a\<lparr> ar_id := 0 \<rparr>) rows = map (clean_action tm how) (take k ts) \<and>
     (case r of Inl e \<Rightarrow> k < length ts | Inr b \<Rightarrow> k = length ts)"
proof (induction ts arbitrary: n s)
  case (Cons t ts)
  show ?case
  proof (cases "ct_path t = []")
    case True
    with Cons.prems show ?thesis by (intro exI [of _ 0]) auto
  next
    case False
    obtain i s1 where rec: "record_action (clean_action tm how t) s = (i, s1)" by fastforce
    show ?thesis
    proof (cases i)
      case None
      then have "st_actions s1 = st_actions s" using rec
        by (auto simp: record_action_def db_exec_def Let_def split: if_splits)
      then show ?thesis using Cons.prems False rec None by (intro exI [of _ 0]) (auto simp: db_try_def)
    next
      case (Some j)
      then have s1: "st_actions s1 = st_actions s @ [(clean_action tm how t)\<lparr> ar_id := st_next_ar s \<rparr>]"
        using rec by (auto simp: record_action_def db_exec_def Let_def split: if_splits)
      have "execute_loop tm how (wrap64 (n + ct_bytes t)) ts s1 = (r, s')"
        using Cons.prems False rec Some by (simp add: db_try_def)
      from Cons.IH [OF this] obtain k rows where k: "k \<le> length ts" "st_actions s' = st_actions s1 @ rows"
          "map (\<lambda>a. a\<lparr> ar_id := 0 \<rparr>) rows = map (clean_action tm how) (take k ts)"
          "case r of Inl e \<Rightarrow> k < length ts | Inr b \<Rightarrow> k = length ts" by blast
      have row: "(clean_action tm how t)\<lparr> ar_id := 0 \<rparr> = clean_action tm how t" by (simp add: clean_action_def)
      show ?thesis
        using k by (intro exI [of _ "Suc k"] conjI exI [of _ "(clean_action tm how t)\<lparr> ar_id := st_next_ar s \<rparr> # rows"])
          (auto simp: s1 row split: sum.splits)
    qed
  qed
qed auto

end
