(* ===== verification/Menubar.thy ===== *)
theory Menubar
  imports CliOffload Ipc
begin

text \<open>
  The menu-bar companion: \<open>internal/menubar\<close> (menu, clicks, icon, poller) and the part of
  \<open>cmd/noo-noo-app\<close> that joins it to the daemon and to the Wails menus, with the settings panel's
  configuration file. Wails itself is not modelled: a menu is the tree of the calls that build it. A
  function that may panic gives an option.
\<close>

subsection \<open>The menu\<close>

record tray_sugg =
  ts_id :: int
  ts_module :: string
  ts_reason :: string
  ts_severity :: string
  ts_size :: int

record tray_status =
  ys_running :: bool
  ys_open :: int
  ys_suggs :: "tray_sugg list"

datatype menu_item = MenuItem (mi_id: string) (mi_label: string) (mi_tip: string) (mi_disabled: bool) (mi_separator: bool)
  (mi_sub: "menu_item list option")

definition menu_row :: "string \<Rightarrow> string \<Rightarrow> bool \<Rightarrow> menu_item" where
  "menu_row i l disabled = MenuItem i l [] disabled False None"

definition menu_separator :: menu_item where
  "menu_separator = MenuItem [] [] [] False True None"

definition badge_label :: "tray_status \<Rightarrow> string" where
  "badge_label st =
     (if \<not> ys_running st then ''Daemon: down''
      else ''Daemon: up '' @ middle_dot @
        (if ys_open st = 0 then '' idle'' else if ys_open st = 1 then '' 1 tip'' else '' '' @ itoa (ys_open st) @ '' tips''))"

text \<open>The unit of a size. The table has four units: a larger size indexes past its end.\<close>

function menu_scale :: "int \<Rightarrow> int \<Rightarrow> nat \<Rightarrow> int \<times> nat" where
  "menu_scale n d u = (if 1024 \<le> n then menu_scale (n div 1024) (wrap64 (d * 1024)) (Suc u) else (d, u))"
  by auto
termination by (relation "measure (\<lambda>(n, d, u). nat n)") auto

declare menu_scale.simps [simp del]

definition menu_bytes :: "int \<Rightarrow> string option" where
  "menu_bytes b =
     (if b < 1024 then Some (itoa b @ '' B'')
      else case menu_scale (b div 1024) 1024 0 of (d, u) \<Rightarrow>
        if u < 4 then Some (fmt_f1 (fl (fl_int b / fl_int d)) @ '' '' @ [''KMGT'' ! u] @ ''B'') else None)"

definition inline_max :: nat where "inline_max = 3"

fun inline_rows :: "tray_sugg list \<Rightarrow> menu_item list option" where
  "inline_rows [] = Some []"
| "inline_rows (s # ss) = (case menu_bytes (ts_size s) of None \<Rightarrow> None
     | Some b \<Rightarrow> map_option (Cons (menu_row (''sugg-'' @ itoa (ts_id s)) (ts_reason s @ '' '' @ middle_dot @ '' '' @ b) False)) (inline_rows ss))"

definition suggestions_submenu :: "tray_sugg list \<Rightarrow> menu_item list option" where
  "suggestions_submenu ss = map_option
     (\<lambda>rows. rows @ (if inline_max < length ss
        then [menu_row ''see-all'' (''See all '' @ itoa (int (length ss)) @ '' in CLI'' @ ellipsis) False] else []))
     (inline_rows (take inline_max ss))"

definition build_menu :: "tray_status \<Rightarrow> tray_sugg list \<Rightarrow> menu_item list option" where
  "build_menu st ss =
     (case (if ss = [] then Some [] else map_option (\<lambda>sub. [MenuItem ''suggestions'' ''Suggestions'' [] False False (Some sub)]) (suggestions_submenu ss)) of
        None \<Rightarrow> None
      | Some mid \<Rightarrow> Some ([menu_row ''status'' (badge_label st) True] @ mid @
          [menu_separator, menu_row ''scan-now'' ''Run Scan Now'' (\<not> ys_running st), menu_row ''settings'' (''Open Settings'' @ ellipsis) False,
           menu_separator, menu_row ''quit'' ''Quit Noo-Noo'' False]))"

subsection \<open>Clicks\<close>

datatype click = ScanNow | OpenSettings | Quit | OpenSuggestion int | Ignored

definition dispatch :: "string \<Rightarrow> click" where
  "dispatch i =
     (if i = ''scan-now'' then ScanNow else if i = ''settings'' then OpenSettings else if i = ''quit'' then Quit
      else case cut_prefix i ''sugg-'' of None \<Rightarrow> Ignored
        | Some r \<Rightarrow> (case parse_int r of None \<Rightarrow> Ignored | Some n \<Rightarrow> OpenSuggestion n))"

definition trigger_then_refresh :: "('w \<Rightarrow> bool \<times> 'w) \<Rightarrow> ('w \<Rightarrow> 'w) \<Rightarrow> 'w \<Rightarrow> 'w" where
  "trigger_then_refresh scan refresh w = (case scan w of (ok, w1) \<Rightarrow> if ok then refresh w1 else w1)"

text \<open>The Wails menu: separators, submenus, and items with the id whose click is dispatched, if any.\<close>

datatype wails_item = WailsSeparator | WailsSubmenu string "wails_item list" | WailsItem string string bool "string option"

fun append_item :: "menu_item \<Rightarrow> wails_item" where
  "append_item (MenuItem i l tip disabled sep sub) =
     (if sep then WailsSeparator
      else case sub of Some ms \<Rightarrow> WailsSubmenu l (map append_item ms)
        | None \<Rightarrow> WailsItem l tip (\<not> disabled) (if disabled \<or> i = [] then None else Some i))"

definition build_wails_menu :: "menu_item list option \<Rightarrow> wails_item list" where
  "build_wails_menu m = (case m of None \<Rightarrow> [] | Some its \<Rightarrow> map append_item its)"

text \<open>The handler of the application: what a click does to the window and to the process.\<close>

datatype ui_act = ShowWindow | FocusWindow | NewWindow | QuitApp

record app_ui =
  ui_window :: bool
  ui_acts :: "ui_act list"

definition handle_click :: "click \<Rightarrow> app_ui \<Rightarrow> app_ui" where
  "handle_click c u = (case c of
     OpenSettings \<Rightarrow> (if ui_window u then u\<lparr> ui_acts := ui_acts u @ [ShowWindow, FocusWindow] \<rparr>
       else u\<lparr> ui_window := True, ui_acts := ui_acts u @ [NewWindow] \<rparr>)
   | Quit \<Rightarrow> u\<lparr> ui_acts := ui_acts u @ [QuitApp] \<rparr>
   | _ \<Rightarrow> u)"

subsection \<open>Icon and tray\<close>

datatype tray_state = StateIdle | StateScanning | StateHasSuggestions

datatype icon_data = IconIdle | IconScanning | IconSuggest

definition for_state :: "tray_state \<Rightarrow> icon_data \<times> bool" where
  "for_state s = (case s of StateScanning \<Rightarrow> (IconScanning, True) | StateHasSuggestions \<Rightarrow> (IconSuggest, True) | StateIdle \<Rightarrow> (IconIdle, True))"

record tray =
  ty_title :: string
  ty_icon :: "icon_data \<times> bool"
  ty_menu :: "wails_item list"

definition refresh_tray :: "tray_status \<Rightarrow> tray option" where
  "refresh_tray st = map_option (\<lambda>m.
     \<lparr> ty_title = (if \<not> ys_running st then ''!'' else if 0 < ys_open st then itoa (ys_open st) else []),
       ty_icon = for_state (if ys_running st \<and> 0 < ys_open st then StateHasSuggestions else StateIdle),
       ty_menu = build_wails_menu (Some m) \<rparr>) (build_menu st (ys_suggs st))"

definition map_suggestions :: "suggestion list \<Rightarrow> tray_sugg list" where
  "map_suggestions = map (\<lambda>s. \<lparr> ts_id = sg_id s, ts_module = sg_module s, ts_reason = sg_reason s, ts_severity = sg_risk s, ts_size = sg_size s \<rparr>)"

text \<open>The status for the tray from the answers of the daemon; the second call may fail.\<close>

definition shim_status :: "'e + status_reply \<Rightarrow> 'e + suggestion list \<Rightarrow> 'e + tray_status" where
  "shim_status status suggs = (case status of Inl x \<Rightarrow> Inl x
     | Inr r \<Rightarrow> Inr (case suggs of
         Inl x \<Rightarrow> \<lparr> ys_running = sp_running r, ys_open = 0, ys_suggs = [] \<rparr>
       | Inr items \<Rightarrow> \<lparr> ys_running = sp_running r, ys_open = int (length items), ys_suggs = map_suggestions items \<rparr>))"

subsection \<open>The poller\<close>

record poller =
  pl_base :: duration
  pl_cap :: duration

definition new_poller :: "duration \<Rightarrow> poller" where
  "new_poller base = \<lparr> pl_base = base, pl_cap = 5 * minute \<rparr>"

definition next_interval :: "poller \<Rightarrow> bool \<Rightarrow> duration \<Rightarrow> duration" where
  "next_interval p ok i = (if ok then pl_base p else let j = wrap64 (i * 2) in if pl_cap p < j then pl_cap p else j)"

text \<open>The polls until the context ends, with the answers in turn: the updates and the waits after each.\<close>

fun poll_run :: "poller \<Rightarrow> ('e + 's) list \<Rightarrow> duration \<Rightarrow> 's list \<times> duration list" where
  "poll_run p [] i = ([], [])"
| "poll_run p (a # as) i = (let j = next_interval p (is_ok a) i in
     case poll_run p as j of (us, ws) \<Rightarrow> ((case a of Inl x \<Rightarrow> us | Inr s \<Rightarrow> s # us), j # ws))"

definition run_poller :: "poller \<Rightarrow> ('e + 's) list \<Rightarrow> 's list \<times> duration list" where
  "run_poller p as = poll_run p as (pl_base p)"

subsection \<open>The configuration file of the settings panel\<close>

text \<open>Files and their contents, the directories, and a stream of failures: a call that fails with \<open>n\<close> has
  written \<open>n\<close> bytes when it is a write.\<close>

record cfg_disk =
  cd_files :: "path \<Rightarrow> string option"
  cd_fails :: "nat \<Rightarrow> nat option"
  cd_calls :: nat
  cd_opened :: "path list"

datatype save_err = SaveMarshal | SaveMkdir | SaveWrite | SaveRename | SaveSeed | SaveOpen

definition cfg_call :: "cfg_disk \<Rightarrow> nat option \<times> cfg_disk" where
  "cfg_call d = (cd_fails d (cd_calls d), d\<lparr> cd_calls := Suc (cd_calls d) \<rparr>)"

definition cfg_mkdir :: "cfg_disk \<Rightarrow> bool \<times> cfg_disk" where
  "cfg_mkdir d = (case cfg_call d of (f, d1) \<Rightarrow> (f = None, d1))"

definition cfg_write :: "path \<Rightarrow> string \<Rightarrow> cfg_disk \<Rightarrow> bool \<times> cfg_disk" where
  "cfg_write p s d = (case cfg_call d of
     (None, d1) \<Rightarrow> (True, d1\<lparr> cd_files := (cd_files d1)(p \<mapsto> s) \<rparr>)
   | (Some 0, d1) \<Rightarrow> (False, d1)
   | (Some (Suc n), d1) \<Rightarrow> (False, d1\<lparr> cd_files := (cd_files d1)(p \<mapsto> take n s) \<rparr>))"

definition cfg_rename :: "path \<Rightarrow> path \<Rightarrow> cfg_disk \<Rightarrow> bool \<times> cfg_disk" where
  "cfg_rename p q d = (case cfg_call d of
     (None, d1) \<Rightarrow> (True, d1\<lparr> cd_files := (cd_files d1)(q := cd_files d1 p, p := None) \<rparr>)
   | (Some n, d1) \<Rightarrow> (False, d1))"

definition cfg_remove :: "path \<Rightarrow> cfg_disk \<Rightarrow> cfg_disk" where
  "cfg_remove p d = (case cfg_call d of (None, d1) \<Rightarrow> d1\<lparr> cd_files := (cd_files d1)(p := None) \<rparr> | (Some n, d1) \<Rightarrow> d1)"

text \<open>\<open>enc\<close> is the TOML encoder.\<close>

definition save_config :: "(config \<Rightarrow> string option) \<Rightarrow> path \<Rightarrow> config \<Rightarrow> cfg_disk \<Rightarrow> save_err option \<times> cfg_disk" where
  "save_config enc p c d = (case enc c of
     None \<Rightarrow> (Some SaveMarshal, d)
   | Some body \<Rightarrow> (case cfg_mkdir d of
       (False, d1) \<Rightarrow> (Some SaveMkdir, d1)
     | (True, d1) \<Rightarrow> (case cfg_write (p @ ''.tmp'') body d1 of
         (False, d2) \<Rightarrow> (Some SaveWrite, d2)
       | (True, d2) \<Rightarrow> (case cfg_rename (p @ ''.tmp'') p d2 of
           (False, d3) \<Rightarrow> (Some SaveRename, cfg_remove (p @ ''.tmp'') d3)
         | (True, d3) \<Rightarrow> (None, d3)))))"

definition open_config_in_editor :: "path \<Rightarrow> cfg_disk \<Rightarrow> save_err option \<times> cfg_disk" where
  "open_config_in_editor p d =
     (case (if cd_files d p \<noteq> None then (None, d)
            else case cfg_mkdir d of (False, d1) \<Rightarrow> (Some SaveMkdir, d1)
              | (True, d1) \<Rightarrow> (case cfg_write p (''# noo-noo config'' @ nl) d1 of (ok, d2) \<Rightarrow> (if ok then None else Some SaveSeed, d2))) of
        (Some x, d1) \<Rightarrow> (Some x, d1)
      | (None, d1) \<Rightarrow> (case cfg_call d1 of (None, d2) \<Rightarrow> (None, d2\<lparr> cd_opened := cd_opened d2 @ [p] \<rparr>) | (Some n, d2) \<Rightarrow> (Some SaveOpen, d2)))"

end
