(* ===== verification/MenubarProps.thy ===== *)
theory MenubarProps
  imports Menubar
begin

text \<open>
  What the menu-bar companion promises: the clicks the menu wires, when building it panics, the waits of
  the poller, and the atomic save of the configuration.
\<close>

subsection \<open>Clicks\<close>

fun wired :: "wails_item \<Rightarrow> string list" where
  "wired WailsSeparator = []"
| "wired (WailsSubmenu l ms) = concat (map wired ms)"
| "wired (WailsItem l tip on i) = (case i of None \<Rightarrow> [] | Some x \<Rightarrow> [x])"

lemma dispatch_fixed [simp]:
  "dispatch ''scan-now'' = ScanNow" "dispatch ''settings'' = OpenSettings" "dispatch ''quit'' = Quit" "dispatch ''see-all'' = Ignored"
  by code_simp+

lemma dispatch_sugg: "in_i64 n \<Longrightarrow> dispatch (''sugg-'' @ itoa n) = OpenSuggestion n"
proof -
  assume n: "in_i64 n"
  have "cut_prefix (''sugg-'' @ itoa n) ''sugg-'' = Some (itoa n)" by (simp add: cut_prefix_Some_iff)
  then show ?thesis using parse_int_itoa [OF n] by (simp add: dispatch_def)
qed

lemma wired_inline:
  "inline_rows ss = Some rows \<Longrightarrow> \<forall>s \<in> set ss. in_i64 (ts_id s) \<Longrightarrow>
     map dispatch (concat (map wired (map append_item rows))) = map (OpenSuggestion \<circ> ts_id) ss"
  by (induction ss arbitrary: rows) (auto simp: menu_row_def dispatch_sugg simp del: append.simps split: option.splits)

text \<open>
  The clicks wired into the Wails menu are, in order: one per shown suggestion, opening exactly the suggestion
  of its row, the trailer of a longer list (which does nothing), the scan when the daemon runs, the
  settings and the end. No disabled row and no separator can be clicked.
\<close>

lemma menu_clicks:
  assumes "build_menu st ss = Some m" "\<forall>s \<in> set ss. in_i64 (ts_id s)"
  shows "map dispatch (concat (map wired (build_wails_menu (Some m)))) =
    map (OpenSuggestion \<circ> ts_id) (take inline_max ss) @ (if inline_max < length ss then [Ignored] else []) @
    (if ys_running st then [ScanNow] else []) @ [OpenSettings, Quit]"
proof (cases "ss = []")
  case True
  then show ?thesis using assms(1)
    by (auto simp: build_menu_def build_wails_menu_def menu_row_def menu_separator_def inline_max_def)
next
  case False
  then obtain rows where r: "inline_rows (take inline_max ss) = Some rows"
    using assms(1) by (cases "inline_rows (take inline_max ss)") (auto simp: build_menu_def suggestions_submenu_def)
  have "\<forall>s \<in> set (take inline_max ss). in_i64 (ts_id s)" using assms(2) by (meson in_set_takeD)
  note w = wired_inline [OF r this]
  show ?thesis using assms(1) False r w
    by (auto simp: build_menu_def suggestions_submenu_def build_wails_menu_def menu_row_def menu_separator_def)
qed

lemma menu_clicks_witness:
  "\<exists>m. build_menu \<lparr> ys_running = True, ys_open = 1, ys_suggs = [] \<rparr>
      [\<lparr> ts_id = 7, ts_module = [], ts_reason = ''r'', ts_severity = [], ts_size = 5 \<rparr>] = Some m \<and>
     map dispatch (concat (map wired (build_wails_menu (Some m)))) = [OpenSuggestion 7, ScanNow, OpenSettings, Quit]"
proof -
  let ?st = "\<lparr> ys_running = True, ys_open = 1, ys_suggs = [] \<rparr>"
    and ?ss = "[\<lparr> ts_id = 7, ts_module = [], ts_reason = ''r'', ts_severity = [], ts_size = 5 \<rparr>]"
  obtain m where m: "build_menu ?st ?ss = Some m"
    by (simp add: build_menu_def suggestions_submenu_def inline_max_def menu_bytes_def)
  have "\<forall>s \<in> set ?ss. in_i64 (ts_id s)" by (simp add: in_i64_def max_i64_def min_i64_def)
  from menu_clicks [OF m this] m show ?thesis by (simp add: inline_max_def)
qed

subsection \<open>Panics\<close>

lemma menu_scale_mono: "u \<le> snd (menu_scale n d u)"
proof (induction n d u rule: menu_scale.induct)
  case (1 n d u)
  then show ?case by (subst menu_scale.simps) fastforce
qed

lemma menu_scale_unit: "0 \<le> n \<Longrightarrow> snd (menu_scale n d u) < u + k + 1 \<longleftrightarrow> n < 1024 ^ Suc k"
proof (induction n d u arbitrary: k rule: menu_scale.induct)
  case (1 n d u)
  show ?case
  proof (cases "1024 \<le> n")
    case True
    note ih = 1(1) [OF True, of "k - 1"]
    show ?thesis
    proof (cases k)
      case 0
      have "Suc u \<le> snd (menu_scale (n div 1024) (wrap64 (d * 1024)) (Suc u))" by (rule menu_scale_mono)
      then show ?thesis using True 0 by (subst menu_scale.simps) simp
    next
      case (Suc j)
      obtain P where "P = (1024::int) ^ Suc j" by blast
      moreover have "n div 1024 < P \<longleftrightarrow> n < 1024 * P" by linarith
      ultimately have "n div 1024 < 1024 ^ Suc j \<longleftrightarrow> n < 1024 ^ Suc (Suc j)" by (simp only: power_Suc)
      moreover have "snd (menu_scale n d u) = snd (menu_scale (n div 1024) (wrap64 (d * 1024)) (Suc u))"
        using True by (subst menu_scale.simps) simp
      ultimately show ?thesis using True Suc ih 1(2) by simp
    qed
  next
    case False
    have "(1024::int) \<le> 1024 ^ Suc k" by simp
    then have "n < 1024 ^ Suc k" using False by linarith
    then show ?thesis using False by (subst menu_scale.simps) simp
  qed
qed

lemma menu_bytes_panics: "in_i64 b \<Longrightarrow> menu_bytes b = None \<longleftrightarrow> 2 ^ 50 \<le> b"
proof -
  have "b < 1024 \<or> (snd (menu_scale (b div 1024) 1024 0) < 4 \<longleftrightarrow> b div 1024 < 1024 ^ 4)"
    using menu_scale_unit [of "b div 1024" 1024 0 3] by (cases "b < 1024") auto
  moreover have "b div 1024 < 1024 ^ 4 \<longleftrightarrow> b < 2 ^ 50" by simp linarith
  ultimately show ?thesis by (auto simp: menu_bytes_def split: prod.splits)
qed

text \<open>Building the menu panics exactly when one of the sizes shown is a pebibyte or more.\<close>

lemma build_panics:
  assumes "\<forall>s \<in> set ss. in_i64 (ts_size s)"
  shows "build_menu st ss = None \<longleftrightarrow> (\<exists>s \<in> set (take inline_max ss). 2 ^ 50 \<le> ts_size s)"
proof -
  have "inline_rows xs = None \<longleftrightarrow> (\<exists>s \<in> set xs. menu_bytes (ts_size s) = None)" for xs
    by (induction xs) (auto split: option.splits)
  then have "\<forall>s \<in> set xs. in_i64 (ts_size s) \<Longrightarrow> inline_rows xs = None \<longleftrightarrow> (\<exists>s \<in> set xs. 2 ^ 50 \<le> ts_size s)" for xs
    using menu_bytes_panics by blast
  then have "inline_rows (take inline_max ss) = None \<longleftrightarrow> (\<exists>s \<in> set (take inline_max ss). 2 ^ 50 \<le> ts_size s)"
    using assms by (meson in_set_takeD)
  then show ?thesis by (auto simp: build_menu_def suggestions_submenu_def split: option.splits)
qed

subsection \<open>A daemon that is down\<close>

text \<open>The badge of a stopped daemon is never shown: the daemon answers that it runs, and without an answer the
  poller does not update the tray.\<close>

lemma poll_run_updates: "set (fst (poll_run p as i)) \<subseteq> {st. Inr st \<in> set as}"
proof (induction as arbitrary: i)
  case (Cons a as)
  show ?case using Cons [of "next_interval p (is_ok a) i"]
    by (cases "poll_run p as (next_interval p (is_ok a) i)"; cases a) (auto simp: Let_def)
qed simp

lemma shim_running: "Inr st = shim_status (Inr (daemon_status v pid t n)) b \<Longrightarrow> ys_running st"
  by (cases b) (simp_all add: shim_status_def daemon_status_def)

lemma tray_never_down:
  assumes "\<forall>a \<in> set as. \<exists>x b. a = shim_status (Inl x) b \<or> (\<exists>v pid t n. a = shim_status (Inr (daemon_status v pid t n)) b)"
  shows "\<forall>st \<in> set (fst (poll_run p as i)). ys_running st"
proof
  fix st assume "st \<in> set (fst (poll_run p as i))"
  then have "Inr st \<in> set as" using poll_run_updates by fastforce
  from bspec [OF assms this] show "ys_running st" using shim_running by (fastforce simp: shim_status_def)
qed

subsection \<open>The poller\<close>

text \<open>The failures in a row that end at a poll.\<close>

fun fails_before :: "('e + 's) list \<Rightarrow> nat \<Rightarrow> nat" where
  "fails_before as 0 = 0"
| "fails_before as (Suc n) = (if is_ok (as ! n) then 0 else Suc (fails_before as n))"

lemma next_interval_power:
  assumes "0 < pl_base p" "pl_base p \<le> pl_cap p" "pl_cap p < 2 ^ 62"
  shows "next_interval p ok (min (pl_cap p) (pl_base p * 2 ^ k)) = (if ok then pl_base p else min (pl_cap p) (pl_base p * 2 ^ Suc k))"
proof -
  let ?i = "min (pl_cap p) (pl_base p * 2 ^ k)"
  have "0 < pl_base p * 2 ^ k" using assms(1) by simp
  then have i: "0 < ?i" "?i < 2 ^ 62" using assms by linarith+
  then have "wrap64 (?i * 2) = ?i * 2" by (intro wrap64_id) (simp add: in_i64_def max_i64_def min_i64_def)
  then show ?thesis using assms i by (auto simp: next_interval_def Let_def min_def)
qed

lemma poll_run_length: "length (snd (poll_run p as i)) = length as"
proof (induction as arbitrary: i)
  case (Cons a as)
  show ?case using Cons [of "next_interval p (is_ok a) i"]
    by (cases "poll_run p as (next_interval p (is_ok a) i)") (simp add: Let_def)
qed simp

lemma poll_run_nth:
  "n < length as \<Longrightarrow> snd (poll_run p as i) ! n = next_interval p (is_ok (as ! n)) (if n = 0 then i else snd (poll_run p as i) ! (n - 1))"
proof (induction as arbitrary: n i)
  case (Cons a as)
  obtain us ws where r: "poll_run p as (next_interval p (is_ok a) i) = (us, ws)" by fastforce
  show ?case
  proof (cases n)
    case 0
    then show ?thesis by (simp add: Let_def r)
  next
    case (Suc j)
    then show ?thesis using Cons.IH [of j "next_interval p (is_ok a) i"] Cons.prems by (cases j) (simp_all add: Let_def r)
  qed
qed simp

text \<open>
  After each poll the companion waits the base interval, doubled once for every failure in a row that the poll
  ends, and never longer than the cap: it waits at least the base, a success resets it, and the doubling
  does not overflow.
\<close>

lemma poller_backoff:
  assumes "0 < pl_base p" "pl_base p \<le> pl_cap p" "pl_cap p < 2 ^ 62" "n < length as"
  shows "length (snd (run_poller p as)) = length as \<and>
    snd (run_poller p as) ! n = min (pl_cap p) (pl_base p * 2 ^ fails_before as (Suc n))"
proof -
  have "snd (run_poller p as) ! n = min (pl_cap p) (pl_base p * 2 ^ fails_before as (Suc n))" using assms(4)
  proof (induction n)
    case 0
    have "min (pl_cap p) (pl_base p * 2 ^ 0) = pl_base p" using assms(2) by simp
    with next_interval_power [OF assms(1-3), of "is_ok (as ! 0)" 0]
    have "next_interval p (is_ok (as ! 0)) (pl_base p) = (if is_ok (as ! 0) then pl_base p else min (pl_cap p) (pl_base p * 2 ^ Suc 0))"
      by (simp only:)
    then show ?case using poll_run_nth [OF 0, of p "pl_base p"] assms(2) by (auto simp: run_poller_def)
  next
    case (Suc n)
    then have ih: "snd (poll_run p as (pl_base p)) ! n = min (pl_cap p) (pl_base p * 2 ^ fails_before as (Suc n))"
      by (simp add: run_poller_def)
    show ?case using poll_run_nth [OF Suc.prems, of p "pl_base p"] next_interval_power [OF assms(1-3), of "is_ok (as ! Suc n)" "fails_before as (Suc n)"] assms(1,2)
      unfolding run_poller_def by (simp only: ih diff_Suc_1 nat.distinct if_False fails_before.simps) simp
  qed
  then show ?thesis by (simp add: run_poller_def poll_run_length)
qed

lemma poller_backoff_witness:
  "snd (run_poller (new_poller (30 * second)) [Inl (), Inl (), Inr (), Inl ()]) ! 1 = 120 * second"
proof -
  have "0 < pl_base (new_poller (30 * second))" "pl_base (new_poller (30 * second)) \<le> pl_cap (new_poller (30 * second))"
    "pl_cap (new_poller (30 * second)) < 2 ^ 62" by (simp_all add: new_poller_def duration_defs)
  from poller_backoff [OF this, of 1 "[Inl (), Inl (), Inr (), Inl ()]"]
  show ?thesis by (simp add: new_poller_def duration_defs eval_nat_numeral)
qed

subsection \<open>Saving the configuration\<close>

lemma cfg_steps [simp]:
  "cd_files (snd (cfg_call d)) = cd_files d" "cd_files (snd (cfg_mkdir d)) = cd_files d"
  by (auto simp: cfg_call_def cfg_mkdir_def split: prod.splits)

lemma cfg_write_other: "cfg_write q s d = (ok, d1) \<Longrightarrow> (ok \<longrightarrow> cd_files d1 q = Some s) \<and> (p \<noteq> q \<longrightarrow> cd_files d1 p = cd_files d p)"
  by (auto simp: cfg_write_def cfg_call_def split: option.splits nat.splits)

lemma cfg_rename_files: "cfg_rename q p d = (ok, d1) \<Longrightarrow> p \<noteq> q \<Longrightarrow>
    (if ok then cd_files d1 p = cd_files d q \<and> cd_files d1 q = None else cd_files d1 = cd_files d)"
  by (auto simp: cfg_rename_def cfg_call_def split: option.splits)

lemma cfg_remove_other: "p \<noteq> q \<Longrightarrow> cd_files (cfg_remove q d) p = cd_files d p"
  by (auto simp: cfg_remove_def cfg_call_def split: option.splits)

text \<open>
  C15. Saving the settings is atomic: whatever call fails, and wherever a write breaks off, the configuration file
  has either its old contents or the whole new ones, and it has the new ones exactly when no error is
  reported. On success no temporary file is left.
\<close>

theorem save_config_atomic:
  assumes "save_config enc p c d = (r, d')"
  shows "(case r of Some x \<Rightarrow> cd_files d' p = cd_files d p
     | None \<Rightarrow> enc c \<noteq> None \<and> cd_files d' p = enc c \<and> cd_files d' (p @ ''.tmp'') = None)"
proof (cases "enc c")
  case None
  then show ?thesis using assms by (auto simp: save_config_def)
next
  case (Some body)
  let ?t = "p @ ''.tmp''"
  obtain ok d1 where m: "cfg_mkdir d = (ok, d1)" by fastforce
  obtain ok2 d2 where w: "cfg_write ?t body d1 = (ok2, d2)" by fastforce
  obtain ok3 d3 where n: "cfg_rename ?t p d2 = (ok3, d3)" by fastforce
  have "p \<noteq> ?t" by simp
  note f = cfg_write_other [OF w, of p] cfg_rename_files [OF n] cfg_remove_other [OF this, of d3]
  have "cd_files d1 = cd_files d" using cfg_steps(2) [of d] by (simp add: m)
  then show ?thesis using assms f by (auto simp: save_config_def Some m w n split: bool.splits if_splits)
qed

lemma save_config_atomic_witness:
  "let d = \<lparr> cd_files = [''/c'' \<mapsto> ''old''], cd_fails = (\<lambda>n. if n = 1 then Some 3 else None), cd_calls = 0, cd_opened = [] \<rparr>;
       (r, d') = save_config (\<lambda>c. Some ''fresh'') ''/c'' (default_config []) d in
   r = Some SaveWrite \<and> cd_files d' ''/c'' = Some ''old''"
proof -
  let ?d = "\<lparr> cd_files = [''/c'' \<mapsto> ''old''], cd_fails = (\<lambda>n. if n = 1 then Some 3 else None), cd_calls = 0, cd_opened = [] \<rparr>"
  obtain r d' where s: "save_config (\<lambda>c. Some ''fresh'') ''/c'' (default_config []) ?d = (r, d')" by fastforce
  have "r = Some SaveWrite" using s by (simp add: save_config_def cfg_mkdir_def cfg_write_def cfg_call_def split: nat.splits)
  with save_config_atomic [OF s] s show ?thesis by simp
qed

end
