(* ===== verification/Notify.thy ===== *)
theory Notify
  imports Menubar
begin

text \<open>
  What the program hands to macOS: the notification script (\<open>internal/notify/notify.go\<close>), the launch agent
  (\<open>internal/launchd\<close>) and the commands \<open>install\<close> and \<open>uninstall\<close> (\<open>internal/cli/install_cmd.go\<close>), over the
  files and failing calls of \<open>Menubar\<close>. osascript and launchctl are arguments.
\<close>

subsection \<open>Notifications\<close>

definition backslash :: char where "backslash = CHR 0x5C"
definition dquote :: char where "dquote = CHR 0x22"

definition replace_char :: "char \<Rightarrow> string \<Rightarrow> string \<Rightarrow> string" where
  "replace_char c t s = concat (map (\<lambda>d. if d = c then t else [d]) s)"

definition escape :: "string \<Rightarrow> string" where
  "escape s = replace_char dquote [backslash, dquote] (replace_char backslash [backslash, backslash] s)"

definition notify_script :: "string \<Rightarrow> string \<Rightarrow> string" where
  "notify_script title body = ''display notification '' @ [dquote] @ escape body @ [dquote] @
     '' with title '' @ [dquote] @ escape title @ [dquote]"

text \<open>\<open>run\<close> is the runner: the output, and the error if it failed. The deep link is not used.\<close>

definition notify_send :: "(string \<Rightarrow> string list \<Rightarrow> 'w \<Rightarrow> (string \<times> string option) \<times> 'w) \<Rightarrow> string \<Rightarrow> string \<Rightarrow> string \<Rightarrow> 'w \<Rightarrow>
    string option \<times> 'w" where
  "notify_send run title body link w = (case run ''osascript'' [''-e'', notify_script title body] w of
     ((out, Some e), w1) \<Rightarrow> (Some (''osascript: '' @ e), w1) | ((out, None), w1) \<Rightarrow> (None, w1))"

text \<open>How AppleScript reads a string literal, from behind its opening quote: the text, and what follows it.\<close>

fun read_literal :: "string \<Rightarrow> (string \<times> string) option" where
  "read_literal [] = None"
| "read_literal (c # s) =
     (if c = CHR 0x22 then Some ([], s)
      else if c = CHR 0x5C then
        (case s of [] \<Rightarrow> None
         | d # r \<Rightarrow>
             (case (if d = CHR 0x22 \<or> d = CHR 0x5C then Some d else if d = CHR ''n'' then Some (CHR 0x0A)
                    else if d = CHR ''r'' then Some (CHR 0x0D) else if d = CHR ''t'' then Some (CHR 0x09) else None) of
                None \<Rightarrow> None | Some x \<Rightarrow> map_option (map_prod (Cons x) id) (read_literal r)))
      else map_option (map_prod (Cons c) id) (read_literal s))"

definition read_display :: "string \<Rightarrow> (string \<times> string) option" where
  "read_display s = (case cut_prefix s (''display notification '' @ [dquote]) of None \<Rightarrow> None
     | Some r \<Rightarrow> (case read_literal r of None \<Rightarrow> None
        | Some (body, q) \<Rightarrow> (case cut_prefix q ('' with title '' @ [dquote]) of None \<Rightarrow> None
           | Some t \<Rightarrow> (case read_literal t of Some (title, []) \<Rightarrow> Some (body, title) | _ \<Rightarrow> None))))"

lemma escape_simps:
  "escape [] = []"
  "escape (c # s) = (if c = backslash then [backslash, backslash] else if c = dquote then [backslash, dquote] else [c]) @ escape s"
  by (simp_all add: escape_def replace_char_def backslash_def dquote_def)

lemma read_escape: "read_literal (escape s @ dquote # r) = Some (s, r)"
  by (induction s) (simp_all add: escape_simps backslash_def dquote_def)

text \<open>
  C16. No text can break out of a notification: whatever bytes the title and the body hold, the script reads back as
  one \<open>display notification\<close> of exactly this body with exactly this title, with nothing after it.
\<close>

theorem notify_roundtrip: "read_display (notify_script title body) = Some (body, title)"
proof -
  have "cut_prefix (notify_script title body) (''display notification '' @ [dquote]) =
      Some (escape body @ dquote # '' with title '' @ [dquote] @ escape title @ [dquote])"
    by (simp add: cut_prefix_Some_iff notify_script_def)
  moreover have "cut_prefix ('' with title '' @ [dquote] @ escape title @ [dquote]) ('' with title '' @ [dquote]) = Some (escape title @ [dquote])"
    by (simp add: cut_prefix_Some_iff)
  ultimately show ?thesis using read_escape [of title "[]"] by (simp add: read_display_def read_escape)
qed

subsection \<open>The launch agent\<close>

definition out_log_name :: string where "out_log_name = ''noo-nood.log''"
definition err_log_name :: string where "err_log_name = ''noo-nood.err.log''"

definition default_log_dir :: "path option \<Rightarrow> path \<Rightarrow> path" where
  "default_log_dir home tmp = (case home of None \<Rightarrow> join_path [tmp, ''noo-noo'']
     | Some h \<Rightarrow> if h = [] then join_path [tmp, ''noo-noo''] else join_path [h, ''Library'', ''Logs'', ''noo-noo''])"

definition bool_tag :: "bool \<Rightarrow> string" where
  "bool_tag b = (if b then ''true'' else ''false'')"

definition plist_tag :: "string \<Rightarrow> string \<Rightarrow> string" where
  "plist_tag n v = ''<'' @ n @ ''>'' @ v @ ''</'' @ n @ ''>''"

definition quoted :: "string \<Rightarrow> string" where
  "quoted s = [dquote] @ s @ [dquote]"

text \<open>The template is text, not XML: values are inserted as they are.\<close>

record plist_data =
  pl_label :: string
  pl_program :: path
  pl_args :: "string list"
  pl_at_load :: string
  pl_alive :: string
  pl_out :: path
  pl_err :: path

definition plist_text :: "plist_data \<Rightarrow> string" where
  "plist_text d =
     ''<?xml version='' @ quoted ''1.0'' @ '' encoding='' @ quoted ''UTF-8'' @ ''?>'' @ nl @
     ''<!DOCTYPE plist PUBLIC '' @ quoted ''-//Apple//DTD PLIST 1.0//EN'' @ '' '' @
       quoted ''http://www.apple.com/DTDs/PropertyList-1.0.dtd'' @ ''>'' @ nl @
     ''<plist version='' @ quoted ''1.0'' @ ''>'' @ nl @ ''<dict>'' @ nl @
     ''  '' @ plist_tag ''key'' ''Label'' @ nl @ ''  '' @ plist_tag ''string'' (pl_label d) @ nl @
     ''  '' @ plist_tag ''key'' ''ProgramArguments'' @ nl @ ''  <array>'' @ nl @
     ''    '' @ plist_tag ''string'' (pl_program d) @ concat (map (\<lambda>a. nl @ ''    '' @ plist_tag ''string'' a) (pl_args d)) @ nl @ ''  </array>'' @ nl @
     ''  '' @ plist_tag ''key'' ''RunAtLoad'' @ nl @ ''  <'' @ pl_at_load d @ ''/>'' @ nl @
     ''  '' @ plist_tag ''key'' ''KeepAlive'' @ nl @ ''  <'' @ pl_alive d @ ''/>'' @ nl @
     ''  '' @ plist_tag ''key'' ''ProcessType'' @ nl @ ''  '' @ plist_tag ''string'' ''Background'' @ nl @
     ''  '' @ plist_tag ''key'' ''LowPriorityBackgroundIO'' @ nl @ ''  <true/>'' @ nl @
     ''  '' @ plist_tag ''key'' ''Nice'' @ nl @ ''  '' @ plist_tag ''integer'' ''15'' @ nl @
     ''  '' @ plist_tag ''key'' ''StandardOutPath'' @ nl @ ''  '' @ plist_tag ''string'' (pl_out d) @ nl @
     ''  '' @ plist_tag ''key'' ''StandardErrorPath'' @ nl @ ''  '' @ plist_tag ''string'' (pl_err d) @ nl @
     ''</dict>'' @ nl @ ''</plist>'' @ nl"

definition generate_plist :: "string \<Rightarrow> path \<Rightarrow> string list \<Rightarrow> bool \<Rightarrow> bool \<Rightarrow> path \<Rightarrow> string" where
  "generate_plist label prog args at_load alive logs = plist_text
     \<lparr> pl_label = label, pl_program = prog, pl_args = args, pl_at_load = bool_tag at_load, pl_alive = bool_tag alive,
       pl_out = join_path [logs, out_log_name], pl_err = join_path [logs, err_log_name] \<rparr>"

subsection \<open>install and uninstall\<close>

type_synonym runner = "string \<Rightarrow> string list \<Rightarrow> cfg_disk \<Rightarrow> (string \<times> string option) \<times> cfg_disk"

definition launch_verb :: "runner \<Rightarrow> int \<Rightarrow> string \<Rightarrow> path \<Rightarrow> cfg_disk \<Rightarrow> string option \<times> cfg_disk" where
  "launch_verb run uid verb plist d = (case run ''launchctl'' [verb, ''gui/'' @ itoa uid, plist] d of
     ((out, Some e), d1) \<Rightarrow> (Some (''launchctl '' @ verb @ '': '' @ e @ '' ('' @ out @ '')''), d1) | ((out, None), d1) \<Rightarrow> (None, d1))"

definition launch_install :: "runner \<Rightarrow> int \<Rightarrow> path \<Rightarrow> cfg_disk \<Rightarrow> string option \<times> cfg_disk" where
  "launch_install run uid = launch_verb run uid ''bootstrap''"

definition launch_uninstall :: "runner \<Rightarrow> int \<Rightarrow> path \<Rightarrow> cfg_disk \<Rightarrow> string option \<times> cfg_disk" where
  "launch_uninstall run uid = launch_verb run uid ''bootout''"

definition agent_label :: string where "agent_label = ''io.noo-noo.d''"

record install_opts =
  io_agents :: path
  io_logs :: path
  io_program :: path
  io_run :: runner
  io_uid :: int
  io_home :: "path option"
  io_tmp :: path

definition default_daemon_path :: "path option \<Rightarrow> path" where
  "default_daemon_path exe = (case exe of None \<Rightarrow> ''/usr/local/bin/noo-nood'' | Some p \<Rightarrow> join_path [dir_path p, ''noo-nood''])"

datatype install_err = MkdirAgents | MkdirLogs | WritePlist | Bootstrap string | RemovePlist

definition plist_path :: "install_opts \<Rightarrow> path" where
  "plist_path o' = join_path [io_agents o', agent_label @ ''.plist'']"

definition log_dir :: "install_opts \<Rightarrow> path" where
  "log_dir o' = (if io_logs o' = [] then default_log_dir (io_home o') (io_tmp o') else io_logs o')"

definition agent_plist :: "install_opts \<Rightarrow> string" where
  "agent_plist o' = generate_plist agent_label (io_program o') [] True True (log_dir o')"

definition install_run :: "install_opts \<Rightarrow> cfg_disk \<Rightarrow> (install_err + string) \<times> cfg_disk" where
  "install_run o' d = (case cfg_mkdir d of
     (False, d1) \<Rightarrow> (Inl MkdirAgents, d1)
   | (True, d1) \<Rightarrow> (case cfg_mkdir d1 of
       (False, d2) \<Rightarrow> (Inl MkdirLogs, d2)
     | (True, d2) \<Rightarrow> (case cfg_write (plist_path o') (agent_plist o') d2 of
         (False, d3) \<Rightarrow> (Inl WritePlist, d3)
       | (True, d3) \<Rightarrow> (case launch_install (io_run o') (io_uid o') (plist_path o') d3 of
           (Some e, d4) \<Rightarrow> (Inl (Bootstrap e), d4)
         | (None, d4) \<Rightarrow> (Inr (''Installed '' @ plist_path o' @ ''. Daemon will start at login; logs in '' @ log_dir o' @ ''.'' @ nl), d4)))))"

text \<open>\<open>os.Remove\<close>: a file that is not there is not an error here.\<close>

definition unlink_plist :: "path \<Rightarrow> cfg_disk \<Rightarrow> bool \<times> cfg_disk" where
  "unlink_plist p d = (case cfg_call d of
     (None, d1) \<Rightarrow> (True, d1\<lparr> cd_files := (cd_files d1)(p := None) \<rparr>) | (Some n, d1) \<Rightarrow> (cd_files d1 p = None, d1))"

definition uninstall_run :: "install_opts \<Rightarrow> cfg_disk \<Rightarrow> (install_err + string) \<times> cfg_disk" where
  "uninstall_run o' d = (case launch_uninstall (io_run o') (io_uid o') (plist_path o') d of
     (ignored, d1) \<Rightarrow> (case unlink_plist (plist_path o') d1 of
       (False, d2) \<Rightarrow> (Inl RemovePlist, d2) | (True, d2) \<Rightarrow> (Inr (''Uninstalled '' @ agent_label @ ''.'' @ nl), d2)))"

text \<open>launchctl bootstraps only a plist that is on disk whole: runners that agree on such disks give the same
  installation.\<close>

lemma bootstrap_after_plist:
  assumes "\<forall>d verb. cd_files d (plist_path o') = Some (agent_plist o') \<longrightarrow>
      run ''launchctl'' [verb, ''gui/'' @ itoa (io_uid o'), plist_path o'] d = io_run o' ''launchctl'' [verb, ''gui/'' @ itoa (io_uid o'), plist_path o'] d"
  shows "install_run (o'\<lparr> io_run := run \<rparr>) d = install_run o' d"
proof -
  have p: "plist_path (o'\<lparr> io_run := run \<rparr>) = plist_path o'" "agent_plist (o'\<lparr> io_run := run \<rparr>) = agent_plist o'"
    "log_dir (o'\<lparr> io_run := run \<rparr>) = log_dir o'"
    by (simp_all add: plist_path_def agent_plist_def log_dir_def)
  have "launch_install run (io_uid o') (plist_path o') d3 = launch_install (io_run o') (io_uid o') (plist_path o') d3"
    if "cfg_write (plist_path o') (agent_plist o') d2 = (True, d3)" for d2 d3
  proof -
    have "cd_files d3 (plist_path o') = Some (agent_plist o')"
      using that by (auto simp: cfg_write_def cfg_call_def split: option.splits nat.splits)
    then show ?thesis using assms by (simp add: launch_install_def launch_verb_def)
  qed
  then show ?thesis unfolding install_run_def p
    by (auto split: prod.split bool.split)
qed

end
