(* ===== verification/MemoryOrder.thy ===== *)
theory MemoryOrder
  imports Memory FloatProps
begin

text \<open>
  The verdicts of \<open>internal/core/memory.go\<close> in their order, and that the verdict is monotone: rounding to
  \<open>float64\<close> keeps the order of the shares, so more swap or a fuller compressor never gives a milder verdict.
\<close>

subsection \<open>Rounding is monotone\<close>

lemma pow2_int: "0 \<le> e \<Longrightarrow> pow2 e = of_int (2 ^ nat e)"
  by (simp add: pow2_def)

lemma binade_mono: "0 < x \<Longrightarrow> x \<le> y \<Longrightarrow> binade x \<le> binade y"
proof (rule ccontr)
  assume x: "0 < x" "x \<le> y" and "\<not> binade x \<le> binade y"
  then have "pow2 (binade y + 1) \<le> pow2 (binade x)" by (intro pow2_mono) simp
  moreover have "pow2 (binade x) \<le> x" "y < pow2 (binade y + 1)" using binade_bounds x by (auto intro: less_le_trans)
  ultimately show False using x(2) by linarith
qed

lemma fl_pos_le:
  assumes "0 < x"
  shows "fl_pos x \<le> pow2 (max (binade x + 1) (- 1074))"
proof -
  let ?e = "max (binade x - 52) (- 1074)" and ?t = "max (binade x + 1) (- 1074)"
  have "x \<le> pow2 ?t"
    using binade_bounds [OF assms] pow2_mono [of "binade x + 1" ?t] by linarith
  moreover have t: "pow2 ?t = pow2 (?t - ?e) * pow2 ?e" using pow2_add [of "?t - ?e" ?e] by simp
  ultimately have "x / pow2 ?e \<le> pow2 (?t - ?e)" by (simp add: pos_divide_le_eq)
  moreover have "0 \<le> ?t - ?e" by simp
  ultimately have "x / pow2 ?e \<le> of_int (2 ^ nat (?t - ?e))" by (simp only: pow2_int)
  then have "round_even (x / pow2 ?e) \<le> 2 ^ nat (?t - ?e)" using round_even_mono round_even_int by metis
  then have "of_int (round_even (x / pow2 ?e)) \<le> pow2 (?t - ?e)" using pow2_int \<open>0 \<le> ?t - ?e\<close> by (metis of_int_le_iff)
  then have "of_int (round_even (x / pow2 ?e)) * pow2 ?e \<le> pow2 (?t - ?e) * pow2 ?e" by (intro mult_right_mono) (simp_all add: less_imp_le)
  then show ?thesis by (simp add: fl_pos_def Let_def t)
qed

lemma fl_pos_ge:
  assumes "0 < y" "- 1074 \<le> binade y - 52"
  shows "pow2 (binade y) \<le> fl_pos y"
proof -
  let ?e = "max (binade y - 52) (- 1074)"
  have e: "?e = binade y - 52" using assms(2) by simp
  have t: "pow2 (binade y) = pow2 52 * pow2 ?e" using pow2_add [of 52 ?e] e by simp
  then have "pow2 52 \<le> y / pow2 ?e" using binade_bounds [OF assms(1)] by (simp add: pos_le_divide_eq)
  then have "of_int (2 ^ 52) \<le> y / pow2 ?e" by (simp add: pow2_int)
  then have "2 ^ 52 \<le> round_even (y / pow2 ?e)" using round_even_mono round_even_int by metis
  then have "pow2 52 \<le> of_int (round_even (y / pow2 ?e))" using pow2_int [of 52] by (metis nat_numeral of_int_le_iff zero_le_numeral)
  then have "pow2 52 * pow2 ?e \<le> of_int (round_even (y / pow2 ?e)) * pow2 ?e" by (intro mult_right_mono) (simp_all add: less_imp_le)
  then show ?thesis by (simp add: fl_pos_def Let_def t)
qed

lemma fl_pos_mono:
  assumes "0 < x" "x \<le> y"
  shows "fl_pos x \<le> fl_pos y"
proof (cases "max (binade x - 52) (- 1074) = max (binade y - 52) (- 1074)")
  case True
  have "x / pow2 (max (binade y - 52) (- 1074)) \<le> y / pow2 (max (binade y - 52) (- 1074))"
    using assms(2) by (simp add: divide_right_mono less_imp_le)
  from round_even_mono [OF this] show ?thesis
    unfolding fl_pos_def Let_def True by (intro mult_right_mono) (simp_all add: less_imp_le)
next
  case False
  then have b: "- 1074 \<le> binade y - 52" "binade x + 1 \<le> binade y" using binade_mono [OF assms] by linarith+
  have "fl_pos x \<le> pow2 (max (binade x + 1) (- 1074))" by (rule fl_pos_le [OF assms(1)])
  also have "\<dots> \<le> pow2 (binade y)" using b by (intro pow2_mono) simp
  also have "\<dots> \<le> fl_pos y" using fl_pos_ge [OF _ b(1)] assms by simp
  finally show ?thesis .
qed

lemma fl_mono: "0 \<le> x \<Longrightarrow> x \<le> y \<Longrightarrow> fl x \<le> fl y"
  using fl_pos_mono [of x y] fl_nonneg [of y] by (cases "x = 0") (auto simp: fl_def)

lemma ratio_mono:
  assumes "0 \<le> a" "a \<le> b" "0 < d"
  shows "fl (fl_int a / fl_int d) \<le> fl (fl_int b / fl_int d)"
proof -
  have "0 \<le> fl_int a" "fl_int a \<le> fl_int b" using assms fl_mono [of "of_int a" "of_int b"] fl_nonneg by (auto simp: fl_int_def)
  moreover have "0 \<le> fl_int d" using assms fl_nonneg by (simp add: fl_int_def)
  ultimately show ?thesis by (intro fl_mono divide_right_mono divide_nonneg_nonneg)
qed

subsection \<open>The order of the verdicts\<close>

fun severity :: "memory_verdict \<Rightarrow> nat" where
  "severity MemoryFine = 0"
| "severity MemoryTight = 1"
| "severity MemoryThrashing = 2"

lemma severity_inject: "severity v = severity w \<longleftrightarrow> v = w"
  by (cases v; cases w) simp_all

instantiation memory_verdict :: linorder
begin

definition less_eq_memory_verdict :: "memory_verdict \<Rightarrow> memory_verdict \<Rightarrow> bool" where
  "v \<le> w \<longleftrightarrow> severity v \<le> severity w"

definition less_memory_verdict :: "memory_verdict \<Rightarrow> memory_verdict \<Rightarrow> bool" where
  "v < w \<longleftrightarrow> severity v < severity w"

instance
  by standard (auto simp: less_eq_memory_verdict_def less_memory_verdict_def severity_inject)

end

text \<open>The same machine under more pressure: the same memory and swap space, no less swap in use and no less in the compressor.\<close>

definition heavier :: "memory_snapshot \<Rightarrow> memory_snapshot \<Rightarrow> bool" where
  "heavier m m' \<longleftrightarrow> mm_physical m' = mm_physical m \<and> mm_swap_total m' = mm_swap_total m \<and>
     0 \<le> mm_swap_used m \<and> mm_swap_used m \<le> mm_swap_used m' \<and> 0 \<le> mm_compressor m \<and> mm_compressor m \<le> mm_compressor m'"

text \<open>
  C29. The memory verdict is monotone for a fixed swap space: on the same machine, with the same total of swap, more swap
  in use and more memory in the compressor never give a milder verdict, in the double precision arithmetic of
  the code, and each ratio it is built from grows as well.
\<close>

theorem memory_verdict_monotone:
  assumes "heavier m m'"
  shows "memory_verdict_of m \<le> memory_verdict_of m' \<and> swap_of_ram m \<le> swap_of_ram m' \<and>
    swap_fill m \<le> swap_fill m' \<and> compressor_share m \<le> compressor_share m'"
proof -
  have r: "swap_of_ram m \<le> swap_of_ram m'" "swap_fill m \<le> swap_fill m'" "compressor_share m \<le> compressor_share m'"
    using assms ratio_mono by (auto simp: heavier_def swap_of_ram_def swap_fill_def compressor_share_def)
  have "mm_physical m' = mm_physical m" using assms by (simp add: heavier_def)
  with r have "memory_verdict_of m \<le> memory_verdict_of m'"
    unfolding memory_verdict_of_def less_eq_memory_verdict_def by auto
  with r show ?thesis by blast
qed

lemma memory_verdict_monotone_witness:
  "memory_verdict_of (no_memory\<lparr> mm_physical := 16 * 2 ^ 30, mm_swap_total := 12 * 2 ^ 30, mm_swap_used := 5 * 2 ^ 30 \<rparr>) = MemoryTight \<and>
   MemoryTight \<le> memory_verdict_of (no_memory\<lparr> mm_physical := 16 * 2 ^ 30, mm_swap_total := 12 * 2 ^ 30, mm_swap_used := 11 * 2 ^ 30 \<rparr>)"
proof -
  let ?m = "\<lambda>u. no_memory\<lparr> mm_physical := 16 * 2 ^ 30, mm_swap_total := 12 * 2 ^ 30, mm_swap_used := u \<rparr>"
  have "heavier (?m (5 * 2 ^ 30)) (?m (11 * 2 ^ 30))" by (simp add: heavier_def no_memory_def)
  moreover have "memory_verdict_of (?m (5 * 2 ^ 30)) = MemoryTight" by code_simp
  ultimately show ?thesis using memory_verdict_monotone by metis
qed

text \<open>The total matters: when the system grows the swap space while more of it is used, the fill drops, and the verdict
  with it. On 8 GiB of memory, 5.5 of 6 GiB of swap is thrashing and 6 of 8 GiB is only tight.\<close>

lemma swap_growth_milder:
  "memory_verdict_of (no_memory\<lparr> mm_physical := 8 * 2 ^ 30, mm_swap_total := 6 * 2 ^ 30, mm_swap_used := 11 * 2 ^ 29 \<rparr>) = MemoryThrashing"
  "memory_verdict_of (no_memory\<lparr> mm_physical := 8 * 2 ^ 30, mm_swap_total := 8 * 2 ^ 30, mm_swap_used := 6 * 2 ^ 30 \<rparr>) = MemoryTight"
  by code_simp+

end
