(* ===== verification/Daemon.thy ===== *)
theory Daemon
  imports TickLimits
begin

text \<open>
  \<open>cmd/noo-nood/main.go\<close>: when ticks run. The scheduler's next firing time, with Go's \<open>time.Date\<close>
  in a location whose UTC offset may change; the two trigger lanes (the reserved daily one, the
  buffered pressure one) and their consumer as a step relation; the live auto-clean snapshot.
\<close>

subsection \<open>nextTickAt\<close>

text \<open>\<open>off t\<close> is the offset from UTC in force at the instant \<open>t\<close>. \<open>time.Date\<close> tries the offset found
  at the wall clock read as UTC, and takes the one at the resulting instant when they differ.\<close>

definition go_date :: "(time \<Rightarrow> duration) \<Rightarrow> time \<Rightarrow> time" where
  "go_date off wall = (let u = wall - off wall in if off u = off wall then u else wall - off u)"

definition local_midnight :: "(time \<Rightarrow> duration) \<Rightarrow> time \<Rightarrow> time" where
  "local_midnight off t = ((t + off t) div day) * day"

definition next_tick_at :: "(time \<Rightarrow> duration) \<Rightarrow> time \<Rightarrow> int \<Rightarrow> time" where
  "next_tick_at off t h =
     (let candidate = go_date off (local_midnight off t + h * hour)
      in if candidate \<le> t then candidate + 24 * hour else candidate)"

text \<open>
  Where the offset from UTC is fixed, the next scan is strictly in the future, at most a day away,
  at the configured local hour, and the first such instant.
\<close>

lemma next_tick_fixed_offset:
  assumes "\<And>t. off t = o1" "0 \<le> h" "h < 24"
  shows "t < next_tick_at off t h \<and> next_tick_at off t h \<le> t + day
    \<and> (next_tick_at off t h + o1) mod day = h * hour
    \<and> (\<forall>u. t < u \<longrightarrow> (u + o1) mod day = h * hour \<longrightarrow> next_tick_at off t h \<le> u)"
proof -
  define k where "k = (t + o1) div day"
  define r where "r = (t + o1) mod day"
  have dpos: "0 < day" by (simp add: duration_defs)
  have t: "t + o1 = k * day + r" "0 \<le> r" "r < day"
    using dpos by (simp_all add: k_def r_def)
  have hb: "0 \<le> h * hour" "h * hour < day" using assms(2,3) by (simp_all add: duration_defs)
  have next_tick: "next_tick_at off t h + o1 = (if h * hour \<le> r then (k + 1) * day + h * hour else k * day + h * hour)"
    using t by (auto simp: next_tick_at_def go_date_def local_midnight_def assms(1) Let_def k_def [symmetric]
        duration_defs algebra_simps)
  have m: "(next_tick_at off t h + o1) mod day = h * hour"
    using hb by (simp add: next_tick)
  have first: "next_tick_at off t h \<le> u" if u: "t < u" "(u + o1) mod day = h * hour" for u
  proof -
    define j where "j = (u + o1) div day"
    have uj: "u + o1 = j * day + h * hour" using u(2) by (simp add: j_def) (metis div_mult_mod_eq)
    have "k * day + r < j * day + h * hour" using u(1) t(1) uj by linarith
    then have "(k - j) * day < h * hour - r" by (simp add: algebra_simps)
    show ?thesis
    proof (cases "h * hour \<le> r")
      case True
      with \<open>(k - j) * day < h * hour - r\<close> have "(k - j) * day < 0" by linarith
      then have "k + 1 \<le> j" using dpos by (simp add: mult_less_0_iff)
      then have "(k + 1) * day \<le> j * day" using dpos by simp
      with next_tick True uj show ?thesis by simp
    next
      case False
      have "(k - j) * day < day" using \<open>(k - j) * day < h * hour - r\<close> hb t by linarith
      then have "k \<le> j" using dpos by simp
      then have "k * day \<le> j * day" using dpos by simp
      with next_tick False uj show ?thesis by simp
    qed
  qed
  have "(k + 1) * day = k * day + day" by (simp add: distrib_right)
  then have "t < next_tick_at off t h" "next_tick_at off t h \<le> t + day"
    using next_tick t hb by (auto split: if_splits)
  with m first show ?thesis by blast
qed

lemma next_tick_fixed_offset_witness:
  "5 * hour < next_tick_at (\<lambda>t. 2 * hour) (5 * hour) 3 \<and> next_tick_at (\<lambda>t. 2 * hour) (5 * hour) 3 \<le> 5 * hour + day"
  using next_tick_fixed_offset [of "\<lambda>t. 2 * hour" "2 * hour" 3 "5 * hour"] by simp

text \<open>A location that falls back an hour: offset +2 h until \<open>T = 49 h\<close> after the epoch (03:00 on the
  third local day), +1 h from then on.\<close>

definition fall_back :: "time \<Rightarrow> duration" where
  "fall_back t = (if t < 49 * hour then 2 * hour else 1 * hour)"

text \<open>
  Where clocks fall back, \<open>nextTickAt\<close> adds a fixed 24 hours to today's firing: with the scan hour
  at midnight, during the last local hour of the 25-hour day it returns an instant that is already
  past (so the timer fires at once, again and again); with the scan hour at 3, it fires at 02:00 and
  then again an hour later.
\<close>

lemma next_tick_dst:
  "next_tick_at fall_back (70 * hour + 30 * minute) 0 \<le> 70 * hour + 30 * minute
   \<and> (let t = 25 * hour; n = next_tick_at fall_back t 3; m = next_tick_at fall_back n 3 in
        (t + fall_back t) mod day = 3 * hour \<and> (n + fall_back n) mod day = 2 * hour \<and> m = n + hour)"
  by code_simp

subsection \<open>The trigger lanes and their consumer\<close>

text \<open>The daily lane (capacity 1), the pressure lane (capacity 4), the trigger the consumer has taken
  and not finished, whether its first, daily-only poll found nothing, and the triggers run so far.
  \<open>ln_passed\<close> counts the pressure ticks taken since the waiting daily one arrived.\<close>

record lanes =
  ln_daily :: nat
  ln_trig :: nat
  ln_taken :: "trigger option"
  ln_polled :: bool
  ln_ran :: "trigger list"
  ln_passed :: nat

definition empty_lanes :: lanes where
  "empty_lanes = \<lparr> ln_daily = 0, ln_trig = 0, ln_taken = None, ln_polled = False, ln_ran = [], ln_passed = 0 \<rparr>"

text \<open>A send on a full lane is dropped.\<close>

definition send_daily :: "lanes \<Rightarrow> lanes" where
  "send_daily l = (if ln_daily l < 1 then l\<lparr>ln_daily := ln_daily l + 1, ln_passed := 0\<rparr> else l)"

definition send_pressure :: "lanes \<Rightarrow> lanes" where
  "send_pressure l = (if ln_trig l < 4 then l\<lparr>ln_trig := ln_trig l + 1\<rparr> else l)"

definition take_daily :: "lanes \<Rightarrow> lanes" where
  "take_daily l = l\<lparr>ln_daily := ln_daily l - 1, ln_taken := Some TriggerDaily, ln_polled := False\<rparr>"

definition take_trig :: "lanes \<Rightarrow> lanes" where
  "take_trig l = l\<lparr>ln_trig := ln_trig l - 1, ln_taken := Some TriggerPressure, ln_polled := False,
     ln_passed := ln_passed l + 1\<rparr>"

text \<open>The consumer polls the daily lane without blocking; only when that finds nothing does it wait on
  both, and then takes whichever is ready. A taken trigger is run to its end before the next poll.\<close>

inductive lane_step :: "lanes \<Rightarrow> lanes \<Rightarrow> bool" where
  sched: "lane_step l (send_daily l)"
| press: "lane_step l (send_pressure l)"
| poll_hit: "ln_taken l = None \<Longrightarrow> \<not> ln_polled l \<Longrightarrow> 0 < ln_daily l \<Longrightarrow> lane_step l (take_daily l)"
| poll_miss: "ln_taken l = None \<Longrightarrow> \<not> ln_polled l \<Longrightarrow> ln_daily l = 0 \<Longrightarrow> lane_step l (l\<lparr>ln_polled := True\<rparr>)"
| select_daily: "ln_taken l = None \<Longrightarrow> ln_polled l \<Longrightarrow> 0 < ln_daily l \<Longrightarrow> lane_step l (take_daily l)"
| select_trig: "ln_taken l = None \<Longrightarrow> ln_polled l \<Longrightarrow> 0 < ln_trig l \<Longrightarrow> lane_step l (take_trig l)"
| run_end: "ln_taken l = Some t \<Longrightarrow> lane_step l (l\<lparr>ln_taken := None, ln_ran := ln_ran l @ [t]\<rparr>)"

inductive_cases lane_stepE: "lane_step l l'"

definition lanes_ok :: "lanes \<Rightarrow> bool" where
  "lanes_ok l \<longleftrightarrow> ln_daily l \<le> 1 \<and> ln_trig l \<le> 4
     \<and> (ln_taken l \<noteq> None \<longrightarrow> \<not> ln_polled l)
     \<and> (ln_daily l = 1 \<longrightarrow> ln_passed l \<le> 1 \<and> (ln_polled l \<longrightarrow> ln_passed l = 0))"

lemma lanes_ok_step: "lane_step l l' \<Longrightarrow> lanes_ok l \<Longrightarrow> lanes_ok l'"
  by (induction rule: lane_step.induct)
    (auto simp: lanes_ok_def send_daily_def send_pressure_def take_daily_def take_trig_def)

text \<open>
  C37. The daily tick is never starved or stacked: in every reachable state at most one daily and four
  pressure triggers wait, and once a daily trigger waits, the consumer takes at most one pressure
  tick before it, however fast pressure fires.
\<close>

theorem daily_never_starved:
  assumes "lane_step\<^sup>*\<^sup>* empty_lanes l"
  shows "ln_daily l \<le> 1 \<and> ln_trig l \<le> 4 \<and> (0 < ln_daily l \<longrightarrow> ln_passed l \<le> 1)"
proof -
  have "lanes_ok l"
    using assms
  proof (induction rule: rtranclp_induct)
    case base
    show ?case by (simp add: lanes_ok_def empty_lanes_def)
  next
    case (step y z)
    show ?case by (rule lanes_ok_step [OF step.hyps(2) step.IH])
  qed
  then show ?thesis by (auto simp: lanes_ok_def)
qed

definition lanes_run :: lanes where
  "lanes_run = take_trig (send_daily ((send_pressure empty_lanes)\<lparr>ln_polled := True\<rparr>))"

lemma lanes_run_reachable: "lane_step\<^sup>*\<^sup>* empty_lanes lanes_run"
proof -
  let ?l1 = "send_pressure empty_lanes"
  let ?l2 = "?l1\<lparr>ln_polled := True\<rparr>"
  have s: "lane_step empty_lanes ?l1" by (rule press)
  have p: "lane_step ?l1 ?l2" by (rule poll_miss) (simp_all add: send_pressure_def empty_lanes_def)
  have d: "lane_step ?l2 (send_daily ?l2)" by (rule sched)
  have t: "lane_step (send_daily ?l2) lanes_run" unfolding lanes_run_def
    by (rule select_trig) (simp_all add: send_pressure_def send_daily_def empty_lanes_def)
  note into = rtranclp.rtrancl_into_rtrancl [of lane_step]
  show ?thesis by (rule into [OF into [OF into [OF into [OF rtranclp.rtrancl_refl s] p] d] t])
qed

lemma daily_never_starved_witness: "ln_daily lanes_run = 1 \<and> ln_passed lanes_run \<le> 1"
  using daily_never_starved [OF lanes_run_reachable]
  by (simp add: lanes_run_def take_trig_def send_daily_def send_pressure_def empty_lanes_def)

subsection \<open>The live snapshot and the manual kick\<close>

definition auto_clean_config_from_cfg :: "auto_clean_cfg \<Rightarrow> ac_config" where
  "auto_clean_config_from_cfg c = \<lparr> ac_enabled = cc_enabled c, ac_modules = cc_modules c,
     ac_min_idle = cc_min_idle c, ac_min_size_mb = cc_min_size_mb c, ac_cap_gb = cc_cap_gb c,
     ac_risk_ack = cc_risk_ack c \<rparr>"

text \<open>\<open>TriggerNow\<close>: one manual tick, run to its end, then the new-suggestion count.\<close>

definition trigger_now :: "'x deps \<Rightarrow> config \<Rightarrow> daemon \<times> 'x world \<Rightarrow> int \<times> (daemon \<times> 'x world)" where
  "trigger_now dp cfg dw = (case run_tick dp cfg TriggerManual dw of (d, w) \<Rightarrow> (dm_last_new d, (d, w)))"

end
