(* ===== verification/NooNood.thy ===== *)
theory NooNood
  imports Daemon Ipc
begin

text \<open>
  The running daemon: \<open>Daemon.Run\<close> of \<open>cmd/noo-nood/main.go\<close> joins the ticks, the live auto-clean snapshot
  and the RPC services; \<open>internal/ipc/server.go\<close> registers the services and \<open>internal/ipc/client.go\<close> calls
  them. The transport may lose a request or an answer. One event at a time: a tick holds the tick lock and
  a request is answered by one method.
\<close>

subsection \<open>Requests\<close>

datatype rpc_req =
    ReqReport
  | ReqList
  | ReqDismiss int
  | ReqClean "clean_target list" bool
  | ReqStatus
  | ReqTrigger
  | ReqAutoClean
  | ReqToggle bool string

datatype rpc_reply =
    RepReport rpc_report
  | RepList time "suggestion list"
  | RepDone
  | RepClean nat int
  | RepStatus status_reply
  | RepTrigger trigger_reply
  | RepAutoClean ac_status
  | RepToggle bool string

definition service_of :: "rpc_req \<Rightarrow> string" where
  "service_of q = (case q of ReqReport \<Rightarrow> ''Report'' | ReqList \<Rightarrow> ''Suggestions'' | ReqDismiss i \<Rightarrow> ''Suggestions''
     | ReqClean ts dry \<Rightarrow> ''Clean'' | ReqStatus \<Rightarrow> ''Daemon'' | ReqTrigger \<Rightarrow> ''Daemon''
     | ReqAutoClean \<Rightarrow> ''AutoClean'' | ReqToggle b a \<Rightarrow> ''AutoClean'')"

text \<open>Which service objects the server was given; a missing one leaves its namespace out.\<close>

record handlers =
  hd_report :: bool
  hd_suggestions :: bool
  hd_clean :: bool
  hd_daemon :: bool
  hd_autoclean :: bool

definition registered :: "handlers \<Rightarrow> string list" where
  "registered h = (if hd_report h then [''Report''] else []) @ (if hd_suggestions h then [''Suggestions''] else []) @
     (if hd_clean h then [''Clean''] else []) @ (if hd_daemon h then [''Daemon''] else []) @
     (if hd_autoclean h then [''AutoClean''] else [])"

datatype call_err = CallNoService string | CallFailed rpc_err | CallLost

subsection \<open>The daemon\<close>

record 'x nood =
  nd_daemon :: daemon
  nd_ac :: ac_config
  nd_started :: time
  nd_world :: "'x world"

definition nood_version :: string where "nood_version = ''0.7.0''"

text \<open>\<open>Run\<close> up to the listening server: the start time and the snapshot of the loaded configuration.\<close>

definition nood_start :: "config \<Rightarrow> 'x world \<Rightarrow> 'x nood" where
  "nood_start cfg w = (case now_at w of (tm, w1) \<Rightarrow>
     \<lparr> nd_daemon = \<lparr> dm_first_seen = Map.empty, dm_last_new = 0 \<rparr>, nd_ac = auto_clean_config_from_cfg (cf_auto_clean cfg),
       nd_started = tm, nd_world = w1 \<rparr>)"

definition nood_handlers :: handlers where
  "nood_handlers = \<lparr> hd_report = True, hd_suggestions = True, hd_clean = True, hd_daemon = True, hd_autoclean = True \<rparr>"

text \<open>The tick reads its auto-clean configuration through \<open>autoCleanCfgFn\<close>, from the live snapshot.\<close>

definition live_deps :: "'x deps \<Rightarrow> 'x nood \<Rightarrow> 'x deps" where
  "live_deps dp nd = dp\<lparr> dp_ac_config := (\<lambda>cfg. nd_ac nd) \<rparr>"

definition nood_tick :: "'x deps \<Rightarrow> config \<Rightarrow> trigger \<Rightarrow> 'x nood \<Rightarrow> 'x nood" where
  "nood_tick dp cfg t nd = (case run_tick (live_deps dp nd) cfg t (nd_daemon nd, nd_world nd) of
     (d, w) \<Rightarrow> nd\<lparr> nd_daemon := d, nd_world := w \<rparr>)"

text \<open>\<open>manualKicker\<close>: one manual tick and how long it took.\<close>

definition kick :: "'x deps \<Rightarrow> config \<Rightarrow> 'x nood \<Rightarrow> (unit option \<times> int \<times> duration) \<times> 'x nood" where
  "kick dp cfg nd = (case now_at (nd_world nd) of (start, w1) \<Rightarrow>
     (case trigger_now (live_deps dp nd) cfg (nd_daemon nd, w1) of (n, (d, w2)) \<Rightarrow>
       (case now_at w2 of (stop, w3) \<Rightarrow>
         ((Some (), n, sub_time stop start), nd\<lparr> nd_daemon := d, nd_world := w3 \<rparr>))))"

text \<open>A method on the store of the daemon, at the time it is served.\<close>

definition serve_store :: "(time \<Rightarrow> store option \<Rightarrow> (rpc_err + 'b) \<times> store option) \<Rightarrow> ('b \<Rightarrow> rpc_reply) \<Rightarrow>
    'x nood \<Rightarrow> (call_err + rpc_reply) \<times> 'x nood" where
  "serve_store m rep nd = (case now_at (nd_world nd) of (tm, w) \<Rightarrow>
     (case m tm (Some (w_store w)) of (r, so) \<Rightarrow>
       ((case r of Inl e \<Rightarrow> Inl (CallFailed e) | Inr x \<Rightarrow> Inr (rep x)),
        nd\<lparr> nd_world := (case so of None \<Rightarrow> w | Some s \<Rightarrow> w\<lparr> w_store := s \<rparr>) \<rparr>)))"

definition serve :: "'x deps \<Rightarrow> config \<Rightarrow> int \<Rightarrow> handlers \<Rightarrow> rpc_req \<Rightarrow> 'x nood \<Rightarrow> (call_err + rpc_reply) \<times> 'x nood" where
  "serve dp cfg pid h q nd =
     (if service_of q \<notin> set (registered h) then (Inl (CallNoService (service_of q)), nd)
      else case q of
        ReqReport \<Rightarrow> serve_store report_full RepReport nd
      | ReqList \<Rightarrow> serve_store suggestions_list (\<lambda>(tm, its). RepList tm its) nd
      | ReqDismiss i \<Rightarrow> serve_store (\<lambda>tm. suggestions_dismiss tm i) (\<lambda>u. RepDone) nd
      | ReqClean ts dry \<Rightarrow> serve_store (\<lambda>tm. clean_execute tm ts dry) (\<lambda>(n, b). RepClean n b) nd
      | ReqStatus \<Rightarrow> (case now_at (nd_world nd) of (tm, w) \<Rightarrow>
          (Inr (RepStatus (daemon_status nood_version pid (Some (nd_started nd)) tm)), nd\<lparr> nd_world := w \<rparr>))
      | ReqTrigger \<Rightarrow> (case trigger_scan (Some (kick dp cfg)) nd of ((None, r), nd1) \<Rightarrow> (Inr (RepTrigger r), nd1)
          | ((Some e, r), nd1) \<Rightarrow> (Inl (CallFailed e), nd1))
      | ReqAutoClean \<Rightarrow> serve_store (\<lambda>tm. autoclean_status tm (Some (nd_ac nd))) RepAutoClean nd
      | ReqToggle b ack \<Rightarrow> (case autoclean_toggle None b ack (Some (nd_ac nd)) of (r, c) \<Rightarrow>
          ((case r of Inl e \<Rightarrow> Inl (CallFailed e) | Inr (en, a) \<Rightarrow> Inr (RepToggle en a)),
           nd\<lparr> nd_ac := (case c of None \<Rightarrow> nd_ac nd | Some c1 \<Rightarrow> c1) \<rparr>)))"

subsection \<open>Calls\<close>

text \<open>What becomes of a connection: nobody listens, the request is lost, the answer is lost, or neither.\<close>

datatype fate = Refused | LostRequest | LostReply | Answered

definition dial :: "fate \<Rightarrow> bool" where
  "dial f \<longleftrightarrow> f \<noteq> Refused"

definition rpc_call :: "(rpc_req \<Rightarrow> 'w \<Rightarrow> (call_err + rpc_reply) \<times> 'w) \<Rightarrow> fate \<Rightarrow> rpc_req \<Rightarrow> 'w \<Rightarrow> (call_err + rpc_reply) \<times> 'w" where
  "rpc_call srv f q w = (case f of
     Answered \<Rightarrow> srv q w
   | LostReply \<Rightarrow> (Inl CallLost, snd (srv q w))
   | _ \<Rightarrow> (Inl CallLost, w))"

subsection \<open>Process exit\<close>

datatype boot_err = BootConfig | BootMkdir | BootStore | BootRunning | BootListen

text \<open>\<open>main\<close>: the first step that fails, and the exit code; without one the daemon runs until the signal.\<close>

definition nood_main :: "bool \<Rightarrow> bool \<Rightarrow> bool \<Rightarrow> boot_err option \<Rightarrow> boot_err option \<times> int" where
  "nood_main loaded made opened start =
     (if \<not> loaded then (Some BootConfig, 1) else if \<not> made then (Some BootMkdir, 1)
      else if \<not> opened then (Some BootStore, 1)
      else case start of None \<Rightarrow> (None, 0) | Some e \<Rightarrow> (Some e, 1))"

subsection \<open>The snapshot\<close>

text \<open>The requests that can switch auto-clean on.\<close>

definition switches_on :: "rpc_req \<Rightarrow> bool" where
  "switches_on q \<longleftrightarrow> (case q of ReqToggle b ack \<Rightarrow> b \<and> ack \<noteq> [] | _ \<Rightarrow> False)"

lemma nood_tick_ac [simp]: "nd_ac (nood_tick dp cfg t nd) = nd_ac nd"
  by (simp add: nood_tick_def split: prod.split)

lemma kick_ac: "nd_ac (snd (kick dp cfg nd)) = nd_ac nd"
  by (simp add: kick_def split: prod.split)

lemma serve_store_ac [simp]: "nd_ac (snd (serve_store m rep nd)) = nd_ac nd"
  by (simp add: serve_store_def split: prod.split)

lemma trigger_scan_state: "snd (trigger_scan (Some k) d) = snd (k d)"
  by (auto simp: trigger_scan_def split: prod.split option.split)

lemma serve_ac:
  assumes "\<not> switches_on q"
  shows "ac_enabled (nd_ac (snd (serve dp cfg pid h q nd))) \<longrightarrow> ac_enabled (nd_ac nd)"
proof (cases "service_of q \<in> set (registered h)")
  case True
  then show ?thesis
  proof (cases q)
    case ReqTrigger
    then show ?thesis using True kick_ac [of dp cfg nd] trigger_scan_state [of "kick dp cfg" nd]
      by (cases "trigger_scan (Some (kick dp cfg)) nd") (auto simp: serve_def split: option.split prod.split)
  next
    case (ReqToggle b ack)
    then show ?thesis using True assms
      by (auto simp: serve_def switches_on_def autoclean_toggle_def Let_def)
  qed (auto simp: serve_def split: prod.split)
qed (simp add: serve_def)

lemma rpc_call_ac:
  assumes "\<not> switches_on q"
  shows "ac_enabled (nd_ac (snd (rpc_call (serve dp cfg pid h) f q nd))) \<longrightarrow> ac_enabled (nd_ac nd)"
  using serve_ac [OF assms, of dp cfg pid h nd] by (cases f) (auto simp: rpc_call_def)

subsection \<open>Deleters\<close>

lemma live_deps_same: "same_but_deleters dp dp' \<Longrightarrow> same_but_deleters (live_deps dp nd) (live_deps dp' nd)"
proof -
  assume "same_but_deleters dp dp'"
  then obtain d l x where "dp' = dp\<lparr>dp_dev_delete := d, dp_leak_delete := l, dp_wt_delete := x\<rparr>"
    by (auto simp: same_but_deleters_def)
  then have "live_deps dp' nd = (live_deps dp nd)\<lparr>dp_dev_delete := d, dp_leak_delete := l, dp_wt_delete := x\<rparr>"
    by (simp add: live_deps_def)
  then show ?thesis unfolding same_but_deleters_def by blast
qed

lemma disabled_no_delete: "\<not> ac_enabled (nd_ac nd) \<Longrightarrow> \<not> tick_may_delete (live_deps dp nd) cfg t m p v"
  by (simp add: tick_may_delete_def live_deps_def)

lemma disabled_tick:
  assumes "same_but_deleters dp dp'" "\<not> ac_enabled (nd_ac nd)"
  shows "run_tick (live_deps dp' nd) cfg t dw = run_tick (live_deps dp nd) cfg t dw"
  by (rule run_tick_agree [OF live_deps_same [OF assms(1)]]) (use disabled_no_delete [OF assms(2)] in blast)

lemma disabled_nood_tick:
  "same_but_deleters dp dp' \<Longrightarrow> \<not> ac_enabled (nd_ac nd) \<Longrightarrow> nood_tick dp' cfg t nd = nood_tick dp cfg t nd"
  by (simp add: nood_tick_def disabled_tick)

lemma disabled_serve:
  assumes "same_but_deleters dp dp'" "\<not> ac_enabled (nd_ac nd)"
  shows "serve dp' cfg pid h q nd = serve dp cfg pid h q nd"
proof -
  have "kick dp' cfg nd = kick dp cfg nd" by (simp add: kick_def trigger_now_def disabled_tick [OF assms])
  then have "trigger_scan (Some (kick dp' cfg)) nd = trigger_scan (Some (kick dp cfg)) nd"
    by (simp add: trigger_scan_def)
  then show ?thesis unfolding serve_def by (simp only:)
qed

lemma disabled_call:
  "same_but_deleters dp dp' \<Longrightarrow> \<not> ac_enabled (nd_ac nd) \<Longrightarrow>
     rpc_call (serve dp' cfg pid h) f q nd = rpc_call (serve dp cfg pid h) f q nd"
  by (cases f) (simp_all add: rpc_call_def disabled_serve)

end
