(* ===== verification/CliDaemon.thy ===== *)
theory CliDaemon
  imports NooNood CliTrends
begin

text \<open>
  The commands that talk to the daemon: \<open>internal/cli/autoclean_cmd.go\<close>, \<open>suggestions_cmd.go\<close> and
  \<open>daemon_cmd.go\<close>. A command is written against the client it is given, as in the code: a dial that may
  fail and one call. The tab writer, the error texts of the server and launchctl are arguments. A
  command ends with an error text or none.
\<close>

subsection \<open>The client\<close>

record 'w rpc_client =
  rc_dial :: "'w \<Rightarrow> string option \<times> 'w"
  rc_call :: "rpc_req \<Rightarrow> 'w \<Rightarrow> (string + rpc_reply) \<times> 'w"

text \<open>Dial, then one call; each failure ends the command with the text the caller makes of it.\<close>

definition ask :: "'w rpc_client \<Rightarrow> (string \<Rightarrow> string) \<Rightarrow> (string \<Rightarrow> string) \<Rightarrow> rpc_req \<Rightarrow>
    (rpc_reply \<Rightarrow> 'w cli \<Rightarrow> 'w cli) \<Rightarrow> 'w cli \<Rightarrow> string option \<times> 'w cli" where
  "ask k undialled failed q show_reply c = (case on_world (rc_dial k) c of
     (Some e, c1) \<Rightarrow> (Some (undialled e), c1)
   | (None, c1) \<Rightarrow> (case on_world (rc_call k q) c1 of
       (Inl e, c2) \<Rightarrow> (Some (failed e), c2)
     | (Inr r, c2) \<Rightarrow> (None, show_reply r c2)))"

text \<open>The adapter of every command: the error on the second output and exit code 1.\<close>

definition entry :: "string option \<times> 'w cli \<Rightarrow> int option \<times> 'w cli" where
  "entry rc = (case rc of (None, c) \<Rightarrow> (Some 0, c) | (Some e, c) \<Rightarrow> (Some 1, put_err (e @ nl) c))"

subsection \<open>auto-clean\<close>

definition ack_flag :: string where "ack_flag = ''i-understand-the-risks''"

definition enable_flags :: flag_set where "enable_flags = [ack_flag \<mapsto> FBool False]"
definition history_flags :: flag_set where "history_flags = [''limit'' \<mapsto> FInt 50]"

definition yn_str :: "bool \<Rightarrow> string" where
  "yn_str b = (if b then ''enabled'' else ''disabled'')"

definition if_blank :: "string \<Rightarrow> string \<Rightarrow> string" where
  "if_blank s alt = (if s = [] then alt else s)"

definition bool_text :: "bool \<Rightarrow> string" where
  "bool_text b = (if b then ''true'' else ''false'')"

text \<open>\<open>%v\<close> of a list of strings.\<close>

definition list_text :: "string list \<Rightarrow> string" where
  "list_text ss = ''['' @ join_with '' '' ss @ '']''"

text \<open>\<open>ftxt\<close> gives the text of a flag error.\<close>

definition auto_clean_enable :: "(flag_err \<Rightarrow> string) \<Rightarrow> 'w rpc_client \<Rightarrow> time \<Rightarrow> string list \<Rightarrow> 'w cli \<Rightarrow> string option \<times> 'w cli" where
  "auto_clean_enable ftxt k tm args c = (case flag_parse enable_flags args of
     Inl e \<Rightarrow> (Some (ftxt e), c)
   | Inr (fs, r) \<Rightarrow>
       if \<not> flag_bool fs ack_flag
       then (Some (''auto-clean is disabled by default. To enable, you must '' @
          ''explicitly acknowledge that this allows the daemon to delete files. '' @
          ''Run: noo-noo auto-clean enable --i-understand-the-risks''), c)
       else ask k id id (ReqToggle True (fmt_rfc3339 tm)) (\<lambda>rep.
          put (''auto-clean enabled. Use '' @ [CHR 0x27] @ ''noo-noo auto-clean status'' @ [CHR 0x27] @ '' to inspect.'' @ nl @
            ''Disable any time with '' @ [CHR 0x27] @ ''noo-noo auto-clean disable'' @ [CHR 0x27] @ '' (takes effect within 60 s).'' @ nl)) c)"

definition auto_clean_disable :: "'w rpc_client \<Rightarrow> 'w cli \<Rightarrow> string option \<times> 'w cli" where
  "auto_clean_disable k = ask k id id (ReqToggle False []) (\<lambda>rep. put (''auto-clean disabled.'' @ nl))"

definition ac_status_text :: "ac_status \<Rightarrow> string" where
  "ac_status_text r = (let a = as_config r in
     ''auto-clean: '' @ yn_str (ac_enabled a) @ nl @
     ''ack timestamp: '' @ if_blank (ac_risk_ack a) ''(never)'' @ nl @
     ''modules allowed: '' @ list_text (ac_modules a) @ nl @
     ''min idle days: '' @ itoa (ac_min_idle a) @ nl @
     ''min size MB: '' @ itoa (ac_min_size_mb a) @ nl @
     ''size cap per tick: '' @ itoa (ac_cap_gb a) @ '' GB'' @ nl @
     ''recent activity:'' @ nl @ ''  deletions last 7d: '' @ itoa (as_deletions r) @ nl @
     ''  bytes freed last 7d: '' @ itoa (as_freed r) @ nl)"

definition auto_clean_status_cmd :: "'w rpc_client \<Rightarrow> 'w cli \<Rightarrow> string option \<times> 'w cli" where
  "auto_clean_status_cmd k = ask k id id ReqAutoClean (\<lambda>rep. case rep of RepAutoClean r \<Rightarrow> put (ac_status_text r) | _ \<Rightarrow> id)"

text \<open>The limit is parsed and sent, and the server does not read it.\<close>

definition auto_clean_history :: "(flag_err \<Rightarrow> string) \<Rightarrow> 'w rpc_client \<Rightarrow> string list \<Rightarrow> 'w cli \<Rightarrow> string option \<times> 'w cli" where
  "auto_clean_history ftxt k args c = (case flag_parse history_flags args of
     Inl e \<Rightarrow> (Some (ftxt e), c)
   | Inr fsr \<Rightarrow> ask k id id ReqAutoClean (\<lambda>rep. case rep of
       RepAutoClean r \<Rightarrow> put (''auto-clean history (last 7d): '' @ itoa (as_deletions r) @ '' deletions, '' @ itoa (as_freed r) @ '' bytes freed'' @ nl)
     | _ \<Rightarrow> id) c)"

definition auto_clean_cmd :: "(flag_err \<Rightarrow> string) \<Rightarrow> 'w rpc_client \<Rightarrow> time \<Rightarrow> string list \<Rightarrow> 'w cli \<Rightarrow> string option \<times> 'w cli" where
  "auto_clean_cmd ftxt k tm args c = (case args of
     [] \<Rightarrow> (Some ''usage: noo-noo auto-clean enable|disable|status|history'', c)
   | verb # rest \<Rightarrow>
       if verb = ''enable'' then auto_clean_enable ftxt k tm rest c
       else if verb = ''disable'' then auto_clean_disable k c
       else if verb = ''status'' then auto_clean_status_cmd k c
       else if verb = ''history'' then auto_clean_history ftxt k rest c
       else (Some (''unknown verb '' @ go_quote verb @ '' (try enable|disable|status|history)''), c))"

subsection \<open>suggestions\<close>

definition sugg_row :: "time \<Rightarrow> suggestion \<Rightarrow> string" where
  "sugg_row tm s = itoa (sg_id s) @ tab @ sg_module s @ tab @ sg_risk s @ tab @
     dur_string (dur_round (sub_time tm (sg_created s)) hour) @ tab @ sg_target s @ tab @ sg_reason s @ nl"

definition render_list :: "(string \<Rightarrow> string) \<Rightarrow> time \<Rightarrow> suggestion list \<Rightarrow> string" where
  "render_list tw tm ss = (if ss = [] then ''No open suggestions. Disk looks tidy.'' @ nl
     else tw (''ID'' @ tab @ ''MODULE'' @ tab @ ''RISK'' @ tab @ ''AGE'' @ tab @ ''TARGET'' @ tab @ ''REASON'' @ nl @
       concat (map (sugg_row tm) ss)))"

text \<open>A command that is refused after the dial.\<close>

definition dial_refuse :: "'w rpc_client \<Rightarrow> (string \<Rightarrow> string) \<Rightarrow> string \<Rightarrow> 'w cli \<Rightarrow> string option \<times> 'w cli" where
  "dial_refuse k undialled msg c = (case on_world (rc_dial k) c of
     (Some e, c1) \<Rightarrow> (Some (undialled e), c1) | (None, c1) \<Rightarrow> (Some msg, c1))"

text \<open>The daemon is dialled before the subcommand is looked at. \<open>ntxt\<close> is the error of \<open>strconv.ParseInt\<close>.\<close>

definition suggestions_run :: "(string \<Rightarrow> string) \<Rightarrow> (string \<Rightarrow> string) \<Rightarrow> 'w rpc_client \<Rightarrow> time \<Rightarrow> string list \<Rightarrow> 'w cli \<Rightarrow> string option \<times> 'w cli" where
  "suggestions_run tw ntxt k tm args c =
     (let conn = (\<lambda>e. ''connect daemon: '' @ e) in
      case args of
        [] \<Rightarrow> (Some ''usage: noo-noo suggestions [list|dismiss <id>]'', c)
      | sub # rest \<Rightarrow>
          if sub = ''list'' then ask k conn id ReqList (\<lambda>rep. case rep of RepList t ss \<Rightarrow> put (render_list tw tm ss) | _ \<Rightarrow> id) c
          else if sub = ''dismiss'' then
            (case rest of [] \<Rightarrow> dial_refuse k conn ''dismiss requires an id'' c
             | i # r \<Rightarrow> (case parse_int i of
                 None \<Rightarrow> dial_refuse k conn (''parse id: '' @ ntxt i) c
               | Some n \<Rightarrow> ask k conn id (ReqDismiss n) (\<lambda>rep. put (''Dismissed suggestion '' @ itoa n @ ''.'' @ nl)) c))
          else dial_refuse k conn (''unknown subcommand '' @ go_quote sub) c)"

subsection \<open>daemon\<close>

definition unreachable_hint :: string where
  "unreachable_hint = ''if launchd manages it: launchctl kickstart -k gui/$(id -u)/io.noo-noo.d''"

text \<open>\<open>run\<close> is the runner: its output, and the error if it failed.\<close>

definition launchctl_run :: "(string \<Rightarrow> string list \<Rightarrow> 'w \<Rightarrow> (string \<times> string option) \<times> 'w) \<Rightarrow> path \<Rightarrow> string \<Rightarrow> string \<Rightarrow>
    'w cli \<Rightarrow> string option \<times> 'w cli" where
  "launchctl_run run plist verb said c = (case on_world (run ''launchctl'' [verb, plist]) c of
     ((out, Some e), c1) \<Rightarrow> (Some (''launchctl '' @ verb @ '': '' @ e @ '' ('' @ out @ '')''), c1)
   | ((out, None), c1) \<Rightarrow> (None, put (said @ nl) c1))"

definition daemon_run :: "(string \<Rightarrow> string list \<Rightarrow> 'w \<Rightarrow> (string \<times> string option) \<times> 'w) \<Rightarrow> path \<Rightarrow> 'w rpc_client \<Rightarrow>
    string list \<Rightarrow> 'w cli \<Rightarrow> string option \<times> 'w cli" where
  "daemon_run run plist k args c =
     (case args of
        [] \<Rightarrow> (Some ''usage: noo-noo daemon [start|stop|status|force-scan]'', c)
      | sub # rest \<Rightarrow>
          if sub = ''start'' then launchctl_run run plist ''load'' ''Daemon started.'' c
          else if sub = ''stop'' then launchctl_run run plist ''unload'' ''Daemon stopped.'' c
          else if sub = ''status'' then ask k (\<lambda>e. ''daemon not reachable: '' @ e @ nl @ unreachable_hint) id ReqStatus
            (\<lambda>rep. case rep of RepStatus s \<Rightarrow> put (''noo-nood: running='' @ bool_text (sp_running s) @ '' pid='' @ itoa (sp_pid s) @
               '' version='' @ sp_version s @ '' uptime='' @ dur_string (sp_uptime s) @ nl) | _ \<Rightarrow> id) c
          else if sub = ''force-scan'' then ask k (\<lambda>e. ''daemon not reachable: '' @ e) (\<lambda>e. ''trigger scan: '' @ e) ReqTrigger
            (\<lambda>rep. case rep of RepTrigger r \<Rightarrow> put (''Scan triggered. ok='' @ bool_text (tp_ok r) @ '' suggestions_added='' @ itoa (tp_added r) @
               '' duration_ms='' @ itoa (tp_ms r) @ nl) | _ \<Rightarrow> id) c
          else (Some (''unknown subcommand '' @ go_quote sub), c))"

subsection \<open>The commands against the daemon\<close>

text \<open>The texts and collaborators of a client process. What launchctl does to the daemon is an event of its own.\<close>

record client_env =
  ce_flag_text :: "flag_err \<Rightarrow> string"
  ce_err_text :: "call_err \<Rightarrow> string"
  ce_tabs :: "string \<Rightarrow> string"
  ce_num_text :: "string \<Rightarrow> string"
  ce_launchctl :: "string \<Rightarrow> string list \<Rightarrow> string \<times> string option"
  ce_plist :: path
  ce_sock :: path

definition daemon_client :: "client_env \<Rightarrow> 'x deps \<Rightarrow> config \<Rightarrow> int \<Rightarrow> fate \<Rightarrow> 'x nood rpc_client" where
  "daemon_client e dp cfg pid f =
     \<lparr> rc_dial = (\<lambda>nd. (if dial f then None else Some (''dial unix '' @ ce_sock e), nd)),
       rc_call = (\<lambda>q nd. case rpc_call (serve dp cfg pid nood_handlers) f q nd of
          (Inl x, nd1) \<Rightarrow> (Inl (ce_err_text e x), nd1) | (Inr r, nd1) \<Rightarrow> (Inr r, nd1)) \<rparr>"

definition daemon_commands :: "client_env \<Rightarrow> 'x deps \<Rightarrow> config \<Rightarrow> int \<Rightarrow> time \<Rightarrow> fate \<Rightarrow>
    string \<Rightarrow> (string list \<Rightarrow> 'x nood cli \<Rightarrow> int option \<times> 'x nood cli) option" where
  "daemon_commands e dp cfg pid tm f =
     (let k = daemon_client e dp cfg pid f in
      [''auto-clean'' \<mapsto> (\<lambda>args c. entry (auto_clean_cmd (ce_flag_text e) k tm args c)),
       ''suggestions'' \<mapsto> (\<lambda>args c. entry (suggestions_run (ce_tabs e) (ce_num_text e) k tm args c)),
       ''daemon'' \<mapsto> (\<lambda>args c. entry (daemon_run (\<lambda>n a w. (ce_launchctl e n a, w)) (ce_plist e) k args c))])"

text \<open>\<open>main\<close> of the command line: the version, or the dispatcher.\<close>

definition noo_main :: "string \<Rightarrow> (string \<Rightarrow> (string list \<Rightarrow> 'w cli \<Rightarrow> int option \<times> 'w cli) option) \<Rightarrow> string list \<Rightarrow>
    'w cli \<Rightarrow> int option \<times> 'w cli" where
  "noo_main usage commands argv c =
     (if length argv = 2 \<and> (argv ! 1 = ''--version'' \<or> argv ! 1 = ''-v'') then (Some 0, put (''noo-noo '' @ nood_version @ nl) c)
      else app_run usage commands argv c)"

end
