(* ===== verification/Consent.thy ===== *)
theory Consent
  imports CliDaemon
begin

text \<open>
  The daemon, the commands that talk to it and the menu-bar companion as one system: unattended deletion
  starts only with the command that acknowledges the risk.
\<close>

text \<open>A trigger is consumed; a command is typed at a time, with some fate of its connection; the companion
  polls; launchd restarts the daemon, which reads its configuration again.\<close>

datatype sys_event = SysTick trigger | SysCmd fate time "string list" | SysPoll fate fate | SysRestart

definition sys_cmd :: "client_env \<Rightarrow> 'x deps \<Rightarrow> config \<Rightarrow> int \<Rightarrow> fate \<Rightarrow> time \<Rightarrow> string list \<Rightarrow> 'x nood cli \<Rightarrow> int option \<times> 'x nood cli" where
  "sys_cmd e dp cfg pid f tm argv = noo_main [] (daemon_commands e dp cfg pid tm f) argv"

definition at_world :: "'w \<Rightarrow> 'w cli" where
  "at_world w = \<lparr> cl_world = w, cl_in = [], cl_out = [], cl_err = [],
     cl_audit = \<lparr> ao_files = Map.empty, ao_dirs = [], ao_fails = (\<lambda>n. False), ao_short = (\<lambda>n. 0), ao_clock = (\<lambda>n. 0), ao_calls = 0 \<rparr> \<rparr>"

definition sys_step :: "client_env \<Rightarrow> 'x deps \<Rightarrow> config \<Rightarrow> int \<Rightarrow> sys_event \<Rightarrow> 'x nood \<Rightarrow> 'x nood" where
  "sys_step e dp cfg pid ev nd = (case ev of
     SysTick t \<Rightarrow> nood_tick dp cfg t nd
   | SysCmd f tm argv \<Rightarrow> cl_world (snd (sys_cmd e dp cfg pid f tm argv (at_world nd)))
   | SysPoll f g \<Rightarrow> (case rpc_call (serve dp cfg pid nood_handlers) f ReqStatus nd of
         (Inl x, nd1) \<Rightarrow> nd1 | (Inr r, nd1) \<Rightarrow> snd (rpc_call (serve dp cfg pid nood_handlers) g ReqList nd1))
   | SysRestart \<Rightarrow> nood_start cfg (nd_world nd))"

definition sys_run :: "client_env \<Rightarrow> 'x deps \<Rightarrow> config \<Rightarrow> int \<Rightarrow> sys_event list \<Rightarrow> 'x nood \<Rightarrow> 'x nood" where
  "sys_run e dp cfg pid evs nd = fold (sys_step e dp cfg pid) evs nd"

text \<open>The consenting command: \<open>auto-clean enable\<close> with a token that names the flag, whose value is true.\<close>

definition names_flag :: "string \<Rightarrow> string \<Rightarrow> bool" where
  "names_flag n t \<longleftrightarrow> has_prefix t ''-'' \<and> (case flag_token t of Inr (m, v) \<Rightarrow> m = n | Inl e \<Rightarrow> False)"

definition acks :: "string list \<Rightarrow> bool" where
  "acks args \<longleftrightarrow> list_ex (names_flag ''i-understand-the-risks'') args \<and>
     (case flag_parse enable_flags args of Inr (fs, r) \<Rightarrow> flag_bool fs ack_flag | Inl e \<Rightarrow> False)"

definition consents :: "sys_event \<Rightarrow> bool" where
  "consents ev \<longleftrightarrow> (case ev of
     SysCmd f tm argv \<Rightarrow> (case argv of n # cmd # verb # rest \<Rightarrow> cmd = ''auto-clean'' \<and> verb = ''enable'' \<and> acks rest | _ \<Rightarrow> False)
   | _ \<Rightarrow> False)"

subsection \<open>A flag nobody names\<close>

lemma flag_one_untouched:
  assumes "flag_one fs us = Inr (b, fs', r)" "\<not> list_ex (names_flag n) us"
  shows "fs' n = fs n"
proof (cases us)
  case (Cons s args)
  show ?thesis
  proof (cases "(length s < 2 \<or> hd s \<noteq> CHR ''-'') \<or> s = ''--''")
    case True
    then show ?thesis using assms(1) Cons flag_one_halt by auto
  next
    case False
    then obtain name v old x where o': "flag_token s = Inr (name, v)" "set_flag fs name old x = Inr fs'"
      using assms(1) Cons by (auto simp: flag_one_read)
    have "has_prefix s ''-''" using False by (cases s) auto
    then have "name \<noteq> n" using assms(2) o'(1) by (auto simp: Cons names_flag_def)
    then show ?thesis using o'(2) by (auto simp: set_flag_def split: option.splits)
  qed
qed (use assms(1) in simp)

lemma flag_parse_untouched:
  "flag_parse fs us = Inr (fs', r) \<Longrightarrow> \<not> list_ex (names_flag n) us \<Longrightarrow> fs' n = fs n"
proof (induction fs us arbitrary: fs' r rule: flag_parse.induct)
  case (1 fs us)
  obtain b f1 r1 where one: "flag_one fs us = Inr (b, f1, r1)" using "1.prems"(1) by (subst (asm) flag_parse.simps) (auto split: sum.splits)
  note f = flag_one_untouched [OF one "1.prems"(2)]
  show ?case
  proof (cases b)
    case True
    then have "flag_parse f1 r1 = Inr (fs', r)" using "1.prems"(1) one by (subst (asm) flag_parse.simps) simp
    moreover have "\<not> list_ex (names_flag n) r1" using flag_one_suffix [OF one] "1.prems"(2) by (auto simp: list_ex_iff)
    ultimately have "fs' n = f1 n" using "1.IH" [OF one refl refl True] by blast
    then show ?thesis using f by simp
  next
    case False
    then show ?thesis using "1.prems"(1) one f by (subst (asm) flag_parse.simps) simp
  qed
qed

lemma acksI: "flag_parse enable_flags args = Inr (fs, r) \<Longrightarrow> flag_bool fs ack_flag \<Longrightarrow> acks args"
proof -
  assume p: "flag_parse enable_flags args = Inr (fs, r)" "flag_bool fs ack_flag"
  have "fs ack_flag \<noteq> enable_flags ack_flag" using p(2) by (simp add: flag_bool_def enable_flags_def)
  then have "list_ex (names_flag ack_flag) args" using flag_parse_untouched [OF p(1)] by blast
  then show ?thesis using p by (simp add: acks_def ack_flag_def)
qed

subsection \<open>One question to the daemon\<close>

lemma put_world [simp]: "cl_world (put s c) = cl_world c" "cl_world (put_err s c) = cl_world c"
  by (simp_all add: put_def put_err_def)

definition same_ask :: "'w rpc_client \<Rightarrow> 'w rpc_client \<Rightarrow> 'w \<Rightarrow> bool" where
  "same_ask k k' w \<longleftrightarrow> rc_dial k' = rc_dial k \<and> snd (rc_dial k w) = w \<and> (\<forall>q. rc_call k' q w = rc_call k q w)"

lemma ask_same: "same_ask k k' (cl_world c) \<Longrightarrow> ask k' u v q s c = ask k u v q s c"
  by (auto simp: ask_def same_ask_def on_world_def split: prod.split option.split)

lemma ask_world:
  assumes "snd (rc_dial k (cl_world c)) = cl_world c" "P (cl_world c)" "P (snd (rc_call k q (cl_world c)))"
    "\<And>r b. cl_world (s r b) = cl_world b"
  shows "P (cl_world (snd (ask k u v q s c)))"
  using assms by (auto simp: ask_def on_world_def split: prod.split option.split sum.split)

lemma dial_refuse_same: "same_ask k k' w \<Longrightarrow> dial_refuse k' u m c = dial_refuse k u m c"
  by (simp add: dial_refuse_def same_ask_def)

lemma dial_refuse_world: "snd (rc_dial k (cl_world c)) = cl_world c \<Longrightarrow> cl_world (snd (dial_refuse k u m c)) = cl_world c"
  by (auto simp: dial_refuse_def on_world_def split: prod.split option.split)

lemma launchctl_world: "(\<And>n a w. snd (r n a w) = w) \<Longrightarrow> cl_world (snd (launchctl_run r pl v m c)) = cl_world c"
proof -
  assume "\<And>n a w. snd (r n a w) = w"
  then have "snd (r ''launchctl'' [v, pl] (cl_world c)) = cl_world c" .
  then show ?thesis by (auto simp: launchctl_run_def on_world_def split: prod.split option.split)
qed

lemma entry_world [simp]: "cl_world (snd (entry rc)) = cl_world (snd rc)"
  by (auto simp: entry_def split: prod.split option.split)

lemmas cmd_defs = auto_clean_cmd_def auto_clean_enable_def auto_clean_disable_def auto_clean_status_cmd_def auto_clean_history_def

lemma auto_clean_same: "same_ask k k' (cl_world c) \<Longrightarrow> auto_clean_cmd ft k' tm args c = auto_clean_cmd ft k tm args c"
  unfolding cmd_defs by (simp add: ask_same split: list.split sum.split prod.split)

lemma suggestions_same: "same_ask k k' (cl_world c) \<Longrightarrow> suggestions_run tw nt k' tm args c = suggestions_run tw nt k tm args c"
  unfolding suggestions_run_def Let_def by (simp add: ask_same dial_refuse_same split: list.split option.split)

lemma daemon_same: "same_ask k k' (cl_world c) \<Longrightarrow> daemon_run r pl k' args c = daemon_run r pl k args c"
  unfolding daemon_run_def Let_def by (simp add: ask_same split: list.split)

subsection \<open>The commands while auto-clean is off\<close>

definition off :: "'x nood \<Rightarrow> bool" where
  "off nd \<longleftrightarrow> \<not> ac_enabled (nd_ac nd)"

lemma client_dial [simp]: "snd (rc_dial (daemon_client e dp cfg pid f) nd) = nd"
  by (simp add: daemon_client_def)

lemma client_call: "snd (rc_call (daemon_client e dp cfg pid f) q nd) = snd (rpc_call (serve dp cfg pid nood_handlers) f q nd)"
  by (simp add: daemon_client_def split: prod.split sum.split)

lemma client_same:
  "same_but_deleters dp dp' \<Longrightarrow> off nd \<Longrightarrow> same_ask (daemon_client e dp cfg pid f) (daemon_client e dp' cfg pid f) nd"
  by (simp add: same_ask_def daemon_client_def off_def disabled_call)

lemma ask_off:
  assumes "off (cl_world c)" "\<not> switches_on q" "\<And>r b. cl_world (s r b) = cl_world b"
  shows "off (cl_world (snd (ask (daemon_client e dp cfg pid f) u v q s c)))"
  by (rule ask_world) (use assms rpc_call_ac [OF assms(2), of dp cfg pid nood_handlers f "cl_world c"] in \<open>auto simp: client_call off_def\<close>)

lemma quiet_requests [simp]:
  "\<not> switches_on ReqList" "\<not> switches_on (ReqDismiss i)" "\<not> switches_on ReqStatus" "\<not> switches_on ReqTrigger"
  "\<not> switches_on ReqAutoClean" "\<not> switches_on (ReqToggle False a)"
  by (simp_all add: switches_on_def)

lemma auto_clean_off:
  assumes "off (cl_world c)" "\<And>rest. args = ''enable'' # rest \<Longrightarrow> \<not> acks rest"
  shows "off (cl_world (snd (auto_clean_cmd ft (daemon_client e dp cfg pid f) tm args c)))"
proof (cases args)
  case (Cons verb rest)
  have "off (cl_world (snd (auto_clean_enable ft (daemon_client e dp cfg pid f) tm rest c)))" if "verb = ''enable''"
    using assms that Cons acksI by (auto simp: auto_clean_enable_def split: sum.split prod.split)
  moreover have "off (cl_world (snd (auto_clean_disable (daemon_client e dp cfg pid f) c)))"
    unfolding auto_clean_disable_def by (rule ask_off) (simp_all add: assms)
  moreover have "off (cl_world (snd (auto_clean_status_cmd (daemon_client e dp cfg pid f) c)))"
    unfolding auto_clean_status_cmd_def by (rule ask_off) (simp_all add: assms split: rpc_reply.split)
  moreover have "off (cl_world (snd (auto_clean_history ft (daemon_client e dp cfg pid f) rest c)))"
    unfolding auto_clean_history_def
    by (simp split: sum.split) (intro conjI allI impI ask_off; simp add: assms split: rpc_reply.split)
  ultimately show ?thesis using assms(1) by (simp add: auto_clean_cmd_def Cons)
qed (simp add: auto_clean_cmd_def assms)

lemma suggestions_off:
  assumes "off (cl_world c)"
  shows "off (cl_world (snd (suggestions_run tw nt (daemon_client e dp cfg pid f) tm args c)))"
proof -
  have "off (cl_world (snd (ask (daemon_client e dp cfg pid f) u v ReqList
      (\<lambda>rep. case rep of RepList t ss \<Rightarrow> put (render_list tw tm ss) | _ \<Rightarrow> id) c)))" for u v
    by (rule ask_off) (simp_all add: assms split: rpc_reply.split)
  moreover have "off (cl_world (snd (ask (daemon_client e dp cfg pid f) u v (ReqDismiss n) (\<lambda>rep. put t) c)))" for u v n t
    by (rule ask_off) (simp_all add: assms)
  ultimately show ?thesis using assms
    by (simp add: suggestions_run_def Let_def dial_refuse_world split: list.split option.split)
qed

lemma daemon_off:
  assumes "off (cl_world c)" "\<And>n a w. snd (r n a w) = w"
  shows "off (cl_world (snd (daemon_run r pl (daemon_client e dp cfg pid f) args c)))"
proof -
  have "off (cl_world (snd (ask (daemon_client e dp cfg pid f) u v q
      (\<lambda>rep. case rep of RepStatus s \<Rightarrow> put (t s) | _ \<Rightarrow> id) c)))" if "q = ReqStatus" for u v q t
    unfolding that by (rule ask_off) (simp_all add: assms split: rpc_reply.split)
  moreover have "off (cl_world (snd (ask (daemon_client e dp cfg pid f) u v q
      (\<lambda>rep. case rep of RepTrigger s \<Rightarrow> put (t s) | _ \<Rightarrow> id) c)))" if "q = ReqTrigger" for u v q t
    unfolding that by (rule ask_off) (simp_all add: assms split: rpc_reply.split)
  ultimately show ?thesis using assms launchctl_world [of r, OF assms(2)]
    by (simp add: daemon_run_def split: list.split)
qed

subsection \<open>The system\<close>

lemma sys_cmd_cases:
  fixes c :: "'x nood cli"
  obtains (other) "\<And>e dp. cl_world (snd (sys_cmd e dp cfg pid f tm argv c)) = cl_world c"
  | (auto) n args where "argv = n # ''auto-clean'' # args"
      "\<And>e dp. snd (sys_cmd e dp cfg pid f tm argv c) =
        snd (entry (auto_clean_cmd (ce_flag_text e) (daemon_client e dp cfg pid f) tm args c))"
  | (sugg) args where "\<And>e dp. snd (sys_cmd e dp cfg pid f tm argv c) =
        snd (entry (suggestions_run (ce_tabs e) (ce_num_text e) (daemon_client e dp cfg pid f) tm args c))"
  | (dmn) args where "\<And>e dp. snd (sys_cmd e dp cfg pid f tm argv c) =
        snd (entry (daemon_run (\<lambda>n a w. (ce_launchctl e n a, w)) (ce_plist e) (daemon_client e dp cfg pid f) args c))"
proof (cases "length argv = 2 \<and> (argv ! 1 = ''--version'' \<or> argv ! 1 = ''-v'')")
  case True
  then show ?thesis using other by (simp add: sys_cmd_def noo_main_def)
next
  case False
  show ?thesis
  proof (cases "\<exists>n cmd args. argv = n # cmd # args \<and> cmd \<in> {''auto-clean'', ''suggestions'', ''daemon''}")
    case True
    then obtain n cmd args where a: "argv = n # cmd # args" "cmd \<in> {''auto-clean'', ''suggestions'', ''daemon''}" by blast
    note run = sys_cmd_def noo_main_def app_run_def daemon_commands_def Let_def if_not_P [OF False]
    consider "cmd = ''auto-clean''" | "cmd = ''suggestions''" | "cmd = ''daemon''" using a(2) by blast
    then show ?thesis
    proof cases
      case 1
      show ?thesis by (rule auto [of n args]) (simp_all add: run a(1) 1)
    next
      case 2
      show ?thesis by (rule sugg [of args]) (simp_all add: run a(1) 2)
    next
      case 3
      show ?thesis by (rule dmn [of args]) (simp_all add: run a(1) 3)
    qed
  next
    case no: False
    have "cl_world (snd (sys_cmd e dp cfg pid f tm argv c)) = cl_world c" for e dp
    proof (cases "\<exists>n cmd args. argv = n # cmd # args")
      case True
      then obtain n cmd args where a: "argv = n # cmd # args" by blast
      then have "daemon_commands e dp cfg pid tm f cmd = None" using no by (simp add: daemon_commands_def Let_def)
      then show ?thesis unfolding sys_cmd_def noo_main_def if_not_P [OF False] app_run_def a by simp
    next
      case few: False
      then have "app_run [] k argv c = (Some 0, put [] c)" for k :: "string \<Rightarrow> (string list \<Rightarrow> 'x nood cli \<Rightarrow> int option \<times> 'x nood cli) option"
        by (simp add: app_run_def split: list.split)
      then show ?thesis unfolding sys_cmd_def noo_main_def if_not_P [OF False] by simp
    qed
    then show ?thesis using other by blast
  qed
qed

lemma sys_step_off:
  assumes same: "same_but_deleters dp dp'" and o1: "off nd" and cfg: "\<not> cc_enabled (cf_auto_clean cfg)" and no: "\<not> consents ev"
  shows "sys_step e dp' cfg pid ev nd = sys_step e dp cfg pid ev nd \<and> off (sys_step e dp cfg pid ev nd)"
proof (cases ev)
  case (SysTick t)
  then show ?thesis using disabled_nood_tick [OF same] o1 by (simp add: sys_step_def off_def)
next
  case (SysCmd f tm argv)
  have w: "cl_world (at_world nd) = nd" by (simp add: at_world_def)
  have k: "same_ask (daemon_client e dp cfg pid f) (daemon_client e dp' cfg pid f) (cl_world (at_world nd))"
    using client_same [OF same o1] by (simp add: w)
  show ?thesis
  proof (cases rule: sys_cmd_cases [of cfg pid f tm argv "at_world nd"])
    case other
    then show ?thesis using o1 SysCmd w by (simp add: sys_step_def)
  next
    case (auto n args)
    have "\<not> acks rest" if "args = ''enable'' # rest" for rest using no that auto(1) SysCmd by (simp add: consents_def)
    then show ?thesis using auto_clean_same [OF k] auto_clean_off [of "at_world nd"] o1 SysCmd
      by (simp add: sys_step_def auto(2) w)
  next
    case (sugg args)
    then show ?thesis using suggestions_same [OF k] suggestions_off [of "at_world nd"] o1 SysCmd by (simp add: sys_step_def w)
  next
    case (dmn args)
    then show ?thesis using daemon_same [OF k] daemon_off [of "at_world nd"] o1 SysCmd by (simp add: sys_step_def w)
  qed
next
  case (SysPoll f g)
  obtain r nd1 where s: "rpc_call (serve dp cfg pid nood_handlers) f ReqStatus nd = (r, nd1)" by fastforce
  have "off nd1" using rpc_call_ac [of ReqStatus dp cfg pid nood_handlers f nd] o1 by (simp add: s off_def)
  moreover have "off (snd (rpc_call (serve dp cfg pid nood_handlers) g ReqList nd1))" if "off nd1"
    using rpc_call_ac [of ReqList dp cfg pid nood_handlers g nd1] that by (simp add: off_def)
  ultimately show ?thesis using disabled_call [OF same] o1
    by (simp add: sys_step_def SysPoll s off_def split: sum.split)
next
  case SysRestart
  then show ?thesis using cfg by (simp add: sys_step_def off_def nood_start_def auto_clean_config_from_cfg_def split: prod.split)
qed

text \<open>
  C1. Unattended deletion needs the consenting command. With a configuration that leaves auto-clean off, and as
  long as nobody types \<open>auto-clean enable\<close> with the flag that acknowledges the risks, the daemon never consults
  a deleter: through all ticks, forced scans, commands, polls and restarts, and whatever connections and
  database statements fail, replacing the modules' deleters changes nothing, and auto-clean stays off.
\<close>

theorem unattended_needs_consent:
  assumes "same_but_deleters dp dp'" "\<not> cc_enabled (cf_auto_clean cfg)" "\<not> list_ex consents evs"
  shows "sys_run e dp' cfg pid evs (nood_start cfg w) = sys_run e dp cfg pid evs (nood_start cfg w) \<and>
    \<not> ac_enabled (nd_ac (sys_run e dp cfg pid evs (nood_start cfg w)))"
proof -
  have run: "sys_run e dp' cfg pid evs nd = sys_run e dp cfg pid evs nd \<and> off (sys_run e dp cfg pid evs nd)"
    if "off nd" "\<not> list_ex consents evs" for evs nd
    using that
  proof (induction evs arbitrary: nd)
    case (Cons ev evs)
    then show ?case using sys_step_off [OF assms(1) Cons.prems(1) assms(2), of ev e pid]
      by (simp add: sys_run_def)
  qed (simp add: sys_run_def)
  have "off (nood_start cfg w)"
    using assms(2) by (simp add: off_def nood_start_def auto_clean_config_from_cfg_def split: prod.split)
  from run [OF this assms(3)] show ?thesis by (simp add: off_def)
qed

definition demo_client_env :: client_env where
  "demo_client_env = \<lparr> ce_flag_text = (\<lambda>e. ''flag''), ce_err_text = (\<lambda>e. ''rpc''), ce_tabs = id, ce_num_text = id,
     ce_launchctl = (\<lambda>n a. ([], None)), ce_plist = ''/p'', ce_sock = ''/s'' \<rparr>"

definition demo_events :: "sys_event list" where
  "demo_events = [SysTick TriggerDaily, SysCmd Answered 0 [''noo-noo'', ''auto-clean'', ''enable''],
     SysCmd Answered 0 [''noo-noo'', ''auto-clean'', ''enable'', ''-i-understand-the-risks=false''], SysRestart,
     SysCmd LostReply 0 [''noo-noo'', ''daemon'', ''force-scan''], SysPoll Answered Refused]"

lemma unattended_needs_consent_witness:
  "\<not> ac_enabled (nd_ac (sys_run demo_client_env (demo_deps leaks_cfg) (default_config ''/h'') 7 demo_events
      (nood_start (default_config ''/h'') (demo_world (\<lambda>n. False)))))"
proof -
  have same: "same_but_deleters (demo_deps leaks_cfg) ((demo_deps leaks_cfg)\<lparr>dp_dev_delete := (\<lambda>p w. ((1, None), w))\<rparr>)"
    unfolding same_but_deleters_def by (intro exI [of _ "\<lambda>p w. ((1, None), w)"] exI [of _ "dp_leak_delete (demo_deps leaks_cfg)"]
      exI [of _ "dp_wt_delete (demo_deps leaks_cfg)"]) simp
  have "\<not> cc_enabled (cf_auto_clean (default_config ''/h''))" by (simp add: default_config_def)
  moreover have "\<not> list_ex consents demo_events" by code_simp
  ultimately show ?thesis using unattended_needs_consent [OF same, of "default_config ''/h''" demo_events] by blast
qed

text \<open>The consenting command, once answered, switches the snapshot on and stamps it with its time; an answered
  \<open>disable\<close> switches it off; neither survives a restart.\<close>

lemma enable_switches_on:
  assumes "acks rest"
  shows "nd_ac (sys_step e dp cfg pid (SysCmd Answered tm (n # ''auto-clean'' # ''enable'' # rest)) nd) =
    (nd_ac nd)\<lparr> ac_enabled := True, ac_risk_ack := fmt_rfc3339 tm \<rparr>"
proof -
  have stamped: "fmt_rfc3339 tm \<noteq> []" by (simp add: fmt_rfc3339_def Let_def)
  obtain fs r where p: "flag_parse enable_flags rest = Inr (fs, r)" "flag_bool fs ack_flag"
    using assms by (auto simp: acks_def split: sum.splits)
  have "service_of (ReqToggle b a) \<in> set (registered nood_handlers)" for b a
    by (simp add: service_of_def registered_def nood_handlers_def)
  then have s: "serve dp cfg pid nood_handlers (ReqToggle True (fmt_rfc3339 tm)) nd =
      (Inr (RepToggle True (fmt_rfc3339 tm)), nd\<lparr> nd_ac := (nd_ac nd)\<lparr> ac_enabled := True, ac_risk_ack := fmt_rfc3339 tm \<rparr> \<rparr>)"
    using stamped by (simp add: serve_def autoclean_toggle_def Let_def)
  have "auto_clean_enable (ce_flag_text e) (daemon_client e dp cfg pid Answered) tm rest (at_world nd) =
      ask (daemon_client e dp cfg pid Answered) id id (ReqToggle True (fmt_rfc3339 tm)) (\<lambda>rep.
          put (''auto-clean enabled. Use '' @ [CHR 0x27] @ ''noo-noo auto-clean status'' @ [CHR 0x27] @ '' to inspect.'' @ nl @
            ''Disable any time with '' @ [CHR 0x27] @ ''noo-noo auto-clean disable'' @ [CHR 0x27] @ '' (takes effect within 60 s).'' @ nl)) (at_world nd)"
    using p by (simp add: auto_clean_enable_def)
  then show ?thesis
    by (simp add: sys_step_def sys_cmd_def noo_main_def app_run_def daemon_commands_def Let_def auto_clean_cmd_def
        ask_def daemon_client_def dial_def on_world_def at_world_def rpc_call_def s del: append.simps)
qed

lemma restart_forgets: "nd_ac (sys_step e dp cfg pid SysRestart nd) = auto_clean_config_from_cfg (cf_auto_clean cfg)"
  by (simp add: sys_step_def nood_start_def split: prod.split)

end
