(* ===== verification/Spec2Isabelle.thy ===== *)
theory Spec2Isabelle
  imports Dedup TickProps TickLimits Pending Safety LeakSafe WorktreesSafe ProcsigProps
    Trend Pressure Scan Vmdisk Instance OrphanApps CleanModules CliReadOnly CliJudge
    CliStatus MenubarProps Notify OffloadSizes MemoryOrder Consent
begin

text \<open>
  A verification library of noo-noo, a disk-space cleaner for macOS written in Go: a command line
  (\<open>cmd/noo-noo\<close>, \<open>internal/cli\<close>), a background daemon (\<open>cmd/noo-nood\<close>), a menu-bar companion
  (\<open>cmd/noo-noo-app\<close>, \<open>internal/menubar\<close>) and the modules they share under \<open>internal/\<close>.

  \<^bold>\<open>How the program works.\<close> The daemon ticks: once a day at a configured hour, when the pressure watcher
  sees the disk low for a window, or when a client asks. A tick scans the disk into a SQLite store, lets the
  heuristics turn the rows and the findings of the modules into suggestions, stores the new ones, and, if
  the user has switched unattended cleaning on and acknowledged the risk, runs the gate cascade and the
  modules' deleters over them within a byte budget, writing an audit row before each deletion. At most one
  queued relocation is re-checked per daily tick. Clients reach the daemon by JSON-RPC over a Unix socket
  that exactly one daemon may own. The commands work on the same modules directly, each with a prompt, a
  dry run and an append-only log.

  \<^bold>\<open>Conventions.\<close> A Go string is the list of its bytes, a time the nanoseconds since the epoch, an \<open>int64\<close> an
  \<open>int\<close> with \<open>wrap64\<close> (or \<open>wrap_u64\<close>) written where the code's arithmetic can leave the range, a \<open>float64\<close>
  the rational it denotes with \<open>fl\<close> at every rounding. A \<open>(T, error)\<close> is a sum or an option, an exit code
  \<open>None\<close> is a process that dies on a nil pointer. State is passed: the file system with its pending call
  failures is a \<open>machine\<close> (\<open>Fs\<close>), the store carries the stream of its failing statements (\<open>Store\<close>), the
  world of the daemon adds a clock (\<open>EventLog\<close>). Any system call and any statement may fail, at any point,
  and the properties quantify over those streams. A context that may be cancelled is a predicate polled
  with a count. What the code injects (interfaces, function variables) is an argument or a record field; so
  are external tools, encoders and the prose of errors. What a property needs of an injected part is a named
  hypothesis (\<open>quiet\<close>: it leaves the file tree alone), and its witness instantiates it.

  \<^bold>\<open>Foundations.\<close> \<open>Prelude\<close> (durations, wrap-around, sums), \<open>GoStrings\<close>, \<open>GoText\<close>, \<open>GoPaths\<close>, \<open>GoGlob\<close>, \<open>GoFlag\<close>
  (the parts of Go's standard library the program uses, with their laws), \<open>Float64\<close> and \<open>FloatProps\<close>,
  \<open>Fs\<close>, \<open>Walk\<close>, \<open>FsGlob\<close> (files with symbolic links, \<open>WalkDir\<close>, \<open>Glob\<close>), \<open>Types\<close> (the shared data).

  \<^bold>\<open>Deletion gates.\<close> \<open>Safety\<close> is \<open>internal/core/safety.go\<close>: the two gates, characterised exactly on cleaned
  paths and glob matches. \<open>VolGuard\<close> and \<open>Volumes\<close> are \<open>internal/core/volguard.go\<close> and \<open>volumes.go\<close>: what an
  accepted destination has been shown to be (\<open>dest_proven\<close>, call by call), and what a probe may leave behind (\<open>probe_left\<close>).

  \<^bold>\<open>Store.\<close> \<open>Store\<close> has the tables and one definition per method of \<open>internal/store\<close>; \<open>RelocQueue\<close> the relocation
  queue as a step relation with its invariant; \<open>Dedup\<close> the invariant of the suggestions.

  \<^bold>\<open>Unattended cleaning.\<close> \<open>Autoclean\<close>, \<open>AutocleanApply\<close>, \<open>EventLog\<close> (\<open>internal/autoclean\<close>) with the locale
  \<open>event_store\<close> of the audit interface; \<open>Config\<close>, \<open>Heuristics\<close>; \<open>Tick\<close>, \<open>TickProps\<close>, \<open>TickLimits\<close>
  (\<open>cmd/noo-nood/tick.go\<close>): where a tick can delete at all and how much; \<open>Daemon\<close> (\<open>main.go\<close>): the next tick and
  the two lanes of triggers as a step relation; \<open>Pressure\<close> (\<open>internal/pressure\<close>): when the watcher fires;
  \<open>Scan\<close> and \<open>Trend\<close>: what fills and what reads the history.

  \<^bold>\<open>Modules.\<close> \<open>Sizer\<close> (truth-sizing over physical extents, its union against the set of bytes), \<open>Families\<close>,
  \<open>Liveness\<close>, \<open>Leaks\<close>, \<open>LeakSweep\<close> with \<open>LeakSafe\<close> (\<open>internal/leaks\<close>), \<open>Worktrees\<close> with \<open>WorktreesSafe\<close>,
  \<open>Procsig\<close> with \<open>ProcsigProps\<close>, \<open>OrphanApps\<close>, \<open>CleanModules\<close> (dev, caches, startup), \<open>Offload\<close>, \<open>OffloadSizes\<close> with
  \<open>OffloadSafe\<close> and the queue run \<open>Pending\<close>, \<open>Vmdisk\<close>, \<open>Memory\<close> with \<open>MemoryOrder\<close> (the verdict is monotone
  while the swap space stays the same, and not when it grows), \<open>MemReport\<close>. The safety theories say what
  the module's \<open>Apply\<close> may remove, signal or move, for every pattern of failures; \<open>Removal\<close> has their common
  relation between two trees.

  \<^bold>\<open>Command line.\<close> \<open>Output\<close>, \<open>AuditLog\<close>, \<open>CliCore\<close> (dispatch, prompt, the clean sequence), \<open>CliClean\<close> with \<open>CliSafe\<close>
  (dev, caches, apps, leaks), \<open>CliSystem\<close> with \<open>CliSystemSafe\<close> and \<open>CliJudge\<close> (startup, orphans, worktrees),
  \<open>CliOffload\<close>, \<open>CliReport\<close> with \<open>CliReadOnly\<close>, \<open>CliTrends\<close>, \<open>CliStatus\<close>, \<open>CliDaemon\<close> (auto-clean, suggestions,
  daemon), \<open>Notify\<close> (notifications, launch agent, install). Each command is the whole function: flags, scan,
  text, prompt, effects, exit code. The audit log's directory and files are a world of their own beside the file tree
  (\<open>cl_audit\<close>), so a statement about the tree says nothing of them; \<open>audit_effect\<close> bounds what a command does there, for
  \<open>dev\<close> as part of its property. The laws a cleaning module gives its command are the locale \<open>cleaner\<close>.

  \<^bold>\<open>Processes.\<close> \<open>Instance\<close> interleaves the system calls of any number of daemons on one socket path; \<open>Ipc\<close> has the
  RPC methods; \<open>NooNood\<close> joins services, live snapshot and ticks into the running daemon, with a transport
  that may lose requests and answers; \<open>Menubar\<close> with \<open>MenubarProps\<close> is the companion; \<open>Consent\<close> composes daemon,
  commands and companion and shows that nothing is deleted unattended before the consenting command.

  \<^bold>\<open>Interfaces.\<close> \<open>event_store\<close> (audit rows), \<open>queue_store\<close> (relocation queue), \<open>cleaner\<close> (module of a clean
  command) and \<open>series_query\<close> (a read of the history) state what a client relies on; each is interpreted on the
  definitions that model its provider in the code.

  \<^bold>\<open>Bounds and termination.\<close> Symbolic links are followed at most 32 times, as the kernel does (\<open>max_symlinks\<close>); a climb
  to parent directories has the length of the path as fuel, which ends at the root; the repository walk
  stops at the depth the code gives it. The wait for a process to end is a \<open>partial_function (option)\<close> whose
  termination is the property \<open>CliSystemSafe.orphans_cmd_returns\<close>. The watcher's buffer is assumed shorter
  than \<open>2 ^ 32\<close> samples. All other recursion is structural or has a measure.

  \<^bold>\<open>Not modelled.\<close> The SQLite driver, opening a database and its schema; the JSON and TOML codecs, the tab
  writer, \<open>net/rpc\<close> with its accept loop, and the text the flag package prints; goroutines beyond the trigger
  lanes, the instance lock and the order of whole events (a toggle that overlaps a tick is a data race in
  the code and one event here); signals and shutdown; birth times of files, one field of a stat; Wails, its
  windows, the tray adapter and the Svelte panel; \<open>runScan\<close>, which the daemon replaces before it starts; log
  lines. White space and case of parsed tool output are the ASCII ones. The sorts of the standard library
  are stable here; no property depends on the order of equal keys.
\<close>

end
